(* ===== verification/JS_Prelude.thy ===== *)
theory JS_Prelude
  imports Complex_Main "HOL-Library.AList" "HOL-Library.Multiset" "HOL-Library.Char_ord"
    "HOL-Library.List_Lexorder"
begin

text \<open>
  Shared vocabulary of the development.

  \<^item> A TypeScript function that may throw is a function into a sum, \<open>Inl\<close> the thrown error and
    \<open>Inr\<close> the value; \<open>bindE\<close> sequences two of them and \<open>foldE\<close> is a \<open>for ... of\<close> loop whose body
    may throw.
  \<^item> A JavaScript \<open>Map\<close>, \<open>Set\<close> or plain \<open>Record\<close> iterates in insertion order, so it is an
    association list: \<open>js_get\<close>, \<open>js_set\<close> (update in place, else append) and \<open>js_delete\<close>. The
    locale \<open>keyed_store\<close> states what the components rely on of such a map, and is interpreted on
    these three functions.
  \<^item> \<open>js_sort\<close> is \<open>Array.prototype.sort\<close> with a comparator: a stable sort.
  \<^item> \<open>json\<close> is the \<open>JsonValue\<close> type; numbers that the code divides are rationals.
\<close>

named_theorems store_simps "equations of the store operations"
named_theorems inv_intro "preservation of the state invariants"
named_theorems ctx_simps "equations of the conversation context functions"

section \<open>Throwing computations\<close>

fun bindE :: "'e + 'a \<Rightarrow> ('a \<Rightarrow> 'e + 'b) \<Rightarrow> 'e + 'b" where
  "bindE (Inl e) f = Inl e"
| "bindE (Inr a) f = f a"

lemma bindE_Inr_iff: "bindE r f = Inr b \<longleftrightarrow> (\<exists>a. r = Inr a \<and> f a = Inr b)"
  by (cases r) auto

lemma bindE_Inl_iff: "bindE r f = Inl e \<longleftrightarrow> r = Inl e \<or> (\<exists>a. r = Inr a \<and> f a = Inl e)"
  by (cases r) auto

lemma bindE_InrE:
  assumes "bindE r f = Inr b"
  obtains a where "r = Inr a" "f a = Inr b"
  using assms by (auto simp: bindE_Inr_iff)

fun foldE :: "('a \<Rightarrow> 's \<Rightarrow> 'e + 's) \<Rightarrow> 'a list \<Rightarrow> 's \<Rightarrow> 'e + 's" where
  "foldE f [] s = Inr s"
| "foldE f (x # xs) s = bindE (f x s) (foldE f xs)"

lemma foldE_append: "foldE f (xs @ ys) s = bindE (foldE f xs s) (foldE f ys)"
proof (induction xs arbitrary: s)
  case (Cons x xs)
  then show ?case by (cases "f x s") auto
qed simp

lemma foldE_invariant:
  assumes "foldE f xs s = Inr t" and "P s"
    and step: "\<And>x u v. x \<in> set xs \<Longrightarrow> P u \<Longrightarrow> f x u = Inr v \<Longrightarrow> P v"
  shows "P t"
  using assms
proof (induction xs arbitrary: s)
  case (Cons x xs)
  from Cons.prems(1) obtain u where u: "f x s = Inr u" "foldE f xs u = Inr t"
    by (auto elim: bindE_InrE)
  have "P u" using Cons.prems(2,3) u(1) by (meson list.set_intros(1))
  with Cons.IH[OF u(2)] Cons.prems(3) show ?case by (meson list.set_intros(2))
qed simp

text \<open>\<open>xs.map(f)\<close> with an \<open>f\<close> that may throw.\<close>

fun mapE :: "('a \<Rightarrow> 'e + 'b) \<Rightarrow> 'a list \<Rightarrow> 'e + 'b list" where
  "mapE f [] = Inr []"
| "mapE f (x # xs) = bindE (f x) (\<lambda>y. bindE (mapE f xs) (\<lambda>ys. Inr (y # ys)))"

lemma mapE_Inr: "(\<And>x. x \<in> set xs \<Longrightarrow> f x = Inr (g x)) \<Longrightarrow> mapE f xs = Inr (map g xs)"
  by (induction xs) auto

definition guardE :: "bool \<Rightarrow> 'e \<Rightarrow> 'e + unit" where
  "guardE b e = (if b then Inl e else Inr ())"

lemma guardE_simps [simp]:
  "guardE True e = Inl e"
  "guardE False e = Inr ()"
  "guardE b e = Inr u \<longleftrightarrow> \<not> b"
  "guardE b e = Inl e' \<longleftrightarrow> b \<and> e' = e"
  by (auto simp: guardE_def)

section \<open>Insertion-ordered maps\<close>

type_synonym ('k, 'v) js_map = "('k \<times> 'v) list"

definition js_get :: "('k, 'v) js_map \<Rightarrow> 'k \<Rightarrow> 'v option" where
  "js_get m k = map_of m k"

definition js_set :: "'k \<Rightarrow> 'v \<Rightarrow> ('k, 'v) js_map \<Rightarrow> ('k, 'v) js_map" where
  "js_set k v m = AList.update k v m"

definition js_delete :: "'k \<Rightarrow> ('k, 'v) js_map \<Rightarrow> ('k, 'v) js_map" where
  "js_delete k m = AList.delete k m"

definition js_keys :: "('k, 'v) js_map \<Rightarrow> 'k list" where
  "js_keys m = map fst m"

definition js_values :: "('k, 'v) js_map \<Rightarrow> 'v list" where
  "js_values m = map snd m"

definition js_has :: "('k, 'v) js_map \<Rightarrow> 'k \<Rightarrow> bool" where
  "js_has m k = (js_get m k \<noteq> None)"

text \<open>What the components rely on: lookups after an update or a deletion, and a domain.\<close>

locale keyed_store =
  fixes empty_map :: "'m"
    and lookup :: "'m \<Rightarrow> 'k \<Rightarrow> 'v option"
    and put :: "'k \<Rightarrow> 'v \<Rightarrow> 'm \<Rightarrow> 'm"
    and remove :: "'k \<Rightarrow> 'm \<Rightarrow> 'm"
  assumes lookup_empty: "lookup empty_map k = None"
    and lookup_put: "lookup (put k v m) j = (if j = k then Some v else lookup m j)"
    and lookup_remove: "lookup (remove k m) j = (if j = k then None else lookup m j)"
begin

lemma put_same: "lookup (put k v m) k = Some v"
  by (simp add: lookup_put)

lemma put_other: "j \<noteq> k \<Longrightarrow> lookup (put k v m) j = lookup m j"
  by (simp add: lookup_put)

lemma remove_same: "lookup (remove k m) k = None"
  by (simp add: lookup_remove)

lemma put_dom: "{j. lookup (put k v m) j \<noteq> None} = insert k {j. lookup m j \<noteq> None}"
  by (auto simp: lookup_put)

lemma fold_put_other:
  assumes "j \<notin> fst ` set kvs"
  shows "lookup (fold (\<lambda>(k, v). put k v) kvs m) j = lookup m j"
  using assms by (induction kvs arbitrary: m) (auto simp: lookup_put)

lemma fold_remove:
  "lookup (fold remove ks m) j = (if j \<in> set ks then None else lookup m j)"
  by (induction ks arbitrary: m) (auto simp: lookup_remove)

lemma all_put:
  assumes "\<And>j v. lookup m j = Some v \<Longrightarrow> Q j v" and "Q k w"
  shows "lookup (put k w m) j = Some v \<Longrightarrow> Q j v"
  using assms by (auto simp: lookup_put split: if_splits)

lemma all_remove:
  assumes "\<And>j v. lookup m j = Some v \<Longrightarrow> Q j v"
  shows "lookup (remove k m) j = Some v \<Longrightarrow> Q j v"
  using assms by (auto simp: lookup_remove split: if_splits)

end

interpretation jsm: keyed_store "[]" js_get js_set js_delete
  by unfold_locales
    (simp_all add: js_get_def js_set_def js_delete_def AList.update_conv' AList.delete_conv')

lemmas js_map_simps [simp] = jsm.lookup_empty jsm.lookup_put jsm.lookup_remove

lemma js_has_simps [simp]:
  "js_has [] k = False"
  "js_has (js_set k v m) j = (j = k \<or> js_has m j)"
  "js_has (js_delete k m) j = (j \<noteq> k \<and> js_has m j)"
  by (auto simp: js_has_def)

lemma js_has_keys: "js_has m k \<longleftrightarrow> k \<in> set (js_keys m)"
  by (simp add: js_has_def js_get_def js_keys_def map_of_eq_None_iff)

lemma js_keys_set: "set (js_keys (js_set k v m)) = insert k (set (js_keys m))"
  by (simp add: js_keys_def js_set_def dom_update)

lemma js_keys_delete: "set (js_keys (js_delete k m)) = set (js_keys m) - {k}"
  by (simp add: js_keys_def js_delete_def AList.delete_keys)

lemma js_distinct_set: "distinct (js_keys m) \<Longrightarrow> distinct (js_keys (js_set k v m))"
  by (simp add: js_keys_def js_set_def distinct_update)

lemma js_distinct_delete: "distinct (js_keys m) \<Longrightarrow> distinct (js_keys (js_delete k m))"
  by (simp add: js_keys_def js_delete_def distinct_delete)

lemma js_get_in: "js_get m k = Some v \<Longrightarrow> (k, v) \<in> set m"
  by (simp add: js_get_def map_of_SomeD)

lemma js_in_get: "distinct (js_keys m) \<Longrightarrow> (k, v) \<in> set m \<Longrightarrow> js_get m k = Some v"
  by (simp add: js_get_def js_keys_def)

lemma js_get_value: "js_get m k = Some v \<Longrightarrow> v \<in> set (js_values m)"
  by (auto simp: js_values_def dest: js_get_in intro: rev_image_eqI)

lemma js_value_get:
  assumes "distinct (js_keys m)" and "v \<in> set (js_values m)"
  obtains k where "js_get m k = Some v"
proof -
  from assms(2) obtain k where "(k, v) \<in> set m" by (auto simp: js_values_def)
  with assms(1) have "js_get m k = Some v" by (rule js_in_get)
  then show ?thesis by (rule that)
qed

section \<open>Stable sorting with a comparator\<close>

fun insert_by :: "('a \<Rightarrow> 'a \<Rightarrow> int) \<Rightarrow> 'a \<Rightarrow> 'a list \<Rightarrow> 'a list" where
  "insert_by cmp x [] = [x]"
| "insert_by cmp x (y # ys) = (if cmp x y \<le> 0 then x # y # ys else y # insert_by cmp x ys)"

definition js_sort :: "('a \<Rightarrow> 'a \<Rightarrow> int) \<Rightarrow> 'a list \<Rightarrow> 'a list" where
  "js_sort cmp xs = foldr (insert_by cmp) xs []"

text \<open>The comparators the code passes are total preorders.\<close>

definition comparator :: "('a \<Rightarrow> 'a \<Rightarrow> int) \<Rightarrow> bool" where
  "comparator cmp \<longleftrightarrow>
     (\<forall>x y. cmp x y \<le> 0 \<or> cmp y x \<le> 0) \<and>
     (\<forall>x y z. cmp x y \<le> 0 \<longrightarrow> cmp y z \<le> 0 \<longrightarrow> cmp x z \<le> 0)"

lemma mset_insert_by [simp]: "mset (insert_by cmp x ys) = add_mset x (mset ys)"
  by (induction ys) auto

lemma mset_js_sort [simp]: "mset (js_sort cmp xs) = mset xs"
  by (induction xs) (auto simp: js_sort_def)

lemma set_js_sort [simp]: "set (js_sort cmp xs) = set xs"
  by (metis mset_js_sort set_mset_mset)

lemma length_js_sort [simp]: "length (js_sort cmp xs) = length xs"
  by (metis mset_js_sort size_mset)

lemma distinct_js_sort [simp]: "distinct (js_sort cmp xs) = distinct xs"
  by (metis mset_js_sort distinct_count_atmost_1 set_js_sort)

lemma set_insert_by [simp]: "set (insert_by cmp x ys) = insert x (set ys)"
  by (induction ys) auto

lemma sorted_insert_by:
  assumes "comparator cmp" and "sorted_wrt (\<lambda>x y. cmp x y \<le> 0) ys"
  shows "sorted_wrt (\<lambda>x y. cmp x y \<le> 0) (insert_by cmp x ys)"
  using assms(2)
proof (induction ys)
  case (Cons y ys)
  show ?case
  proof (cases "cmp x y \<le> 0")
    case True
    with Cons.prems assms(1) show ?thesis by (auto simp: comparator_def)
  next
    case False
    with assms(1) have "cmp y x \<le> 0" by (auto simp: comparator_def)
    with False Cons show ?thesis by auto
  qed
qed simp

lemma sorted_js_sort:
  "comparator cmp \<Longrightarrow> sorted_wrt (\<lambda>x y. cmp x y \<le> 0) (js_sort cmp xs)"
  by (induction xs) (auto simp: js_sort_def sorted_insert_by)

section \<open>JSON values\<close>

datatype json =
    JNull
  | JBool bool
  | JNum rat
  | JStr string
  | JArr "json list"
  | JObj "(string \<times> json) list"

section \<open>Strings\<close>

text \<open>
  \<open>a < b\<close> on strings compares code units; \<open>localeCompare\<close> is used by the code on event ids only,
  lower-case ULIDs over digits and lower-case letters, where it gives the same order.
\<close>

definition compare_strings :: "string \<Rightarrow> string \<Rightarrow> int" where
  "compare_strings a b = (if a < b then - 1 else if a > b then 1 else 0)"

lemma compare_strings_le: "compare_strings a b \<le> 0 \<longleftrightarrow> a \<le> b"
  by (auto simp: compare_strings_def)

lemma compare_strings_eq: "compare_strings a b = 0 \<longleftrightarrow> a = b"
  by (auto simp: compare_strings_def)

lemma comparator_compare_strings: "comparator compare_strings"
  by (auto simp: comparator_def compare_strings_le)

lemma comparator_on: "comparator cmp \<Longrightarrow> comparator (\<lambda>x y. cmp (f x) (f y))"
  unfolding comparator_def by blast

lemma comparator_flip: "comparator cmp \<Longrightarrow> comparator (\<lambda>x y. cmp y x)"
  unfolding comparator_def by blast

text \<open>\<open>toLowerCase\<close>, on the letters A to Z.\<close>

definition lower_case :: "string \<Rightarrow> string" where
  "lower_case = map (\<lambda>c. let n = of_char c :: nat in if 65 \<le> n \<and> n \<le> 90 then char_of (n + 32) else c)"

section \<open>Time\<close>

text \<open>\<open>Iso ms\<close> is a text that \<open>Date.parse\<close> reads as \<open>ms\<close>, \<open>Not_iso\<close> one it answers \<open>NaN\<close> to.\<close>

datatype iso_string = Iso int | Not_iso string

definition to_iso :: "int \<Rightarrow> iso_string" where
  "to_iso ms = Iso ms"

fun date_parse :: "iso_string \<Rightarrow> int option" where
  "date_parse (Iso ms) = Some ms"
| "date_parse (Not_iso s) = None"

section \<open>Numbers as text\<close>

definition digit :: "nat \<Rightarrow> char" where
  "digit n = char_of (n + 48)"

fun show_nat :: "nat \<Rightarrow> string" where
  "show_nat n = (if n < 10 then [digit n] else show_nat (n div 10) @ [digit (n mod 10)])"

declare show_nat.simps [simp del]

lemma digit_inj: "m < 10 \<Longrightarrow> n < 10 \<Longrightarrow> digit m = digit n \<Longrightarrow> m = n"
  unfolding digit_def by (drule arg_cong[of _ _ "of_char :: char \<Rightarrow> nat"]) simp

lemma show_nat_nonempty [simp]: "show_nat n \<noteq> []" "[] \<noteq> show_nat n"
  by (subst show_nat.simps, simp)+

lemma show_nat_inj: "show_nat m = show_nat n \<Longrightarrow> m = n"
proof (induction m arbitrary: n rule: show_nat.induct)
  case (1 m)
  have split: "show_nat k = (if k < 10 then [digit k] else show_nat (k div 10) @ [digit (k mod 10)])" for k
    by (rule show_nat.simps)
  show ?case
  proof (cases "m < 10")
    case True
    then show ?thesis using "1.prems" split[of m] split[of n] digit_inj[of m n]
      by (cases "n < 10") auto
  next
    case False
    then have "\<not> n < 10" using "1.prems" split[of m] split[of n] by auto
    then have "show_nat (m div 10) = show_nat (n div 10)" "digit (m mod 10) = digit (n mod 10)"
      using "1.prems" False split[of m] split[of n] by auto
    then have "m div 10 = n div 10" "m mod 10 = n mod 10"
      using "1.IH"[OF False] digit_inj by auto
    then show ?thesis by (metis div_mult_mod_eq)
  qed
qed

lemma length_show_nat: "n < 10 ^ k \<Longrightarrow> 0 < k \<Longrightarrow> length (show_nat n) \<le> k"
proof (induction n arbitrary: k rule: show_nat.induct)
  case (1 n)
  show ?case
  proof (cases "n < 10")
    case True
    then show ?thesis using "1.prems" by (subst show_nat.simps) simp
  next
    case False
    then obtain j where k: "k = Suc j" "0 < j" using "1.prems" by (cases k; cases "k - 1") auto
    then have "n div 10 < 10 ^ j" using "1.prems" by (simp add: less_mult_imp_div_less mult.commute)
    from "1.IH"[OF False this k(2)] False k(1) show ?thesis by (subst show_nat.simps) simp
  qed
qed

end
