(* ===== verification/Wire_Types.thy ===== *)
theory Wire_Types
  imports JS_Prelude
begin

text \<open>
  The message and event types that every component shares: the OpenAI-shaped conversation messages
  (\<open>core/llm/openaiSchemas.ts\<close>, \<open>core/llm/LLMTypes.ts\<close>) and the harness events
  (\<open>core/events/schema.ts\<close>, \<open>core/runtime/AgentThread.types.ts\<close>). A Zod object is a record, a
  discriminated union a datatype, an optional or nullable field an \<open>option\<close>. A field name carries a
  prefix for its record, because Isabelle's field names are global. Event ids and timestamps are the
  values of \<open>newEventId()\<close> and of the clock, so the functions that build events take them as
  arguments. Token counts are rationals: the estimates divide a length by four.
\<close>

section \<open>Conversation messages\<close>

datatype image_detail = Detail_auto | Detail_low | Detail_high

datatype content_part =
    PText string
  | PImage string "image_detail option"
  | PInputAudio string string
  | PFile "string option" "string option" "string option"

datatype user_content = UText string | UParts "content_part list"

datatype assistant_part = ATextPart string | ARefusalPart string

datatype assistant_content = AText string | AParts "assistant_part list"

datatype thinking_block = Thinking string "string option" | Redacted_thinking string

record raw_tool_call =
  tc_id :: string
  tc_name :: string
  tc_arguments :: string
  tc_provider_fields :: "(string \<times> json) list option"

datatype tool_kind = Truefoundry_system | Mcp

record internal_tool_call_info =
  ti_type :: tool_kind
  ti_server_id :: string
  ti_server_name :: string
  ti_original_tool_name :: string
  ti_is_approval_required :: "bool option"
  ti_is_deferred :: "bool option"
  ti_is_client_side :: "bool option"
  ti_is_thread_creation :: "bool option"

datatype tool_info = System_tool_info string | MCP_tool_info string string string

record internal_tool_call = raw_tool_call +
  tc_tool_info :: internal_tool_call_info

record enriched_tool_call = raw_tool_call +
  tc_public_info :: tool_info

text \<open>
  The raw message of a provider and the message with enriched tool calls differ in the type of
  \<open>tool_calls\<close> only.
\<close>

record 'tc assistant_message =
  am_content :: "assistant_content option"
  am_name :: "string option"
  am_refusal :: "string option"
  am_tool_calls :: "'tc list option"
  am_thinking_blocks :: "thinking_block list option"
  am_reasoning_content :: "string option"
  am_source :: "string option"

type_synonym raw_assistant_message = "raw_tool_call assistant_message"
type_synonym internal_assistant_message = "internal_tool_call assistant_message"

record llm_tool_message =
  tm_tool_call_id :: string
  tm_content :: string

datatype approval_decision = Approval_allow | Approval_deny "string option"

datatype context_message =
    User_msg user_content
  | Assistant_msg internal_assistant_message
  | Tool_msg llm_tool_message
  | Approval_msg string approval_decision

datatype finish_reason =
  Finish_stop | Finish_length | Finish_tool_calls | Finish_content_filter | Finish_function_call

record completion_usage =
  cu_input_tokens :: nat
  cu_output_tokens :: nat
  cu_total_tokens :: nat
  cu_cache_read_tokens :: "nat option"
  cu_cache_write_tokens :: "nat option"
  cu_reasoning_tokens :: "nat option"
  cu_cost_in_usd :: "rat option"

definition getEmptyUsage :: completion_usage where
  "getEmptyUsage =
     \<lparr>cu_input_tokens = 0, cu_output_tokens = 0, cu_total_tokens = 0, cu_cache_read_tokens = None,
      cu_cache_write_tokens = None, cu_reasoning_tokens = None, cu_cost_in_usd = None\<rparr>"

record current_context_usage =
  ccu_prompt_tokens :: rat
  ccu_completion_tokens :: rat

definition UNKNOWN_TOOL_NAME :: string where
  "UNKNOWN_TOOL_NAME = ''unknown''"

section \<open>Messages a client sends\<close>

datatype user_content_part = UTextPart string | UFilePart string string

datatype input_content = IText string | IParts "user_content_part list"

record user_tool_approval_message =
  uta_thread_id :: string
  uta_tool_call_id :: string
  uta_approval :: approval_decision

record user_tool_response_message =
  utr_thread_id :: string
  utr_tool_call_id :: string
  utr_content :: string

text \<open>\<open>AgentThreadRuntimeSendInput\<close>: the public items and the internal child-to-parent tool message.\<close>

datatype send_input =
    Send_approval user_tool_approval_message
  | Send_response user_tool_response_message
  | Send_user input_content
  | Send_tool llm_tool_message

record tool_approval_policy_action =
  tap_expire_at :: "iso_string option"

record tool_approval_policy_item =
  tpi_server_name :: string
  tpi_name :: string
  tpi_action :: tool_approval_policy_action

section \<open>Harness events\<close>

record agent_parent =
  ap_thread_id :: string
  ap_tool_call_id :: string

record agent_info =
  ai_name :: string
  ai_input :: string
  ai_model :: "string option"

record input_tokens_breakdown =
  itb_harness :: nat
  itb_skills :: nat
  itb_instructions :: nat
  itb_tool_definitions :: nat
  itb_messages :: nat

record model_message_usage =
  mmu_input_tokens :: nat
  mmu_output_tokens :: nat
  mmu_cache_read_tokens :: "nat option"
  mmu_cache_write_tokens :: "nat option"
  mmu_breakdown :: input_tokens_breakdown

record model =
  model_name :: string
  model_params :: "(string \<times> json) list option"

record model_message_event =
  mme_id :: string
  mme_created_at :: string
  mme_thread_id :: string
  mme_content :: "assistant_content option"
  mme_name :: "string option"
  mme_refusal :: "string option"
  mme_tool_calls :: "enriched_tool_call list option"
  mme_reasoning_content :: "string option"
  mme_finish_reason :: "finish_reason option"
  mme_usage :: "model_message_usage option"
  mme_model :: "model option"

record tool_response_event =
  tre_id :: string
  tre_created_at :: string
  tre_thread_id :: string
  tre_tool_call_id :: string
  tre_content :: string

record tool_call_ref =
  tcr_id :: string
  tcr_source_event_id :: string

record tool_calls_required_event =
  tcre_id :: string
  tcre_created_at :: string
  tcre_thread_id :: string
  tcre_tool_calls :: "tool_call_ref list"

record mcp_server_auth_info =
  msa_id :: string
  msa_name :: string
  msa_auth_url :: string

record mcp_auth_required_event =
  mare_id :: string
  mare_created_at :: string
  mare_thread_id :: "string option"
  mare_mcp_servers :: "mcp_server_auth_info list"

datatype action_required_event =
    Tool_approval_required tool_calls_required_event
  | Tool_response_required tool_calls_required_event
  | Mcp_auth_required mcp_auth_required_event

record mcp_server_init_info =
  msi_id :: string
  msi_name :: string
  msi_session_id :: "string option"
  msi_transport_type :: "string option"
  msi_approval_policies :: "(string, tool_approval_policy_action) js_map option"

record sandbox_info =
  sandbox_id :: string

datatype sub_agent_completion =
    Completion_done model_message_event llm_tool_message
  | Completion_error model_message_event string llm_tool_message
  | Completion_cancelled string llm_tool_message

fun send_to_parent :: "sub_agent_completion \<Rightarrow> llm_tool_message" where
  "send_to_parent (Completion_done out m) = m"
| "send_to_parent (Completion_error out e m) = m"
| "send_to_parent (Completion_cancelled r m) = m"

type_synonym capability_state = "(string, json) js_map"

record agent_thread_snapshot =
  ats_thread_id :: string
  ats_context :: "context_message list"
  ats_current_context_usage :: current_context_usage
  ats_parent :: "agent_parent option"
  ats_agent_info :: "agent_info option"
  ats_completion :: "sub_agent_completion option"
  ats_capability_state :: "capability_state option"

record compaction_trigger =
  ct_context_tokens :: nat
  ct_threshold_tokens :: nat

record thread_overwrite_context_event =
  toc_id :: string
  toc_created_at :: string
  toc_thread_id :: string
  toc_context :: "context_message list"
  toc_current_context_usage :: current_context_usage
  toc_usage :: completion_usage

end
