(* ===== verification/Session_Types.thy ===== *)
theory Session_Types
  imports Wire_Types
begin

text \<open>
  The records the session store keeps and the inputs of its operations: \<open>agent-session/schemas/\<close>
  (\<open>turn.ts\<close>, \<open>session.ts\<close>, \<open>events.ts\<close>, \<open>subject.ts\<close>, \<open>pagination.ts\<close>), \<open>agent-session/models/\<close>,
  \<open>agent-session/store/ISessionStore.ts\<close> and \<open>SessionStoreErrors.ts\<close>.

  A \<open>Date\<close> is its time value in milliseconds, and an ISO string that the code parses an \<open>iso_string\<close>. The
  \<open>AgentSpec\<close> and the \<open>custom\<close> columns are values the store copies and never reads: JSON.
\<close>

section \<open>Turns\<close>

datatype cancellation_reason =
  Server_execution_timeout | Client_cancelled | Cancelled_for_next_turn | Abandoned

datatype turn_status = St_running | St_paused | St_done | St_cancelled | St_error

record turn_metrics =
  tmx_input_tokens :: "nat option"
  tmx_output_tokens :: "nat option"
  tmx_total_tokens :: "nat option"
  tmx_cache_read_tokens :: "nat option"
  tmx_cache_write_tokens :: "nat option"
  tmx_reasoning_tokens :: "nat option"
  tmx_cost_in_usd :: "rat option"

datatype turn_state =
    Turn_running
  | Turn_paused "string list"
  | Turn_done "model_message_event option" "action_required_event list" iso_string
      "turn_metrics option"
  | Turn_cancelled cancellation_reason iso_string "turn_metrics option"
  | Turn_error string iso_string "turn_metrics option"

fun state_status :: "turn_state \<Rightarrow> turn_status" where
  "state_status Turn_running = St_running"
| "state_status (Turn_paused acts) = St_paused"
| "state_status (Turn_done out acts tm mx) = St_done"
| "state_status (Turn_cancelled r tm mx) = St_cancelled"
| "state_status (Turn_error msg tm mx) = St_error"

fun isNonTerminalTurnState :: "turn_state \<Rightarrow> bool" where
  "isNonTerminalTurnState st = (state_status st = St_running \<or> state_status st = St_paused)"

text \<open>\<open>completed_at\<close> and \<open>metrics\<close> of a terminal state.\<close>

fun completed_at :: "turn_state \<Rightarrow> iso_string option" where
  "completed_at (Turn_done out acts tm mx) = Some tm"
| "completed_at (Turn_cancelled r tm mx) = Some tm"
| "completed_at (Turn_error msg tm mx) = Some tm"
| "completed_at st = None"

fun state_metrics :: "turn_state \<Rightarrow> turn_metrics option" where
  "state_metrics (Turn_done out acts tm mx) = mx"
| "state_metrics (Turn_cancelled r tm mx) = mx"
| "state_metrics (Turn_error msg tm mx) = mx"
| "state_metrics st = None"

text \<open>The inputs of the two state updates: a terminal state, or one of the two live ones.\<close>

datatype terminal_turn_state =
    Term_done "model_message_event option" "action_required_event list" iso_string
      "turn_metrics option"
  | Term_cancelled cancellation_reason iso_string "turn_metrics option"
  | Term_error string iso_string "turn_metrics option"

fun of_terminal :: "terminal_turn_state \<Rightarrow> turn_state" where
  "of_terminal (Term_done out acts tm mx) = Turn_done out acts tm mx"
| "of_terminal (Term_cancelled r tm mx) = Turn_cancelled r tm mx"
| "of_terminal (Term_error msg tm mx) = Turn_error msg tm mx"

datatype non_terminal_turn_state = Live_running | Live_paused "string list"

fun of_live :: "non_terminal_turn_state \<Rightarrow> turn_state" where
  "of_live Live_running = Turn_running"
| "of_live (Live_paused acts) = Turn_paused acts"

lemma of_terminal_terminal [simp]:
  "state_status (of_terminal st) \<noteq> St_running" "state_status (of_terminal st) \<noteq> St_paused"
  by (cases st; simp)+

lemma of_live_live [simp]: "isNonTerminalTurnState (of_live st)"
  by (cases st) simp_all

datatype turn_input_item =
    Input_user input_content
  | Input_approval user_tool_approval_message
  | Input_response user_tool_response_message

text \<open>\<open>CreateTurnRequestSchema\<close> refuses a mix of user messages and approvals or tool responses.\<close>

fun is_user_item :: "turn_input_item \<Rightarrow> bool" where
  "is_user_item (Input_user c) = True"
| "is_user_item it = False"

definition create_turn_input_ok :: "turn_input_item list option \<Rightarrow> bool" where
  "create_turn_input_ok input =
     (case input of
        None \<Rightarrow> True
      | Some ms \<Rightarrow> \<not> (list_ex is_user_item ms \<and> list_ex (\<lambda>m. \<not> is_user_item m) ms))"

datatype turn_inbound_event_item =
    Inbound_approval user_tool_approval_message
  | Inbound_response user_tool_response_message
  | Inbound_policy "tool_approval_policy_item list"
  | Inbound_mcp_auth_continue

record turn_snapshot =
  sn_threads :: "(string, agent_thread_snapshot) js_map"
  sn_mcp_servers :: "(string, mcp_server_init_info) js_map option"
  sn_sandbox_info :: "sandbox_info option"

text \<open>A turn row, and the full record with its snapshot (\<open>TurnRecordWithoutSnapshot\<close> is the row).\<close>

record turn_row =
  tr_turn_id :: string
  tr_session_id :: string
  tr_first_turn_id :: string
  tr_ancestor_ids :: "string list"
  tr_previous_turn_id :: "string option"
  tr_active_executor_id :: string
  tr_state :: turn_state
  tr_input :: "turn_input_item list"
  tr_created_at :: int
  tr_updated_at :: int
  tr_custom :: "json option"

record turn_record = turn_row +
  tr_snapshot :: turn_snapshot

section \<open>Sessions\<close>

record created_by_subject =
  cb_subject_id :: string
  cb_subject_type :: string
  cb_subject_display_name :: string

datatype session_agent = Agent_reference string "string option" | Agent_inline json

datatype session_source_type = Source_schedule

fun source_type_text :: "session_source_type \<Rightarrow> string" where
  "source_type_text Source_schedule = ''schedule''"

record session_source =
  src_type :: session_source_type
  src_id :: string
  src_run_id :: string

record session_last_turn_details =
  ltd_id :: string
  ltd_status :: turn_status

record session_metrics =
  sm_total_cost_in_usd :: "rat option"
  sm_total_duration_ms :: int
  sm_total_turns :: nat

type_synonym session_metadata = "(string, string) js_map"

record session_record =
  sr_tenant_id :: string
  sr_session_id :: string
  sr_created_by_subject :: created_by_subject
  sr_agent :: session_agent
  sr_title :: "string option"
  sr_external_id :: "string option"
  sr_source :: "session_source option"
  sr_last_turn_details :: "session_last_turn_details option"
  sr_created_at :: int
  sr_updated_at :: int
  sr_last_activity_timestamp_ms :: int
  sr_metrics :: session_metrics
  sr_metadata :: session_metadata
  sr_custom :: "json option"

section \<open>Durable events\<close>

datatype session_event_body =
    Ev_turn_created string "string option" "turn_input_item list option"
  | Ev_turn_update non_terminal_turn_state
  | Ev_turn_done terminal_turn_state
  | Ev_model_message model_message_event
  | Ev_tool_response tool_response_event
  | Ev_thread_created agent_info agent_parent string
  | Ev_thread_done "agent_parent option" string "string option" "model_message_event option"
  | Ev_compaction_started compaction_trigger
  | Ev_compaction_finished compaction_trigger completion_usage nat
  | Ev_action_required action_required_event
  | Ev_mcp_initialize "mcp_server_init_info list"
  | Ev_sandbox_created sandbox_info
  | Ev_user_tool_approval user_tool_approval_message
  | Ev_user_tool_response user_tool_response_message
  | Ev_user_tool_approval_policy "tool_approval_policy_item list"
  | Ev_user_mcp_auth_continue
  | Ev_passthrough json

record persisted_event =
  pe_id :: string
  pe_created_at :: string
  pe_thread_id :: "string option"
  pe_body :: session_event_body

record session_event_item =
  sei_turn_id :: string
  sei_event :: persisted_event

record 'tok token_pagination =
  pg_next_page_token :: "'tok option"
  pg_previous_page_token :: "'tok option"
  pg_limit :: nat

section \<open>Inputs of the store operations\<close>

record create_session_input =
  csi_tenant_id :: string
  csi_session_id :: string
  csi_agent :: session_agent
  csi_created_by_subject :: created_by_subject
  csi_external_id :: "string option"
  csi_metadata :: session_metadata
  csi_source :: "session_source option"
  csi_custom :: "json option"

text \<open>An absent field is left unchanged; \<open>title\<close> may also be set to null.\<close>

record update_session_input =
  usi_tenant_id :: string
  usi_session_id :: string
  usi_agent :: "json option"
  usi_title :: "string option option"
  usi_metadata :: "session_metadata option"

datatype sort_order = Order_asc | Order_desc

record 'tok list_sessions_input =
  lsi_tenant_id :: string
  lsi_limit :: nat
  lsi_page_token :: "'tok option"
  lsi_order :: "sort_order option"
  lsi_start_timestamp :: "int option"
  lsi_end_timestamp :: "int option"
  lsi_agent_id :: "string option"
  lsi_created_by_or_agent_ids :: "(string \<times> string list) option"
  lsi_metadata :: "session_metadata option"
  lsi_source_type :: "string option"
  lsi_source_id :: "string option"

record new_thread_init =
  nt_thread_id :: string
  nt_parent :: "agent_parent option"
  nt_agent_info :: "agent_info option"

record thread_capability_state_init =
  tcs_thread_id :: string
  tcs_capability_state :: "capability_state option"

record turn_context_append =
  tca_thread_id :: string
  tca_context :: "context_message list"
  tca_current_context_usage :: "current_context_usage option"
  tca_completion :: "sub_agent_completion option"

record create_turn_input =
  cti_turn :: turn_row
  cti_new_threads :: "new_thread_init list"
  cti_new_context_appends :: "turn_context_append list"
  cti_capability_states :: "thread_capability_state_init list"
  cti_update_session_title_if_not_exist :: "string option"

record inbound_event_input =
  iei_event_id :: string
  iei_payload :: turn_inbound_event_item
  iei_created_at :: string

section \<open>Errors\<close>

text \<open>
  \<open>SessionStoreErrors.ts\<close>, with the reasons of \<open>SessionStoreInvariantError\<close> as constructors; \<open>Zod_error\<close>
  is the error of a failed \<open>schema.parse\<close>.
\<close>

datatype invariant_violation =
    Thread_already_exists string
  | Append_unknown_thread string
  | Capability_unknown_thread string
  | Capability_duplicate_thread string
  | Capability_missing_thread string
  | Named_agent_cannot_be_updated string
  | Expected_status turn_status string turn_status
  | Thread_not_found string

datatype 'tok store_error =
    Session_not_found string
  | Turn_not_found string
  | Session_already_exists string
  | Session_external_id_conflict string
  | Turn_already_exists string
  | Turn_event_already_exists string string string
  | Previous_turn_running string
  | Turn_not_running string turn_state
  | Invalid_page_token 'tok
  | Store_invariant invariant_violation
  | Zod_error

end
