(* ===== verification/Page_Tokens.thy ===== *)
theory Page_Tokens
  imports Session_Types
begin

text \<open>
  The opaque page tokens of the listing operations: \<open>agent-session/store/PageToken.ts\<close>,
  \<open>OffsetPageToken.ts\<close>, \<open>SessionEventPageToken.ts\<close> and \<open>SessionListPageToken.ts\<close>.

  A token is the base64url text of the UTF-8 bytes of a JSON text. \<open>Json_token v\<close> is a text that
  decodes to the value \<open>v\<close> and \<open>Junk_token s\<close> one on which \<open>JSON.parse\<close> throws; \<open>Junk_token ''''\<close>
  is the empty token. \<open>schema.parse\<close> is a partial function on \<open>json\<close>; the schemas are strict, so an
  unknown key fails too. \<open>z.number().int()\<close> accepts safe integers only.

  The session list cursor carries a timestamp as text. \<open>toISOString\<close>, \<open>Date.parse\<close> and the check of
  \<open>z.iso.datetime\<close> are the three fields of an \<open>iso_lib\<close>, an argument of the functions that use them;
  \<open>iso_lib_ok\<close> is what those functions are documented to do for the years 1970 to 9999.
\<close>

datatype page_token = Json_token json | Junk_token string

type_synonym serror = "page_token store_error"

definition MAX_SAFE_INTEGER :: nat where
  "MAX_SAFE_INTEGER = 9007199254740991"

section \<open>The codec\<close>

definition encodePageToken :: "(json \<Rightarrow> 'c option) \<Rightarrow> ('c \<Rightarrow> json) \<Rightarrow> json \<Rightarrow> serror + page_token" where
  "encodePageToken parse print value =
     (case parse value of None \<Rightarrow> Inl Zod_error | Some c \<Rightarrow> Inr (Json_token (print c)))"

definition decodePageToken :: "(json \<Rightarrow> 'c option) \<Rightarrow> page_token \<Rightarrow> serror + 'c" where
  "decodePageToken parse token =
     (case token of
        Junk_token s \<Rightarrow> Inl (Invalid_page_token token)
      | Json_token v \<Rightarrow>
          (case parse v of None \<Rightarrow> Inl (Invalid_page_token token) | Some c \<Rightarrow> Inr c))"

fun nonneg_int :: "json \<Rightarrow> nat option" where
  "nonneg_int (JNum q) =
     (if q = of_int \<lfloor>q\<rfloor> \<and> 0 \<le> q \<and> q \<le> of_nat MAX_SAFE_INTEGER then Some (nat \<lfloor>q\<rfloor>) else None)"
| "nonneg_int v = None"

fun nonempty_string :: "json \<Rightarrow> string option" where
  "nonempty_string (JStr s) = (if s = '''' then None else Some s)"
| "nonempty_string v = None"

text \<open>A strict object schema: exactly the given keys.\<close>

definition only_keys :: "string list \<Rightarrow> (string \<times> json) list \<Rightarrow> bool" where
  "only_keys ks fs = list_all (\<lambda>k. k \<in> set ks) (map fst fs)"

definition field :: "string \<Rightarrow> (string \<times> json) list \<Rightarrow> (json \<Rightarrow> 'a option) \<Rightarrow> 'a option" where
  "field k fs p = Option.bind (js_get fs k) p"

section \<open>Offset tokens\<close>

fun offset_schema :: "json \<Rightarrow> nat option" where
  "offset_schema (JObj fs) = (if only_keys [''offset''] fs then field ''offset'' fs nonneg_int else None)"
| "offset_schema v = None"

definition offset_json :: "nat \<Rightarrow> json" where
  "offset_json n = JObj [(''offset'', JNum (of_nat n))]"

definition encodeOffsetPageToken :: "nat \<Rightarrow> serror + page_token" where
  "encodeOffsetPageToken n = encodePageToken offset_schema offset_json (offset_json n)"

definition decodeOffsetPageToken :: "page_token option \<Rightarrow> serror + nat" where
  "decodeOffsetPageToken token =
     (case token of
        None \<Rightarrow> Inr 0
      | Some t \<Rightarrow> if t = Junk_token '''' then Inr 0 else decodePageToken offset_schema t)"

text \<open>
  A page: an optional next token when there is more, an optional previous token when the offset is
  positive. The tokens are built in this order and either may throw.
\<close>

definition optional_token :: "bool \<Rightarrow> (serror + page_token) \<Rightarrow> serror + page_token option" where
  "optional_token b mk = (if b then bindE mk (\<lambda>t. Inr (Some t)) else Inr None)"

definition page_of ::
    "nat \<Rightarrow> bool \<Rightarrow> (serror + page_token) \<Rightarrow> bool \<Rightarrow> (serror + page_token)
       \<Rightarrow> serror + page_token token_pagination" where
  "page_of limit hasMore nxt hasPrev prv =
     bindE (optional_token hasMore nxt) (\<lambda>n.
     bindE (optional_token hasPrev prv) (\<lambda>p.
       Inr \<lparr>pg_next_page_token = n, pg_previous_page_token = p, pg_limit = limit\<rparr>))"

text \<open>\<open>paginate\<close> of the in-memory store slices the whole list.\<close>

definition paginate ::
    "'a list \<Rightarrow> nat \<Rightarrow> page_token option \<Rightarrow> serror + ('a list \<times> page_token token_pagination)" where
  "paginate items limit token =
     bindE (decodeOffsetPageToken token) (\<lambda>offset.
     bindE (page_of limit
              (offset + limit < length items) (encodeOffsetPageToken (offset + limit))
              (offset > 0) (encodeOffsetPageToken (offset - limit))) (\<lambda>pg.
       Inr (take limit (drop offset items), pg)))"

text \<open>\<open>paginateOffsetRows\<close> of the SQL stores is given up to \<open>limit + 1\<close> rows that start at the offset.\<close>

definition paginateOffsetRows ::
    "'a list \<Rightarrow> nat \<Rightarrow> nat \<Rightarrow> serror + ('a list \<times> page_token token_pagination)" where
  "paginateOffsetRows rows limit offset =
     bindE (page_of limit
              (length rows > limit) (encodeOffsetPageToken (offset + limit))
              (offset > 0) (encodeOffsetPageToken (offset - limit))) (\<lambda>pg.
       Inr (if length rows > limit then take limit rows else rows, pg))"

section \<open>Session event tokens\<close>

record session_event_cursor =
  sec_last_turn_id :: string
  sec_offset :: nat

fun session_event_schema :: "json \<Rightarrow> session_event_cursor option" where
  "session_event_schema (JObj fs) =
     (if only_keys [''last_turn_id'', ''offset''] fs
      then Option.bind (field ''last_turn_id'' fs nonempty_string) (\<lambda>t.
           Option.bind (field ''offset'' fs nonneg_int) (\<lambda>n.
             Some \<lparr>sec_last_turn_id = t, sec_offset = n\<rparr>))
      else None)"
| "session_event_schema v = None"

definition session_event_json :: "session_event_cursor \<Rightarrow> json" where
  "session_event_json c =
     JObj [(''last_turn_id'', JStr (sec_last_turn_id c)), (''offset'', JNum (of_nat (sec_offset c)))]"

definition encodeSessionEventPageToken :: "session_event_cursor \<Rightarrow> serror + page_token" where
  "encodeSessionEventPageToken c =
     encodePageToken session_event_schema session_event_json (session_event_json c)"

definition decodeSessionEventPageToken :: "page_token \<Rightarrow> serror + session_event_cursor" where
  "decodeSessionEventPageToken t = decodePageToken session_event_schema t"

definition paginateSessionEventRows ::
    "'a list \<Rightarrow> nat \<Rightarrow> session_event_cursor \<Rightarrow> serror + ('a list \<times> page_token token_pagination)" where
  "paginateSessionEventRows rows limit c =
     bindE (page_of limit
              (length rows > limit)
              (encodeSessionEventPageToken
                 \<lparr>sec_last_turn_id = sec_last_turn_id c, sec_offset = sec_offset c + limit\<rparr>)
              (sec_offset c > 0)
              (encodeSessionEventPageToken
                 \<lparr>sec_last_turn_id = sec_last_turn_id c, sec_offset = sec_offset c - limit\<rparr>)) (\<lambda>pg.
       Inr (if length rows > limit then take limit rows else rows, pg))"

section \<open>Session list tokens\<close>

record iso_lib =
  iso_text :: "int \<Rightarrow> string"
  iso_time :: "string \<Rightarrow> int option"
  iso_valid :: "string \<Rightarrow> bool"

definition END_OF_YEAR_9999 :: int where
  "END_OF_YEAR_9999 = 253402300800000"

definition iso_lib_ok :: "iso_lib \<Rightarrow> bool" where
  "iso_lib_ok lib \<longleftrightarrow>
     (\<forall>t. 0 \<le> t \<and> t < END_OF_YEAR_9999 \<longrightarrow>
        iso_valid lib (iso_text lib t) \<and> iso_time lib (iso_text lib t) = Some t)"

record session_list_cursor =
  slc_updated_at :: string
  slc_session_id :: string

fun iso_datetime :: "iso_lib \<Rightarrow> json \<Rightarrow> string option" where
  "iso_datetime lib (JStr s) = (if iso_valid lib s then Some s else None)"
| "iso_datetime lib v = None"

fun session_list_schema :: "iso_lib \<Rightarrow> json \<Rightarrow> session_list_cursor option" where
  "session_list_schema lib (JObj fs) =
     (if only_keys [''updated_at'', ''session_id''] fs
      then Option.bind (field ''updated_at'' fs (iso_datetime lib)) (\<lambda>u.
           Option.bind (field ''session_id'' fs nonempty_string) (\<lambda>i.
             Some \<lparr>slc_updated_at = u, slc_session_id = i\<rparr>))
      else None)"
| "session_list_schema lib v = None"

definition session_list_json :: "session_list_cursor \<Rightarrow> json" where
  "session_list_json c =
     JObj [(''updated_at'', JStr (slc_updated_at c)), (''session_id'', JStr (slc_session_id c))]"

definition encodeSessionListPageToken :: "iso_lib \<Rightarrow> session_list_cursor \<Rightarrow> serror + page_token" where
  "encodeSessionListPageToken lib c =
     encodePageToken (session_list_schema lib) session_list_json (session_list_json c)"

definition decodeSessionListPageToken ::
    "iso_lib \<Rightarrow> page_token option \<Rightarrow> serror + session_list_cursor option" where
  "decodeSessionListPageToken lib token =
     (case token of
        None \<Rightarrow> Inr None
      | Some t \<Rightarrow> bindE (decodePageToken (session_list_schema lib) t) (\<lambda>c. Inr (Some c)))"

definition paginateSessionListRows ::
    "iso_lib \<Rightarrow> 'a list \<Rightarrow> nat \<Rightarrow> ('a \<Rightarrow> session_list_cursor)
       \<Rightarrow> serror + ('a list \<times> page_token token_pagination)" where
  "paginateSessionListRows lib rows limit cur =
     (let hasMore = length rows > limit;
          data = (if hasMore then take limit rows else rows)
      in bindE (optional_token (hasMore \<and> data \<noteq> [])
                  (encodeSessionListPageToken lib (cur (last data)))) (\<lambda>n.
           Inr (data, \<lparr>pg_next_page_token = n, pg_previous_page_token = None, pg_limit = limit\<rparr>)))"

section \<open>Round trips\<close>

lemma nonneg_int_of_nat [simp]:
  "nonneg_int (JNum (of_nat n)) = (if n \<le> MAX_SAFE_INTEGER then Some n else None)"
proof -
  have "\<lfloor>of_nat n :: rat\<rfloor> = int n" by simp
  moreover have "(of_nat n :: rat) \<le> of_nat MAX_SAFE_INTEGER \<longleftrightarrow> n \<le> MAX_SAFE_INTEGER"
    by (rule of_nat_le_iff)
  ultimately show ?thesis by (simp only: nonneg_int.simps) simp
qed

declare nonneg_int.simps(1) [simp del]

lemma js_get_Cons [simp]: "js_get ((k, v) # m) j = (if j = k then Some v else js_get m j)"
  by (simp add: js_get_def)

lemma offset_schema_json [simp]:
  "offset_schema (offset_json n) = (if n \<le> MAX_SAFE_INTEGER then Some n else None)"
  by (simp add: offset_json_def only_keys_def field_def)

lemma session_event_schema_json [simp]:
  "session_event_schema (session_event_json c) =
     (if sec_last_turn_id c \<noteq> '''' \<and> sec_offset c \<le> MAX_SAFE_INTEGER then Some c else None)"
  by (simp add: session_event_json_def only_keys_def field_def)

lemma session_list_schema_json [simp]:
  "session_list_schema lib (session_list_json c) =
     (if iso_valid lib (slc_updated_at c) \<and> slc_session_id c \<noteq> '''' then Some c else None)"
  by (simp add: session_list_json_def only_keys_def field_def)

lemma encode_offset:
  "encodeOffsetPageToken n =
     (if n \<le> MAX_SAFE_INTEGER then Inr (Json_token (offset_json n)) else Inl Zod_error)"
  by (simp add: encodeOffsetPageToken_def encodePageToken_def)

lemma encode_session_event:
  "encodeSessionEventPageToken c =
     (if sec_last_turn_id c \<noteq> '''' \<and> sec_offset c \<le> MAX_SAFE_INTEGER
      then Inr (Json_token (session_event_json c)) else Inl Zod_error)"
  by (simp add: encodeSessionEventPageToken_def encodePageToken_def)

lemma encode_session_list:
  "encodeSessionListPageToken lib c =
     (if iso_valid lib (slc_updated_at c) \<and> slc_session_id c \<noteq> ''''
      then Inr (Json_token (session_list_json c)) else Inl Zod_error)"
  by (simp add: encodeSessionListPageToken_def encodePageToken_def)

end
