(* ===== verification/Conversation.thy ===== *)
theory Conversation
  imports Wire_Types
begin

text \<open>
  Questions the harness asks of a conversation context, all pure functions of the message list:
  \<open>core/runtime/contextUtils.ts\<close>, \<open>core/runtime/contextUsage.ts\<close>, \<open>core/runtime/OpenToolCallCloser.ts\<close>,
  \<open>core/runtime/metrics.ts\<close>, \<open>core/llm/usage.ts\<close> and the context helpers at the top of
  \<open>core/runtime/AgentThread.ts\<close>. A JavaScript \<open>Set\<close> of ids is a list without duplicates in insertion
  order.
\<close>

section \<open>Insertion-ordered id sets\<close>

definition js_add :: "'a \<Rightarrow> 'a list \<Rightarrow> 'a list" where
  "js_add x xs = (if x \<in> set xs then xs else xs @ [x])"

definition js_remove :: "'a \<Rightarrow> 'a list \<Rightarrow> 'a list" where
  "js_remove x xs = filter (\<lambda>y. y \<noteq> x) xs"

definition js_set_of :: "'a list \<Rightarrow> 'a list" where
  "js_set_of xs = fold js_add xs []"

lemma set_js_add [simp]: "set (js_add x xs) = insert x (set xs)"
  by (auto simp: js_add_def)

lemma set_js_remove [simp]: "set (js_remove x xs) = set xs - {x}"
  by (auto simp: js_remove_def)

lemma distinct_js_add [simp]: "distinct xs \<Longrightarrow> distinct (js_add x xs)"
  by (auto simp: js_add_def)

lemma distinct_js_remove [simp]: "distinct xs \<Longrightarrow> distinct (js_remove x xs)"
  by (simp add: js_remove_def)

lemma set_fold_js_add [simp]: "set (fold js_add xs ys) = set ys \<union> set xs"
  by (induction xs arbitrary: ys) auto

lemma distinct_fold_js_add [simp]: "distinct ys \<Longrightarrow> distinct (fold js_add xs ys)"
  by (induction xs arbitrary: ys) auto

lemma set_fold_js_remove [simp]: "set (fold js_remove xs ys) = set ys - set xs"
  by (induction xs arbitrary: ys) auto

lemma distinct_fold_js_remove [simp]: "distinct ys \<Longrightarrow> distinct (fold js_remove xs ys)"
  by (induction xs arbitrary: ys) auto

lemma set_js_set_of [simp]: "set (js_set_of xs) = set xs"
  by (simp add: js_set_of_def)

lemma distinct_js_set_of [simp]: "distinct (js_set_of xs)"
  by (simp add: js_set_of_def)

section \<open>Message classification\<close>

definition SYSTEM_TAG_START :: string where
  "SYSTEM_TAG_START = ''<tfy-internal>''"

definition SYSTEM_TAG_END :: string where
  "SYSTEM_TAG_END = ''</tfy-internal>''"

definition internalSystemTag :: "string \<Rightarrow> string" where
  "internalSystemTag m = SYSTEM_TAG_START @ m @ SYSTEM_TAG_END"

definition internalSystemMessage :: "string \<Rightarrow> context_message" where
  "internalSystemMessage m = User_msg (UText (internalSystemTag m))"

fun isLLMContextMessage :: "context_message \<Rightarrow> bool" where
  "isLLMContextMessage (Approval_msg i d) = False"
| "isLLMContextMessage m = True"

fun isInternalSystemMessage :: "context_message \<Rightarrow> bool" where
  "isInternalSystemMessage (User_msg (UText s)) =
     (take (length SYSTEM_TAG_START) s = SYSTEM_TAG_START)"
| "isInternalSystemMessage m = False"

fun isApprovalDecisionMessage :: "send_input \<Rightarrow> bool" where
  "isApprovalDecisionMessage (Send_approval m) = True"
| "isApprovalDecisionMessage m = False"

fun isClientSideToolResponseMessage :: "send_input \<Rightarrow> bool" where
  "isClientSideToolResponseMessage (Send_response m) = True"
| "isClientSideToolResponseMessage m = False"

fun isInputUserMessage :: "send_input \<Rightarrow> bool" where
  "isInputUserMessage (Send_user c) = True"
| "isInputUserMessage m = False"

fun isLLMToolMessage :: "send_input \<Rightarrow> bool" where
  "isLLMToolMessage (Send_tool m) = True"
| "isLLMToolMessage m = False"

fun is_assistant :: "context_message \<Rightarrow> bool" where
  "is_assistant (Assistant_msg m) = True"
| "is_assistant m = False"

text \<open>Later decisions for the same call override earlier ones, as \<open>Map.set\<close> does.\<close>

fun scan_decisions ::
  "context_message list \<Rightarrow> (string, approval_decision) js_map \<Rightarrow> (string, approval_decision) js_map"
where
  "scan_decisions [] d = d"
| "scan_decisions (Approval_msg i a # ms) d = scan_decisions ms (js_set i a d)"
| "scan_decisions (m # ms) d = scan_decisions ms d"

definition scanApprovalDecisions :: "context_message list \<Rightarrow> (string, approval_decision) js_map" where
  "scanApprovalDecisions ctx = scan_decisions ctx []"

definition makeUnknownToolInfo :: "string \<Rightarrow> internal_tool_call_info" where
  "makeUnknownToolInfo toolName =
     \<lparr>ti_type = Mcp, ti_server_id = UNKNOWN_TOOL_NAME, ti_server_name = UNKNOWN_TOOL_NAME,
      ti_original_tool_name = toolName, ti_is_approval_required = Some False,
      ti_is_deferred = None, ti_is_client_side = Some False, ti_is_thread_creation = None\<rparr>"

definition toToolCallInfo :: "internal_tool_call_info \<Rightarrow> tool_info" where
  "toToolCallInfo ti =
     (case ti_type ti of
        Mcp \<Rightarrow> MCP_tool_info (ti_server_id ti) (ti_server_name ti) (ti_original_tool_name ti)
      | Truefoundry_system \<Rightarrow> System_tool_info (ti_original_tool_name ti))"

definition toEnrichedToolCall :: "internal_tool_call \<Rightarrow> enriched_tool_call" where
  "toEnrichedToolCall tc =
     \<lparr>tc_id = tc_id tc, tc_name = tc_name tc, tc_arguments = tc_arguments tc,
      tc_provider_fields = tc_provider_fields tc, tc_public_info = toToolCallInfo (tc_tool_info tc)\<rparr>"

text \<open>
  \<open>JSON.stringify\<close> of a content part stands for its text form, a parameter; the branch on the error
  message tests its truthiness, so an empty message counts as none.
\<close>

definition assistantMessageContentToStringForSubAgent ::
  "(assistant_part \<Rightarrow> string) \<Rightarrow> assistant_content option \<Rightarrow> string option \<Rightarrow> string"
where
  "assistantMessageContentToStringForSubAgent stringify content errorMessage =
     (let text = (case content of
                    None \<Rightarrow> ''''
                  | Some (AText s) \<Rightarrow> s
                  | Some (AParts ps) \<Rightarrow> concat (map stringify ps))
      in case errorMessage of
           None \<Rightarrow> text
         | Some e \<Rightarrow>
             if e = '''' then text
             else if text = '''' then e
             else e @ [CHR 0x0A] @ text)"

section \<open>Token estimates and usage\<close>

definition estimateTokensForString :: "string \<Rightarrow> rat" where
  "estimateTokensForString s = of_nat (length s) / 4"

definition getEmptyCurrentContextUsage :: current_context_usage where
  "getEmptyCurrentContextUsage = \<lparr>ccu_prompt_tokens = 0, ccu_completion_tokens = 0\<rparr>"

definition mergeCurrentContextUsage ::
  "current_context_usage \<Rightarrow> current_context_usage \<Rightarrow> current_context_usage"
where
  "mergeCurrentContextUsage a b =
     \<lparr>ccu_prompt_tokens = ccu_prompt_tokens a + ccu_prompt_tokens b,
      ccu_completion_tokens = ccu_completion_tokens a + ccu_completion_tokens b\<rparr>"

definition currentContextUsageFromCompletion :: "completion_usage \<Rightarrow> current_context_usage" where
  "currentContextUsageFromCompletion u =
     \<lparr>ccu_prompt_tokens = of_nat (cu_input_tokens u), ccu_completion_tokens = of_nat (cu_output_tokens u)\<rparr>"

fun content_tokens :: "context_message \<Rightarrow> rat" where
  "content_tokens (User_msg (UText s)) = estimateTokensForString s"
| "content_tokens (User_msg (UParts ps)) =
     sum_list (map (\<lambda>p. case p of PText t \<Rightarrow> estimateTokensForString t | _ \<Rightarrow> 0) ps)"
| "content_tokens (Assistant_msg m) =
     (case am_content m of
        None \<Rightarrow> 0
      | Some (AText s) \<Rightarrow> estimateTokensForString s
      | Some (AParts ps) \<Rightarrow>
          sum_list (map (\<lambda>p. case p of ATextPart t \<Rightarrow> estimateTokensForString t | _ \<Rightarrow> 0) ps))"
| "content_tokens (Tool_msg t) = estimateTokensForString (tm_content t)"
| "content_tokens (Approval_msg i d) = 0"

fun tool_call_tokens :: "context_message \<Rightarrow> rat" where
  "tool_call_tokens (Assistant_msg m) =
     (case am_tool_calls m of
        None \<Rightarrow> 0
      | Some tcs \<Rightarrow>
          sum_list (map (\<lambda>tc. estimateTokensForString (tc_name tc) +
                              estimateTokensForString (tc_arguments tc)) tcs))"
| "tool_call_tokens m = 0"

fun tool_call_id_tokens :: "context_message \<Rightarrow> rat" where
  "tool_call_id_tokens (Tool_msg t) = estimateTokensForString (tm_tool_call_id t)"
| "tool_call_id_tokens (Approval_msg i d) = estimateTokensForString i"
| "tool_call_id_tokens m = 0"

definition estimateTokensForContextMessages :: "context_message list \<Rightarrow> current_context_usage" where
  "estimateTokensForContextMessages messages =
     \<lparr>ccu_prompt_tokens =
        sum_list (map (\<lambda>b. content_tokens b + tool_call_tokens b + tool_call_id_tokens b) messages),
      ccu_completion_tokens = 0\<rparr>"

section \<open>Open tool calls\<close>

definition tool_call_ids :: "internal_assistant_message \<Rightarrow> string list" where
  "tool_call_ids m = map tc_id (case am_tool_calls m of None \<Rightarrow> [] | Some tcs \<Rightarrow> tcs)"

definition hasToolCalls :: "internal_assistant_message \<Rightarrow> bool" where
  "hasToolCalls m = (case am_tool_calls m of None \<Rightarrow> False | Some tcs \<Rightarrow> length tcs > 0)"

text \<open>
  The backward loop of \<open>getOpenToolCallIds\<close>, over the reversed context: it collects the resolved ids
  until it meets the last assistant message.
\<close>

fun open_scan :: "string list \<Rightarrow> context_message list \<Rightarrow> string list" where
  "open_scan resolved [] = []"
| "open_scan resolved (Tool_msg t # ms) = open_scan (js_add (tm_tool_call_id t) resolved) ms"
| "open_scan resolved (Assistant_msg m # ms) = fold js_remove resolved (js_set_of (tool_call_ids m))"
| "open_scan resolved (msg # ms) = open_scan resolved ms"

definition getOpenToolCallIds :: "context_message list \<Rightarrow> string list" where
  "getOpenToolCallIds ctx = open_scan [] (rev ctx)"

fun first_assistant :: "context_message list \<Rightarrow> internal_assistant_message option" where
  "first_assistant [] = None"
| "first_assistant (Assistant_msg m # ms) = Some m"
| "first_assistant (msg # ms) = first_assistant ms"

definition lastAssistantInContext :: "context_message list \<Rightarrow> internal_assistant_message option" where
  "lastAssistantInContext ctx = first_assistant (rev ctx)"

definition last_tool_calls :: "context_message list \<Rightarrow> internal_tool_call list" where
  "last_tool_calls ctx =
     (case lastAssistantInContext ctx of
        None \<Rightarrow> []
      | Some m \<Rightarrow> (case am_tool_calls m of None \<Rightarrow> [] | Some tcs \<Rightarrow> tcs))"

text \<open>
  \<open>getClosableOpenToolCallIds\<close> looks for the last assistant message that has tool calls, which need not
  be the last assistant message, and gives up if any of its calls awaits an approval or a client.
\<close>

fun split_last_calling ::
  "context_message list \<Rightarrow> context_message list \<Rightarrow>
   (internal_assistant_message \<times> context_message list) option"
where
  "split_last_calling after [] = None"
| "split_last_calling after (Assistant_msg m # ms) =
     (if hasToolCalls m then Some (m, after) else split_last_calling (Assistant_msg m # after) ms)"
| "split_last_calling after (msg # ms) = split_last_calling (msg # after) ms"

fun tool_message_ids :: "context_message list \<Rightarrow> string list" where
  "tool_message_ids [] = []"
| "tool_message_ids (Tool_msg t # ms) = tm_tool_call_id t # tool_message_ids ms"
| "tool_message_ids (msg # ms) = tool_message_ids ms"

definition getClosableOpenToolCallIds :: "context_message list \<Rightarrow> string list" where
  "getClosableOpenToolCallIds ctx =
     (case split_last_calling [] (rev ctx) of
        None \<Rightarrow> []
      | Some (m, after) \<Rightarrow>
          (case am_tool_calls m of
             None \<Rightarrow> []
           | Some tcs \<Rightarrow>
               if \<exists>tc \<in> set tcs. ti_is_approval_required (tc_tool_info tc) = Some True \<or>
                                 ti_is_client_side (tc_tool_info tc) = Some True
               then []
               else fold js_remove (tool_message_ids after)
                      (js_set_of (map tc_id (filter
                         (\<lambda>tc. ti_is_thread_creation (tc_tool_info tc) \<noteq> Some True) tcs)))))"

definition getUnclosableOpenToolCallIds :: "context_message list \<Rightarrow> string list \<Rightarrow> string list" where
  "getUnclosableOpenToolCallIds ctx openIds = fold js_remove (getClosableOpenToolCallIds ctx) openIds"

definition getPendingApprovalToolCalls :: "context_message list \<Rightarrow> internal_tool_call list" where
  "getPendingApprovalToolCalls ctx =
     filter (\<lambda>tc. tc_id tc \<in> set (getOpenToolCallIds ctx) \<and>
                  ti_is_approval_required (tc_tool_info tc) = Some True \<and>
                  \<not> js_has (scanApprovalDecisions ctx) (tc_id tc))
       (last_tool_calls ctx)"

definition getPendingClientSideToolCalls :: "context_message list \<Rightarrow> internal_tool_call list" where
  "getPendingClientSideToolCalls ctx =
     filter (\<lambda>tc. tc_id tc \<in> set (getOpenToolCallIds ctx) \<and>
                  ti_is_client_side (tc_tool_info tc) = Some True)
       (last_tool_calls ctx)"

definition DUMMY_TOOL_MESSAGE_CONTENT :: string where
  "DUMMY_TOOL_MESSAGE_CONTENT =
     ''{\"error\":\"Tool call was not executed. Please retry this tool call.\"}''"

text \<open>
  \<open>OpenToolCallCloser.processPreSend\<close>: nothing, or one append of dummy responses with the usage after
  it.
\<close>

definition closer_process_pre_send ::
  "current_context_usage \<Rightarrow> context_message list \<Rightarrow>
   (context_message list \<times> current_context_usage) option"
where
  "closer_process_pre_send usage ctx =
     (let requestedIds = getClosableOpenToolCallIds ctx in
      if requestedIds = [] then None
      else let dummies = map (\<lambda>i. Tool_msg \<lparr>tm_tool_call_id = i,
                                            tm_content = DUMMY_TOOL_MESSAGE_CONTENT\<rparr>) requestedIds
           in Some (dummies, mergeCurrentContextUsage usage (estimateTokensForContextMessages dummies)))"

section \<open>Aggregated metrics\<close>

record agent_thread_metrics =
  total_input_tokens :: nat
  total_output_tokens :: nat
  total_tokens :: nat
  total_cache_read_tokens :: "nat option"
  total_cache_write_tokens :: "nat option"
  total_reasoning_tokens :: "nat option"
  total_cost_in_usd :: "rat option"
  iterations :: nat
  total_tool_calls :: nat
  total_summarizations :: nat
  total_sub_agents :: nat

fun sumOptional :: "'a::monoid_add option \<Rightarrow> 'a option \<Rightarrow> 'a option" where
  "sumOptional None None = None"
| "sumOptional a b = Some ((case a of None \<Rightarrow> 0 | Some x \<Rightarrow> x) + (case b of None \<Rightarrow> 0 | Some y \<Rightarrow> y))"

definition createEmptyAgentThreadMetrics :: agent_thread_metrics where
  "createEmptyAgentThreadMetrics =
     \<lparr>total_input_tokens = 0, total_output_tokens = 0, total_tokens = 0,
      total_cache_read_tokens = None, total_cache_write_tokens = None,
      total_reasoning_tokens = None, total_cost_in_usd = None,
      iterations = 0, total_tool_calls = 0, total_summarizations = 0, total_sub_agents = 0\<rparr>"

definition updateMetricsFromUsage :: "agent_thread_metrics \<Rightarrow> completion_usage \<Rightarrow> agent_thread_metrics" where
  "updateMetricsFromUsage t u =
     t\<lparr>total_input_tokens := total_input_tokens t + cu_input_tokens u,
       total_output_tokens := total_output_tokens t + cu_output_tokens u,
       total_tokens := total_tokens t + cu_total_tokens u,
       total_cache_read_tokens := sumOptional (total_cache_read_tokens t) (cu_cache_read_tokens u),
       total_cache_write_tokens := sumOptional (total_cache_write_tokens t) (cu_cache_write_tokens u),
       total_reasoning_tokens := sumOptional (total_reasoning_tokens t) (cu_reasoning_tokens u),
       total_cost_in_usd := sumOptional (total_cost_in_usd t) (cu_cost_in_usd u)\<rparr>"

definition addAgentThreadMetrics ::
  "agent_thread_metrics \<Rightarrow> agent_thread_metrics \<Rightarrow> agent_thread_metrics"
where
  "addAgentThreadMetrics t s =
     \<lparr>total_input_tokens = total_input_tokens t + total_input_tokens s,
      total_output_tokens = total_output_tokens t + total_output_tokens s,
      total_tokens = total_tokens t + total_tokens s,
      total_cache_read_tokens = sumOptional (total_cache_read_tokens t) (total_cache_read_tokens s),
      total_cache_write_tokens = sumOptional (total_cache_write_tokens t) (total_cache_write_tokens s),
      total_reasoning_tokens = sumOptional (total_reasoning_tokens t) (total_reasoning_tokens s),
      total_cost_in_usd = sumOptional (total_cost_in_usd t) (total_cost_in_usd s),
      iterations = iterations t + iterations s,
      total_tool_calls = total_tool_calls t + total_tool_calls s,
      total_summarizations = total_summarizations t + total_summarizations s,
      total_sub_agents = total_sub_agents t + total_sub_agents s\<rparr>"

end
