(* ===== verification/Session_Store.thy ===== *)
theory Session_Store
  imports Page_Tokens Conversation
begin

text \<open>
  \<open>agent-session/store/InMemorySessionStore.ts\<close> and \<open>assertCreateTurnThreadDelta.ts\<close>: the reference
  implementation of \<open>ISessionStore\<close>, every operation of it.

  The four maps of the class are the record \<open>store\<close>. A method that writes returns the store it leaves
  behind beside its result, \<open>Inl\<close> the thrown error: an exception does not undo a mutation that came
  before it. Each method body is synchronous, so a call is one step. \<open>clk n\<close> is the \<open>n\<close>-th reading of
  the clock in the body. The deep copies at the boundary are the identity on values.
\<close>

record stored_inbound_event =
  sie_event_id :: string
  sie_turn_id :: string
  sie_payload :: turn_inbound_event_item
  sie_created_at :: string
  sie_consumed :: bool

record stored_session =
  ss_record :: session_record
  ss_turn_ids :: "string list"

record store =
  st_sessions :: "(string, stored_session) js_map"
  st_turns :: "(string, turn_record) js_map"
  st_events :: "(string, persisted_event list) js_map"
  st_inbound :: "(string, stored_inbound_event list) js_map"

type_synonym 'a outcome = "store \<times> (serror + 'a)"

definition empty_store :: store where
  "empty_store = \<lparr>st_sessions = [], st_turns = [], st_events = [], st_inbound = []\<rparr>"

definition sessionKey :: "string \<Rightarrow> string" where
  "sessionKey sid = sid"

definition turnKey :: "string \<Rightarrow> string \<Rightarrow> string" where
  "turnKey sid tid = sid @ '':'' @ tid"

text \<open>An assignment to a field of the object stored under a key.\<close>

abbreviation put_session :: "string \<Rightarrow> stored_session \<Rightarrow> store \<Rightarrow> store" where
  "put_session k ss s \<equiv> s\<lparr>st_sessions := js_set k ss (st_sessions s)\<rparr>"

abbreviation put_turn :: "string \<Rightarrow> turn_record \<Rightarrow> store \<Rightarrow> store" where
  "put_turn k t s \<equiv> s\<lparr>st_turns := js_set k t (st_turns s)\<rparr>"

abbreviation put_events :: "string \<Rightarrow> persisted_event list \<Rightarrow> store \<Rightarrow> store" where
  "put_events k es s \<equiv> s\<lparr>st_events := js_set k es (st_events s)\<rparr>"

section \<open>The thread delta of a new turn\<close>

text \<open>The three loops of the checks, each over the ids its entries name.\<close>

fun new_thread_scan :: "string list \<Rightarrow> string list \<Rightarrow> string list \<Rightarrow> serror + string list" where
  "new_thread_scan prv [] acc = Inr acc"
| "new_thread_scan prv (i # ids) acc =
     (if i \<in> set prv \<or> i \<in> set acc then Inl (Store_invariant (Thread_already_exists i))
      else new_thread_scan prv ids (acc @ [i]))"

fun append_scan :: "string list \<Rightarrow> string list \<Rightarrow> serror + unit" where
  "append_scan known [] = Inr ()"
| "append_scan known (i # ids) =
     (if i \<notin> set known then Inl (Store_invariant (Append_unknown_thread i)) else append_scan known ids)"

fun capability_scan :: "string list \<Rightarrow> string list \<Rightarrow> string list \<Rightarrow> serror + string list" where
  "capability_scan known [] seen = Inr seen"
| "capability_scan known (i # ids) seen =
     (if i \<notin> set known then Inl (Store_invariant (Capability_unknown_thread i))
      else if i \<in> set seen then Inl (Store_invariant (Capability_duplicate_thread i))
      else capability_scan known ids (seen @ [i]))"

fun missing_scan :: "string list \<Rightarrow> string list \<Rightarrow> serror + unit" where
  "missing_scan seen [] = Inr ()"
| "missing_scan seen (i # known) =
     (if i \<notin> set seen then Inl (Store_invariant (Capability_missing_thread i))
      else missing_scan seen known)"

definition assertCreateTurnThreadDelta ::
    "string list \<Rightarrow> new_thread_init list \<Rightarrow> turn_context_append list
       \<Rightarrow> thread_capability_state_init list \<Rightarrow> serror + string list" where
  "assertCreateTurnThreadDelta previous new_threads appends caps =
     bindE (new_thread_scan previous (map nt_thread_id new_threads) []) (\<lambda>new_ids.
     let known = fold js_add new_ids (js_set_of previous) in
     bindE (append_scan known (map tca_thread_id appends)) (\<lambda>_.
     bindE (capability_scan known (map tcs_thread_id caps) []) (\<lambda>seen.
     bindE (missing_scan seen known) (\<lambda>_. Inr known))))"

section \<open>The snapshot of a new turn\<close>

definition newThreadSnapshot :: "new_thread_init \<Rightarrow> agent_thread_snapshot" where
  "newThreadSnapshot nt =
     \<lparr>ats_thread_id = nt_thread_id nt, ats_context = [],
      ats_current_context_usage = getEmptyCurrentContextUsage, ats_parent = nt_parent nt,
      ats_agent_info = nt_agent_info nt, ats_completion = None, ats_capability_state = None\<rparr>"

type_synonym thread_map = "(string, agent_thread_snapshot) js_map"

text \<open>The append of messages, usage and completion is shared with \<open>appendToThreadContext\<close>.\<close>

definition append_to_thread ::
    "context_message list \<Rightarrow> current_context_usage option \<Rightarrow> sub_agent_completion option
       \<Rightarrow> agent_thread_snapshot \<Rightarrow> agent_thread_snapshot" where
  "append_to_thread msgs usage completion th =
     th\<lparr>ats_context := ats_context th @ msgs,
        ats_current_context_usage :=
          (case usage of None \<Rightarrow> ats_current_context_usage th | Some u \<Rightarrow> u),
        ats_completion := (case completion of None \<Rightarrow> ats_completion th | Some c \<Rightarrow> Some c)\<rparr>"

definition apply_append :: "turn_context_append \<Rightarrow> thread_map \<Rightarrow> serror + thread_map" where
  "apply_append a threads =
     (case js_get threads (tca_thread_id a) of
        None \<Rightarrow> Inl (Store_invariant (Append_unknown_thread (tca_thread_id a)))
      | Some th \<Rightarrow>
          Inr (js_set (tca_thread_id a)
                 (append_to_thread (tca_context a) (tca_current_context_usage a) (tca_completion a) th)
                 threads))"

definition applyContextAppends :: "thread_map \<Rightarrow> turn_context_append list \<Rightarrow> serror + thread_map" where
  "applyContextAppends threads appends = foldE apply_append appends threads"

definition apply_capability :: "thread_capability_state_init \<Rightarrow> thread_map \<Rightarrow> serror + thread_map" where
  "apply_capability c threads =
     (case js_get threads (tcs_thread_id c) of
        None \<Rightarrow> Inl (Store_invariant (Capability_unknown_thread (tcs_thread_id c)))
      | Some th \<Rightarrow>
          Inr (js_set (tcs_thread_id c) (th\<lparr>ats_capability_state := tcs_capability_state c\<rparr>) threads))"

definition buildSnapshotFromDelta ::
    "turn_snapshot option \<Rightarrow> new_thread_init list \<Rightarrow> turn_context_append list
       \<Rightarrow> thread_capability_state_init list \<Rightarrow> serror + turn_snapshot" where
  "buildSnapshotFromDelta previous new_threads appends caps =
     (let threads0 = (case previous of None \<Rightarrow> [] | Some p \<Rightarrow> sn_threads p) in
      bindE (assertCreateTurnThreadDelta (js_keys threads0) new_threads appends caps) (\<lambda>_.
      let threads1 = fold (\<lambda>nt. js_set (nt_thread_id nt) (newThreadSnapshot nt)) new_threads threads0 in
      bindE (applyContextAppends threads1 appends) (\<lambda>threads2.
      bindE (foldE apply_capability caps threads2) (\<lambda>threads3.
        Inr \<lparr>sn_threads = threads3,
             sn_mcp_servers = Option.bind previous sn_mcp_servers,
             sn_sandbox_info = Option.bind previous sn_sandbox_info\<rparr>))))"

section \<open>Sessions\<close>

definition createSession :: "(nat \<Rightarrow> int) \<Rightarrow> create_session_input \<Rightarrow> store \<Rightarrow> unit outcome" where
  "createSession clk inp s =
     (if js_has (st_sessions s) (sessionKey (csi_session_id inp))
      then (s, Inl (Session_already_exists (csi_session_id inp)))
      else if csi_external_id inp \<noteq> None \<and>
              list_ex (\<lambda>ss. sr_tenant_id (ss_record ss) = csi_tenant_id inp \<and>
                            sr_external_id (ss_record ss) = csi_external_id inp)
                (js_values (st_sessions s))
      then (s, Inl (Session_external_id_conflict (the (csi_external_id inp))))
      else
        let r = \<lparr>sr_tenant_id = csi_tenant_id inp, sr_session_id = csi_session_id inp,
                 sr_created_by_subject = csi_created_by_subject inp, sr_agent = csi_agent inp,
                 sr_title = None, sr_external_id = csi_external_id inp, sr_source = csi_source inp,
                 sr_last_turn_details = None, sr_created_at = clk 0, sr_updated_at = clk 0,
                 sr_last_activity_timestamp_ms = clk 1,
                 sr_metrics = \<lparr>sm_total_cost_in_usd = None, sm_total_duration_ms = 0,
                               sm_total_turns = 0\<rparr>,
                 sr_metadata = csi_metadata inp, sr_custom = csi_custom inp\<rparr>
        in (put_session (sessionKey (csi_session_id inp)) \<lparr>ss_record = r, ss_turn_ids = []\<rparr> s, Inr ()))"

definition delete_turn_rows :: "string \<Rightarrow> string \<Rightarrow> store \<Rightarrow> store" where
  "delete_turn_rows sid tid s =
     s\<lparr>st_turns := js_delete (turnKey sid tid) (st_turns s),
       st_events := js_delete (turnKey sid tid) (st_events s),
       st_inbound := js_delete (turnKey sid tid) (st_inbound s)\<rparr>"

definition deleteSession :: "string \<Rightarrow> string \<Rightarrow> store \<Rightarrow> unit outcome" where
  "deleteSession tenant sid s =
     (case js_get (st_sessions s) (sessionKey sid) of
        None \<Rightarrow> (s, Inr ())
      | Some ss \<Rightarrow>
          if sr_tenant_id (ss_record ss) \<noteq> tenant then (s, Inr ())
          else let s' = fold (delete_turn_rows sid) (ss_turn_ids ss) s
               in (s'\<lparr>st_sessions := js_delete (sessionKey sid) (st_sessions s')\<rparr>, Inr ()))"

definition getSession :: "string \<Rightarrow> string \<Rightarrow> store \<Rightarrow> session_record option" where
  "getSession tenant sid s =
     (case js_get (st_sessions s) (sessionKey sid) of
        None \<Rightarrow> None
      | Some ss \<Rightarrow> if sr_tenant_id (ss_record ss) = tenant then Some (ss_record ss) else None)"

definition getOwnedIds :: "string \<Rightarrow> string list \<Rightarrow> string \<Rightarrow> store \<Rightarrow> string list" where
  "getOwnedIds tenant ids subject s =
     (if ids = [] then []
      else map sr_session_id
             (filter (\<lambda>r. sr_tenant_id r = tenant \<and> sr_session_id r \<in> set ids \<and>
                          cb_subject_id (sr_created_by_subject r) = subject)
               (map ss_record (js_values (st_sessions s)))))"

definition getSessionByExternalId :: "string \<Rightarrow> string \<Rightarrow> store \<Rightarrow> session_record option" where
  "getSessionByExternalId tenant ext s =
     List.find (\<lambda>r. sr_tenant_id r = tenant \<and> sr_external_id r = Some ext)
       (map ss_record (js_values (st_sessions s)))"

fun is_reference :: "session_agent \<Rightarrow> bool" where
  "is_reference (Agent_reference i n) = True"
| "is_reference (Agent_inline sp) = False"

definition patch_session :: "(nat \<Rightarrow> int) \<Rightarrow> update_session_input \<Rightarrow> session_record \<Rightarrow> session_record" where
  "patch_session clk inp r =
     r\<lparr>sr_agent := (case usi_agent inp of None \<Rightarrow> sr_agent r | Some sp \<Rightarrow> Agent_inline sp),
       sr_title := (case usi_title inp of None \<Rightarrow> sr_title r | Some t \<Rightarrow> t),
       sr_metadata := (case usi_metadata inp of None \<Rightarrow> sr_metadata r | Some m \<Rightarrow> m),
       sr_updated_at := clk 0, sr_last_activity_timestamp_ms := clk 0\<rparr>"

definition updateSession :: "(nat \<Rightarrow> int) \<Rightarrow> update_session_input \<Rightarrow> store \<Rightarrow> unit outcome" where
  "updateSession clk inp s =
     (case js_get (st_sessions s) (sessionKey (usi_session_id inp)) of
        None \<Rightarrow> (s, Inl (Session_not_found (usi_session_id inp)))
      | Some ss \<Rightarrow>
          if sr_tenant_id (ss_record ss) \<noteq> usi_tenant_id inp
          then (s, Inl (Session_not_found (usi_session_id inp)))
          else if usi_agent inp \<noteq> None \<and> is_reference (sr_agent (ss_record ss))
          then (s, Inl (Store_invariant (Named_agent_cannot_be_updated (usi_session_id inp))))
          else (put_session (sessionKey (usi_session_id inp))
                  (ss\<lparr>ss_record := patch_session clk inp (ss_record ss)\<rparr>) s, Inr ()))"

section \<open>Listing sessions\<close>

definition metadata_matches :: "session_metadata \<Rightarrow> session_metadata \<Rightarrow> bool" where
  "metadata_matches flt md =
     (if flt = [] then md = [] else list_all (\<lambda>(k, v). js_get md k = Some v) flt)"

definition agent_id_of :: "session_agent \<Rightarrow> string option" where
  "agent_id_of a = (case a of Agent_reference i n \<Rightarrow> Some i | Agent_inline sp \<Rightarrow> None)"

text \<open>\<open>opt_all p o\<close>: a filter that is absent, or that holds.\<close>

definition opt_all :: "('a \<Rightarrow> bool) \<Rightarrow> 'a option \<Rightarrow> bool" where
  "opt_all p x = (case x of None \<Rightarrow> True | Some a \<Rightarrow> p a)"

definition session_matches :: "page_token list_sessions_input \<Rightarrow> session_record \<Rightarrow> bool" where
  "session_matches inp r \<longleftrightarrow>
     sr_tenant_id r = lsi_tenant_id inp \<and>
     opt_all (\<lambda>i. agent_id_of (sr_agent r) = Some i) (lsi_agent_id inp) \<and>
     opt_all (\<lambda>(creator, agents).
         cb_subject_id (sr_created_by_subject r) = creator \<or>
         (case agent_id_of (sr_agent r) of None \<Rightarrow> False | Some i \<Rightarrow> i \<in> set agents))
       (lsi_created_by_or_agent_ids inp) \<and>
     opt_all (\<lambda>flt. metadata_matches flt (sr_metadata r)) (lsi_metadata inp) \<and>
     opt_all (\<lambda>ty. map_option (source_type_text \<circ> src_type) (sr_source r) = Some ty)
       (lsi_source_type inp) \<and>
     opt_all (\<lambda>i. map_option src_id (sr_source r) = Some i) (lsi_source_id inp) \<and>
     opt_all (\<lambda>t. \<not> sr_created_at r < t) (lsi_start_timestamp inp) \<and>
     opt_all (\<lambda>t. \<not> sr_created_at r > t) (lsi_end_timestamp inp)"

definition session_cmp :: "sort_order option \<Rightarrow> session_record \<Rightarrow> session_record \<Rightarrow> int" where
  "session_cmp order a b =
     (if sr_updated_at a \<noteq> sr_updated_at b
      then if order = Some Order_asc then sr_updated_at a - sr_updated_at b
           else sr_updated_at b - sr_updated_at a
      else if order = Some Order_asc then compare_strings (sr_session_id a) (sr_session_id b)
           else compare_strings (sr_session_id b) (sr_session_id a))"

text \<open>The keyset predicate; a cursor whose text is no date compares as \<open>NaN\<close>.\<close>

definition beyond_cursor ::
    "iso_lib \<Rightarrow> sort_order option \<Rightarrow> session_list_cursor \<Rightarrow> session_record \<Rightarrow> bool" where
  "beyond_cursor lib order c r =
     (case iso_time lib (slc_updated_at c) of
        None \<Rightarrow> False
      | Some ct \<Rightarrow>
          (let t = sr_updated_at r; i = compare_strings (sr_session_id r) (slc_session_id c)
           in if order = Some Order_asc then t > ct \<or> (t = ct \<and> i > 0)
              else t < ct \<or> (t = ct \<and> i < 0)))"

definition matching_sessions :: "page_token list_sessions_input \<Rightarrow> store \<Rightarrow> session_record list" where
  "matching_sessions inp s =
     js_sort (session_cmp (lsi_order inp))
       (filter (session_matches inp) (map ss_record (js_values (st_sessions s))))"

definition session_cursor :: "iso_lib \<Rightarrow> session_record \<Rightarrow> session_list_cursor" where
  "session_cursor lib r =
     \<lparr>slc_updated_at = iso_text lib (sr_updated_at r), slc_session_id = sr_session_id r\<rparr>"

definition listSessions ::
    "iso_lib \<Rightarrow> page_token list_sessions_input \<Rightarrow> store
       \<Rightarrow> serror + (session_record list \<times> page_token token_pagination)" where
  "listSessions lib inp s =
     (let records = matching_sessions inp s in
      bindE (decodeSessionListPageToken lib (lsi_page_token inp)) (\<lambda>cursor.
      let filtered = (case cursor of None \<Rightarrow> records
                      | Some c \<Rightarrow> filter (beyond_cursor lib (lsi_order inp) c) records)
      in paginateSessionListRows lib filtered (lsi_limit inp) (session_cursor lib)))"

section \<open>Turns\<close>

definition requireSession :: "store \<Rightarrow> string \<Rightarrow> serror + stored_session" where
  "requireSession s sid =
     (case js_get (st_sessions s) (sessionKey sid) of
        None \<Rightarrow> Inl (Session_not_found sid) | Some ss \<Rightarrow> Inr ss)"

definition requireTurn :: "store \<Rightarrow> string \<Rightarrow> string \<Rightarrow> serror + turn_record" where
  "requireTurn s sid tid =
     (case js_get (st_turns s) (turnKey sid tid) of
        None \<Rightarrow> Inl (Turn_not_found tid) | Some t \<Rightarrow> Inr t)"

definition requireRunningTurn :: "store \<Rightarrow> string \<Rightarrow> string \<Rightarrow> serror + turn_record" where
  "requireRunningTurn s sid tid =
     bindE (requireTurn s sid tid) (\<lambda>t.
       if state_status (tr_state t) = St_paused
       then Inl (Store_invariant (Expected_status St_running tid St_paused))
       else if state_status (tr_state t) \<noteq> St_running then Inl (Turn_not_running tid (tr_state t))
       else Inr t)"

definition requireEvents :: "store \<Rightarrow> string \<Rightarrow> string \<Rightarrow> serror + persisted_event list" where
  "requireEvents s sid tid =
     (case js_get (st_events s) (turnKey sid tid) of
        None \<Rightarrow> Inl (Turn_not_found tid) | Some es \<Rightarrow> Inr es)"

text \<open>\<open>SessionLastTurnDetailsSchema.parse\<close>: a non-empty id, and only the status of the state is kept.\<close>

definition parse_last_turn_details :: "string \<Rightarrow> turn_state \<Rightarrow> serror + session_last_turn_details" where
  "parse_last_turn_details tid st =
     (if tid = '''' then Inl Zod_error else Inr \<lparr>ltd_id = tid, ltd_status = state_status st\<rparr>)"

definition elapsed_ms :: "turn_state \<Rightarrow> int \<Rightarrow> int" where
  "elapsed_ms st created =
     (case Option.bind (completed_at st) date_parse of
        None \<Rightarrow> 0 | Some done_at \<Rightarrow> if done_at - created > 0 then done_at - created else 0)"

definition turn_cost :: "turn_state \<Rightarrow> rat option" where
  "turn_cost st = Option.bind (state_metrics st) tmx_cost_in_usd"

definition fold_turn_metrics :: "turn_state \<Rightarrow> int \<Rightarrow> session_metrics \<Rightarrow> session_metrics" where
  "fold_turn_metrics st created m =
     m\<lparr>sm_total_cost_in_usd :=
         (case turn_cost st of
            None \<Rightarrow> sm_total_cost_in_usd m
          | Some c \<Rightarrow> Some ((case sm_total_cost_in_usd m of None \<Rightarrow> 0 | Some d \<Rightarrow> d) + c)),
       sm_total_duration_ms := sm_total_duration_ms m + elapsed_ms st created\<rparr>"

definition applyTurnStateToSession ::
    "string \<Rightarrow> string \<Rightarrow> int \<Rightarrow> turn_state \<Rightarrow> store \<Rightarrow> unit outcome" where
  "applyTurnStateToSession sid tid created st s =
     (case requireSession s sid of
        Inl e \<Rightarrow> (s, Inl e)
      | Inr ss \<Rightarrow>
          let r = ss_record ss;
              r1 = (if isNonTerminalTurnState st then r
                    else r\<lparr>sr_metrics := fold_turn_metrics st created (sr_metrics r)\<rparr>)
          in if map_option ltd_id (sr_last_turn_details r1) = Some tid
             then (case parse_last_turn_details tid st of
                     Inl e \<Rightarrow> (put_session (sessionKey sid) (ss\<lparr>ss_record := r1\<rparr>) s, Inl e)
                   | Inr d \<Rightarrow>
                       (put_session (sessionKey sid)
                          (ss\<lparr>ss_record := r1\<lparr>sr_last_turn_details := Some d\<rparr>\<rparr>) s, Inr ()))
             else (put_session (sessionKey sid) (ss\<lparr>ss_record := r1\<rparr>) s, Inr ()))"

text \<open>
  The snapshot of the previous turn: none for a root turn and for an unknown previous turn, an error
  while the previous turn is live.
\<close>

definition inherited_snapshot :: "store \<Rightarrow> turn_row \<Rightarrow> serror + turn_snapshot option" where
  "inherited_snapshot s row =
     (case tr_previous_turn_id row of
        None \<Rightarrow> Inr None
      | Some p \<Rightarrow>
          (case js_get (st_turns s) (turnKey (tr_session_id row) p) of
             None \<Rightarrow> Inr None
           | Some prev \<Rightarrow>
               if isNonTerminalTurnState (tr_state prev) then Inl (Previous_turn_running p)
               else Inr (Some (tr_snapshot prev))))"

definition with_snapshot :: "turn_row \<Rightarrow> turn_snapshot \<Rightarrow> turn_record" where
  "with_snapshot row snap = turn_row.extend row \<lparr>tr_snapshot = snap\<rparr>"

text \<open>The checks of \<open>createTurn\<close>, which come before its first write: the session and the snapshot.\<close>

definition createTurn_checks ::
    "create_turn_input \<Rightarrow> store \<Rightarrow> serror + (stored_session \<times> turn_snapshot)" where
  "createTurn_checks inp s =
     (let row = cti_turn inp in
      bindE (requireSession s (tr_session_id row)) (\<lambda>ss.
      bindE (inherited_snapshot s row) (\<lambda>prev.
      bindE (guardE (js_has (st_turns s) (turnKey (tr_session_id row) (tr_turn_id row)))
               (Turn_already_exists (tr_turn_id row))) (\<lambda>_.
      bindE (buildSnapshotFromDelta prev (cti_new_threads inp) (cti_new_context_appends inp)
               (cti_capability_states inp)) (\<lambda>snap. Inr (ss, snap))))))"

definition advance_session :: "(nat \<Rightarrow> int) \<Rightarrow> create_turn_input \<Rightarrow> session_last_turn_details
    \<Rightarrow> session_record \<Rightarrow> session_record" where
  "advance_session clk inp d r =
     r\<lparr>sr_last_turn_details := Some d,
       sr_metrics := (sr_metrics r)\<lparr>sm_total_turns := sm_total_turns (sr_metrics r) + 1\<rparr>,
       sr_last_activity_timestamp_ms := clk 0, sr_updated_at := clk 1,
       sr_title := (if sr_title r = None then cti_update_session_title_if_not_exist inp
                    else sr_title r)\<rparr>"

definition createTurn :: "(nat \<Rightarrow> int) \<Rightarrow> create_turn_input \<Rightarrow> store \<Rightarrow> unit outcome" where
  "createTurn clk inp s =
     (case createTurn_checks inp s of
        Inl e \<Rightarrow> (s, Inl e)
      | Inr (ss, snap) \<Rightarrow>
          let row = cti_turn inp;
              k = turnKey (tr_session_id row) (tr_turn_id row);
              s1 = put_events k [] (put_turn k (with_snapshot row snap) s);
              ss1 = ss\<lparr>ss_turn_ids := ss_turn_ids ss @ [tr_turn_id row]\<rparr>
          in case parse_last_turn_details (tr_turn_id row) (tr_state row) of
               Inl e \<Rightarrow> (put_session (sessionKey (tr_session_id row)) ss1 s1, Inl e)
             | Inr d \<Rightarrow>
                 (put_session (sessionKey (tr_session_id row))
                    (ss1\<lparr>ss_record := advance_session clk inp d (ss_record ss)\<rparr>) s1, Inr ()))"

definition freezeAndGetTurn ::
    "(nat \<Rightarrow> int) \<Rightarrow> string \<Rightarrow> string \<Rightarrow> cancellation_reason \<Rightarrow> persisted_event \<Rightarrow> store
       \<Rightarrow> turn_record outcome" where
  "freezeAndGetTurn clk sid tid reason ev s =
     (let k = turnKey sid tid in
      case requireTurn s sid tid of
        Inl e \<Rightarrow> (s, Inl e)
      | Inr t \<Rightarrow>
          if isNonTerminalTurnState (tr_state t) then
            let st = Turn_cancelled reason (to_iso (clk 0)) None;
                t' = t\<lparr>tr_state := st, tr_updated_at := clk 1\<rparr>;
                s1 = put_turn k t' s;
                s2 = (case js_get (st_events s1) k of
                        None \<Rightarrow> s1 | Some es \<Rightarrow> put_events k (es @ [ev]) s1)
            in (case applyTurnStateToSession sid tid (tr_created_at t) st s2 of
                  (s3, Inl e) \<Rightarrow> (s3, Inl e)
                | (s3, Inr u) \<Rightarrow> (s3, Inr t'))
          else (s, Inr t))"

definition getTurn :: "string \<Rightarrow> string \<Rightarrow> store \<Rightarrow> turn_record option" where
  "getTurn sid tid s = js_get (st_turns s) (turnKey sid tid)"

definition listTurns ::
    "string \<Rightarrow> nat \<Rightarrow> page_token option \<Rightarrow> store
       \<Rightarrow> serror + (turn_row list \<times> page_token token_pagination)" where
  "listTurns sid limit token s =
     bindE (requireSession s sid) (\<lambda>ss.
     bindE (mapE (\<lambda>tid. bindE (requireTurn s sid tid) (\<lambda>t. Inr (turn_row.truncate t)))
              (ss_turn_ids ss)) (\<lambda>rows.
       paginate rows limit token))"

text \<open>The body the two state updates share, after their guards: state, event, session roll-up.\<close>

definition write_turn_state ::
    "(nat \<Rightarrow> int) \<Rightarrow> string \<Rightarrow> string \<Rightarrow> turn_record \<Rightarrow> turn_state \<Rightarrow> persisted_event \<Rightarrow> store
       \<Rightarrow> unit outcome" where
  "write_turn_state clk sid tid t st ev s =
     (let k = turnKey sid tid in
      case requireEvents s sid tid of
        Inl e \<Rightarrow> (s, Inl e)
      | Inr es \<Rightarrow>
          applyTurnStateToSession sid tid (tr_created_at t) st
            (put_events k (es @ [ev])
              (put_turn k (t\<lparr>tr_state := st, tr_updated_at := clk 0\<rparr>) s)))"

definition expected_source :: "non_terminal_turn_state \<Rightarrow> turn_status" where
  "expected_source st = (case st of Live_paused acts \<Rightarrow> St_running | Live_running \<Rightarrow> St_paused)"

definition updateTurnNonTerminalState ::
    "(nat \<Rightarrow> int) \<Rightarrow> string \<Rightarrow> string \<Rightarrow> non_terminal_turn_state \<Rightarrow> persisted_event \<Rightarrow> store
       \<Rightarrow> unit outcome" where
  "updateTurnNonTerminalState clk sid tid st ev s =
     (case requireTurn s sid tid of
        Inl e \<Rightarrow> (s, Inl e)
      | Inr t \<Rightarrow>
          if state_status (tr_state t) \<noteq> expected_source st then
            (if isNonTerminalTurnState (tr_state t)
             then (s, Inl (Store_invariant
                       (Expected_status (expected_source st) tid (state_status (tr_state t)))))
             else (s, Inl (Turn_not_running tid (tr_state t))))
          else write_turn_state clk sid tid t (of_live st) ev s)"

definition updateTurnTerminalState ::
    "(nat \<Rightarrow> int) \<Rightarrow> string \<Rightarrow> string \<Rightarrow> terminal_turn_state \<Rightarrow> persisted_event \<Rightarrow> store
       \<Rightarrow> unit outcome" where
  "updateTurnTerminalState clk sid tid st ev s =
     (case requireTurn s sid tid of
        Inl e \<Rightarrow> (s, Inl e)
      | Inr t \<Rightarrow>
          if \<not> isNonTerminalTurnState (tr_state t) then (s, Inl (Turn_not_running tid (tr_state t)))
          else write_turn_state clk sid tid t (of_terminal st) ev s)"

section \<open>Events\<close>

definition appendToEvents ::
    "string \<Rightarrow> string \<Rightarrow> persisted_event list \<Rightarrow> store \<Rightarrow> unit outcome" where
  "appendToEvents sid tid evs s =
     (case requireRunningTurn s sid tid of
        Inl e \<Rightarrow> (s, Inl e)
      | Inr t \<Rightarrow>
          (case requireEvents s sid tid of
             Inl e \<Rightarrow> (s, Inl e)
           | Inr es \<Rightarrow> (put_events (turnKey sid tid) (es @ evs) s, Inr ())))"

fun duplicate_scan :: "string list \<Rightarrow> string list \<Rightarrow> string option" where
  "duplicate_scan existing [] = None"
| "duplicate_scan existing (i # ids) =
     (if i \<in> set existing then Some i else duplicate_scan (existing @ [i]) ids)"

definition stored_inbound :: "string \<Rightarrow> inbound_event_input \<Rightarrow> stored_inbound_event" where
  "stored_inbound tid e =
     \<lparr>sie_event_id = iei_event_id e, sie_turn_id = tid, sie_payload = iei_payload e,
      sie_created_at = iei_created_at e, sie_consumed = False\<rparr>"

definition insertTurnInboundEvents ::
    "string \<Rightarrow> string \<Rightarrow> inbound_event_input list \<Rightarrow> store \<Rightarrow> unit outcome" where
  "insertTurnInboundEvents sid tid evs s =
     (if evs = [] then (s, Inr ())
      else case bindE (requireSession s sid) (\<lambda>_. requireRunningTurn s sid tid) of
        Inl e \<Rightarrow> (s, Inl e)
      | Inr t \<Rightarrow>
          let k = turnKey sid tid;
              rows = (case js_get (st_inbound s) k of None \<Rightarrow> [] | Some l \<Rightarrow> l);
              s1 = s\<lparr>st_inbound := js_set k rows (st_inbound s)\<rparr>
          in case duplicate_scan (map sie_event_id rows) (map iei_event_id evs) of
               Some i \<Rightarrow> (s1, Inl (Turn_event_already_exists sid tid i))
             | None \<Rightarrow>
                 (s1\<lparr>st_inbound := js_set k (rows @ map (stored_inbound tid) evs) (st_inbound s1)\<rparr>,
                  Inr ()))"

definition event_cmp :: "persisted_event \<Rightarrow> persisted_event \<Rightarrow> int" where
  "event_cmp a b = compare_strings (pe_id a) (pe_id b)"

definition listTurnEvents ::
    "string \<Rightarrow> string \<Rightarrow> nat \<Rightarrow> page_token option \<Rightarrow> sort_order option \<Rightarrow> store
       \<Rightarrow> serror + (persisted_event list \<times> page_token token_pagination)" where
  "listTurnEvents sid tid limit token order s =
     bindE (requireTurn s sid tid) (\<lambda>_.
     bindE (requireEvents s sid tid) (\<lambda>es.
       paginate
         (js_sort (if order = Some Order_desc then (\<lambda>a b. event_cmp b a) else event_cmp) es)
         limit token))"

section \<open>The ancestor chain and the session feed\<close>

text \<open>
  The loop of \<open>resolveAncestorChain\<close>. It ends because each round adds an id of some turn's
  \<open>ancestor_ids\<close> to \<open>seen\<close>.
\<close>

definition all_ancestor_ids :: "store \<Rightarrow> string set" where
  "all_ancestor_ids s = (\<Union>t \<in> set (js_values (st_turns s)). set (tr_ancestor_ids t))"

function ancestor_walk ::
    "store \<Rightarrow> string \<Rightarrow> string \<Rightarrow> string list \<Rightarrow> string list \<Rightarrow> string \<Rightarrow> string list" where
  "ancestor_walk s sid anchor chain seen oldest =
     (if oldest = '''' \<or> oldest = anchor then chain
      else case js_get (st_turns s) (turnKey sid oldest) of
        None \<Rightarrow> chain
      | Some t \<Rightarrow>
          let older = filter (\<lambda>i. i \<notin> set seen) (tr_ancestor_ids t) in
          if older = [] then chain
          else ancestor_walk s sid anchor (older @ chain) (fold js_add older seen) (hd older))"
  by pat_completeness auto
termination
proof (relation "measure (\<lambda>(s, sid, anchor, chain, seen, oldest). card (all_ancestor_ids s - set seen))",
    goal_cases)
  case (2 s sid anchor chain seen oldest t older)
  then have t: "t \<in> set (js_values (st_turns s))" by (blast dest: js_get_value)
  from 2 have older: "set older \<subseteq> set (tr_ancestor_ids t) - set seen" "older \<noteq> []" by auto
  have "all_ancestor_ids s - set (fold js_add older seen) \<subset> all_ancestor_ids s - set seen"
    using t older unfolding all_ancestor_ids_def by (cases older) auto
  moreover have "finite (all_ancestor_ids s)" by (auto simp: all_ancestor_ids_def)
  ultimately show ?case by (simp add: psubset_card_mono)
qed simp

declare ancestor_walk.simps [simp del]

definition resolveAncestorChain :: "store \<Rightarrow> string \<Rightarrow> turn_record \<Rightarrow> string list" where
  "resolveAncestorChain s sid anchor =
     (let chain = tr_ancestor_ids anchor @ [tr_turn_id anchor]
      in ancestor_walk s sid (tr_turn_id anchor) chain (js_set_of chain) (hd chain))"

definition turn_feed :: "store \<Rightarrow> string \<Rightarrow> string \<Rightarrow> session_event_item list" where
  "turn_feed s sid tid =
     map (\<lambda>e. \<lparr>sei_turn_id = tid, sei_event = e\<rparr>)
       (js_sort (\<lambda>a b. event_cmp b a)
         (case js_get (st_events s) (turnKey sid tid) of None \<Rightarrow> [] | Some es \<Rightarrow> es))"

definition session_feed :: "store \<Rightarrow> string \<Rightarrow> turn_record \<Rightarrow> session_event_item list" where
  "session_feed s sid anchor =
     concat (map (turn_feed s sid) (rev (resolveAncestorChain s sid anchor)))"

definition listSessionEvents ::
    "string \<Rightarrow> nat \<Rightarrow> page_token option \<Rightarrow> string option \<Rightarrow> store
       \<Rightarrow> serror + (session_event_item list \<times> page_token token_pagination)" where
  "listSessionEvents sid limit token last_turn s =
     bindE (requireSession s sid) (\<lambda>ss.
     bindE (case token of None \<Rightarrow> Inr None
            | Some t \<Rightarrow> bindE (decodeSessionEventPageToken t) (\<lambda>c. Inr (Some c))) (\<lambda>decoded.
     case (case decoded of
             Some c \<Rightarrow> Some (sec_last_turn_id c)
           | None \<Rightarrow> (case last_turn of
                       Some t \<Rightarrow> Some t
                     | None \<Rightarrow> map_option ltd_id (sr_last_turn_details (ss_record ss)))) of
       None \<Rightarrow> Inr ([], \<lparr>pg_next_page_token = None, pg_previous_page_token = None, pg_limit = limit\<rparr>)
     | Some tid \<Rightarrow>
         let c = \<lparr>sec_last_turn_id = tid,
                  sec_offset = (case decoded of None \<Rightarrow> 0 | Some d \<Rightarrow> sec_offset d)\<rparr>
         in bindE (requireTurn s sid tid) (\<lambda>anchor.
              paginateSessionEventRows
                (take (limit + 1) (drop (sec_offset c) (session_feed s sid anchor))) limit c)))"

section \<open>Patches of a running turn\<close>

definition on_running_turn ::
    "(nat \<Rightarrow> int) \<Rightarrow> string \<Rightarrow> string \<Rightarrow> (turn_snapshot \<Rightarrow> serror + turn_snapshot) \<Rightarrow> store
       \<Rightarrow> unit outcome" where
  "on_running_turn clk sid tid f s =
     (case bindE (requireRunningTurn s sid tid) (\<lambda>t. bindE (f (tr_snapshot t)) (\<lambda>sn. Inr (t, sn))) of
        Inl e \<Rightarrow> (s, Inl e)
      | Inr (t, sn) \<Rightarrow>
          (put_turn (turnKey sid tid) (t\<lparr>tr_snapshot := sn, tr_updated_at := clk 0\<rparr>) s, Inr ()))"

definition on_thread ::
    "string \<Rightarrow> (agent_thread_snapshot \<Rightarrow> agent_thread_snapshot) \<Rightarrow> turn_snapshot
       \<Rightarrow> serror + turn_snapshot" where
  "on_thread thread_id f sn =
     (case js_get (sn_threads sn) thread_id of
        None \<Rightarrow> Inl (Store_invariant (Thread_not_found thread_id))
      | Some th \<Rightarrow> Inr (sn\<lparr>sn_threads := js_set thread_id (f th) (sn_threads sn)\<rparr>))"

definition addThreads ::
    "(nat \<Rightarrow> int) \<Rightarrow> string \<Rightarrow> string \<Rightarrow> agent_thread_snapshot list \<Rightarrow> store \<Rightarrow> unit outcome" where
  "addThreads clk sid tid threads =
     on_running_turn clk sid tid
       (\<lambda>sn. Inr (sn\<lparr>sn_threads := fold (\<lambda>th. js_set (ats_thread_id th) th) threads (sn_threads sn)\<rparr>))"

definition removeThreads ::
    "(nat \<Rightarrow> int) \<Rightarrow> string \<Rightarrow> string \<Rightarrow> string list \<Rightarrow> store \<Rightarrow> unit outcome" where
  "removeThreads clk sid tid ids s =
     (if ids = [] then (s, Inr ())
      else on_running_turn clk sid tid
             (\<lambda>sn. Inr (sn\<lparr>sn_threads := fold js_delete ids (sn_threads sn)\<rparr>)) s)"

definition appendToThreadContext ::
    "(nat \<Rightarrow> int) \<Rightarrow> string \<Rightarrow> string \<Rightarrow> turn_context_append \<Rightarrow> store \<Rightarrow> unit outcome" where
  "appendToThreadContext clk sid tid a =
     on_running_turn clk sid tid
       (on_thread (tca_thread_id a)
         (append_to_thread (tca_context a) (tca_current_context_usage a) (tca_completion a)))"

definition overwriteThreadContext ::
    "(nat \<Rightarrow> int) \<Rightarrow> string \<Rightarrow> string \<Rightarrow> thread_overwrite_context_event \<Rightarrow> store \<Rightarrow> unit outcome" where
  "overwriteThreadContext clk sid tid ev =
     on_running_turn clk sid tid
       (on_thread (toc_thread_id ev)
         (\<lambda>th. th\<lparr>ats_context := toc_context ev,
                  ats_current_context_usage := toc_current_context_usage ev\<rparr>))"

definition patchMCPServers ::
    "(nat \<Rightarrow> int) \<Rightarrow> string \<Rightarrow> string \<Rightarrow> mcp_server_init_info list \<Rightarrow> store \<Rightarrow> unit outcome" where
  "patchMCPServers clk sid tid servers =
     on_running_turn clk sid tid
       (\<lambda>sn. Inr (sn\<lparr>sn_mcp_servers :=
          Some (fold (\<lambda>m. js_set (msi_id m) m) servers
                 (case sn_mcp_servers sn of None \<Rightarrow> [] | Some ms \<Rightarrow> ms))\<rparr>))"

definition patchSandboxInfo ::
    "(nat \<Rightarrow> int) \<Rightarrow> string \<Rightarrow> string \<Rightarrow> sandbox_info \<Rightarrow> store \<Rightarrow> unit outcome" where
  "patchSandboxInfo clk sid tid info =
     on_running_turn clk sid tid (\<lambda>sn. Inr (sn\<lparr>sn_sandbox_info := Some info\<rparr>))"

definition patch_capability ::
    "string \<Rightarrow> json \<Rightarrow> capability_state option \<Rightarrow> capability_state option" where
  "patch_capability key v cs =
     (let m = (case cs of None \<Rightarrow> [] | Some m \<Rightarrow> m)
      in if v = JNull then (let m' = js_delete key m in if m' = [] then None else Some m')
         else Some (js_set key v m))"

definition patchThreadCapabilityState ::
    "(nat \<Rightarrow> int) \<Rightarrow> string \<Rightarrow> string \<Rightarrow> string \<Rightarrow> string \<Rightarrow> json \<Rightarrow> store \<Rightarrow> unit outcome" where
  "patchThreadCapabilityState clk sid tid thread_id key v =
     on_running_turn clk sid tid
       (on_thread thread_id
         (\<lambda>th. th\<lparr>ats_capability_state := patch_capability key v (ats_capability_state th)\<rparr>))"

end
