(* ===== verification/Session_Invariant.thy ===== *)
theory Session_Invariant
  imports Session_Store
begin

text \<open>
  The invariant of the session store and its preservation by every operation.

  A store is well formed when each session row and each turn row are found under their own ids, the
  event logs and inboxes belong to stored turns, the turn list of a session, its counter and its
  \<open>last_turn_details\<close> agree with the turn rows, an external id names one session of a tenant, and the
  threads of a snapshot are found under their own ids. \<open>store_step\<close> is one call of a writing
  operation, successful or not, with the ids the callers mint: session ids without a colon and
  non-empty turn ids (two sessions whose ids contain a colon can share the key of a turn).
\<close>

section \<open>Turn keys\<close>

declare sessionKey_def [simp]

definition colon_free :: "string \<Rightarrow> bool" where
  "colon_free sid = (CHR '':'' \<notin> set sid)"

lemma turnKey_collision: "turnKey ''a:b'' ''c'' = turnKey ''a'' ''b:c''"
  by code_simp

lemma turnKey_inj:
  assumes "colon_free a" and "colon_free b"
  shows "turnKey a x = turnKey b y \<longleftrightarrow> a = b \<and> x = y"
proof
  assume eq: "turnKey a x = turnKey b y"
  have take: "takeWhile (\<lambda>c. c \<noteq> CHR '':'') (turnKey i z) = i" if "colon_free i" for i z
    using that unfolding turnKey_def colon_free_def by (induction i) auto
  from eq have "takeWhile (\<lambda>c. c \<noteq> CHR '':'') (turnKey a x) =
      takeWhile (\<lambda>c. c \<noteq> CHR '':'') (turnKey b y)" by (rule arg_cong)
  then have "a = b" by (simp only: take[OF assms(1)] take[OF assms(2)])
  with eq show "a = b \<and> x = y" by (simp add: turnKey_def)
qed simp

section \<open>Well-formed stores\<close>

abbreviation session_at :: "store \<Rightarrow> string \<Rightarrow> stored_session option" where
  "session_at s sid \<equiv> js_get (st_sessions s) sid"

abbreviation turn_at :: "store \<Rightarrow> string \<Rightarrow> turn_record option" where
  "turn_at s k \<equiv> js_get (st_turns s) k"

abbreviation events_at :: "store \<Rightarrow> string \<Rightarrow> persisted_event list option" where
  "events_at s k \<equiv> js_get (st_events s) k"

abbreviation inbound_at :: "store \<Rightarrow> string \<Rightarrow> stored_inbound_event list option" where
  "inbound_at s k \<equiv> js_get (st_inbound s) k"

text \<open>\<open>last_turn_details\<close> names the last turn and its status.\<close>

definition last_details_ok :: "store \<Rightarrow> string \<Rightarrow> stored_session \<Rightarrow> bool" where
  "last_details_ok s sid ss =
     (case sr_last_turn_details (ss_record ss) of
        None \<Rightarrow> ss_turn_ids ss = []
      | Some d \<Rightarrow> ss_turn_ids ss \<noteq> [] \<and> ltd_id d = last (ss_turn_ids ss) \<and>
          map_option (state_status \<circ> tr_state) (turn_at s (turnKey sid (ltd_id d))) = Some (ltd_status d))"

definition session_ok :: "store \<Rightarrow> string \<Rightarrow> stored_session \<Rightarrow> bool" where
  "session_ok s sid ss \<longleftrightarrow>
     sr_session_id (ss_record ss) = sid \<and> colon_free sid \<and>
     distinct (ss_turn_ids ss) \<and> '''' \<notin> set (ss_turn_ids ss) \<and>
     sm_total_turns (sr_metrics (ss_record ss)) = length (ss_turn_ids ss) \<and>
     0 \<le> sm_total_duration_ms (sr_metrics (ss_record ss)) \<and>
     (\<forall>tid \<in> set (ss_turn_ids ss). turn_at s (turnKey sid tid) \<noteq> None) \<and>
     last_details_ok s sid ss"

definition snapshot_ok :: "thread_map \<Rightarrow> bool" where
  "snapshot_ok threads = (\<forall>i th. js_get threads i = Some th \<longrightarrow> ats_thread_id th = i)"

definition threads_ok :: "turn_record \<Rightarrow> bool" where
  "threads_ok t = snapshot_ok (sn_threads (tr_snapshot t))"

definition turn_ok :: "store \<Rightarrow> string \<Rightarrow> turn_record \<Rightarrow> bool" where
  "turn_ok s k t \<longleftrightarrow>
     k = turnKey (tr_session_id t) (tr_turn_id t) \<and>
     (\<exists>ss. session_at s (tr_session_id t) = Some ss \<and> tr_turn_id t \<in> set (ss_turn_ids ss)) \<and>
     threads_ok t"

definition external_ids_ok :: "store \<Rightarrow> bool" where
  "external_ids_ok s =
     (\<forall>a b sa sb. session_at s a = Some sa \<and> session_at s b = Some sb \<and>
        sr_tenant_id (ss_record sa) = sr_tenant_id (ss_record sb) \<and>
        sr_external_id (ss_record sa) = sr_external_id (ss_record sb) \<and>
        sr_external_id (ss_record sa) \<noteq> None \<longrightarrow> a = b)"

definition logs_ok :: "store \<Rightarrow> bool" where
  "logs_ok s \<longleftrightarrow>
     (\<forall>k. js_has (st_events s) k = js_has (st_turns s) k) \<and>
     (\<forall>k rows. inbound_at s k = Some rows \<longrightarrow>
        js_has (st_turns s) k \<and> distinct (map sie_event_id rows))"

definition keys_ok :: "store \<Rightarrow> bool" where
  "keys_ok s \<longleftrightarrow>
     distinct (js_keys (st_sessions s)) \<and> distinct (js_keys (st_turns s)) \<and>
     distinct (js_keys (st_events s)) \<and> distinct (js_keys (st_inbound s))"

definition store_ok :: "store \<Rightarrow> bool" where
  "store_ok s \<longleftrightarrow>
     (\<forall>sid ss. session_at s sid = Some ss \<longrightarrow> session_ok s sid ss) \<and>
     (\<forall>k t. turn_at s k = Some t \<longrightarrow> turn_ok s k t) \<and>
     external_ids_ok s \<and> logs_ok s \<and> keys_ok s"

lemma store_okD:
  assumes "store_ok s"
  shows "session_at s sid = Some ss \<Longrightarrow> session_ok s sid ss"
    and "turn_at s k = Some t \<Longrightarrow> turn_ok s k t"
    and "external_ids_ok s" and "logs_ok s" and "keys_ok s"
  using assms by (auto simp: store_ok_def)

lemma events_of_turn:
  assumes "store_ok s" and "turn_at s k = Some t"
  shows "\<exists>es. events_at s k = Some es"
  using store_okD(4)[OF assms(1)] assms(2) unfolding logs_ok_def js_has_def by (metis not_None_eq)

lemma store_ok_empty: "store_ok empty_store"
  by (simp add: store_ok_def empty_store_def external_ids_ok_def logs_ok_def keys_ok_def js_keys_def)

lemma last_details_cong:
  "st_turns s' = st_turns s \<Longrightarrow> last_details_ok s' i x = last_details_ok s i x"
  by (simp add: last_details_ok_def split: option.splits)

text \<open>The turn found by a pair of ids is the one it names, and its session is stored.\<close>

lemma turn_at_names:
  assumes ok: "store_ok s" and "colon_free sid" and t: "turn_at s (turnKey sid tid) = Some t"
  obtains ss where "tr_session_id t = sid" "tr_turn_id t = tid" "session_at s sid = Some ss"
    "tid \<in> set (ss_turn_ids ss)" "session_ok s sid ss"
proof -
  from store_okD(2)[OF ok t] obtain ss where ss: "turnKey sid tid = turnKey (tr_session_id t) (tr_turn_id t)"
    "session_at s (tr_session_id t) = Some ss" "tr_turn_id t \<in> set (ss_turn_ids ss)"
    by (auto simp: turn_ok_def)
  from store_okD(1)[OF ok ss(2)] have sok: "session_ok s (tr_session_id t) ss" .
  then have "colon_free (tr_session_id t)" by (simp add: session_ok_def)
  with assms(2) ss(1) have "tr_session_id t = sid" "tr_turn_id t = tid" by (auto simp: turnKey_inj)
  with ss sok that show thesis by auto
qed

lemma requireTurn_Inr: "requireTurn s sid tid = Inr t \<longleftrightarrow> turn_at s (turnKey sid tid) = Some t"
  by (simp add: requireTurn_def split: option.splits)

lemma requireSession_Inr: "requireSession s sid = Inr ss \<longleftrightarrow> session_at s sid = Some ss"
  by (simp add: requireSession_def sessionKey_def split: option.splits)

lemma requireRunningTurn_Inr:
  "requireRunningTurn s sid tid = Inr t \<longleftrightarrow>
     turn_at s (turnKey sid tid) = Some t \<and> tr_state t = Turn_running"
proof -
  have "state_status st = St_running \<longleftrightarrow> st = Turn_running" for st by (cases st) simp_all
  then show ?thesis
    by (cases "js_get (st_turns s) (turnKey sid tid)")
      (auto simp: requireRunningTurn_def requireTurn_def)
qed

lemma requireEvents_Inr: "requireEvents s sid tid = Inr es \<longleftrightarrow> events_at s (turnKey sid tid) = Some es"
  by (simp add: requireEvents_def split: option.splits)

text \<open>A terminal state: a status that is not live.\<close>

lemma isNonTerminal_status:
  "isNonTerminalTurnState st \<longleftrightarrow> state_status st = St_running \<or> state_status st = St_paused"
  by simp

section \<open>Replacing one session row\<close>

lemma external_ids_okD:
  assumes "external_ids_ok s" and "session_at s a = Some sa" and "session_at s b = Some sb"
    and "sr_tenant_id (ss_record sa) = sr_tenant_id (ss_record sb)"
    and "sr_external_id (ss_record sa) = sr_external_id (ss_record sb)"
    and "sr_external_id (ss_record sa) \<noteq> None"
  shows "a = b"
  using assms(1)[unfolded external_ids_ok_def, rule_format, of a sa b sb] assms(2-6) by simp

lemma external_ids_put:
  assumes ok: "external_ids_ok s" and old: "session_at s sid = Some ss"
    and same: "sr_tenant_id (ss_record ss') = sr_tenant_id (ss_record ss)"
      "sr_external_id (ss_record ss') = sr_external_id (ss_record ss)"
    and upd: "st_sessions s' = js_set sid ss' (st_sessions s)"
  shows "external_ids_ok s'"
proof -
  have prior: "\<exists>y. session_at s i = Some y \<and> sr_tenant_id (ss_record y) = sr_tenant_id (ss_record x) \<and>
      sr_external_id (ss_record y) = sr_external_id (ss_record x)" if "session_at s' i = Some x" for i x
    using that old same upd by (auto split: if_splits)
  show ?thesis
    unfolding external_ids_ok_def
  proof (intro allI impI)
    fix a b sa sb
    assume h: "session_at s' a = Some sa \<and> session_at s' b = Some sb \<and>
      sr_tenant_id (ss_record sa) = sr_tenant_id (ss_record sb) \<and>
      sr_external_id (ss_record sa) = sr_external_id (ss_record sb) \<and> sr_external_id (ss_record sa) \<noteq> None"
    obtain ya where a: "session_at s a = Some ya" "sr_tenant_id (ss_record ya) = sr_tenant_id (ss_record sa)"
      "sr_external_id (ss_record ya) = sr_external_id (ss_record sa)" using prior h by blast
    obtain yb where b: "session_at s b = Some yb"
      "sr_tenant_id (ss_record yb) = sr_tenant_id (ss_record sb)"
      "sr_external_id (ss_record yb) = sr_external_id (ss_record sb)" using prior h by blast
    show "a = b"
      by (rule external_ids_okD[OF ok a(1) b(1)]) (use h a(2,3) b(2,3) in metis)+
  qed
qed

lemma store_ok_put_session:
  assumes ok: "store_ok s" and old: "session_at s sid = Some ss"
    and same: "ss_turn_ids ss' = ss_turn_ids ss" "sr_session_id (ss_record ss') = sid"
      "sr_tenant_id (ss_record ss') = sr_tenant_id (ss_record ss)"
      "sr_external_id (ss_record ss') = sr_external_id (ss_record ss)"
      "sm_total_turns (sr_metrics (ss_record ss')) = sm_total_turns (sr_metrics (ss_record ss))"
    and dur: "0 \<le> sm_total_duration_ms (sr_metrics (ss_record ss'))"
    and last_ok: "last_details_ok s sid ss'"
  shows "store_ok (put_session sid ss' s)"
proof -
  let ?s = "put_session sid ss' s"
  have st: "st_turns ?s = st_turns s" "st_events ?s = st_events s" "st_inbound ?s = st_inbound s"
    by simp_all
  have at: "session_at ?s i = (if i = sid then Some ss' else session_at s i)" for i
    by (simp add: sessionKey_def)
  have details: "last_details_ok ?s i x = last_details_ok s i x" for i x
    by (rule last_details_cong) simp
  have "session_ok s sid ss" using ok old by (rule store_okD(1))
  then have "session_ok ?s sid ss'"
    using same dur last_ok by (simp add: session_ok_def details)
  moreover have "session_ok ?s i x" if "i \<noteq> sid" "session_at s i = Some x" for i x
    using store_okD(1)[OF ok that(2)] by (simp add: session_ok_def details)
  ultimately have "\<forall>i x. session_at ?s i = Some x \<longrightarrow> session_ok ?s i x" by (simp add: at)
  moreover have "turn_ok ?s k t" if "turn_at ?s k = Some t" for k t
    using store_okD(2)[OF ok, of k t] that old same(1) by (auto simp: turn_ok_def at)
  moreover have "external_ids_ok ?s"
    by (rule external_ids_put[OF store_okD(3)[OF ok] old same(3,4)]) simp
  moreover have "logs_ok ?s" using store_okD(4)[OF ok] by (simp add: logs_ok_def)
  moreover have "keys_ok ?s" using store_okD(5)[OF ok] by (simp add: keys_ok_def js_distinct_set)
  ultimately show ?thesis by (simp add: store_ok_def)
qed

section \<open>Replacing one turn row that keeps its state\<close>

lemma store_ok_put_turn:
  assumes ok: "store_ok s" and old: "turn_at s k = Some t"
    and same: "tr_session_id t' = tr_session_id t" "tr_turn_id t' = tr_turn_id t"
      "tr_state t' = tr_state t"
    and thr: "threads_ok t'"
  shows "store_ok (put_turn k t' s)"
proof -
  let ?s = "put_turn k t' s"
  have at: "turn_at ?s j = (if j = k then Some t' else turn_at s j)" for j by simp
  have details: "last_details_ok ?s i x = last_details_ok s i x" for i x
    using old same(3) by (auto simp: last_details_ok_def split: option.splits)
  have "session_ok ?s i x" if "session_at s i = Some x" for i x
    using store_okD(1)[OF ok that] old by (auto simp: session_ok_def details)
  moreover have "turn_ok ?s j u" if "turn_at ?s j = Some u" for j u
    using store_okD(2)[OF ok, of j] that old same thr by (auto simp: turn_ok_def split: if_splits)
  moreover have "external_ids_ok ?s" using store_okD(3)[OF ok] by (simp add: external_ids_ok_def)
  moreover have "logs_ok ?s"
    using store_okD(4)[OF ok] old by (auto simp: logs_ok_def js_has_def)
  moreover have "keys_ok ?s" using store_okD(5)[OF ok] by (simp add: keys_ok_def js_distinct_set)
  ultimately show ?thesis by (simp add: store_ok_def)
qed

lemma store_ok_put_events:
  assumes ok: "store_ok s" and "js_has (st_turns s) k"
  shows "store_ok (put_events k es s)"
proof -
  let ?s = "put_events k es s"
  have details: "last_details_ok ?s i x = last_details_ok s i x" for i x
    by (rule last_details_cong) simp
  have "session_ok ?s i x" if "session_at s i = Some x" for i x
    using store_okD(1)[OF ok that] by (simp add: session_ok_def details)
  moreover have "turn_ok ?s j u" if "turn_at s j = Some u" for j u
    using store_okD(2)[OF ok that] by (simp add: turn_ok_def)
  moreover have "external_ids_ok ?s" using store_okD(3)[OF ok] by (simp add: external_ids_ok_def)
  moreover have "logs_ok ?s" using store_okD(4)[OF ok] assms(2) by (auto simp: logs_ok_def)
  moreover have "keys_ok ?s" using store_okD(5)[OF ok] by (simp add: keys_ok_def js_distinct_set)
  ultimately show ?thesis by (simp add: store_ok_def)
qed

lemma store_ok_put_inbound:
  assumes ok: "store_ok s" and "js_has (st_turns s) k" and "distinct (map sie_event_id rows)"
  shows "store_ok (s\<lparr>st_inbound := js_set k rows (st_inbound s)\<rparr>)"
proof -
  let ?s = "s\<lparr>st_inbound := js_set k rows (st_inbound s)\<rparr>"
  have details: "last_details_ok ?s i x = last_details_ok s i x" for i x
    by (rule last_details_cong) simp
  have "session_ok ?s i x" if "session_at s i = Some x" for i x
    using store_okD(1)[OF ok that] by (simp add: session_ok_def details)
  moreover have "turn_ok ?s j u" if "turn_at s j = Some u" for j u
    using store_okD(2)[OF ok that] by (simp add: turn_ok_def)
  moreover have "external_ids_ok ?s" using store_okD(3)[OF ok] by (simp add: external_ids_ok_def)
  moreover have "logs_ok ?s" using store_okD(4)[OF ok] assms(2,3) by (auto simp: logs_ok_def)
  moreover have "keys_ok ?s" using store_okD(5)[OF ok] by (simp add: keys_ok_def js_distinct_set)
  ultimately show ?thesis by (simp add: store_ok_def)
qed

section \<open>Replacing a turn row together with its session row\<close>

lemma store_ok_put_turn_session:
  assumes ok: "store_ok s" and "colon_free sid" and old: "turn_at s (turnKey sid tid) = Some t"
    and ids: "tr_session_id t' = tr_session_id t" "tr_turn_id t' = tr_turn_id t" and thr: "threads_ok t'"
    and ses: "session_at s sid = Some ss"
    and same: "ss_turn_ids ss' = ss_turn_ids ss" "sr_session_id (ss_record ss') = sid"
      "sr_tenant_id (ss_record ss') = sr_tenant_id (ss_record ss)"
      "sr_external_id (ss_record ss') = sr_external_id (ss_record ss)"
      "sm_total_turns (sr_metrics (ss_record ss')) = sm_total_turns (sr_metrics (ss_record ss))"
    and dur: "0 \<le> sm_total_duration_ms (sr_metrics (ss_record ss'))"
    and last_ok: "last_details_ok (put_turn (turnKey sid tid) t' s) sid ss'"
  shows "store_ok (put_session sid ss' (put_turn (turnKey sid tid) t' s))"
proof -
  let ?k = "turnKey sid tid"
  let ?s = "put_session sid ss' (put_turn ?k t' s)"
  have details: "last_details_ok ?s sid ss'"
    using last_ok last_details_cong[of ?s "put_turn ?k t' s"] by simp
  have other: "last_details_ok ?s i x" if "i \<noteq> sid" "session_at s i = Some x" for i x
  proof -
    have sok: "session_ok s i x" using store_okD(1)[OF ok that(2)] .
    then have "turnKey i j \<noteq> ?k" for j
      using that(1) assms(2) by (auto simp: session_ok_def turnKey_inj)
    then show ?thesis using sok by (auto simp: session_ok_def last_details_ok_def split: option.splits)
  qed
  have "session_ok s sid ss" using ok ses by (rule store_okD(1))
  then have "session_ok ?s sid ss'" using same dur details by (auto simp: session_ok_def)
  moreover have "session_ok ?s i x" if "i \<noteq> sid" "session_at s i = Some x" for i x
    using store_okD(1)[OF ok that(2)] other[OF that] by (auto simp: session_ok_def)
  ultimately have "session_ok ?s i x" if "session_at ?s i = Some x" for i x
    using that by (cases "i = sid") auto
  moreover have "turn_ok ?s j u" if "turn_at ?s j = Some u" for j u
  proof (cases "j = ?k")
    case True
    with that have "u = t'" by simp
    with store_okD(2)[OF ok old] ids thr True ses same(1) show ?thesis by (auto simp: turn_ok_def)
  next
    case False
    with that have "turn_at s j = Some u" by simp
    from store_okD(2)[OF ok this] ses same(1) show ?thesis by (auto simp: turn_ok_def)
  qed
  moreover have "external_ids_ok ?s"
    by (rule external_ids_put[OF store_okD(3)[OF ok] ses same(3,4)]) simp
  moreover have "logs_ok ?s" using store_okD(4)[OF ok] old by (auto simp: logs_ok_def js_has_def)
  moreover have "keys_ok ?s" using store_okD(5)[OF ok] by (simp add: keys_ok_def js_distinct_set)
  ultimately show ?thesis by (simp add: store_ok_def)
qed

section \<open>The roll-up of a turn state\<close>

definition rolled_up :: "string \<Rightarrow> int \<Rightarrow> turn_state \<Rightarrow> session_record \<Rightarrow> session_record" where
  "rolled_up tid created st r =
     (let r1 = (if isNonTerminalTurnState st then r
                else r\<lparr>sr_metrics := fold_turn_metrics st created (sr_metrics r)\<rparr>)
      in if map_option ltd_id (sr_last_turn_details r) = Some tid
         then r1\<lparr>sr_last_turn_details := Some \<lparr>ltd_id = tid, ltd_status = state_status st\<rparr>\<rparr>
         else r1)"

lemma applyTurnState_eq:
  assumes "session_at s sid = Some ss" and "tid \<noteq> ''''"
  shows "applyTurnStateToSession sid tid created st s =
    (put_session sid (ss\<lparr>ss_record := rolled_up tid created st (ss_record ss)\<rparr>) s, Inr ())"
  using assms
  by (cases "sr_last_turn_details (ss_record ss)")
    (auto simp: applyTurnStateToSession_def requireSession_def rolled_up_def parse_last_turn_details_def
      Let_def)

lemma elapsed_nonneg: "0 \<le> elapsed_ms st created"
  by (simp add: elapsed_ms_def split: option.splits)

lemma rolled_up_same [simp]:
  "sr_session_id (rolled_up tid created st r) = sr_session_id r"
  "sr_tenant_id (rolled_up tid created st r) = sr_tenant_id r"
  "sr_external_id (rolled_up tid created st r) = sr_external_id r"
  "sm_total_turns (sr_metrics (rolled_up tid created st r)) = sm_total_turns (sr_metrics r)"
  by (simp_all add: rolled_up_def Let_def fold_turn_metrics_def)

lemma rolled_up_duration:
  "0 \<le> sm_total_duration_ms (sr_metrics r) \<Longrightarrow>
     0 \<le> sm_total_duration_ms (sr_metrics (rolled_up tid created st r))"
  using elapsed_nonneg[of st created] by (simp add: rolled_up_def Let_def fold_turn_metrics_def)

lemma rolled_up_details:
  "sr_last_turn_details (rolled_up tid created st r) =
     (if map_option ltd_id (sr_last_turn_details r) = Some tid
      then Some \<lparr>ltd_id = tid, ltd_status = state_status st\<rparr> else sr_last_turn_details r)"
  by (cases "sr_last_turn_details r") (auto simp: rolled_up_def Let_def)

text \<open>A state written to a turn and rolled up into its session keeps the store well formed.\<close>

lemma store_ok_state_write:
  assumes ok: "store_ok s" and cf: "colon_free sid" and t: "turn_at s (turnKey sid tid) = Some t"
  defines "k \<equiv> turnKey sid tid"
  obtains ss where "session_at s sid = Some ss" "tid \<noteq> ''''"
    "store_ok (put_session sid (ss\<lparr>ss_record := rolled_up tid c st (ss_record ss)\<rparr>)
       (put_events k es (put_turn k (t\<lparr>tr_state := st, tr_updated_at := u\<rparr>) s)))"
proof -
  let ?t = "t\<lparr>tr_state := st, tr_updated_at := u\<rparr>"
  from turn_at_names[OF ok cf t] obtain ss where ss: "tr_session_id t = sid" "tr_turn_id t = tid"
    "session_at s sid = Some ss" "tid \<in> set (ss_turn_ids ss)" "session_ok s sid ss" .
  let ?ss = "ss\<lparr>ss_record := rolled_up tid c st (ss_record ss)\<rparr>"
  have "tid \<noteq> ''''" using ss(4,5) by (auto simp: session_ok_def)
  have "threads_ok ?t" using store_okD(2)[OF ok t] by (simp add: turn_ok_def threads_ok_def)
  have others: "turnKey sid j = k \<longleftrightarrow> j = tid" for j by (simp add: k_def turnKey_def)
  have "last_details_ok (put_turn k ?t s) sid ?ss"
    using ss(5) by (auto simp: session_ok_def last_details_ok_def rolled_up_details others
        split: option.splits if_splits)
  then have "store_ok (put_session sid ?ss (put_turn k ?t s))"
    unfolding k_def using ss \<open>threads_ok ?t\<close>
    by (intro store_ok_put_turn_session[OF ok cf t]) (auto simp: session_ok_def rolled_up_duration)
  then have "store_ok (put_events k es (put_session sid ?ss (put_turn k ?t s)))"
    by (rule store_ok_put_events) simp
  also have "put_events k es (put_session sid ?ss (put_turn k ?t s)) =
      put_session sid ?ss (put_events k es (put_turn k ?t s))" by (cases s) simp
  finally show thesis by (rule that[OF ss(3) \<open>tid \<noteq> ''''\<close>])
qed

section \<open>Snapshots\<close>

lemma snapshot_ok_set [inv_intro]:
  "snapshot_ok threads \<Longrightarrow> ats_thread_id th = i \<Longrightarrow> snapshot_ok (js_set i th threads)"
  by (simp add: snapshot_ok_def)

lemma snapshot_okD: "snapshot_ok threads \<Longrightarrow> js_get threads i = Some th \<Longrightarrow> ats_thread_id th = i"
  by (simp add: snapshot_ok_def)

lemma snapshot_ok_fold_add [inv_intro]:
  "snapshot_ok threads \<Longrightarrow> snapshot_ok (fold (\<lambda>th. js_set (ats_thread_id th) th) ths threads)"
  by (induction ths arbitrary: threads) (auto intro: snapshot_ok_set)

lemma snapshot_ok_fold_new:
  "snapshot_ok threads \<Longrightarrow>
     snapshot_ok (fold (\<lambda>nt. js_set (nt_thread_id nt) (newThreadSnapshot nt)) nts threads)"
proof (induction nts arbitrary: threads)
  case (Cons nt nts)
  have "ats_thread_id (newThreadSnapshot nt) = nt_thread_id nt" by (simp add: newThreadSnapshot_def)
  then show ?case using Cons by (simp add: snapshot_ok_set)
qed simp

lemma snapshot_ok_fold_delete [inv_intro]:
  "snapshot_ok threads \<Longrightarrow> snapshot_ok (fold js_delete ids threads)"
  by (simp add: snapshot_ok_def jsm.fold_remove)

lemma append_to_thread_id [simp]: "ats_thread_id (append_to_thread msgs u c th) = ats_thread_id th"
  by (simp add: append_to_thread_def)

lemma snapshot_ok_appends:
  assumes "applyContextAppends threads appends = Inr threads'" and "snapshot_ok threads"
  shows "snapshot_ok threads'"
  using assms(1)[unfolded applyContextAppends_def] assms(2)
proof (rule foldE_invariant)
  fix a u v
  assume "snapshot_ok u" "apply_append a u = Inr v"
  then show "snapshot_ok v"
    by (auto simp: apply_append_def snapshot_okD intro!: snapshot_ok_set split: option.splits)
qed

lemma snapshot_ok_capabilities:
  assumes "foldE apply_capability caps threads = Inr threads'" and "snapshot_ok threads"
  shows "snapshot_ok threads'"
  using assms
proof (rule foldE_invariant)
  fix c u v
  assume "snapshot_ok u" "apply_capability c u = Inr v"
  then show "snapshot_ok v"
    by (auto simp: apply_capability_def snapshot_okD intro!: snapshot_ok_set split: option.splits)
qed

lemma buildSnapshot_ok:
  assumes "buildSnapshotFromDelta prev nts appends caps = Inr sn"
    and "\<And>p. prev = Some p \<Longrightarrow> snapshot_ok (sn_threads p)"
  shows "snapshot_ok (sn_threads sn)"
proof -
  let ?t0 = "case prev of None \<Rightarrow> [] | Some p \<Rightarrow> sn_threads p"
  let ?t1 = "fold (\<lambda>nt. js_set (nt_thread_id nt) (newThreadSnapshot nt)) nts ?t0"
  have "snapshot_ok ?t0" using assms(2) by (auto simp: snapshot_ok_def split: option.splits)
  then have "snapshot_ok ?t1" by (rule snapshot_ok_fold_new)
  moreover obtain t2 t3 where "applyContextAppends ?t1 appends = Inr t2"
    "foldE apply_capability caps t2 = Inr t3" "sn_threads sn = t3"
    using assms(1) unfolding buildSnapshotFromDelta_def Let_def by (auto simp: bindE_Inr_iff)
  ultimately show ?thesis using snapshot_ok_appends snapshot_ok_capabilities by blast
qed

section \<open>Every operation keeps the store well formed\<close>

lemma on_running_turn_ok:
  assumes ok: "store_ok s"
    and f: "\<And>sn sn'. snapshot_ok (sn_threads sn) \<Longrightarrow> f sn = Inr sn' \<Longrightarrow> snapshot_ok (sn_threads sn')"
  shows "store_ok (fst (on_running_turn clk sid tid f s))"
proof (cases "bindE (requireRunningTurn s sid tid) (\<lambda>t. bindE (f (tr_snapshot t)) (\<lambda>sn. Inr (t, sn)))")
  case (Inr p)
  then obtain t sn where p: "p = (t, sn)" "turn_at s (turnKey sid tid) = Some t" "f (tr_snapshot t) = Inr sn"
    by (auto simp: bindE_Inr_iff requireRunningTurn_Inr)
  have "snapshot_ok (sn_threads (tr_snapshot t))"
    using store_okD(2)[OF ok p(2)] by (simp add: turn_ok_def threads_ok_def)
  with f p(3) have "snapshot_ok (sn_threads sn)" by blast
  then have "store_ok (put_turn (turnKey sid tid) (t\<lparr>tr_snapshot := sn, tr_updated_at := clk 0\<rparr>) s)"
    by (intro store_ok_put_turn[OF ok p(2)]) (simp_all add: threads_ok_def)
  then show ?thesis using Inr p by (simp add: on_running_turn_def)
qed (simp add: on_running_turn_def ok)

lemma on_thread_ok:
  assumes "\<And>th. ats_thread_id (f th) = ats_thread_id th"
    and "snapshot_ok (sn_threads sn)" and "on_thread i f sn = Inr sn'"
  shows "snapshot_ok (sn_threads sn')"
  using assms by (auto simp: on_thread_def snapshot_okD intro!: snapshot_ok_set split: option.splits)

lemma patches_ok [inv_intro]:
  assumes "store_ok s"
  shows "store_ok (fst (addThreads clk sid tid ths s))"
    and "store_ok (fst (removeThreads clk sid tid ids s))"
    and "store_ok (fst (appendToThreadContext clk sid tid a s))"
    and "store_ok (fst (overwriteThreadContext clk sid tid ev s))"
    and "store_ok (fst (patchMCPServers clk sid tid servers s))"
    and "store_ok (fst (patchSandboxInfo clk sid tid info s))"
    and "store_ok (fst (patchThreadCapabilityState clk sid tid i key v s))"
  unfolding addThreads_def removeThreads_def appendToThreadContext_def overwriteThreadContext_def
    patchMCPServers_def patchSandboxInfo_def patchThreadCapabilityState_def
  by (auto simp: assms intro!: on_running_turn_ok[OF assms] inv_intro elim!: on_thread_ok[rotated 2])

lemma appendToEvents_ok [inv_intro]:
  assumes "store_ok s" shows "store_ok (fst (appendToEvents sid tid evs s))"
  using assms
  by (auto simp: appendToEvents_def requireRunningTurn_Inr js_has_def split: sum.splits
      intro!: store_ok_put_events)

lemma duplicate_scan_none:
  "duplicate_scan existing ids = None \<longleftrightarrow> distinct ids \<and> set ids \<inter> set existing = {}"
  by (induction existing ids rule: duplicate_scan.induct) auto

lemma insertTurnInboundEvents_ok [inv_intro]:
  assumes ok: "store_ok s" shows "store_ok (fst (insertTurnInboundEvents sid tid evs s))"
proof (cases "evs = []")
  case False
  show ?thesis
  proof (cases "bindE (requireSession s sid) (\<lambda>_. requireRunningTurn s sid tid)")
    case (Inr t)
    let ?k = "turnKey sid tid"
    let ?rows = "case inbound_at s ?k of None \<Rightarrow> [] | Some l \<Rightarrow> l"
    have has: "js_has (st_turns s) ?k"
      using Inr by (auto simp: bindE_Inr_iff requireRunningTurn_Inr js_has_def)
    have dist: "distinct (map sie_event_id ?rows)"
      using store_okD(4)[OF ok] by (auto simp: logs_ok_def split: option.splits)
    let ?s1 = "s\<lparr>st_inbound := js_set ?k ?rows (st_inbound s)\<rparr>"
    have ok1: "store_ok ?s1" by (rule store_ok_put_inbound[OF ok has dist])
    show ?thesis
    proof (cases "duplicate_scan (map sie_event_id ?rows) (map iei_event_id evs)")
      case None
      have ids: "map sie_event_id (map (stored_inbound tid) evs) = map iei_event_id evs"
        by (simp add: stored_inbound_def)
      have "distinct (map sie_event_id (?rows @ map (stored_inbound tid) evs))"
        using None dist unfolding map_append ids by (auto simp: duplicate_scan_none)
      then have "store_ok (?s1\<lparr>st_inbound := js_set ?k (?rows @ map (stored_inbound tid) evs) (st_inbound ?s1)\<rparr>)"
        using has by (intro store_ok_put_inbound[OF ok1]) simp_all
      then show ?thesis using False Inr None by (simp add: insertTurnInboundEvents_def Let_def)
    next
      case (Some i)
      then show ?thesis using False Inr ok1 by (simp add: insertTurnInboundEvents_def Let_def)
    qed
  qed (use False ok in \<open>simp add: insertTurnInboundEvents_def\<close>)
qed (simp add: insertTurnInboundEvents_def ok)

lemma write_turn_state_ok:
  assumes ok: "store_ok s" and cf: "colon_free sid" and t: "turn_at s (turnKey sid tid) = Some t"
  shows "store_ok (fst (write_turn_state clk sid tid t st ev s))"
proof -
  let ?k = "turnKey sid tid"
  from events_of_turn[OF ok t] obtain es where es: "events_at s ?k = Some es" ..
  obtain ss where "session_at s sid = Some ss" "tid \<noteq> ''''"
    "store_ok (put_session sid (ss\<lparr>ss_record := rolled_up tid (tr_created_at t) st (ss_record ss)\<rparr>)
       (put_events ?k (es @ [ev]) (put_turn ?k (t\<lparr>tr_state := st, tr_updated_at := clk 0\<rparr>) s)))"
    by (rule store_ok_state_write[OF ok cf t])
  then show ?thesis
    using es by (simp add: write_turn_state_def requireEvents_def applyTurnState_eq Let_def)
qed

lemma state_updates_ok [inv_intro]:
  assumes ok: "store_ok s" and cf: "colon_free sid"
  shows "store_ok (fst (updateTurnNonTerminalState clk sid tid nst ev s))"
    and "store_ok (fst (updateTurnTerminalState clk sid tid tst ev s))"
  by (auto simp: updateTurnNonTerminalState_def updateTurnTerminalState_def ok requireTurn_Inr
      split: sum.splits intro!: write_turn_state_ok[OF ok cf])

lemma freezeAndGetTurn_ok [inv_intro]:
  assumes ok: "store_ok s" and cf: "colon_free sid"
  shows "store_ok (fst (freezeAndGetTurn clk sid tid reason ev s))"
proof (cases "turn_at s (turnKey sid tid)")
  case (Some t)
  let ?k = "turnKey sid tid"
  let ?st = "Turn_cancelled reason (to_iso (clk 0)) None"
  from events_of_turn[OF ok Some] obtain es where es: "events_at s ?k = Some es" ..
  obtain ss where "session_at s sid = Some ss" "tid \<noteq> ''''"
    "store_ok (put_session sid (ss\<lparr>ss_record := rolled_up tid (tr_created_at t) ?st (ss_record ss)\<rparr>)
       (put_events ?k (es @ [ev]) (put_turn ?k (t\<lparr>tr_state := ?st, tr_updated_at := clk 1\<rparr>) s)))"
    by (rule store_ok_state_write[OF ok cf Some])
  then show ?thesis
    using es Some ok by (simp add: freezeAndGetTurn_def requireTurn_def applyTurnState_eq Let_def)
qed (simp add: freezeAndGetTurn_def requireTurn_def ok)

lemma updateSession_ok [inv_intro]:
  assumes ok: "store_ok s" shows "store_ok (fst (updateSession clk inp s))"
proof (cases "session_at s (usi_session_id inp)")
  case (Some ss)
  let ?ss = "ss\<lparr>ss_record := patch_session clk inp (ss_record ss)\<rparr>"
  have "session_ok s (usi_session_id inp) ss" using ok Some by (rule store_okD(1))
  then have "store_ok (put_session (usi_session_id inp) ?ss s)"
    by (intro store_ok_put_session[OF ok Some])
      (auto simp: session_ok_def patch_session_def last_details_ok_def split: option.splits)
  then show ?thesis using Some ok by (simp add: updateSession_def)
qed (simp add: updateSession_def ok)

lemma createSession_ok [inv_intro]:
  assumes ok: "store_ok s" and cf: "colon_free (csi_session_id inp)"
  shows "store_ok (fst (createSession clk inp s))"
proof (cases "snd (createSession clk inp s)")
  case (Inl e)
  then show ?thesis using ok by (auto simp: createSession_def Let_def split: if_splits)
next
  case (Inr u)
  let ?i = "csi_session_id inp"
  have fresh: "session_at s ?i = None"
    and ext: "csi_external_id inp \<noteq> None \<Longrightarrow> \<not> list_ex (\<lambda>ss. sr_tenant_id (ss_record ss) = csi_tenant_id inp \<and>
               sr_external_id (ss_record ss) = csi_external_id inp) (js_values (st_sessions s))"
    using Inr by (auto simp: createSession_def Let_def js_has_def split: if_splits)
  obtain ss where ss: "fst (createSession clk inp s) = put_session ?i ss s" "ss_turn_ids ss = []"
    "sr_session_id (ss_record ss) = ?i" "sr_tenant_id (ss_record ss) = csi_tenant_id inp"
    "sr_external_id (ss_record ss) = csi_external_id inp" "sr_last_turn_details (ss_record ss) = None"
    "sm_total_turns (sr_metrics (ss_record ss)) = 0" "sm_total_duration_ms (sr_metrics (ss_record ss)) = 0"
    using Inr by (auto simp: createSession_def Let_def split: if_splits)
  let ?s = "put_session ?i ss s"
  have clash: "\<not> (sr_tenant_id (ss_record x) = csi_tenant_id inp \<and>
      sr_external_id (ss_record x) = csi_external_id inp \<and> csi_external_id inp \<noteq> None)"
    if "session_at s i = Some x" for i x
    using ext js_get_value[OF that] by (cases "csi_external_id inp") (auto simp: list_ex_iff)
  have "session_ok ?s ?i ss" using ss cf by (simp add: session_ok_def last_details_ok_def)
  moreover have "session_ok ?s i x" if "session_at s i = Some x" for i x
    using store_okD(1)[OF ok that] last_details_cong[of ?s s i x] by (auto simp: session_ok_def)
  ultimately have "session_ok ?s i x" if "session_at ?s i = Some x" for i x
    using that by (cases "i = ?i") auto
  moreover have "turn_ok ?s k t" if "turn_at ?s k = Some t" for k t
    using store_okD(2)[OF ok, of k t] that fresh by (auto simp: turn_ok_def)
  moreover have "external_ids_ok ?s"
    unfolding external_ids_ok_def
  proof (intro allI impI, elim conjE)
    fix a b sa sb
    assume h: "session_at ?s a = Some sa" "session_at ?s b = Some sb"
      "sr_tenant_id (ss_record sa) = sr_tenant_id (ss_record sb)"
      "sr_external_id (ss_record sa) = sr_external_id (ss_record sb)" "sr_external_id (ss_record sa) \<noteq> None"
    have old: "session_at s i = Some x" if "i \<noteq> ?i" "session_at ?s i = Some x" for i x
      using that by simp
    have new: "x = ss" if "session_at ?s ?i = Some x" for x using that by simp
    consider "a = ?i" "b = ?i" | "a = ?i" "b \<noteq> ?i" | "a \<noteq> ?i" "b = ?i" | "a \<noteq> ?i" "b \<noteq> ?i" by blast
    then show "a = b"
    proof cases
      case 2
      then show ?thesis using clash[OF old[OF 2(2) h(2)]] new h ss(4,5) by simp
    next
      case 3
      then show ?thesis using clash[OF old[OF 3(1) h(1)]] new h ss(4,5) by simp
    next
      case 4
      then show ?thesis by (rule external_ids_okD[OF store_okD(3)[OF ok] old[OF _ h(1)] old[OF _ h(2)] h(3-5)])
    qed simp
  qed
  moreover have "logs_ok ?s" using store_okD(4)[OF ok] by (simp add: logs_ok_def)
  moreover have "keys_ok ?s" using store_okD(5)[OF ok] by (simp add: keys_ok_def js_distinct_set)
  ultimately show ?thesis using ss(1) by (simp add: store_ok_def)
qed

lemma delete_turn_rows_fields:
  "st_sessions (fold (delete_turn_rows sid) ids s) = st_sessions s"
  "st_turns (fold (delete_turn_rows sid) ids s) = fold js_delete (map (turnKey sid) ids) (st_turns s)"
  "st_events (fold (delete_turn_rows sid) ids s) = fold js_delete (map (turnKey sid) ids) (st_events s)"
  "st_inbound (fold (delete_turn_rows sid) ids s) = fold js_delete (map (turnKey sid) ids) (st_inbound s)"
  by (induction ids arbitrary: s) (simp_all add: delete_turn_rows_def)

lemma distinct_fold_delete: "distinct (js_keys m) \<Longrightarrow> distinct (js_keys (fold js_delete ks m))"
  by (induction ks arbitrary: m) (simp_all add: js_distinct_delete)

lemma deleteSession_ok [inv_intro]:
  assumes ok: "store_ok s" shows "store_ok (fst (deleteSession tenant sid s))"
proof (cases "session_at s sid")
  case (Some ss)
  show ?thesis
  proof (cases "sr_tenant_id (ss_record ss) = tenant")
    case True
    let ?K = "turnKey sid ` set (ss_turn_ids ss)"
    let ?s = "fst (deleteSession tenant sid s)"
    have ses: "session_at ?s i = (if i = sid then None else session_at s i)"
      and trn: "turn_at ?s k = (if k \<in> ?K then None else turn_at s k)"
      and evs: "events_at ?s k = (if k \<in> ?K then None else events_at s k)"
      and inb: "inbound_at ?s k = (if k \<in> ?K then None else inbound_at s k)" for i k
      using Some True by (simp_all add: deleteSession_def Let_def delete_turn_rows_fields jsm.fold_remove)
    have sok: "session_ok s sid ss" by (rule store_okD(1)[OF ok Some])
    have "session_ok ?s i x" if "session_at ?s i = Some x" for i x
    proof -
      from that have ix: "i \<noteq> sid" "session_at s i = Some x" by (simp_all add: ses split: if_splits)
      from store_okD(1)[OF ok ix(2)] have iok: "session_ok s i x" .
      with sok ix(1) have "turnKey i j \<notin> ?K" for j by (auto simp: session_ok_def turnKey_inj)
      then have "turn_at ?s (turnKey i j) = turn_at s (turnKey i j)" for j by (simp add: trn)
      then show ?thesis using iok by (auto simp: session_ok_def last_details_ok_def split: option.splits)
    qed
    moreover have "turn_ok ?s k t" if "turn_at ?s k = Some t" for k t
    proof -
      from that have k: "k \<notin> ?K" "turn_at s k = Some t" by (simp_all add: trn split: if_splits)
      from store_okD(2)[OF ok k(2)] have "turn_ok s k t" .
      moreover from this k(1) Some have "tr_session_id t \<noteq> sid" by (auto simp: turn_ok_def)
      ultimately show ?thesis by (auto simp: turn_ok_def ses)
    qed
    moreover have "external_ids_ok ?s"
      using store_okD(3)[OF ok] unfolding external_ids_ok_def ses by (auto split: if_splits)
    moreover have "logs_ok ?s"
      using store_okD(4)[OF ok] by (auto simp: logs_ok_def js_has_def evs trn inb)
    moreover have "keys_ok ?s"
      using store_okD(5)[OF ok] Some True
      by (simp add: keys_ok_def deleteSession_def Let_def delete_turn_rows_fields distinct_fold_delete
          js_distinct_delete)
    ultimately show ?thesis by (simp add: store_ok_def)
  qed (use Some ok in \<open>simp add: deleteSession_def\<close>)
qed (simp add: deleteSession_def ok)

text \<open>\<open>createTurn\<close> writes nothing unless all its checks pass; then the turn is new.\<close>

lemma createTurn_checks_Inr:
  assumes "createTurn_checks inp s = Inr (ss, snap)"
  shows "session_at s (tr_session_id (cti_turn inp)) = Some ss"
    and "turn_at s (turnKey (tr_session_id (cti_turn inp)) (tr_turn_id (cti_turn inp))) = None"
    and "\<exists>prev. inherited_snapshot s (cti_turn inp) = Inr prev \<and>
           buildSnapshotFromDelta prev (cti_new_threads inp) (cti_new_context_appends inp)
             (cti_capability_states inp) = Inr snap"
  using assms
  by (auto simp: createTurn_checks_def Let_def bindE_Inr_iff requireSession_Inr js_has_def)

lemma inherited_snapshot_Some:
  assumes "inherited_snapshot s row = Inr (Some p)"
  obtains k t where "turn_at s k = Some t" "tr_snapshot t = p"
  using assms by (auto simp: inherited_snapshot_def split: option.splits if_splits)

lemma with_snapshot_fields [simp]:
  "tr_session_id (with_snapshot row sn) = tr_session_id row"
  "tr_turn_id (with_snapshot row sn) = tr_turn_id row"
  "tr_state (with_snapshot row sn) = tr_state row"
  "tr_snapshot (with_snapshot row sn) = sn"
  "tr_ancestor_ids (with_snapshot row sn) = tr_ancestor_ids row"
  "tr_created_at (with_snapshot row sn) = tr_created_at row"
  by (simp_all add: with_snapshot_def turn_row.extend_def)

lemma createTurn_ok [inv_intro]:
  assumes ok: "store_ok s" and ne: "tr_turn_id (cti_turn inp) \<noteq> ''''"
  shows "store_ok (fst (createTurn clk inp s))"
proof (cases "createTurn_checks inp s")
  case (Inl e)
  then show ?thesis using ok by (simp add: createTurn_def)
next
  case (Inr p)
  obtain ss snap where p: "p = (ss, snap)" by (cases p)
  let ?row = "cti_turn inp"
  let ?sid = "tr_session_id ?row" and ?tid = "tr_turn_id ?row"
  let ?k = "turnKey ?sid ?tid" and ?t = "with_snapshot ?row snap"
  note chk = createTurn_checks_Inr[OF Inr[unfolded p]]
  let ?d = "\<lparr>ltd_id = ?tid, ltd_status = state_status (tr_state ?row)\<rparr>"
  let ?ss = "ss\<lparr>ss_turn_ids := ss_turn_ids ss @ [?tid], ss_record := advance_session clk inp ?d (ss_record ss)\<rparr>"
  let ?s = "put_session ?sid ?ss (put_events ?k [] (put_turn ?k ?t s))"
  have eq: "fst (createTurn clk inp s) = ?s"
    using Inr p ne by (simp add: createTurn_def parse_last_turn_details_def Let_def)
  have sok: "session_ok s ?sid ss" by (rule store_okD(1)[OF ok chk(1)])
  obtain prev where prev: "inherited_snapshot s ?row = Inr prev"
    "buildSnapshotFromDelta prev (cti_new_threads inp) (cti_new_context_appends inp)
       (cti_capability_states inp) = Inr snap" using chk(3) by blast
  have "snapshot_ok (sn_threads snap)"
  proof (rule buildSnapshot_ok[OF prev(2)])
    fix q assume "prev = Some q"
    with prev(1) obtain k t where "turn_at s k = Some t" "tr_snapshot t = q"
      by (auto elim: inherited_snapshot_Some)
    then show "snapshot_ok (sn_threads q)"
      using store_okD(2)[OF ok] by (auto simp: turn_ok_def threads_ok_def)
  qed
  then have thr: "threads_ok ?t" by (simp add: threads_ok_def)
  have key: "turnKey ?sid j = ?k \<longleftrightarrow> j = ?tid" for j by (simp add: turnKey_def)
  have fresh: "?tid \<notin> set (ss_turn_ids ss)" using sok chk(2) by (auto simp: session_ok_def)
  have "session_ok ?s ?sid ?ss"
    using sok ne fresh by (auto simp: session_ok_def last_details_ok_def advance_session_def key)
  moreover have "session_ok ?s i x" if "i \<noteq> ?sid" "session_at s i = Some x" for i x
  proof -
    have "session_ok s i x" using store_okD(1)[OF ok that(2)] .
    then show ?thesis using chk(2) by (auto simp: session_ok_def last_details_ok_def split: option.splits)
  qed
  ultimately have "session_ok ?s i x" if "session_at ?s i = Some x" for i x
    using that by (cases "i = ?sid") auto
  moreover have "turn_ok ?s j u" if "turn_at ?s j = Some u" for j u
  proof (cases "j = ?k")
    case True
    then show ?thesis using that thr by (auto simp: turn_ok_def)
  next
    case False
    then show ?thesis using that store_okD(2)[OF ok, of j u] chk(1) by (auto simp: turn_ok_def)
  qed
  moreover have "external_ids_ok ?s"
    by (rule external_ids_put[OF store_okD(3)[OF ok] chk(1)]) (simp_all add: advance_session_def)
  moreover have "logs_ok ?s" using store_okD(4)[OF ok] by (auto simp: logs_ok_def)
  moreover have "keys_ok ?s" using store_okD(5)[OF ok] by (simp add: keys_ok_def js_distinct_set)
  ultimately show ?thesis unfolding eq by (simp add: store_ok_def)
qed

end
