(* ===== verification/Session_Steps.thy ===== *)
theory Session_Steps
  imports Session_Invariant
begin

text \<open>
  One call of a writing operation as a step of the store, the invariant of every reachable store, and
  what a step may do to a turn: a terminal turn and its event log never change, and an event log only
  grows. The hypotheses on the arguments are what the callers pass: the ids they mint, and a turn that
  starts running (\<open>agent-session/SessionHandle.ts\<close>).
\<close>

inductive store_step :: "store \<Rightarrow> store \<Rightarrow> bool" where
  step_createSession:
    "colon_free (csi_session_id csi) \<Longrightarrow> store_step s (fst (createSession clk csi s))"
| step_updateSession: "store_step s (fst (updateSession clk usi s))"
| step_deleteSession: "store_step s (fst (deleteSession tenant sid s))"
| step_createTurn:
    "tr_turn_id (cti_turn cti) \<noteq> '''' \<Longrightarrow> tr_state (cti_turn cti) = Turn_running \<Longrightarrow>
       store_step s (fst (createTurn clk cti s))"
| step_freeze: "colon_free sid \<Longrightarrow> store_step s (fst (freezeAndGetTurn clk sid tid reason ev s))"
| step_nonterminal:
    "colon_free sid \<Longrightarrow> store_step s (fst (updateTurnNonTerminalState clk sid tid nst ev s))"
| step_terminal: "colon_free sid \<Longrightarrow> store_step s (fst (updateTurnTerminalState clk sid tid tst ev s))"
| step_events: "store_step s (fst (appendToEvents sid tid evs s))"
| step_inbound: "store_step s (fst (insertTurnInboundEvents sid tid ins s))"
| step_addThreads: "store_step s (fst (addThreads clk sid tid ths s))"
| step_removeThreads: "store_step s (fst (removeThreads clk sid tid ids s))"
| step_appendContext: "store_step s (fst (appendToThreadContext clk sid tid a s))"
| step_overwriteContext: "store_step s (fst (overwriteThreadContext clk sid tid ov s))"
| step_mcp: "store_step s (fst (patchMCPServers clk sid tid servers s))"
| step_sandbox: "store_step s (fst (patchSandboxInfo clk sid tid info s))"
| step_capability: "store_step s (fst (patchThreadCapabilityState clk sid tid i key v s))"

abbreviation store_steps :: "store \<Rightarrow> store \<Rightarrow> bool" where
  "store_steps \<equiv> store_step\<^sup>*\<^sup>*"

lemma store_step_ok: "store_step s s' \<Longrightarrow> store_ok s \<Longrightarrow> store_ok s'"
  by (induction rule: store_step.induct) (auto intro: inv_intro)

lemma store_steps_ok: "store_steps s s' \<Longrightarrow> store_ok s \<Longrightarrow> store_ok s'"
  by (induction rule: rtranclp_induct) (auto intro: store_step_ok)

section \<open>What a step does to a turn and its log\<close>

definition turn_extends :: "store \<Rightarrow> store \<Rightarrow> bool" where
  "turn_extends s s' =
     (\<forall>k t es. turn_at s k = Some t \<longrightarrow> events_at s k = Some es \<longrightarrow>
        turn_at s' k = None \<or>
        (\<exists>t' xs. turn_at s' k = Some t' \<and> events_at s' k = Some (es @ xs) \<and>
           (\<not> isNonTerminalTurnState (tr_state t) \<longrightarrow> t' = t \<and> xs = [])))"

named_theorems extends_intro "steps that extend turns"

lemma turn_extends_refl [extends_intro]: "turn_extends s s"
  by (auto simp: turn_extends_def)

lemma turn_extends_same:
  "st_turns s' = st_turns s \<Longrightarrow> st_events s' = st_events s \<Longrightarrow> turn_extends s s'"
  by (auto simp: turn_extends_def)

lemma turn_extends_live:
  assumes "turn_at s k = Some t" and "isNonTerminalTurnState (tr_state t)"
    and "st_turns s' = js_set k t' (st_turns s)"
    and "st_events s' = st_events s \<or> (\<exists>es xs. events_at s k = Some es \<and> st_events s' = js_set k (es @ xs) (st_events s))"
  shows "turn_extends s s'"
  using assms unfolding turn_extends_def by (auto split: if_splits)

lemma extends_on_running_turn [extends_intro]:
  "turn_extends s (fst (on_running_turn clk sid tid f s))"
proof (cases "bindE (requireRunningTurn s sid tid) (\<lambda>t. bindE (f (tr_snapshot t)) (\<lambda>sn. Inr (t, sn)))")
  case (Inr p)
  then obtain t sn where "p = (t, sn)" "turn_at s (turnKey sid tid) = Some t" "tr_state t = Turn_running"
    by (auto simp: bindE_Inr_iff requireRunningTurn_Inr)
  then show ?thesis using Inr by (auto simp: on_running_turn_def intro!: turn_extends_live)
qed (simp add: on_running_turn_def turn_extends_refl)

lemma extends_patches [extends_intro]:
  "turn_extends s (fst (addThreads clk sid tid ths s))"
  "turn_extends s (fst (removeThreads clk sid tid ids s))"
  "turn_extends s (fst (appendToThreadContext clk sid tid a s))"
  "turn_extends s (fst (overwriteThreadContext clk sid tid ov s))"
  "turn_extends s (fst (patchMCPServers clk sid tid servers s))"
  "turn_extends s (fst (patchSandboxInfo clk sid tid info s))"
  "turn_extends s (fst (patchThreadCapabilityState clk sid tid i key v s))"
  unfolding addThreads_def removeThreads_def appendToThreadContext_def overwriteThreadContext_def
    patchMCPServers_def patchSandboxInfo_def patchThreadCapabilityState_def
  by (auto intro: extends_intro)

lemma applyTurnState_fields [simp]:
  "st_turns (fst (applyTurnStateToSession sid tid c st s)) = st_turns s"
  "st_events (fst (applyTurnStateToSession sid tid c st s)) = st_events s"
  by (auto simp: applyTurnStateToSession_def Let_def split: sum.splits)

lemma extends_write_turn_state:
  assumes "turn_at s (turnKey sid tid) = Some t" and "isNonTerminalTurnState (tr_state t)"
  shows "turn_extends s (fst (write_turn_state clk sid tid t st ev s))"
  using assms
  by (auto simp: write_turn_state_def Let_def turn_extends_refl requireEvents_Inr split: sum.splits
      intro!: turn_extends_live)

lemma expected_source_live: "state_status st = expected_source nst \<Longrightarrow> isNonTerminalTurnState st"
  by (cases nst) (simp_all add: expected_source_def)

lemma extends_updates [extends_intro]:
  "turn_extends s (fst (updateTurnNonTerminalState clk sid tid nst ev s))"
  "turn_extends s (fst (updateTurnTerminalState clk sid tid tst ev s))"
  unfolding updateTurnNonTerminalState_def updateTurnTerminalState_def
  by (auto simp: turn_extends_refl requireTurn_Inr split: sum.splits
      intro!: extends_write_turn_state intro: expected_source_live simp del: isNonTerminalTurnState.simps)

lemma freeze_fst:
  "fst (freezeAndGetTurn clk sid tid reason ev s) =
     (case turn_at s (turnKey sid tid) of
        None \<Rightarrow> s
      | Some t \<Rightarrow>
          if isNonTerminalTurnState (tr_state t) then
            (let k = turnKey sid tid; st = Turn_cancelled reason (to_iso (clk 0)) None;
                 s1 = put_turn k (t\<lparr>tr_state := st, tr_updated_at := clk 1\<rparr>) s
             in fst (applyTurnStateToSession sid tid (tr_created_at t) st
                  (case events_at s k of None \<Rightarrow> s1 | Some es \<Rightarrow> put_events k (es @ [ev]) s1)))
          else s)"
  by (simp add: freezeAndGetTurn_def requireTurn_def Let_def split: option.splits prod.splits sum.splits)

lemma extends_freeze [extends_intro]: "turn_extends s (fst (freezeAndGetTurn clk sid tid reason ev s))"
  unfolding freeze_fst Let_def
  by (auto simp: turn_extends_refl split: option.splits intro!: turn_extends_live
      simp del: isNonTerminalTurnState.simps)

lemma extends_createTurn [extends_intro]: "turn_extends s (fst (createTurn clk inp s))"
proof (cases "createTurn_checks inp s")
  case (Inr p)
  obtain ss snap where p: "p = (ss, snap)" by (cases p)
  show ?thesis
    using Inr p createTurn_checks_Inr(2)[OF Inr[unfolded p]]
    by (auto simp: createTurn_def turn_extends_def Let_def split: sum.splits)
qed (simp add: createTurn_def turn_extends_refl)

lemma extends_rest [extends_intro]:
  "turn_extends s (fst (createSession clk csi s))"
  "turn_extends s (fst (updateSession clk usi s))"
  "turn_extends s (fst (insertTurnInboundEvents sid tid ins s))"
  by (auto simp: createSession_def updateSession_def insertTurnInboundEvents_def Let_def
      split: option.splits sum.splits intro!: turn_extends_same)

lemma extends_events [extends_intro]: "turn_extends s (fst (appendToEvents sid tid evs s))"
  by (auto simp: appendToEvents_def turn_extends_refl turn_extends_def requireEvents_Inr
      requireRunningTurn_Inr split: sum.splits)

lemma extends_delete [extends_intro]: "turn_extends s (fst (deleteSession tenant sid s))"
  by (auto simp: deleteSession_def Let_def turn_extends_refl turn_extends_def delete_turn_rows_fields
      jsm.fold_remove split: option.splits)

lemma store_step_extends: "store_step s s' \<Longrightarrow> turn_extends s s'"
  by (induction rule: store_step.induct) (rule extends_intro)+

end
