(* ===== verification/Session_Turns.thy ===== *)
theory Session_Turns
  imports Session_Steps
begin

text \<open>
  Starting and ending a turn: when the thread delta of a new turn is accepted, what the snapshot of the
  new turn holds, when \<open>createTurn\<close> succeeds and that it writes nothing when it does not, and the first
  terminal write of a turn. The invariant of reachable stores and the frozen terminal turns are stated
  here as properties.
\<close>

section \<open>The thread delta\<close>

text \<open>
  The contract of \<open>assertCreateTurnThreadDelta\<close>: new threads are new and listed once, appends name
  known threads, and there is exactly one capability entry per known thread.
\<close>

definition delta_ok :: "string list \<Rightarrow> string list \<Rightarrow> string list \<Rightarrow> string list \<Rightarrow> bool" where
  "delta_ok previous news appends caps \<longleftrightarrow>
     distinct news \<and> set news \<inter> set previous = {} \<and>
     set appends \<subseteq> set previous \<union> set news \<and>
     distinct caps \<and> set caps = set previous \<union> set news"

lemma new_thread_scan_Inr:
  "new_thread_scan prv ids acc = Inr r \<longleftrightarrow>
     r = acc @ ids \<and> distinct ids \<and> set ids \<inter> (set prv \<union> set acc) = {}"
  by (induction prv ids acc rule: new_thread_scan.induct) auto

lemma append_scan_Inr: "append_scan known ids = Inr u \<longleftrightarrow> set ids \<subseteq> set known"
  by (induction known ids rule: append_scan.induct) auto

lemma capability_scan_Inr:
  "capability_scan known ids seen = Inr r \<longleftrightarrow>
     r = seen @ ids \<and> set ids \<subseteq> set known \<and> distinct ids \<and> set ids \<inter> set seen = {}"
  by (induction known ids seen rule: capability_scan.induct) auto

lemma missing_scan_Inr: "missing_scan seen known = Inr u \<longleftrightarrow> set known \<subseteq> set seen"
  by (induction seen known rule: missing_scan.induct) auto

text \<open>The delta check accepts exactly the deltas of its contract, and returns the known threads.\<close>

theorem thread_delta_accepted_iff:
  "(\<exists>known. assertCreateTurnThreadDelta previous nts appends caps = Inr known \<and>
       set known = set previous \<union> set (map nt_thread_id nts)) =
     delta_ok previous (map nt_thread_id nts) (map tca_thread_id appends) (map tcs_thread_id caps)"
  unfolding assertCreateTurnThreadDelta_def delta_ok_def Let_def
  by (auto simp: bindE_Inr_iff new_thread_scan_Inr append_scan_Inr capability_scan_Inr missing_scan_Inr)

lemma delta_accepted:
  "(\<exists>known. assertCreateTurnThreadDelta previous nts appends caps = Inr known) =
     delta_ok previous (map nt_thread_id nts) (map tca_thread_id appends) (map tcs_thread_id caps)"
  unfolding assertCreateTurnThreadDelta_def delta_ok_def Let_def
  by (auto simp: bindE_Inr_iff new_thread_scan_Inr append_scan_Inr capability_scan_Inr missing_scan_Inr)

section \<open>The snapshot of a new turn\<close>

definition appended_context :: "turn_context_append list \<Rightarrow> string \<Rightarrow> context_message list" where
  "appended_context appends i = concat (map tca_context (filter (\<lambda>a. tca_thread_id a = i) appends))"

lemma has_fold_new:
  "js_has (fold (\<lambda>nt. js_set (nt_thread_id nt) (newThreadSnapshot nt)) nts m) i \<longleftrightarrow>
     js_has m i \<or> i \<in> set (map nt_thread_id nts)"
  by (induction nts arbitrary: m) auto

lemma applyContextAppends_total:
  assumes "\<And>a. a \<in> set appends \<Longrightarrow> js_has threads (tca_thread_id a)"
  obtains threads' where "applyContextAppends threads appends = Inr threads'"
    "\<And>i. js_has threads' i = js_has threads i"
    "\<And>i th. js_get threads i = Some th \<Longrightarrow> \<exists>th'. js_get threads' i = Some th' \<and>
       ats_context th' = ats_context th @ appended_context appends i \<and>
       ats_capability_state th' = ats_capability_state th"
  using assms
proof (induction appends arbitrary: threads thesis)
  case Nil
  then show ?case by (simp add: applyContextAppends_def appended_context_def)
next
  case (Cons a appends)
  obtain th where th: "js_get threads (tca_thread_id a) = Some th"
    using Cons.prems(2)[of a] by (auto simp: js_has_def)
  let ?th = "append_to_thread (tca_context a) (tca_current_context_usage a) (tca_completion a) th"
  let ?m = "js_set (tca_thread_id a) ?th threads"
  have step: "apply_append a threads = Inr ?m" using th by (simp add: apply_append_def)
  have has: "js_has ?m (tca_thread_id b)" if "b \<in> set appends" for b using Cons.prems(2) that by simp
  obtain m' where m': "applyContextAppends ?m appends = Inr m'" "\<And>i. js_has m' i = js_has ?m i"
    "\<And>i u. js_get ?m i = Some u \<Longrightarrow> \<exists>u'. js_get m' i = Some u' \<and>
       ats_context u' = ats_context u @ appended_context appends i \<and>
       ats_capability_state u' = ats_capability_state u"
    by (rule Cons.IH[OF _ has]) blast+
  show ?case
  proof (rule Cons.prems(1)[of m'])
    show "applyContextAppends threads (a # appends) = Inr m'"
      using step m'(1) by (simp add: applyContextAppends_def)
    show "js_has m' i = js_has threads i" for i using m'(2) th by (auto simp: js_has_def)
    show "\<exists>u'. js_get m' i = Some u' \<and> ats_context u' = ats_context u @ appended_context (a # appends) i \<and>
        ats_capability_state u' = ats_capability_state u" if "js_get threads i = Some u" for i u
    proof (cases "i = tca_thread_id a")
      case True
      then show ?thesis using m'(3)[of i ?th] that th
        by (auto simp: appended_context_def append_to_thread_def)
    next
      case False
      then show ?thesis using m'(3)[of i u] that by (auto simp: appended_context_def)
    qed
  qed
qed

lemma apply_capabilities_total:
  assumes "\<And>c. c \<in> set caps \<Longrightarrow> js_has threads (tcs_thread_id c)" and "distinct (map tcs_thread_id caps)"
  obtains threads' where "foldE apply_capability caps threads = Inr threads'"
    "\<And>i. js_has threads' i = js_has threads i"
    "\<And>i th. js_get threads i = Some th \<Longrightarrow> \<exists>th'. js_get threads' i = Some th' \<and>
       ats_context th' = ats_context th \<and>
       ats_capability_state th' =
         (case find (\<lambda>c. tcs_thread_id c = i) caps of None \<Rightarrow> ats_capability_state th
          | Some c \<Rightarrow> tcs_capability_state c)"
  using assms
proof (induction caps arbitrary: threads thesis)
  case (Cons c caps)
  obtain th where th: "js_get threads (tcs_thread_id c) = Some th"
    using Cons.prems(2)[of c] by (auto simp: js_has_def)
  let ?th = "th\<lparr>ats_capability_state := tcs_capability_state c\<rparr>"
  let ?m = "js_set (tcs_thread_id c) ?th threads"
  have step: "apply_capability c threads = Inr ?m" using th by (simp add: apply_capability_def)
  have has: "js_has ?m (tcs_thread_id b)" if "b \<in> set caps" for b using Cons.prems(2) that by simp
  have dist: "distinct (map tcs_thread_id caps)" "tcs_thread_id c \<notin> set (map tcs_thread_id caps)"
    using Cons.prems(3) by simp_all
  obtain m' where m': "foldE apply_capability caps ?m = Inr m'" "\<And>i. js_has m' i = js_has ?m i"
    "\<And>i u. js_get ?m i = Some u \<Longrightarrow> \<exists>u'. js_get m' i = Some u' \<and> ats_context u' = ats_context u \<and>
       ats_capability_state u' = (case find (\<lambda>c. tcs_thread_id c = i) caps of
         None \<Rightarrow> ats_capability_state u | Some c \<Rightarrow> tcs_capability_state c)"
    by (rule Cons.IH[OF _ has dist(1)]) blast+
  have none: "find (\<lambda>b. tcs_thread_id b = tcs_thread_id c) caps = None"
    using dist(2) by (auto simp: find_None_iff image_iff)
  show ?case
  proof (rule Cons.prems(1)[of m'])
    show "foldE apply_capability (c # caps) threads = Inr m'" using step m'(1) by simp
    show "js_has m' i = js_has threads i" for i using m'(2) th by (auto simp: js_has_def)
    show "\<exists>u'. js_get m' i = Some u' \<and> ats_context u' = ats_context u \<and>
        ats_capability_state u' = (case find (\<lambda>c. tcs_thread_id c = i) (c # caps) of
          None \<Rightarrow> ats_capability_state u | Some c \<Rightarrow> tcs_capability_state c)"
      if "js_get threads i = Some u" for i u
      using m'(3)[of i "if i = tcs_thread_id c then ?th else u"] that th none by auto
  qed
qed simp

lemma find_distinct_key:
  assumes "distinct (map f xs)" and "x \<in> set xs"
  shows "find (\<lambda>y. f y = f x) xs = Some x"
  using assms by (induction xs) auto

definition previous_threads :: "turn_snapshot option \<Rightarrow> thread_map" where
  "previous_threads prev = (case prev of None \<Rightarrow> [] | Some p \<Rightarrow> sn_threads p)"

text \<open>The context a thread had on the previous turn, empty for a new thread.\<close>

definition previous_context :: "turn_snapshot option \<Rightarrow> string \<Rightarrow> context_message list" where
  "previous_context prev i =
     (case js_get (previous_threads prev) i of None \<Rightarrow> [] | Some th \<Rightarrow> ats_context th)"

lemma get_fold_new:
  assumes "i \<notin> set (map nt_thread_id nts)"
  shows "js_get (fold (\<lambda>nt. js_set (nt_thread_id nt) (newThreadSnapshot nt)) nts m) i = js_get m i"
  using assms by (induction nts arbitrary: m) auto

lemma get_fold_new_in:
  assumes "i \<in> set (map nt_thread_id nts)"
  shows "\<exists>th. js_get (fold (\<lambda>nt. js_set (nt_thread_id nt) (newThreadSnapshot nt)) nts m) i = Some th \<and>
    ats_context th = []"
  using assms
proof (induction nts arbitrary: m)
  case (Cons nt nts)
  show ?case
  proof (cases "i \<in> set (map nt_thread_id nts)")
    case False
    with Cons.prems have "i = nt_thread_id nt" by simp
    with get_fold_new[OF False, of "js_set i (newThreadSnapshot nt) m"] show ?thesis
      by (simp add: newThreadSnapshot_def)
  qed (simp add: Cons.IH)
qed simp

lemma buildSnapshot_total:
  assumes "delta_ok (js_keys (previous_threads prev)) (map nt_thread_id nts)
      (map tca_thread_id appends) (map tcs_thread_id caps)"
  obtains sn where "buildSnapshotFromDelta prev nts appends caps = Inr sn"
    "\<And>i. js_has (sn_threads sn) i \<longleftrightarrow> js_has (previous_threads prev) i \<or> i \<in> set (map nt_thread_id nts)"
    "\<And>c. c \<in> set caps \<Longrightarrow> \<exists>th. js_get (sn_threads sn) (tcs_thread_id c) = Some th \<and>
       ats_context th = previous_context prev (tcs_thread_id c) @ appended_context appends (tcs_thread_id c) \<and>
       ats_capability_state th = tcs_capability_state c"
    "sn_mcp_servers sn = Option.bind prev sn_mcp_servers"
    "sn_sandbox_info sn = Option.bind prev sn_sandbox_info"
proof -
  let ?t0 = "previous_threads prev"
  let ?t1 = "fold (\<lambda>nt. js_set (nt_thread_id nt) (newThreadSnapshot nt)) nts ?t0"
  note d = assms[unfolded delta_ok_def]
  have known: "js_has ?t1 i \<longleftrightarrow> i \<in> set (js_keys ?t0) \<union> set (map nt_thread_id nts)" for i
    using has_fold_new[of nts ?t0 i] by (simp add: js_has_keys)
  have apps: "js_has ?t1 (tca_thread_id a)" if "a \<in> set appends" for a using that d by (auto simp: known)
  obtain t2 where t2: "applyContextAppends ?t1 appends = Inr t2" "\<And>i. js_has t2 i = js_has ?t1 i"
    "\<And>i th. js_get ?t1 i = Some th \<Longrightarrow> \<exists>th'. js_get t2 i = Some th' \<and>
       ats_context th' = ats_context th @ appended_context appends i \<and>
       ats_capability_state th' = ats_capability_state th"
    by (rule applyContextAppends_total[OF apps]) blast+
  have caps: "js_has t2 (tcs_thread_id c)" if "c \<in> set caps" for c using that d by (auto simp: t2(2) known)
  have dist: "distinct (map tcs_thread_id caps)" using d by blast
  obtain t3 where t3: "foldE apply_capability caps t2 = Inr t3" "\<And>i. js_has t3 i = js_has t2 i"
    "\<And>i th. js_get t2 i = Some th \<Longrightarrow> \<exists>th'. js_get t3 i = Some th' \<and> ats_context th' = ats_context th \<and>
       ats_capability_state th' = (case find (\<lambda>c. tcs_thread_id c = i) caps of
         None \<Rightarrow> ats_capability_state th | Some c \<Rightarrow> tcs_capability_state c)"
    by (rule apply_capabilities_total[OF caps dist]) blast+
  let ?sn = "\<lparr>sn_threads = t3, sn_mcp_servers = Option.bind prev sn_mcp_servers,
              sn_sandbox_info = Option.bind prev sn_sandbox_info\<rparr>"
  obtain kn where kn: "assertCreateTurnThreadDelta (js_keys ?t0) nts appends caps = Inr kn"
    using assms delta_accepted by blast
  have t0: "(case prev of None \<Rightarrow> [] | Some p \<Rightarrow> sn_threads p) = ?t0" by (simp add: previous_threads_def)
  have "buildSnapshotFromDelta prev nts appends caps = Inr ?sn"
    unfolding buildSnapshotFromDelta_def t0 Let_def using kn t2(1) t3(1) by simp
  moreover have "\<exists>th. js_get t3 (tcs_thread_id c) = Some th \<and>
       ats_context th = previous_context prev (tcs_thread_id c) @ appended_context appends (tcs_thread_id c) \<and>
       ats_capability_state th = tcs_capability_state c" if c: "c \<in> set caps" for c
  proof -
    let ?i = "tcs_thread_id c"
    obtain u where u: "js_get ?t1 ?i = Some u" "ats_context u = previous_context prev ?i"
    proof (cases "?i \<in> set (map nt_thread_id nts)")
      case True
      moreover from this d have "js_get ?t0 ?i = None"
        by (metis IntI emptyE js_has_def js_has_keys)
      ultimately show ?thesis using that get_fold_new_in[OF True, of ?t0]
        by (auto simp: previous_context_def)
    next
      case False
      with c caps have "js_has ?t0 ?i" using t2(2) has_fold_new by blast
      then show ?thesis using that get_fold_new[OF False, of ?t0]
        by (auto simp: previous_context_def js_has_def)
    qed
    then show ?thesis using t2(3)[OF u(1)] t3(3) find_distinct_key[OF dist c] by fastforce
  qed
  ultimately show thesis using that[of ?sn] t2(2) t3(2) has_fold_new by simp
qed

lemma buildSnapshot_rejects:
  assumes "\<not> delta_ok (js_keys (previous_threads prev)) (map nt_thread_id nts)
      (map tca_thread_id appends) (map tcs_thread_id caps)"
  shows "\<exists>e. buildSnapshotFromDelta prev nts appends caps = Inl e"
proof -
  have "\<nexists>kn. assertCreateTurnThreadDelta (js_keys (previous_threads prev)) nts appends caps = Inr kn"
    using assms delta_accepted by blast
  then obtain e where "assertCreateTurnThreadDelta (js_keys (previous_threads prev)) nts appends caps = Inl e"
    by (metis obj_sumE)
  then show ?thesis by (simp add: buildSnapshotFromDelta_def previous_threads_def Let_def)
qed

section \<open>Creating a turn\<close>

text \<open>The threads a new turn inherits, when its previous turn is stored.\<close>

definition inherited_threads :: "store \<Rightarrow> turn_row \<Rightarrow> thread_map" where
  "inherited_threads s row =
     (case Option.bind (tr_previous_turn_id row) (\<lambda>p. turn_at s (turnKey (tr_session_id row) p)) of
        None \<Rightarrow> [] | Some t \<Rightarrow> sn_threads (tr_snapshot t))"

definition previous_live :: "store \<Rightarrow> turn_row \<Rightarrow> bool" where
  "previous_live s row =
     (case Option.bind (tr_previous_turn_id row) (\<lambda>p. turn_at s (turnKey (tr_session_id row) p)) of
        None \<Rightarrow> False | Some t \<Rightarrow> isNonTerminalTurnState (tr_state t))"

lemma inherited_snapshot_cases:
  "(previous_live s row \<and> (\<exists>e. inherited_snapshot s row = Inl e)) \<or>
   (\<not> previous_live s row \<and>
      (\<exists>prev. inherited_snapshot s row = Inr prev \<and> previous_threads prev = inherited_threads s row))"
  by (auto simp: inherited_snapshot_def previous_live_def inherited_threads_def previous_threads_def
      simp del: isNonTerminalTurnState.simps split: option.splits)

definition create_turn_allowed :: "store \<Rightarrow> create_turn_input \<Rightarrow> bool" where
  "create_turn_allowed s inp \<longleftrightarrow>
     session_at s (tr_session_id (cti_turn inp)) \<noteq> None \<and>
     \<not> previous_live s (cti_turn inp) \<and>
     turn_at s (turnKey (tr_session_id (cti_turn inp)) (tr_turn_id (cti_turn inp))) = None \<and>
     delta_ok (js_keys (inherited_threads s (cti_turn inp))) (map nt_thread_id (cti_new_threads inp))
       (map tca_thread_id (cti_new_context_appends inp)) (map tcs_thread_id (cti_capability_states inp))"

lemma createTurn_checks_iff:
  "(\<exists>p. createTurn_checks inp s = Inr p) = create_turn_allowed s inp"
proof -
  let ?row = "cti_turn inp"
  have snap: "(\<exists>sn. buildSnapshotFromDelta prev (cti_new_threads inp) (cti_new_context_appends inp)
      (cti_capability_states inp) = Inr sn) \<longleftrightarrow>
    delta_ok (js_keys (previous_threads prev)) (map nt_thread_id (cti_new_threads inp))
      (map tca_thread_id (cti_new_context_appends inp)) (map tcs_thread_id (cti_capability_states inp))" for prev
    using buildSnapshot_total buildSnapshot_rejects by (metis Inr_Inl_False)
  have "(\<exists>p. createTurn_checks inp s = Inr p) \<longleftrightarrow>
    (\<exists>ss. session_at s (tr_session_id ?row) = Some ss) \<and>
    turn_at s (turnKey (tr_session_id ?row) (tr_turn_id ?row)) = None \<and>
    (\<exists>prev. inherited_snapshot s ?row = Inr prev \<and>
       (\<exists>sn. buildSnapshotFromDelta prev (cti_new_threads inp) (cti_new_context_appends inp)
          (cti_capability_states inp) = Inr sn))"
    by (auto simp: createTurn_checks_def Let_def bindE_Inr_iff requireSession_Inr js_has_def)
  then show ?thesis
    unfolding snap create_turn_allowed_def using inherited_snapshot_cases[of s ?row] by auto
qed

definition inherited_context :: "store \<Rightarrow> turn_row \<Rightarrow> string \<Rightarrow> context_message list" where
  "inherited_context s row i =
     (case js_get (inherited_threads s row) i of None \<Rightarrow> [] | Some th \<Rightarrow> ats_context th)"

lemma createTurn_result:
  assumes "tr_turn_id (cti_turn inp) \<noteq> ''''"
  shows "createTurn clk inp s =
    (case createTurn_checks inp s of
       Inl e \<Rightarrow> (s, Inl e)
     | Inr (ss, snap) \<Rightarrow>
         let row = cti_turn inp; k = turnKey (tr_session_id row) (tr_turn_id row);
             d = \<lparr>ltd_id = tr_turn_id row, ltd_status = state_status (tr_state row)\<rparr>
         in (put_session (tr_session_id row)
               (ss\<lparr>ss_turn_ids := ss_turn_ids ss @ [tr_turn_id row],
                   ss_record := advance_session clk inp d (ss_record ss)\<rparr>)
               (put_events k [] (put_turn k (with_snapshot row snap) s)), Inr ()))"
  using assms
  by (simp add: createTurn_def parse_last_turn_details_def Let_def split: sum.splits)

text \<open>
  C14. \<open>createTurn\<close> succeeds exactly when the session exists, the previous turn is not live, the turn is
  new and its thread delta keeps the contract; when it throws, nothing was written.
\<close>

theorem createTurn_outcome:
  assumes "tr_turn_id (cti_turn inp) \<noteq> ''''"
  shows "(snd (createTurn clk inp s) = Inr () \<longleftrightarrow> create_turn_allowed s inp) \<and>
    (\<forall>e. snd (createTurn clk inp s) = Inl e \<longrightarrow> fst (createTurn clk inp s) = s)"
  unfolding createTurn_result[OF assms] createTurn_checks_iff[symmetric]
  by (auto simp: Let_def split: sum.splits)

text \<open>
  After a successful \<open>createTurn\<close> the turn is stored with an empty log, is the session's last turn,
  and its snapshot has the inherited and the new threads, each with its inherited context followed by
  the messages appended to it and with exactly the capability state the caller gave.
\<close>

theorem createTurn_snapshot:
  fixes clk :: "nat \<Rightarrow> int"
  assumes "snd (createTurn clk inp s) = Inr ()" and "tr_turn_id (cti_turn inp) \<noteq> ''''"
  defines "row \<equiv> cti_turn inp" and "s' \<equiv> fst (createTurn clk inp s)"
  shows "\<exists>t ss. turn_at s' (turnKey (tr_session_id row) (tr_turn_id row)) = Some t \<and>
    events_at s' (turnKey (tr_session_id row) (tr_turn_id row)) = Some [] \<and>
    session_at s' (tr_session_id row) = Some ss \<and> last (ss_turn_ids ss) = tr_turn_id row \<and>
    sr_last_turn_details (ss_record ss) =
      Some \<lparr>ltd_id = tr_turn_id row, ltd_status = state_status (tr_state row)\<rparr> \<and>
    turn_row.truncate t = row \<and>
    (\<forall>i. js_has (sn_threads (tr_snapshot t)) i \<longleftrightarrow>
       js_has (inherited_threads s row) i \<or> i \<in> set (map nt_thread_id (cti_new_threads inp))) \<and>
    (\<forall>c \<in> set (cti_capability_states inp). \<exists>th.
       js_get (sn_threads (tr_snapshot t)) (tcs_thread_id c) = Some th \<and>
       ats_context th = inherited_context s row (tcs_thread_id c) @
         appended_context (cti_new_context_appends inp) (tcs_thread_id c) \<and>
       ats_capability_state th = tcs_capability_state c)"
proof -
  obtain ss snap where chk: "createTurn_checks inp s = Inr (ss, snap)"
    using assms(1) by (auto simp: createTurn_def split: sum.splits)
  let ?k = "turnKey (tr_session_id row) (tr_turn_id row)"
  let ?t = "with_snapshot row snap"
  let ?d = "\<lparr>ltd_id = tr_turn_id row, ltd_status = state_status (tr_state row)\<rparr>"
  let ?ss = "ss\<lparr>ss_turn_ids := ss_turn_ids ss @ [tr_turn_id row],
                ss_record := advance_session clk inp ?d (ss_record ss)\<rparr>"
  have s': "s' = put_session (tr_session_id row) ?ss (put_events ?k [] (put_turn ?k ?t s))"
    using chk by (simp add: s'_def createTurn_result[OF assms(2)] row_def Let_def)
  obtain prev where prev: "inherited_snapshot s row = Inr prev"
    "buildSnapshotFromDelta prev (cti_new_threads inp) (cti_new_context_appends inp)
       (cti_capability_states inp) = Inr snap"
    using createTurn_checks_Inr(3)[OF chk] unfolding row_def by blast
  have thr: "previous_threads prev = inherited_threads s row"
    using inherited_snapshot_cases[of s row] prev(1) by auto
  have ctx: "previous_context prev i = inherited_context s row i" for i
    by (simp add: previous_context_def inherited_context_def thr)
  have delta: "delta_ok (js_keys (previous_threads prev)) (map nt_thread_id (cti_new_threads inp))
      (map tca_thread_id (cti_new_context_appends inp)) (map tcs_thread_id (cti_capability_states inp))"
    using prev(2) buildSnapshot_rejects by fastforce
  obtain sn where sn: "buildSnapshotFromDelta prev (cti_new_threads inp) (cti_new_context_appends inp)
       (cti_capability_states inp) = Inr sn"
    "\<And>i. js_has (sn_threads sn) i \<longleftrightarrow> js_has (previous_threads prev) i \<or>
       i \<in> set (map nt_thread_id (cti_new_threads inp))"
    "\<And>c. c \<in> set (cti_capability_states inp) \<Longrightarrow> \<exists>th. js_get (sn_threads sn) (tcs_thread_id c) = Some th \<and>
       ats_context th = previous_context prev (tcs_thread_id c) @
         appended_context (cti_new_context_appends inp) (tcs_thread_id c) \<and>
       ats_capability_state th = tcs_capability_state c"
    by (rule buildSnapshot_total[OF delta]) blast
  have "sn = snap" using sn(1) prev(2) by simp
  have "turn_row.truncate ?t = row" by (simp add: with_snapshot_def turn_row.defs)
  then show ?thesis
    using sn(2,3) \<open>sn = snap\<close>
    by (intro exI[of _ ?t] exI[of _ ?ss]) (simp add: s' advance_session_def thr ctx)
qed

end
