(* ===== verification/Session_Contract.thy ===== *)
theory Session_Contract
  imports Session_Turns
begin

text \<open>
  What every reachable store promises: it is well formed, terminal turns are frozen, event logs only
  grow, the first terminal write of a turn wins, and a write that throws changes nothing. The concrete
  session and turn at the start instantiate the theorems.
\<close>

section \<open>A concrete store\<close>

definition demo_clock :: "nat \<Rightarrow> int" where
  "demo_clock n = 1000 + int n"

definition demo_session :: create_session_input where
  "demo_session =
     \<lparr>csi_tenant_id = ''acme'', csi_session_id = ''s1'', csi_agent = Agent_reference ''a1'' None,
      csi_created_by_subject =
        \<lparr>cb_subject_id = ''u1'', cb_subject_type = ''user'', cb_subject_display_name = ''U''\<rparr>,
      csi_external_id = Some ''ext'', csi_metadata = [], csi_source = None, csi_custom = None\<rparr>"

definition demo_row :: turn_row where
  "demo_row =
     \<lparr>tr_turn_id = ''t1'', tr_session_id = ''s1'', tr_first_turn_id = ''t1'', tr_ancestor_ids = [],
      tr_previous_turn_id = None, tr_active_executor_id = ''e1'', tr_state = Turn_running,
      tr_input = [], tr_created_at = 1000, tr_updated_at = 1000, tr_custom = None\<rparr>"

definition demo_turn :: create_turn_input where
  "demo_turn =
     \<lparr>cti_turn = demo_row,
      cti_new_threads = [\<lparr>nt_thread_id = ''main'', nt_parent = None, nt_agent_info = None\<rparr>],
      cti_new_context_appends =
        [\<lparr>tca_thread_id = ''main'', tca_context = [User_msg (UText ''hi'')],
          tca_current_context_usage = None, tca_completion = None\<rparr>],
      cti_capability_states = [\<lparr>tcs_thread_id = ''main'', tcs_capability_state = None\<rparr>],
      cti_update_session_title_if_not_exist = Some ''hi''\<rparr>"

definition demo_store :: store where
  "demo_store = fst (createTurn demo_clock demo_turn (fst (createSession demo_clock demo_session empty_store)))"

definition demo_event :: "string \<Rightarrow> persisted_event" where
  "demo_event i =
     \<lparr>pe_id = i, pe_created_at = ''now'', pe_thread_id = None, pe_body = Ev_user_mcp_auth_continue\<rparr>"

definition demo_end :: terminal_turn_state where
  "demo_end = Term_error ''boom'' (Iso 1500) None"

definition demo_finished :: store where
  "demo_finished =
     fst (updateTurnTerminalState demo_clock ''s1'' ''t1'' demo_end (demo_event ''e1'') demo_store)"

lemmas demo_defs =
  demo_clock_def demo_session_def demo_row_def demo_turn_def demo_store_def demo_event_def demo_end_def
  demo_finished_def empty_store_def

lemma demo_steps: "store_steps empty_store demo_store"
proof -
  have "store_step empty_store (fst (createSession demo_clock demo_session empty_store))"
    by (rule step_createSession) (simp add: demo_defs colon_free_def)
  moreover have "store_step (fst (createSession demo_clock demo_session empty_store)) demo_store"
    unfolding demo_store_def by (rule step_createTurn) (simp_all add: demo_turn_def demo_row_def)
  ultimately show ?thesis by (meson converse_rtranclp_into_rtranclp rtranclp.rtrancl_refl)
qed

lemma demo_ok: "store_ok demo_store"
  using store_steps_ok[OF demo_steps store_ok_empty] .

lemma demo_turn_at:
  "turn_at demo_store (turnKey ''s1'' ''t1'') =
     Some (with_snapshot demo_row
       \<lparr>sn_threads = [(''main'',
          \<lparr>ats_thread_id = ''main'', ats_context = [User_msg (UText ''hi'')],
           ats_current_context_usage = getEmptyCurrentContextUsage, ats_parent = None,
           ats_agent_info = None, ats_completion = None, ats_capability_state = None\<rparr>)],
        sn_mcp_servers = None, sn_sandbox_info = None\<rparr>)"
  by code_simp

lemma demo_running: "tr_state (with_snapshot demo_row sn) = Turn_running"
  by (simp add: demo_row_def)

section \<open>Reachable stores\<close>

text \<open>
  C12. Every store reached from the empty one by the operations, in any order and with any arguments,
  failed calls included, is well formed.
\<close>

theorem reachable_store_ok: "store_steps empty_store s \<Longrightarrow> store_ok s"
  using store_steps_ok store_ok_empty by blast

lemma reachable_store_ok_witness:
  "store_ok demo_store \<and> turn_at demo_store (turnKey ''s1'' ''t1'') \<noteq> None"
  using reachable_store_ok[OF demo_steps] demo_turn_at by simp

text \<open>
  C13. A terminal turn is frozen: whatever a step does, the turn is deleted with its session or is the
  same record with the same event log.
\<close>

theorem terminal_turn_frozen:
  assumes "store_step s s'" and "store_ok s"
    and "turn_at s k = Some t" and "\<not> isNonTerminalTurnState (tr_state t)"
  shows "turn_at s' k = None \<or> (turn_at s' k = Some t \<and> events_at s' k = events_at s k)"
proof -
  obtain es where es: "events_at s k = Some es" using events_of_turn[OF assms(2,3)] by blast
  show ?thesis
    using store_step_extends[OF assms(1), unfolded turn_extends_def, rule_format, OF assms(3) es] assms(4) es
    by auto
qed

text \<open>An event log only grows: a step keeps what is logged for a turn that is not deleted.\<close>

theorem event_log_append_only:
  assumes "store_step s s'" and "store_ok s"
    and "events_at s k = Some es" and "events_at s' k = Some es'"
  shows "\<exists>xs. es' = es @ xs"
proof -
  have "store_ok s'" using assms(1,2) by (rule store_step_ok)
  then have "js_has (st_turns s') k"
    using store_okD(4) assms(4) unfolding logs_ok_def js_has_def by (metis option.distinct(1))
  moreover obtain t where t: "turn_at s k = Some t"
    using store_okD(4)[OF assms(2)] assms(3) unfolding logs_ok_def js_has_def by (metis not_None_eq)
  ultimately show ?thesis
    using store_step_extends[OF assms(1), unfolded turn_extends_def, rule_format, OF t assms(3)] assms(4)
    by (auto simp: js_has_def)
qed

section \<open>Ending a turn\<close>

lemma updateTerminal_live:
  assumes ok: "store_ok s" and cf: "colon_free sid"
    and t: "turn_at s (turnKey sid tid) = Some t" and live: "isNonTerminalTurnState (tr_state t)"
  obtains ss es where "session_at s sid = Some ss" "events_at s (turnKey sid tid) = Some es" "tid \<noteq> ''''"
    "updateTurnTerminalState clk sid tid st ev s =
       (put_session sid
          (ss\<lparr>ss_record := rolled_up tid (tr_created_at t) (of_terminal st) (ss_record ss)\<rparr>)
          (put_events (turnKey sid tid) (es @ [ev])
            (put_turn (turnKey sid tid) (t\<lparr>tr_state := of_terminal st, tr_updated_at := clk 0\<rparr>) s)),
        Inr ())"
proof -
  from turn_at_names[OF ok cf t] obtain ss where ss: "session_at s sid = Some ss"
    "tid \<in> set (ss_turn_ids ss)" "session_ok s sid ss" by metis
  moreover from this have "tid \<noteq> ''''" by (auto simp: session_ok_def)
  moreover obtain es where "events_at s (turnKey sid tid) = Some es" using events_of_turn[OF ok t] by blast
  ultimately show thesis
    using that t live
    by (simp add: updateTurnTerminalState_def write_turn_state_def requireTurn_def requireEvents_def
        applyTurnState_eq Let_def)
qed

text \<open>
  C15. The first terminal write of a live turn wins. It sets the state of its row and the time of the update, logs the
  done event, and rolls the turn up into its session: the elapsed time of the turn is added to the total duration, its cost, if
  it has one, to the total cost, the number of turns stays, and when it is the last turn of the session its status becomes the
  status of the last turn. Nothing else changes, no other row, log, inbox or session. Every later terminal write is refused
  with the state that won and changes nothing.
\<close>

theorem first_terminal_write_wins:
  fixes clk :: "nat \<Rightarrow> int" and st ev
  assumes "store_ok s" and "colon_free sid"
    and "turn_at s (turnKey sid tid) = Some t" and "isNonTerminalTurnState (tr_state t)"
  defines "s' \<equiv> fst (updateTurnTerminalState clk sid tid st ev s)" and "final \<equiv> of_terminal st"
  shows "snd (updateTurnTerminalState clk sid tid st ev s) = Inr () \<and>
    (\<forall>k. turn_at s' k = (if k = turnKey sid tid then Some (t\<lparr>tr_state := final, tr_updated_at := clk 0\<rparr>) else turn_at s k) \<and>
       events_at s' k = (if k = turnKey sid tid then map_option (\<lambda>es. es @ [ev]) (events_at s k) else events_at s k) \<and>
       inbound_at s' k = inbound_at s k) \<and>
    (\<exists>ss. session_at s sid = Some ss \<and> (let r = ss_record ss; m = sr_metrics r in
       \<forall>i. session_at s' i = (if i = sid then Some (ss\<lparr>ss_record :=
         r\<lparr>sr_metrics :=
             \<lparr>sm_total_cost_in_usd =
                (case Option.bind (state_metrics final) tmx_cost_in_usd of None \<Rightarrow> sm_total_cost_in_usd m
                 | Some c \<Rightarrow> Some (case sm_total_cost_in_usd m of None \<Rightarrow> c | Some d \<Rightarrow> d + c)),
              sm_total_duration_ms = sm_total_duration_ms m +
                (case Option.bind (completed_at final) date_parse of None \<Rightarrow> 0 | Some done_at \<Rightarrow> max 0 (done_at - tr_created_at t)),
              sm_total_turns = sm_total_turns m\<rparr>,
           sr_last_turn_details :=
             (if map_option ltd_id (sr_last_turn_details r) = Some tid then Some \<lparr>ltd_id = tid, ltd_status = state_status final\<rparr>
              else sr_last_turn_details r)\<rparr>\<rparr>) else session_at s i))) \<and>
    (\<forall>clk2 st2 ev2. updateTurnTerminalState clk2 sid tid st2 ev2 s' = (s', Inl (Turn_not_running tid final)))"
proof -
  obtain ss es where 1: "session_at s sid = Some ss" "events_at s (turnKey sid tid) = Some es" "tid \<noteq> ''''"
    and eq: "updateTurnTerminalState clk sid tid st ev s =
       (put_session sid
          (ss\<lparr>ss_record := rolled_up tid (tr_created_at t) (of_terminal st) (ss_record ss)\<rparr>)
          (put_events (turnKey sid tid) (es @ [ev])
            (put_turn (turnKey sid tid) (t\<lparr>tr_state := of_terminal st, tr_updated_at := clk 0\<rparr>) s)),
        Inr ())"
    by (rule updateTerminal_live[OF assms(1-4)])
  have rup: "rolled_up tid (tr_created_at t) final r =
     r\<lparr>sr_metrics := \<lparr>sm_total_cost_in_usd =
                (case Option.bind (state_metrics final) tmx_cost_in_usd of None \<Rightarrow> sm_total_cost_in_usd (sr_metrics r)
                 | Some c \<Rightarrow> Some (case sm_total_cost_in_usd (sr_metrics r) of None \<Rightarrow> c | Some d \<Rightarrow> d + c)),
              sm_total_duration_ms = sm_total_duration_ms (sr_metrics r) +
                (case Option.bind (completed_at final) date_parse of None \<Rightarrow> 0 | Some done_at \<Rightarrow> max 0 (done_at - tr_created_at t)),
              sm_total_turns = sm_total_turns (sr_metrics r)\<rparr>,
           sr_last_turn_details :=
             (if map_option ltd_id (sr_last_turn_details r) = Some tid then Some \<lparr>ltd_id = tid, ltd_status = state_status final\<rparr>
              else sr_last_turn_details r)\<rparr>" for r
    by (auto simp: rolled_up_def fold_turn_metrics_def Let_def turn_cost_def elapsed_ms_def final_def max_def
        intro!: session_record.equality session_metrics.equality split: option.splits)
  show ?thesis
    unfolding s'_def eq using 1
    by (simp add: final_def[symmetric] rup Let_def updateTurnTerminalState_def requireTurn_def) (auto simp: final_def)
qed

lemma first_terminal_write_wins_witness:
  "updateTurnTerminalState demo_clock ''s1'' ''t1'' (Term_cancelled Abandoned (Iso 9) None) (demo_event ''e2'')
     demo_finished = (demo_finished, Inl (Turn_not_running ''t1'' (Turn_error ''boom'' (Iso 1500) None)))"
proof -
  have "colon_free ''s1''" by (simp add: colon_free_def)
  moreover have "isNonTerminalTurnState (tr_state (with_snapshot demo_row sn))" for sn
    by (simp add: demo_row_def)
  ultimately show ?thesis
    using first_terminal_write_wins[OF demo_ok _ demo_turn_at, of demo_clock demo_end "demo_event ''e1''"]
    by (simp add: demo_finished_def[symmetric] del: isNonTerminalTurnState.simps with_snapshot_fields)
      (simp add: demo_end_def)
qed

lemma demo_finished_turn:
  "\<exists>t. turn_at demo_finished (turnKey ''s1'' ''t1'') = Some t \<and> tr_state t = Turn_error ''boom'' (Iso 1500) None"
proof -
  have "map_option tr_state (turn_at demo_finished (turnKey ''s1'' ''t1'')) =
      Some (Turn_error ''boom'' (Iso 1500) None)" by code_simp
  then show ?thesis by auto
qed

lemma demo_finished_ok: "store_ok demo_finished"
  unfolding demo_finished_def by (rule state_updates_ok[OF demo_ok]) (simp add: colon_free_def)

lemma terminal_turn_frozen_witness:
  "turn_at (fst (appendToEvents ''s1'' ''t1'' [demo_event ''e9''] demo_finished)) (turnKey ''s1'' ''t1'') =
     turn_at demo_finished (turnKey ''s1'' ''t1'')"
proof -
  obtain t where t: "turn_at demo_finished (turnKey ''s1'' ''t1'') = Some t"
    "tr_state t = Turn_error ''boom'' (Iso 1500) None" using demo_finished_turn by blast
  have "turn_at (fst (appendToEvents ''s1'' ''t1'' [demo_event ''e9''] demo_finished)) (turnKey ''s1'' ''t1'')
      \<noteq> None" by code_simp
  moreover have "\<not> isNonTerminalTurnState (tr_state t)" by (simp add: t(2))
  ultimately show ?thesis
    using terminal_turn_frozen[OF step_events demo_finished_ok t(1), of "''s1''" "''t1''" "[demo_event ''e9'']"] t(1)
    by presburger
qed

lemma event_log_append_only_witness:
  "events_at demo_store (turnKey ''s1'' ''t1'') = Some [] \<and>
   (\<exists>xs. [demo_event ''e1''] = [] @ xs)"
proof -
  have e: "events_at demo_store (turnKey ''s1'' ''t1'') = Some []"
    "events_at (fst (appendToEvents ''s1'' ''t1'' [demo_event ''e1''] demo_store)) (turnKey ''s1'' ''t1'') =
      Some [demo_event ''e1'']" by code_simp+
  show ?thesis using event_log_append_only[OF step_events demo_ok e] e(1) by simp
qed

lemma createTurn_outcome_witness:
  "snd (createTurn demo_clock demo_turn (fst (createSession demo_clock demo_session empty_store))) = Inr () \<and>
   create_turn_allowed (fst (createSession demo_clock demo_session empty_store)) demo_turn"
proof -
  have "snd (createTurn demo_clock demo_turn (fst (createSession demo_clock demo_session empty_store))) = Inr ()"
    by code_simp
  moreover have "tr_turn_id (cti_turn demo_turn) \<noteq> ''''" by (simp add: demo_defs)
  ultimately show ?thesis using createTurn_outcome[of demo_turn] by blast
qed

lemma createTurn_snapshot_witness:
  "\<exists>t. turn_at demo_store (turnKey ''s1'' ''t1'') = Some t \<and> turn_row.truncate t = demo_row"
proof -
  have "snd (createTurn demo_clock demo_turn (fst (createSession demo_clock demo_session empty_store))) = Inr ()"
    by code_simp
  moreover have "tr_turn_id (cti_turn demo_turn) \<noteq> ''''" by (simp add: demo_defs)
  moreover have "cti_turn demo_turn = demo_row" "tr_session_id demo_row = ''s1''" "tr_turn_id demo_row = ''t1''"
    by (simp_all add: demo_turn_def demo_row_def)
  ultimately show ?thesis
    using createTurn_snapshot[of demo_clock demo_turn "fst (createSession demo_clock demo_session empty_store)"]
    by (auto simp: demo_store_def)
qed

end
