(* ===== verification/Session_Paging.thy ===== *)
theory Session_Paging
  imports Session_Contract
begin

text \<open>
  The token-paginated listings. \<open>token_listing\<close> is the contract a listing offers its client: the page
  at a position is the next slice, and its next token leads to the following position as long as there
  is more. A client that follows the tokens then reads every item once, in order (\<open>collect_all\<close>). The
  contract is discharged for the four listings of the session store: turns and turn events by offset,
  the session feed by an anchored offset, sessions by a keyset cursor.
\<close>

text \<open>A client that follows next tokens; \<open>None\<close> when the fuel runs out before the last page.\<close>

fun collect_pages ::
    "nat \<Rightarrow> ('t option \<Rightarrow> 'e + ('a list \<times> 't option)) \<Rightarrow> 't option \<Rightarrow> ('e + 'a list) option" where
  "collect_pages 0 get t = None"
| "collect_pages (Suc n) get t =
     (case get t of
        Inl e \<Rightarrow> Some (Inl e)
      | Inr (d, None) \<Rightarrow> Some (Inr d)
      | Inr (d, Some u) \<Rightarrow>
          (case collect_pages n get (Some u) of
             Some (Inr r) \<Rightarrow> Some (Inr (d @ r))
           | x \<Rightarrow> x))"

locale token_listing =
  fixes get :: "'q \<Rightarrow> nat \<Rightarrow> 't option \<Rightarrow> 'e + ('a list \<times> 't option)"
    and items :: "'q \<Rightarrow> 'a list"
    and tok :: "'q \<Rightarrow> nat \<Rightarrow> 't option"
    and ready :: "'q \<Rightarrow> bool"
  assumes tok_start: "tok q 0 = None"
    and tok_later: "0 < n \<Longrightarrow> tok q n \<noteq> None"
    and page: "ready q \<Longrightarrow> 0 < limit \<Longrightarrow> n = 0 \<or> n < length (items q) \<Longrightarrow>
      get q limit (tok q n) =
        Inr (take limit (drop n (items q)),
             if n + limit < length (items q) then tok q (n + limit) else None)"
begin

lemma collect_from:
  assumes "ready q" and "0 < limit" and "n = 0 \<or> n < length (items q)"
    and "length (items q) - n < fuel"
  shows "collect_pages fuel (get q limit) (tok q n) = Some (Inr (drop n (items q)))"
  using assms(3,4)
proof (induction fuel arbitrary: n)
  case (Suc fuel)
  note pg = page[OF assms(1,2) Suc.prems(1)]
  show ?case
  proof (cases "n + limit < length (items q)")
    case True
    obtain u where u: "tok q (n + limit) = Some u" using tok_later[of "n + limit" q] assms(2) by auto
    have "collect_pages fuel (get q limit) (tok q (n + limit)) = Some (Inr (drop (n + limit) (items q)))"
      using True Suc.prems(2) assms(2) by (intro Suc.IH) auto
    moreover have "take limit (drop n (items q)) @ drop (n + limit) (items q) = drop n (items q)"
      by (metis add.commute append_take_drop_id drop_drop)
    ultimately show ?thesis using True pg u by simp
  qed (use pg in auto)
qed simp

lemma collect_all:
  assumes "ready q" and "0 < limit" and "length (items q) < fuel"
  shows "collect_pages fuel (get q limit) None = Some (Inr (items q))"
  using collect_from[of q limit 0 fuel] assms by (simp add: tok_start)

end

text \<open>The part of a page result the client follows.\<close>

definition next_page :: "serror + ('a list \<times> page_token token_pagination) \<Rightarrow> serror + ('a list \<times> page_token option)" where
  "next_page r = bindE r (\<lambda>(d, pg). Inr (d, pg_next_page_token pg))"

section \<open>Offset tokens\<close>

definition offset_tok :: "nat \<Rightarrow> page_token option" where
  "offset_tok n = (if n = 0 then None else Some (Json_token (offset_json n)))"

lemma decode_offset_tok: "n \<le> MAX_SAFE_INTEGER \<Longrightarrow> decodeOffsetPageToken (offset_tok n) = Inr n"
  by (simp add: offset_tok_def decodeOffsetPageToken_def decodePageToken_def)

lemma paginate_page:
  assumes "length items \<le> MAX_SAFE_INTEGER" and "0 < limit" and "n = 0 \<or> n < length items"
  shows "next_page (paginate items limit (offset_tok n)) =
    Inr (take limit (drop n items), if n + limit < length items then offset_tok (n + limit) else None)"
proof -
  have "n \<le> MAX_SAFE_INTEGER" using assms by auto
  then have dec: "decodeOffsetPageToken (offset_tok n) = Inr n" by (rule decode_offset_tok)
  have prev: "encodeOffsetPageToken (n - limit) = Inr (Json_token (offset_json (n - limit)))"
    using \<open>n \<le> MAX_SAFE_INTEGER\<close> by (simp add: encode_offset)
  have nxt: "encodeOffsetPageToken (n + limit) = Inr (Json_token (offset_json (n + limit)))"
    if "n + limit < length items" using that assms(1) by (simp add: encode_offset)
  have "offset_tok (n + limit) = Some (Json_token (offset_json (n + limit)))"
    using assms(2) by (simp add: offset_tok_def)
  then show ?thesis
    unfolding paginate_def dec next_page_def page_of_def optional_token_def
    using prev nxt by (cases "n + limit < length items"; cases "n = 0") simp_all
qed

definition sorted_events :: "sort_order option \<Rightarrow> persisted_event list \<Rightarrow> persisted_event list" where
  "sorted_events order es = js_sort (if order = Some Order_desc then (\<lambda>a b. event_cmp b a) else event_cmp) es"

lemma comparator_event_cmp: "comparator event_cmp"
proof -
  have "event_cmp = (\<lambda>a b. compare_strings (pe_id a) (pe_id b))"
    by (intro ext) (simp add: event_cmp_def)
  then show ?thesis by (rule ssubst) (rule comparator_on[OF comparator_compare_strings])
qed

definition turn_events :: "store \<Rightarrow> string \<Rightarrow> string \<Rightarrow> persisted_event list" where
  "turn_events s sid tid = (case events_at s (turnKey sid tid) of None \<Rightarrow> [] | Some es \<Rightarrow> es)"

interpretation turn_events: token_listing
  "\<lambda>(s, sid, tid, order) limit t. next_page (listTurnEvents sid tid limit t order s)"
  "\<lambda>(s, sid, tid, order). sorted_events order (turn_events s sid tid)"
  "\<lambda>q. offset_tok"
  "\<lambda>(s, sid, tid, order). turn_at s (turnKey sid tid) \<noteq> None \<and> events_at s (turnKey sid tid) \<noteq> None \<and>
     length (turn_events s sid tid) \<le> MAX_SAFE_INTEGER"
proof unfold_locales
  fix q :: "store \<times> string \<times> string \<times> sort_order option" and limit n :: nat
  obtain s sid tid order where q: "q = (s, sid, tid, order)" by (cases q)
  assume a: "case q of (s, sid, tid, order) \<Rightarrow> turn_at s (turnKey sid tid) \<noteq> None \<and>
       events_at s (turnKey sid tid) \<noteq> None \<and> length (turn_events s sid tid) \<le> MAX_SAFE_INTEGER"
    and l: "0 < limit" and n: "n = 0 \<or> n < length (case q of (s, sid, tid, order) \<Rightarrow> sorted_events order (turn_events s sid tid))"
  from a q obtain es where es: "events_at s (turnKey sid tid) = Some es" "turn_events s sid tid = es"
    by (auto simp: turn_events_def)
  have len: "length (sorted_events order es) \<le> MAX_SAFE_INTEGER"
    using a q es by (simp add: sorted_events_def)
  have n': "n = 0 \<or> n < length (sorted_events order es)" using n q es by simp
  have eq: "listTurnEvents sid tid limit t order s = paginate (sorted_events order es) limit t" for t
    using a q es by (auto simp: listTurnEvents_def requireTurn_def requireEvents_def sorted_events_def)
  show "(case q of (s, sid, tid, order) \<Rightarrow> \<lambda>limit t. next_page (listTurnEvents sid tid limit t order s)) limit (offset_tok n) =
      Inr (take limit (drop n (case q of (s, sid, tid, order) \<Rightarrow> sorted_events order (turn_events s sid tid))),
        if n + limit < length (case q of (s, sid, tid, order) \<Rightarrow> sorted_events order (turn_events s sid tid))
        then offset_tok (n + limit) else None)"
    using paginate_page[OF len l n'] by (simp add: q eq es(2))
qed (auto simp: offset_tok_def)

text \<open>
  C23. Following the page tokens of \<open>listTurnEvents\<close> reads the whole event log of the turn once, sorted by
  event id in the order asked for.
\<close>

theorem listTurnEvents_pages:
  assumes "turn_at s (turnKey sid tid) \<noteq> None" and "events_at s (turnKey sid tid) = Some es"
    and "length es \<le> MAX_SAFE_INTEGER" and "0 < limit" and "length es < fuel"
  shows "\<exists>out. collect_pages fuel (\<lambda>t. next_page (listTurnEvents sid tid limit t order s)) None =
      Some (Inr out) \<and> mset out = mset es \<and>
    sorted_wrt (\<lambda>a b. if order = Some Order_desc then pe_id b \<le> pe_id a else pe_id a \<le> pe_id b) out"
proof -
  have "turn_events s sid tid = es" by (simp add: turn_events_def assms(2))
  then have "collect_pages fuel (\<lambda>t. next_page (listTurnEvents sid tid limit t order s)) None =
      Some (Inr (sorted_events order es))"
    using turn_events.collect_all[of "(s, sid, tid, order)" limit fuel] assms
    by (simp add: sorted_events_def)
  moreover have "sorted_wrt (\<lambda>a b. event_cmp a b \<le> 0) (js_sort event_cmp es)"
    "sorted_wrt (\<lambda>a b. event_cmp b a \<le> 0) (js_sort (\<lambda>a b. event_cmp b a) es)"
    by (rule sorted_js_sort comparator_event_cmp comparator_flip[OF comparator_event_cmp])+
  then have "sorted_wrt (\<lambda>a b. if order = Some Order_desc then pe_id b \<le> pe_id a else pe_id a \<le> pe_id b)
      (sorted_events order es)"
    unfolding sorted_events_def event_cmp_def compare_strings_le by (cases "order = Some Order_desc") simp_all
  ultimately show ?thesis by (simp add: sorted_events_def)
qed

section \<open>The turns of a session\<close>

definition turn_rows :: "store \<Rightarrow> string \<Rightarrow> turn_row list" where
  "turn_rows s sid =
     (case session_at s sid of
        None \<Rightarrow> []
      | Some ss \<Rightarrow> map (\<lambda>tid. turn_row.truncate (the (turn_at s (turnKey sid tid)))) (ss_turn_ids ss))"

lemma listTurns_eq:
  assumes "store_ok s" and "session_at s sid \<noteq> None"
  shows "listTurns sid limit t s = paginate (turn_rows s sid) limit t"
proof -
  obtain ss where ss: "session_at s sid = Some ss" using assms(2) by blast
  have "mapE (\<lambda>tid. bindE (requireTurn s sid tid) (\<lambda>t. Inr (turn_row.truncate t))) (ss_turn_ids ss) =
      Inr (map (\<lambda>tid. turn_row.truncate (the (turn_at s (turnKey sid tid)))) (ss_turn_ids ss))"
  proof (rule mapE_Inr)
    fix tid assume "tid \<in> set (ss_turn_ids ss)"
    then obtain u where "turn_at s (turnKey sid tid) = Some u"
      using store_okD(1)[OF assms(1) ss] by (auto simp: session_ok_def)
    then show "bindE (requireTurn s sid tid) (\<lambda>t. Inr (turn_row.truncate t)) =
        Inr (turn_row.truncate (the (turn_at s (turnKey sid tid))))" by (simp add: requireTurn_def)
  qed
  then show ?thesis using ss by (simp add: listTurns_def requireSession_def turn_rows_def)
qed

interpretation turns: token_listing
  "\<lambda>(s, sid) limit t. next_page (listTurns sid limit t s)"
  "\<lambda>(s, sid). turn_rows s sid"
  "\<lambda>q. offset_tok"
  "\<lambda>(s, sid). store_ok s \<and> session_at s sid \<noteq> None \<and> length (turn_rows s sid) \<le> MAX_SAFE_INTEGER"
proof unfold_locales
  fix q :: "store \<times> string" and limit n :: nat
  obtain s sid where q: "q = (s, sid)" by (cases q)
  assume a: "case q of (s, sid) \<Rightarrow> store_ok s \<and> session_at s sid \<noteq> None \<and>
      length (turn_rows s sid) \<le> MAX_SAFE_INTEGER"
    and l: "0 < limit" and n: "n = 0 \<or> n < length (case q of (s, sid) \<Rightarrow> turn_rows s sid)"
  have len: "length (turn_rows s sid) \<le> MAX_SAFE_INTEGER" and n': "n = 0 \<or> n < length (turn_rows s sid)"
    using a n q by simp_all
  show "(case q of (s, sid) \<Rightarrow> \<lambda>limit t. next_page (listTurns sid limit t s)) limit (offset_tok n) =
      Inr (take limit (drop n (case q of (s, sid) \<Rightarrow> turn_rows s sid)),
        if n + limit < length (case q of (s, sid) \<Rightarrow> turn_rows s sid) then offset_tok (n + limit) else None)"
    using paginate_page[OF len l n'] a by (simp add: q listTurns_eq)
qed (auto simp: offset_tok_def)

text \<open>
  Following the page tokens of \<open>listTurns\<close> reads every turn of the session once, in the order the
  turns were created; it never fails on a store that the operations reach.
\<close>

theorem listTurns_pages:
  assumes "store_ok s" and "session_at s sid = Some ss" and "length (ss_turn_ids ss) \<le> MAX_SAFE_INTEGER"
    and "0 < limit" and "length (ss_turn_ids ss) < fuel"
  shows "\<exists>out. collect_pages fuel (\<lambda>t. next_page (listTurns sid limit t s)) None = Some (Inr out) \<and>
    map tr_turn_id out = ss_turn_ids ss"
proof -
  have "collect_pages fuel (\<lambda>t. next_page (listTurns sid limit t s)) None = Some (Inr (turn_rows s sid))"
    using turns.collect_all[of "(s, sid)" limit fuel] assms by (simp add: turn_rows_def)
  moreover have sok: "session_ok s sid ss" using assms(1,2) by (rule store_okD(1))
  have "tr_turn_id (turn_row.truncate (the (turn_at s (turnKey sid tid)))) = tid"
    if tid: "tid \<in> set (ss_turn_ids ss)" for tid
  proof -
    have cf: "colon_free sid" using sok by (simp add: session_ok_def)
    obtain t where t: "turn_at s (turnKey sid tid) = Some t" using sok tid by (auto simp: session_ok_def)
    then show ?thesis using turn_at_names[OF assms(1) cf t] by (auto simp: turn_row.defs)
  qed
  then have "map tr_turn_id (turn_rows s sid) = ss_turn_ids ss"
    by (simp add: turn_rows_def assms(2) map_idI)
  ultimately show ?thesis by blast
qed

section \<open>The session feed\<close>

definition anchored_tok :: "string \<Rightarrow> nat \<Rightarrow> page_token option" where
  "anchored_tok tid n =
     (if n = 0 then None
      else Some (Json_token (session_event_json \<lparr>sec_last_turn_id = tid, sec_offset = n\<rparr>)))"

definition feed_of :: "store \<Rightarrow> string \<Rightarrow> string \<Rightarrow> session_event_item list" where
  "feed_of s sid tid =
     (case turn_at s (turnKey sid tid) of None \<Rightarrow> [] | Some t \<Rightarrow> session_feed s sid t)"

lemma listSessionEvents_page:
  assumes "session_at s sid \<noteq> None" and t: "turn_at s (turnKey sid tid) = Some t" and "tid \<noteq> ''''"
    and len: "length (session_feed s sid t) \<le> MAX_SAFE_INTEGER"
    and "0 < limit" and n: "n = 0 \<or> n < length (session_feed s sid t)"
  shows "next_page (listSessionEvents sid limit (anchored_tok tid n) (Some tid) s) =
    Inr (take limit (drop n (session_feed s sid t)),
         if n + limit < length (session_feed s sid t) then anchored_tok tid (n + limit) else None)"
proof -
  let ?f = "session_feed s sid t"
  let ?c = "\<lambda>n. \<lparr>sec_last_turn_id = tid, sec_offset = n\<rparr>"
  have "n \<le> MAX_SAFE_INTEGER" using n len by auto
  then have dec: "decodeSessionEventPageToken (Json_token (session_event_json (?c n))) = Inr (?c n)"
    using assms(3) by (simp add: decodeSessionEventPageToken_def decodePageToken_def)
  have prev: "encodeSessionEventPageToken (?c (n - limit)) = Inr (Json_token (session_event_json (?c (n - limit))))"
    using \<open>n \<le> MAX_SAFE_INTEGER\<close> assms(3) by (simp add: encode_session_event)
  have nxt: "encodeSessionEventPageToken (?c (n + limit)) = Inr (Json_token (session_event_json (?c (n + limit))))"
    if "n + limit < length ?f" using that len assms(3) by (simp add: encode_session_event)
  have rows: "length (take (limit + 1) (drop n ?f)) > limit \<longleftrightarrow> n + limit < length ?f"
    "take limit (take (limit + 1) (drop n ?f)) = take limit (drop n ?f)"
    "\<not> n + limit < length ?f \<Longrightarrow> take (limit + 1) (drop n ?f) = take limit (drop n ?f)"
    by auto
  have req: "requireTurn s sid tid = Inr t" using t by (simp add: requireTurn_def)
  obtain ss where ses: "requireSession s sid = Inr ss" using assms(1) by (auto simp: requireSession_def)
  have eq: "listSessionEvents sid limit (anchored_tok tid n) (Some tid) s =
      paginateSessionEventRows (take (limit + 1) (drop n ?f)) limit (?c n)"
    using dec by (simp add: listSessionEvents_def ses req anchored_tok_def Let_def)
  have "anchored_tok tid (n + limit) = Some (Json_token (session_event_json (?c (n + limit))))"
    using assms(5) by (simp add: anchored_tok_def)
  then show ?thesis
    unfolding eq paginateSessionEventRows_def next_page_def page_of_def optional_token_def rows(1)
    using prev nxt rows(2,3) by (cases "n + limit < length ?f"; cases "n = 0") simp_all
qed

interpretation feed: token_listing
  "\<lambda>(s, sid, tid) limit t. next_page (listSessionEvents sid limit t (Some tid) s)"
  "\<lambda>(s, sid, tid). feed_of s sid tid"
  "\<lambda>(s, sid, tid). anchored_tok tid"
  "\<lambda>(s, sid, tid). session_at s sid \<noteq> None \<and> turn_at s (turnKey sid tid) \<noteq> None \<and> tid \<noteq> '''' \<and>
     length (feed_of s sid tid) \<le> MAX_SAFE_INTEGER"
proof unfold_locales
  fix q :: "store \<times> string \<times> string" and limit n :: nat
  obtain s sid tid where q: "q = (s, sid, tid)" by (cases q)
  assume a: "case q of (s, sid, tid) \<Rightarrow> session_at s sid \<noteq> None \<and> turn_at s (turnKey sid tid) \<noteq> None \<and>
      tid \<noteq> '''' \<and> length (feed_of s sid tid) \<le> MAX_SAFE_INTEGER"
    and l: "0 < limit" and n: "n = 0 \<or> n < length (case q of (s, sid, tid) \<Rightarrow> feed_of s sid tid)"
  from a q obtain t where t: "turn_at s (turnKey sid tid) = Some t" by auto
  then have f: "feed_of s sid tid = session_feed s sid t" by (simp add: feed_of_def)
  have "session_at s sid \<noteq> None" "tid \<noteq> ''''" "length (session_feed s sid t) \<le> MAX_SAFE_INTEGER"
    "n = 0 \<or> n < length (session_feed s sid t)" using a n q f by simp_all
  from listSessionEvents_page[OF this(1) t this(2,3) l this(4)]
  show "(case q of (s, sid, tid) \<Rightarrow> \<lambda>limit t. next_page (listSessionEvents sid limit t (Some tid) s)) limit
        ((case q of (s, sid, tid) \<Rightarrow> anchored_tok tid) n) =
      Inr (take limit (drop n (case q of (s, sid, tid) \<Rightarrow> feed_of s sid tid)),
        if n + limit < length (case q of (s, sid, tid) \<Rightarrow> feed_of s sid tid)
        then (case q of (s, sid, tid) \<Rightarrow> anchored_tok tid) (n + limit) else None)"
    by (simp add: q f)
qed (auto simp: anchored_tok_def)

text \<open>
  Following the page tokens of \<open>listSessionEvents\<close> from an anchor turn reads the feed of its ancestor
  chain once: newest turn first, each turn's events by descending id.
\<close>

theorem listSessionEvents_pages:
  assumes "session_at s sid \<noteq> None" and "turn_at s (turnKey sid tid) = Some t" and "tid \<noteq> ''''"
    and "length (session_feed s sid t) \<le> MAX_SAFE_INTEGER" and "0 < limit"
    and "length (session_feed s sid t) < fuel"
  shows "collect_pages fuel (\<lambda>p. next_page (listSessionEvents sid limit p (Some tid) s)) None =
    Some (Inr (concat (map (turn_feed s sid) (rev (resolveAncestorChain s sid t)))))"
  using feed.collect_all[of "(s, sid, tid)" limit fuel] assms
  by (simp add: feed_of_def session_feed_def)

section \<open>The sessions of a tenant\<close>

definition keyset_tok :: "iso_lib \<Rightarrow> session_record list \<Rightarrow> nat \<Rightarrow> page_token option" where
  "keyset_tok lib rs n =
     (if n = 0 then None
      else Some (Json_token (session_list_json (session_cursor lib (rs ! (n - 1))))))"

text \<open>Rows a cursor can name: a date the library prints and reads back, and a non-empty id.\<close>

definition cursor_ok :: "session_record \<Rightarrow> bool" where
  "cursor_ok r \<longleftrightarrow> 0 \<le> sr_updated_at r \<and> sr_updated_at r < END_OF_YEAR_9999 \<and> sr_session_id r \<noteq> ''''"

lemma session_cmp_comparator: "comparator (session_cmp order)"
  unfolding comparator_def session_cmp_def compare_strings_def
  by (auto split: if_splits)

lemma beyond_cursor_iff:
  assumes "iso_lib_ok lib" and "cursor_ok r"
  shows "beyond_cursor lib order (session_cursor lib r) x \<longleftrightarrow> \<not> session_cmp order x r \<le> 0"
proof -
  have "iso_time lib (iso_text lib (sr_updated_at r)) = Some (sr_updated_at r)"
    using assms by (simp add: iso_lib_ok_def cursor_ok_def)
  then show ?thesis
    by (auto simp: beyond_cursor_def session_cursor_def session_cmp_def compare_strings_def Let_def)
qed

lemma session_cmp_antisym:
  "session_cmp order a b \<le> 0 \<Longrightarrow> session_cmp order b a \<le> 0 \<Longrightarrow> sr_session_id a = sr_session_id b"
  by (auto simp: session_cmp_def compare_strings_def split: if_splits)

text \<open>The keyset filter of the row before position \<open>n\<close> keeps what follows.\<close>

lemma filter_beyond:
  assumes "iso_lib_ok lib" and sorted: "sorted_wrt (\<lambda>a b. session_cmp order a b \<le> 0) rs"
    and dist: "distinct (map sr_session_id rs)" and n: "0 < n" "n \<le> length rs" and c: "cursor_ok (rs ! (n - 1))"
  shows "filter (beyond_cursor lib order (session_cursor lib (rs ! (n - 1)))) rs = drop n rs"
proof -
  let ?r = "rs ! (n - 1)"
  let ?P = "beyond_cursor lib order (session_cursor lib ?r)"
  have P: "?P x \<longleftrightarrow> \<not> session_cmp order x ?r \<le> 0" for x by (rule beyond_cursor_iff[OF assms(1) c])
  have refl: "session_cmp order x x \<le> 0" for x by (simp add: session_cmp_def compare_strings_def)
  have "filter ?P rs = filter ?P (take n rs) @ filter ?P (drop n rs)"
    by (metis append_take_drop_id filter_append)
  moreover have "filter ?P (take n rs) = []"
  proof (rule filter_False, rule ballI)
    fix x assume "x \<in> set (take n rs)"
    then obtain i where i: "i < n" "x = rs ! i" using n(2) by (auto simp: in_set_conv_nth)
    then have "session_cmp order x ?r \<le> 0"
      using sorted n refl by (cases "i = n - 1") (auto simp: sorted_wrt_iff_nth_less)
    then show "\<not> ?P x" unfolding P by simp
  qed
  moreover have "filter ?P (drop n rs) = drop n rs"
  proof (rule filter_True, rule ballI)
    fix x assume "x \<in> set (drop n rs)"
    then obtain j where j: "n \<le> j" "j < length rs" "x = rs ! j"
      by (auto simp: in_set_conv_nth) (metis add.commute le_add1 less_diff_conv)
    then have le: "session_cmp order ?r x \<le> 0" using sorted n by (auto simp: sorted_wrt_iff_nth_less)
    show "?P x"
    proof (rule ccontr)
      assume "\<not> ?P x"
      with le have "sr_session_id x = sr_session_id ?r" using session_cmp_antisym P by blast
      moreover have "map sr_session_id rs ! j \<noteq> map sr_session_id rs ! (n - 1)"
        using dist j n by (subst nth_eq_iff_index_eq) auto
      ultimately show False using j n by simp
    qed
  qed
  ultimately show ?thesis by simp
qed

lemma keyset_page:
  assumes lib: "iso_lib_ok lib" and sorted: "sorted_wrt (\<lambda>a b. session_cmp (lsi_order inp) a b \<le> 0) rs"
    and rs: "rs = matching_sessions inp s" and dist: "distinct (map sr_session_id rs)"
    and c: "\<forall>r \<in> set rs. cursor_ok r" and limit: "0 < limit" and n: "n = 0 \<or> n < length rs"
  shows "next_page (listSessions lib (inp\<lparr>lsi_limit := limit, lsi_page_token := keyset_tok lib rs n\<rparr>) s) =
    Inr (take limit (drop n rs), if n + limit < length rs then keyset_tok lib rs (n + limit) else None)"
proof -
  let ?inp = "inp\<lparr>lsi_limit := limit, lsi_page_token := keyset_tok lib rs n\<rparr>"
  have "session_matches ?inp = session_matches inp" by (intro ext) (simp add: session_matches_def)
  then have rs': "matching_sessions ?inp s = rs" by (simp add: rs matching_sessions_def)
  have valid: "iso_valid lib (iso_text lib (sr_updated_at r)) \<and> sr_session_id r \<noteq> ''''" if "r \<in> set rs" for r
    using c that lib by (auto simp: cursor_ok_def iso_lib_ok_def)
  have dec: "decodeSessionListPageToken lib (keyset_tok lib rs n) =
      Inr (if n = 0 then None else Some (session_cursor lib (rs ! (n - 1))))"
  proof (cases "n = 0")
    case False
    then have "rs ! (n - 1) \<in> set rs" using n by simp
    then show ?thesis using False valid
      by (simp add: decodeSessionListPageToken_def keyset_tok_def decodePageToken_def session_cursor_def)
  qed (simp add: decodeSessionListPageToken_def keyset_tok_def)
  have flt: "(case (if n = 0 then None else Some (session_cursor lib (rs ! (n - 1)))) of
      None \<Rightarrow> rs | Some cu \<Rightarrow> filter (beyond_cursor lib (lsi_order inp) cu) rs) = drop n rs"
    using n c filter_beyond[OF lib sorted dist, of n] by auto
  have eq: "listSessions lib ?inp s = paginateSessionListRows lib (drop n rs) limit (session_cursor lib)"
    unfolding listSessions_def rs' Let_def using dec flt by (cases "n = 0") simp_all
  show ?thesis
  proof (cases "n + limit < length rs")
    case True
    let ?last = "rs ! (n + limit - 1)"
    have data: "take limit (drop n rs) \<noteq> []" "last (take limit (drop n rs)) = ?last"
      using True limit by (auto simp: last_conv_nth min_def)
    have "encodeSessionListPageToken lib (session_cursor lib ?last) =
        Inr (Json_token (session_list_json (session_cursor lib ?last)))"
      using valid[of ?last] True limit by (simp add: encode_session_list session_cursor_def)
    moreover have "keyset_tok lib rs (n + limit) = Some (Json_token (session_list_json (session_cursor lib ?last)))"
      using limit by (simp add: keyset_tok_def)
    ultimately show ?thesis
      unfolding eq using True data by (simp add: next_page_def paginateSessionListRows_def optional_token_def Let_def)
  next
    case False
    then show ?thesis
      unfolding eq by (simp add: next_page_def paginateSessionListRows_def optional_token_def Let_def)
  qed
qed

text \<open>Sessions are stored under their own ids, so no id occurs twice in a listing.\<close>

lemma stored_ids:
  assumes "store_ok s"
  shows "map (\<lambda>ss. sr_session_id (ss_record ss)) (js_values (st_sessions s)) = js_keys (st_sessions s)"
proof -
  have "sr_session_id (ss_record (snd kv)) = fst kv" if "kv \<in> set (st_sessions s)" for kv
  proof -
    have "js_get (st_sessions s) (fst kv) = Some (snd kv)"
      using that store_okD(5)[OF assms] by (intro js_in_get) (simp_all add: keys_ok_def)
    from store_okD(1)[OF assms this] show ?thesis by (simp add: session_ok_def)
  qed
  then show ?thesis by (simp add: js_values_def js_keys_def)
qed

lemma matching_distinct:
  assumes "store_ok s" shows "distinct (map sr_session_id (matching_sessions inp s))"
proof -
  let ?all = "map ss_record (js_values (st_sessions s))"
  have "distinct (map sr_session_id ?all)"
    using stored_ids[OF assms] store_okD(5)[OF assms] by (simp add: comp_def keys_ok_def)
  then have "distinct (map sr_session_id (filter (session_matches inp) ?all))" by (rule distinct_map_filter)
  moreover have "mset (map sr_session_id (matching_sessions inp s)) =
      mset (map sr_session_id (filter (session_matches inp) ?all))" by (simp add: matching_sessions_def)
  ultimately show ?thesis by (metis mset_eq_imp_distinct_iff)
qed

interpretation sessions: token_listing
  "\<lambda>(s, lib, inp) limit t. next_page (listSessions lib (inp\<lparr>lsi_limit := limit, lsi_page_token := t\<rparr>) s)"
  "\<lambda>(s, lib, inp). matching_sessions inp s"
  "\<lambda>(s, lib, inp). keyset_tok lib (matching_sessions inp s)"
  "\<lambda>(s, lib, inp). store_ok s \<and> iso_lib_ok lib \<and> (\<forall>r \<in> set (matching_sessions inp s). cursor_ok r)"
proof unfold_locales
  fix q :: "store \<times> iso_lib \<times> page_token list_sessions_input" and limit n :: nat
  obtain s lib inp where q: "q = (s, lib, inp)" by (cases q)
  assume a: "case q of (s, lib, inp) \<Rightarrow> store_ok s \<and> iso_lib_ok lib \<and>
      (\<forall>r \<in> set (matching_sessions inp s). cursor_ok r)"
    and l: "0 < limit" and n: "n = 0 \<or> n < length (case q of (s, lib, inp) \<Rightarrow> matching_sessions inp s)"
  let ?rs = "matching_sessions inp s"
  have ok: "store_ok s" "iso_lib_ok lib" "\<forall>r \<in> set ?rs. cursor_ok r" "n = 0 \<or> n < length ?rs"
    using a n q by simp_all
  have sorted: "sorted_wrt (\<lambda>a b. session_cmp (lsi_order inp) a b \<le> 0) ?rs"
    unfolding matching_sessions_def by (rule sorted_js_sort[OF session_cmp_comparator])
  from keyset_page[OF ok(2) sorted refl matching_distinct[OF ok(1)] ok(3) l ok(4)]
  show "(case q of (s, lib, inp) \<Rightarrow> \<lambda>limit t.
          next_page (listSessions lib (inp\<lparr>lsi_limit := limit, lsi_page_token := t\<rparr>) s)) limit
        ((case q of (s, lib, inp) \<Rightarrow> keyset_tok lib (matching_sessions inp s)) n) =
      Inr (take limit (drop n (case q of (s, lib, inp) \<Rightarrow> matching_sessions inp s)),
        if n + limit < length (case q of (s, lib, inp) \<Rightarrow> matching_sessions inp s)
        then (case q of (s, lib, inp) \<Rightarrow> keyset_tok lib (matching_sessions inp s)) (n + limit) else None)"
    by (simp add: q)
qed (auto simp: keyset_tok_def)

text \<open>
  Following the keyset tokens of \<open>listSessions\<close> on a fixed store reads exactly the sessions that
  match the filters, each of them once, ordered by update time with the session id as tie-break.
\<close>

theorem listSessions_pages:
  assumes "store_ok s" and "iso_lib_ok lib" and "0 < limit"
    and "\<forall>r \<in> set (matching_sessions inp s). cursor_ok r" and "length (st_sessions s) < fuel"
  shows "\<exists>out. collect_pages fuel
      (\<lambda>t. next_page (listSessions lib (inp\<lparr>lsi_limit := limit, lsi_page_token := t\<rparr>) s)) None = Some (Inr out) \<and>
    distinct (map sr_session_id out) \<and>
    set out = {r. (\<exists>i ss. session_at s i = Some ss \<and> ss_record ss = r) \<and> session_matches inp r} \<and>
    sorted_wrt (\<lambda>a b. session_cmp (lsi_order inp) a b \<le> 0) out"
proof -
  let ?rs = "matching_sessions inp s"
  have "length ?rs \<le> length (st_sessions s)"
    unfolding matching_sessions_def js_values_def length_js_sort by (metis length_filter_le length_map)
  then have "collect_pages fuel
      (\<lambda>t. next_page (listSessions lib (inp\<lparr>lsi_limit := limit, lsi_page_token := t\<rparr>) s)) None = Some (Inr ?rs)"
    using sessions.collect_all[of "(s, lib, inp)" limit fuel] assms by simp
  moreover have "v \<in> set (js_values (st_sessions s)) \<longleftrightarrow> (\<exists>i. session_at s i = Some v)" for v
    using store_okD(5)[OF assms(1)] js_get_value js_value_get unfolding keys_ok_def by metis
  then have "set ?rs = {r. (\<exists>i ss. session_at s i = Some ss \<and> ss_record ss = r) \<and> session_matches inp r}"
    by (auto simp: matching_sessions_def) blast
  moreover have "sorted_wrt (\<lambda>a b. session_cmp (lsi_order inp) a b \<le> 0) ?rs"
    unfolding matching_sessions_def by (rule sorted_js_sort[OF session_cmp_comparator])
  ultimately show ?thesis using matching_distinct[OF assms(1)] by blast
qed

section \<open>Concrete listings\<close>

definition demo_logged :: store where
  "demo_logged = fst (appendToEvents ''s1'' ''t1'' [demo_event ''b'', demo_event ''a''] demo_store)"

lemma demo_logged_ok: "store_ok demo_logged"
  unfolding demo_logged_def by (rule appendToEvents_ok[OF demo_ok])

lemma demo_logged_events:
  "events_at demo_logged (turnKey ''s1'' ''t1'') = Some [demo_event ''b'', demo_event ''a'']"
  by code_simp

lemma demo_logged_turn: "turn_at demo_logged (turnKey ''s1'' ''t1'') \<noteq> None"
  by code_simp

lemma listTurnEvents_pages_witness:
  "\<exists>out. collect_pages 3 (\<lambda>t. next_page (listTurnEvents ''s1'' ''t1'' 1 t None demo_logged)) None =
     Some (Inr out) \<and> mset out = {#demo_event ''a'', demo_event ''b''#}"
  using listTurnEvents_pages[OF demo_logged_turn demo_logged_events, of 1 3 None]
  by (auto simp: MAX_SAFE_INTEGER_def add_mset_commute)

lemma listTurns_pages_witness:
  "\<exists>out. collect_pages 2 (\<lambda>t. next_page (listTurns ''s1'' 1 t demo_logged)) None = Some (Inr out) \<and>
     map tr_turn_id out = [''t1'']"
proof -
  have "map_option ss_turn_ids (session_at demo_logged ''s1'') = Some [''t1'']" by code_simp
  then obtain ss where "session_at demo_logged ''s1'' = Some ss" "ss_turn_ids ss = [''t1'']" by auto
  with listTurns_pages[OF demo_logged_ok this(1), of 1 2] show ?thesis by (simp add: MAX_SAFE_INTEGER_def)
qed

lemma listSessionEvents_pages_witness:
  "collect_pages 3 (\<lambda>p. next_page (listSessionEvents ''s1'' 1 p (Some ''t1'') demo_logged)) None =
     Some (Inr [\<lparr>sei_turn_id = ''t1'', sei_event = demo_event ''b''\<rparr>,
                \<lparr>sei_turn_id = ''t1'', sei_event = demo_event ''a''\<rparr>])"
proof -
  obtain t where t: "turn_at demo_logged (turnKey ''s1'' ''t1'') = Some t" using demo_logged_turn by blast
  have "map_option (session_feed demo_logged ''s1'') (turn_at demo_logged (turnKey ''s1'' ''t1'')) =
      Some [\<lparr>sei_turn_id = ''t1'', sei_event = demo_event ''b''\<rparr>, \<lparr>sei_turn_id = ''t1'', sei_event = demo_event ''a''\<rparr>]"
    by code_simp
  moreover have "session_at demo_logged ''s1'' \<noteq> None" by code_simp
  ultimately show ?thesis
    using listSessionEvents_pages[OF _ t, of 1 3] t
    by (simp add: MAX_SAFE_INTEGER_def) (simp add: session_feed_def)
qed

text \<open>A library that prints a time as that many characters.\<close>

definition unary_iso :: iso_lib where
  "unary_iso = \<lparr>iso_text = (\<lambda>t. replicate (nat t) CHR ''1''), iso_time = (\<lambda>s. Some (int (length s))),
     iso_valid = (\<lambda>s. True)\<rparr>"

definition demo_list :: "page_token list_sessions_input" where
  "demo_list =
     \<lparr>lsi_tenant_id = ''acme'', lsi_limit = 1, lsi_page_token = None, lsi_order = None,
      lsi_start_timestamp = None, lsi_end_timestamp = None, lsi_agent_id = None,
      lsi_created_by_or_agent_ids = None, lsi_metadata = None, lsi_source_type = None, lsi_source_id = None\<rparr>"

lemma listSessions_pages_witness:
  "\<exists>out. collect_pages 2 (\<lambda>t. next_page (listSessions unary_iso
     (demo_list\<lparr>lsi_limit := 1, lsi_page_token := t\<rparr>) demo_logged)) None = Some (Inr out)"
proof -
  have "iso_lib_ok unary_iso" by (simp add: iso_lib_ok_def unary_iso_def)
  moreover have "list_all (\<lambda>r. 0 \<le> sr_updated_at r \<and> sr_updated_at r < END_OF_YEAR_9999 \<and> sr_session_id r \<noteq> '''')
      (matching_sessions demo_list demo_logged)" by code_simp
  then have "\<forall>r \<in> set (matching_sessions demo_list demo_logged). cursor_ok r"
    by (simp add: cursor_ok_def list_all_iff)
  moreover have "length (st_sessions demo_logged) < 2" by code_simp
  ultimately show ?thesis using listSessions_pages[OF demo_logged_ok, of unary_iso 1 demo_list 2] by auto
qed

end
