(* ===== verification/Session_Chain.thy ===== *)
theory Session_Chain
  imports Session_Contract "HOL-Library.Sublist"
begin

text \<open>
  Three facts that involve several rows of the store: the ancestor chain of a turn is complete although
  a turn may list only its most recent ancestors, deleting a session leaves no row of it behind, and the
  reads of a session never cross tenants.
\<close>

section \<open>The ancestor chain\<close>

text \<open>
  A branch of turns, oldest first, each of them stored and listing some window of its most recent
  ancestors: not all of them, but at least one unless it is the root.
\<close>

definition windowed_path :: "store \<Rightarrow> string \<Rightarrow> string list \<Rightarrow> bool" where
  "windowed_path s sid path =
     (\<forall>pre i post. path = pre @ i # post \<longrightarrow> i \<noteq> '''' \<and>
        (\<exists>t. turn_at s (turnKey sid i) = Some t \<and> tr_turn_id t = i \<and>
           suffix (tr_ancestor_ids t) pre \<and> (pre \<noteq> [] \<longrightarrow> tr_ancestor_ids t \<noteq> [])))"

lemma ancestor_walk_complete:
  assumes wp: "windowed_path s sid path" and dist: "distinct path"
    and "path = pre @ chain" and "chain \<noteq> []" and "set seen = set chain"
    and "hd chain = anchor \<longrightarrow> pre = []" and "anchor \<in> set chain"
  shows "ancestor_walk s sid anchor chain seen (hd chain) = path"
  using assms(3-7)
proof (induction "length pre" arbitrary: pre chain seen rule: less_induct)
  case less
  obtain i rest where chain: "chain = i # rest" using less.prems(2) by (cases chain) auto
  obtain t where t: "i \<noteq> ''''" "turn_at s (turnKey sid i) = Some t" "suffix (tr_ancestor_ids t) pre"
    "pre \<noteq> [] \<longrightarrow> tr_ancestor_ids t \<noteq> []"
    using wp less.prems(1) chain unfolding windowed_path_def by blast
  show ?case
  proof (cases "i = anchor")
    case True
    then have "ancestor_walk s sid anchor chain seen (hd chain) = chain"
      using chain by (subst ancestor_walk.simps) simp
    then show ?thesis using True less.prems(1,4) chain by simp
  next
    case False
    obtain front where front: "pre = front @ tr_ancestor_ids t" using t(3) by (auto simp: suffix_def)
    have disj: "set pre \<inter> set chain = {}" using dist less.prems(1) by auto
    then have older: "filter (\<lambda>j. j \<notin> set seen) (tr_ancestor_ids t) = tr_ancestor_ids t"
      using front less.prems(3) disj by (intro filter_True) auto
    show ?thesis
    proof (cases "tr_ancestor_ids t = []")
      case True
      then have "pre = []" using t(4) by blast
      moreover have "ancestor_walk s sid anchor chain seen (hd chain) = chain"
        using chain t True False by (subst ancestor_walk.simps) (simp add: older)
      ultimately show ?thesis using less.prems(1) by simp
    next
      case ne: False
      let ?chain = "tr_ancestor_ids t @ chain"
      let ?seen = "fold js_add (tr_ancestor_ids t) seen"
      have "ancestor_walk s sid anchor chain seen (hd chain) =
          ancestor_walk s sid anchor ?chain ?seen (hd (tr_ancestor_ids t))"
        using chain t ne False by (subst ancestor_walk.simps) (simp add: older Let_def)
      also have "hd (tr_ancestor_ids t) = hd ?chain" using ne by simp
      also have "ancestor_walk s sid anchor ?chain ?seen (hd ?chain) = path"
      proof (rule less.hyps[of front])
        show "length front < length pre" using front ne by simp
        show "path = front @ ?chain" using less.prems(1) front by simp
        show "set ?seen = set ?chain" using less.prems(3) by auto
        show "hd ?chain = anchor \<longrightarrow> front = []"
        proof
          assume "hd ?chain = anchor"
          then have "anchor \<in> set pre" using ne front by (cases "tr_ancestor_ids t") auto
          with disj less.prems(5) show "front = []" by blast
        qed
        show "anchor \<in> set ?chain" using less.prems(5) by simp
      qed (use ne in simp)
      finally show ?thesis .
    qed
  qed
qed

text \<open>
  \<open>resolveAncestorChain\<close> finds the whole branch of a turn, from the root to the turn itself and in
  order, even when each turn of the branch records only a window of its ancestors.
\<close>

theorem ancestor_chain_complete:
  assumes "windowed_path s sid (pre @ [tr_turn_id anchor])" and "distinct (pre @ [tr_turn_id anchor])"
    and "turn_at s (turnKey sid (tr_turn_id anchor)) = Some anchor"
  shows "resolveAncestorChain s sid anchor = pre @ [tr_turn_id anchor]"
proof -
  let ?chain = "tr_ancestor_ids anchor @ [tr_turn_id anchor]"
  obtain t where "turn_at s (turnKey sid (tr_turn_id anchor)) = Some t" "suffix (tr_ancestor_ids t) pre"
    "pre \<noteq> [] \<longrightarrow> tr_ancestor_ids t \<noteq> []"
    using assms(1) unfolding windowed_path_def by blast
  with assms(3) have anc: "suffix (tr_ancestor_ids anchor) pre" "pre \<noteq> [] \<longrightarrow> tr_ancestor_ids anchor \<noteq> []"
    by simp_all
  then obtain front where front: "pre = front @ tr_ancestor_ids anchor" by (auto simp: suffix_def)
  have "hd ?chain = tr_turn_id anchor \<longrightarrow> front = []"
    using assms(2) anc front by (cases "tr_ancestor_ids anchor") auto
  then have "ancestor_walk s sid (tr_turn_id anchor) ?chain (js_set_of ?chain) (hd ?chain) =
      pre @ [tr_turn_id anchor]"
    using front by (intro ancestor_walk_complete[OF assms(1,2), of front]) simp_all
  then show ?thesis by (simp add: resolveAncestorChain_def)
qed

section \<open>Deleting a session\<close>

text \<open>
  After \<open>deleteSession\<close> by its tenant a session is gone with every turn, event log and inbox of it,
  and no row of another session changed.
\<close>

theorem deleteSession_removes_all:
  assumes "store_ok s" and "getSession tenant sid s \<noteq> None"
  defines "s' \<equiv> fst (deleteSession tenant sid s)"
  shows "getSession tenant sid s' = None \<and>
    (\<forall>tid. turn_at s' (turnKey sid tid) = None \<and> events_at s' (turnKey sid tid) = None \<and>
       inbound_at s' (turnKey sid tid) = None) \<and>
    (\<forall>i tid. i \<noteq> sid \<and> colon_free i \<longrightarrow> session_at s' i = session_at s i \<and>
       turn_at s' (turnKey i tid) = turn_at s (turnKey i tid) \<and>
       events_at s' (turnKey i tid) = events_at s (turnKey i tid) \<and>
       inbound_at s' (turnKey i tid) = inbound_at s (turnKey i tid))"
proof -
  obtain ss where ss: "session_at s sid = Some ss" "sr_tenant_id (ss_record ss) = tenant"
    using assms(2) by (auto simp: getSession_def split: option.splits if_splits)
  let ?K = "turnKey sid ` set (ss_turn_ids ss)"
  have rows: "session_at s' i = (if i = sid then None else session_at s i)"
    "turn_at s' k = (if k \<in> ?K then None else turn_at s k)"
    "events_at s' k = (if k \<in> ?K then None else events_at s k)"
    "inbound_at s' k = (if k \<in> ?K then None else inbound_at s k)" for i k
    using ss by (simp_all add: s'_def deleteSession_def Let_def delete_turn_rows_fields jsm.fold_remove)
  have sok: "session_ok s sid ss" using assms(1) ss(1) by (rule store_okD(1))
  then have cf: "colon_free sid" by (simp add: session_ok_def)
  have own: "turn_at s (turnKey sid tid) = None" if "turnKey sid tid \<notin> ?K" for tid
  proof (rule ccontr)
    assume "turn_at s (turnKey sid tid) \<noteq> None"
    then obtain t where "turn_at s (turnKey sid tid) = Some t" by blast
    from turn_at_names[OF assms(1) cf this] ss(1) have "tid \<in> set (ss_turn_ids ss)" by auto
    with that show False by blast
  qed
  have logs: "turn_at s k = None \<Longrightarrow> events_at s k = None \<and> inbound_at s k = None" for k
    using store_okD(4)[OF assms(1)] unfolding logs_ok_def js_has_def by (metis not_None_eq)
  have other: "turnKey i tid \<notin> ?K" if "i \<noteq> sid" "colon_free i" for i tid
    using that cf by (auto simp: turnKey_inj)
  show ?thesis using own logs other by (auto simp: rows getSession_def)
qed

section \<open>Tenants\<close>

lemma page_subset:
  "paginateSessionListRows lib xs limit cur = Inr (rs, pg) \<Longrightarrow> set rs \<subseteq> set xs"
  by (auto simp: paginateSessionListRows_def bindE_Inr_iff Let_def split: if_splits dest: in_set_takeD)

text \<open>Every session a tenant reads, by id, by external id or in a listing, is its own.\<close>

theorem session_reads_in_tenant:
  "(\<forall>r. getSession tenant sid s = Some r \<longrightarrow> sr_tenant_id r = tenant) \<and>
   (\<forall>r. getSessionByExternalId tenant ext s = Some r \<longrightarrow> sr_tenant_id r = tenant) \<and>
   (\<forall>i \<in> set (getOwnedIds tenant ids subject s). \<exists>ss \<in> set (js_values (st_sessions s)).
      sr_session_id (ss_record ss) = i \<and> sr_tenant_id (ss_record ss) = tenant) \<and>
   (\<forall>rs pg. listSessions lib inp s = Inr (rs, pg) \<longrightarrow> (\<forall>r \<in> set rs. sr_tenant_id r = lsi_tenant_id inp))"
proof (intro conjI allI impI ballI)
  fix rs pg r
  assume l: "listSessions lib inp s = Inr (rs, pg)" and r: "r \<in> set rs"
  from l obtain c where "paginateSessionListRows lib (case c of None \<Rightarrow> matching_sessions inp s
      | Some cu \<Rightarrow> filter (beyond_cursor lib (lsi_order inp) cu) (matching_sessions inp s))
      (lsi_limit inp) (session_cursor lib) = Inr (rs, pg)"
    unfolding listSessions_def Let_def by (elim bindE_InrE) blast
  from page_subset[OF this] r have "r \<in> set (matching_sessions inp s)" by (auto split: option.splits)
  then show "sr_tenant_id r = lsi_tenant_id inp" by (simp add: matching_sessions_def session_matches_def)
qed (auto simp: getSession_def getSessionByExternalId_def getOwnedIds_def find_Some_iff split: option.splits if_splits)

section \<open>Concrete branch\<close>

definition demo_chain_row :: "string \<Rightarrow> string list \<Rightarrow> turn_row" where
  "demo_chain_row i anc =
     demo_row\<lparr>tr_turn_id := i, tr_ancestor_ids := anc,
       tr_previous_turn_id := (if anc = [] then None else Some (last anc))\<rparr>"

text \<open>Three turns, each recording its direct ancestor only.\<close>

definition demo_branch :: store where
  "demo_branch =
     \<lparr>st_sessions = [],
      st_turns = map (\<lambda>(i, anc). (turnKey ''s1'' i,
        with_snapshot (demo_chain_row i anc) \<lparr>sn_threads = [], sn_mcp_servers = None, sn_sandbox_info = None\<rparr>))
        [(''t1'', []), (''t2'', [''t1'']), (''t3'', [''t2''])],
      st_events = [], st_inbound = []\<rparr>"

lemma demo_branch_turns:
  "turn_at demo_branch (turnKey ''s1'' i) =
     (if i \<in> {''t1'', ''t2'', ''t3''}
      then Some (with_snapshot (demo_chain_row i (if i = ''t1'' then [] else if i = ''t2'' then [''t1''] else [''t2'']))
             \<lparr>sn_threads = [], sn_mcp_servers = None, sn_sandbox_info = None\<rparr>)
      else None)"
  by (auto simp: demo_branch_def js_get_def turnKey_def)

lemma demo_branch_windowed: "windowed_path demo_branch ''s1'' [''t1'', ''t2'', ''t3'']"
  unfolding windowed_path_def demo_branch_turns
  by (auto simp: Cons_eq_append_conv demo_chain_row_def demo_row_def suffix_def)

lemma ancestor_chain_complete_witness:
  "map_option (resolveAncestorChain demo_branch ''s1'') (turn_at demo_branch (turnKey ''s1'' ''t3'')) =
     Some [''t1'', ''t2'', ''t3'']"
proof -
  obtain a where a: "turn_at demo_branch (turnKey ''s1'' ''t3'') = Some a" "tr_turn_id a = ''t3''"
    by (simp add: demo_branch_turns demo_chain_row_def)
  then show ?thesis
    using ancestor_chain_complete[of demo_branch "''s1''" "[''t1'', ''t2'']" a] demo_branch_windowed by simp
qed

lemma deleteSession_removes_all_witness:
  "turn_at (fst (deleteSession ''acme'' ''s1'' demo_store)) (turnKey ''s1'' ''t1'') = None"
proof -
  have "getSession ''acme'' ''s1'' demo_store \<noteq> None" by code_simp
  with deleteSession_removes_all[OF demo_ok this] show ?thesis by blast
qed

lemma session_reads_in_tenant_witness:
  "\<exists>r. getSession ''acme'' ''s1'' demo_store = Some r \<and> sr_tenant_id r = ''acme''"
proof -
  have "getSession ''acme'' ''s1'' demo_store \<noteq> None" by code_simp
  then show ?thesis using session_reads_in_tenant[of "''acme''" "''s1''" demo_store] by blast
qed

end
