(* ===== verification/Session_Isolation.thy ===== *)
theory Session_Isolation
  imports Session_Contract
begin

text \<open>
  Sessions do not interfere: what the store keeps of one session, and so everything that is read of it, is changed by no
  operation on another session and by no request of another tenant.
\<close>

section \<open>The operations on a session\<close>

text \<open>The writing operations that name the session \<open>j\<close>; session ids are minted without a colon.\<close>

inductive session_step :: "string \<Rightarrow> store \<Rightarrow> store \<Rightarrow> bool" where
  ss_create: "session_step (csi_session_id csi) s (fst (createSession clk csi s))"
| ss_update: "session_step (usi_session_id usi) s (fst (updateSession clk usi s))"
| ss_delete: "session_step j s (fst (deleteSession tenant j s))"
| ss_createTurn: "session_step (tr_session_id (cti_turn cti)) s (fst (createTurn clk cti s))"
| ss_freeze: "session_step j s (fst (freezeAndGetTurn clk j tid reason ev s))"
| ss_nonterminal: "session_step j s (fst (updateTurnNonTerminalState clk j tid nst ev s))"
| ss_terminal: "session_step j s (fst (updateTurnTerminalState clk j tid tst ev s))"
| ss_events: "session_step j s (fst (appendToEvents j tid evs s))"
| ss_inbound: "session_step j s (fst (insertTurnInboundEvents j tid ins s))"
| ss_addThreads: "session_step j s (fst (addThreads clk j tid ths s))"
| ss_removeThreads: "session_step j s (fst (removeThreads clk j tid ids s))"
| ss_appendContext: "session_step j s (fst (appendToThreadContext clk j tid a s))"
| ss_overwriteContext: "session_step j s (fst (overwriteThreadContext clk j tid ov s))"
| ss_mcp: "session_step j s (fst (patchMCPServers clk j tid servers s))"
| ss_sandbox: "session_step j s (fst (patchSandboxInfo clk j tid info s))"
| ss_capability: "session_step j s (fst (patchThreadCapabilityState clk j tid th key v s))"

lemma store_step_session: "store_step s s' \<Longrightarrow> \<exists>j. session_step j s s'"
  by (induction rule: store_step.induct) (blast intro: session_step.intros)+

text \<open>A foreign step for a session of a tenant: on another session, or a request of another tenant, also one that names it.\<close>

inductive foreign_step :: "string \<Rightarrow> string \<Rightarrow> store \<Rightarrow> store \<Rightarrow> bool" for owner i where
  foreign_session: "session_step j s s' \<Longrightarrow> j \<noteq> i \<Longrightarrow> colon_free j \<Longrightarrow> foreign_step owner i s s'"
| foreign_create: "colon_free (csi_session_id csi) \<Longrightarrow> foreign_step owner i s (fst (createSession clk csi s))"
| foreign_update: "usi_tenant_id usi \<noteq> owner \<Longrightarrow> foreign_step owner i s (fst (updateSession clk usi s))"
| foreign_delete: "tenant \<noteq> owner \<Longrightarrow> colon_free j \<Longrightarrow> foreign_step owner i s (fst (deleteSession tenant j s))"

section \<open>What a session is\<close>

definition same_session :: "string \<Rightarrow> store \<Rightarrow> store \<Rightarrow> bool" where
  "same_session i s s' \<longleftrightarrow> session_at s' i = session_at s i \<and>
     (\<forall>tid. turn_at s' (turnKey i tid) = turn_at s (turnKey i tid) \<and> events_at s' (turnKey i tid) = events_at s (turnKey i tid) \<and>
        inbound_at s' (turnKey i tid) = inbound_at s (turnKey i tid))"

lemma same_session_refl [simp]: "same_session i s s"
  by (simp add: same_session_def)

lemma same_session_trans: "same_session i s t \<Longrightarrow> same_session i t u \<Longrightarrow> same_session i s u"
  by (simp add: same_session_def)

text \<open>Two session ids that share no key.\<close>

definition apart :: "string \<Rightarrow> string \<Rightarrow> bool" where
  "apart i j \<longleftrightarrow> j \<noteq> i \<and> colon_free i \<and> colon_free j"

lemma apart_keys [simp]:
  "apart i j \<Longrightarrow> turnKey j t \<noteq> turnKey i t'" "apart i j \<Longrightarrow> turnKey i t' \<noteq> turnKey j t" "apart i j \<Longrightarrow> i \<noteq> j"
  by (auto simp: apart_def turnKey_inj)

lemma puts_same [simp]:
  assumes "apart i j"
  shows "same_session i s (put_session j x u) = same_session i s u"
    "same_session i s (put_turn (turnKey j t) y u) = same_session i s u"
    "same_session i s (put_events (turnKey j t) es u) = same_session i s u"
  using assms by (simp_all add: same_session_def)

lemma running_same: "apart i j \<Longrightarrow> same_session i s (fst (on_running_turn clk j tid f s))"
  by (simp add: on_running_turn_def split: sum.split prod.split)

lemma rollup_same: "apart i j \<Longrightarrow> same_session i s (fst (applyTurnStateToSession j tid c st u)) = same_session i s u"
  by (simp add: applyTurnStateToSession_def Let_def sessionKey_def split: sum.split option.split)

lemma write_same: "apart i j \<Longrightarrow> same_session i s (fst (write_turn_state clk j tid t st ev s))"
  by (simp add: write_turn_state_def Let_def rollup_same split: sum.split) (simp add: same_session_def)

lemma patches_same:
  assumes "apart i j"
  shows "same_session i s (fst (addThreads clk j tid ths s))" "same_session i s (fst (removeThreads clk j tid ids s))"
  "same_session i s (fst (appendToThreadContext clk j tid a s))" "same_session i s (fst (overwriteThreadContext clk j tid ov s))"
  "same_session i s (fst (patchMCPServers clk j tid servers s))" "same_session i s (fst (patchSandboxInfo clk j tid info s))"
  "same_session i s (fst (patchThreadCapabilityState clk j tid th key v s))"
  using assms
  by (simp_all add: addThreads_def removeThreads_def appendToThreadContext_def overwriteThreadContext_def patchMCPServers_def
      patchSandboxInfo_def patchThreadCapabilityState_def running_same)

lemma turn_writes_same:
  assumes "apart i j"
  shows "same_session i s (fst (updateTurnNonTerminalState clk j tid nst ev s))"
  "same_session i s (fst (updateTurnTerminalState clk j tid tst ev s))"
  "same_session i s (fst (freezeAndGetTurn clk j tid reason ev s))"
  "same_session i s (fst (appendToEvents j tid evs s))"
  "same_session i s (fst (insertTurnInboundEvents j tid ins s))"
proof -
  show "same_session i s (fst (freezeAndGetTurn clk j tid reason ev s))"
    using assms by (simp add: freeze_fst rollup_same Let_def split: option.split) (simp add: same_session_def)
  show "same_session i s (fst (insertTurnInboundEvents j tid ins s))"
    using assms by (simp add: insertTurnInboundEvents_def Let_def same_session_def split: sum.split option.split)
qed (use assms in \<open>simp_all add: updateTurnNonTerminalState_def updateTurnTerminalState_def write_same appendToEvents_def
      split: sum.split\<close>)

lemma delete_same:
  assumes "apart i j"
  shows "same_session i s (fst (deleteSession tenant j s))"
proof -
  have "turnKey i tid \<notin> turnKey j ` A" "i \<noteq> j" for tid A using assms by (auto dest: apart_keys(2))
  then show ?thesis
    by (simp add: deleteSession_def Let_def same_session_def sessionKey_def delete_turn_rows_fields jsm.fold_remove split: option.split)
qed

lemma session_step_frame:
  assumes "session_step j s s'" "j \<noteq> i" "colon_free i" "colon_free j"
  shows "same_session i s s'"
proof -
  have ap: "apart i j" using assms(2-4) by (simp add: apart_def)
  from assms(1) show ?thesis
  proof cases
    case (ss_create csi clk)
    then show ?thesis using ap by (simp add: createSession_def Let_def sessionKey_def)
  next
    case (ss_update usi clk)
    then show ?thesis using ap by (simp add: updateSession_def sessionKey_def split: option.split)
  next
    case (ss_createTurn cti clk)
    then show ?thesis using ap
      by (simp add: createTurn_def Let_def sessionKey_def split: sum.split prod.split) (simp add: same_session_def)
  qed (use ap in \<open>simp_all add: patches_same turn_writes_same delete_same\<close>)
qed

lemma foreign_step_frame:
  assumes "foreign_step owner i s s'" "colon_free i" "session_at s i = Some ss" "sr_tenant_id (ss_record ss) = owner"
  shows "same_session i s s'"
  using assms(1)
proof cases
  case (foreign_session j)
  then show ?thesis using session_step_frame assms(2) by blast
next
  case (foreign_create csi clk)
  show ?thesis
  proof (cases "csi_session_id csi = i")
    case True
    then have "js_has (st_sessions s) i" using assms(3) by (simp add: js_has_def)
    then show ?thesis using foreign_create True by (simp add: createSession_def sessionKey_def)
  next
    case False
    then show ?thesis using foreign_create session_step_frame[OF ss_create] assms(2) by blast
  qed
next
  case (foreign_update usi clk)
  show ?thesis
  proof (cases "usi_session_id usi = i")
    case True
    then show ?thesis using foreign_update assms(3,4) by (simp add: updateSession_def sessionKey_def)
  next
    case False
    then show ?thesis using foreign_update by (auto simp: updateSession_def sessionKey_def same_session_def split: option.split)
  qed
next
  case (foreign_delete tenant j)
  then show ?thesis using assms(2-4) session_step_frame[OF ss_delete, of j i s tenant]
    by (cases "j = i") (simp_all add: deleteSession_def sessionKey_def)
qed

section \<open>What is read of a session\<close>

lemma walk_same:
  assumes "same_session i s s'"
  shows "ancestor_walk s' i anchor chain seen oldest = ancestor_walk s i anchor chain seen oldest"
  using assms
proof (induction s i anchor chain seen oldest rule: ancestor_walk.induct)
  case (1 s i anchor chain seen oldest)
  show ?case
  proof (cases "oldest = '''' \<or> oldest = anchor")
    case False
    have same: "turn_at s' (turnKey i oldest) = turn_at s (turnKey i oldest)" using 1(2) by (simp add: same_session_def)
    show ?thesis
    proof (cases "turn_at s (turnKey i oldest)")
      case (Some t)
      then show ?thesis using same 1(1)[OF False Some refl] 1(2)
        by (subst (1 2) ancestor_walk.simps) (simp add: Let_def)
    qed (use same in \<open>simp add: ancestor_walk.simps\<close>)
  qed (simp add: ancestor_walk.simps)
qed

lemma reads_same:
  assumes "same_session i s s'"
  shows "getSession tenant i s' = getSession tenant i s" "getTurn i tid s' = getTurn i tid s" "listTurns i limit token s' = listTurns i limit token s"
    "listTurnEvents i tid limit token order s' = listTurnEvents i tid limit token order s"
    "listSessionEvents i limit token lt s' = listSessionEvents i limit token lt s"
proof -
  have rows: "session_at s' i = session_at s i" "turn_at s' (turnKey i t) = turn_at s (turnKey i t)"
    "events_at s' (turnKey i t) = events_at s (turnKey i t)" for t
    using assms by (simp_all add: same_session_def)
  have req: "requireSession s' i = requireSession s i" "requireTurn s' i t = requireTurn s i t" "requireEvents s' i t = requireEvents s i t" for t
    by (simp_all add: requireSession_def requireTurn_def requireEvents_def sessionKey_def rows)
  show "getSession tenant i s' = getSession tenant i s" by (simp add: getSession_def sessionKey_def rows)
  show "getTurn i tid s' = getTurn i tid s" by (simp add: getTurn_def rows)
  show "listTurns i limit token s' = listTurns i limit token s" by (simp add: listTurns_def req)
  show "listTurnEvents i tid limit token order s' = listTurnEvents i tid limit token order s"
    by (simp add: listTurnEvents_def req)
  have feed: "session_feed s' i anchor = session_feed s i anchor" for anchor
    by (simp add: session_feed_def resolveAncestorChain_def Let_def walk_same[OF assms] turn_feed_def[abs_def] rows)
  show "listSessionEvents i limit token lt s' = listSessionEvents i limit token lt s"
    unfolding listSessionEvents_def req feed by (rule refl)
qed

section \<open>Isolation\<close>

text \<open>
  C22. A session is isolated: whatever others do, its tenant reads of it what it read before. After any number of operations on
  other sessions, of any tenant (creating, updating and deleting sessions, creating, freezing, pausing and ending turns, logging
  events, inbound events, every patch of a turn), and of requests of other tenants that name the session itself,
  its record, turns, event logs, inboxes and event feed are the same, and no other tenant can read the record. Every
  writing operation of the store is one of these for some session.
\<close>

theorem tenant_isolation:
  assumes "(foreign_step owner i)\<^sup>*\<^sup>* s s'" and "colon_free i" and "getSession owner i s = Some r"
  shows "getSession owner i s' = Some r \<and> (\<forall>tenant. tenant \<noteq> owner \<longrightarrow> getSession tenant i s' = None) \<and>
    (\<forall>tid. getTurn i tid s' = getTurn i tid s \<and> events_at s' (turnKey i tid) = events_at s (turnKey i tid) \<and>
       inbound_at s' (turnKey i tid) = inbound_at s (turnKey i tid)) \<and>
    (\<forall>limit token. listTurns i limit token s' = listTurns i limit token s) \<and>
    (\<forall>tid limit token order. listTurnEvents i tid limit token order s' = listTurnEvents i tid limit token order s) \<and>
    (\<forall>limit token t. listSessionEvents i limit token t s' = listSessionEvents i limit token t s) \<and>
    (\<forall>u u'. store_step u u' \<longrightarrow> (\<exists>j. session_step j u u'))"
proof -
  obtain ss where ss: "session_at s i = Some ss" "sr_tenant_id (ss_record ss) = owner"
    using assms(3) by (auto simp: getSession_def sessionKey_def split: option.splits if_splits)
  from assms(1) have same: "same_session i s s'"
  proof (induction rule: rtranclp_induct)
    case (step t u)
    then have "session_at t i = Some ss" using ss(1) by (simp add: same_session_def)
    then show ?case using foreign_step_frame[OF step(2) assms(2) _ ss(2)] step(3) same_session_trans by blast
  qed simp
  have "getSession tenant i s' = None" if "tenant \<noteq> owner" for tenant
    using that ss same by (simp add: getSession_def sessionKey_def same_session_def)
  then show ?thesis using reads_same[OF same] assms(3) same store_step_session by (simp add: same_session_def)
qed

text \<open>Another tenant creates a session and then tries to delete the one that is there.\<close>

definition demo_intruder :: create_session_input where
  "demo_intruder = demo_session\<lparr>csi_tenant_id := ''other'', csi_session_id := ''s2'', csi_external_id := None\<rparr>"

lemma tenant_isolation_witness:
  "\<exists>r. getSession ''acme'' ''s1'' (fst (deleteSession ''other'' ''s1'' (fst (createSession demo_clock demo_intruder demo_store)))) = Some r \<and>
     getSession ''other'' ''s2'' (fst (deleteSession ''other'' ''s1'' (fst (createSession demo_clock demo_intruder demo_store)))) \<noteq> None"
proof -
  let ?s = "fst (createSession demo_clock demo_intruder demo_store)"
  let ?s' = "fst (deleteSession ''other'' ''s1'' ?s)"
  have "getSession ''acme'' ''s1'' demo_store \<noteq> None" by code_simp
  then obtain r where r: "getSession ''acme'' ''s1'' demo_store = Some r" by blast
  have "foreign_step ''acme'' ''s1'' demo_store ?s"
    by (rule foreign_create) (simp add: demo_intruder_def colon_free_def)
  moreover have "foreign_step ''acme'' ''s1'' ?s ?s'" by (rule foreign_delete) (simp_all add: colon_free_def)
  ultimately have "(foreign_step ''acme'' ''s1'')\<^sup>*\<^sup>* demo_store ?s'" by (blast intro: converse_rtranclp_into_rtranclp)
  from tenant_isolation[OF this _ r] have "getSession ''acme'' ''s1'' ?s' = Some r" by (simp add: colon_free_def)
  moreover have "getSession ''other'' ''s2'' ?s' \<noteq> None" by code_simp
  ultimately show ?thesis by blast
qed

end
