(* ===== verification/Session_Metrics.thy ===== *)
theory Session_Metrics
  imports Session_Contract
begin

text \<open>
  Conservation of cost and duration: in every reachable store the metrics of a session are the sums over
  its turns. A turn weighs nothing while it is live, and its weight is folded into the session by the one
  call that ends it, so no cost is lost or counted twice.
\<close>

definition turn_spend :: "turn_record \<Rightarrow> rat" where
  "turn_spend t = (case turn_cost (tr_state t) of None \<Rightarrow> 0 | Some c \<Rightarrow> c)"

definition turn_time :: "turn_record \<Rightarrow> int" where
  "turn_time t = elapsed_ms (tr_state t) (tr_created_at t)"

definition weight_at :: "(turn_record \<Rightarrow> 'a::comm_monoid_add) \<Rightarrow> store \<Rightarrow> string \<Rightarrow> 'a" where
  "weight_at f s k = (case turn_at s k of None \<Rightarrow> 0 | Some t \<Rightarrow> f t)"

definition session_total ::
    "(turn_record \<Rightarrow> 'a::comm_monoid_add) \<Rightarrow> store \<Rightarrow> string \<Rightarrow> stored_session \<Rightarrow> 'a" where
  "session_total f s sid ss = (\<Sum>tid \<in> set (ss_turn_ids ss). weight_at f s (turnKey sid tid))"

definition total_cost :: "session_record \<Rightarrow> rat" where
  "total_cost r = (case sm_total_cost_in_usd (sr_metrics r) of None \<Rightarrow> 0 | Some c \<Rightarrow> c)"

definition session_sums :: "store \<Rightarrow> string \<Rightarrow> stored_session \<Rightarrow> bool" where
  "session_sums s sid ss \<longleftrightarrow>
     total_cost (ss_record ss) = session_total turn_spend s sid ss \<and>
     sm_total_duration_ms (sr_metrics (ss_record ss)) = session_total turn_time s sid ss"

definition metrics_ok :: "store \<Rightarrow> bool" where
  "metrics_ok s = (\<forall>sid ss. session_at s sid = Some ss \<longrightarrow> session_sums s sid ss)"

lemma live_weighs_nothing:
  assumes "isNonTerminalTurnState (tr_state t)"
  shows "turn_spend t = 0" and "turn_time t = 0"
  using assms by (cases "tr_state t"; simp add: turn_spend_def turn_time_def turn_cost_def elapsed_ms_def)+

lemma sums_cong:
  assumes "ss_turn_ids ss' = ss_turn_ids ss" and "sr_metrics (ss_record ss') = sr_metrics (ss_record ss)"
    and "\<And>tid. tid \<in> set (ss_turn_ids ss) \<Longrightarrow>
      map_option (\<lambda>t. (tr_state t, tr_created_at t)) (turn_at s' (turnKey sid tid)) =
      map_option (\<lambda>t. (tr_state t, tr_created_at t)) (turn_at s (turnKey sid tid))"
  shows "session_sums s' sid ss' = session_sums s sid ss"
proof -
  have "weight_at turn_spend s' (turnKey sid tid) = weight_at turn_spend s (turnKey sid tid) \<and>
      weight_at turn_time s' (turnKey sid tid) = weight_at turn_time s (turnKey sid tid)"
    if "tid \<in> set (ss_turn_ids ss)" for tid
    using assms(3)[OF that] by (auto simp: weight_at_def turn_spend_def turn_time_def split: option.splits)
  then show ?thesis
    using assms(1,2) by (simp add: session_sums_def session_total_def total_cost_def)
qed

text \<open>A step that keeps the sessions' metrics and turn lists, and each turn's state.\<close>

lemma metrics_ok_same:
  assumes "metrics_ok s"
    and "\<And>sid. map_option (\<lambda>ss. (ss_turn_ids ss, sr_metrics (ss_record ss))) (session_at s' sid) =
      map_option (\<lambda>ss. (ss_turn_ids ss, sr_metrics (ss_record ss))) (session_at s sid)"
    and "\<And>k. map_option (\<lambda>t. (tr_state t, tr_created_at t)) (turn_at s' k) =
      map_option (\<lambda>t. (tr_state t, tr_created_at t)) (turn_at s k)"
  shows "metrics_ok s'"
  unfolding metrics_ok_def
proof (intro allI impI)
  fix sid ss' assume ss': "session_at s' sid = Some ss'"
  then obtain ss where ss: "session_at s sid = Some ss" "ss_turn_ids ss' = ss_turn_ids ss"
    "sr_metrics (ss_record ss') = sr_metrics (ss_record ss)"
    using assms(2)[of sid] by (cases "session_at s sid") auto
  have "session_sums s' sid ss' = session_sums s sid ss" by (rule sums_cong[OF ss(2,3) assms(3)])
  then show "session_sums s' sid ss'" using assms(1) ss(1) by (simp add: metrics_ok_def)
qed

lemma rolled_up_totals:
  assumes "\<not> isNonTerminalTurnState st"
  shows "total_cost (rolled_up tid c st r) = total_cost r + (case turn_cost st of None \<Rightarrow> 0 | Some x \<Rightarrow> x)"
    and "sm_total_duration_ms (sr_metrics (rolled_up tid c st r)) =
      sm_total_duration_ms (sr_metrics r) + elapsed_ms st c"
  using assms
  by (auto simp: rolled_up_def Let_def fold_turn_metrics_def total_cost_def split: option.splits)

lemma rolled_up_live:
  "isNonTerminalTurnState st \<Longrightarrow> sr_metrics (rolled_up tid c st r) = sr_metrics r"
  by (simp add: rolled_up_def Let_def)

lemma sum_one_more:
  assumes "finite A" and "x \<in> A" and "f x = (0::'a::comm_monoid_add)" and "\<And>y. y \<in> A \<Longrightarrow> y \<noteq> x \<Longrightarrow> g y = f y"
  shows "sum g A = sum f A + g x"
proof -
  have "sum g A = g x + sum g (A - {x})" using assms(1,2) by (rule sum.remove)
  also have "sum g (A - {x}) = sum f (A - {x})" using assms(4) by (intro sum.cong) auto
  also have "sum f A = f x + sum f (A - {x})" using assms(1,2) by (rule sum.remove)
  ultimately show ?thesis using assms(3) by (simp add: add.commute)
qed

text \<open>The write of a state to a live turn together with its roll-up.\<close>

lemma metrics_ok_state_write:
  assumes ok: "store_ok s" and m: "metrics_ok s" and cf: "colon_free sid"
    and t: "turn_at s (turnKey sid tid) = Some t" and live: "isNonTerminalTurnState (tr_state t)"
    and ses: "session_at s sid = Some ss"
    and s': "s' = put_session sid (ss\<lparr>ss_record := rolled_up tid (tr_created_at t) st (ss_record ss)\<rparr>)
      (put_events (turnKey sid tid) es (put_turn (turnKey sid tid) (t\<lparr>tr_state := st, tr_updated_at := u\<rparr>) s))"
  shows "metrics_ok s'"
  unfolding metrics_ok_def
proof (intro allI impI)
  fix i x assume x: "session_at s' i = Some x"
  let ?t = "t\<lparr>tr_state := st, tr_updated_at := u\<rparr>"
  let ?ss = "ss\<lparr>ss_record := rolled_up tid (tr_created_at t) st (ss_record ss)\<rparr>"
  have trn: "turn_at s' k = (if k = turnKey sid tid then Some ?t else turn_at s k)" for k by (simp add: s')
  show "session_sums s' i x"
  proof (cases "i = sid")
    case False
    then have x': "session_at s i = Some x" using x by (simp add: s')
    have "colon_free i" using store_okD(1)[OF ok x'] by (simp add: session_ok_def)
    then have "turn_at s' (turnKey i j) = turn_at s (turnKey i j)" for j
      using False cf by (simp add: trn turnKey_inj)
    then have "session_sums s' i x = session_sums s i x" by (intro sums_cong) simp_all
    then show ?thesis using m x' by (simp add: metrics_ok_def)
  next
    case True
    then have xss: "x = ?ss" using x by (simp add: s')
    have tid: "tid \<in> set (ss_turn_ids ss)" using turn_at_names[OF ok cf t] ses by auto
    have key: "turnKey sid j = turnKey sid tid \<longleftrightarrow> j = tid" for j by (simp add: turnKey_def)
    have grow: "session_total f s' sid ?ss = session_total f s sid ss + f ?t" if "f t = 0"
      for f :: "turn_record \<Rightarrow> 'b::comm_monoid_add"
      unfolding session_total_def
      using sum_one_more[of "set (ss_turn_ids ss)" tid "\<lambda>j. weight_at f s (turnKey sid j)"
          "\<lambda>j. weight_at f s' (turnKey sid j)"] tid that t
      by (simp add: weight_at_def trn key)
    have old: "session_sums s sid ss" using m ses by (simp add: metrics_ok_def)
    have "turn_spend ?t = (case turn_cost st of None \<Rightarrow> 0 | Some c \<Rightarrow> c)" "turn_time ?t = elapsed_ms st (tr_created_at t)"
      by (simp_all add: turn_spend_def turn_time_def)
    moreover have "isNonTerminalTurnState st \<Longrightarrow> turn_spend ?t = 0 \<and> turn_time ?t = 0"
      using live_weighs_nothing[of ?t] by simp
    ultimately show ?thesis
      using old grow[of turn_spend, OF live_weighs_nothing(1)[OF live]] grow[of turn_time, OF live_weighs_nothing(2)[OF live]]
        rolled_up_totals[of st] rolled_up_live[of st tid "tr_created_at t" "ss_record ss"]
      unfolding session_sums_def xss True
      by (cases "isNonTerminalTurnState st") (simp_all add: total_cost_def)
  qed
qed

section \<open>Every step keeps the sums\<close>

lemma metrics_on_running_turn:
  assumes "metrics_ok s" shows "metrics_ok (fst (on_running_turn clk sid tid f s))"
proof (cases "bindE (requireRunningTurn s sid tid) (\<lambda>t. bindE (f (tr_snapshot t)) (\<lambda>sn. Inr (t, sn)))")
  case (Inr p)
  then obtain t sn where p: "p = (t, sn)" "turn_at s (turnKey sid tid) = Some t"
    by (auto simp: bindE_Inr_iff requireRunningTurn_Inr)
  then show ?thesis using Inr by (intro metrics_ok_same[OF assms]) (auto simp: on_running_turn_def)
qed (simp add: on_running_turn_def assms)

lemma metrics_patches:
  assumes "metrics_ok s"
  shows "metrics_ok (fst (addThreads clk sid tid ths s))"
    and "metrics_ok (fst (removeThreads clk sid tid ids s))"
    and "metrics_ok (fst (appendToThreadContext clk sid tid a s))"
    and "metrics_ok (fst (overwriteThreadContext clk sid tid ov s))"
    and "metrics_ok (fst (patchMCPServers clk sid tid servers s))"
    and "metrics_ok (fst (patchSandboxInfo clk sid tid info s))"
    and "metrics_ok (fst (patchThreadCapabilityState clk sid tid i key v s))"
  unfolding addThreads_def removeThreads_def appendToThreadContext_def overwriteThreadContext_def
    patchMCPServers_def patchSandboxInfo_def patchThreadCapabilityState_def
  by (auto intro: metrics_on_running_turn[OF assms] simp: assms)

lemma metrics_rest:
  assumes "metrics_ok s"
  shows "metrics_ok (fst (updateSession clk usi s))"
    and "metrics_ok (fst (appendToEvents sid tid evs s))"
    and "metrics_ok (fst (insertTurnInboundEvents sid tid ins s))"
  by (auto simp: updateSession_def patch_session_def appendToEvents_def insertTurnInboundEvents_def Let_def assms
      split: option.splits sum.splits intro!: metrics_ok_same[OF assms])

lemma metrics_write_turn_state:
  assumes ok: "store_ok s" and m: "metrics_ok s" and cf: "colon_free sid"
    and t: "turn_at s (turnKey sid tid) = Some t" and live: "isNonTerminalTurnState (tr_state t)"
  shows "metrics_ok (fst (write_turn_state clk sid tid t st ev s))"
proof -
  from turn_at_names[OF ok cf t] obtain ss where ss: "session_at s sid = Some ss"
    "tid \<in> set (ss_turn_ids ss)" "session_ok s sid ss" by metis
  then have "tid \<noteq> ''''" by (auto simp: session_ok_def)
  obtain es where "events_at s (turnKey sid tid) = Some es" using events_of_turn[OF ok t] by blast
  then show ?thesis
    using ss(1) \<open>tid \<noteq> ''''\<close>
    by (intro metrics_ok_state_write[OF ok m cf t live ss(1), where es = "es @ [ev]" and st = st and u = "clk 0"])
      (simp add: write_turn_state_def requireEvents_def applyTurnState_eq Let_def)
qed

lemma metrics_updates:
  assumes "store_ok s" and m: "metrics_ok s" and "colon_free sid"
  shows "metrics_ok (fst (updateTurnNonTerminalState clk sid tid nst ev s))"
    and "metrics_ok (fst (updateTurnTerminalState clk sid tid tst ev s))"
  unfolding updateTurnNonTerminalState_def updateTurnTerminalState_def
  by (auto simp: m requireTurn_Inr split: sum.splits simp del: isNonTerminalTurnState.simps
      intro!: metrics_write_turn_state[OF assms] intro: expected_source_live)

lemma metrics_freeze:
  assumes ok: "store_ok s" and m: "metrics_ok s" and cf: "colon_free sid"
  shows "metrics_ok (fst (freezeAndGetTurn clk sid tid reason ev s))"
proof (cases "\<exists>t. turn_at s (turnKey sid tid) = Some t \<and> isNonTerminalTurnState (tr_state t)")
  case True
  then obtain t where t: "turn_at s (turnKey sid tid) = Some t" "isNonTerminalTurnState (tr_state t)" by blast
  from turn_at_names[OF ok cf t(1)] obtain ss where ss: "session_at s sid = Some ss"
    "tid \<in> set (ss_turn_ids ss)" "session_ok s sid ss" by metis
  then have "tid \<noteq> ''''" by (auto simp: session_ok_def)
  obtain es where "events_at s (turnKey sid tid) = Some es" using events_of_turn[OF ok t(1)] by blast
  then show ?thesis
    using ss(1) \<open>tid \<noteq> ''''\<close> t
    by (intro metrics_ok_state_write[OF ok m cf t ss(1), where es = "es @ [ev]" and u = "clk 1"
          and st = "Turn_cancelled reason (to_iso (clk 0)) None"])
      (simp add: freeze_fst applyTurnState_eq Let_def)
next
  case False
  then have "fst (freezeAndGetTurn clk sid tid reason ev s) = s"
    unfolding freeze_fst by (auto split: option.splits simp del: isNonTerminalTurnState.simps)
  then show ?thesis using m by simp
qed

lemma metrics_createSession:
  assumes ok: "store_ok s" and m: "metrics_ok s" shows "metrics_ok (fst (createSession clk csi s))"
proof -
  have keep: "weight_at f (put_session i x s) k = weight_at f s k" for f :: "turn_record \<Rightarrow> 'b::comm_monoid_add" and i x k
    by (simp add: weight_at_def)
  show ?thesis
    using m by (auto simp: createSession_def Let_def metrics_ok_def session_sums_def session_total_def
        total_cost_def keep split: if_splits)
qed

lemma metrics_createTurn:
  assumes ok: "store_ok s" and m: "metrics_ok s" and ne: "tr_turn_id (cti_turn inp) \<noteq> ''''"
    and run: "tr_state (cti_turn inp) = Turn_running"
  shows "metrics_ok (fst (createTurn clk inp s))"
proof (cases "createTurn_checks inp s")
  case (Inr p)
  obtain ss snap where p: "p = (ss, snap)" by (cases p)
  let ?row = "cti_turn inp"
  let ?sid = "tr_session_id ?row" and ?tid = "tr_turn_id ?row"
  note chk = createTurn_checks_Inr[OF Inr[unfolded p]]
  let ?s = "fst (createTurn clk inp s)"
  let ?d = "\<lparr>ltd_id = ?tid, ltd_status = state_status (tr_state ?row)\<rparr>"
  let ?ss = "ss\<lparr>ss_turn_ids := ss_turn_ids ss @ [?tid], ss_record := advance_session clk inp ?d (ss_record ss)\<rparr>"
  have at: "session_at ?s i = (if i = ?sid then Some ?ss else session_at s i)"
    "turn_at ?s k = (if k = turnKey ?sid ?tid then Some (with_snapshot ?row snap) else turn_at s k)" for i k
    using Inr p ne by (simp_all add: createTurn_result Let_def)
  have weight: "weight_at f ?s k = (if k = turnKey ?sid ?tid then f (with_snapshot ?row snap) else weight_at f s k)"
    for f :: "turn_record \<Rightarrow> 'b::comm_monoid_add" and k by (simp add: weight_at_def at)
  have zero: "turn_spend (with_snapshot ?row snap) = 0" "turn_time (with_snapshot ?row snap) = 0"
    by (rule live_weighs_nothing, simp add: run)+
  have none: "weight_at f s (turnKey ?sid ?tid) = 0" for f :: "turn_record \<Rightarrow> 'b::comm_monoid_add"
    using chk(2) by (simp add: weight_at_def)
  have keep: "weight_at turn_spend ?s k = weight_at turn_spend s k"
    "weight_at turn_time ?s k = weight_at turn_time s k" for k
    by (simp_all add: weight zero none)
  have fresh: "?tid \<notin> set (ss_turn_ids ss)"
    using store_okD(1)[OF ok chk(1)] chk(2) by (auto simp: session_ok_def)
  have "session_sums ?s i x" if x: "session_at ?s i = Some x" for i x
  proof (cases "i = ?sid")
    case True
    have "session_sums s ?sid ss" using m chk(1) by (simp add: metrics_ok_def)
    moreover have "x = ?ss" using x True by (simp add: at)
    ultimately show ?thesis
      using True fresh none[of turn_spend] none[of turn_time]
      by (simp add: session_sums_def session_total_def keep advance_session_def total_cost_def)
  next
    case False
    then show ?thesis using x m by (simp add: at session_sums_def session_total_def keep metrics_ok_def)
  qed
  then show ?thesis by (simp add: metrics_ok_def)
qed (simp add: createTurn_def m)

lemma metrics_deleteSession:
  assumes ok: "store_ok s" and m: "metrics_ok s" shows "metrics_ok (fst (deleteSession tenant sid s))"
proof (cases "fst (deleteSession tenant sid s) = s")
  case False
  let ?s = "fst (deleteSession tenant sid s)"
  obtain ss where ss: "session_at s sid = Some ss" "sr_tenant_id (ss_record ss) = tenant"
    using False by (auto simp: deleteSession_def split: option.splits if_splits)
  have rows: "session_at ?s i = (if i = sid then None else session_at s i)"
    "turn_at ?s k = (if k \<in> turnKey sid ` set (ss_turn_ids ss) then None else turn_at s k)" for i k
    using ss by (simp_all add: deleteSession_def Let_def delete_turn_rows_fields jsm.fold_remove)
  have cf: "colon_free sid" using store_okD(1)[OF ok ss(1)] by (simp add: session_ok_def)
  have "session_sums ?s i x" if "session_at ?s i = Some x" for i x
  proof -
    have x: "i \<noteq> sid" "session_at s i = Some x" using that by (simp_all add: rows split: if_splits)
    have "colon_free i" using store_okD(1)[OF ok x(2)] by (simp add: session_ok_def)
    then have "turn_at ?s (turnKey i j) = turn_at s (turnKey i j)" for j
      using x(1) cf by (auto simp: rows turnKey_inj)
    then have "session_sums ?s i x = session_sums s i x" by (intro sums_cong) simp_all
    then show ?thesis using m x(2) by (simp add: metrics_ok_def)
  qed
  then show ?thesis by (simp add: metrics_ok_def)
qed (simp add: m)

lemma metrics_step: "store_step s s' \<Longrightarrow> store_ok s \<Longrightarrow> metrics_ok s \<Longrightarrow> metrics_ok s'"
  by (induction rule: store_step.induct)
    (simp_all add: metrics_createSession metrics_rest metrics_deleteSession metrics_createTurn metrics_freeze
      metrics_updates metrics_patches)

text \<open>
  C18. In every reachable store the cost and the duration of a session are the sums over its turns: no
  turn is billed twice, and none that has ended is missing.
\<close>

theorem session_metrics_are_turn_sums:
  assumes "store_steps empty_store s" and "session_at s sid = Some ss"
  shows "total_cost (ss_record ss) = (\<Sum>tid \<in> set (ss_turn_ids ss). weight_at turn_spend s (turnKey sid tid)) \<and>
    sm_total_duration_ms (sr_metrics (ss_record ss)) =
      (\<Sum>tid \<in> set (ss_turn_ids ss). weight_at turn_time s (turnKey sid tid)) \<and>
    sm_total_turns (sr_metrics (ss_record ss)) = card (set (ss_turn_ids ss))"
proof -
  have "metrics_ok s \<and> store_ok s"
    using assms(1)
  proof (induction rule: rtranclp_induct)
    case base
    then show ?case using store_ok_empty by (simp add: metrics_ok_def empty_store_def)
  next
    case (step a b)
    then show ?case using metrics_step store_step_ok by blast
  qed
  then show ?thesis
    using assms(2) store_okD(1)[of s sid ss]
    by (simp add: metrics_ok_def session_sums_def session_total_def session_ok_def distinct_card)
qed

lemma session_metrics_are_turn_sums_witness:
  "\<exists>ss. session_at demo_finished ''s1'' = Some ss \<and> sm_total_duration_ms (sr_metrics (ss_record ss)) = 500"
proof -
  have "store_step demo_store demo_finished"
    unfolding demo_finished_def by (rule step_terminal) (simp add: colon_free_def)
  with demo_steps have steps: "store_steps empty_store demo_finished" by (rule rtranclp.rtrancl_into_rtrancl)
  have "map_option ss_turn_ids (session_at demo_finished ''s1'') = Some [''t1'']" by code_simp
  then obtain ss where ss: "session_at demo_finished ''s1'' = Some ss" "ss_turn_ids ss = [''t1'']" by auto
  have "weight_at turn_time demo_finished (turnKey ''s1'' ''t1'') = 500" by code_simp
  then show ?thesis using session_metrics_are_turn_sums[OF steps ss(1)] ss by simp
qed

end
