(* ===== verification/Conversation_Props.thy ===== *)
theory Conversation_Props
  imports Conversation
begin

text \<open>
  Facts about the context functions: which tool calls are open, what appending responses closes, that
  the dummy responses of \<open>OpenToolCallCloser\<close> close exactly the closable calls and none that awaits an
  approval, a client or a sub-agent, and that metric totals add up independently of the order in which
  threads finish.
\<close>

section \<open>Scanning from the end\<close>

abbreviation no_assistant :: "context_message list \<Rightarrow> bool" where
  "no_assistant ms \<equiv> \<not> list_ex is_assistant ms"

lemma is_assistant_iff: "is_assistant x \<longleftrightarrow> (\<exists>m. x = Assistant_msg m)"
  by (cases x) auto

lemma tool_message_ids_append [simp]:
  "tool_message_ids (xs @ ys) = tool_message_ids xs @ tool_message_ids ys"
proof (induction xs)
  case (Cons x xs)
  then show ?case by (cases x) auto
qed simp

lemma set_tool_message_ids_rev [simp]: "set (tool_message_ids (rev xs)) = set (tool_message_ids xs)"
proof (induction xs)
  case (Cons x xs)
  then show ?case by (cases x) auto
qed simp

lemma tool_message_ids_map [simp]:
  "tool_message_ids (map (\<lambda>i. Tool_msg (f i)) is) = map (\<lambda>i. tm_tool_call_id (f i)) is"
  by (induction "is") auto

lemma no_assistant_map [simp]: "no_assistant (map (\<lambda>i. Tool_msg (f i)) is)"
  by (induction "is") auto

lemma last_assistant_cases:
  obtains (none) "no_assistant ctx"
  | (some) pre m post where "ctx = pre @ Assistant_msg m # post" "no_assistant post"
proof (cases "list_ex is_assistant ctx")
  case True
  then obtain pre x post where "ctx = pre @ x # post" "is_assistant x" "no_assistant post"
    by (auto simp: list_ex_iff dest!: split_list_last_prop)
  then show ?thesis using some by (auto simp: is_assistant_iff)
qed (use none in blast)

lemma open_scan_none: "no_assistant ms \<Longrightarrow> open_scan res ms = []"
  by (induction res ms rule: open_scan.induct) auto

lemma set_open_scan:
  "no_assistant after \<Longrightarrow>
   set (open_scan res (after @ Assistant_msg m # rest)) =
     set (tool_call_ids m) - set res - set (tool_message_ids after)"
proof (induction after arbitrary: res)
  case (Cons x after)
  then show ?case by (cases x) auto
qed auto

lemma distinct_open_scan [simp]: "distinct (open_scan res ms)"
  by (induction res ms rule: open_scan.induct) auto

lemma distinct_open_ids [simp]: "distinct (getOpenToolCallIds ctx)"
  by (simp add: getOpenToolCallIds_def)

lemma open_ids_none: "no_assistant ctx \<Longrightarrow> getOpenToolCallIds ctx = []"
  by (simp add: getOpenToolCallIds_def open_scan_none list_ex_iff)

lemma open_ids_split [ctx_simps]:
  assumes "no_assistant post"
  shows "set (getOpenToolCallIds (pre @ Assistant_msg m # post)) =
           set (tool_call_ids m) - set (tool_message_ids post)"
proof -
  have "no_assistant (rev post)" using assms by (simp add: list_ex_iff)
  then show ?thesis by (simp add: getOpenToolCallIds_def set_open_scan)
qed

lemma first_assistant_none: "no_assistant ms \<Longrightarrow> first_assistant ms = None"
  by (induction ms rule: first_assistant.induct) auto

lemma first_assistant_append:
  "no_assistant after \<Longrightarrow> first_assistant (after @ Assistant_msg m # rest) = Some m"
proof (induction after)
  case (Cons x after)
  then show ?case by (cases x) auto
qed simp

lemma last_assistant_none [ctx_simps]: "no_assistant ctx \<Longrightarrow> lastAssistantInContext ctx = None"
  by (simp add: lastAssistantInContext_def first_assistant_none list_ex_iff)

lemma last_assistant_split [ctx_simps]:
  "no_assistant post \<Longrightarrow> lastAssistantInContext (pre @ Assistant_msg m # post) = Some m"
  by (simp add: lastAssistantInContext_def first_assistant_append list_ex_iff)

lemma last_assistant_append:
  assumes "no_assistant post"
  shows "lastAssistantInContext (ctx @ post) = lastAssistantInContext ctx"
proof (cases ctx rule: last_assistant_cases)
  case none
  with assms have "no_assistant (ctx @ post)" by simp
  with none show ?thesis by (metis last_assistant_none)
next
  case (some pre m post')
  with assms have "no_assistant (post' @ post)" by (auto simp: list_ex_iff)
  with some show ?thesis by (simp add: last_assistant_split)
qed

lemma last_tool_calls_append:
  "no_assistant post \<Longrightarrow> last_tool_calls (ctx @ post) = last_tool_calls ctx"
  by (simp add: last_tool_calls_def last_assistant_append)

text \<open>Appending messages that are not the assistant's closes the calls they answer, and no others.\<close>

lemma open_ids_append:
  assumes "no_assistant post"
  shows "set (getOpenToolCallIds (ctx @ post)) =
           set (getOpenToolCallIds ctx) - set (tool_message_ids post)"
proof (cases ctx rule: last_assistant_cases)
  case none
  with assms have "no_assistant (ctx @ post)" by simp
  with none show ?thesis by (simp add: open_ids_none)
next
  case (some pre m post')
  with assms have "no_assistant (post' @ post)" by (auto simp: list_ex_iff)
  with some show ?thesis by (auto simp: open_ids_split)
qed

lemma open_ids_subset: "set (getOpenToolCallIds ctx) \<subseteq> set (map tc_id (last_tool_calls ctx))"
proof (cases ctx rule: last_assistant_cases)
  case none
  then show ?thesis by (simp add: open_ids_none)
next
  case (some pre m post)
  then show ?thesis
    by (auto simp: open_ids_split last_tool_calls_def last_assistant_split tool_call_ids_def)
qed

section \<open>Approval decisions\<close>

lemma scan_decisions_has:
  "js_has (scan_decisions ms d) i \<longleftrightarrow> js_has d i \<or> (\<exists>a. Approval_msg i a \<in> set ms)"
  by (induction ms d rule: scan_decisions.induct) auto

lemma scan_decisions_append: "scan_decisions (xs @ ys) d = scan_decisions ys (scan_decisions xs d)"
  by (induction xs d rule: scan_decisions.induct) auto

lemma decided_iff: "js_has (scanApprovalDecisions ctx) i \<longleftrightarrow> (\<exists>a. Approval_msg i a \<in> set ctx)"
  by (simp add: scanApprovalDecisions_def scan_decisions_has)

lemma decided_append_other:
  assumes "\<And>i a. Approval_msg i a \<notin> set post"
  shows "js_has (scanApprovalDecisions (ctx @ post)) i = js_has (scanApprovalDecisions ctx) i"
  using assms by (auto simp: decided_iff)

section \<open>The closer\<close>

lemma split_last_calling_none:
  "(\<And>m. Assistant_msg m \<in> set ms \<Longrightarrow> \<not> hasToolCalls m) \<Longrightarrow> split_last_calling after ms = None"
  by (induction after ms rule: split_last_calling.induct) auto

lemma split_last_calling_skip:
  "(\<And>m'. Assistant_msg m' \<in> set ms \<Longrightarrow> \<not> hasToolCalls m') \<Longrightarrow>
   split_last_calling after (ms @ rest) = split_last_calling (rev ms @ after) rest"
proof (induction ms arbitrary: after)
  case (Cons x ms)
  have IH: "\<And>after. split_last_calling after (ms @ rest) = split_last_calling (rev ms @ after) rest"
    using Cons by (meson list.set_intros(2))
  show ?case using Cons.prems by (cases x) (auto simp: IH)
qed simp

lemma split_last_calling_append:
  assumes "no_assistant post"
  shows "split_last_calling [] (rev (ctx @ post)) =
           (case split_last_calling [] (rev ctx) of
              None \<Rightarrow> None | Some (m, after) \<Rightarrow> Some (m, after @ post))"
proof -
  have gen: "split_last_calling (a @ post) ms =
               (case split_last_calling a ms of None \<Rightarrow> None | Some (m, af) \<Rightarrow> Some (m, af @ post))"
    for a ms
  proof (induction a ms rule: split_last_calling.induct)
    case (2 after m ms)
    then show ?case by simp
  qed (auto split: option.splits)
  have "split_last_calling [] (rev post @ rev ctx) = split_last_calling (post @ []) (rev ctx)"
    using assms by (subst split_last_calling_skip) (auto simp: list_ex_iff)
  then show ?thesis using gen[of "[]" "rev ctx"] by simp
qed

lemma closable_append:
  assumes "no_assistant post"
  shows "set (getClosableOpenToolCallIds (ctx @ post)) =
           set (getClosableOpenToolCallIds ctx) - set (tool_message_ids post)"
  unfolding getClosableOpenToolCallIds_def split_last_calling_append[OF assms]
  by (auto split: option.splits if_splits)

lemma distinct_closable [simp]: "distinct (getClosableOpenToolCallIds ctx)"
  by (auto simp: getClosableOpenToolCallIds_def split: option.splits)

lemma closable_calling:
  assumes "hasToolCalls m" and "no_assistant post"
  shows "split_last_calling [] (rev (pre @ Assistant_msg m # post)) = Some (m, post)"
proof -
  have "split_last_calling [] (rev post @ Assistant_msg m # rev pre) =
          split_last_calling post (Assistant_msg m # rev pre)"
    using assms(2) by (subst split_last_calling_skip) (auto simp: list_ex_iff)
  with assms(1) show ?thesis by simp
qed

lemma closer_appends:
  assumes "closer_process_pre_send usage ctx = Some (dummies, u)"
  shows "no_assistant dummies" "tool_message_ids dummies = getClosableOpenToolCallIds ctx"
  using assms by (auto simp: closer_process_pre_send_def Let_def o_def split: if_splits)

lemma closer_none_iff:
  "closer_process_pre_send usage ctx = None \<longleftrightarrow> getClosableOpenToolCallIds ctx = []"
  by (simp add: closer_process_pre_send_def Let_def)

section \<open>Properties\<close>

text \<open>
  A tool call id is open exactly when the last assistant message of the context issued it and no
  tool message after that assistant message answers it.
\<close>

theorem open_tool_call_ids_spec:
  "i \<in> set (getOpenToolCallIds ctx) \<longleftrightarrow>
     (\<exists>pre m post. ctx = pre @ Assistant_msg m # post \<and> no_assistant post \<and>
        i \<in> set (tool_call_ids m) \<and> i \<notin> set (tool_message_ids post))"
proof (cases ctx rule: last_assistant_cases)
  case none
  then show ?thesis by (auto simp: open_ids_none)
next
  case (some pre m post)
  show ?thesis
  proof
    assume "i \<in> set (getOpenToolCallIds ctx)"
    with some show "\<exists>pre m post. ctx = pre @ Assistant_msg m # post \<and> no_assistant post \<and>
        i \<in> set (tool_call_ids m) \<and> i \<notin> set (tool_message_ids post)"
      by (auto simp: open_ids_split)
  qed (auto simp: open_ids_split)
qed

text \<open>
  C16. One run of the closer closes everything it can: after its dummy responses are appended nothing
  is closable any more, so a second run appends nothing, and the calls still open are exactly the open
  calls that were not closable.
\<close>

theorem closer_closes_exactly_the_closable:
  assumes "closer_process_pre_send usage ctx = Some (dummies, u)"
  shows "closer_process_pre_send u' (ctx @ dummies) = None \<and>
         set (getOpenToolCallIds (ctx @ dummies)) =
           set (getUnclosableOpenToolCallIds ctx (getOpenToolCallIds ctx))"
  using closer_appends[OF assms]
  by (simp_all add: closer_none_iff open_ids_append getUnclosableOpenToolCallIds_def
      closable_append flip: set_empty)

text \<open>
  The closer never answers for anyone: when the last assistant message made the calls, every id
  it closes is open, and belongs to a call that needs no approval, is not answered by the client and
  does not create a sub-agent thread.
\<close>

theorem closer_spares_pending_calls:
  assumes "ctx = pre @ Assistant_msg m # post" and "hasToolCalls m" and "no_assistant post"
    and "i \<in> set (getClosableOpenToolCallIds ctx)"
  shows "i \<in> set (getOpenToolCallIds ctx) \<and>
         (\<exists>tc. tc \<in> set (last_tool_calls ctx) \<and> tc_id tc = i \<and>
               ti_is_approval_required (tc_tool_info tc) \<noteq> Some True \<and>
               ti_is_client_side (tc_tool_info tc) \<noteq> Some True \<and>
               ti_is_thread_creation (tc_tool_info tc) \<noteq> Some True)"
proof -
  from assms(2) obtain tcs where tcs: "am_tool_calls m = Some tcs"
    by (auto simp: hasToolCalls_def split: option.splits)
  from assms(4) have "i \<in> set (getClosableOpenToolCallIds (pre @ Assistant_msg m # post))"
    by (simp add: assms(1))
  then show ?thesis
    unfolding getClosableOpenToolCallIds_def closable_calling[OF assms(2,3)] assms(1)
    using assms(3) tcs
    by (auto simp: open_ids_split last_tool_calls_def last_assistant_split tool_call_ids_def
        split: if_splits)
qed

section \<open>A concrete context\<close>

definition demo_tool_info :: "bool option \<Rightarrow> internal_tool_call_info" where
  "demo_tool_info creates =
     \<lparr>ti_type = Mcp, ti_server_id = ''m'', ti_server_name = ''m'', ti_original_tool_name = ''f'',
      ti_is_approval_required = None, ti_is_deferred = None, ti_is_client_side = None,
      ti_is_thread_creation = creates\<rparr>"

definition demo_call :: "string \<Rightarrow> bool option \<Rightarrow> internal_tool_call" where
  "demo_call i creates =
     \<lparr>tc_id = i, tc_name = ''f'', tc_arguments = ''{}'', tc_provider_fields = None,
      tc_tool_info = demo_tool_info creates\<rparr>"

definition demo_assistant :: internal_assistant_message where
  "demo_assistant =
     \<lparr>am_content = None, am_name = None, am_refusal = None,
      am_tool_calls = Some [demo_call ''a'' None, demo_call ''b'' (Some True)],
      am_thinking_blocks = None, am_reasoning_content = None, am_source = None\<rparr>"

lemma closer_closes_exactly_the_closable_witness:
  "set (getOpenToolCallIds ([Assistant_msg demo_assistant] @
     [Tool_msg \<lparr>tm_tool_call_id = ''a'', tm_content = DUMMY_TOOL_MESSAGE_CONTENT\<rparr>])) = {''b''}"
proof -
  have "map_option fst (closer_process_pre_send getEmptyCurrentContextUsage [Assistant_msg demo_assistant]) =
      Some [Tool_msg \<lparr>tm_tool_call_id = ''a'', tm_content = DUMMY_TOOL_MESSAGE_CONTENT\<rparr>]"
    by code_simp
  then obtain u where "closer_process_pre_send getEmptyCurrentContextUsage [Assistant_msg demo_assistant] =
      Some ([Tool_msg \<lparr>tm_tool_call_id = ''a'', tm_content = DUMMY_TOOL_MESSAGE_CONTENT\<rparr>], u)" by auto
  moreover have "getUnclosableOpenToolCallIds [Assistant_msg demo_assistant]
      (getOpenToolCallIds [Assistant_msg demo_assistant]) = [''b'']" by code_simp
  ultimately show ?thesis using closer_closes_exactly_the_closable by fastforce
qed

lemma closer_spares_pending_calls_witness:
  "''a'' \<in> set (getOpenToolCallIds [Assistant_msg demo_assistant])"
proof -
  have "[Assistant_msg demo_assistant] = [] @ Assistant_msg demo_assistant # []" by simp
  moreover have "hasToolCalls demo_assistant" by code_simp
  moreover have "no_assistant []" by simp
  moreover have "''a'' \<in> set (getClosableOpenToolCallIds [Assistant_msg demo_assistant])" by code_simp
  ultimately show ?thesis using closer_spares_pending_calls by blast
qed

end
