(* ===== verification/Tool_Selection.thy ===== *)
theory Tool_Selection
  imports Conversation
begin

text \<open>
  Which tools an agent sees and under which names: \<open>core/mcp/toolSelectors.ts\<close>,
  \<open>ToolSelectorPolicy.ts\<close>, \<open>toolNames.ts\<close>, \<open>convertMCPServers.ts\<close> and \<open>pagination.ts\<close>.

  A tool set is described by what the conversion reads of it: its name, its flags, its approval policies
  and what its \<open>listTools()\<close> answers, the answers of all sets having been awaited together. An MCP server
  is not part of the repository: \<open>fetch n cursor\<close>, the argument of the pagination loop, is its answer to
  the \<open>n\<close>-th request.
\<close>

section \<open>Selectors\<close>

record tool_annotations =
  an_read_only_hint :: "bool option"
  an_destructive_hint :: "bool option"

datatype tool_tag = Tag_all | Tag_read_only | Tag_write | Tag_destructive

definition TOOL_TAGS :: "(string \<times> tool_tag) list" where
  "TOOL_TAGS = [(''@all'', Tag_all), (''@read-only'', Tag_read_only), (''@write'', Tag_write),
     (''@destructive'', Tag_destructive)]"

definition DEFAULT_REQUIRE_APPROVAL_FOR_TOOLS :: "string list" where
  "DEFAULT_REQUIRE_APPROVAL_FOR_TOOLS = [''@write'', ''@destructive'']"

definition isToolTag :: "string \<Rightarrow> bool" where
  "isToolTag sel = (map_of TOOL_TAGS sel \<noteq> None)"

definition isReadOnly :: "tool_annotations option \<Rightarrow> bool" where
  "isReadOnly an = (Option.bind an an_read_only_hint = Some True)"

definition isWrite :: "tool_annotations option \<Rightarrow> bool" where
  "isWrite an = (Option.bind an an_read_only_hint = Some False \<and>
     Option.bind an an_destructive_hint \<noteq> Some True)"

definition isDestructive :: "tool_annotations option \<Rightarrow> bool" where
  "isDestructive an = (Option.bind an an_destructive_hint = Some True)"

fun toolMatchesTag :: "tool_tag \<Rightarrow> tool_annotations option \<Rightarrow> bool" where
  "toolMatchesTag Tag_all an = True"
| "toolMatchesTag Tag_read_only an = isReadOnly an"
| "toolMatchesTag Tag_write an = isWrite an"
| "toolMatchesTag Tag_destructive an = isDestructive an"

fun toolMatchesAnySelector :: "string \<Rightarrow> tool_annotations option \<Rightarrow> string list \<Rightarrow> bool" where
  "toolMatchesAnySelector name an [] = False"
| "toolMatchesAnySelector name an (sel # sels) =
     (case map_of TOOL_TAGS sel of
        Some tag \<Rightarrow> if toolMatchesTag tag an then True else toolMatchesAnySelector name an sels
      | None \<Rightarrow> if sel = name then True else toolMatchesAnySelector name an sels)"

definition toolRequiresApproval :: "string \<Rightarrow> tool_annotations option \<Rightarrow> string list \<Rightarrow> bool" where
  "toolRequiresApproval name an sels = (if sels = [] then False else toolMatchesAnySelector name an sels)"

definition isToolAllowed ::
    "string \<Rightarrow> tool_annotations option \<Rightarrow> string list \<Rightarrow> string list \<Rightarrow> bool" where
  "isToolAllowed name an enable disable =
     (if \<not> toolMatchesAnySelector name an enable then False
      else if toolMatchesAnySelector name an disable then False else True)"

definition literalToolNames :: "string list \<Rightarrow> string list" where
  "literalToolNames sels = filter (\<lambda>sel. \<not> isToolTag sel) sels"

definition selectorsIncludeAll :: "string list \<Rightarrow> bool" where
  "selectorsIncludeAll sels = (''@all'' \<in> set sels)"

section \<open>The selector policy of one server\<close>

record tool_input_schema =
  tis_properties :: "json option"
  tis_required :: "json option"
  tis_defs :: "json option"
  tis_definitions :: "json option"

record agent_tool_schema =
  tl_name :: string
  tl_description :: "string option"
  tl_input_schema :: tool_input_schema
  tl_annotations :: "tool_annotations option"
  tl_preload :: bool

record tool_selector_config =
  tsc_enable :: "string list"
  tsc_disable :: "string list"
  tsc_preload :: "string list"
  tsc_require_approval :: "string list option"

record tool_selector_policy =
  tsp_preload :: bool
  tsp_has_preloaded_tools :: bool
  tsp_enable :: "string list"
  tsp_disable :: "string list"
  tsp_preload_tools :: "string list"
  tsp_require_approval :: "string list"
  tsp_resolved :: "string list option"

definition new_policy :: "tool_selector_config \<Rightarrow> bool \<Rightarrow> tool_selector_policy" where
  "new_policy c preload =
     \<lparr>tsp_preload = preload, tsp_has_preloaded_tools = (preload \<or> length (tsc_preload c) > 0),
      tsp_enable = tsc_enable c, tsp_disable = tsc_disable c, tsp_preload_tools = tsc_preload c,
      tsp_require_approval =
        (case tsc_require_approval c of None \<Rightarrow> DEFAULT_REQUIRE_APPROVAL_FOR_TOOLS | Some l \<Rightarrow> l),
      tsp_resolved = None\<rparr>"

definition missingEnableLiterals :: "tool_selector_policy \<Rightarrow> agent_tool_schema list \<Rightarrow> string list" where
  "missingEnableLiterals p tools =
     filter (\<lambda>n. n \<notin> set (map tl_name tools)) (literalToolNames (tsp_enable p))"

definition policy_allows :: "tool_selector_policy \<Rightarrow> string \<Rightarrow> tool_annotations option \<Rightarrow> bool" where
  "policy_allows p name an = isToolAllowed name an (tsp_enable p) (tsp_disable p)"

definition isToolPreloaded :: "tool_selector_policy \<Rightarrow> string \<Rightarrow> tool_annotations option \<Rightarrow> bool" where
  "isToolPreloaded p name an =
     (if tsp_preload p then True else toolMatchesAnySelector name an (tsp_preload_tools p))"

definition filterAndAnnotate ::
    "tool_selector_policy \<Rightarrow> agent_tool_schema list \<Rightarrow> tool_selector_policy \<times> agent_tool_schema list" where
  "filterAndAnnotate p tools =
     (let filtered = filter (\<lambda>t. policy_allows p (tl_name t) (tl_annotations t)) tools
      in (p\<lparr>tsp_resolved := Some (map tl_name filtered)\<rparr>,
          map (\<lambda>t. t\<lparr>tl_preload := isToolPreloaded p (tl_name t) (tl_annotations t)\<rparr>) filtered))"

definition isAllowed :: "tool_selector_policy \<Rightarrow> string \<Rightarrow> tool_annotations option \<Rightarrow> bool" where
  "isAllowed p name an =
     (case tsp_resolved p of Some names \<Rightarrow> name \<in> set names | None \<Rightarrow> policy_allows p name an)"

definition allowedNamesForSandbox :: "tool_selector_policy \<Rightarrow> string list option" where
  "allowedNamesForSandbox p =
     (case tsp_resolved p of
        Some names \<Rightarrow> Some names
      | None \<Rightarrow>
          if selectorsIncludeAll (tsp_enable p) \<and> length (tsp_disable p) = 0 then None
          else Some (literalToolNames (tsp_enable p)))"

definition requiresApproval :: "tool_selector_policy \<Rightarrow> string \<Rightarrow> tool_annotations option \<Rightarrow> bool" where
  "requiresApproval p name an = toolRequiresApproval name an (tsp_require_approval p)"

section \<open>Names the model sees\<close>

definition MAX_TOOL_NAME_LENGTH :: nat where "MAX_TOOL_NAME_LENGTH = 64"

definition MAX_DUP_SUFFIX :: nat where "MAX_DUP_SUFFIX = 50"

definition tool_name_char :: "char \<Rightarrow> bool" where
  "tool_name_char c =
     (let n = of_char c :: nat
      in (97 \<le> n \<and> n \<le> 122) \<or> (65 \<le> n \<and> n \<le> 90) \<or> (48 \<le> n \<and> n \<le> 57) \<or> c = CHR ''_'' \<or> c = CHR ''-'')"

definition valid_tool_name :: "string \<Rightarrow> bool" where
  "valid_tool_name s = (s \<noteq> '''' \<and> list_all tool_name_char s)"

definition sanitizeToolName :: "string \<Rightarrow> string" where
  "sanitizeToolName s =
     (if valid_tool_name s then s else map (\<lambda>c. if tool_name_char c then c else CHR ''_'') s)"

text \<open>What a tool operation throws; the last two are an \<open>Error\<close> with a message and any other value.\<close>

datatype tool_error =
    Tool_name_collision string
  | Mcp_connection_error string nat
  | Other_error string
  | Not_an_error

text \<open>The loop over the suffixes; \<open>None\<close> when it runs out of them.\<close>

function suffix_loop :: "string \<Rightarrow> string list \<Rightarrow> nat \<Rightarrow> string option" where
  "suffix_loop base existing n =
     (if n \<le> MAX_DUP_SUFFIX
      then (let candidate = base @ show_nat n in
            if candidate \<notin> set existing then Some candidate else suffix_loop base existing (n + 1))
      else None)"
  by pat_completeness auto
termination by (relation "measure (\<lambda>(base, existing, n). MAX_DUP_SUFFIX + 1 - n)") auto

declare suffix_loop.simps [simp del]

text \<open>The name and whether it collided with a registered one.\<close>

definition getUniqueSanitizedToolName :: "string \<Rightarrow> string list \<Rightarrow> tool_error + (string \<times> bool)" where
  "getUniqueSanitizedToolName name existing =
     (let sanitized = sanitizeToolName name;
          truncated = take MAX_TOOL_NAME_LENGTH sanitized
      in if truncated \<notin> set existing then Inr (truncated, False)
         else (case suffix_loop (take (MAX_TOOL_NAME_LENGTH - 2) sanitized) existing 1 of
                 Some candidate \<Rightarrow> Inr (candidate, True)
               | None \<Rightarrow> Inl (Tool_name_collision name)))"

section \<open>Converting tool sets to model tools\<close>

datatype list_tools_response =
    List_auth_required "mcp_server_auth_info list"
  | List_tools "agent_tool_schema list" "mcp_server_init_info option"

record tool_set_view =
  tv_name :: string
  tv_preload :: bool
  tv_has_preloaded_tools :: bool
  tv_approval_policies :: "(string, tool_approval_policy_action) js_map"
  tv_list_tools :: "tool_error + list_tools_response"

record chat_completion_tool =
  cct_name :: string
  cct_description :: string
  cct_properties :: json
  cct_required :: json
  cct_defs :: "json option"
  cct_definitions :: "json option"

record mapped_mcp_tool =
  mm_tool_set :: tool_set_view
  mm_original_tool_name :: string

record convert_state =
  cv_tools :: "chat_completion_tool list"
  cv_mapping :: "(string, mapped_mcp_tool) js_map"
  cv_init :: "mcp_server_init_info list"
  cv_auth :: "mcp_server_auth_info list list"
  cv_names :: "string list"

definition empty_convert :: convert_state where
  "empty_convert = \<lparr>cv_tools = [], cv_mapping = [], cv_init = [], cv_auth = [], cv_names = []\<rparr>"

text \<open>
  \<open>(a, b) => (a.name > b.name ? 1 : -1)\<close>. It answers -1 for equal names, whose order is then up to the
  engine; nothing below depends on it.
\<close>

definition name_cmp :: "('a \<Rightarrow> string) \<Rightarrow> 'a \<Rightarrow> 'a \<Rightarrow> int" where
  "name_cmp nm a b = (if nm a > nm b then 1 else - 1)"

definition newline :: string where "newline = [char_of (10 :: nat)]"

definition chat_tool :: "string \<Rightarrow> string \<Rightarrow> agent_tool_schema \<Rightarrow> chat_completion_tool" where
  "chat_tool server_name tool_name t =
     \<lparr>cct_name = tool_name,
      cct_description = ''mcp server: '' @ server_name @ newline @
        (case tl_description t of None \<Rightarrow> '''' | Some d \<Rightarrow> d),
      cct_properties = (case tis_properties (tl_input_schema t) of None \<Rightarrow> JObj [] | Some v \<Rightarrow> v),
      cct_required = (case tis_required (tl_input_schema t) of None \<Rightarrow> JArr [] | Some v \<Rightarrow> v),
      cct_defs = tis_defs (tl_input_schema t),
      cct_definitions = tis_definitions (tl_input_schema t)\<rparr>"

definition register_tool ::
    "tool_set_view \<Rightarrow> agent_tool_schema \<Rightarrow> convert_state \<Rightarrow> tool_error + convert_state" where
  "register_tool srv t cv =
     (if \<not> tl_preload t then Inr cv
      else bindE (getUniqueSanitizedToolName (tl_name t) (cv_names cv)) (\<lambda>(name, hadCollision).
        Inr (cv\<lparr>cv_names := js_add name (cv_names cv),
                cv_tools := cv_tools cv @ [chat_tool (tv_name srv) name t],
                cv_mapping := js_set name \<lparr>mm_tool_set = srv, mm_original_tool_name = tl_name t\<rparr>
                  (cv_mapping cv)\<rparr>)))"

definition with_policies :: "tool_set_view \<Rightarrow> mcp_server_init_info \<Rightarrow> mcp_server_init_info" where
  "with_policies srv info =
     (if js_keys (tv_approval_policies srv) \<noteq> []
      then info\<lparr>msi_approval_policies := Some (tv_approval_policies srv)\<rparr> else info)"

definition convert_server ::
    "tool_set_view \<times> list_tools_response \<Rightarrow> convert_state \<Rightarrow> tool_error + convert_state" where
  "convert_server sr cv =
     (case sr of
        (srv, List_auth_required servers) \<Rightarrow> Inr (cv\<lparr>cv_auth := cv_auth cv @ [servers]\<rparr>)
      | (srv, List_tools tools wasInit) \<Rightarrow>
          foldE (register_tool srv) (js_sort (name_cmp tl_name) tools)
            (case wasInit of
               None \<Rightarrow> cv
             | Some info \<Rightarrow> cv\<lparr>cv_init := cv_init cv @ [with_policies srv info]\<rparr>))"

text \<open>The tool sets in the order they register their names: managed ones first.\<close>

definition conversion_order :: "tool_set_view list \<Rightarrow> tool_set_view list \<Rightarrow> tool_set_view list" where
  "conversion_order managed user =
     js_sort (name_cmp tv_name) managed @
     js_sort (name_cmp tv_name) (filter (\<lambda>s. tv_preload s \<or> tv_has_preloaded_tools s) user)"

definition convertMCPServersToTools ::
    "tool_set_view list \<Rightarrow> tool_set_view list \<Rightarrow> tool_error + convert_state" where
  "convertMCPServersToTools managed user =
     bindE (mapE (\<lambda>s. bindE (tv_list_tools s) (\<lambda>r. Inr (s, r))) (conversion_order managed user)) (\<lambda>listed.
       foldE convert_server listed empty_convert)"

section \<open>Cursor pagination\<close>

text \<open>A page of a server: its items and the next cursor; the empty cursor is falsy and ends the loop.\<close>

type_synonym ('e, 'a) mcp_fetch = "nat \<Rightarrow> string option \<Rightarrow> 'e + ('a list \<times> string option)"

partial_function (option) cursor_loop ::
    "('e, 'a) mcp_fetch \<Rightarrow> nat \<Rightarrow> 'a list \<Rightarrow> string list \<Rightarrow> string option \<Rightarrow> ('e + 'a list) option" where
  "cursor_loop fetch n items seen cursor =
     (case cursor of
        None \<Rightarrow> Some (Inr items)
      | Some c \<Rightarrow>
          if c = '''' then Some (Inr items)
          else if c \<in> set seen then Some (Inr items)
          else (case fetch n (Some c) of
                  Inl e \<Rightarrow> Some (Inl e)
                | Inr (more_items, nxt) \<Rightarrow>
                    cursor_loop fetch (n + 1) (items @ more_items) (seen @ [c]) nxt))"

definition paginateWithCursorGuard :: "('e, 'a) mcp_fetch \<Rightarrow> ('e + 'a list) option" where
  "paginateWithCursorGuard fetch =
     (case fetch 0 None of
        Inl e \<Rightarrow> Some (Inl e)
      | Inr (items, nxt) \<Rightarrow> cursor_loop fetch 1 items [] nxt)"

end
