(* ===== verification/Tool_Selection_Props.thy ===== *)
theory Tool_Selection_Props
  imports Tool_Selection
begin

text \<open>
  Tool names are unique and acceptable to a model provider, a selector policy decides alike before and
  after it has listed the tools, and the cursor loop returns against any server that reuses cursors.
\<close>

section \<open>Unique names\<close>

lemma digit_char: "k < 10 \<Longrightarrow> tool_name_char (digit k)"
  by (simp add: tool_name_char_def digit_def Let_def)

lemma show_nat_chars: "list_all tool_name_char (show_nat n)"
proof (induction n rule: show_nat.induct)
  case (1 n)
  then show ?case by (subst show_nat.simps) (simp add: digit_char)
qed

lemma sanitized_chars: "list_all tool_name_char (sanitizeToolName s)"
proof -
  have "tool_name_char CHR ''_''" by (simp add: tool_name_char_def)
  then show ?thesis by (auto simp: sanitizeToolName_def valid_tool_name_def list_all_iff)
qed

lemma list_all_take: "list_all P xs \<Longrightarrow> list_all P (take n xs)"
  by (auto simp: list_all_iff dest: in_set_takeD)

lemma suffix_loop_Some:
  "suffix_loop base existing n = Some c \<Longrightarrow>
     \<exists>k. n \<le> k \<and> k \<le> MAX_DUP_SUFFIX \<and> c = base @ show_nat k \<and> c \<notin> set existing"
proof (induction base existing n rule: suffix_loop.induct)
  case (1 base existing n)
  show ?case
  proof (cases "n \<le> MAX_DUP_SUFFIX \<and> base @ show_nat n \<in> set existing")
    case True
    then have "suffix_loop base existing (n + 1) = Some c"
      using "1.prems" by (subst (asm) suffix_loop.simps) (simp add: Let_def)
    with "1.IH" True obtain k where "n + 1 \<le> k" "k \<le> MAX_DUP_SUFFIX" "c = base @ show_nat k" "c \<notin> set existing"
      by blast
    then show ?thesis by (intro exI[of _ k]) simp
  next
    case False
    then show ?thesis using "1.prems" by (subst (asm) suffix_loop.simps) (auto simp: Let_def split: if_splits)
  qed
qed

lemma suffix_loop_None:
  "suffix_loop base existing n = None \<Longrightarrow> n \<le> k \<Longrightarrow> k \<le> MAX_DUP_SUFFIX \<Longrightarrow> base @ show_nat k \<in> set existing"
proof (induction base existing n rule: suffix_loop.induct)
  case (1 base existing n)
  then have n: "n \<le> MAX_DUP_SUFFIX" by simp
  with "1.prems"(1) have head: "base @ show_nat n \<in> set existing"
    by (subst (asm) suffix_loop.simps) (auto simp: Let_def split: if_splits)
  with "1.prems"(1) n have "suffix_loop base existing (n + 1) = None"
    by (subst (asm) suffix_loop.simps) (simp add: Let_def)
  with "1.IH" n head "1.prems"(2,3) show ?case by (cases "n = k") auto
qed

lemma unique_name_ok:
  assumes "getUniqueSanitizedToolName name existing = Inr (new_name, coll)"
  shows "new_name \<notin> set existing" and "length new_name \<le> MAX_TOOL_NAME_LENGTH"
    and "list_all tool_name_char new_name"
proof -
  let ?s = "sanitizeToolName name"
  consider "new_name = take MAX_TOOL_NAME_LENGTH ?s" "new_name \<notin> set existing"
    | k where "k \<le> MAX_DUP_SUFFIX" "new_name = take (MAX_TOOL_NAME_LENGTH - 2) ?s @ show_nat k" "new_name \<notin> set existing"
    using assms
    by (auto simp: getUniqueSanitizedToolName_def Let_def split: if_splits option.splits dest!: suffix_loop_Some)
  note cases = this
  from cases show "new_name \<notin> set existing" by cases simp_all
  from cases show "length new_name \<le> MAX_TOOL_NAME_LENGTH"
  proof cases
    case (2 k)
    then have "length (show_nat k) \<le> 2" by (intro length_show_nat) (simp_all add: MAX_DUP_SUFFIX_def)
    with 2 show ?thesis by (simp add: MAX_TOOL_NAME_LENGTH_def)
  qed simp
  from cases show "list_all tool_name_char new_name"
    by cases (simp_all add: sanitized_chars show_nat_chars list_all_take)
qed

text \<open>
  A name for the model is fresh, at most 64 characters long and made of letters, digits, dashes and
  underscores; no name is found only when all 50 suffixed names are registered.
\<close>

theorem unique_tool_name_spec:
  "case getUniqueSanitizedToolName name existing of
     Inr (new_name, coll) \<Rightarrow> new_name \<notin> set existing \<and> length new_name \<le> MAX_TOOL_NAME_LENGTH \<and>
       list_all tool_name_char new_name \<and>
       (coll \<longleftrightarrow> take MAX_TOOL_NAME_LENGTH (sanitizeToolName name) \<in> set existing)
   | Inl e \<Rightarrow> e = Tool_name_collision name \<and> MAX_DUP_SUFFIX \<le> length existing"
proof (cases "getUniqueSanitizedToolName name existing")
  case (Inr p)
  obtain new_name coll where p: "p = (new_name, coll)" by (cases p)
  have "coll \<longleftrightarrow> take MAX_TOOL_NAME_LENGTH (sanitizeToolName name) \<in> set existing"
    using Inr p by (auto simp: getUniqueSanitizedToolName_def Let_def split: if_splits option.splits)
  then show ?thesis using unique_name_ok[OF Inr[unfolded p]] Inr p by simp
next
  case (Inl e)
  let ?base = "take (MAX_TOOL_NAME_LENGTH - 2) (sanitizeToolName name)"
  from Inl have e: "e = Tool_name_collision name" and none: "suffix_loop ?base existing 1 = None"
    by (auto simp: getUniqueSanitizedToolName_def Let_def split: if_splits option.splits)
  have "(\<lambda>k. ?base @ show_nat k) ` {1..MAX_DUP_SUFFIX} \<subseteq> set existing"
    using suffix_loop_None[OF none] by auto
  moreover have "inj_on (\<lambda>k. ?base @ show_nat k) {1..MAX_DUP_SUFFIX}"
    by (auto intro: inj_onI dest: show_nat_inj)
  ultimately have "card {1..MAX_DUP_SUFFIX} \<le> card (set existing)"
    by (metis card_image card_mono finite_set)
  also have "\<dots> \<le> length existing" by (rule card_length)
  finally show ?thesis using Inl e by simp
qed

section \<open>Converted tools\<close>

definition offers :: "tool_set_view \<Rightarrow> string \<Rightarrow> bool" where
  "offers srv orig =
     (\<exists>tools info t. tv_list_tools srv = Inr (List_tools tools info) \<and> t \<in> set tools \<and>
        tl_name t = orig \<and> tl_preload t)"

definition convert_ok :: "convert_state \<Rightarrow> bool" where
  "convert_ok cv \<longleftrightarrow>
     distinct (map cct_name (cv_tools cv)) \<and>
     set (cv_names cv) = set (map cct_name (cv_tools cv)) \<and>
     set (js_keys (cv_mapping cv)) = set (map cct_name (cv_tools cv)) \<and>
     (\<forall>t \<in> set (cv_tools cv). length (cct_name t) \<le> MAX_TOOL_NAME_LENGTH \<and> list_all tool_name_char (cct_name t)) \<and>
     (\<forall>n m. js_get (cv_mapping cv) n = Some m \<longrightarrow> offers (mm_tool_set m) (mm_original_tool_name m))"

lemma convert_ok_register:
  assumes "convert_ok cv" and "register_tool srv t cv = Inr cv'"
    and "tv_list_tools srv = Inr (List_tools tools info)" and "t \<in> set tools"
  shows "convert_ok cv'"
proof (cases "tl_preload t")
  case True
  then obtain nm coll where nm: "getUniqueSanitizedToolName (tl_name t) (cv_names cv) = Inr (nm, coll)"
    and cv': "cv' = cv\<lparr>cv_names := js_add nm (cv_names cv), cv_tools := cv_tools cv @ [chat_tool (tv_name srv) nm t],
        cv_mapping := js_set nm \<lparr>mm_tool_set = srv, mm_original_tool_name = tl_name t\<rparr> (cv_mapping cv)\<rparr>"
    using assms(2) by (auto simp: register_tool_def bindE_Inr_iff)
  have "offers srv (tl_name t)" using assms(3,4) True by (auto simp: offers_def)
  then show ?thesis
    using assms(1) unique_name_ok[OF nm] unfolding cv' convert_ok_def
    by (auto simp: chat_tool_def js_keys_set split: if_splits)
qed (use assms(1,2) in \<open>simp add: register_tool_def\<close>)

lemma convert_ok_server:
  assumes "convert_ok cv" and "convert_server (srv, r) cv = Inr cv'" and "tv_list_tools srv = Inr r"
  shows "convert_ok cv'"
proof (cases r)
  case (List_auth_required servers)
  then show ?thesis using assms(1,2) by (auto simp: convert_server_def convert_ok_def)
next
  case (List_tools tools info)
  let ?cv0 = "case info of None \<Rightarrow> cv | Some i \<Rightarrow> cv\<lparr>cv_init := cv_init cv @ [with_policies srv i]\<rparr>"
  have "foldE (register_tool srv) (js_sort (name_cmp tl_name) tools) ?cv0 = Inr cv'"
    using assms(2) List_tools by (simp add: convert_server_def)
  moreover have "convert_ok ?cv0" using assms(1) by (auto simp: convert_ok_def split: option.splits)
  ultimately show ?thesis
  proof (rule foldE_invariant)
    fix t u v
    assume "t \<in> set (js_sort (name_cmp tl_name) tools)" "convert_ok u" "register_tool srv t u = Inr v"
    then show "convert_ok v" using convert_ok_register assms(3) List_tools by auto
  qed
qed

lemma mapE_pairs:
  "mapE (\<lambda>s. bindE (f s) (\<lambda>r. Inr (s, r))) xs = Inr ys \<Longrightarrow> (s, r) \<in> set ys \<Longrightarrow> f s = Inr r \<and> s \<in> set xs"
  by (induction xs arbitrary: ys) (auto simp: bindE_Inr_iff)

text \<open>
  C21. The tools handed to the model have distinct names a provider accepts, the mapping has exactly these
  names, and each name leads to a tool that its tool set lists as preloaded.
\<close>

theorem converted_tools_ok:
  assumes "convertMCPServersToTools managed user = Inr cv"
  shows "distinct (map cct_name (cv_tools cv)) \<and>
    set (js_keys (cv_mapping cv)) = set (map cct_name (cv_tools cv)) \<and>
    (\<forall>t \<in> set (cv_tools cv). length (cct_name t) \<le> MAX_TOOL_NAME_LENGTH \<and> list_all tool_name_char (cct_name t)) \<and>
    (\<forall>n m. js_get (cv_mapping cv) n = Some m \<longrightarrow> offers (mm_tool_set m) (mm_original_tool_name m))"
proof -
  obtain listed where l: "mapE (\<lambda>s. bindE (tv_list_tools s) (\<lambda>r. Inr (s, r))) (conversion_order managed user) = Inr listed"
    "foldE convert_server listed empty_convert = Inr cv"
    using assms by (auto simp: convertMCPServersToTools_def bindE_Inr_iff)
  have "convert_ok empty_convert" by (simp add: convert_ok_def empty_convert_def js_keys_def)
  from l(2) this have "convert_ok cv"
  proof (rule foldE_invariant)
    fix p u v
    assume p: "p \<in> set listed" "convert_ok u" "convert_server p u = Inr v"
    obtain srv r where "p = (srv, r)" by (cases p)
    then show "convert_ok v" using p convert_ok_server mapE_pairs[OF l(1)] by metis
  qed
  then show ?thesis by (simp add: convert_ok_def)
qed

section \<open>Selectors\<close>

lemma matches_any:
  "toolMatchesAnySelector name an sels \<longleftrightarrow>
     (\<exists>sel \<in> set sels. case map_of TOOL_TAGS sel of Some tag \<Rightarrow> toolMatchesTag tag an | None \<Rightarrow> sel = name)"
  by (induction name an sels rule: toolMatchesAnySelector.induct) (auto split: option.splits)

lemma policy_resolved:
  assumes "distinct (map tl_name tools)" and "t \<in> set tools"
  shows "isAllowed (fst (filterAndAnnotate p tools)) (tl_name t) an = policy_allows p (tl_name t) (tl_annotations t)"
proof -
  have "tl_name t \<in> tl_name ` {x \<in> set tools. policy_allows p (tl_name x) (tl_annotations x)} \<longleftrightarrow>
      policy_allows p (tl_name t) (tl_annotations t)"
    using assms by (auto simp: distinct_map inj_on_def image_iff)
  then show ?thesis by (simp add: isAllowed_def filterAndAnnotate_def Let_def)
qed

text \<open>
  A policy decides about a listed tool as its selectors do, whether or not it has listed the tools, a
  disabled tool is never allowed, and a tool the server does not list is refused once the list is known.
\<close>

theorem selector_policy_consistent:
  assumes "distinct (map tl_name tools)" and "t \<in> set tools" and "tsp_resolved p = None"
  defines "p' \<equiv> fst (filterAndAnnotate p tools)"
  shows "isAllowed p' (tl_name t) (tl_annotations t) = isAllowed p (tl_name t) (tl_annotations t) \<and>
    (toolMatchesAnySelector (tl_name t) (tl_annotations t) (tsp_disable p) \<longrightarrow>
       \<not> isAllowed p' (tl_name t) (tl_annotations t)) \<and>
    (\<forall>n an. n \<notin> set (map tl_name tools) \<longrightarrow> \<not> isAllowed p' n an) \<and>
    map tl_name (snd (filterAndAnnotate p tools)) =
      filter (\<lambda>n. isAllowed p' n None) (map tl_name tools)"
proof -
  have resolved: "tsp_resolved p' = Some (map tl_name (filter (\<lambda>t. policy_allows p (tl_name t) (tl_annotations t)) tools))"
    by (simp add: p'_def filterAndAnnotate_def Let_def)
  have each: "isAllowed p' (tl_name x) an = policy_allows p (tl_name x) (tl_annotations x)" if "x \<in> set tools" for x an
    unfolding p'_def by (rule policy_resolved[OF assms(1) that])
  have "map tl_name (snd (filterAndAnnotate p tools)) =
      map tl_name (filter (\<lambda>t. policy_allows p (tl_name t) (tl_annotations t)) tools)"
    by (simp add: filterAndAnnotate_def Let_def comp_def)
  also have "\<dots> = map tl_name (filter (\<lambda>t. isAllowed p' (tl_name t) None) tools)"
    using each by (metis (mono_tags, lifting) filter_cong)
  also have "\<dots> = filter (\<lambda>n. isAllowed p' n None) (map tl_name tools)" by (simp add: filter_map comp_def)
  finally have names: "map tl_name (snd (filterAndAnnotate p tools)) =
      filter (\<lambda>n. isAllowed p' n None) (map tl_name tools)" .
  have "isAllowed p (tl_name t) (tl_annotations t) = policy_allows p (tl_name t) (tl_annotations t)"
    using assms(3) by (simp add: isAllowed_def)
  moreover have "toolMatchesAnySelector (tl_name t) (tl_annotations t) (tsp_disable p) \<Longrightarrow>
      \<not> policy_allows p (tl_name t) (tl_annotations t)"
    by (simp add: policy_allows_def isToolAllowed_def)
  moreover have "\<not> isAllowed p' n an" if "n \<notin> set (map tl_name tools)" for n an
    using that resolved by (auto simp: isAllowed_def)
  ultimately show ?thesis using each[OF assms(2)] names by simp
qed

section \<open>Cursor pagination\<close>

text \<open>
  C24. The pagination of an MCP list returns whenever the server hands out finitely many different cursors,
  even when it repeats them forever.
\<close>

theorem cursor_pagination_returns:
  assumes "finite cursors"
    and "\<And>n c items nxt. fetch n c = Inr (items, Some nxt) \<Longrightarrow> nxt \<in> cursors"
  shows "\<exists>r. paginateWithCursorGuard fetch = Some r"
proof -
  have loop: "\<exists>r. cursor_loop fetch n items seen cursor = Some r"
    if "set seen \<subseteq> cursors" "\<And>c. cursor = Some c \<Longrightarrow> c \<in> cursors" for n items seen cursor
    using that
  proof (induction "card (cursors - set seen)" arbitrary: n items seen cursor rule: less_induct)
    case less
    show ?case
    proof (cases cursor)
      case None
      then show ?thesis by (subst cursor_loop.simps) simp
    next
      case (Some c)
      show ?thesis
      proof (cases "c = '''' \<or> c \<in> set seen")
        case True
        then show ?thesis using Some by (subst cursor_loop.simps) auto
      next
        case False
        show ?thesis
        proof (cases "fetch n (Some c)")
          case (Inl e)
          then show ?thesis using Some False by (subst cursor_loop.simps) simp
        next
          case (Inr p)
          obtain m nxt where p: "p = (m, nxt)" by (cases p)
          have "c \<in> cursors" using less.prems(2) Some by blast
          then have "card (cursors - set (seen @ [c])) < card (cursors - set seen)"
            using assms(1) False by (intro psubset_card_mono) auto
          moreover have "set (seen @ [c]) \<subseteq> cursors" using less.prems(1) \<open>c \<in> cursors\<close> by simp
          moreover have "d \<in> cursors" if "nxt = Some d" for d using assms(2) Inr p that by blast
          ultimately have "\<exists>r. cursor_loop fetch (n + 1) (items @ m) (seen @ [c]) nxt = Some r"
            using less.hyps by blast
          then show ?thesis using Some False Inr p by (subst cursor_loop.simps) simp
        qed
      qed
    qed
  qed
  show ?thesis
  proof (cases "fetch 0 None")
    case (Inr p)
    obtain items nxt where "p = (items, nxt)" by (cases p)
    then show ?thesis using loop[of "[]" nxt 1 items] Inr assms(2)[of 0 None items]
      by (cases nxt) (simp_all add: paginateWithCursorGuard_def)
  qed (simp add: paginateWithCursorGuard_def)
qed

section \<open>Concrete inputs\<close>

definition demo_tool :: "string \<Rightarrow> agent_tool_schema" where
  "demo_tool name =
     \<lparr>tl_name = name, tl_description = None,
      tl_input_schema = \<lparr>tis_properties = None, tis_required = None, tis_defs = None, tis_definitions = None\<rparr>,
      tl_annotations = Some \<lparr>an_read_only_hint = Some True, an_destructive_hint = None\<rparr>, tl_preload = True\<rparr>"

definition demo_set :: "string \<Rightarrow> tool_set_view" where
  "demo_set name =
     \<lparr>tv_name = name, tv_preload = True, tv_has_preloaded_tools = True, tv_approval_policies = [],
      tv_list_tools = Inr (List_tools [demo_tool ''read file'', demo_tool ''list''] None)\<rparr>"

text \<open>Two servers offer the same two tools: the second gets numbered names.\<close>

lemma converted_tools_ok_witness:
  "case convertMCPServersToTools [demo_set ''a''] [demo_set ''b''] of
     Inl e \<Rightarrow> False
   | Inr cv \<Rightarrow> map cct_name (cv_tools cv) = [''list'', ''read_file'', ''list1'', ''read_file1''] \<and>
       set (js_keys (cv_mapping cv)) = {''list'', ''read_file'', ''list1'', ''read_file1''}"
proof -
  have names: "map_sum id (\<lambda>cv. map cct_name (cv_tools cv)) (convertMCPServersToTools [demo_set ''a''] [demo_set ''b'']) =
      Inr [''list'', ''read_file'', ''list1'', ''read_file1'']"
    by code_simp
  then obtain cv where cv: "convertMCPServersToTools [demo_set ''a''] [demo_set ''b''] = Inr cv"
    "map cct_name (cv_tools cv) = [''list'', ''read_file'', ''list1'', ''read_file1'']"
    by (cases "convertMCPServersToTools [demo_set ''a''] [demo_set ''b'']") auto
  then show ?thesis using converted_tools_ok[OF cv(1)] by simp
qed

definition demo_policy :: tool_selector_policy where
  "demo_policy =
     new_policy \<lparr>tsc_enable = [''@read-only''], tsc_disable = [''list''], tsc_preload = [],
                 tsc_require_approval = None\<rparr> False"

lemma selector_policy_consistent_witness:
  "(let p = fst (filterAndAnnotate demo_policy [demo_tool ''read'', demo_tool ''list''])
    in isAllowed p ''read'' None \<and> \<not> isAllowed p ''list'' None \<and> \<not> isAllowed p ''other'' None)"
proof -
  let ?ts = "[demo_tool ''read'', demo_tool ''list'']"
  have "distinct (map tl_name ?ts)" "tsp_resolved demo_policy = None" "demo_tool ''read'' \<in> set ?ts"
    by code_simp+
  then have *: "\<And>n an. n \<notin> set (map tl_name ?ts) \<Longrightarrow> \<not> isAllowed (fst (filterAndAnnotate demo_policy ?ts)) n an"
    "map tl_name (snd (filterAndAnnotate demo_policy ?ts)) =
       filter (\<lambda>n. isAllowed (fst (filterAndAnnotate demo_policy ?ts)) n None) (map tl_name ?ts)"
    using selector_policy_consistent[of ?ts "demo_tool ''read''" demo_policy] by blast+
  have "map tl_name (snd (filterAndAnnotate demo_policy ?ts)) = [''read'']"
    "map tl_name ?ts = [''read'', ''list'']" by code_simp+
  then show ?thesis using * by (auto split: if_splits)
qed

text \<open>A server that answers every request with the same page and the same next cursor.\<close>

lemma cursor_pagination_returns_witness:
  "\<exists>r. paginateWithCursorGuard (\<lambda>n c. Inr ([n], Some ''again'') :: string + (nat list \<times> string option)) = Some r"
  by (rule cursor_pagination_returns[of "{''again''}"]) simp_all

end
