(* ===== verification/Tool_Calls.thy ===== *)
theory Tool_Calls
  imports Tool_Selection
begin

text \<open>
  Calling tools: \<open>core/mcp/ToolSet.ts\<close>, \<open>IMCPServer.ts\<close>, \<open>LocalToolMCP.ts\<close> and \<open>executeToolCalls.ts\<close>.

  A \<open>tool_source\<close> is a server behind the \<open>ToolSource\<close> interface: its operations are functions over a state
  \<open>'s\<close> that stands for whatever a call changes. A tool set is the pair of its own state (selector policy
  and approval policies) and the state of its source. \<open>executeToolCalls\<close> runs the calls of one message
  concurrently, so it takes the outcome of the \<open>n\<close>-th call as an argument, whatever the interleaving was.
  \<open>JSON.parse\<close> and \<open>JSON.stringify\<close> are the arguments \<open>json_parse\<close> and \<open>stringify\<close>.
\<close>

section \<open>Responses\<close>

datatype content_block = Text_block string | Other_block json

datatype tool_content = Content_blocks "content_block list" | Content_other json

record call_tool_result =
  ctr_content :: tool_content
  ctr_structured :: "json option"
  ctr_is_error :: bool

record call_resolved =
  cr_result :: call_tool_result
  cr_was_initialized :: "mcp_server_init_info option"
  cr_sandbox_created :: bool
  cr_sandbox_info :: "sandbox_info option"
  cr_events :: "json list"

datatype call_tool_response =
    Call_result call_resolved
  | Call_auth_required "mcp_server_auth_info list"
  | Call_create_sub_agent agent_info
  | Call_approval_required internal_tool_call_info
  | Call_client_side_required internal_tool_call_info

definition toolResultResponse :: "string \<Rightarrow> bool \<Rightarrow> call_tool_response" where
  "toolResultResponse txt isError =
     Call_result
       \<lparr>cr_result = \<lparr>ctr_content = Content_blocks [Text_block txt], ctr_structured = None,
                      ctr_is_error = isError\<rparr>,
        cr_was_initialized = None, cr_sandbox_created = False, cr_sandbox_info = None, cr_events = []\<rparr>"

record call_params =
  cp_name :: string
  cp_arguments :: json

section \<open>Tool sources\<close>

record 's tool_source =
  tsrc_name :: string
  tsrc_id :: string
  tsrc_list :: "'s \<Rightarrow> 's \<times> (tool_error + list_tools_response)"
  tsrc_call :: "call_params \<Rightarrow> approval_decision option \<Rightarrow> 's \<Rightarrow> 's \<times> (tool_error + call_tool_response)"
  tsrc_info :: "call_params \<Rightarrow> bool option \<Rightarrow> 's \<Rightarrow> 's \<times> (tool_error + internal_tool_call_info)"

definition MCP_ERROR_PREFIX :: string where "MCP_ERROR_PREFIX = ''[MCP Error]''"

definition applyErrorPrefix :: "string \<Rightarrow> string \<Rightarrow> string" where
  "applyErrorPrefix p msg = (if take (length p) msg = p then msg else p @ '' '' @ msg)"

definition McpConnectionError :: "string \<Rightarrow> nat \<Rightarrow> tool_error" where
  "McpConnectionError msg status = Mcp_connection_error (applyErrorPrefix MCP_ERROR_PREFIX msg) status"

section \<open>Tool sets\<close>

record tool_set_state =
  tss_policy :: tool_selector_policy
  tss_approvals :: "(string, tool_approval_policy_action) js_map"

definition isPolicyApplicable :: "tool_approval_policy_action \<Rightarrow> int \<Rightarrow> bool" where
  "isPolicyApplicable a asOf =
     (case tap_expire_at a of
        None \<Rightarrow> True
      | Some t \<Rightarrow> (case date_parse t of None \<Rightarrow> False | Some ms \<Rightarrow> ms > asOf))"

definition new_tool_set ::
    "tool_selector_config \<Rightarrow> bool \<Rightarrow> (string, tool_approval_policy_action) js_map option \<Rightarrow> int
       \<Rightarrow> tool_set_state" where
  "new_tool_set c preload policies asOf =
     \<lparr>tss_policy = new_policy c preload,
      tss_approvals =
        fold (\<lambda>(n, a) m. if isPolicyApplicable a asOf then js_set n a m else m)
          (case policies of None \<Rightarrow> [] | Some ps \<Rightarrow> ps) []\<rparr>"

definition setApprovalPolicy :: "string \<Rightarrow> tool_approval_policy_action \<Rightarrow> tool_set_state \<Rightarrow> tool_set_state" where
  "setApprovalPolicy name a ts = ts\<lparr>tss_approvals := js_set name a (tss_approvals ts)\<rparr>"

definition getApprovalPolicies :: "tool_set_state \<Rightarrow> (string, tool_approval_policy_action) js_map" where
  "getApprovalPolicies ts = tss_approvals ts"

definition hasApplicableApprovalPolicy :: "tool_set_state \<Rightarrow> string \<Rightarrow> int \<Rightarrow> bool" where
  "hasApplicableApprovalPolicy ts name now =
     (case js_get (tss_approvals ts) name of None \<Rightarrow> False | Some a \<Rightarrow> isPolicyApplicable a now)"

definition findAnnotations :: "agent_tool_schema list \<Rightarrow> string \<Rightarrow> tool_annotations option" where
  "findAnnotations tools name = Option.bind (List.find (\<lambda>t. tl_name t = name) tools) tl_annotations"

fun join :: "string \<Rightarrow> string list \<Rightarrow> string" where
  "join sep [] = ''''"
| "join sep [x] = x"
| "join sep (x # y # xs) = x @ sep @ join sep (y # xs)"

definition ts_listTools ::
    "'s tool_source \<Rightarrow> tool_set_state \<times> 's \<Rightarrow> (tool_set_state \<times> 's) \<times> (tool_error + list_tools_response)" where
  "ts_listTools src st =
     (case st of (ts, s) \<Rightarrow>
      case tsrc_list src s of
        (s', Inl e) \<Rightarrow> ((ts, s'), Inl e)
      | (s', Inr (List_auth_required servers)) \<Rightarrow> ((ts, s'), Inr (List_auth_required servers))
      | (s', Inr (List_tools tools wasInit)) \<Rightarrow>
          let missing = missingEnableLiterals (tss_policy ts) tools in
          if missing \<noteq> []
          then ((ts, s'), Inl (McpConnectionError
                  (''Requested tools not found in MCP server '' @ tsrc_name src @ '': '' @ join '', '' missing) 422))
          else (case filterAndAnnotate (tss_policy ts) tools of
                  (p', out) \<Rightarrow> ((ts\<lparr>tss_policy := p'\<rparr>, s'), Inr (List_tools out wasInit))))"

definition approval_needed :: "tool_set_state \<Rightarrow> string \<Rightarrow> tool_annotations option \<Rightarrow> int \<Rightarrow> bool" where
  "approval_needed ts name an now =
     (requiresApproval (tss_policy ts) name an \<and> \<not> hasApplicableApprovalPolicy ts name now)"

definition buildToolCallInfo ::
    "'s tool_source \<Rightarrow> int \<Rightarrow> call_params \<Rightarrow> tool_annotations option \<Rightarrow> bool option \<Rightarrow> tool_set_state \<times> 's
       \<Rightarrow> (tool_set_state \<times> 's) \<times> (tool_error + internal_tool_call_info)" where
  "buildToolCallInfo src now params an resolve st =
     (case st of (ts, s) \<Rightarrow>
      case tsrc_info src params resolve s of
        (s', Inl e) \<Rightarrow> ((ts, s'), Inl e)
      | (s', Inr info) \<Rightarrow>
          ((ts, s'), Inr (info\<lparr>ti_is_approval_required := Some (approval_needed ts (cp_name params) an now)\<rparr>)))"

definition deny_text :: "(json \<Rightarrow> string) \<Rightarrow> string option \<Rightarrow> string" where
  "deny_text stringify reason =
     stringify (JObj [(''error'', JStr (''User denied tool call: '' @
       (case reason of None \<Rightarrow> ''no reason provided'' | Some r \<Rightarrow> r)))])"

definition carry_init :: "mcp_server_init_info option \<Rightarrow> call_tool_response \<Rightarrow> call_tool_response" where
  "carry_init listed r =
     (case (listed, r) of
        (Some i, Call_result c) \<Rightarrow>
          if cr_was_initialized c = None then Call_result (c\<lparr>cr_was_initialized := Some i\<rparr>) else r
      | _ \<Rightarrow> r)"

definition ts_callTool ::
    "(json \<Rightarrow> string) \<Rightarrow> 's tool_source \<Rightarrow> int \<Rightarrow> call_params \<Rightarrow> approval_decision option \<Rightarrow> tool_set_state \<times> 's
       \<Rightarrow> (tool_set_state \<times> 's) \<times> (tool_error + call_tool_response)" where
  "ts_callTool stringify src now params decision st =
     (case st of (ts, s) \<Rightarrow>
      case tsrc_list src s of
        (s1, Inl e) \<Rightarrow> ((ts, s1), Inl e)
      | (s1, Inr (List_auth_required servers)) \<Rightarrow> ((ts, s1), Inr (Call_auth_required servers))
      | (s1, Inr (List_tools tools wasInit)) \<Rightarrow>
          let an = findAnnotations tools (cp_name params) in
          if \<not> isAllowed (tss_policy ts) (cp_name params) an
          then ((ts, s1), Inl (McpConnectionError
                  (''Tool '' @ CHR 0x27 # cp_name params @ CHR 0x27 # '' is not allowed on MCP server '' @ tsrc_name src)
                  403))
          else (case buildToolCallInfo src now params an None (ts, s1) of
                  (st2, Inl e) \<Rightarrow> (st2, Inl e)
                | ((ts2, s2), Inr info) \<Rightarrow>
                    if decision = None \<and> ti_is_approval_required info = Some True
                    then ((ts2, s2), Inr (Call_approval_required info))
                    else (case decision of
                            Some (Approval_deny reason) \<Rightarrow>
                              ((ts2, s2), Inr (toolResultResponse (deny_text stringify reason) True))
                          | _ \<Rightarrow>
                              (case tsrc_call src params decision s2 of
                                 (s3, Inl e) \<Rightarrow> ((ts2, s3), Inl e)
                               | (s3, Inr r) \<Rightarrow> ((ts2, s3), Inr (carry_init wasInit r))))))"

definition ts_toolCallInfo ::
    "'s tool_source \<Rightarrow> int \<Rightarrow> call_params \<Rightarrow> bool option \<Rightarrow> tool_set_state \<times> 's
       \<Rightarrow> (tool_set_state \<times> 's) \<times> (tool_error + internal_tool_call_info)" where
  "ts_toolCallInfo src now params resolve st =
     (case st of (ts, s) \<Rightarrow>
      case tsrc_list src s of
        (s1, Inl e) \<Rightarrow> ((ts, s1), Inl e)
      | (s1, Inr (List_auth_required servers)) \<Rightarrow> buildToolCallInfo src now params None resolve (ts, s1)
      | (s1, Inr (List_tools tools wasInit)) \<Rightarrow>
          buildToolCallInfo src now params (findAnnotations tools (cp_name params)) resolve (ts, s1))"

section \<open>Local tools\<close>

record 's local_tool =
  lt_schema :: agent_tool_schema
  lt_execute :: "json \<Rightarrow> approval_decision option \<Rightarrow> 's \<Rightarrow> 's \<times> (tool_error + call_tool_response)"

text \<open>\<open>withValidatedInput\<close>: \<open>parse\<close> is the \<open>safeParse\<close> of the tool's schema, with its error as JSON.\<close>

definition withValidatedInput ::
    "(json \<Rightarrow> string) \<Rightarrow> (json \<Rightarrow> json + 'i)
       \<Rightarrow> ('i \<Rightarrow> approval_decision option \<Rightarrow> 's \<Rightarrow> 's \<times> (tool_error + call_tool_response))
       \<Rightarrow> json \<Rightarrow> approval_decision option \<Rightarrow> 's \<Rightarrow> 's \<times> (tool_error + call_tool_response)" where
  "withValidatedInput stringify parse fn raw decision s =
     (case parse raw of
        Inl details \<Rightarrow>
          (s, Inr (toolResultResponse
             (stringify (JObj [(''error'', JStr ''Validation failed''), (''details'', details)])) True))
      | Inr inp \<Rightarrow> fn inp decision s)"

definition local_listTools :: "'s local_tool list \<Rightarrow> list_tools_response" where
  "local_listTools tools = List_tools (map (\<lambda>t. (lt_schema t)\<lparr>tl_preload := True\<rparr>) tools) None"

definition local_executeTool ::
    "(json \<Rightarrow> string) \<Rightarrow> 's local_tool list \<Rightarrow> call_params \<Rightarrow> approval_decision option \<Rightarrow> 's
       \<Rightarrow> 's \<times> (tool_error + call_tool_response)" where
  "local_executeTool stringify tools params decision s =
     (case List.find (\<lambda>t. tl_name (lt_schema t) = cp_name params) tools of
        None \<Rightarrow>
          (s, Inr (toolResultResponse
             (stringify (JObj [(''error'', JStr (''Unknown tool: '' @ cp_name params))])) True))
      | Some t \<Rightarrow> lt_execute t (cp_arguments params) decision s)"

definition local_toolCallInfo :: "string \<Rightarrow> call_params \<Rightarrow> internal_tool_call_info" where
  "local_toolCallInfo name params =
     \<lparr>ti_type = Truefoundry_system, ti_server_id = name, ti_server_name = name,
      ti_original_tool_name = cp_name params, ti_is_approval_required = Some False, ti_is_deferred = None,
      ti_is_client_side = None, ti_is_thread_creation = None\<rparr>"

text \<open>The tracing span and the metrics around a local call are left out: they do not change its result.\<close>

definition local_source :: "(json \<Rightarrow> string) \<Rightarrow> string \<Rightarrow> 's local_tool list \<Rightarrow> 's tool_source" where
  "local_source stringify name tools =
     \<lparr>tsrc_name = name, tsrc_id = name,
      tsrc_list = (\<lambda>s. (s, Inr (local_listTools tools))),
      tsrc_call = local_executeTool stringify tools,
      tsrc_info = (\<lambda>params resolve s. (s, Inr (local_toolCallInfo name params)))\<rparr>"

section \<open>The calls of one message\<close>

record tool_call_result =
  tcr_message :: llm_tool_message
  tcr_info :: "mapped_mcp_tool option"
  tcr_failure :: bool
  tcr_structured :: bool
  tcr_completed_at :: string

record create_sub_agent =
  csa_thread_id :: string
  csa_tool_call_id :: string
  csa_agent_info :: agent_info

record execute_result =
  er_results :: "tool_call_result list"
  er_init :: "mcp_server_init_info list"
  er_create :: "create_sub_agent list"
  er_sandbox :: "sandbox_info option"
  er_auth :: "mcp_server_auth_info list list"
  er_approval :: "internal_tool_call list"
  er_client :: "internal_tool_call list"
  er_events :: "json list"

definition empty_result :: execute_result where
  "empty_result =
     \<lparr>er_results = [], er_init = [], er_create = [], er_sandbox = None, er_auth = [], er_approval = [],
      er_client = [], er_events = []\<rparr>"

fun is_json_object :: "json \<Rightarrow> bool" where
  "is_json_object (JObj fs) = True"
| "is_json_object v = False"

definition parseToolCallArguments :: "(string \<Rightarrow> string + json) \<Rightarrow> string \<Rightarrow> string + json" where
  "parseToolCallArguments json_parse raw =
     (case json_parse (if raw = '''' then ''{}'' else raw) of
        Inl msg \<Rightarrow> Inl msg
      | Inr v \<Rightarrow> if \<not> is_json_object v then Inl ''Tool call arguments must be a JSON object'' else Inr v)"

fun error_text :: "tool_error \<Rightarrow> string" where
  "error_text (Tool_name_collision n) =
     ''Tool name collision limit exceeded for '' @ CHR 0x22 # n @ CHR 0x22 # '': more than 50 duplicates across MCP servers''"
| "error_text (Mcp_connection_error msg status) = msg"
| "error_text (Other_error msg) = msg"
| "error_text Not_an_error = ''Tool execution failed''"

text \<open>One call: the mapped tool, if the name is known, its response, and whether it failed.\<close>

definition run_call ::
    "(json \<Rightarrow> string) \<Rightarrow> (string \<Rightarrow> string + json)
       \<Rightarrow> (tool_set_view \<Rightarrow> call_params \<Rightarrow> approval_decision option \<Rightarrow> tool_error + call_tool_response)
       \<Rightarrow> (string, mapped_mcp_tool) js_map \<Rightarrow> (string, approval_decision) js_map \<Rightarrow> internal_tool_call
       \<Rightarrow> mapped_mcp_tool option \<times> call_tool_response \<times> bool" where
  "run_call stringify json_parse call mapping decisions tc =
     (case js_get mapping (tc_name tc) of
        None \<Rightarrow> (None, toolResultResponse (''Tool '' @ tc_name tc @ '' not found in tool mapping'') False, True)
      | Some info \<Rightarrow>
          (case parseToolCallArguments json_parse (tc_arguments tc) of
             Inl parse_error \<Rightarrow>
               (Some info,
                toolResultResponse
                  (stringify (JObj [(''error'', JStr ''Failed to parse tool call arguments as JSON''),
                                    (''parse_error'', JStr parse_error)])) True,
                True)
           | Inr args \<Rightarrow>
               (case call (mm_tool_set info) \<lparr>cp_name = mm_original_tool_name info, cp_arguments = args\<rparr>
                       (js_get decisions (tc_id tc)) of
                  Inr r \<Rightarrow> (Some info, r, False)
                | Inl e \<Rightarrow>
                    (Some info, toolResultResponse (stringify (JObj [(''error'', JStr (error_text e))])) True,
                     True))))"

fun block_json :: "content_block \<Rightarrow> json" where
  "block_json (Text_block t) = JObj [(''type'', JStr ''text''), (''text'', JStr t)]"
| "block_json (Other_block v) = v"

fun content_json :: "tool_content \<Rightarrow> json" where
  "content_json (Content_blocks bs) = JArr (map block_json bs)"
| "content_json (Content_other v) = v"

fun block_texts :: "content_block list \<Rightarrow> string list" where
  "block_texts [] = []"
| "block_texts (Text_block t # bs) = t # block_texts bs"
| "block_texts (Other_block v # bs) = block_texts bs"

definition result_content :: "(json \<Rightarrow> string) \<Rightarrow> call_tool_result \<Rightarrow> string \<times> bool" where
  "result_content stringify r =
     (if ctr_is_error r then (stringify (JObj [(''error'', content_json (ctr_content r))]), False)
      else case ctr_structured r of
        Some v \<Rightarrow> (stringify v, True)
      | None \<Rightarrow>
          (case ctr_content r of
             Content_blocks bs \<Rightarrow>
               let t = join newline (block_texts bs)
               in (if t \<noteq> '''' then t else stringify (content_json (Content_blocks bs)), False)
           | Content_other v \<Rightarrow> (stringify v, False)))"

definition AUTH_WAIT_CONTENT :: string where
  "AUTH_WAIT_CONTENT = ''Waiting for user to authenticate. Please try again 1 time.''"

definition collect_call ::
    "(json \<Rightarrow> string) \<Rightarrow> string \<Rightarrow> internal_tool_call \<times> string \<times> mapped_mcp_tool option \<times> call_tool_response \<times> bool
       \<Rightarrow> execute_result \<Rightarrow> execute_result" where
  "collect_call stringify thread_id out acc =
     (case out of (tc, completed, info, response, failure) \<Rightarrow>
      (case response of
         Call_create_sub_agent ai \<Rightarrow>
           acc\<lparr>er_create := er_create acc @
             [\<lparr>csa_thread_id = thread_id, csa_tool_call_id = tc_id tc, csa_agent_info = ai\<rparr>]\<rparr>
       | Call_auth_required servers \<Rightarrow>
           acc\<lparr>er_auth := er_auth acc @ [servers],
               er_results := er_results acc @
                 [\<lparr>tcr_message = \<lparr>tm_tool_call_id = tc_id tc, tm_content = AUTH_WAIT_CONTENT\<rparr>,
                   tcr_info = info, tcr_failure = True, tcr_structured = False, tcr_completed_at = completed\<rparr>]\<rparr>
       | Call_approval_required ti \<Rightarrow> acc\<lparr>er_approval := er_approval acc @ [tc]\<rparr>
       | Call_client_side_required ti \<Rightarrow> acc\<lparr>er_client := er_client acc @ [tc]\<rparr>
       | Call_result c \<Rightarrow>
           (case result_content stringify (cr_result c) of (content, structured) \<Rightarrow>
            acc\<lparr>er_results := er_results acc @
                  [\<lparr>tcr_message = \<lparr>tm_tool_call_id = tc_id tc, tm_content = content\<rparr>,
                    tcr_info = info, tcr_failure = failure, tcr_structured = structured,
                    tcr_completed_at = completed\<rparr>],
                er_init := er_init acc @ (case cr_was_initialized c of None \<Rightarrow> [] | Some i \<Rightarrow> [i]),
                er_sandbox := (if cr_sandbox_created c \<and> cr_sandbox_info c \<noteq> None then cr_sandbox_info c
                               else er_sandbox acc),
                er_events := er_events acc @ cr_events c\<rparr>)))"

text \<open>\<open>call n\<close> and \<open>completed n\<close> are the outcome and the completion time of the \<open>n\<close>-th call.\<close>

definition executeToolCalls ::
    "(json \<Rightarrow> string) \<Rightarrow> (string \<Rightarrow> string + json)
       \<Rightarrow> (nat \<Rightarrow> tool_set_view \<Rightarrow> call_params \<Rightarrow> approval_decision option \<Rightarrow> tool_error + call_tool_response)
       \<Rightarrow> (nat \<Rightarrow> string) \<Rightarrow> internal_assistant_message \<Rightarrow> (string, mapped_mcp_tool) js_map \<Rightarrow> string
       \<Rightarrow> (string, approval_decision) js_map \<Rightarrow> execute_result" where
  "executeToolCalls stringify json_parse call completed msg mapping thread_id decisions =
     (case am_tool_calls msg of
        None \<Rightarrow> empty_result
      | Some tcs \<Rightarrow>
          fold (collect_call stringify thread_id)
            (map (\<lambda>(n, tc). (tc, completed n, run_call stringify json_parse (call n) mapping decisions tc))
              (enumerate 0 tcs))
            empty_result)"

end
