(* ===== verification/Tool_Calls_Props.thy ===== *)
theory Tool_Calls_Props
  imports Tool_Calls Conversation_Props "HOL-Library.Sublist"
begin

text \<open>
  Approval: a call the user denied, or one that needs an approval nobody has given, never reaches the
  source. \<open>gated_calls\<close> is this contract between a tool set and whoever runs calls on it; it is
  discharged for \<open>ToolSet.callTool\<close> over a source that logs the calls it receives. Execution: every call of
  a message is accounted for exactly once.
\<close>

section \<open>The approval gate\<close>

definition is_denial :: "approval_decision option \<Rightarrow> bool" where
  "is_denial d = (\<exists>r. d = Some (Approval_deny r))"

text \<open>Calls made one after the other, with the decision each of them comes with.\<close>

fun run_calls :: "('p \<Rightarrow> approval_decision option \<Rightarrow> 's \<Rightarrow> 's \<times> 'r) \<Rightarrow> ('p \<times> approval_decision option) list \<Rightarrow> 's \<Rightarrow> 's" where
  "run_calls call [] s = s"
| "run_calls call ((p, d) # ps) s = run_calls call ps (fst (call p d s))"

locale gated_calls =
  fixes call :: "'p \<Rightarrow> approval_decision option \<Rightarrow> 's \<Rightarrow> 's \<times> 'r"
    and executed :: "'s \<Rightarrow> 'c list"
    and needs_approval :: "'p \<Rightarrow> 's \<Rightarrow> bool"
  assumes denied: "is_denial d \<Longrightarrow> executed (fst (call p d s)) = executed s"
    and undecided: "needs_approval p s \<Longrightarrow> executed (fst (call p None s)) = executed s"
begin

lemma denied_batch:
  assumes "\<forall>(p, d) \<in> set ps. is_denial d"
  shows "executed (run_calls call ps s) = executed s"
  using assms
proof (induction ps arbitrary: s)
  case (Cons x ps)
  obtain p d where x: "x = (p, d)" by (cases x)
  with Cons.prems have "executed (fst (call p d s)) = executed s" by (intro denied) auto
  then show ?case using Cons x by simp
qed simp

lemma executed_needs_allow:
  assumes "executed (fst (call p d s)) \<noteq> executed s" and "needs_approval p s"
  shows "d = Some Approval_allow"
proof (cases d)
  case None
  then show ?thesis using assms undecided by blast
next
  case (Some x)
  then show ?thesis using assms(1) denied[of d p s] by (cases x) (auto simp: is_denial_def)
qed

end

text \<open>A source that records the calls that reach it.\<close>

definition logging :: "'s tool_source \<Rightarrow> (call_params list \<times> 's) tool_source" where
  "logging src =
     \<lparr>tsrc_name = tsrc_name src, tsrc_id = tsrc_id src,
      tsrc_list = (\<lambda>(lg, s). case tsrc_list src s of (s', r) \<Rightarrow> ((lg, s'), r)),
      tsrc_call = (\<lambda>params d (lg, s). case tsrc_call src params d s of (s', r) \<Rightarrow> ((lg @ [params], s'), r)),
      tsrc_info = (\<lambda>params res (lg, s). case tsrc_info src params res s of (s', r) \<Rightarrow> ((lg, s'), r))\<rparr>"

text \<open>Whether a call needs an approval, given what the source lists now.\<close>

definition call_needs_approval :: "'s tool_source \<Rightarrow> int \<Rightarrow> call_params \<Rightarrow> tool_set_state \<times> 's \<Rightarrow> bool" where
  "call_needs_approval src now params st =
     (case st of (ts, s) \<Rightarrow>
      case snd (tsrc_list src s) of
        Inr (List_tools tools w) \<Rightarrow>
          approval_needed ts (cp_name params) (findAnnotations tools (cp_name params)) now
      | _ \<Rightarrow> False)"

lemma logging_list: "fst (fst (tsrc_list (logging src) (lg, s))) = lg"
  by (simp add: logging_def split: prod.splits)

lemma logging_info: "fst (fst (tsrc_info (logging src) params res (lg, s))) = lg"
  by (simp add: logging_def split: prod.splits)

lemma build_info_log:
  "fst (snd (fst (buildToolCallInfo (logging src) now params an res (ts, lg, s)))) = lg"
  using logging_info[of src params res lg s]
  by (auto simp: buildToolCallInfo_def split: prod.splits sum.splits)

lemma build_info_approval:
  "snd (buildToolCallInfo src now params an res (ts, s)) = Inr info \<Longrightarrow>
     ti_is_approval_required info = Some (approval_needed ts (cp_name params) an now)"
  by (auto simp: buildToolCallInfo_def split: prod.splits sum.splits)

text \<open>The result of a call that stops before the source, as a function of the listing and the call info.\<close>

lemma stopped_call_log:
  assumes "is_denial d \<or> (d = None \<and> call_needs_approval (logging src) now params (ts, lg, s))"
  shows "fst (snd (fst (ts_callTool stringify (logging src) now params d (ts, lg, s)))) = lg"
proof -
  obtain s1 r where l: "tsrc_list (logging src) (lg, s) = ((lg, s1), r)"
    using logging_list[of src lg s] by (cases "tsrc_list (logging src) (lg, s)") (auto simp: prod_eq_iff)
  show ?thesis
  proof (cases "\<exists>tools w. r = Inr (List_tools tools w)")
    case True
    then obtain tools w where r: "r = Inr (List_tools tools w)" by blast
    let ?an = "findAnnotations tools (cp_name params)"
    obtain st2 i where b: "buildToolCallInfo (logging src) now params ?an None (ts, lg, s1) = (st2, i)"
      by (cases "buildToolCallInfo (logging src) now params ?an None (ts, lg, s1)")
    have "fst (snd st2) = lg" using build_info_log[of src now params ?an None ts lg s1] b by simp
    moreover have "ti_is_approval_required info = Some True" if "i = Inr info" "d = None" for info
      using build_info_approval[of "logging src" now params ?an None ts "(lg, s1)" info] b that assms l r
      by (simp add: is_denial_def call_needs_approval_def)
    ultimately show ?thesis using assms l r b
      by (auto simp: ts_callTool_def is_denial_def Let_def split: sum.splits prod.splits)
  next
    case False
    then show ?thesis using l by (auto simp: ts_callTool_def split: sum.splits list_tools_response.splits)
  qed
qed

interpretation ts_gate: gated_calls
  "ts_callTool stringify (logging src) now"
  "\<lambda>st. fst (snd st)"
  "call_needs_approval (logging src) now"
  for stringify :: "json \<Rightarrow> string" and src :: "'s tool_source" and now :: int
proof unfold_locales
  fix d p and st :: "tool_set_state \<times> call_params list \<times> 's"
  obtain ts lg s where st: "st = (ts, lg, s)" by (cases st)
  show "is_denial d \<Longrightarrow> fst (snd (fst (ts_callTool stringify (logging src) now p d st))) = fst (snd st)"
    using stopped_call_log[of d src now p ts lg s] by (simp add: st)
  show "call_needs_approval (logging src) now p st \<Longrightarrow>
      fst (snd (fst (ts_callTool stringify (logging src) now p None st))) = fst (snd st)"
    using stopped_call_log[of None src now p ts lg s] by (simp add: st)
qed

text \<open>
  C19. The approval gate of a tool set: when a tool needs an approval, a call of it reaches the source only
  with the decision \<open>allow\<close>, and a batch of denied calls reaches the source not at all.
\<close>

theorem approval_gate:
  "(call_needs_approval (logging src) now p (ts, lg, s) \<and>
      fst (snd (fst (ts_callTool stringify (logging src) now p d (ts, lg, s)))) \<noteq> lg \<longrightarrow>
      d = Some Approval_allow) \<and>
   ((\<forall>(p, d) \<in> set ps. is_denial d) \<longrightarrow>
      fst (snd (run_calls (ts_callTool stringify (logging src) now) ps (ts, lg, s))) = lg)"
  using ts_gate.executed_needs_allow[of stringify src now p d "(ts, lg, s)"]
    ts_gate.denied_batch[of ps stringify src now "(ts, lg, s)"] by auto

section \<open>Approval policies\<close>

definition all_applicable :: "int \<Rightarrow> (string, tool_approval_policy_action) js_map \<Rightarrow> bool" where
  "all_applicable asOf m = (\<forall>n a. js_get m n = Some a \<longrightarrow> isPolicyApplicable a asOf)"

lemma all_applicable_set: "isPolicyApplicable a asOf \<Longrightarrow> all_applicable asOf m \<Longrightarrow> all_applicable asOf (js_set n a m)"
  by (simp add: all_applicable_def)

lemma fold_policies:
  "all_applicable asOf m \<Longrightarrow>
     all_applicable asOf (fold (\<lambda>(n, a) m. if isPolicyApplicable a asOf then js_set n a m else m) ps m)"
  by (induction ps arbitrary: m) (simp_all add: all_applicable_set split_beta)

text \<open>
  A recorded approval policy suspends the approval of its own tool until it expires and of no other
  tool; a tool set starts with no policy that has expired; a tool no selector names needs no approval.
\<close>

theorem approval_policy_effect:
  "approval_needed (setApprovalPolicy name a ts) name an now =
     (requiresApproval (tss_policy ts) name an \<and> \<not> isPolicyApplicable a now) \<and>
   (other \<noteq> name \<longrightarrow> approval_needed (setApprovalPolicy name a ts) other an now = approval_needed ts other an now) \<and>
   (\<forall>n b. js_get (getApprovalPolicies (new_tool_set c preload policies asOf)) n = Some b \<longrightarrow>
      isPolicyApplicable b asOf) \<and>
   (\<forall>n. tsc_require_approval c = Some [] \<longrightarrow> \<not> approval_needed (new_tool_set c preload policies asOf) n an now)"
proof (intro conjI allI impI)
  fix n b
  assume "js_get (getApprovalPolicies (new_tool_set c preload policies asOf)) n = Some b"
  moreover have "all_applicable asOf (getApprovalPolicies (new_tool_set c preload policies asOf))"
    unfolding getApprovalPolicies_def new_tool_set_def tool_set_state.simps
    by (rule fold_policies) (simp add: all_applicable_def)
  ultimately show "isPolicyApplicable b asOf" unfolding all_applicable_def by blast
qed (auto simp: approval_needed_def setApprovalPolicy_def hasApplicableApprovalPolicy_def new_tool_set_def
    new_policy_def requiresApproval_def toolRequiresApproval_def)

section \<open>Executing the calls of a message\<close>

definition answered_ids :: "execute_result \<Rightarrow> string list" where
  "answered_ids r = map (\<lambda>x. tm_tool_call_id (tcr_message x)) (er_results r)"

definition accounted :: "execute_result \<Rightarrow> string multiset" where
  "accounted r = mset (answered_ids r) + mset (map csa_tool_call_id (er_create r)) +
     mset (map tc_id (er_approval r)) + mset (map tc_id (er_client r))"

lemma collect_accounts:
  "accounted (collect_call stringify tid (tc, completed, info, response, failure) acc) =
     add_mset (tc_id tc) (accounted acc)"
  by (cases response)
    (auto simp: collect_call_def accounted_def answered_ids_def split: prod.splits)

lemma collect_order:
  "\<exists>new. answered_ids (collect_call stringify tid (tc, completed, info, response, failure) acc) =
     answered_ids acc @ new \<and> subseq new [tc_id tc]"
  by (cases response) (auto simp: collect_call_def answered_ids_def split: prod.splits)

lemma fold_collect_accounts:
  "accounted (fold (collect_call stringify tid) outs acc) = accounted acc + mset (map (\<lambda>o'. tc_id (fst o')) outs)"
proof (induction outs arbitrary: acc)
  case (Cons out outs)
  obtain tc completed info response failure where "out = (tc, completed, info, response, failure)" by (cases out)
  then show ?case using Cons collect_accounts by simp
qed simp

lemma fold_collect_order:
  "\<exists>new. answered_ids (fold (collect_call stringify tid) outs acc) = answered_ids acc @ new \<and>
     subseq new (map (\<lambda>o'. tc_id (fst o')) outs)"
proof (induction outs arbitrary: acc)
  case (Cons out outs)
  obtain tc completed info response failure where out: "out = (tc, completed, info, response, failure)" by (cases out)
  let ?acc = "collect_call stringify tid out acc"
  obtain n1 where n1: "answered_ids ?acc = answered_ids acc @ n1" "subseq n1 [tc_id tc]"
    using collect_order out by blast
  obtain n2 where n2: "answered_ids (fold (collect_call stringify tid) outs ?acc) = answered_ids ?acc @ n2"
    "subseq n2 (map (\<lambda>o'. tc_id (fst o')) outs)" using Cons.IH by blast
  have "subseq (n1 @ n2) ([tc_id tc] @ map (\<lambda>o'. tc_id (fst o')) outs)"
    using n1(2) n2(2) by (rule list_emb_append_mono)
  then show ?case using n1 n2 out by auto
qed simp

text \<open>
  C20. Every tool call of an assistant message has exactly one fate, whatever the calls answer: a tool
  message, a sub-agent to create, a pending approval or a pending client response. The tool messages come
  in the order of the calls.
\<close>

theorem every_call_accounted_once:
  assumes "am_tool_calls msg = Some tcs"
    and "r = executeToolCalls stringify json_parse call completed msg mapping tid decisions"
  shows "mset (map (\<lambda>x. tm_tool_call_id (tcr_message x)) (er_results r)) + mset (map csa_tool_call_id (er_create r)) +
      mset (map tc_id (er_approval r)) + mset (map tc_id (er_client r)) = mset (map tc_id tcs) \<and>
    subseq (map (\<lambda>x. tm_tool_call_id (tcr_message x)) (er_results r)) (map tc_id tcs)"
proof -
  let ?outs = "map (\<lambda>(n, tc). (tc, completed n, run_call stringify json_parse (call n) mapping decisions tc)) (enumerate 0 tcs)"
  have r: "r = fold (collect_call stringify tid) ?outs empty_result"
    using assms by (simp add: executeToolCalls_def)
  have "map (\<lambda>o'. tc_id (fst o')) ?outs = map tc_id (map snd (enumerate 0 tcs))"
    by (simp only: map_map comp_def split_def fst_conv)
  then have ids: "map (\<lambda>o'. tc_id (fst o')) ?outs = map tc_id tcs" by simp
  have "accounted empty_result = {#}" "answered_ids empty_result = []"
    by (simp_all add: accounted_def answered_ids_def empty_result_def)
  then show ?thesis
    using fold_collect_accounts[of stringify tid ?outs empty_result]
      fold_collect_order[of stringify tid ?outs empty_result]
    unfolding r ids by (auto simp: accounted_def answered_ids_def)
qed

text \<open>
  Calling a tool the model invented, or with arguments that are not a JSON object, is answered by an
  error and no tool set is called.
\<close>

theorem invalid_calls_not_executed:
  assumes "js_get mapping (tc_name tc) = None \<or> (\<exists>e. parseToolCallArguments json_parse (tc_arguments tc) = Inl e)"
  shows "run_call stringify json_parse call mapping decisions tc = run_call stringify json_parse call' mapping decisions tc \<and>
    snd (snd (run_call stringify json_parse call mapping decisions tc)) \<and>
    (\<exists>c. fst (snd (run_call stringify json_parse call mapping decisions tc)) = Call_result c)"
  using assms by (auto simp: run_call_def toolResultResponse_def split: option.splits sum.splits)

section \<open>Concrete inputs\<close>

definition demo_write_tool :: agent_tool_schema where
  "demo_write_tool =
     \<lparr>tl_name = ''write'', tl_description = None,
      tl_input_schema = \<lparr>tis_properties = None, tis_required = None, tis_defs = None, tis_definitions = None\<rparr>,
      tl_annotations = Some \<lparr>an_read_only_hint = Some False, an_destructive_hint = None\<rparr>, tl_preload = True\<rparr>"

definition demo_source :: "nat tool_source" where
  "demo_source =
     \<lparr>tsrc_name = ''fs'', tsrc_id = ''fs-1'',
      tsrc_list = (\<lambda>s. (s, Inr (List_tools [demo_write_tool] None))),
      tsrc_call = (\<lambda>params d s. (s + 1, Inr (toolResultResponse ''done'' False))),
      tsrc_info = (\<lambda>params r s. (s, Inr (local_toolCallInfo ''fs'' params)))\<rparr>"

definition demo_config :: tool_selector_config where
  "demo_config = \<lparr>tsc_enable = [''@all''], tsc_disable = [], tsc_preload = [], tsc_require_approval = None\<rparr>"

definition demo_tool_set :: tool_set_state where
  "demo_tool_set = new_tool_set demo_config True None 0"

definition demo_params :: call_params where
  "demo_params = \<lparr>cp_name = ''write'', cp_arguments = JObj []\<rparr>"

definition demo_text :: "json \<Rightarrow> string" where "demo_text v = ''{}''"

lemma approval_gate_witness:
  "call_needs_approval (logging demo_source) 0 demo_params (demo_tool_set, [], 0) \<and>
   fst (snd (fst (ts_callTool demo_text (logging demo_source) 0 demo_params (Some Approval_allow)
     (demo_tool_set, [], 0)))) = [demo_params] \<and>
   fst (snd (fst (ts_callTool demo_text (logging demo_source) 0 demo_params None (demo_tool_set, [], 0)))) = [] \<and>
   fst (snd (run_calls (ts_callTool demo_text (logging demo_source) 0)
     [(demo_params, Some (Approval_deny None)), (demo_params, Some (Approval_deny (Some ''no'')))]
     (demo_tool_set, [], 0))) = []"
proof -
  have need: "call_needs_approval (logging demo_source) 0 demo_params (demo_tool_set, [], 0)" by code_simp
  have allow: "fst (snd (fst (ts_callTool demo_text (logging demo_source) 0 demo_params (Some Approval_allow)
     (demo_tool_set, [], 0)))) = [demo_params]" by code_simp
  show ?thesis
    using need allow
      approval_gate[of demo_source 0 demo_params demo_tool_set "[]" 0 demo_text None
        "[(demo_params, Some (Approval_deny None)), (demo_params, Some (Approval_deny (Some ''no'')))]"]
    by (auto simp: is_denial_def)
qed

lemma approval_policy_effect_witness:
  "approval_needed demo_tool_set ''write'' (tl_annotations demo_write_tool) 5 \<and>
   \<not> approval_needed (setApprovalPolicy ''write'' \<lparr>tap_expire_at = Some (Iso 9)\<rparr> demo_tool_set) ''write''
     (tl_annotations demo_write_tool) 5 \<and>
   approval_needed (setApprovalPolicy ''write'' \<lparr>tap_expire_at = Some (Iso 9)\<rparr> demo_tool_set) ''delete''
     (tl_annotations demo_write_tool) 5 \<and>
   (let ps = getApprovalPolicies (new_tool_set demo_config True
        (Some [(''write'', \<lparr>tap_expire_at = Some (Iso 9)\<rparr>), (''old'', \<lparr>tap_expire_at = Some (Iso 4)\<rparr>)]) 5)
    in js_get ps ''write'' = Some \<lparr>tap_expire_at = Some (Iso 9)\<rparr> \<and> js_get ps ''old'' = None \<and>
       isPolicyApplicable \<lparr>tap_expire_at = Some (Iso 9)\<rparr> 5)"
proof -
  let ?init = "Some [(''write'', \<lparr>tap_expire_at = Some (Iso 9)\<rparr>), (''old'', \<lparr>tap_expire_at = Some (Iso 4)\<rparr>)]"
  have "approval_needed demo_tool_set ''write'' (tl_annotations demo_write_tool) 5"
    "approval_needed demo_tool_set ''delete'' (tl_annotations demo_write_tool) 5"
    "isPolicyApplicable \<lparr>tap_expire_at = Some (Iso 9)\<rparr> 5"
    "js_get (getApprovalPolicies (new_tool_set demo_config True ?init 5)) ''write'' =
      Some \<lparr>tap_expire_at = Some (Iso 9)\<rparr>"
    "js_get (getApprovalPolicies (new_tool_set demo_config True ?init 5)) ''old'' = None"
    by code_simp+
  then show ?thesis
    using approval_policy_effect[of "''write''" "\<lparr>tap_expire_at = Some (Iso 9)\<rparr>" demo_tool_set
        "tl_annotations demo_write_tool" 5 "''delete''" demo_config True ?init 5]
    unfolding Let_def by simp
qed

definition demo_view :: tool_set_view where
  "demo_view =
     \<lparr>tv_name = ''fs'', tv_preload = True, tv_has_preloaded_tools = True, tv_approval_policies = [],
      tv_list_tools = Inr (List_tools [demo_write_tool] None)\<rparr>"

definition demo_mapping :: "(string, mapped_mcp_tool) js_map" where
  "demo_mapping = [(''write'', \<lparr>mm_tool_set = demo_view, mm_original_tool_name = ''write''\<rparr>)]"

text \<open>Three calls of one message: the first returns, the second waits for an approval, the third fails to parse.\<close>

definition demo_message :: internal_assistant_message where
  "demo_message = demo_assistant\<lparr>am_tool_calls := Some
     [(demo_call ''a'' None)\<lparr>tc_name := ''write'', tc_arguments := ''{}''\<rparr>,
      (demo_call ''b'' None)\<lparr>tc_name := ''write'', tc_arguments := ''{}''\<rparr>,
      (demo_call ''c'' None)\<lparr>tc_name := ''write'', tc_arguments := ''nope''\<rparr>]\<rparr>"

definition demo_json_parse :: "string \<Rightarrow> string + json" where
  "demo_json_parse s = (if s = ''{}'' then Inr (JObj []) else Inl ''Unexpected token'')"

definition demo_outcome ::
    "nat \<Rightarrow> tool_set_view \<Rightarrow> call_params \<Rightarrow> approval_decision option \<Rightarrow> tool_error + call_tool_response" where
  "demo_outcome n view params d =
     (if n = 0 then Inr (toolResultResponse ''done'' False)
      else Inr (Call_approval_required (local_toolCallInfo ''fs'' params)))"

lemma every_call_accounted_once_witness:
  "(let r = executeToolCalls demo_text demo_json_parse demo_outcome (\<lambda>n. ''t'') demo_message demo_mapping ''T'' []
    in mset (map (\<lambda>x. tm_tool_call_id (tcr_message x)) (er_results r)) + mset (map csa_tool_call_id (er_create r)) +
       mset (map tc_id (er_approval r)) + mset (map tc_id (er_client r)) = {#''a'', ''b'', ''c''#} \<and>
       map (\<lambda>x. tm_tool_call_id (tcr_message x)) (er_results r) = [''a'', ''c''] \<and>
       map tc_id (er_approval r) = [''b''])"
proof -
  let ?r = "executeToolCalls demo_text demo_json_parse demo_outcome (\<lambda>n. ''t'') demo_message demo_mapping ''T'' []"
  obtain tcs where tcs: "am_tool_calls demo_message = Some tcs" "map tc_id tcs = [''a'', ''b'', ''c'']"
    by (simp add: demo_message_def demo_call_def)
  have "map (\<lambda>x. tm_tool_call_id (tcr_message x)) (er_results ?r) = [''a'', ''c'']"
    "map tc_id (er_approval ?r) = [''b'']"
    by code_simp+
  then show ?thesis
    using every_call_accounted_once[OF tcs(1) refl, of demo_text demo_json_parse demo_outcome "\<lambda>n. ''t''" demo_mapping "''T''" "[]"]
    unfolding tcs(2) Let_def by simp
qed

lemma invalid_calls_not_executed_witness:
  "(let tc = (demo_call ''c'' None)\<lparr>tc_name := ''write'', tc_arguments := ''nope''\<rparr>;
        r = run_call demo_text demo_json_parse (demo_outcome 0) demo_mapping [] tc
    in r = run_call demo_text demo_json_parse (demo_outcome 1) demo_mapping [] tc \<and> snd (snd r) \<and>
       (\<exists>c. fst (snd r) = Call_result c))"
proof -
  let ?tc = "(demo_call ''c'' None)\<lparr>tc_name := ''write'', tc_arguments := ''nope''\<rparr>"
  have "parseToolCallArguments demo_json_parse (tc_arguments ?tc) = Inl ''Unexpected token''" by code_simp
  then show ?thesis
    using invalid_calls_not_executed[of demo_mapping ?tc demo_json_parse demo_text "demo_outcome 0" "[]" "demo_outcome 1"]
    unfolding Let_def by blast
qed

end
