(* ===== verification/Thrown_Errors.thy ===== *)
theory Thrown_Errors
  imports Tool_Calls
begin

text \<open>
  Thrown values and the text a user sees of them: \<open>core/errors.ts\<close> and \<open>core/util/errorLogFields.ts\<close>.

  A thrown value is an \<open>Error\<close> of some class with its message and its \<open>cause\<close>, another object (with the
  text its \<open>message\<close> or its JSON gives), a primitive with its \<open>String\<close> form, or no value. A chain of causes
  is finite here, so the set of values seen, which ends a cyclic chain, is not needed.
\<close>

datatype error_class = Harness_class string | Mcp_class nat | Model_class | Plain_class

datatype thrown =
    Thrown error_class string "thrown option"
  | Thrown_object string "thrown option"
  | Thrown_value string
  | Thrown_undefined
  | Thrown_null

abbreviation InvalidAgentSendInputError :: "string \<Rightarrow> thrown" where
  "InvalidAgentSendInputError msg \<equiv> Thrown (Harness_class ''invalid_send_input'') msg None"

abbreviation plain_error :: "string \<Rightarrow> thrown" where
  "plain_error msg \<equiv> Thrown Plain_class msg None"

fun thrown_tool_error :: "tool_error \<Rightarrow> thrown" where
  "thrown_tool_error (Tool_name_collision n) =
     Thrown (Harness_class ''tool_name_collision'')
       (''Tool name collision limit exceeded for '' @ CHR 0x22 # n @ CHR 0x22 # '': more than 50 duplicates across MCP servers'')
       None"
| "thrown_tool_error (Mcp_connection_error msg status) = Thrown (Mcp_class status) msg None"
| "thrown_tool_error (Other_error msg) = plain_error msg"
| "thrown_tool_error Not_an_error = Thrown_undefined"

definition is_space :: "char \<Rightarrow> bool" where
  "is_space c = (let n = of_char c :: nat in (9 \<le> n \<and> n \<le> 13) \<or> n = 32 \<or> n = 160)"

definition js_trim :: "string \<Rightarrow> string" where
  "js_trim s = rev (dropWhile is_space (rev (dropWhile is_space s)))"

definition js_includes :: "string \<Rightarrow> string \<Rightarrow> bool" where
  "js_includes s t = (\<exists>i \<in> set [0..<Suc (length s)]. take (length t) (drop i s) = t)"

definition MODEL_ERROR_PREFIX :: string where "MODEL_ERROR_PREFIX = ''[Model Error]''"

definition hasErrorPrefix :: "string \<Rightarrow> string \<Rightarrow> bool" where
  "hasErrorPrefix p m = (take (length p) m = p)"

definition stripErrorPrefix :: "string list \<Rightarrow> string \<Rightarrow> string" where
  "stripErrorPrefix prefixes message =
     fold (\<lambda>item current. if \<not> hasErrorPrefix item current then current else js_trim (drop (length item) current))
       prefixes message"

definition causeMessageAlreadyIncluded :: "string \<Rightarrow> string \<Rightarrow> bool" where
  "causeMessageAlreadyIncluded head tail =
     (if js_includes head tail then True
      else let unlabeled = stripErrorPrefix [MCP_ERROR_PREFIX, MODEL_ERROR_PREFIX] tail
           in length unlabeled > 0 \<and> js_includes head unlabeled)"

definition join_cause :: "string \<Rightarrow> string \<Rightarrow> string" where
  "join_cause head tail =
     (if length head = 0 then tail
      else if length tail = 0 \<or> causeMessageAlreadyIncluded head tail then head
      else head @ '': '' @ tail)"

fun describeErrorChain :: "thrown \<Rightarrow> string" where
  "describeErrorChain (Thrown c m None) = join_cause (js_trim m) ''''"
| "describeErrorChain (Thrown c m (Some e)) = join_cause (js_trim m) (js_trim (describeErrorChain e))"
| "describeErrorChain (Thrown_object m None) = join_cause (js_trim m) ''''"
| "describeErrorChain (Thrown_object m (Some e)) = join_cause (js_trim m) (js_trim (describeErrorChain e))"
| "describeErrorChain (Thrown_value t) = join_cause (js_trim t) ''''"
| "describeErrorChain Thrown_undefined = ''''"
| "describeErrorChain Thrown_null = ''''"

definition describeUnknownError :: "thrown \<Rightarrow> string" where
  "describeUnknownError e =
     (let chain = describeErrorChain e
      in if length chain > 0 then chain
         else case e of
             Thrown c m cause \<Rightarrow> ''An unexpected error occurred''
           | Thrown_object m cause \<Rightarrow> ''An unexpected error occurred''
           | Thrown_value t \<Rightarrow> t
           | Thrown_undefined \<Rightarrow> ''undefined''
           | Thrown_null \<Rightarrow> ''null'')"

end
