(* ===== verification/Generator.thy ===== *)
theory Generator
  imports JS_Prelude
begin

text \<open>
  JavaScript generators. A generator is a function of the object it belongs to: it returns the events it
  yields, each with the state of the object at that yield, the state at its end, and what it threw or
  returned. The state at a yield is what a consumer that stops there leaves behind.

  \<open>keeps f g\<close> says that no part of \<open>g\<close>, cut short or not, changes the field \<open>f\<close>. The locale \<open>replica\<close> is
  the contract between an object that announces its changes as events and a consumer that replays them:
  \<open>synced g\<close> says that at every yield and at the end, the object shows what the replay of the events so
  far gives.
\<close>

type_synonym ('s, 'e, 'x, 'a) gen = "'s \<Rightarrow> ('e \<times> 's) list \<times> 's \<times> ('x + 'a)"

definition gret :: "'a \<Rightarrow> ('s, 'e, 'x, 'a) gen" where
  "gret a s = ([], s, Inr a)"

definition gthrow :: "'x \<Rightarrow> ('s, 'e, 'x, 'a) gen" where
  "gthrow x s = ([], s, Inl x)"

definition glift :: "'x + 'a \<Rightarrow> ('s, 'e, 'x, 'a) gen" where
  "glift r s = ([], s, r)"

definition gget :: "('s, 'e, 'x, 's) gen" where
  "gget s = ([], s, Inr s)"

definition gmodify :: "('s \<Rightarrow> 's) \<Rightarrow> ('s, 'e, 'x, unit) gen" where
  "gmodify f s = ([], f s, Inr ())"

definition gyield :: "'e \<Rightarrow> ('s, 'e, 'x, unit) gen" where
  "gyield e s = ([(e, s)], s, Inr ())"

definition gbind :: "('s, 'e, 'x, 'a) gen \<Rightarrow> ('a \<Rightarrow> ('s, 'e, 'x, 'b) gen) \<Rightarrow> ('s, 'e, 'x, 'b) gen" where
  "gbind g f s =
     (case g s of
        (tr, s1, Inl x) \<Rightarrow> (tr, s1, Inl x)
      | (tr, s1, Inr a) \<Rightarrow> (case f a s1 of (tr', s2, r) \<Rightarrow> (tr @ tr', s2, r)))"

text \<open>\<open>try { g } catch (x) { h(x) }\<close> and \<open>try { g } finally { f }\<close>.\<close>

definition gcatch :: "('s, 'e, 'x, 'a) gen \<Rightarrow> ('x \<Rightarrow> ('s, 'e, 'x, 'a) gen) \<Rightarrow> ('s, 'e, 'x, 'a) gen" where
  "gcatch g h s =
     (case g s of
        (tr, s1, Inl x) \<Rightarrow> (case h x s1 of (tr', s2, r) \<Rightarrow> (tr @ tr', s2, r))
      | (tr, s1, Inr a) \<Rightarrow> (tr, s1, Inr a))"

definition gfinally :: "('s, 'e, 'x, 'a) gen \<Rightarrow> ('s \<Rightarrow> 's) \<Rightarrow> ('s, 'e, 'x, 'a) gen" where
  "gfinally g f s = (case g s of (tr, s1, r) \<Rightarrow> (tr, f s1, r))"

primrec gfor :: "'b list \<Rightarrow> ('b \<Rightarrow> ('s, 'e, 'x, unit) gen) \<Rightarrow> ('s, 'e, 'x, unit) gen" where
  "gfor [] f = gret ()"
| "gfor (x # xs) f = gbind (f x) (\<lambda>_. gfor xs f)"

definition gthen :: "('s, 'e, 'x, unit) gen \<Rightarrow> ('s, 'e, 'x, 'b) gen \<Rightarrow> ('s, 'e, 'x, 'b) gen" where
  "gthen g h = gbind g (\<lambda>_. h)"

definition gwhen :: "bool \<Rightarrow> ('s, 'e, 'x, unit) gen \<Rightarrow> ('s, 'e, 'x, unit) gen" where
  "gwhen b g = (if b then g else gret ())"

primrec gmap :: "'b list \<Rightarrow> ('b \<Rightarrow> ('s, 'e, 'x, 'c) gen) \<Rightarrow> ('s, 'e, 'x, 'c list) gen" where
  "gmap [] f = gret []"
| "gmap (x # xs) f = gbind (f x) (\<lambda>y. gbind (gmap xs f) (\<lambda>ys. gret (y # ys)))"

abbreviation trace_of :: "('e \<times> 's) list \<times> 's \<times> 'r \<Rightarrow> ('e \<times> 's) list" where
  "trace_of out \<equiv> fst out"

abbreviation final_of :: "('e \<times> 's) list \<times> 's \<times> 'r \<Rightarrow> 's" where
  "final_of out \<equiv> fst (snd out)"

abbreviation result_of :: "('e \<times> 's) list \<times> 's \<times> 'r \<Rightarrow> 'r" where
  "result_of out \<equiv> snd (snd out)"

abbreviation events_of :: "('e \<times> 's) list \<times> 's \<times> 'r \<Rightarrow> 'e list" where
  "events_of out \<equiv> map fst (fst out)"

lemmas gen_defs = gret_def gthrow_def glift_def gget_def gmodify_def gyield_def

lemma gbind_run:
  "gbind g f s =
     (case result_of (g s) of
        Inl x \<Rightarrow> (trace_of (g s), final_of (g s), Inl x)
      | Inr a \<Rightarrow> (trace_of (g s) @ trace_of (f a (final_of (g s))), final_of (f a (final_of (g s))),
                 result_of (f a (final_of (g s)))))"
  by (cases "g s") (auto simp: gbind_def split: sum.splits prod.splits)

lemma gbind_get: "gbind gget h s = h s s"
  by (simp add: gbind_def gget_def split: prod.splits)

section \<open>Fields a generator leaves alone\<close>

definition keeps :: "('s \<Rightarrow> 'v) \<Rightarrow> ('s, 'e, 'x, 'a) gen \<Rightarrow> bool" where
  "keeps f g = (\<forall>s. f (final_of (g s)) = f s \<and> (\<forall>p \<in> set (trace_of (g s)). f (snd p) = f s))"

named_theorems keeps_intro "generators that leave a field alone"

lemma keeps_basic [keeps_intro]:
  "keeps f (gret a)" "keeps f (gthrow x)" "keeps f (glift r)" "keeps f gget" "keeps f (gyield e)"
  by (simp_all add: keeps_def gen_defs)

lemma keeps_modify [keeps_intro]: "(\<And>s. f (h s) = f s) \<Longrightarrow> keeps f (gmodify h)"
  by (simp add: keeps_def gen_defs)

lemma keeps_bind [keeps_intro]:
  assumes "keeps f g" and "\<And>a. keeps f (h a)"
  shows "keeps f (gbind g h)"
  unfolding keeps_def
proof (intro allI)
  fix s
  have h: "f (final_of (h a t)) = f t" "p \<in> set (trace_of (h a t)) \<Longrightarrow> f (snd p) = f t" for a t p
    using assms(2)[of a] by (auto simp: keeps_def)
  have g: "f (final_of (g s)) = f s" "p \<in> set (trace_of (g s)) \<Longrightarrow> f (snd p) = f s" for p
    using assms(1) by (auto simp: keeps_def)
  show "f (final_of (gbind g h s)) = f s \<and> (\<forall>p \<in> set (trace_of (gbind g h s)). f (snd p) = f s)"
    using g h by (auto simp: gbind_run split: sum.splits)
qed

lemma keeps_then [keeps_intro]: "keeps f g \<Longrightarrow> keeps f h \<Longrightarrow> keeps f (gthen g h)"
  by (simp add: gthen_def keeps_bind)

lemma keeps_when [keeps_intro]: "keeps f g \<Longrightarrow> keeps f (gwhen b g)"
  by (simp add: gwhen_def keeps_basic)

lemma keeps_for [keeps_intro]: "(\<And>x. keeps f (g x)) \<Longrightarrow> keeps f (gfor xs g)"
  by (induction xs) (auto intro: keeps_intro)

lemma keeps_map [keeps_intro]: "(\<And>x. keeps f (g x)) \<Longrightarrow> keeps f (gmap xs g)"
  by (induction xs) (auto intro: keeps_intro)

lemma keepsD: "keeps f g \<Longrightarrow> f (final_of (g s)) = f s"
  by (simp add: keeps_def)

section \<open>Invariants and the events they allow\<close>

text \<open>\<open>g\<close> maintains \<open>I\<close> at every yield and at its end, and yields only events with \<open>Q\<close>.\<close>

definition maintains :: "('s \<Rightarrow> bool) \<Rightarrow> ('e \<Rightarrow> bool) \<Rightarrow> ('s, 'e, 'x, 'a) gen \<Rightarrow> bool" where
  "maintains I Q g =
     (\<forall>s. I s \<longrightarrow> I (final_of (g s)) \<and> (\<forall>p \<in> set (trace_of (g s)). I (snd p) \<and> Q (fst p)))"

named_theorems maintains_intro "closure of the maintained invariants under the generator operations"

lemma maintains_basic [maintains_intro]:
  "maintains I Q (gret a)" "maintains I Q (gthrow x)" "maintains I Q (glift r)" "maintains I Q gget"
  by (simp_all add: maintains_def gen_defs)

lemma maintains_yield [maintains_intro]: "Q e \<Longrightarrow> maintains I Q (gyield e)"
  by (simp add: maintains_def gen_defs)

lemma maintains_modify [maintains_intro]: "(\<And>s. I s \<Longrightarrow> I (h s)) \<Longrightarrow> maintains I Q (gmodify h)"
  by (simp add: maintains_def gen_defs)

lemma maintains_bind:
  assumes "maintains I Q g" and "\<And>a. maintains I Q (h a)"
  shows "maintains I Q (gbind g h)"
  unfolding maintains_def
proof (intro allI impI)
  fix s
  assume s: "I s"
  have h: "I t \<Longrightarrow> I (final_of (h a t))" "I t \<Longrightarrow> p \<in> set (trace_of (h a t)) \<Longrightarrow> I (snd p) \<and> Q (fst p)"
    for a t p using assms(2)[of a] by (auto simp: maintains_def)
  have g: "I (final_of (g s))" "p \<in> set (trace_of (g s)) \<Longrightarrow> I (snd p) \<and> Q (fst p)" for p
    using assms(1) s by (auto simp: maintains_def)
  show "I (final_of (gbind g h s)) \<and> (\<forall>p \<in> set (trace_of (gbind g h s)). I (snd p) \<and> Q (fst p))"
    using g h by (auto simp: gbind_run split: sum.splits)
qed

lemma maintains_get: "(\<And>s. I s \<Longrightarrow> maintains I Q (h s)) \<Longrightarrow> maintains I Q (gbind gget h)"
  by (simp add: maintains_def gbind_def gget_def split: prod.splits)

lemma maintains_lift: "(\<And>a. r = Inr a \<Longrightarrow> maintains I Q (h a)) \<Longrightarrow> maintains I Q (gbind (glift r) h)"
  by (cases r) (auto simp: maintains_def gbind_def glift_def split: prod.splits dest!: spec)

lemma maintains_then [maintains_intro]: "maintains I Q g \<Longrightarrow> maintains I Q h \<Longrightarrow> maintains I Q (gthen g h)"
  by (simp add: gthen_def maintains_bind)

lemma maintains_for [maintains_intro]: "(\<And>x. maintains I Q (g x)) \<Longrightarrow> maintains I Q (gfor xs g)"
  by (induction xs) (auto intro: maintains_intro maintains_bind)

lemma maintains_for_in: "(\<And>x. x \<in> set xs \<Longrightarrow> maintains I Q (g x)) \<Longrightarrow> maintains I Q (gfor xs g)"
  by (induction xs) (auto intro: maintains_intro maintains_bind)

lemma maintains_map [maintains_intro]: "(\<And>x. maintains I Q (g x)) \<Longrightarrow> maintains I Q (gmap xs g)"
  by (induction xs) (auto intro: maintains_intro maintains_bind)

lemma maintains_catch [maintains_intro]:
  assumes "maintains I Q g" and "\<And>x. maintains I Q (h x)"
  shows "maintains I Q (gcatch g h)"
  unfolding maintains_def
proof (intro allI impI)
  fix s
  assume s: "I s"
  obtain tr s1 r where g: "g s = (tr, s1, r)" by (cases "g s")
  then have 1: "I s1" "\<forall>p \<in> set tr. I (snd p) \<and> Q (fst p)"
    using assms(1) s by (auto simp: maintains_def dest: spec[of _ s])
  show "I (final_of (gcatch g h s)) \<and> (\<forall>p \<in> set (trace_of (gcatch g h s)). I (snd p) \<and> Q (fst p))"
  proof (cases r)
    case (Inl x)
    obtain tr' s2 r' where h: "h x s1 = (tr', s2, r')" by (cases "h x s1")
    then have "I s2" "\<forall>p \<in> set tr'. I (snd p) \<and> Q (fst p)"
      using assms(2)[of x] 1 by (auto simp: maintains_def dest: spec[of _ s1])
    then show ?thesis using 1 g h Inl by (auto simp: gcatch_def)
  qed (use 1 g in \<open>simp add: gcatch_def\<close>)
qed

lemma maintains_finally [maintains_intro]:
  assumes "maintains I Q g" and "\<And>s. I s \<Longrightarrow> I (f s)"
  shows "maintains I Q (gfinally g f)"
  unfolding maintains_def
proof (intro allI impI)
  fix s
  assume "I s"
  then show "I (final_of (gfinally g f s)) \<and> (\<forall>p \<in> set (trace_of (gfinally g f s)). I (snd p) \<and> Q (fst p))"
    using assms by (cases "g s") (auto simp: maintains_def gfinally_def dest: spec[of _ s])
qed

lemma maintains_case [maintains_intro]:
  "(x = None \<Longrightarrow> maintains I Q g) \<Longrightarrow> (\<And>y. x = Some y \<Longrightarrow> maintains I Q (h y)) \<Longrightarrow>
     maintains I Q (case x of None \<Rightarrow> g | Some y \<Rightarrow> h y)"
  "(\<And>a b. maintains I Q (k a b)) \<Longrightarrow> maintains I Q (case p of (a, b) \<Rightarrow> k a b)"
  "(c \<Longrightarrow> maintains I Q g1) \<Longrightarrow> (\<not> c \<Longrightarrow> maintains I Q g2) \<Longrightarrow> maintains I Q (if c then g1 else g2)"
  by (auto split: option.splits prod.splits)

section \<open>Triples\<close>

text \<open>
  From a state with \<open>P\<close>, \<open>g\<close> shows \<open>I\<close> at every yield, and at its end \<open>Q\<close> of what it returned, or \<open>I\<close> if it threw.
\<close>

definition ensures ::
    "('s \<Rightarrow> bool) \<Rightarrow> ('s \<Rightarrow> bool) \<Rightarrow> ('s, 'e, 'x, 'a) gen \<Rightarrow> ('a \<Rightarrow> 's \<Rightarrow> bool) \<Rightarrow> bool" where
  "ensures I P g Q =
     (\<forall>s. P s \<longrightarrow> (\<forall>p \<in> set (trace_of (g s)). I (snd p)) \<and>
        (case result_of (g s) of Inl x \<Rightarrow> I (final_of (g s)) | Inr a \<Rightarrow> Q a (final_of (g s))))"

lemma ensures_ret: "(\<And>s. P s \<Longrightarrow> Q a s) \<Longrightarrow> ensures I P (gret a) Q"
  by (simp add: ensures_def gen_defs)

lemma ensures_throw: "(\<And>s. P s \<Longrightarrow> I s) \<Longrightarrow> ensures I P (gthrow x) Q"
  by (simp add: ensures_def gen_defs)

lemma ensures_write:
  "(\<And>s. P s \<Longrightarrow> Q () (f s)) \<Longrightarrow> ensures I P (gmodify f) Q"
  "(\<And>s. P s \<Longrightarrow> I s) \<Longrightarrow> (\<And>s. P s \<Longrightarrow> Q () s) \<Longrightarrow> ensures I P (gyield e) Q"
  by (simp_all add: ensures_def gen_defs)

lemmas ensures_basic = ensures_ret ensures_throw ensures_write

lemma ensures_lift:
  "(\<And>s x. P s \<Longrightarrow> r = Inl x \<Longrightarrow> I s) \<Longrightarrow> (\<And>s a. P s \<Longrightarrow> r = Inr a \<Longrightarrow> Q a s) \<Longrightarrow> ensures I P (glift r) Q"
  by (cases r) (simp_all add: ensures_def gen_defs)

lemma ensures_bind:
  assumes "ensures I P g R" and "\<And>a. ensures I (R a) (h a) Q"
  shows "ensures I P (gbind g h) Q"
  unfolding ensures_def
proof (intro allI impI)
  fix s
  assume s: "P s"
  note g = assms(1)[unfolded ensures_def, rule_format, OF s]
  show "(\<forall>p \<in> set (trace_of (gbind g h s)). I (snd p)) \<and>
      (case result_of (gbind g h s) of Inl x \<Rightarrow> I (final_of (gbind g h s)) | Inr a \<Rightarrow> Q a (final_of (gbind g h s)))"
  proof (cases "result_of (g s)")
    case (Inl x)
    then show ?thesis using g by (simp add: gbind_run)
  next
    case (Inr a)
    then have "R a (final_of (g s))" using g by simp
    from assms(2)[unfolded ensures_def, rule_format, OF this] show ?thesis using g Inr by (auto simp: gbind_run split: sum.splits)
  qed
qed

lemma ensures_then: "ensures I P g (\<lambda>u. R) \<Longrightarrow> ensures I R h Q \<Longrightarrow> ensures I P (gthen g h) Q"
  by (simp add: gthen_def ensures_bind)

lemma ensures_get: "(\<And>s0. P s0 \<Longrightarrow> ensures I (\<lambda>s. s = s0 \<and> P s) (h s0) Q) \<Longrightarrow> ensures I P (gbind gget h) Q"
  unfolding ensures_def gbind_get by simp

lemma ensures_weaken:
  "ensures I P g Q \<Longrightarrow> (\<And>s. P' s \<Longrightarrow> P s) \<Longrightarrow> (\<And>a s. Q a s \<Longrightarrow> Q' a s) \<Longrightarrow> ensures I P' g Q'"
  by (auto simp: ensures_def split: sum.splits)

lemma ensures_show: "ensures I P g Q \<Longrightarrow> (\<And>s. I s \<Longrightarrow> I' s) \<Longrightarrow> ensures I' P g Q"
  by (auto simp: ensures_def split: sum.splits)

lemma ensures_lift_bind:
  "(\<And>s x. P s \<Longrightarrow> I s) \<Longrightarrow> (\<And>a. r = Inr a \<Longrightarrow> ensures I P (h a) Q) \<Longrightarrow> ensures I P (gbind (glift r) h) Q"
  by (cases r) (auto simp: ensures_def gbind_run glift_def split: sum.splits)

lemma ensures_read: "(\<And>s0. ensures I P (h s0) Q) \<Longrightarrow> ensures I P (gbind gget h) Q"
  unfolding ensures_def gbind_get by blast

lemma ensures_at: "(\<And>s0. P s0 \<Longrightarrow> ensures I (\<lambda>s. s = s0) g Q) \<Longrightarrow> ensures I P g Q"
  unfolding ensures_def by blast

lemma ensures_result:
  assumes "ensures I P g Q" and "\<And>s tr s' a. g s = (tr, s', Inr a) \<Longrightarrow> R a"
  shows "ensures I P g (\<lambda>a s. Q a s \<and> R a)"
  unfolding ensures_def
proof (intro allI impI)
  fix s
  assume s: "P s"
  obtain tr s' r where g: "g s = (tr, s', r)" by (cases "g s")
  show "(\<forall>p \<in> set (trace_of (g s)). I (snd p)) \<and>
      (case result_of (g s) of Inl x \<Rightarrow> I (final_of (g s)) | Inr a \<Rightarrow> Q a (final_of (g s)) \<and> R a)"
    using assms(1)[unfolded ensures_def, rule_format, OF s] assms(2)[of s tr s'] g by (cases r) auto
qed

lemma ensures_maintains: "maintains I E g \<Longrightarrow> ensures I I g (\<lambda>a. I)"
  by (auto simp: ensures_def maintains_def split: sum.splits)

lemma ensures_for: "(\<And>x. x \<in> set xs \<Longrightarrow> ensures I P (g x) (\<lambda>u. P)) \<Longrightarrow> ensures I P (gfor xs g) (\<lambda>u. P)"
  by (induction xs) (auto intro!: ensures_bind[where R = "\<lambda>u. P"] ensures_basic)

lemma ensures_case:
  "(x = None \<Longrightarrow> ensures I P g Q) \<Longrightarrow> (\<And>y. x = Some y \<Longrightarrow> ensures I P (h y) Q) \<Longrightarrow>
     ensures I P (case x of None \<Rightarrow> g | Some y \<Rightarrow> h y) Q"
  "(c \<Longrightarrow> ensures I P g1 Q) \<Longrightarrow> (\<not> c \<Longrightarrow> ensures I P g2 Q) \<Longrightarrow> ensures I P (if c then g1 else g2) Q"
  "(\<And>a b. p = (a, b) \<Longrightarrow> ensures I P (k a b) Q) \<Longrightarrow> ensures I P (case p of (a, b) \<Rightarrow> k a b) Q"
  by (auto split: option.splits prod.splits)

section \<open>Triples with a consumer\<close>

text \<open>
  A consumer folds the events it takes into a value \<open>V\<close>. From \<open>P V s\<close>, \<open>g\<close> shows \<open>I\<close> at every yield, once the event
  is taken; \<open>Q\<close> of what it returned at its end, and \<open>X\<close> of what it threw.
\<close>

fun watched :: "('e \<Rightarrow> 'v \<Rightarrow> 'v) \<Rightarrow> ('v \<Rightarrow> 's \<Rightarrow> bool) \<Rightarrow> 'v \<Rightarrow> ('e \<times> 's) list \<Rightarrow> bool" where
  "watched absorb I V [] = True"
| "watched absorb I V ((e, s) # tr) = (I (absorb e V) s \<and> watched absorb I (absorb e V) tr)"

lemma watched_append [simp]:
  "watched absorb I V (tr @ tr') \<longleftrightarrow> watched absorb I V tr \<and> watched absorb I (fold absorb (map fst tr) V) tr'"
  by (induction absorb I V tr rule: watched.induct) simp_all

lemma watched_True [simp]: "watched absorb (\<lambda>V s. True) V tr"
  by (induction tr arbitrary: V) auto

lemma watched_nth:
  "watched absorb I V tr \<Longrightarrow> n < length tr \<Longrightarrow> I (fold absorb (map fst (take (Suc n) tr)) V) (snd (tr ! n))"
  by (induction absorb I V tr arbitrary: n rule: watched.induct) (auto simp: less_Suc_eq_0_disj)

definition tells ::
    "('e \<Rightarrow> 'v \<Rightarrow> 'v) \<Rightarrow> ('v \<Rightarrow> 's \<Rightarrow> bool) \<Rightarrow> ('v \<Rightarrow> 's \<Rightarrow> bool) \<Rightarrow> ('s, 'e, 'x, 'a) gen \<Rightarrow>
       ('a \<Rightarrow> 'v \<Rightarrow> 's \<Rightarrow> bool) \<Rightarrow> ('x \<Rightarrow> 'v \<Rightarrow> 's \<Rightarrow> bool) \<Rightarrow> bool" where
  "tells absorb I P g Q X \<longleftrightarrow> (\<forall>V s tr s' r. P V s \<longrightarrow> g s = (tr, s', r) \<longrightarrow> watched absorb I V tr \<and>
     (case r of Inl x \<Rightarrow> X x (fold absorb (map fst tr) V) s' | Inr a \<Rightarrow> Q a (fold absorb (map fst tr) V) s'))"

lemma tellsD:
  assumes "tells absorb I P g Q X" "P V s" "g s = (tr, s', r)"
  shows "watched absorb I V tr"
    and "\<And>a. r = Inr a \<Longrightarrow> Q a (fold absorb (map fst tr) V) s'"
    and "\<And>x. r = Inl x \<Longrightarrow> X x (fold absorb (map fst tr) V) s'"
  using assms unfolding tells_def by force+

lemma tells_ret: "(\<And>V s. P V s \<Longrightarrow> Q a V s) \<Longrightarrow> tells absorb I P (gret a) Q X"
  by (simp add: tells_def gret_def)

lemma tells_throw: "(\<And>V s. P V s \<Longrightarrow> X x V s) \<Longrightarrow> tells absorb I P (gthrow x) Q X"
  by (simp add: tells_def gthrow_def)

lemma tells_modify: "(\<And>V s. P V s \<Longrightarrow> Q () V (f s)) \<Longrightarrow> tells absorb I P (gmodify f) Q X"
  by (simp add: tells_def gmodify_def)

lemma tells_yield:
  "(\<And>V s. P V s \<Longrightarrow> I (absorb e V) s) \<Longrightarrow> (\<And>V s. P V s \<Longrightarrow> Q () (absorb e V) s) \<Longrightarrow> tells absorb I P (gyield e) Q X"
  by (simp add: tells_def gyield_def)

lemma tells_bind:
  assumes "tells absorb I P g R X" and "\<And>a. tells absorb I (R a) (h a) Q X"
  shows "tells absorb I P (gbind g h) Q X"
  unfolding tells_def
proof (intro allI impI)
  fix V s tr s' r
  assume s: "P V s" and run: "gbind g h s = (tr, s', r)"
  obtain tr1 s1 x where g: "g s = (tr1, s1, x)" by (cases "g s")
  note g1 = tellsD[OF assms(1) s g]
  show "watched absorb I V tr \<and>
     (case r of Inl x \<Rightarrow> X x (fold absorb (map fst tr) V) s' | Inr a \<Rightarrow> Q a (fold absorb (map fst tr) V) s')"
  proof (cases x)
    case (Inl e)
    then show ?thesis using g1 run g by (auto simp: gbind_run)
  next
    case (Inr a)
    obtain tr2 where h: "h a s1 = (tr2, s', r)" "tr = tr1 @ tr2"
      using run g Inr by (cases "h a s1") (simp add: gbind_run)
    show ?thesis using g1(1) tellsD[OF assms(2) g1(2)[OF Inr] h(1)] by (cases r) (simp_all add: h(2))
  qed
qed

lemma tells_then: "tells absorb I P g (\<lambda>u. R) X \<Longrightarrow> tells absorb I R h Q X \<Longrightarrow> tells absorb I P (gthen g h) Q X"
  by (simp add: gthen_def tells_bind)

lemma tells_read:
  "(\<And>s0. tells absorb I (\<lambda>V s. s = s0 \<and> P V s) (h s0) Q X) \<Longrightarrow> tells absorb I P (gbind gget h) Q X"
  unfolding tells_def gbind_get by blast

lemma tells_lift: "(\<And>V s. P V s \<Longrightarrow> case r of Inl x \<Rightarrow> X x V s | Inr a \<Rightarrow> Q a V s) \<Longrightarrow> tells absorb I P (glift r) Q X"
  by (auto simp: tells_def glift_def)

lemma tells_lift_bind:
  "(\<And>V s x. P V s \<Longrightarrow> r = Inl x \<Longrightarrow> X x V s) \<Longrightarrow> (\<And>a. r = Inr a \<Longrightarrow> tells absorb I P (h a) Q X) \<Longrightarrow>
     tells absorb I P (gbind (glift r) h) Q X"
  by (cases r) (auto simp: tells_def gbind_run glift_def)

lemma tells_catch:
  assumes g: "tells absorb I P g Q Y" and h: "\<And>x. tells absorb I (Y x) (h x) Q X"
  shows "tells absorb I P (gcatch g h) Q X"
  unfolding tells_def
proof (intro allI impI)
  fix V s tr s' r
  assume s: "P V s" and run: "gcatch g h s = (tr, s', r)"
  obtain tr1 s1 x where g': "g s = (tr1, s1, x)" by (cases "g s")
  note g1 = tellsD[OF g s g']
  show "watched absorb I V tr \<and>
     (case r of Inl x \<Rightarrow> X x (fold absorb (map fst tr) V) s' | Inr a \<Rightarrow> Q a (fold absorb (map fst tr) V) s')"
  proof (cases x)
    case (Inr a)
    then show ?thesis using g1 run g' by (auto simp: gcatch_def)
  next
    case (Inl e)
    obtain tr2 where h': "h e s1 = (tr2, s', r)" "tr = tr1 @ tr2"
      using run g' Inl by (cases "h e s1") (simp add: gcatch_def)
    show ?thesis using g1(1) tellsD[OF h g1(3)[OF Inl] h'(1)] by (cases r) (simp_all add: h'(2))
  qed
qed

lemma tells_weaken:
  "tells absorb I P g Q X \<Longrightarrow> (\<And>V s. P' V s \<Longrightarrow> P V s) \<Longrightarrow> (\<And>a V s. Q a V s \<Longrightarrow> Q' a V s) \<Longrightarrow>
     (\<And>x V s. X x V s \<Longrightarrow> X' x V s) \<Longrightarrow> tells absorb I P' g Q' X'"
  unfolding tells_def by (force split: sum.splits)

lemma tells_at: "(\<And>V s. P V s \<Longrightarrow> tells absorb I (\<lambda>W t. W = V \<and> t = s) g Q X) \<Longrightarrow> tells absorb I P g Q X"
  unfolding tells_def by blast

lemma tells_case:
  "(x = None \<Longrightarrow> tells absorb I P g Q X) \<Longrightarrow> (\<And>y. x = Some y \<Longrightarrow> tells absorb I P (h y) Q X) \<Longrightarrow>
     tells absorb I P (case x of None \<Rightarrow> g | Some y \<Rightarrow> h y) Q X"
  "(c \<Longrightarrow> tells absorb I P g1 Q X) \<Longrightarrow> (\<not> c \<Longrightarrow> tells absorb I P g2 Q X) \<Longrightarrow> tells absorb I P (if c then g1 else g2) Q X"
  by (auto split: option.splits)

text \<open>A triple without a consumer beside one with a consumer.\<close>

lemma tells_ensures:
  assumes "ensures J P0 g Q0" and "tells absorb I (\<lambda>V s. P0 s \<and> P V s) g Q X"
  shows "tells absorb I (\<lambda>V s. P0 s \<and> P V s) g (\<lambda>a V s. Q0 a s \<and> Q a V s) X"
  unfolding tells_def
proof (intro allI impI)
  fix V s tr s' r
  assume s: "P0 s \<and> P V s" and g: "g s = (tr, s', r)"
  have "Q0 a s'" if "r = Inr a" for a using assms(1)[unfolded ensures_def, rule_format, of s] s g that by simp
  then show "watched absorb I V tr \<and> (case r of Inl x \<Rightarrow> X x (fold absorb (map fst tr) V) s'
      | Inr a \<Rightarrow> Q0 a s' \<and> Q a (fold absorb (map fst tr) V) s')"
    using tellsD[OF assms(2) s g] by (cases r) simp_all
qed

section \<open>Replicas built from the events\<close>

locale replica =
  fixes absorb :: "'e \<Rightarrow> 'v \<Rightarrow> 'v"
    and view :: "'s \<Rightarrow> 'v"
    and silent :: "'e \<Rightarrow> bool"
  assumes silent: "silent e \<Longrightarrow> absorb e v = v"
begin

fun in_step :: "'v \<Rightarrow> ('e \<times> 's) list \<Rightarrow> bool" where
  "in_step v [] = True"
| "in_step v ((e, s) # tr) = (view s = v \<and> in_step (absorb e v) tr)"

definition synced :: "('s, 'e, 'x, 'a) gen \<Rightarrow> bool" where
  "synced g = (\<forall>s. in_step (view s) (trace_of (g s)) \<and>
     view (final_of (g s)) = fold absorb (events_of (g s)) (view s))"

lemma in_step_append: "in_step v (tr @ tr') = (in_step v tr \<and> in_step (fold absorb (map fst tr) v) tr')"
  by (induction v tr rule: in_step.induct) simp_all

lemma synced_basic: "synced (gret a)" "synced (gthrow x)" "synced (glift r)" "synced gget"
  by (simp_all add: synced_def gen_defs)

lemma synced_modify: "(\<And>s. view (h s) = view s) \<Longrightarrow> synced (gmodify h)"
  by (simp add: synced_def gen_defs)

lemma synced_silent: "silent e \<Longrightarrow> synced (gyield e)"
  by (simp add: synced_def gen_defs silent)

lemma synced_change: "(\<And>s. view (h s) = absorb e (view s)) \<Longrightarrow> synced (gthen (gyield e) (gmodify h))"
  by (simp add: synced_def gthen_def gbind_def gen_defs)

lemma synced_bind:
  assumes "synced g" and "\<And>a. synced (h a)"
  shows "synced (gbind g h)"
  unfolding synced_def
proof (intro allI)
  fix s
  have h: "in_step (view t) (trace_of (h a t))"
    "view (final_of (h a t)) = fold absorb (events_of (h a t)) (view t)" for a t
    using assms(2)[of a] by (auto simp: synced_def)
  have g: "in_step (view s) (trace_of (g s))" "view (final_of (g s)) = fold absorb (events_of (g s)) (view s)"
    using assms(1) by (auto simp: synced_def)
  show "in_step (view s) (trace_of (gbind g h s)) \<and>
      view (final_of (gbind g h s)) = fold absorb (events_of (gbind g h s)) (view s)"
    using g(1) h by (cases "result_of (g s)") (simp_all add: gbind_run in_step_append g(2)[symmetric])
qed

lemma synced_then: "synced g \<Longrightarrow> synced h \<Longrightarrow> synced (gthen g h)"
  by (simp add: gthen_def synced_bind)

lemma synced_when: "synced g \<Longrightarrow> synced (gwhen b g)"
  by (simp add: gwhen_def synced_basic)

lemma synced_for: "(\<And>x. synced (g x)) \<Longrightarrow> synced (gfor xs g)"
  by (induction xs) (auto intro: synced_bind synced_basic)

lemma synced_map: "(\<And>x. synced (g x)) \<Longrightarrow> synced (gmap xs g)"
  by (induction xs) (auto intro: synced_bind synced_basic)

lemma synced_catch:
  assumes "synced g" and "\<And>x. synced (h x)"
  shows "synced (gcatch g h)"
  unfolding synced_def
proof (intro allI)
  fix s
  obtain tr s1 r where g: "g s = (tr, s1, r)" by (cases "g s")
  have "in_step (view s) tr" "view s1 = fold absorb (map fst tr) (view s)"
    using assms(1) g by (auto simp: synced_def dest: spec[of _ s])
  then have 1: "in_step (view s) tr" "fold absorb (map fst tr) (view s) = view s1" by simp_all
  show "in_step (view s) (trace_of (gcatch g h s)) \<and>
      view (final_of (gcatch g h s)) = fold absorb (events_of (gcatch g h s)) (view s)"
  proof (cases r)
    case (Inl x)
    obtain tr' s2 r' where "h x s1 = (tr', s2, r')" by (cases "h x s1")
    moreover from this have "in_step (view s1) tr'" "view s2 = fold absorb (map fst tr') (view s1)"
      using assms(2)[of x] by (auto simp: synced_def dest: spec[of _ s1])
    ultimately show ?thesis using 1 g Inl by (simp add: gcatch_def in_step_append)
  next
    case (Inr a)
    then show ?thesis using 1 g by (simp add: gcatch_def)
  qed
qed

lemma synced_finally:
  assumes "synced g" and "\<And>s. view (f s) = view s"
  shows "synced (gfinally g f)"
  unfolding synced_def
proof (intro allI)
  fix s
  obtain tr s1 r where "g s = (tr, s1, r)" by (cases "g s")
  then show "in_step (view s) (trace_of (gfinally g f s)) \<and>
      view (final_of (gfinally g f s)) = fold absorb (events_of (gfinally g f s)) (view s)"
    using assms by (auto simp: synced_def gfinally_def dest: spec[of _ s])
qed

lemma synced_state: "(\<And>s. synced (h s)) \<Longrightarrow> synced (\<lambda>s. h s s)"
  by (simp add: synced_def)

lemma in_step_at:
  "in_step v (tr @ (e, s) # tr') \<Longrightarrow> view s = fold absorb (map fst tr) v"
  by (simp add: in_step_append)

lemmas synced_intro = synced_basic synced_modify synced_silent synced_bind synced_then synced_when
  synced_for synced_map synced_catch synced_finally

end

end
