(* ===== verification/Agent_Events.thy ===== *)
theory Agent_Events
  imports Tool_Calls Thrown_Errors Generator
begin

text \<open>
  What an agent thread yields and what it is made of: \<open>AgentThreadEvent\<close> of
  \<open>core/runtime/AgentThread.types.ts\<close>, the execution context and the outputs of the capability processors
  (\<open>core/capabilities/AgentContextProcessor.ts\<close>, \<open>ToolResponseProcessor.ts\<close>), the request to a model and
  its stream, and the fields of \<open>class AgentThread\<close>. A registered passthrough event is a JSON value.
\<close>

section \<open>Events\<close>

record thread_append_event =
  tae_thread_id :: string
  tae_context :: "context_message list"
  tae_output :: "model_message_event list"
  tae_usage :: "current_context_usage option"
  tae_completion :: "sub_agent_completion option"

datatype done_status =
    Done_ok model_message_event
  | Done_error string "model_message_event option"
  | Done_cancelled string

text \<open>\<open>de_parent\<close> and \<open>de_send_to_parent\<close> are present together, for a child thread.\<close>

record thread_done_event =
  de_thread_id :: string
  de_title :: string
  de_parent :: "agent_parent option"
  de_status :: done_status
  de_send_to_parent :: "llm_tool_message option"

record delta_tool_call =
  dtc_name :: "string option"
  dtc_rest :: json
  dtc_tool_info :: "tool_info option"

record chunk_delta =
  cd_content :: string
  cd_reasoning_content :: string
  cd_tool_calls :: "delta_tool_call list"
  cd_rest :: "(string \<times> json) list"

record model_delta_event =
  mde_id :: string
  mde_thread_id :: string
  mde_created_at :: "string option"
  mde_delta :: chunk_delta
  mde_finish_reason :: "finish_reason option"
  mde_usage :: "model_message_usage option"

record internal_auth_info =
  iai_server :: mcp_server_auth_info
  iai_thread_ids :: "string list"

record internal_auth_event =
  iae_id :: string
  iae_created_at :: string
  iae_servers :: "internal_auth_info list"

record mcp_initialize_event =
  mie_id :: string
  mie_created_at :: string
  mie_thread_id :: string
  mie_servers :: "mcp_server_init_info list"

record sandbox_created_event =
  sce_id :: string
  sce_created_at :: string
  sce_info :: sandbox_info

datatype thread_event =
    Model_message model_message_event
  | Model_delta model_delta_event
  | Tool_response tool_response_event
  | Create_sub_agent create_sub_agent
  | Append_context thread_append_event
  | Overwrite_context thread_overwrite_context_event
  | Compaction_started string json
  | Compaction_finished string json
  | Thread_done thread_done_event
  | Auth_required internal_auth_event
  | Capability_state string string json
  | Mcp_initialize mcp_initialize_event
  | Sandbox_created sandbox_created_event
  | Approval_required tool_calls_required_event
  | Response_required tool_calls_required_event
  | Passthrough json

section \<open>Processors\<close>

record execution_context =
  ec_thread_id :: string
  ec_usage :: current_context_usage
  ec_context :: "context_message list"

datatype processor_output =
    PO_append "context_message list" "model_message_event list" "current_context_usage option"
  | PO_overwrite string string "context_message list" current_context_usage completion_usage
  | PO_compaction_started json
  | PO_compaction_finished json
  | PO_passthrough json
  | PO_capability_state string json

text \<open>A processor is an async iterable: the outputs it yields, then what it throws, if anything.\<close>

type_synonym context_processor = "nat \<Rightarrow> execution_context \<Rightarrow> processor_output list \<times> thrown option"

record tool_processor_result =
  tpr_results :: "tool_call_result list"
  tpr_sandbox_created :: "sandbox_info option"
  tpr_events :: "json list"

section \<open>Model requests\<close>

datatype openai_message =
    OA_system string
  | OA_user user_content
  | OA_assistant raw_assistant_message
  | OA_tool llm_tool_message

record llm_request =
  lr_messages :: "openai_message list"
  lr_params :: "(string, json) js_map"
  lr_tools :: "chat_completion_tool list"

record stream_chunk =
  sc_usage :: "completion_usage option"
  sc_delta :: "chunk_delta option"
  sc_finish_reason :: "finish_reason option"

record llm_final =
  lf_output :: raw_assistant_message
  lf_finish_reason :: "finish_reason option"
  lf_usage :: completion_usage

record llm_stream =
  ls_chunks :: "stream_chunk list"
  ls_end :: "thrown + llm_final"

section \<open>The world outside the thread\<close>

text \<open>
  Every interaction with the outside (clock, id generator, abort signal, model, tool sets, sandbox,
  capability processors) takes the number of the interaction: its answers may change from one to the next.
\<close>

record agent_env =
  env_now :: "nat \<Rightarrow> string"
  env_id :: "nat \<Rightarrow> string"
  env_aborted :: "nat \<Rightarrow> bool"
  env_llm :: "nat \<Rightarrow> llm_request \<Rightarrow> llm_stream"
  env_tool_sets :: "nat \<Rightarrow> tool_set_view list \<times> tool_set_view list"
  env_tool_info :: "nat \<Rightarrow> tool_set_view \<Rightarrow> string \<Rightarrow> json option \<Rightarrow> bool \<Rightarrow> thrown + internal_tool_call_info"
  env_call :: "nat \<Rightarrow> nat \<Rightarrow> tool_set_view \<Rightarrow> call_params \<Rightarrow> approval_decision option
                 \<Rightarrow> tool_error + call_tool_response"
  env_completed :: "nat \<Rightarrow> nat \<Rightarrow> string"
  env_user_input :: "nat \<Rightarrow> input_content \<Rightarrow> thrown + (user_content \<times> sandbox_info option)"
  env_pre_send :: "context_processor list"
  env_pre_llm :: "context_processor list"
  env_post_tool_call :: "context_processor list"
  env_tool_response :: "(nat \<Rightarrow> tool_call_result list \<Rightarrow> execution_context \<Rightarrow> thrown + tool_processor_result) list"
  env_ephemeral :: "(openai_message list \<Rightarrow> openai_message list option) list"
  env_json_parse :: "string \<Rightarrow> string + json"
  env_stringify :: "json \<Rightarrow> string"
  env_part_text :: "assistant_part \<Rightarrow> string"
  env_tool_text :: "chat_completion_tool \<Rightarrow> string"
  env_number_text :: "rat \<Rightarrow> string"
  env_model_name_error :: string

section \<open>Threads\<close>

datatype agent_thread_state = Llm_call_required | Tool_response_required_state | User_input_required

datatype step_outcome = Exit | Continue

text \<open>
  The read-only fields; \<open>ac_instruction\<close> is the assembled system prompt and \<open>ac_user_instruction\<close> the
  instruction of the definition.
\<close>

record agent_config =
  ac_thread_id :: string
  ac_title :: string
  ac_parent :: "agent_parent option"
  ac_agent_info :: "agent_info option"
  ac_instruction :: "string option"
  ac_user_instruction :: "string option"
  ac_messages :: "user_content list"
  ac_model_name :: string
  ac_model_params :: "(string \<times> json) list option"
  ac_response_format :: "json option"
  ac_iteration_limit :: "nat option"
  ac_skills_tokens :: nat
  ac_state_keys :: "string list"

record agent_thread =
  th_config :: agent_config
  th_context :: "context_message list"
  th_usage :: current_context_usage
  th_metrics :: agent_thread_metrics
  th_tools :: "(chat_completion_tool list \<times> (string, mapped_mcp_tool) js_map) option"
  th_managed_names :: "string list"
  th_pending_sandbox :: "sandbox_created_event list"
  th_busy :: bool
  th_pre_send_ran :: bool
  th_state :: "agent_thread_state option"
  th_completion :: "sub_agent_completion option"
  th_capability_state :: capability_state
  th_tick :: nat

type_synonym 'a thread_gen = "(agent_thread, thread_event, thrown, 'a) gen"

end
