(* ===== verification/Agent_Thread.thy ===== *)
theory Agent_Thread
  imports Agent_Events
begin

text \<open>
  One agent thread: \<open>core/runtime/AgentThread.ts\<close> and \<open>finishReasonError.ts\<close>. Each async generator of the
  class is a generator over the record \<open>agent_thread\<close>; tracing spans, logging and operation metrics are left
  out, they change neither the events nor the fields. The prompt assembly of \<open>buildInstruction\<close> and the
  loading of capability state into the capabilities belong to other components.
\<close>

section \<open>States and transitions\<close>

definition DEFAULT_ITERATION_LIMIT :: nat where "DEFAULT_ITERATION_LIMIT = 25"

fun VALID_TRANSITIONS :: "agent_thread_state \<Rightarrow> agent_thread_state list" where
  "VALID_TRANSITIONS Llm_call_required = [Tool_response_required_state, User_input_required]"
| "VALID_TRANSITIONS Tool_response_required_state = [Llm_call_required]"
| "VALID_TRANSITIONS User_input_required = [Tool_response_required_state, Llm_call_required]"

fun state_name :: "agent_thread_state \<Rightarrow> string" where
  "state_name Llm_call_required = ''llm-call-required''"
| "state_name Tool_response_required_state = ''tool-response-required''"
| "state_name User_input_required = ''user-input-required''"

text \<open>The arrow of the message is outside the characters of HOL's strings and written as \<open>->\<close>.\<close>

definition assertValidTransition :: "agent_thread_state \<Rightarrow> agent_thread_state \<Rightarrow> thrown + unit" where
  "assertValidTransition from to =
     guardE (to \<notin> set (VALID_TRANSITIONS from))
       (plain_error (''Invalid state transition: '' @ state_name from @ '' -> '' @ state_name to))"

definition deriveAgentThreadState :: "context_message list \<Rightarrow> agent_thread_state" where
  "deriveAgentThreadState ctx =
     (let openIds = getOpenToolCallIds ctx in
      if openIds = [] then Llm_call_required
      else
        let decisions = scanApprovalDecisions ctx;
            calls = last_tool_calls ctx;
            hasPendingApproval = (\<exists>tc \<in> set calls. tc_id tc \<in> set openIds \<and>
              ti_is_approval_required (tc_tool_info tc) = Some True \<and> \<not> js_has decisions (tc_id tc));
            hasPendingClientSideTool = (\<exists>tc \<in> set calls. tc_id tc \<in> set openIds \<and>
              ti_is_client_side (tc_tool_info tc) = Some True)
        in if hasPendingApproval \<or> hasPendingClientSideTool then User_input_required
           else Tool_response_required_state)"

section \<open>Validation of a send batch\<close>

fun isEmptyMessageContent :: "input_content \<Rightarrow> bool" where
  "isEmptyMessageContent (IText s) = (length (js_trim s) = 0)"
| "isEmptyMessageContent (IParts ps) = (length ps = 0)"

text \<open>The sets the validation loop updates.\<close>

record open_sets =
  os_open :: "string list"
  os_blocking :: "string list"
  os_approval :: "string list"
  os_client :: "string list"

definition validateUserMessage :: "input_content \<Rightarrow> string list \<Rightarrow> nat \<Rightarrow> thrown + unit" where
  "validateUserMessage content blocking n =
     (if isEmptyMessageContent content
      then Inl (InvalidAgentSendInputError (''messages['' @ show_nat n @ ''] user message has empty content''))
      else guardE (length blocking > 0)
        (InvalidAgentSendInputError ''user message cannot be sent while approvals or questions are pending''))"

definition validateToolMessage :: "string \<Rightarrow> string list \<Rightarrow> nat \<Rightarrow> thrown + unit" where
  "validateToolMessage i openIds n =
     guardE (i \<notin> set openIds)
       (InvalidAgentSendInputError (''messages['' @ show_nat n @ ''] no open tool call for tool_call_id '' @
          CHR 0x27 # i @ [CHR 0x27]))"

definition validateApprovalMessage :: "string \<Rightarrow> string list \<Rightarrow> nat \<Rightarrow> thrown + unit" where
  "validateApprovalMessage i pending n =
     guardE (i \<notin> set pending)
       (InvalidAgentSendInputError (''messages['' @ show_nat n @ ''] no pending approval for tool_call_id '' @
          CHR 0x27 # i @ [CHR 0x27]))"

definition answer_call :: "string \<Rightarrow> open_sets \<Rightarrow> open_sets" where
  "answer_call i os =
     os\<lparr>os_open := js_remove i (os_open os), os_blocking := js_remove i (os_blocking os),
        os_client := js_remove i (os_client os)\<rparr>"

fun validate_loop :: "nat \<Rightarrow> send_input list \<Rightarrow> open_sets \<Rightarrow> thrown + open_sets" where
  "validate_loop n [] os = Inr os"
| "validate_loop n (Send_approval m # ms) os =
     bindE (validateApprovalMessage (uta_tool_call_id m) (os_approval os) n) (\<lambda>_.
       validate_loop (n + 1) ms (os\<lparr>os_approval := js_remove (uta_tool_call_id m) (os_approval os)\<rparr>))"
| "validate_loop n (Send_user c # ms) os =
     bindE (validateUserMessage c (os_blocking os) n) (\<lambda>_. validate_loop (n + 1) ms os)"
| "validate_loop n (Send_response m # ms) os =
     bindE (validateToolMessage (utr_tool_call_id m) (os_open os) n) (\<lambda>_.
       validate_loop (n + 1) ms (answer_call (utr_tool_call_id m) os))"
| "validate_loop n (Send_tool m # ms) os =
     bindE (validateToolMessage (tm_tool_call_id m) (os_open os) n) (\<lambda>_.
       validate_loop (n + 1) ms (answer_call (tm_tool_call_id m) os))"

definition initial_open_sets :: "context_message list \<Rightarrow> open_sets" where
  "initial_open_sets ctx =
     \<lparr>os_open = getOpenToolCallIds ctx,
      os_blocking = getUnclosableOpenToolCallIds ctx (getOpenToolCallIds ctx),
      os_approval = js_set_of (map tc_id (getPendingApprovalToolCalls ctx)),
      os_client = js_set_of (map tc_id (getPendingClientSideToolCalls ctx))\<rparr>"

definition validateInputMessageTypesGivenContext ::
    "context_message list \<Rightarrow> send_input list \<Rightarrow> thrown + unit" where
  "validateInputMessageTypesGivenContext ctx ms =
     bindE (validate_loop 0 ms (initial_open_sets ctx)) (\<lambda>os.
       guardE (length (os_approval os) > 0 \<or> length (os_client os) > 0)
         (InvalidAgentSendInputError
           (''Send batch must resolve all pending tool calls awaiting user input. Missing: '' @
             join '', '' (os_approval os @ os_client os))))"

section \<open>Small steps of a thread\<close>

definition gtick :: "nat thread_gen" where
  "gtick = gbind gget (\<lambda>s. gthen (gmodify (th_tick_update (\<lambda>n. n + 1))) (gret (th_tick s)))"

text \<open>\<open>newEventId()\<close> and \<open>new Date().toISOString()\<close>.\<close>

definition fresh_event :: "agent_env \<Rightarrow> (string \<times> string) thread_gen" where
  "fresh_event env = gbind gtick (\<lambda>n. gret (env_id env n, env_now env n))"

definition aborted :: "agent_env \<Rightarrow> bool thread_gen" where
  "aborted env = gbind gtick (\<lambda>n. gret (env_aborted env n))"

definition throwIfContextBusy :: "unit thread_gen" where
  "throwIfContextBusy =
     gbind gget (\<lambda>s. glift (guardE (th_busy s)
       (plain_error (''context is busy for thread '' @ ac_thread_id (th_config s)))))"

definition throwIfAlreadyComplete :: "unit thread_gen" where
  "throwIfAlreadyComplete =
     gbind gget (\<lambda>s. glift (guardE (th_completion s \<noteq> None)
       (InvalidAgentSendInputError (''thread '' @ ac_thread_id (th_config s) @ '' is already complete''))))"

definition deriveState :: "agent_thread_state thread_gen" where
  "deriveState =
     gbind gget (\<lambda>s.
       let next_state = deriveAgentThreadState (th_context s) in
       gbind (case th_state s of None \<Rightarrow> gret () | Some from \<Rightarrow> glift (assertValidTransition from next_state)) (\<lambda>_.
       gthen (gmodify (th_state_update (\<lambda>_. Some next_state))) (gret next_state)))"

definition append_event ::
    "agent_thread \<Rightarrow> context_message list \<Rightarrow> model_message_event list \<Rightarrow> current_context_usage
       \<Rightarrow> sub_agent_completion option \<Rightarrow> thread_event" where
  "append_event s ctx out u completion =
     Append_context \<lparr>tae_thread_id = ac_thread_id (th_config s), tae_context = ctx, tae_output = out,
       tae_usage = Some u, tae_completion = completion\<rparr>"

definition appendToContext ::
    "context_message list \<Rightarrow> model_message_event list \<Rightarrow> current_context_usage option \<Rightarrow> completion_usage option
       \<Rightarrow> sub_agent_completion option \<Rightarrow> unit thread_gen" where
  "appendToContext ctx out cu usage completion =
     gbind gget (\<lambda>s.
       let u = (case cu of Some u \<Rightarrow> u
                | None \<Rightarrow> mergeCurrentContextUsage (th_usage s) (estimateTokensForContextMessages ctx)) in
       gthen (case usage of None \<Rightarrow> gret () | Some cu \<Rightarrow> gmodify (th_metrics_update (\<lambda>m. updateMetricsFromUsage m cu)))
       (gthen (gyield (append_event s ctx out u completion))
         (gmodify (\<lambda>s. s\<lparr>th_context := th_context s @ ctx, th_usage := u\<rparr>))))"

definition overwriteContext ::
    "string \<Rightarrow> string \<Rightarrow> context_message list \<Rightarrow> current_context_usage \<Rightarrow> completion_usage \<Rightarrow> unit thread_gen" where
  "overwriteContext i created ctx u usage =
     gbind gget (\<lambda>s.
       gthen (gmodify (th_metrics_update (\<lambda>m. updateMetricsFromUsage m usage)))
       (gthen (gthen (gyield (Overwrite_context
           \<lparr>toc_id = i, toc_created_at = created, toc_thread_id = ac_thread_id (th_config s), toc_context = ctx,
            toc_current_context_usage = u, toc_usage = usage\<rparr>))
         (gmodify (\<lambda>s. s\<lparr>th_context := ctx, th_usage := u\<rparr>)))
       (gmodify (th_metrics_update (\<lambda>m. m\<lparr>total_summarizations := total_summarizations m + 1\<rparr>)))))"

definition done_event ::
    "agent_thread \<Rightarrow> done_status \<Rightarrow> llm_tool_message option \<Rightarrow> thread_event" where
  "done_event s status to_parent =
     Thread_done \<lparr>de_thread_id = ac_thread_id (th_config s), de_title = ac_title (th_config s),
       de_parent = ac_parent (th_config s), de_status = status, de_send_to_parent = to_parent\<rparr>"

definition generateErrorEvent :: "agent_thread \<Rightarrow> string \<Rightarrow> model_message_event option \<Rightarrow> thread_event" where
  "generateErrorEvent s message out =
     done_event s (Done_error message out)
       (map_option (\<lambda>p. \<lparr>tm_tool_call_id = ap_tool_call_id p, tm_content = message\<rparr>) (ac_parent (th_config s)))"

definition buildReplayEvent :: "agent_thread \<Rightarrow> sub_agent_completion \<Rightarrow> thrown + thread_event" where
  "buildReplayEvent s c =
     bindE (guardE (ac_parent (th_config s) = None)
       (plain_error ''unreachable: completion replay requires a parent thread'')) (\<lambda>_.
     Inr (done_event s
       (case c of Completion_done out m \<Rightarrow> Done_ok out
        | Completion_error out e m \<Rightarrow> Done_error e (Some out)
        | Completion_cancelled reason m \<Rightarrow> Done_cancelled reason)
       (Some (send_to_parent c))))"

definition cancel :: "string \<Rightarrow> unit thread_gen" where
  "cancel reason =
     gbind gget (\<lambda>s.
       case ac_parent (th_config s) of
         None \<Rightarrow> gthrow (plain_error ''unreachable: cancel() requires a parent thread'')
       | Some p \<Rightarrow>
           let completion = (case th_completion s of Some c \<Rightarrow> c
             | None \<Rightarrow> Completion_cancelled reason \<lparr>tm_tool_call_id = ap_tool_call_id p, tm_content = reason\<rparr>) in
           gthen (gyield (Append_context \<lparr>tae_thread_id = ac_thread_id (th_config s), tae_context = [],
                            tae_output = [], tae_usage = None, tae_completion = Some completion\<rparr>))
             (gmodify (th_completion_update (\<lambda>old. case old of None \<Rightarrow> Some completion | Some c \<Rightarrow> Some c))))"

definition closure_messages ::
    "(string, llm_tool_message) js_map \<Rightarrow> string \<Rightarrow> context_message list \<Rightarrow> context_message list" where
  "closure_messages closures dflt ctx =
     map (\<lambda>i. Tool_msg (case js_get closures i of Some m \<Rightarrow> m
                        | None \<Rightarrow> \<lparr>tm_tool_call_id = i, tm_content = dflt\<rparr>)) (getOpenToolCallIds ctx)"

definition closeAllOpenToolCalls :: "(string, llm_tool_message) js_map \<Rightarrow> string \<Rightarrow> unit thread_gen" where
  "closeAllOpenToolCalls closures dflt =
     gthen throwIfAlreadyComplete
     (gbind gget (\<lambda>s.
       let closed = closure_messages closures dflt (th_context s) in
       if length closed = 0 then gret () else appendToContext closed [] None None None))"

definition hasOpenToolCallId :: "agent_thread \<Rightarrow> string \<Rightarrow> bool" where
  "hasOpenToolCallId s i = (i \<in> set (getOpenToolCallIds (th_context s)))"

definition isAwaitingUserInput :: "agent_thread \<Rightarrow> bool" where
  "isAwaitingUserInput s =
     (length (getPendingApprovalToolCalls (th_context s)) > 0 \<or>
      length (getPendingClientSideToolCalls (th_context s)) > 0)"

definition validateSendInput :: "send_input list \<Rightarrow> unit thread_gen" where
  "validateSendInput ms =
     gbind gget (\<lambda>s.
       if length ms = 0 \<and> \<not> isAwaitingUserInput s then gret ()
       else gthen throwIfAlreadyComplete (glift (validateInputMessageTypesGivenContext (th_context s) ms)))"

definition toSnapshot :: "agent_thread \<Rightarrow> agent_thread_snapshot" where
  "toSnapshot s =
     \<lparr>ats_thread_id = ac_thread_id (th_config s), ats_context = th_context s,
      ats_current_context_usage = th_usage s, ats_parent = ac_parent (th_config s),
      ats_agent_info = ac_agent_info (th_config s), ats_completion = th_completion s,
      ats_capability_state =
        (if length (js_keys (th_capability_state s)) > 0 then Some (th_capability_state s) else None)\<rparr>"

section \<open>Context processors\<close>

definition execution_of :: "agent_thread \<Rightarrow> execution_context" where
  "execution_of s =
     \<lparr>ec_thread_id = ac_thread_id (th_config s), ec_usage = th_usage s, ec_context = th_context s\<rparr>"

definition handle_output :: "processor_output \<Rightarrow> unit thread_gen" where
  "handle_output out =
     gbind gget (\<lambda>s.
       case out of
         PO_append ctx evs u \<Rightarrow>
           appendToContext ctx evs (Some (case u of None \<Rightarrow> th_usage s | Some u \<Rightarrow> u)) None None
       | PO_overwrite i created ctx u usage \<Rightarrow> overwriteContext i created ctx u usage
       | PO_compaction_started v \<Rightarrow> gyield (Compaction_started (ac_thread_id (th_config s)) v)
       | PO_compaction_finished v \<Rightarrow> gyield (Compaction_finished (ac_thread_id (th_config s)) v)
       | PO_passthrough v \<Rightarrow> gyield (Passthrough v)
       | PO_capability_state k v \<Rightarrow>
           if k \<notin> set (ac_state_keys (th_config s))
           then gthrow (Thrown (Harness_class ''capability_state_error'')
             (''CAPABILITY_STATE key '' @ CHR 0x27 # k @ CHR 0x27 #
              '' is not declared by any capability on thread '' @ CHR 0x27 # ac_thread_id (th_config s) @ [CHR 0x27])
             None)
           else gthen (gyield (Capability_state (ac_thread_id (th_config s)) k v))
                  (gmodify (th_capability_state_update (js_set k v))))"

text \<open>The execution context is read once, before the first processor runs.\<close>

definition executeContextProcessors :: "context_processor list \<Rightarrow> unit thread_gen" where
  "executeContextProcessors processors =
     gbind gget (\<lambda>s0.
       gfor processors (\<lambda>processor.
         gbind gtick (\<lambda>n.
           case processor n (execution_of s0) of
             (outs, failure) \<Rightarrow>
               gthen (gfor outs handle_output)
                 (case failure of None \<Rightarrow> gret () | Some e \<Rightarrow> gthrow e))))"

text \<open>The fixed first \<open>preSend\<close> processor.\<close>

definition open_tool_call_closer :: context_processor where
  "open_tool_call_closer n x =
     (case closer_process_pre_send (ec_usage x) (ec_context x) of
        None \<Rightarrow> ([], None)
      | Some (dummies, u) \<Rightarrow> ([PO_append dummies [] (Some u)], None))"

definition pre_send_processors :: "agent_env \<Rightarrow> context_processor list" where
  "pre_send_processors env = open_tool_call_closer # env_pre_send env"

section \<open>Sending\<close>

text \<open>
  The approvals, client responses and context messages of a batch; each user message is processed by the
  sandbox, which may create it.
\<close>

fun send_approvals :: "send_input list \<Rightarrow> context_message list" where
  "send_approvals [] = []"
| "send_approvals (Send_approval m # ms) = Approval_msg (uta_tool_call_id m) (uta_approval m) # send_approvals ms"
| "send_approvals (m # ms) = send_approvals ms"

fun send_responses :: "send_input list \<Rightarrow> context_message list" where
  "send_responses [] = []"
| "send_responses (Send_response m # ms) =
     Tool_msg \<lparr>tm_tool_call_id = utr_tool_call_id m, tm_content = utr_content m\<rparr> # send_responses ms"
| "send_responses (m # ms) = send_responses ms"

fun send_context :: "agent_env \<Rightarrow> send_input \<Rightarrow> context_message list thread_gen" where
  "send_context env (Send_user c) =
     gbind gtick (\<lambda>n.
       gbind (glift (env_user_input env n c)) (\<lambda>(content, created).
         gthen
           (case created of None \<Rightarrow> gret ()
            | Some info \<Rightarrow> gbind (fresh_event env) (\<lambda>(i, now).
                gmodify (th_pending_sandbox_update (\<lambda>es. es @
                  [\<lparr>sce_id = i, sce_created_at = now, sce_info = info\<rparr>]))))
           (gret [User_msg content])))"
| "send_context env (Send_tool m) = gret [Tool_msg m]"
| "send_context env m = gret []"

definition append_if_any :: "context_message list \<Rightarrow> unit thread_gen" where
  "append_if_any ctx = (if length ctx > 0 then appendToContext ctx [] None None None else gret ())"

definition send_body :: "agent_env \<Rightarrow> send_input list \<Rightarrow> unit thread_gen" where
  "send_body env ms =
     gthen (executeContextProcessors (pre_send_processors env))
     (gthen (gmodify (th_pre_send_ran_update (\<lambda>_. True)))
     (gbind gget (\<lambda>s.
      gthen (glift (validateInputMessageTypesGivenContext (th_context s) ms))
      (gbind (gmap ms (send_context env)) (\<lambda>ctxs.
       gthen (append_if_any (send_approvals ms @ send_responses ms)) (append_if_any (concat ctxs)))))))"

definition send :: "agent_env \<Rightarrow> send_input list \<Rightarrow> unit thread_gen" where
  "send env ms =
     gbind gget (\<lambda>s.
       if length ms = 0 \<and> \<not> isAwaitingUserInput s then gret ()
       else gthen throwIfAlreadyComplete (gthen throwIfContextBusy
         (gthen (gmodify (th_busy_update (\<lambda>_. True)))
           (gfinally (send_body env ms) (th_busy_update (\<lambda>_. False))))))"

section \<open>The request to the model\<close>

definition raw_call :: "internal_tool_call \<Rightarrow> raw_tool_call" where
  "raw_call tc = \<lparr>tc_id = tc_id tc, tc_name = tc_name tc, tc_arguments = tc_arguments tc,
     tc_provider_fields = tc_provider_fields tc\<rparr>"

definition with_tool_calls :: "'a assistant_message \<Rightarrow> 'b list option \<Rightarrow> 'b assistant_message" where
  "with_tool_calls m tcs =
     \<lparr>am_content = am_content m, am_name = am_name m, am_refusal = am_refusal m, am_tool_calls = tcs,
      am_thinking_blocks = am_thinking_blocks m, am_reasoning_content = am_reasoning_content m,
      am_source = am_source m\<rparr>"

text \<open>\<open>None\<close> for a message that is not an LLM context message.\<close>

fun toOpenAIChatMessage :: "context_message \<Rightarrow> openai_message option" where
  "toOpenAIChatMessage (User_msg c) = Some (OA_user c)"
| "toOpenAIChatMessage (Tool_msg m) = Some (OA_tool m)"
| "toOpenAIChatMessage (Assistant_msg m) =
     Some (OA_assistant (with_tool_calls m
       (case am_tool_calls m of None \<Rightarrow> None | Some tcs \<Rightarrow>
          if tcs = [] then None else Some (map raw_call tcs))))"
| "toOpenAIChatMessage (Approval_msg i d) = None"

text \<open>
  A request is its messages, its tools and the other fields of the body: the response format, which
  \<open>toOpenAIResponseFormat\<close> only copies, and the model parameters assigned over it.
\<close>

definition transformToLLMRequest ::
    "agent_env \<Rightarrow> agent_thread \<Rightarrow> chat_completion_tool list \<Rightarrow> llm_request" where
  "transformToLLMRequest env s tools =
     (let c = th_config s;
          system = (case ac_instruction c of None \<Rightarrow> [] | Some t \<Rightarrow> if t = '''' then [] else [OA_system t]);
          messages = system @ map OA_user (ac_messages c) @ List.map_filter toOpenAIChatMessage (th_context s)
      in \<lparr>lr_messages = fold (\<lambda>p msgs. case p msgs of None \<Rightarrow> msgs | Some m \<Rightarrow> m) (env_ephemeral env) messages,
          lr_params = fold (\<lambda>(k, v). js_set k v)
            (case ac_model_params c of None \<Rightarrow> [] | Some ps \<Rightarrow> ps)
            (case ac_response_format c of None \<Rightarrow> [] | Some f \<Rightarrow> [(''response_format'', f)]),
          lr_tools = tools\<rparr>)"

definition round_quarter :: "nat \<Rightarrow> nat" where
  "round_quarter n = (n + 2) div 4"

definition computeAssistantMessageUsage ::
    "agent_env \<Rightarrow> agent_thread \<Rightarrow> llm_request \<Rightarrow> completion_usage \<Rightarrow> (string, mapped_mcp_tool) js_map
       \<Rightarrow> model_message_usage" where
  "computeAssistantMessageUsage env s req usage mapping =
     (let c = th_config s;
          managed = (\<lambda>t. case js_get mapping (cct_name t) of None \<Rightarrow> False
                       | Some info \<Rightarrow> tv_name (mm_tool_set info) \<in> set (th_managed_names s));
          tokens = (\<lambda>ts. sum_list (map (\<lambda>t. round_quarter (length (env_tool_text env t))) ts));
          instructions = (if ac_parent c \<noteq> None then 0
            else round_quarter (length (js_trim (case ac_user_instruction c of None \<Rightarrow> '''' | Some t \<Rightarrow> t))));
          skills = ac_skills_tokens c;
          total = round_quarter (length (case ac_instruction c of None \<Rightarrow> '''' | Some t \<Rightarrow> t));
          harness = (total - instructions - skills) + tokens (filter managed (lr_tools req));
          user_tools = tokens (filter (\<lambda>t. \<not> managed t) (lr_tools req));
          estimated = harness + skills + instructions + user_tools
      in \<lparr>mmu_input_tokens = cu_input_tokens usage, mmu_output_tokens = cu_output_tokens usage,
          mmu_cache_read_tokens = cu_cache_read_tokens usage, mmu_cache_write_tokens = cu_cache_write_tokens usage,
          mmu_breakdown = \<lparr>itb_harness = harness, itb_skills = skills, itb_instructions = instructions,
            itb_tool_definitions = user_tools, itb_messages = cu_input_tokens usage - estimated\<rparr>\<rparr>)"

text \<open>\<open>max_completion_tokens\<close>, or the older \<open>max_tokens\<close> where that is missing or null; only a number counts.\<close>

definition resolveMaxOutputTokens :: "(string, json) js_map \<Rightarrow> rat option" where
  "resolveMaxOutputTokens body =
     (let limit = (case js_get body ''max_completion_tokens'' of
                     Some v \<Rightarrow> if v = JNull then js_get body ''max_tokens'' else Some v
                   | None \<Rightarrow> js_get body ''max_tokens'')
      in case limit of Some (JNum q) \<Rightarrow> Some q | _ \<Rightarrow> None)"

text \<open>\<open>numberText\<close> is \<open>String(n)\<close> on numbers.\<close>

fun finishReasonErrorMessage ::
    "(rat \<Rightarrow> string) \<Rightarrow> finish_reason option \<Rightarrow> nat \<Rightarrow> rat option \<Rightarrow> string option" where
  "finishReasonErrorMessage numberText (Some Finish_length) outputTokens maxOutputTokens =
     Some (''Output truncated: hit '' @
       (case maxOutputTokens of Some m \<Rightarrow> ''the '' @ numberText m @ '' token limit''
        | None \<Rightarrow> ''the provider'' @ CHR 0x27 # ''s default token limit'') @
       (if outputTokens > 0 \<and> maxOutputTokens \<noteq> Some (of_nat outputTokens)
        then '' after '' @ numberText (of_nat outputTokens) @ '' tokens'' else '''') @
       ''. Raise max_tokens and retry.'')"
| "finishReasonErrorMessage numberText (Some Finish_content_filter) outputTokens maxOutputTokens =
     Some (''Output blocked: the model'' @ CHR 0x27 #
       ''s content safety filter stopped the response. Rephrase the request and retry.'')"
| "finishReasonErrorMessage numberText r outputTokens maxOutputTokens = None"

section \<open>The model step\<close>

definition truthy_info :: "(string, mapped_mcp_tool) js_map \<Rightarrow> agent_env \<Rightarrow> string \<Rightarrow> tool_info thread_gen" where
  "truthy_info mapping env name =
     (case js_get mapping name of
        None \<Rightarrow> gret (toToolCallInfo (makeUnknownToolInfo name))
      | Some info \<Rightarrow>
          gbind gtick (\<lambda>n.
          gbind (glift (env_tool_info env n (mm_tool_set info) (mm_original_tool_name info) None False)) (\<lambda>ti.
            gret (toToolCallInfo ti))))"

definition with_delta_info ::
    "agent_env \<Rightarrow> (string, mapped_mcp_tool) js_map \<Rightarrow> delta_tool_call \<Rightarrow> delta_tool_call thread_gen" where
  "with_delta_info env mapping tc =
     (case dtc_name tc of
        None \<Rightarrow> gret tc
      | Some name \<Rightarrow>
          if name = '''' then gret tc
          else gbind (truthy_info mapping env name) (\<lambda>ti. gret (tc\<lparr>dtc_tool_info := Some ti\<rparr>)))"

text \<open>A delta that says nothing is dropped; the field names of a delta decide nothing more than that.\<close>

definition drops_delta :: "stream_chunk \<Rightarrow> model_message_usage option \<Rightarrow> bool" where
  "drops_delta ck usage =
     (case sc_delta ck of
        None \<Rightarrow> True
      | Some d \<Rightarrow> cd_tool_calls d = [] \<and> cd_content d = '''' \<and> cd_reasoning_content d = '''' \<and>
          sc_finish_reason ck = None \<and> usage = None)"

definition buildModelMessageDeltaEvent ::
    "agent_env \<Rightarrow> agent_thread \<Rightarrow> stream_chunk \<Rightarrow> (string, mapped_mcp_tool) js_map \<Rightarrow> model_message_usage option
       \<Rightarrow> string \<Rightarrow> model_delta_event option thread_gen" where
  "buildModelMessageDeltaEvent env s ck mapping usage i =
     (case sc_delta ck of
        None \<Rightarrow> gret None
      | Some d \<Rightarrow>
          if drops_delta ck usage then gret None
          else gbind (gmap (cd_tool_calls d) (with_delta_info env mapping)) (\<lambda>tcs.
            gret (Some \<lparr>mde_id = i, mde_thread_id = ac_thread_id (th_config s), mde_created_at = None,
              mde_delta = d\<lparr>cd_tool_calls := tcs\<rparr>, mde_finish_reason = sc_finish_reason ck, mde_usage = usage\<rparr>)))"

text \<open>The loop over the stream, with the usage seen last and whether a delta was yielded.\<close>

fun stream_loop ::
    "agent_env \<Rightarrow> llm_request \<Rightarrow> (string, mapped_mcp_tool) js_map \<Rightarrow> string \<Rightarrow> stream_chunk list
       \<Rightarrow> model_message_usage option \<Rightarrow> bool \<Rightarrow> model_message_usage option thread_gen" where
  "stream_loop env req mapping i [] usage stamped = gret usage"
| "stream_loop env req mapping i (ck # cks) usage stamped =
     gbind gget (\<lambda>s.
       let usage' = (case sc_usage ck of None \<Rightarrow> usage
                     | Some u \<Rightarrow> Some (computeAssistantMessageUsage env s req u mapping)) in
       gbind (buildModelMessageDeltaEvent env s ck mapping usage' i) (\<lambda>ev.
         case ev of
           None \<Rightarrow> stream_loop env req mapping i cks usage' stamped
         | Some d \<Rightarrow>
             gbind (if stamped then gret d
                    else gbind gtick (\<lambda>n. gret (d\<lparr>mde_created_at := Some (env_now env n)\<rparr>))) (\<lambda>d'.
             gthen (gyield (Model_delta d')) (stream_loop env req mapping i cks usage' True))))"

definition tryParseToolArgs :: "agent_env \<Rightarrow> string \<Rightarrow> json" where
  "tryParseToolArgs env args =
     (if args = '''' then JObj []
      else case env_json_parse env args of
        Inl e \<Rightarrow> JObj []
      | Inr v \<Rightarrow> if is_json_object v then v else JObj [])"

definition enrich_call ::
    "agent_env \<Rightarrow> (string, mapped_mcp_tool) js_map \<Rightarrow> bool \<Rightarrow> raw_tool_call \<Rightarrow> internal_tool_call thread_gen" where
  "enrich_call env mapping resolve tc =
     (let with_info = (\<lambda>ti. \<lparr>tc_id = tc_id tc, tc_name = tc_name tc, tc_arguments = tc_arguments tc,
            tc_provider_fields = tc_provider_fields tc, tc_tool_info = ti\<rparr>)
      in case js_get mapping (tc_name tc) of
           None \<Rightarrow> gret (with_info (makeUnknownToolInfo (tc_name tc)))
         | Some info \<Rightarrow>
             gbind gtick (\<lambda>n.
             gbind (glift (env_tool_info env n (mm_tool_set info) (mm_original_tool_name info)
                 (if resolve then Some (tryParseToolArgs env (tc_arguments tc)) else None) resolve)) (\<lambda>ti.
               gret (with_info ti))))"

definition enrichAssistantMessage ::
    "agent_env \<Rightarrow> raw_assistant_message \<Rightarrow> (string, mapped_mcp_tool) js_map \<Rightarrow> bool
       \<Rightarrow> internal_assistant_message thread_gen" where
  "enrichAssistantMessage env m mapping resolve =
     (case am_tool_calls m of
        None \<Rightarrow> gret (with_tool_calls m None)
      | Some tcs \<Rightarrow>
          if tcs = [] then gret (with_tool_calls m None)
          else gbind (gmap tcs (enrich_call env mapping resolve)) (\<lambda>etcs. gret (with_tool_calls m (Some etcs))))"

definition toContextAssistantMessage :: "internal_assistant_message \<Rightarrow> internal_assistant_message" where
  "toContextAssistantMessage m = m\<lparr>am_reasoning_content := None\<rparr>"

text \<open>\<open>ModelSchema.parse\<close> rejects an empty name, with the error text of the schema library.\<close>

definition modelFromDefinition :: "agent_env \<Rightarrow> agent_config \<Rightarrow> thrown + model" where
  "modelFromDefinition env c =
     bindE (guardE (ac_model_name c = '''') (plain_error (env_model_name_error env))) (\<lambda>_. Inr
       \<lparr>model_name = ac_model_name c,
        model_params = (case ac_model_params c of None \<Rightarrow> None | Some ps \<Rightarrow> if length ps > 0 then Some ps else None)\<rparr>)"

fun empty_content :: "assistant_content option \<Rightarrow> bool" where
  "empty_content (Some (AText t)) = (t = '''')"
| "empty_content (Some (AParts ps)) = False"
| "empty_content None = True"

definition buildModelMessageEvent ::
    "internal_assistant_message \<Rightarrow> string \<Rightarrow> finish_reason option \<Rightarrow> model_message_usage option \<Rightarrow> string \<Rightarrow> string
       \<Rightarrow> model \<Rightarrow> model_message_event" where
  "buildModelMessageEvent m tid finish usage i now mdl =
     \<lparr>mme_id = i, mme_created_at = now, mme_thread_id = tid,
      mme_content = (if empty_content (am_content m) then None else am_content m),
      mme_name = am_name m, mme_refusal = am_refusal m,
      mme_tool_calls = map_option (map toEnrichedToolCall) (am_tool_calls m),
      mme_reasoning_content = am_reasoning_content m, mme_finish_reason = finish, mme_usage = usage,
      mme_model = Some mdl\<rparr>"

text \<open>The event that opens the stream of deltas.\<close>

definition placeholder_event :: "string \<Rightarrow> string \<Rightarrow> string \<Rightarrow> model \<Rightarrow> model_message_event" where
  "placeholder_event tid i now mdl =
     \<lparr>mme_id = i, mme_created_at = now, mme_thread_id = tid, mme_content = None, mme_name = None,
      mme_refusal = None, mme_tool_calls = None, mme_reasoning_content = None, mme_finish_reason = None,
      mme_usage = None, mme_model = Some mdl\<rparr>"

text \<open>The completion of a child thread that this message ends.\<close>

definition llm_completion ::
    "agent_env \<Rightarrow> agent_parent option \<Rightarrow> internal_assistant_message \<Rightarrow> model_message_event \<Rightarrow> string option
       \<Rightarrow> sub_agent_completion option" where
  "llm_completion env parent m out finishError =
     (case parent of
        None \<Rightarrow> None
      | Some p \<Rightarrow>
          (case finishError of
             Some e \<Rightarrow>
               let msg = assistantMessageContentToStringForSubAgent (env_part_text env) (am_content m) (Some e)
               in Some (Completion_error out msg \<lparr>tm_tool_call_id = ap_tool_call_id p, tm_content = msg\<rparr>)
           | None \<Rightarrow>
               if \<not> hasToolCalls m
               then Some (Completion_done out
                 \<lparr>tm_tool_call_id = ap_tool_call_id p,
                  tm_content = assistantMessageContentToStringForSubAgent (env_part_text env) (am_content m) None\<rparr>)
               else None))"

definition finish_llm_step ::
    "agent_env \<Rightarrow> internal_assistant_message \<Rightarrow> model_message_event \<Rightarrow> completion_usage \<Rightarrow> string option
       \<Rightarrow> step_outcome thread_gen" where
  "finish_llm_step env m out usage finishError =
     gbind gget (\<lambda>s.
       let completion = llm_completion env (ac_parent (th_config s)) m out finishError in
       gthen (appendToContext [Assistant_msg (toContextAssistantMessage m)] [out]
                (Some (currentContextUsageFromCompletion usage)) (Some usage) completion)
       (case finishError of
          Some e \<Rightarrow>
            gthen (gyield (generateErrorEvent s
                (case completion of Some (Completion_error o' msg tm) \<Rightarrow> msg | _ \<Rightarrow> e) (Some out)))
              (gret Exit)
        | None \<Rightarrow>
            if hasToolCalls m then gret Continue
            else if ac_parent (th_config s) \<noteq> None
            then (case completion of
                    None \<Rightarrow> gthrow (plain_error ''unreachable: child finished without a completion'')
                  | Some c \<Rightarrow> gbind (glift (buildReplayEvent s c)) (\<lambda>ev. gthen (gyield ev) (gret Exit)))
            else gthen (gyield (done_event s (Done_ok out) None)) (gret Exit)))"

text \<open>What follows the opening event: the deltas, then the message, unless the call was aborted.\<close>

definition receive_message ::
    "agent_env \<Rightarrow> (string, mapped_mcp_tool) js_map \<Rightarrow> agent_config \<Rightarrow> string \<Rightarrow> llm_request \<Rightarrow> llm_stream
       \<Rightarrow> (step_outcome \<times> string) thread_gen" where
  "receive_message env mapping c i req stream =
     gbind (stream_loop env req mapping i (ls_chunks stream) None False) (\<lambda>usage.
     gbind (glift (ls_end stream)) (\<lambda>fin.
     gbind (aborted env) (\<lambda>stop.
     if stop then gret (Exit, i)
     else gbind gget (\<lambda>s.
       let usage' = (case usage of Some u \<Rightarrow> u
                     | None \<Rightarrow> computeAssistantMessageUsage env s req (lf_usage fin) mapping) in
       gbind (enrichAssistantMessage env (lf_output fin) mapping True) (\<lambda>m.
       gbind (enrichAssistantMessage env (lf_output fin) mapping False) (\<lambda>shown.
       gbind (glift (modelFromDefinition env c)) (\<lambda>mdl.
       gbind gtick (\<lambda>n.
         let out = buildModelMessageEvent shown (ac_thread_id c) (lf_finish_reason fin) (Some usage') i
                     (env_now env n) mdl;
             finishError = finishReasonErrorMessage (env_number_text env) (lf_finish_reason fin)
                             (cu_output_tokens (lf_usage fin)) (resolveMaxOutputTokens (lr_params req)) in
         gbind (finish_llm_step env m out (lf_usage fin) finishError) (\<lambda>outcome.
         gret (outcome, i))))))))))"

definition stepLLMCall ::
    "agent_env \<Rightarrow> chat_completion_tool list \<Rightarrow> (string, mapped_mcp_tool) js_map
       \<Rightarrow> (step_outcome \<times> string) thread_gen" where
  "stepLLMCall env tools mapping =
     gbind gtick (\<lambda>n0.
       let i = env_id env n0 in
       gbind (aborted env) (\<lambda>stop.
       if stop then gret (Exit, i)
       else gthen (executeContextProcessors (env_pre_llm env))
       (gbind gget (\<lambda>s.
        gbind gtick (\<lambda>n.
         let c = th_config s; req = transformToLLMRequest env s tools in
         gbind (glift (modelFromDefinition env c)) (\<lambda>mdl.
         gthen (gyield (Model_message (placeholder_event (ac_thread_id c) i (env_now env n) mdl)))
           (receive_message env mapping c i req (env_llm env n req))))))))"

section \<open>The tool step\<close>

definition buildMCPInitializeEvent :: "agent_env \<Rightarrow> mcp_server_init_info list \<Rightarrow> string \<Rightarrow> mcp_initialize_event thread_gen" where
  "buildMCPInitializeEvent env infos tid =
     gbind (fresh_event env) (\<lambda>(i, now).
       gret \<lparr>mie_id = i, mie_created_at = now, mie_thread_id = tid, mie_servers = infos\<rparr>)"

definition buildMCPAuthRequiredEvent ::
    "agent_env \<Rightarrow> mcp_server_auth_info list list \<Rightarrow> string \<Rightarrow> internal_auth_event thread_gen" where
  "buildMCPAuthRequiredEvent env infos tid =
     gbind (fresh_event env) (\<lambda>(i, now).
       gret \<lparr>iae_id = i, iae_created_at = now,
         iae_servers = concat (map (map (\<lambda>sv. \<lparr>iai_server = sv, iai_thread_ids = [tid]\<rparr>)) infos)\<rparr>)"

definition buildSandboxCreatedEvent :: "agent_env \<Rightarrow> sandbox_info \<Rightarrow> sandbox_created_event thread_gen" where
  "buildSandboxCreatedEvent env info =
     gbind (fresh_event env) (\<lambda>(i, now).
       gret \<lparr>sce_id = i, sce_created_at = now, sce_info = info\<rparr>)"

definition yield_built :: "('a \<Rightarrow> thread_event) \<Rightarrow> 'a thread_gen \<Rightarrow> unit thread_gen" where
  "yield_built C g = gbind g (\<lambda>e. gyield (C e))"

definition yield_sandbox :: "agent_env \<Rightarrow> sandbox_info option \<Rightarrow> unit thread_gen" where
  "yield_sandbox env info =
     (case info of None \<Rightarrow> gret () | Some i \<Rightarrow> yield_built Sandbox_created (buildSandboxCreatedEvent env i))"

fun process_tool_responses ::
    "(nat \<Rightarrow> tool_call_result list \<Rightarrow> execution_context \<Rightarrow> thrown + tool_processor_result) list
       \<Rightarrow> agent_env \<Rightarrow> execution_context \<Rightarrow> tool_call_result list \<Rightarrow> tool_call_result list thread_gen" where
  "process_tool_responses [] env x results = gret results"
| "process_tool_responses (p # ps) env x results =
     gbind gtick (\<lambda>n.
     gbind (glift (p n results x)) (\<lambda>r.
       gthen (yield_sandbox env (tpr_sandbox_created r))
       (gthen (gfor (tpr_events r) (\<lambda>v. gyield (Passthrough v)))
         (process_tool_responses ps env x (tpr_results r)))))"

definition result_ids :: "tool_call_result list \<Rightarrow> string list" where
  "result_ids results = map (\<lambda>r. tm_tool_call_id (tcr_message r)) results"

definition check_processed :: "tool_call_result list \<Rightarrow> tool_call_result list \<Rightarrow> thrown + unit" where
  "check_processed before after =
     bindE (guardE (length (result_ids before) \<noteq> length after)
       (plain_error ''Some tool call processor has removed tool call.'')) (\<lambda>_.
     guardE (\<not> list_all (\<lambda>i. i \<in> set (result_ids after)) (result_ids before))
       (plain_error ''Tool call IDs do not match after processing.''))"

definition tool_response_event_of :: "agent_env \<Rightarrow> string \<Rightarrow> tool_call_result \<Rightarrow> tool_response_event thread_gen" where
  "tool_response_event_of env tid r =
     gbind gtick (\<lambda>n. gret
       \<lparr>tre_id = env_id env n, tre_created_at = tcr_completed_at r, tre_thread_id = tid,
        tre_tool_call_id = tm_tool_call_id (tcr_message r), tre_content = tm_content (tcr_message r)\<rparr>)"

definition open_calls :: "context_message list \<Rightarrow> internal_assistant_message \<Rightarrow> internal_tool_call list" where
  "open_calls ctx m =
     (case am_tool_calls m of None \<Rightarrow> []
      | Some tcs \<Rightarrow> filter (\<lambda>tc. tc_id tc \<in> set (getOpenToolCallIds ctx)) tcs)"

text \<open>What follows the calls: the yields, the appends and the outcome.\<close>

definition settle_tool_step :: "agent_env \<Rightarrow> agent_thread \<Rightarrow> execute_result \<Rightarrow> step_outcome thread_gen" where
  "settle_tool_step env s r =
     (let tid = ac_thread_id (th_config s) in
      gthen (if length (er_init r) > 0 then yield_built Mcp_initialize (buildMCPInitializeEvent env (er_init r) tid) else gret ())
      (gthen (yield_sandbox env (er_sandbox r))
      (gthen (gfor (er_events r) (\<lambda>v. gyield (Passthrough v)))
      (gbind (process_tool_responses (env_tool_response env) env (execution_of s) (er_results r)) (\<lambda>results.
       gthen (glift (check_processed (er_results r) results))
       (gbind (gmap results (tool_response_event_of env tid)) (\<lambda>evs.
        gthen (gfor evs (\<lambda>e. gyield (Tool_response e)))
        (gthen (appendToContext (map (\<lambda>x. Tool_msg (tcr_message x)) results) [] None None None)
        (if length (er_auth r) > 0
         then gthen (yield_built Auth_required (buildMCPAuthRequiredEvent env (er_auth r) tid)) (gret Exit)
         else gthen (executeContextProcessors (env_post_tool_call env))
           (gthen (gfor (er_create r) (\<lambda>c. gyield (Create_sub_agent c)))
             (gret (if length (er_create r) > 0 then Exit else Continue)))))))))))) "

definition stepToolResponse :: "agent_env \<Rightarrow> (string, mapped_mcp_tool) js_map \<Rightarrow> step_outcome thread_gen" where
  "stepToolResponse env mapping =
     gbind gget (\<lambda>s.
       case lastAssistantInContext (th_context s) of
         None \<Rightarrow> gthrow (plain_error ''unreachable'')
       | Some m \<Rightarrow>
           gbind gtick (\<lambda>n.
             let r = executeToolCalls (env_stringify env) (env_json_parse env) (env_call env n)
                       (env_completed env n) (m\<lparr>am_tool_calls := Some (open_calls (th_context s) m)\<rparr>) mapping
                       (ac_thread_id (th_config s)) (scanApprovalDecisions (th_context s)) in
             gthen (glift (guardE (length (er_approval r) > 0) (plain_error ''Unreachable'')))
             (gthen (gmodify (th_metrics_update (\<lambda>mt. mt
                 \<lparr>total_tool_calls := total_tool_calls mt + length (er_results r),
                  total_sub_agents := total_sub_agents mt + length (er_create r)\<rparr>)))
               (settle_tool_step env s r))))"

definition required_event ::
    "agent_env \<Rightarrow> string \<Rightarrow> string \<Rightarrow> internal_tool_call list \<Rightarrow> tool_calls_required_event thread_gen" where
  "required_event env tid source tcs =
     gbind (fresh_event env) (\<lambda>(i, now).
       gret \<lparr>tcre_id = i, tcre_created_at = now, tcre_thread_id = tid,
         tcre_tool_calls = map (\<lambda>tc. \<lparr>tcr_id = tc_id tc, tcr_source_event_id = source\<rparr>) tcs\<rparr>)"

definition stepUserInputRequired :: "agent_env \<Rightarrow> string \<Rightarrow> step_outcome thread_gen" where
  "stepUserInputRequired env source =
     gbind gget (\<lambda>s.
       let tid = ac_thread_id (th_config s); clients = getPendingClientSideToolCalls (th_context s) in
       gthen (if length clients > 0
              then gbind (required_event env tid source clients) (\<lambda>ev. gyield (Response_required ev))
              else gret ())
       (gbind gget (\<lambda>s1.
         let approvals = getPendingApprovalToolCalls (th_context s1) in
         gthen (if length approvals > 0
                then gbind (required_event env tid source approvals) (\<lambda>ev. gyield (Approval_required ev))
                else gret ())
           (gret Exit))))"

section \<open>Execution\<close>

definition initTools :: "agent_env \<Rightarrow> (mcp_server_init_info list \<times> mcp_server_auth_info list list) thread_gen" where
  "initTools env =
     gbind gtick (\<lambda>n.
       case env_tool_sets env n of
         (managed, user) \<Rightarrow>
           (case convertMCPServersToTools managed user of
              Inl e \<Rightarrow> gthrow (thrown_tool_error e)
            | Inr cv \<Rightarrow>
                gthen (gmodify (\<lambda>s. s\<lparr>th_tools := Some (cv_tools cv, cv_mapping cv),
                                       th_managed_names := js_set_of (map tv_name managed)\<rparr>))
                  (gret (cv_init cv, cv_auth cv))))"

definition init :: "agent_env \<Rightarrow> (mcp_server_init_info list \<times> mcp_server_auth_info list list) thread_gen" where
  "init env = gbind gget (\<lambda>s. if th_tools s \<noteq> None then gret ([], []) else initTools env)"

definition drain_pending :: "unit thread_gen" where
  "drain_pending =
     gbind gget (\<lambda>s. gfor (th_pending_sandbox s) (\<lambda>ev.
       gthen (gmodify (th_pending_sandbox_update tl)) (gyield (Sandbox_created ev))))"

definition iteration_limit :: "agent_config \<Rightarrow> nat" where
  "iteration_limit c = (case ac_iteration_limit c of None \<Rightarrow> DEFAULT_ITERATION_LIMIT | Some n \<Rightarrow> n)"

text \<open>One turn of the loop: the outcome and the id of the model message the pending calls come from.\<close>

definition llm_turn ::
    "agent_env \<Rightarrow> chat_completion_tool list \<Rightarrow> (string, mapped_mcp_tool) js_map \<Rightarrow> string
       \<Rightarrow> (step_outcome \<times> string) thread_gen" where
  "llm_turn env tools mapping source =
     gbind (aborted env) (\<lambda>stop.
       if stop then gret (Exit, source)
       else gbind gget (\<lambda>s.
         let limit = iteration_limit (th_config s) in
         if iterations (th_metrics s) \<ge> limit
         then gthen (gyield (generateErrorEvent s
             (''You have reached iteration limit of '' @ show_nat limit @ '', please request again'') None))
           (gret (Exit, source))
         else gthen (gmodify (th_metrics_update (\<lambda>m. m\<lparr>iterations := iterations m + 1\<rparr>)))
           (stepLLMCall env tools mapping)))"

definition tool_turn ::
    "agent_env \<Rightarrow> (string, mapped_mcp_tool) js_map \<Rightarrow> string \<Rightarrow> (step_outcome \<times> string) thread_gen" where
  "tool_turn env mapping source =
     gbind (aborted env) (\<lambda>stop.
       if stop then gret (Exit, source)
       else gbind (stepToolResponse env mapping) (\<lambda>outcome. gret (outcome, source)))"

definition loop_body ::
    "agent_env \<Rightarrow> chat_completion_tool list \<Rightarrow> (string, mapped_mcp_tool) js_map \<Rightarrow> string
       \<Rightarrow> (step_outcome \<times> string) thread_gen" where
  "loop_body env tools mapping source =
     gthen drain_pending
     (gbind deriveState (\<lambda>state.
       case state of
         Llm_call_required \<Rightarrow> llm_turn env tools mapping source
       | Tool_response_required_state \<Rightarrow> tool_turn env mapping source
       | User_input_required \<Rightarrow>
           gbind (stepUserInputRequired env source) (\<lambda>outcome. gret (outcome, source))))"

section \<open>The loop\<close>

text \<open>
  What the steps of one turn of the loop leave alone: the configuration, the count of model calls and the
  state derived last. It is why the loop ends: a model call uses up one of the allowed ones, and two tool
  steps never follow each other.
\<close>

definition loop_frame :: "agent_thread \<Rightarrow> agent_config \<times> nat \<times> agent_thread_state option" where
  "loop_frame s = (th_config s, iterations (th_metrics s), th_state s)"

definition budget :: "agent_thread \<Rightarrow> nat" where
  "budget s = 2 * (iteration_limit (th_config s) - iterations (th_metrics s)) +
     (if th_state s = Some Tool_response_required_state then 0 else 1)"

lemma iterations_usage [simp]: "iterations (updateMetricsFromUsage m u) = iterations m"
  by (simp add: updateMetricsFromUsage_def)

lemma loop_frame_simps [simp]:
  "loop_frame (th_tick_update f s) = loop_frame s"
  "loop_frame (th_context_update f1 s) = loop_frame s"
  "loop_frame (th_usage_update f2 s) = loop_frame s"
  "loop_frame (th_capability_state_update f3 s) = loop_frame s"
  "loop_frame (th_pending_sandbox_update f4 s) = loop_frame s"
  "(\<And>m. iterations (g m) = iterations m) \<Longrightarrow> loop_frame (th_metrics_update g s) = loop_frame s"
  by (simp_all add: loop_frame_def)

named_theorems frame_steps "steps that leave the loop frame alone"

lemma frame_case [keeps_intro]:
  "(x = None \<Longrightarrow> keeps f g) \<Longrightarrow> (\<And>y. x = Some y \<Longrightarrow> keeps f (h y)) \<Longrightarrow> keeps f (case x of None \<Rightarrow> g | Some y \<Rightarrow> h y)"
  "(\<And>a b. keeps f (k a b)) \<Longrightarrow> keeps f (case p of (a, b) \<Rightarrow> k a b)"
  "keeps f g1 \<Longrightarrow> keeps f g2 \<Longrightarrow> keeps f (if c then g1 else g2)"
  by (auto split: option.splits prod.splits)

lemma frame_tick [frame_steps]: "keeps loop_frame gtick"
  unfolding gtick_def by (intro keeps_intro) simp_all

lemma frame_fresh [frame_steps]: "keeps loop_frame (fresh_event env)" "keeps loop_frame (aborted env)"
  unfolding fresh_event_def aborted_def by (intro keeps_intro frame_steps)+

lemma frame_append [frame_steps]: "keeps loop_frame (appendToContext ctx out cu usage completion)"
  unfolding appendToContext_def Let_def by (intro keeps_intro) simp_all

lemma frame_overwrite [frame_steps]: "keeps loop_frame (overwriteContext i created ctx u usage)"
  unfolding overwriteContext_def by (intro keeps_intro) simp_all

lemma frame_output [frame_steps]: "keeps loop_frame (handle_output out)"
  unfolding handle_output_def by (cases out) (auto intro!: keeps_intro frame_steps)

lemma frame_processors [frame_steps]: "keeps loop_frame (executeContextProcessors ps)"
  unfolding executeContextProcessors_def by (intro keeps_intro frame_steps)

lemma frame_delta [frame_steps]: "keeps loop_frame (buildModelMessageDeltaEvent env s ck mapping usage i)"
  unfolding buildModelMessageDeltaEvent_def with_delta_info_def truthy_info_def
  by (intro keeps_intro frame_steps)

lemma frame_stream [frame_steps]: "keeps loop_frame (stream_loop env req mapping i cks usage stamped)"
  by (induction cks arbitrary: usage stamped) (auto simp: Let_def intro!: keeps_intro frame_steps)

lemma frame_enrich [frame_steps]: "keeps loop_frame (enrichAssistantMessage env m mapping resolve)"
  unfolding enrichAssistantMessage_def enrich_call_def Let_def by (intro keeps_intro frame_steps)

lemma frame_finish [frame_steps]: "keeps loop_frame (finish_llm_step env m out usage e)"
  unfolding finish_llm_step_def Let_def by (intro keeps_intro frame_steps)

lemma frame_receive [frame_steps]: "keeps loop_frame (receive_message env mapping c i req stream)"
  unfolding receive_message_def Let_def by (intro keeps_intro frame_steps)

lemma frame_llm [frame_steps]: "keeps loop_frame (stepLLMCall env tools mapping)"
  unfolding stepLLMCall_def Let_def by (intro keeps_intro frame_steps)

lemma frame_built [frame_steps]:
  "keeps loop_frame (yield_built Mcp_initialize (buildMCPInitializeEvent env infos tid))"
  "keeps loop_frame (yield_built Auth_required (buildMCPAuthRequiredEvent env auths tid))"
  "keeps loop_frame (yield_sandbox env info)"
  "keeps loop_frame (tool_response_event_of env tid r)"
  unfolding yield_built_def buildMCPInitializeEvent_def buildMCPAuthRequiredEvent_def yield_sandbox_def
    buildSandboxCreatedEvent_def tool_response_event_of_def
  by (intro keeps_intro frame_steps)+

lemma frame_responses [frame_steps]: "keeps loop_frame (process_tool_responses ps env x results)"
  by (induction ps arbitrary: results) (auto intro!: keeps_intro frame_steps)

lemma frame_settle [frame_steps]: "keeps loop_frame (settle_tool_step env s r)"
  unfolding settle_tool_step_def Let_def by (intro keeps_intro frame_steps)

lemma frame_tool [frame_steps]: "keeps loop_frame (stepToolResponse env mapping)"
  unfolding stepToolResponse_def Let_def by (intro keeps_intro frame_steps) simp_all

lemma frame_drain [frame_steps]: "keeps loop_frame drain_pending"
  unfolding drain_pending_def by (intro keeps_intro) simp_all

lemma deriveState_run:
  "deriveState s =
     (let n = deriveAgentThreadState (th_context s) in
      case th_state s of
        None \<Rightarrow> ([], s\<lparr>th_state := Some n\<rparr>, Inr n)
      | Some from \<Rightarrow>
          (case assertValidTransition from n of
             Inl e \<Rightarrow> ([], s, Inl e)
           | Inr u \<Rightarrow> ([], s\<lparr>th_state := Some n\<rparr>, Inr n)))"
  by (auto simp: deriveState_def Let_def gbind_def gthen_def gen_defs split: option.splits sum.splits)

lemma valid_transition_iff: "assertValidTransition from to = Inr u \<longleftrightarrow> to \<in> set (VALID_TRANSITIONS from)"
  by (simp add: assertValidTransition_def)

lemma budget_frame: "loop_frame s = loop_frame s' \<Longrightarrow> budget s = budget s'"
  by (simp add: loop_frame_def budget_def)

lemma gbind_InrE:
  assumes "gbind g f s = (tr, t, Inr b)"
  obtains tr1 s1 a tr2 where "g s = (tr1, s1, Inr a)" "f a s1 = (tr2, t, Inr b)" "tr = tr1 @ tr2"
  using assms by (auto simp: gbind_def split: prod.splits sum.splits)

lemma gthen_InrE:
  assumes "gthen g h s = (tr, t, Inr b)"
  obtains tr1 s1 tr2 where "g s = (tr1, s1, Inr ())" "h s1 = (tr2, t, Inr b)" "tr = tr1 @ tr2"
  using assms unfolding gthen_def by (elim gbind_InrE) auto

lemma llm_turn_continues:
  assumes "llm_turn env tools mapping source s = (tr, s1, Inr (Continue, source'))"
  shows "iterations (th_metrics s) < iteration_limit (th_config s)"
    and "loop_frame s1 = (th_config s, iterations (th_metrics s) + 1, th_state s)"
proof -
  obtain tr1 s0 stop tr2 where a: "aborted env s = (tr1, s0, Inr stop)"
    and b: "(if stop then gret (Exit, source)
       else gbind gget (\<lambda>s.
         let limit = iteration_limit (th_config s) in
         if iterations (th_metrics s) \<ge> limit
         then gthen (gyield (generateErrorEvent s
             (''You have reached iteration limit of '' @ show_nat limit @ '', please request again'') None))
           (gret (Exit, source))
         else gthen (gmodify (th_metrics_update (\<lambda>m. m\<lparr>iterations := iterations m + 1\<rparr>)))
           (stepLLMCall env tools mapping))) s0 = (tr2, s1, Inr (Continue, source'))"
    using assms unfolding llm_turn_def by (rule gbind_InrE) blast
  have f0: "loop_frame s0 = loop_frame s" using keepsD[OF frame_fresh(2), of env s] a by simp
  let ?s = "th_metrics_update (\<lambda>m. m\<lparr>iterations := iterations m + 1\<rparr>) s0"
  have "\<not> stop" using b by (auto simp: gret_def split: if_splits)
  then have low: "iterations (th_metrics s0) < iteration_limit (th_config s0)"
    and "gthen (gmodify (th_metrics_update (\<lambda>m. m\<lparr>iterations := iterations m + 1\<rparr>)))
           (stepLLMCall env tools mapping) s0 = (tr2, s1, Inr (Continue, source'))"
    using b by (auto simp: gbind_def gget_def gthen_def gyield_def gret_def Let_def not_le split: if_splits)
  then obtain tr3 where "stepLLMCall env tools mapping ?s = (tr3, s1, Inr (Continue, source'))"
    by (auto elim!: gthen_InrE simp: gmodify_def)
  then have "loop_frame s1 = loop_frame ?s" using keepsD[OF frame_llm, of env tools mapping ?s] by simp
  with low f0 show "iterations (th_metrics s) < iteration_limit (th_config s)"
    and "loop_frame s1 = (th_config s, iterations (th_metrics s) + 1, th_state s)"
    by (simp_all add: loop_frame_def)
qed

lemma frame_tool_turn [frame_steps]: "keeps loop_frame (tool_turn env mapping source)"
  unfolding tool_turn_def by (intro keeps_intro frame_steps)

lemma user_turn_exits: "result_of (stepUserInputRequired env source s) \<noteq> Inr Continue"
  by (auto simp: stepUserInputRequired_def gbind_run gthen_def gret_def Let_def split: sum.splits)

lemma loop_body_continues:
  assumes "loop_body env tools mapping source s = (tr, s1, Inr (Continue, source'))"
  shows "budget s1 < budget s"
proof -
  obtain tr1 s0 tr2 where d: "drain_pending s = (tr1, s0, Inr ())"
    and rest: "gbind deriveState (\<lambda>state.
       case state of
         Llm_call_required \<Rightarrow> llm_turn env tools mapping source
       | Tool_response_required_state \<Rightarrow> tool_turn env mapping source
       | User_input_required \<Rightarrow>
           gbind (stepUserInputRequired env source) (\<lambda>outcome. gret (outcome, source))) s0 =
        (tr2, s1, Inr (Continue, source'))"
    using assms unfolding loop_body_def by (rule gthen_InrE) blast
  have f0: "loop_frame s0 = loop_frame s" using keepsD[OF frame_drain, of s] d by simp
  obtain tr3 s2 n tr4 where der: "deriveState s0 = (tr3, s2, Inr n)"
    and run: "(case n of
         Llm_call_required \<Rightarrow> llm_turn env tools mapping source
       | Tool_response_required_state \<Rightarrow> tool_turn env mapping source
       | User_input_required \<Rightarrow>
           gbind (stepUserInputRequired env source) (\<lambda>outcome. gret (outcome, source))) s2 =
        (tr4, s1, Inr (Continue, source'))"
    using rest by (rule gbind_InrE) blast
  have s2: "s2 = s0\<lparr>th_state := Some n\<rparr>"
    and ok: "\<And>from. th_state s0 = Some from \<Longrightarrow> n \<in> set (VALID_TRANSITIONS from)"
    using der by (auto simp: deriveState_run Let_def valid_transition_iff split: option.splits sum.splits)
  show ?thesis
  proof (cases n)
    case Llm_call_required
    then have "llm_turn env tools mapping source s2 = (tr4, s1, Inr (Continue, source'))" using run by simp
    from llm_turn_continues[OF this] f0 show ?thesis
      by (auto simp: loop_frame_def budget_def s2)
  next
    case Tool_response_required_state
    then have "loop_frame s1 = loop_frame s2"
      using run keepsD[OF frame_tool_turn, of env mapping source s2] by simp
    moreover have "th_state s0 \<noteq> Some Tool_response_required_state" using ok Tool_response_required_state by auto
    ultimately show ?thesis using f0 Tool_response_required_state by (auto simp: loop_frame_def budget_def s2)
  next
    case User_input_required
    then show ?thesis using run user_turn_exits[of env source s2]
      by (auto elim!: gbind_InrE simp: gret_def)
  qed
qed

text \<open>\<open>for (;;)\<close> around the body.\<close>

function thread_loop ::
    "agent_env \<Rightarrow> chat_completion_tool list \<Rightarrow> (string, mapped_mcp_tool) js_map \<Rightarrow> string \<Rightarrow> unit thread_gen" where
  "thread_loop env tools mapping source s =
     (case loop_body env tools mapping source s of
        (tr, s1, Inl e) \<Rightarrow> (tr, s1, Inl e)
      | (tr, s1, Inr (Exit, source')) \<Rightarrow> (tr, s1, Inr ())
      | (tr, s1, Inr (Continue, source')) \<Rightarrow>
          (case thread_loop env tools mapping source' s1 of (tr', s2, r) \<Rightarrow> (tr @ tr', s2, r)))"
  by pat_completeness auto
termination
  by (relation "measure (\<lambda>(env, tools, mapping, source, s). budget s)") (auto dest: loop_body_continues[OF sym])

declare thread_loop.simps [simp del]

definition execute_body :: "agent_env \<Rightarrow> unit thread_gen" where
  "execute_body env =
     gbind gget (\<lambda>s.
       case th_completion s of
         Some c \<Rightarrow> gbind (glift (buildReplayEvent s c)) gyield
       | None \<Rightarrow>
           gthen (if \<not> th_pre_send_ran s then executeContextProcessors (pre_send_processors env) else gret ())
           (gthen (gmodify (th_pre_send_ran_update (\<lambda>_. False)))
           (gbind (init env) (\<lambda>(infos, auths).
            let tid = ac_thread_id (th_config s) in
            gthen (if length infos > 0 then yield_built Mcp_initialize (buildMCPInitializeEvent env infos tid) else gret ())
            (if length auths > 0 then yield_built Auth_required (buildMCPAuthRequiredEvent env auths tid)
             else gbind gget (\<lambda>s1.
               case th_tools s1 of
                 None \<Rightarrow> gthrow (plain_error ''unreachable'')
               | Some (tools, mapping) \<Rightarrow> thread_loop env tools mapping ''''))))))"

definition execute :: "agent_env \<Rightarrow> unit thread_gen" where
  "execute env =
     gthen throwIfContextBusy
     (gthen (gmodify (\<lambda>s. s\<lparr>th_busy := True, th_state := None\<rparr>))
       (gfinally
         (gcatch (execute_body env)
           (\<lambda>e. gbind gget (\<lambda>s. gyield (generateErrorEvent s (describeUnknownError e) None))))
         (th_busy_update (\<lambda>_. False))))"

section \<open>Capability state\<close>

text \<open>
  A capability is the key of its state, if it has one; the empty key counts as none. The long dash of the
  message is written as a colon.
\<close>

fun unique_keys_scan :: "string list \<Rightarrow> string option list \<Rightarrow> thrown + unit" where
  "unique_keys_scan seen [] = Inr ()"
| "unique_keys_scan seen (None # cs) = unique_keys_scan seen cs"
| "unique_keys_scan seen (Some k # cs) =
     (if k = '''' then unique_keys_scan seen cs
      else if k \<in> set seen
      then Inl (Thrown (Harness_class ''capability_state_error'')
        (''Duplicate capability state key '' @ CHR 0x27 # k @ CHR 0x27 #
         '': each key may be claimed by at most one capability'') None)
      else unique_keys_scan (js_add k seen) cs)"

definition assertUniqueStateKeys :: "string option list \<Rightarrow> thrown + unit" where
  "assertUniqueStateKeys cs = unique_keys_scan [] cs"

definition claimCapabilityState :: "string option list \<Rightarrow> capability_state option \<Rightarrow> capability_state" where
  "claimCapabilityState cs inp =
     (case inp of None \<Rightarrow> []
      | Some kv \<Rightarrow> fold (\<lambda>(k, v) claimed. if Some k \<notin> set cs then claimed else js_set k v claimed) kv [])"

text \<open>The constructor: \<open>c\<close> with the state keys of the capabilities.\<close>

definition new_agent_thread ::
    "agent_config \<Rightarrow> string option list \<Rightarrow> context_message list option \<Rightarrow> current_context_usage option
       \<Rightarrow> sub_agent_completion option \<Rightarrow> capability_state option \<Rightarrow> thrown + agent_thread" where
  "new_agent_thread c caps ctx u completion inp =
     bindE (assertUniqueStateKeys caps) (\<lambda>_. Inr
       \<lparr>th_config = c\<lparr>ac_state_keys := js_set_of (List.map_filter id caps)\<rparr>,
        th_context = (case ctx of None \<Rightarrow> [] | Some ms \<Rightarrow> ms),
        th_usage = (case u of None \<Rightarrow> getEmptyCurrentContextUsage | Some v \<Rightarrow> v),
        th_metrics = createEmptyAgentThreadMetrics, th_tools = None, th_managed_names = [],
        th_pending_sandbox = [], th_busy = False, th_pre_send_ran = False, th_state = None,
        th_completion = completion, th_capability_state = claimCapabilityState caps inp, th_tick = 0\<rparr>)"

end
