(* ===== verification/Agent_Thread_Sync.thy ===== *)
theory Agent_Thread_Sync
  imports Agent_Thread
begin

text \<open>
  The state-sync contract of an agent thread: the consumer of its events (the session store) can rebuild
  context, usage and capability state from them, and the thread changes these fields only after the consumer
  has taken the event. The locale \<open>replica\<close> is interpreted on the fields and events of a thread.
\<close>

type_synonym thread_view = "context_message list \<times> current_context_usage \<times> capability_state"

definition thread_view :: "agent_thread \<Rightarrow> thread_view" where
  "thread_view s = (th_context s, th_usage s, th_capability_state s)"

text \<open>What the store does with an event of a running turn.\<close>

fun absorb_event :: "thread_event \<Rightarrow> thread_view \<Rightarrow> thread_view" where
  "absorb_event (Append_context e) (ctx, u, k) =
     (ctx @ tae_context e, (case tae_usage e of None \<Rightarrow> u | Some u' \<Rightarrow> u'), k)"
| "absorb_event (Overwrite_context e) (ctx, u, k) = (toc_context e, toc_current_context_usage e, k)"
| "absorb_event (Capability_state tid key v) (ctx, u, k) = (ctx, u, js_set key v k)"
| "absorb_event e v = v"

fun silent_event :: "thread_event \<Rightarrow> bool" where
  "silent_event (Append_context e) = False"
| "silent_event (Overwrite_context e) = False"
| "silent_event (Capability_state tid key v) = False"
| "silent_event e = True"

interpretation tlog: replica absorb_event thread_view silent_event
proof
  fix e v
  assume "silent_event e"
  then show "absorb_event e v = v" by (cases e; cases v) auto
qed

lemma thread_view_simps [simp]:
  "thread_view (th_tick_update f s) = thread_view s"
  "thread_view (th_metrics_update f1 s) = thread_view s"
  "thread_view (th_pending_sandbox_update f2 s) = thread_view s"
  "thread_view (th_busy_update f3 s) = thread_view s"
  "thread_view (th_pre_send_ran_update f4 s) = thread_view s"
  "thread_view (th_state_update f5 s) = thread_view s"
  "thread_view (th_completion_update f6 s) = thread_view s"
  "thread_view (th_tools_update f7 s) = thread_view s"
  "thread_view (th_managed_names_update f8 s) = thread_view s"
  by (simp_all add: thread_view_def)

named_theorems sync_steps "steps that keep the replica in step"

lemma sync_case:
  "(x = None \<Longrightarrow> tlog.synced g) \<Longrightarrow> (\<And>y. x = Some y \<Longrightarrow> tlog.synced (h y)) \<Longrightarrow>
     tlog.synced (case x of None \<Rightarrow> g | Some y \<Rightarrow> h y)"
  "(\<And>a b. tlog.synced (k a b)) \<Longrightarrow> tlog.synced (case p of (a, b) \<Rightarrow> k a b)"
  "tlog.synced g1 \<Longrightarrow> tlog.synced g2 \<Longrightarrow> tlog.synced (if c then g1 else g2)"
  by (auto split: option.splits prod.splits)

lemmas sync_intro = tlog.synced_intro sync_case

lemma sync_tick [sync_steps]: "tlog.synced gtick"
  unfolding gtick_def by (intro sync_intro) simp_all

lemma sync_fresh [sync_steps]: "tlog.synced (fresh_event env)" "tlog.synced (aborted env)"
  unfolding fresh_event_def aborted_def by (intro sync_intro sync_steps)+

lemma sync_guards [sync_steps]: "tlog.synced throwIfContextBusy" "tlog.synced throwIfAlreadyComplete"
  unfolding throwIfContextBusy_def throwIfAlreadyComplete_def by (intro sync_intro)+

lemma sync_derive [sync_steps]: "tlog.synced deriveState"
  unfolding deriveState_def Let_def by (intro sync_intro) simp_all

text \<open>A yield that records the state it was made in is followed by the change it announces.\<close>

lemma synced_get: "(\<And>s. tlog.in_step (thread_view s) (trace_of (h s s)) \<and>
    thread_view (final_of (h s s)) = fold absorb_event (events_of (h s s)) (thread_view s)) \<Longrightarrow>
  tlog.synced (gbind gget h)"
  by (simp add: tlog.synced_def gbind_def gget_def split: prod.splits)

lemma sync_append [sync_steps]: "tlog.synced (appendToContext ctx out cu usage completion)"
proof -
  have "tlog.in_step (thread_view s) (trace_of (g s)) \<and>
      thread_view (final_of (g s)) = fold absorb_event (events_of (g s)) (thread_view s)"
    if "g = gthen (case usage of None \<Rightarrow> gret () | Some cu \<Rightarrow> gmodify (th_metrics_update (\<lambda>m. updateMetricsFromUsage m cu)))
       (gthen (gyield (append_event s0 ctx out u completion))
         (gmodify (\<lambda>s. s\<lparr>th_context := th_context s @ ctx, th_usage := u\<rparr>)))" for g s0 s u
    unfolding that
    by (cases usage) (simp_all add: gthen_def gbind_def gen_defs append_event_def thread_view_def)
  then show ?thesis unfolding appendToContext_def Let_def by (intro synced_get) blast
qed

lemma sync_overwrite [sync_steps]: "tlog.synced (overwriteContext i created ctx u usage)"
  unfolding overwriteContext_def
  by (intro synced_get) (simp add: gthen_def gbind_def gen_defs thread_view_def)

lemma sync_output [sync_steps]: "tlog.synced (handle_output out)"
proof (cases out)
  case (PO_capability_state k v)
  show ?thesis unfolding handle_output_def PO_capability_state
    by (intro synced_get) (simp add: gthen_def gbind_def gen_defs thread_view_def)
qed (auto simp: handle_output_def intro!: sync_intro sync_steps)

lemma sync_processors [sync_steps]: "tlog.synced (executeContextProcessors ps)"
  unfolding executeContextProcessors_def by (intro sync_intro sync_steps)

lemma sync_delta [sync_steps]: "tlog.synced (buildModelMessageDeltaEvent env s ck mapping usage i)"
  unfolding buildModelMessageDeltaEvent_def with_delta_info_def truthy_info_def
  by (intro sync_intro sync_steps)

lemma sync_stream [sync_steps]: "tlog.synced (stream_loop env req mapping i cks usage stamped)"
  by (induction cks arbitrary: usage stamped) (auto simp: Let_def intro!: sync_intro sync_steps)

lemma sync_enrich [sync_steps]: "tlog.synced (enrichAssistantMessage env m mapping resolve)"
  unfolding enrichAssistantMessage_def enrich_call_def Let_def by (intro sync_intro sync_steps)

lemma silent_done [simp]: "silent_event (done_event s st m)" "silent_event (generateErrorEvent s msg out)"
  "buildReplayEvent s c = Inr e \<Longrightarrow> silent_event e"
  by (auto simp: done_event_def generateErrorEvent_def buildReplayEvent_def bindE_Inr_iff)

lemma sync_lift: "(\<And>a. r = Inr a \<Longrightarrow> tlog.synced (h a)) \<Longrightarrow> tlog.synced (gbind (glift r) h)"
  by (cases r) (auto simp: tlog.synced_def gbind_def glift_def split: prod.splits dest!: spec)

lemma sync_finish [sync_steps]: "tlog.synced (finish_llm_step env m out usage e)"
  unfolding finish_llm_step_def Let_def
  by (intro sync_intro sync_steps sync_lift) simp_all

lemma sync_receive [sync_steps]: "tlog.synced (receive_message env mapping c i req stream)"
  unfolding receive_message_def Let_def by (intro sync_intro sync_steps)

lemma sync_llm [sync_steps]: "tlog.synced (stepLLMCall env tools mapping)"
  unfolding stepLLMCall_def Let_def by (intro sync_intro sync_steps) simp_all

lemma sync_built [sync_steps]:
  "tlog.synced (yield_built Mcp_initialize (buildMCPInitializeEvent env infos tid))"
  "tlog.synced (yield_built Auth_required (buildMCPAuthRequiredEvent env auths tid))"
  "tlog.synced (yield_sandbox env info)"
  unfolding yield_built_def buildMCPInitializeEvent_def buildMCPAuthRequiredEvent_def yield_sandbox_def
    buildSandboxCreatedEvent_def
  by (intro sync_intro sync_steps, simp)+

lemma sync_responses [sync_steps]: "tlog.synced (process_tool_responses ps env x results)"
  by (induction ps arbitrary: results) (auto intro!: sync_intro sync_steps)

lemma sync_settle [sync_steps]: "tlog.synced (settle_tool_step env s r)"
  unfolding settle_tool_step_def tool_response_event_of_def Let_def
  by (intro sync_intro sync_steps) simp_all

lemma sync_tool [sync_steps]: "tlog.synced (stepToolResponse env mapping)"
  unfolding stepToolResponse_def Let_def by (intro sync_intro sync_steps) simp_all

lemma sync_user [sync_steps]: "tlog.synced (stepUserInputRequired env source)"
  unfolding stepUserInputRequired_def required_event_def Let_def by (intro sync_intro sync_steps) simp_all

lemma sync_drain [sync_steps]: "tlog.synced drain_pending"
  unfolding drain_pending_def by (intro sync_intro) simp_all

lemma sync_turns [sync_steps]: "tlog.synced (llm_turn env tools mapping source)"
  "tlog.synced (tool_turn env mapping source)"
  unfolding llm_turn_def tool_turn_def Let_def by ((intro sync_intro sync_steps, simp_all)[1], intro sync_intro sync_steps)

lemma sync_body [sync_steps]: "tlog.synced (loop_body env tools mapping source)"
  unfolding loop_body_def by (intro sync_intro sync_steps, split agent_thread_state.split) (auto intro!: sync_intro sync_steps)

lemma sync_loop [sync_steps]: "tlog.synced (thread_loop env tools mapping source)"
  unfolding tlog.synced_def
proof
  fix s
  show "tlog.in_step (thread_view s) (trace_of (thread_loop env tools mapping source s)) \<and>
      thread_view (final_of (thread_loop env tools mapping source s)) =
        fold absorb_event (events_of (thread_loop env tools mapping source s)) (thread_view s)"
  proof (induction env tools mapping source s rule: thread_loop.induct)
    case (1 env tools mapping source s)
    obtain tr s1 r where b: "loop_body env tools mapping source s = (tr, s1, r)"
      by (cases "loop_body env tools mapping source s")
    have st: "tlog.in_step (thread_view s) tr" "fold absorb_event (map fst tr) (thread_view s) = thread_view s1"
      using sync_body[of env tools mapping source] b by (auto simp: tlog.synced_def dest: spec[of _ s])
    show ?case
    proof (cases "\<exists>source'. r = Inr (Continue, source')")
      case True
      then obtain source' where r: "r = Inr (Continue, source')" by blast
      obtain tr2 s2 r2 where t: "thread_loop env tools mapping source' s1 = (tr2, s2, r2)"
        by (cases "thread_loop env tools mapping source' s1")
      have "tlog.in_step (thread_view s1) tr2 \<and> thread_view s2 = fold absorb_event (map fst tr2) (thread_view s1)"
        using 1 b r t by fastforce
      then show ?thesis using b r t st by (subst (1 2 3) thread_loop.simps) (simp add: tlog.in_step_append)
    next
      case False
      then show ?thesis using b st
        by (subst (1 2 3) thread_loop.simps) (auto split: sum.splits prod.splits step_outcome.splits)
    qed
  qed
qed

lemma sync_init [sync_steps]: "tlog.synced (init env)"
  unfolding init_def initTools_def
  by (intro sync_intro sync_steps, split sum.split) (auto intro!: sync_intro)

lemma sync_execute_body [sync_steps]: "tlog.synced (execute_body env)"
  unfolding execute_body_def Let_def by (intro sync_intro sync_steps sync_lift) simp_all

lemma sync_execute: "tlog.synced (execute env)"
  unfolding execute_def by (intro sync_intro sync_steps) simp_all

lemma sync_send_context [sync_steps]: "tlog.synced (send_context env m)"
  by (cases "(env, m)" rule: send_context.cases) (auto intro!: sync_intro sync_steps)

lemma sync_send: "tlog.synced (send env ms)"
  unfolding send_def send_body_def append_if_any_def by (intro sync_intro sync_steps) simp_all

lemma sync_cancel: "tlog.synced (cancel reason)"
  unfolding cancel_def Let_def
  by (intro synced_get) (auto simp: gthen_def gbind_def gen_defs thread_view_def split: option.splits)

lemma sync_close: "tlog.synced (closeAllOpenToolCalls closures dflt)"
  unfolding closeAllOpenToolCalls_def Let_def by (intro sync_intro sync_steps)

end
