(* ===== verification/Agent_Thread_Runs.thy ===== *)
theory Agent_Thread_Runs
  imports Agent_Thread
begin

text \<open>
  What holds during a run of a thread. A locale \<open>step_observer\<close> is the contract of an invariant \<open>I\<close> of the
  fields and a condition \<open>Q\<close> of the events: the steps of a thread write the fields only in these ways and
  yield only plain events, changes of their own context and capability states. \<open>tool_observer\<close> adds the events that ask for a sub-agent,
  \<open>ending_observer\<close> those that end a thread, \<open>llm_observer\<close> the event that opens a model message;
  \<open>thread_observer\<close> has them all and covers \<open>send\<close> and \<open>execute\<close>.
\<close>

section \<open>Events that end a thread\<close>

definition addressed :: "agent_config \<Rightarrow> llm_tool_message option \<Rightarrow> bool" where
  "addressed c m =
     (case ac_parent c of
        None \<Rightarrow> m = None
      | Some p \<Rightarrow> (case m of None \<Rightarrow> False | Some tm \<Rightarrow> tm_tool_call_id tm = ap_tool_call_id p))"

definition proper_done :: "agent_config \<Rightarrow> thread_done_event \<Rightarrow> bool" where
  "proper_done c d =
     (de_thread_id d = ac_thread_id c \<and> de_title d = ac_title c \<and> de_parent d = ac_parent c \<and>
      addressed c (de_send_to_parent d) \<and>
      (ac_parent c = None \<longrightarrow> (\<forall>reason. de_status d \<noteq> Done_cancelled reason)))"

definition completion_addressed :: "agent_thread \<Rightarrow> bool" where
  "completion_addressed s =
     (case (ac_parent (th_config s), th_completion s) of
        (Some p, Some c) \<Rightarrow> tm_tool_call_id (send_to_parent c) = ap_tool_call_id p
      | _ \<Rightarrow> True)"

fun is_plain :: "thread_event \<Rightarrow> bool" where
  "is_plain (Thread_done d) = False"
| "is_plain (Capability_state tid k v) = False"
| "is_plain (Model_message m) = False"
| "is_plain (Create_sub_agent c) = False"
| "is_plain (Append_context a) = False"
| "is_plain (Overwrite_context a) = False"
| "is_plain e = True"

text \<open>The events that announce a change of the context of the thread.\<close>

fun writes_context :: "string \<Rightarrow> thread_event \<Rightarrow> bool" where
  "writes_context tid (Append_context a) = (tae_thread_id a = tid)"
| "writes_context tid (Overwrite_context a) = (toc_thread_id a = tid)"
| "writes_context tid e = False"

lemma proper_error: "\<exists>d. generateErrorEvent s msg out = Thread_done d \<and> proper_done (th_config s) d"
  by (auto simp: generateErrorEvent_def done_event_def proper_done_def addressed_def split: option.splits)

lemma proper_replay:
  "buildReplayEvent s c = Inr e \<Longrightarrow> ac_parent (th_config s) = Some p \<Longrightarrow>
     tm_tool_call_id (send_to_parent c) = ap_tool_call_id p \<Longrightarrow>
     \<exists>d. e = Thread_done d \<and> proper_done (th_config s) d"
  by (auto simp: buildReplayEvent_def bindE_Inr_iff done_event_def proper_done_def addressed_def)

lemma proper_root: "ac_parent (th_config s) = None \<Longrightarrow>
    \<exists>d. done_event s (Done_ok out) None = Thread_done d \<and> proper_done (th_config s) d"
  by (auto simp: done_event_def proper_done_def addressed_def)

lemma llm_completion_addressed:
  "llm_completion env (Some p) m out e = Some c \<Longrightarrow> tm_tool_call_id (send_to_parent c) = ap_tool_call_id p"
  by (auto simp: llm_completion_def Let_def split: option.splits if_splits)

lemma create_collected:
  "c \<in> set (er_create (fold (collect_call stringify tid) outs acc)) \<Longrightarrow>
     c \<in> set (er_create acc) \<or> csa_thread_id c = tid"
proof (induction outs arbitrary: acc)
  case (Cons out outs)
  have "c \<in> set (er_create (collect_call stringify tid out acc)) \<Longrightarrow> c \<in> set (er_create acc) \<or> csa_thread_id c = tid"
    by (auto simp: collect_call_def split: prod.splits call_tool_response.splits)
  then show ?case using Cons by auto
qed simp

lemma created_for:
  "c \<in> set (er_create (executeToolCalls stringify jp call completed m mapping tid ds)) \<Longrightarrow> csa_thread_id c = tid"
  by (auto simp: executeToolCalls_def empty_result_def dest!: create_collected split: option.splits)

section \<open>Observers of a run\<close>

locale step_observer =
  fixes I :: "agent_thread \<Rightarrow> bool" and Q :: "thread_event \<Rightarrow> bool"
  assumes tick: "I s \<Longrightarrow> I (th_tick_update f s)"
    and metrics: "I s \<Longrightarrow> I (th_metrics_update g s)"
    and pending: "I s \<Longrightarrow> I (th_pending_sandbox_update h s)"
    and pre_send: "I s \<Longrightarrow> I (th_pre_send_ran_update b s)"
    and state: "I s \<Longrightarrow> I (th_state_update st s)"
    and fields: "I s \<Longrightarrow> I (s\<lparr>th_context := ctx, th_usage := u\<rparr>)"
    and tools: "I s \<Longrightarrow> I (s\<lparr>th_tools := ts, th_managed_names := ns\<rparr>)"
    and capability: "I s \<Longrightarrow> k \<in> set (ac_state_keys (th_config s)) \<Longrightarrow>
          I (th_capability_state_update (js_set k v) s)"
    and capability_event: "I s \<Longrightarrow> k \<in> set (ac_state_keys (th_config s)) \<Longrightarrow>
          Q (Capability_state (ac_thread_id (th_config s)) k v)"
    and context_event: "I s \<Longrightarrow> writes_context (ac_thread_id (th_config s)) e \<Longrightarrow> Q e"
    and same_keys: "I s \<Longrightarrow> I t \<Longrightarrow> ac_state_keys (th_config t) = ac_state_keys (th_config s)"
    and plain: "is_plain e \<Longrightarrow> Q e"
begin

lemmas kept_intro = maintains_get maintains_lift maintains_intro maintains_bind

lemma kept_tick: "maintains I Q gtick"
  unfolding gtick_def by (intro kept_intro tick)

lemma kept_fresh: "maintains I Q (fresh_event env)"
  unfolding fresh_event_def by (intro kept_intro kept_tick)

lemma kept_aborted: "maintains I Q (aborted env)"
  unfolding aborted_def by (intro kept_intro kept_tick)

lemma kept_busy: "maintains I Q throwIfContextBusy"
  unfolding throwIfContextBusy_def by (intro kept_intro)

lemma kept_complete: "maintains I Q throwIfAlreadyComplete"
  unfolding throwIfAlreadyComplete_def by (intro kept_intro)

lemma kept_derive: "maintains I Q deriveState"
  unfolding deriveState_def Let_def by (intro kept_intro state)

lemma kept_append: "maintains I Q (appendToContext ctx out cu usage completion)"
  unfolding appendToContext_def Let_def
  by (rule maintains_get) (intro kept_intro metrics fields context_event, auto simp: append_event_def)

lemma kept_overwrite: "maintains I Q (overwriteContext i created ctx u usage)"
  unfolding overwriteContext_def by (rule maintains_get) (intro kept_intro metrics fields context_event, auto)

lemma kept_capability:
  assumes "I s" and "k \<in> set (ac_state_keys (th_config s))" and "tid = ac_thread_id (th_config s)"
  shows "maintains I Q (gthen (gyield (Capability_state tid k v)) (gmodify (th_capability_state_update (js_set k v))))"
proof (intro maintains_then maintains_yield maintains_modify)
  show "Q (Capability_state tid k v)" unfolding assms(3) by (rule capability_event[OF assms(1,2)])
next
  fix t
  assume "I t"
  moreover have "k \<in> set (ac_state_keys (th_config t))" using assms same_keys[of s t] \<open>I t\<close> by simp
  ultimately show "I (th_capability_state_update (js_set k v) t)" by (rule capability)
qed

lemma kept_output: "maintains I Q (handle_output out)"
  unfolding handle_output_def
proof (rule maintains_get)
  fix s
  assume s: "I s"
  show "maintains I Q (case out of
         PO_append ctx evs u \<Rightarrow>
           appendToContext ctx evs (Some (case u of None \<Rightarrow> th_usage s | Some u \<Rightarrow> u)) None None
       | PO_overwrite i created ctx u usage \<Rightarrow> overwriteContext i created ctx u usage
       | PO_compaction_started v \<Rightarrow> gyield (Compaction_started (ac_thread_id (th_config s)) v)
       | PO_compaction_finished v \<Rightarrow> gyield (Compaction_finished (ac_thread_id (th_config s)) v)
       | PO_passthrough v \<Rightarrow> gyield (Passthrough v)
       | PO_capability_state k v \<Rightarrow>
           if k \<notin> set (ac_state_keys (th_config s))
           then gthrow (Thrown (Harness_class ''capability_state_error'')
             (''CAPABILITY_STATE key '' @ CHR 0x27 # k @ CHR 0x27 #
              '' is not declared by any capability on thread '' @ CHR 0x27 # ac_thread_id (th_config s) @ [CHR 0x27])
             None)
           else gthen (gyield (Capability_state (ac_thread_id (th_config s)) k v))
                  (gmodify (th_capability_state_update (js_set k v))))"
    using kept_append kept_overwrite kept_capability[OF s _ refl]
    by (cases out) (auto simp: maintains_basic maintains_yield plain)
qed

lemma kept_processors: "maintains I Q (executeContextProcessors ps)"
  unfolding executeContextProcessors_def by (intro kept_intro kept_tick kept_output)

lemma kept_delta: "maintains I Q (buildModelMessageDeltaEvent env s ck mapping usage i)"
  unfolding buildModelMessageDeltaEvent_def with_delta_info_def truthy_info_def
  by (intro kept_intro kept_tick)

lemma kept_stream: "maintains I Q (stream_loop env req mapping i cks usage stamped)"
  by (induction cks arbitrary: usage stamped)
    (auto simp: Let_def intro!: kept_intro kept_tick kept_delta plain)

lemma kept_enrich: "maintains I Q (enrichAssistantMessage env m mapping resolve)"
  unfolding enrichAssistantMessage_def enrich_call_def Let_def by (intro kept_intro kept_tick)

lemma kept_built: "(\<And>e. is_plain (C e)) \<Longrightarrow> maintains I Q g \<Longrightarrow> maintains I Q (yield_built C g)"
  unfolding yield_built_def by (intro maintains_bind maintains_yield plain)

lemma kept_init_event: "maintains I Q (yield_built Mcp_initialize (buildMCPInitializeEvent env infos tid))"
  by (rule kept_built) (auto simp: buildMCPInitializeEvent_def intro!: kept_intro kept_fresh)

lemma kept_auth_event: "maintains I Q (yield_built Auth_required (buildMCPAuthRequiredEvent env auths tid))"
  by (rule kept_built) (auto simp: buildMCPAuthRequiredEvent_def intro!: kept_intro kept_fresh)

lemma kept_sandbox: "maintains I Q (yield_sandbox env info)"
  unfolding yield_sandbox_def
  by (intro kept_intro kept_built) (auto simp: buildSandboxCreatedEvent_def intro!: kept_intro kept_fresh)

lemma kept_responses: "maintains I Q (process_tool_responses ps env x results)"
  by (induction ps arbitrary: results) (auto intro!: kept_intro kept_tick kept_sandbox plain)

lemma kept_user: "maintains I Q (stepUserInputRequired env source)"
  unfolding stepUserInputRequired_def required_event_def Let_def
  by (intro kept_intro kept_fresh plain) simp_all

lemma kept_drain: "maintains I Q drain_pending"
  unfolding drain_pending_def by (intro kept_intro pending plain) simp_all

lemma kept_state_case: "maintains I Q a \<Longrightarrow> maintains I Q b \<Longrightarrow> maintains I Q c \<Longrightarrow>
    maintains I Q (case n of Llm_call_required \<Rightarrow> a | Tool_response_required_state \<Rightarrow> b | User_input_required \<Rightarrow> c)"
  by (cases n) auto

lemma kept_init: "maintains I Q (init env)"
  unfolding init_def initTools_def
  by (intro kept_intro kept_tick, split sum.split) (auto intro!: kept_intro tools)

lemma kept_send_context: "maintains I Q (send_context env m)"
  by (cases "(env, m)" rule: send_context.cases) (auto intro!: kept_intro kept_tick kept_fresh pending)

lemma kept_send_body: "maintains I Q (send_body env ms)"
  unfolding send_body_def append_if_any_def
  by (intro kept_intro kept_processors kept_append kept_send_context pre_send)

lemma kept_send:
  assumes "\<And>s b. I s \<Longrightarrow> I (th_busy_update b s)"
  shows "maintains I Q (send env ms)"
  unfolding send_def by (intro kept_intro kept_busy kept_complete kept_send_body assms)

end

locale tool_observer = step_observer +
  assumes creates: "I s \<Longrightarrow> csa_thread_id c = ac_thread_id (th_config s) \<Longrightarrow> Q (Create_sub_agent c)"
begin

lemma kept_settle:
  assumes "I s" and "\<And>c. c \<in> set (er_create r) \<Longrightarrow> csa_thread_id c = ac_thread_id (th_config s)"
  shows "maintains I Q (settle_tool_step env s r)"
proof -
  have c: "maintains I Q (gfor (er_create r) (\<lambda>c. gyield (Create_sub_agent c)))"
    by (intro maintains_for_in maintains_yield creates[OF assms(1)] assms(2))
  show ?thesis unfolding settle_tool_step_def tool_response_event_of_def Let_def
    by ((rule c kept_tick kept_init_event kept_auth_event kept_sandbox kept_responses kept_append
        kept_processors kept_intro plain | simp)+)
qed

lemma kept_tool: "maintains I Q (stepToolResponse env mapping)"
  unfolding stepToolResponse_def Let_def
  by (intro maintains_get maintains_case)
    (auto intro!: kept_intro kept_tick kept_settle metrics dest: created_for)

lemma kept_tool_turn: "maintains I Q (tool_turn env mapping source)"
  unfolding tool_turn_def by (intro kept_intro kept_aborted kept_tool)

end

locale ending_observer = step_observer +
  assumes done_ev: "I s \<Longrightarrow> proper_done (th_config s) d \<Longrightarrow> Q (Thread_done d)"
begin

lemma Q_error: "I s \<Longrightarrow> Q (generateErrorEvent s msg out)"
  using proper_error[of s msg out] done_ev by auto

lemma kept_finish: "maintains I Q (finish_llm_step env m out usage e)"
  unfolding finish_llm_step_def Let_def
proof (intro kept_intro kept_append Q_error)
  fix s :: agent_thread
  assume "I s"
  then show "I s" .
next
  fix s c ev
  assume "I s" "ac_parent (th_config s) \<noteq> None"
    and "llm_completion env (ac_parent (th_config s)) m out e = Some c" "buildReplayEvent s c = Inr ev"
  then show "Q ev" using proper_replay[of s c ev] llm_completion_addressed done_ev[of s] by (metis not_Some_eq)
next
  fix s
  assume "I s" "\<not> ac_parent (th_config s) \<noteq> None"
  then show "Q (done_event s (Done_ok out) None)" using proper_root[of s] done_ev[of s] by metis
qed

lemma kept_receive: "maintains I Q (receive_message env mapping c i req stream)"
  unfolding receive_message_def Let_def
  by (intro kept_intro kept_tick kept_stream kept_aborted kept_enrich kept_finish)

end

locale llm_observer = ending_observer +
  assumes opens: "Q (Model_message m)"
begin

lemma kept_llm: "maintains I Q (stepLLMCall env tools mapping)"
  unfolding stepLLMCall_def Let_def
  by (intro kept_intro kept_tick kept_aborted kept_processors kept_receive opens)

lemma kept_llm_turn: "maintains I Q (llm_turn env tools mapping source)"
  unfolding llm_turn_def Let_def by (intro kept_intro kept_aborted kept_llm metrics Q_error)

end

locale thread_observer = llm_observer + tool_observer +
  assumes replay: "I s \<Longrightarrow> th_completion s = Some c \<Longrightarrow> buildReplayEvent s c = Inr e \<Longrightarrow> Q e"
begin

lemma kept_body: "maintains I Q (loop_body env tools mapping source)"
  unfolding loop_body_def
  by (intro kept_intro kept_drain kept_derive kept_state_case kept_llm_turn kept_tool_turn kept_user)

lemma kept_loop: "maintains I Q (thread_loop env tools mapping source)"
  unfolding maintains_def
proof (intro allI impI)
  fix s
  show "I s \<Longrightarrow> I (final_of (thread_loop env tools mapping source s)) \<and>
      (\<forall>p \<in> set (trace_of (thread_loop env tools mapping source s)). I (snd p) \<and> Q (fst p))"
  proof (induction env tools mapping source s rule: thread_loop.induct)
    case (1 env tools mapping source s)
    obtain tr s1 r where b: "loop_body env tools mapping source s = (tr, s1, r)"
      by (cases "loop_body env tools mapping source s")
    have st: "I s1" "\<forall>p \<in> set tr. I (snd p) \<and> Q (fst p)"
      using kept_body[of env tools mapping source] b 1(2) by (auto simp: maintains_def dest: spec[of _ s])
    show ?case
    proof (cases "\<exists>source'. r = Inr (Continue, source')")
      case True
      then obtain source' where r: "r = Inr (Continue, source')" by blast
      obtain tr2 s2 r2 where t: "thread_loop env tools mapping source' s1 = (tr2, s2, r2)"
        by (cases "thread_loop env tools mapping source' s1")
      have "I s2 \<and> (\<forall>p \<in> set tr2. I (snd p) \<and> Q (fst p))" using 1(1) b r t st(1) by fastforce
      then show ?thesis using b r t st by (subst (1 2) thread_loop.simps) auto
    next
      case False
      then show ?thesis using b st
        by (subst (1 2) thread_loop.simps) (auto split: sum.splits prod.splits step_outcome.splits)
    qed
  qed
qed

lemma kept_execute_body: "maintains I Q (execute_body env)"
  unfolding execute_body_def Let_def
  by (intro kept_intro kept_processors kept_init kept_init_event kept_auth_event kept_loop pre_send replay)

text \<open>The two entry points, where the busy flag may be written as well.\<close>

lemma kept_execute:
  assumes "\<And>s b. I s \<Longrightarrow> I (th_busy_update b s)"
  shows "maintains I Q (execute env)"
proof -
  have "I (s\<lparr>th_busy := True, th_state := None\<rparr>)" if "I s" for s
    using assms state that by (metis (no_types, lifting))
  then show ?thesis unfolding execute_def
    by (intro kept_intro kept_busy kept_execute_body Q_error assms)
qed

end

end
