(* ===== verification/Agent_Thread_Demo.thy ===== *)
theory Agent_Thread_Demo
  imports Agent_Thread Conversation_Props
begin

text \<open>
  Concrete threads on which the witnesses of the agent theories evaluate: a world whose model always answers
  the same final message, without tools or processors, and a root and a child thread in it.
\<close>

definition demo_output :: raw_assistant_message where
  "demo_output =
     \<lparr>am_content = Some (AText ''hi''), am_name = None, am_refusal = None, am_tool_calls = None,
      am_thinking_blocks = None, am_reasoning_content = None, am_source = None\<rparr>"

definition demo_stream :: llm_stream where
  "demo_stream =
     \<lparr>ls_chunks = [],
      ls_end = Inr \<lparr>lf_output = demo_output, lf_finish_reason = Some Finish_stop, lf_usage = getEmptyUsage\<rparr>\<rparr>"

definition demo_env :: agent_env where
  "demo_env =
     \<lparr>env_now = (\<lambda>n. ''now''), env_id = (\<lambda>n. ''id''), env_aborted = (\<lambda>n. False),
      env_llm = (\<lambda>n req. demo_stream), env_tool_sets = (\<lambda>n. ([], [])),
      env_tool_info = (\<lambda>n tv name args resolve. Inr (demo_tool_info None)),
      env_call = (\<lambda>n k tv ps d. Inl (Other_error ''none'')), env_completed = (\<lambda>n k. ''now''),
      env_user_input = (\<lambda>n c. Inr (UText ''hello'', None)),
      env_pre_send = [], env_pre_llm = [], env_post_tool_call = [], env_tool_response = [], env_ephemeral = [],
      env_json_parse = (\<lambda>t. Inr (JObj [])), env_stringify = (\<lambda>v. ''{}''),
      env_part_text = (\<lambda>p. ''''), env_tool_text = (\<lambda>t. ''''),
      env_number_text = (\<lambda>q. ''0''), env_model_name_error = ''empty name''\<rparr>"

definition demo_agent_config :: "agent_parent option \<Rightarrow> agent_config" where
  "demo_agent_config parent =
     \<lparr>ac_thread_id = ''t'', ac_title = ''demo'', ac_parent = parent, ac_agent_info = None,
      ac_instruction = None, ac_user_instruction = None, ac_messages = [], ac_model_name = ''m'',
      ac_model_params = None, ac_response_format = None, ac_iteration_limit = None, ac_skills_tokens = 0,
      ac_state_keys = []\<rparr>"

definition demo_thread :: "agent_parent option \<Rightarrow> context_message list \<Rightarrow> agent_thread" where
  "demo_thread parent ctx =
     \<lparr>th_config = demo_agent_config parent, th_context = ctx, th_usage = getEmptyCurrentContextUsage,
      th_metrics = createEmptyAgentThreadMetrics, th_tools = None, th_managed_names = [],
      th_pending_sandbox = [], th_busy = False, th_pre_send_ran = False, th_state = None,
      th_completion = None, th_capability_state = [], th_tick = 0\<rparr>"

definition demo_child :: agent_thread where
  "demo_child = demo_thread (Some \<lparr>ap_thread_id = ''p'', ap_tool_call_id = ''call-1''\<rparr>) [User_msg (UText ''go'')]"

text \<open>A context with an open call that waits for its approval.\<close>

definition demo_pending_call :: internal_tool_call where
  "demo_pending_call =
     (demo_call ''a'' None)\<lparr>tc_tool_info := (demo_tool_info None)\<lparr>ti_is_approval_required := Some True\<rparr>\<rparr>"

definition demo_pending :: "context_message list" where
  "demo_pending = [Assistant_msg (demo_assistant\<lparr>am_tool_calls := Some [demo_pending_call]\<rparr>)]"

definition demo_approval :: send_input where
  "demo_approval =
     Send_approval \<lparr>uta_thread_id = ''t'', uta_tool_call_id = ''a'', uta_approval = Approval_allow\<rparr>"

end
