(* ===== verification/Agent_Thread_Props.thy ===== *)
theory Agent_Thread_Props
  imports Agent_Thread_Sync Agent_Thread_Runs Agent_Thread_Demo
begin

text \<open>
  The properties of an agent thread: its events rebuild its state, one run ends it at most once and with an
  event addressed to its parent, a run is exclusive, returns, and asks the model no more often than its limit
  allows, capability state belongs to the declared keys, and what a send batch must contain and settles.
\<close>

section \<open>The replica\<close>

text \<open>The views at the yields of a run are the replays of the events before them.\<close>

definition state_in_sync :: "agent_thread \<Rightarrow> (thread_event \<times> agent_thread) list \<times> agent_thread \<times> 'r \<Rightarrow> bool" where
  "state_in_sync s out =
     (map (\<lambda>p. thread_view (snd p)) (trace_of out) =
        map (\<lambda>n. fold absorb_event (take n (events_of out)) (thread_view s)) [0..<length (trace_of out)] \<and>
      thread_view (final_of out) = fold absorb_event (events_of out) (thread_view s))"

lemma in_step_views:
  "tlog.in_step v tr \<Longrightarrow>
     map (\<lambda>p. thread_view (snd p)) tr = map (\<lambda>n. fold absorb_event (take n (map fst tr)) v) [0..<length tr]"
proof (induction v tr rule: tlog.in_step.induct)
  case (2 v e s tr)
  then show ?case by (simp add: upt_conv_Cons map_Suc_upt[symmetric] del: upt_Suc)
qed simp

lemma replica_in_sync: "tlog.synced g \<Longrightarrow> state_in_sync s (g s)"
  unfolding state_in_sync_def tlog.synced_def using in_step_views by blast

text \<open>
  C9. The events of a thread determine its state: at every yield of \<open>send\<close>, \<open>execute\<close>, \<open>cancel\<close> and
  \<open>closeAllOpenToolCalls\<close>, and at their end, context, usage and capability state are what a consumer gets
  that replays the events taken so far. A consumer that stops early leaves the thread no further than its log.
\<close>

theorem thread_state_in_sync:
  "state_in_sync s (execute env s) \<and> state_in_sync s (send env ms s) \<and> state_in_sync s (cancel reason s) \<and>
   state_in_sync s (closeAllOpenToolCalls closures dflt s)"
  using replica_in_sync[OF sync_execute] replica_in_sync[OF sync_send] replica_in_sync[OF sync_cancel]
    replica_in_sync[OF sync_close] by blast

section \<open>Observers\<close>

interpretation busy_run: thread_observer "\<lambda>s. th_busy s \<and> th_config s = c" "\<lambda>e. True" for c
  by unfold_locales simp_all

fun declared_event :: "agent_config \<Rightarrow> thread_event \<Rightarrow> bool" where
  "declared_event c (Capability_state tid k v) = (k \<in> set (ac_state_keys c))"
| "declared_event c e = True"

lemma declared_plain [simp]: "is_plain e \<Longrightarrow> declared_event c e" "writes_context tid e \<Longrightarrow> declared_event c e"
  by (cases e; simp)+

lemma declared_replay: "buildReplayEvent s k = Inr e \<Longrightarrow> declared_event c e"
  by (auto simp: buildReplayEvent_def bindE_Inr_iff done_event_def)

interpretation capability_run: thread_observer
  "\<lambda>s. th_config s = c \<and> set (js_keys (th_capability_state s)) \<subseteq> set (ac_state_keys c)" "declared_event c" for c
  by unfold_locales (auto simp: declared_replay js_keys_set)

fun proper_event :: "agent_config \<Rightarrow> thread_event \<Rightarrow> bool" where
  "proper_event c (Thread_done d) = proper_done c d"
| "proper_event c e = True"

lemma proper_plain [simp]: "is_plain e \<Longrightarrow> proper_event c e" "writes_context tid e \<Longrightarrow> proper_event c e"
  by (cases e; simp)+

lemma proper_replayed:
  assumes "completion_addressed s" "th_completion s = Some k" "buildReplayEvent s k = Inr e"
  shows "proper_event (th_config s) e"
proof -
  obtain p where p: "ac_parent (th_config s) = Some p" using assms(3) by (auto simp: buildReplayEvent_def bindE_Inr_iff)
  with assms(1,2) have "tm_tool_call_id (send_to_parent k) = ap_tool_call_id p" by (simp add: completion_addressed_def)
  from proper_replay[OF assms(3) p this] show ?thesis by auto
qed

interpretation done_run: thread_observer
  "\<lambda>s. th_config s = c \<and> completion_addressed s" "proper_event c" for c
  by unfold_locales (auto simp: completion_addressed_def[of "_\<lparr>th_context := _\<rparr>"] completion_addressed_def
      intro: proper_replayed[unfolded completion_addressed_def] split: option.splits)

fun is_done :: "thread_event \<Rightarrow> bool" where
  "is_done (Thread_done d) = True"
| "is_done e = False"

fun is_request :: "thread_event \<Rightarrow> bool" where
  "is_request (Model_message m) = True"
| "is_request e = False"

lemma plain_not [simp]: "is_plain e \<Longrightarrow> \<not> is_done e" "is_plain e \<Longrightarrow> \<not> is_request e"
    "writes_context tid e \<Longrightarrow> \<not> is_done e" "writes_context tid e \<Longrightarrow> \<not> is_request e"
  by (cases e; simp)+

interpretation quiet_step: tool_observer "\<lambda>s. th_config s = c" "\<lambda>e. \<not> is_done e" for c
  by unfold_locales simp_all

interpretation answering_step: ending_observer "\<lambda>s. th_config s = c" "\<lambda>e. \<not> is_request e" for c
  by unfold_locales simp_all

interpretation answering_tool: tool_observer "\<lambda>s. th_config s = c" "\<lambda>e. \<not> is_request e" for c
  by unfold_locales simp_all

section \<open>A run ends a thread at most once\<close>

definition quiet :: "('s, thread_event, 'x, 'a) gen \<Rightarrow> bool" where
  "quiet g = (\<forall>s. \<forall>e \<in> set (events_of (g s)). \<not> is_done e)"

text \<open>The only event that ends the thread is the last one, and then the result satisfies \<open>S\<close>.\<close>

definition ends :: "('x + 'a \<Rightarrow> bool) \<Rightarrow> ('s, thread_event, 'x, 'a) gen \<Rightarrow> bool" where
  "ends S g =
     (\<forall>s. (\<forall>e \<in> set (events_of (g s)). \<not> is_done e) \<or>
        (\<exists>es e. events_of (g s) = es @ [e] \<and> (\<forall>e \<in> set es. \<not> is_done e) \<and> S (result_of (g s))))"

lemma quiet_maintains: "(\<And>c. maintains (\<lambda>s. th_config s = c) (\<lambda>e. \<not> is_done e) g) \<Longrightarrow> quiet g"
  by (auto simp: quiet_def maintains_def)

lemmas quiet_steps = quiet_step.kept_tick quiet_step.kept_aborted quiet_step.kept_processors
  quiet_step.kept_stream quiet_step.kept_enrich quiet_step.kept_append quiet_step.kept_drain
  quiet_step.kept_derive quiet_step.kept_tool_turn quiet_step.kept_user quiet_step.kept_init
  quiet_step.kept_init_event quiet_step.kept_auth_event

lemma quiet_basic: "quiet (gret a)" "quiet (gthrow x)" "quiet (glift r)" "quiet gget" "quiet (gmodify f)"
  by (simp_all add: quiet_def gen_defs)

lemma ends_quiet: "quiet g \<Longrightarrow> ends S g"
  by (auto simp: quiet_def ends_def)

lemma ends_bind:
  assumes "quiet g" and "\<And>a. ends S (h a)"
  shows "ends S (gbind g h)"
  unfolding ends_def
proof
  fix s
  have g: "\<forall>e \<in> set (events_of (g s)). \<not> is_done e" using assms(1) by (simp add: quiet_def)
  show "(\<forall>e \<in> set (events_of (gbind g h s)). \<not> is_done e) \<or>
      (\<exists>es e. events_of (gbind g h s) = es @ [e] \<and> (\<forall>e \<in> set es. \<not> is_done e) \<and> S (result_of (gbind g h s)))"
  proof (cases "result_of (g s)")
    case (Inl x)
    then show ?thesis using g by (simp add: gbind_run)
  next
    case (Inr a)
    let ?t = "final_of (g s)"
    have "(\<forall>e \<in> set (events_of (h a ?t)). \<not> is_done e) \<or>
        (\<exists>es e. events_of (h a ?t) = es @ [e] \<and> (\<forall>e \<in> set es. \<not> is_done e) \<and> S (result_of (h a ?t)))"
      using assms(2)[of a] by (auto simp: ends_def)
    then show ?thesis
    proof
      assume "\<exists>es e. events_of (h a ?t) = es @ [e] \<and> (\<forall>e \<in> set es. \<not> is_done e) \<and> S (result_of (h a ?t))"
      then obtain es e where "events_of (h a ?t) = es @ [e]" "\<forall>e \<in> set es. \<not> is_done e" "S (result_of (h a ?t))"
        by blast
      then have "events_of (gbind g h s) = (events_of (g s) @ es) @ [e]"
        "\<forall>e \<in> set (events_of (g s) @ es). \<not> is_done e" "S (result_of (gbind g h s))"
        using g Inr by (auto simp: gbind_run)
      then show ?thesis by blast
    qed (use g Inr in \<open>auto simp: gbind_run\<close>)
  qed
qed

lemma ends_then: "quiet g \<Longrightarrow> ends S h \<Longrightarrow> ends S (gthen g h)"
  by (simp add: gthen_def ends_bind)

lemma ends_yield: "S (Inr a) \<Longrightarrow> ends S (gthen (gyield e) (gret a))"
  by (auto simp: ends_def gthen_def gbind_def gen_defs)

lemma ends_last: "S (Inr ()) \<Longrightarrow> ends S (gyield e)"
  by (auto simp: ends_def gen_defs)

lemma ends_map: "ends S g \<Longrightarrow> (\<And>r. S r \<Longrightarrow> \<exists>a. r = Inr a \<and> S' (Inr (k a))) \<Longrightarrow> ends S' (gbind g (\<lambda>a. gret (k a)))"
  unfolding ends_def gbind_run gret_def by (fastforce split: sum.splits)

lemma ends_case:
  "(x = None \<Longrightarrow> ends S g) \<Longrightarrow> (\<And>y. x = Some y \<Longrightarrow> ends S (h y)) \<Longrightarrow> ends S (case x of None \<Rightarrow> g | Some y \<Rightarrow> h y)"
  "(c \<Longrightarrow> ends S g1) \<Longrightarrow> (\<not> c \<Longrightarrow> ends S g2) \<Longrightarrow> ends S (if c then g1 else g2)"
  "(\<And>a b. ends S (k a b)) \<Longrightarrow> ends S (case p of (a, b) \<Rightarrow> k a b)"
  by (auto split: option.splits prod.splits)

lemmas ends_intro = ends_case ends_yield ends_last ends_then ends_bind

lemma ends_finish: "ends (\<lambda>r. r = Inr Exit) (finish_llm_step env m out usage e)"
  unfolding finish_llm_step_def Let_def
  by (intro ends_intro quiet_basic quiet_maintains quiet_steps ends_quiet refl)

lemma ends_receive: "ends (\<lambda>r. \<exists>i. r = Inr (Exit, i)) (receive_message env mapping c i req stream)"
  unfolding receive_message_def Let_def
  by (intro ends_case ends_map[OF ends_finish] ends_bind quiet_basic quiet_maintains quiet_steps ends_quiet) auto

lemma ends_llm: "ends (\<lambda>r. \<exists>i. r = Inr (Exit, i)) (stepLLMCall env tools mapping)"
  unfolding stepLLMCall_def Let_def
  by (intro ends_case ends_receive ends_then ends_bind quiet_basic quiet_maintains quiet_steps maintains_yield ends_quiet)
      simp_all

lemma ends_llm_turn: "ends (\<lambda>r. \<exists>i. r = Inr (Exit, i)) (llm_turn env tools mapping source)"
  unfolding llm_turn_def Let_def
  by (intro ends_case ends_yield ends_llm ends_then ends_bind quiet_basic quiet_maintains quiet_steps ends_quiet) auto

lemma quiet_user_turn: "quiet (gbind (stepUserInputRequired env source) (\<lambda>outcome. gret (outcome, source)))"
  by (rule quiet_maintains) (intro maintains_intro maintains_bind quiet_steps)

lemma ends_body: "ends (\<lambda>r. \<exists>i. r = Inr (Exit, i)) (loop_body env tools mapping source)"
proof -
  have "ends (\<lambda>r. \<exists>i. r = Inr (Exit, i)) (case n of
         Llm_call_required \<Rightarrow> llm_turn env tools mapping source
       | Tool_response_required_state \<Rightarrow> tool_turn env mapping source
       | User_input_required \<Rightarrow> gbind (stepUserInputRequired env source) (\<lambda>outcome. gret (outcome, source)))" for n
    using ends_llm_turn ends_quiet[OF quiet_user_turn] ends_quiet[OF quiet_maintains[OF quiet_step.kept_tool_turn]]
    by (cases n) auto
  then show ?thesis unfolding loop_body_def
    by (intro ends_then ends_bind quiet_maintains quiet_steps)
qed

lemma ends_loop: "ends (\<lambda>r. r = Inr ()) (thread_loop env tools mapping source)"
  unfolding ends_def
proof
  fix s
  show "(\<forall>e \<in> set (events_of (thread_loop env tools mapping source s)). \<not> is_done e) \<or>
      (\<exists>es e. events_of (thread_loop env tools mapping source s) = es @ [e] \<and> (\<forall>e \<in> set es. \<not> is_done e) \<and>
        result_of (thread_loop env tools mapping source s) = Inr ())"
  proof (induction env tools mapping source s rule: thread_loop.induct)
    case (1 env tools mapping source s)
    obtain tr s1 r where b: "loop_body env tools mapping source s = (tr, s1, r)"
      by (cases "loop_body env tools mapping source s")
    have e: "(\<forall>e \<in> set (map fst tr). \<not> is_done e) \<or>
        (\<exists>es e i. map fst tr = es @ [e] \<and> (\<forall>e \<in> set es. \<not> is_done e) \<and> r = Inr (Exit, i))"
      using ends_body[of env tools mapping source, unfolded ends_def, rule_format, of s] b by auto
    show ?case
    proof (cases "\<exists>source'. r = Inr (Continue, source')")
      case True
      then obtain source' where r: "r = Inr (Continue, source')" by blast
      obtain tr2 s2 r2 where t: "thread_loop env tools mapping source' s1 = (tr2, s2, r2)"
        by (cases "thread_loop env tools mapping source' s1")
      have q: "\<forall>e \<in> set (map fst tr). \<not> is_done e" using e r by auto
      have "(\<forall>e \<in> set (map fst tr2). \<not> is_done e) \<or>
          (\<exists>es e. map fst tr2 = es @ [e] \<and> (\<forall>e \<in> set es. \<not> is_done e) \<and> r2 = Inr ())"
        using 1 b r t by fastforce
      then show ?thesis
      proof
        assume "\<exists>es e. map fst tr2 = es @ [e] \<and> (\<forall>e \<in> set es. \<not> is_done e) \<and> r2 = Inr ()"
        then obtain es e where "map fst tr2 = es @ [e]" "\<forall>e \<in> set es. \<not> is_done e" "r2 = Inr ()" by blast
        then have "map fst (tr @ tr2) = (map fst tr @ es) @ [e] \<and> (\<forall>e \<in> set (map fst tr @ es). \<not> is_done e)"
          using q by auto
        then have "\<exists>es e. map fst (tr @ tr2) = es @ [e] \<and> (\<forall>e \<in> set es. \<not> is_done e)" by blast
        moreover have "thread_loop env tools mapping source s = (tr @ tr2, s2, r2)"
          using b r t by (subst thread_loop.simps) simp
        ultimately show ?thesis using \<open>r2 = Inr ()\<close> by simp
      next
        assume "\<forall>e \<in> set (map fst tr2). \<not> is_done e"
        moreover have "thread_loop env tools mapping source s = (tr @ tr2, s2, r2)"
          using b r t by (subst thread_loop.simps) simp
        ultimately show ?thesis using q by auto
      qed
    next
      case False
      then have "thread_loop env tools mapping source s =
          (tr, s1, case r of Inl x \<Rightarrow> Inl x | Inr p \<Rightarrow> Inr ())"
        using b by (subst thread_loop.simps) (auto split: sum.splits prod.splits step_outcome.splits)
      then show ?thesis using e by auto
    qed
  qed
qed

lemma ends_execute_body: "ends (\<lambda>r. r = Inr ()) (execute_body env)"
  unfolding execute_body_def Let_def
  by (intro ends_case ends_last ends_loop ends_then ends_bind quiet_basic quiet_maintains quiet_steps refl)
    (auto intro!: ends_quiet quiet_maintains quiet_steps maintains_basic)

lemma events_then: "result_of (g s) = Inr () \<Longrightarrow> events_of (gthen g h s) = events_of (g s) @ events_of (h (final_of (g s)))"
  by (simp add: gthen_def gbind_run)

lemma execute_run:
  "execute env s =
     (if th_busy s
      then ([], s, Inl (plain_error (''context is busy for thread '' @ ac_thread_id (th_config s))))
      else gfinally
        (gcatch (execute_body env)
           (\<lambda>e. gbind gget (\<lambda>s. gyield (generateErrorEvent s (describeUnknownError e) None))))
        (th_busy_update (\<lambda>_. False)) (s\<lparr>th_busy := True, th_state := None\<rparr>))"
  by (simp add: execute_def throwIfContextBusy_def gthen_def gbind_def gen_defs split: prod.splits)

lemma error_is_done [simp]: "is_done (generateErrorEvent s msg out)"
  by (simp add: generateErrorEvent_def done_event_def)

text \<open>The events of a run, when the thread was free: those of its body and, if it threw, an error event.\<close>

lemma execute_events:
  assumes "\<not> th_busy s" and "execute_body env (s\<lparr>th_busy := True, th_state := None\<rparr>) = (tr, s1, r)"
  shows "events_of (execute env s) =
      map fst tr @ (case r of Inl e \<Rightarrow> [generateErrorEvent s1 (describeUnknownError e) None] | Inr u \<Rightarrow> [])"
    and "result_of (execute env s) = Inr ()" and "\<not> th_busy (final_of (execute env s))"
  using assms by (auto simp: execute_run gfinally_def gcatch_def gbind_def gen_defs split: sum.splits)

lemma run_ends_once: "is_done e \<Longrightarrow> e \<notin> set (butlast (events_of (execute env s)))"
proof (cases "th_busy s")
  case False
  assume d: "is_done e"
  obtain tr s1 r where b: "execute_body env (s\<lparr>th_busy := True, th_state := None\<rparr>) = (tr, s1, r)"
    by (cases "execute_body env (s\<lparr>th_busy := True, th_state := None\<rparr>)")
  have "(\<forall>e \<in> set (map fst tr). \<not> is_done e) \<or>
      (\<exists>es e. map fst tr = es @ [e] \<and> (\<forall>e \<in> set es. \<not> is_done e) \<and> r = Inr ())"
    using ends_execute_body[of env, unfolded ends_def, rule_format, of "s\<lparr>th_busy := True, th_state := None\<rparr>"] b
    by simp
  then show ?thesis
  proof
    assume q: "\<forall>e \<in> set (map fst tr). \<not> is_done e"
    then have "e \<notin> set (map fst tr)" using d by blast
    then show ?thesis unfolding execute_events(1)[OF False b] using in_set_butlastD[of e "map fst tr"]
      by (cases r) auto
  next
    assume "\<exists>es e. map fst tr = es @ [e] \<and> (\<forall>e \<in> set es. \<not> is_done e) \<and> r = Inr ()"
    then obtain es e' where "map fst tr = es @ [e']" "\<forall>e \<in> set es. \<not> is_done e" "r = Inr ()" by blast
    then show ?thesis unfolding execute_events(1)[OF False b] using d by auto
  qed
qed (simp add: execute_run)

text \<open>
  C10. How a run ends a thread: it yields at most one event that ends it, as its last event, which carries
  the identity of the thread and, for a sub-agent, a tool message that answers the call of its parent; a root
  thread sends none.
\<close>

theorem thread_ends_once:
  assumes "completion_addressed s"
  shows "(\<forall>d. Thread_done d \<notin> set (butlast (events_of (execute env s)))) \<and>
    (\<forall>d. Thread_done d \<in> set (events_of (execute env s)) \<longrightarrow>
      de_thread_id d = ac_thread_id (th_config s) \<and> de_parent d = ac_parent (th_config s) \<and>
      (case ac_parent (th_config s) of
         None \<Rightarrow> de_send_to_parent d = None
       | Some p \<Rightarrow> map_option tm_tool_call_id (de_send_to_parent d) = Some (ap_tool_call_id p)))"
proof (intro conjI allI impI)
  show "Thread_done d \<notin> set (butlast (events_of (execute env s)))" for d
    using run_ends_once[of "Thread_done d" env s] by simp
next
  fix d
  assume "Thread_done d \<in> set (events_of (execute env s))"
  then obtain st where "(Thread_done d, st) \<in> set (trace_of (execute env s))" by auto
  moreover have "maintains (\<lambda>t. th_config t = th_config s \<and> completion_addressed t) (proper_event (th_config s)) (execute env)"
    by (rule done_run.kept_execute) (auto simp: completion_addressed_def)
  ultimately have "proper_done (th_config s) d" using assms by (fastforce simp: maintains_def)
  then show "de_thread_id d = ac_thread_id (th_config s)" "de_parent d = ac_parent (th_config s)"
    "case ac_parent (th_config s) of
         None \<Rightarrow> de_send_to_parent d = None
       | Some p \<Rightarrow> map_option tm_tool_call_id (de_send_to_parent d) = Some (ap_tool_call_id p)"
    by (auto simp: proper_done_def addressed_def split: option.splits)
qed

section \<open>A run is exclusive\<close>

lemma send_run:
  "send env ms s =
     (if length ms = 0 \<and> \<not> isAwaitingUserInput s then ([], s, Inr ())
      else if th_completion s \<noteq> None
      then ([], s, Inl (InvalidAgentSendInputError (''thread '' @ ac_thread_id (th_config s) @ '' is already complete'')))
      else if th_busy s
      then ([], s, Inl (plain_error (''context is busy for thread '' @ ac_thread_id (th_config s))))
      else gfinally (send_body env ms) (th_busy_update (\<lambda>_. False)) (s\<lparr>th_busy := True\<rparr>))"
  by (simp add: send_def throwIfContextBusy_def throwIfAlreadyComplete_def gthen_def gbind_def gen_defs
      split: prod.splits)

lemma gfinally_parts:
  "trace_of (gfinally g f s) = trace_of (g s)" "final_of (gfinally g f s) = f (final_of (g s))"
  "result_of (gfinally g f s) = result_of (g s)"
  by (simp_all add: gfinally_def split: prod.splits)

lemma busy_during:
  assumes "(e, st) \<in> set (trace_of (execute env s)) \<or> (e, st) \<in> set (trace_of (send env ms s))"
  shows "th_busy st" and "\<not> th_busy s"
proof -
  have c: "maintains (\<lambda>t. th_busy t \<and> th_config t = th_config s) (\<lambda>e. True)
      (gcatch (execute_body env)
         (\<lambda>e. gbind gget (\<lambda>s. gyield (generateErrorEvent s (describeUnknownError e) None))))"
    by (intro maintains_catch busy_run.kept_execute_body maintains_get maintains_yield) simp
  have b: "maintains (\<lambda>t. th_busy t \<and> th_config t = th_config s) (\<lambda>e. True) (send_body env ms)"
    by (rule busy_run.kept_send_body)
  show "\<not> th_busy s" using assms by (auto simp: execute_run send_run split: if_splits)
  then show "th_busy st"
    using assms c[unfolded maintains_def, rule_format, of "s\<lparr>th_busy := True, th_state := None\<rparr>"]
      b[unfolded maintains_def, rule_format, of "s\<lparr>th_busy := True\<rparr>"]
    by (auto simp: execute_run send_run gfinally_parts split: if_splits)
qed

text \<open>
  While a run or a send is under way, a second run throws without an event or a change, and so does a
  send; when it is over, the thread is free again.
\<close>

theorem thread_is_exclusive:
  assumes "(e, st) \<in> set (trace_of (execute env s)) \<or> (e, st) \<in> set (trace_of (send env ms s))"
  shows "execute env' st = ([], st, Inl (plain_error (''context is busy for thread '' @ ac_thread_id (th_config st)))) \<and>
    (\<exists>err. send env' (m # ms') st = ([], st, Inl err)) \<and>
    \<not> th_busy (final_of (execute env s)) \<and> \<not> th_busy (final_of (send env ms s))"
proof -
  have "th_busy st" "\<not> th_busy s" using busy_during[OF assms] .
  then show ?thesis by (auto simp: execute_run send_run gfinally_parts)
qed

section \<open>Capability state\<close>

lemma claim_keys:
  "set (js_keys (fold (\<lambda>(k, v) claimed. if Some k \<notin> set cs then claimed else js_set k v claimed) kv m)) \<subseteq>
     set (js_keys m) \<union> {k. Some k \<in> set cs}"
proof (induction kv arbitrary: m)
  case (Cons p kv)
  obtain k v where p: "p = (k, v)" by (cases p)
  then show ?case using Cons[of m] Cons[of "js_set k v m"] by (auto simp: js_keys_set)
qed simp

lemma claimed_keys: "set (js_keys (claimCapabilityState cs inp)) \<subseteq> {k. Some k \<in> set cs}"
  using claim_keys[of cs _ "[]"] by (auto simp: claimCapabilityState_def js_keys_def split: option.splits)

lemma declared_keys: "set (List.map_filter id cs) = {k. Some k \<in> set cs}"
  by (auto simp: List.map_filter_def intro: rev_image_eqI)

text \<open>
  The capability state of a thread holds declared keys only: the constructor drops every other key of
  the previous turn, and no run or send announces or stores a key that no capability declares.
\<close>

theorem capability_state_declared:
  assumes "new_agent_thread c caps ctx u completion inp = Inr s"
  shows "set (js_keys (th_capability_state s)) \<subseteq> {k. Some k \<in> set caps} \<and>
    (let s1 = final_of (send env ms s) in
      set (js_keys (th_capability_state s1)) \<subseteq> {k. Some k \<in> set caps} \<and>
      set (js_keys (th_capability_state (final_of (execute env' s1)))) \<subseteq> {k. Some k \<in> set caps} \<and>
      (\<forall>tid k v. Capability_state tid k v \<in> set (events_of (execute env' s1)) \<longrightarrow> k \<in> {k. Some k \<in> set caps}))"
proof -
  let ?I = "\<lambda>t. th_config t = th_config s \<and> set (js_keys (th_capability_state t)) \<subseteq> set (ac_state_keys (th_config s))"
  have keys: "set (ac_state_keys (th_config s)) = {k. Some k \<in> set caps}"
    and I: "?I s"
    using assms claimed_keys[of caps inp] declared_keys[of caps]
    by (auto simp: new_agent_thread_def bindE_Inr_iff simp del: id_apply)
  have "maintains ?I (declared_event (th_config s)) (send env ms)"
    "maintains ?I (declared_event (th_config s)) (execute env')"
    by (rule capability_run.kept_send, simp) (rule capability_run.kept_execute, simp)
  then have s1: "?I (final_of (send env ms s))"
    and "\<And>t. ?I t \<Longrightarrow> ?I (final_of (execute env' t)) \<and> (\<forall>p \<in> set (trace_of (execute env' t)). declared_event (th_config s) (fst p))"
    using I by (auto simp: maintains_def)
  then have "?I (final_of (execute env' (final_of (send env ms s))))"
    "\<forall>p \<in> set (trace_of (execute env' (final_of (send env ms s)))). declared_event (th_config s) (fst p)"
    by blast+
  then show ?thesis using I s1 unfolding Let_def keys[symmetric] by (fastforce simp: Let_def)
qed

section \<open>Model calls are bounded\<close>

definition requests :: "thread_event list \<Rightarrow> nat" where
  "requests es = length (filter is_request es)"

lemma requests_simps [simp]: "requests [] = 0" "requests (es @ fs) = requests es + requests fs"
  "requests (e # es) = (if is_request e then 1 else 0) + requests es"
  by (simp_all add: requests_def)

text \<open>A generator that never asks the model, and one that asks at most once.\<close>

definition asks :: "nat \<Rightarrow> ('s, thread_event, 'x, 'a) gen \<Rightarrow> bool" where
  "asks n g = (\<forall>s. requests (events_of (g s)) \<le> n)"

lemma asks_maintains: "(\<And>c. maintains (\<lambda>s. th_config s = c) (\<lambda>e. \<not> is_request e) g) \<Longrightarrow> asks 0 g"
  by (auto simp: asks_def maintains_def requests_def filter_empty_conv)

lemma asks_basic: "asks n (gret a)" "asks n (gthrow x)" "asks n (glift r)" "asks n gget" "asks n (gmodify f)"
  by (simp_all add: asks_def gen_defs)

lemma asks_yield: "asks (Suc n) (gyield e)"
  by (simp add: asks_def gen_defs)

lemma asks_bind:
  assumes "asks m g" and "\<And>a. asks n (h a)"
  shows "asks (m + n) (gbind g h)"
  unfolding asks_def
proof
  fix s
  have "requests (events_of (g s)) \<le> m" "\<And>a t. requests (events_of (h a t)) \<le> n"
    using assms by (auto simp: asks_def)
  then show "requests (events_of (gbind g h s)) \<le> m + n"
    by (cases "result_of (g s)") (simp_all add: gbind_run add_mono)
qed

lemma asks_bind0: "asks 0 g \<Longrightarrow> (\<And>a. asks n (h a)) \<Longrightarrow> asks n (gbind g h)"
  using asks_bind[of 0 g n h] by simp

lemma asks_then0: "asks 0 g \<Longrightarrow> asks n h \<Longrightarrow> asks n (gthen g h)"
  by (simp add: gthen_def asks_bind0)

lemma asks_llm: "asks 1 (stepLLMCall env tools mapping)"
proof -
  have one: "asks 1 (gthen (gyield e) (receive_message env mapping c i req stream))" for e c i req stream
    using asks_bind[of 1 "gyield e" 0 "\<lambda>_. receive_message env mapping c i req stream"]
      asks_yield[of 0 e] asks_maintains[OF answering_step.kept_receive]
    by (simp add: gthen_def)
  have "asks 1 (gbind gget (\<lambda>s. gbind gtick (\<lambda>n.
         let c = th_config s; req = transformToLLMRequest env s tools in
         gbind (glift (modelFromDefinition env c)) (\<lambda>mdl.
         gthen (gyield (Model_message (placeholder_event (ac_thread_id c) i (env_now env n) mdl)))
           (receive_message env mapping c i req (env_llm env n req))))))" for i
    unfolding Let_def by (intro asks_bind0 asks_basic asks_maintains[OF answering_step.kept_tick] one)
  then have "asks 1 (if stop then gret (Exit, i)
       else gthen (executeContextProcessors (env_pre_llm env))
       (gbind gget (\<lambda>s. gbind gtick (\<lambda>n.
         let c = th_config s; req = transformToLLMRequest env s tools in
         gbind (glift (modelFromDefinition env c)) (\<lambda>mdl.
         gthen (gyield (Model_message (placeholder_event (ac_thread_id c) i (env_now env n) mdl)))
           (receive_message env mapping c i req (env_llm env n req)))))))" for stop i
    by (simp add: asks_then0[OF asks_maintains[OF answering_step.kept_processors]] asks_basic)
  then show ?thesis unfolding stepLLMCall_def Let_def
    by (intro asks_bind0 asks_maintains[OF answering_step.kept_tick] asks_maintains[OF answering_step.kept_aborted])
qed

lemma frame_user: "keeps loop_frame (stepUserInputRequired env source)"
  unfolding stepUserInputRequired_def required_event_def Let_def by (intro keeps_intro frame_steps)

lemma llm_turn_budget:
  assumes "llm_turn env tools mapping source s = (tr, s1, r)"
  shows "th_config s1 = th_config s \<and>
    (requests (map fst tr) = 0 \<and> iterations (th_metrics s) \<le> iterations (th_metrics s1) \<or>
     requests (map fst tr) \<le> 1 \<and> iterations (th_metrics s) < iteration_limit (th_config s) \<and>
       iterations (th_metrics s1) = iterations (th_metrics s) + 1)"
proof -
  obtain tr1 s0 stop where a: "aborted env s = (tr1, s0, Inr stop)"
    by (auto simp: aborted_def gtick_def gthen_def gbind_def gen_defs)
  have f0: "loop_frame s0 = loop_frame s" using keepsD[OF frame_fresh(2), of env s] a by simp
  have q1: "requests (map fst tr1) = 0"
    using asks_maintains[OF answering_step.kept_aborted, of env] a by (auto simp: asks_def dest: spec[of _ s])
  show ?thesis
  proof (cases "stop \<or> iterations (th_metrics s0) \<ge> iteration_limit (th_config s0)")
    case True
    then have "requests (map fst tr) = 0" "s1 = s0"
      using assms a q1
      by (auto simp: llm_turn_def gbind_def gthen_def gen_defs Let_def generateErrorEvent_def done_event_def split: if_splits)
    then show ?thesis using f0 by (simp add: loop_frame_def)
  next
    case False
    let ?s = "th_metrics_update (\<lambda>m. m\<lparr>iterations := iterations m + 1\<rparr>) s0"
    obtain tr2 s2 r2 where l: "stepLLMCall env tools mapping ?s = (tr2, s2, r2)"
      by (cases "stepLLMCall env tools mapping ?s")
    then have "tr = tr1 @ tr2" "s1 = s2"
      using assms a False by (auto simp: llm_turn_def gbind_def gthen_def gen_defs Let_def split: sum.splits)
    moreover have "requests (map fst tr2) \<le> 1"
      using asks_llm[of env tools mapping] l by (auto simp: asks_def dest: spec[of _ ?s])
    moreover have "loop_frame s2 = loop_frame ?s" using keepsD[OF frame_llm, of env tools mapping ?s] l by simp
    ultimately show ?thesis using q1 f0 False by (simp add: loop_frame_def)
  qed
qed

lemma loop_body_budget:
  assumes "loop_body env tools mapping source s = (tr, s1, r)"
  shows "th_config s1 = th_config s \<and>
    (requests (map fst tr) = 0 \<and> iterations (th_metrics s) \<le> iterations (th_metrics s1) \<or>
     requests (map fst tr) \<le> 1 \<and> iterations (th_metrics s) < iteration_limit (th_config s) \<and>
       iterations (th_metrics s1) = iterations (th_metrics s) + 1)"
proof -
  obtain trd sd rd where d: "drain_pending s = (trd, sd, rd)" by (cases "drain_pending s")
  have fd: "loop_frame sd = loop_frame s" "requests (map fst trd) = 0"
    using keepsD[OF frame_drain, of s] asks_maintains[OF answering_step.kept_drain] d
    by (auto simp: asks_def dest: spec[of _ s])
  show ?thesis
  proof (cases rd)
    case (Inl x)
    then show ?thesis using assms d fd by (auto simp: loop_body_def gthen_def gbind_def loop_frame_def)
  next
    case (Inr u)
    show ?thesis
    proof (cases "result_of (deriveState sd)")
      case (Inl x)
      then show ?thesis using assms d fd Inr
        by (auto simp: loop_body_def gthen_def gbind_run loop_frame_def deriveState_run Let_def
            split: option.splits sum.splits)
    next
      case (Inr n)
      let ?s = "sd\<lparr>th_state := Some n\<rparr>"
      have der: "deriveState sd = ([], ?s, Inr n)"
        using Inr by (auto simp: deriveState_run Let_def split: option.splits sum.splits)
      let ?g = "case n of Llm_call_required \<Rightarrow> llm_turn env tools mapping source
         | Tool_response_required_state \<Rightarrow> tool_turn env mapping source
         | User_input_required \<Rightarrow> gbind (stepUserInputRequired env source) (\<lambda>outcome. gret (outcome, source))"
      obtain tr2 s2 r2 where g: "?g ?s = (tr2, s2, r2)" by (cases "?g ?s")
      have parts: "map fst tr = map fst trd @ map fst tr2" "s1 = s2"
        using assms d \<open>rd = Inr u\<close> der g by (auto simp: loop_body_def gthen_def gbind_def split: sum.splits prod.splits)
      show ?thesis
      proof (cases n)
        case Llm_call_required
        then show ?thesis using llm_turn_budget[of env tools mapping source ?s tr2 s2 r2] g parts fd
          by (simp add: loop_frame_def)
      next
        case Tool_response_required_state
        then show ?thesis using g parts fd keepsD[OF frame_tool_turn, of env mapping source ?s]
            asks_maintains[OF answering_tool.kept_tool_turn, of env mapping source]
          by (auto simp: asks_def loop_frame_def dest: spec[of _ ?s])
      next
        case User_input_required
        let ?h = "gbind (stepUserInputRequired env source) (\<lambda>outcome. gret (outcome, source))"
        have "keeps loop_frame ?h" by (intro keeps_intro frame_user)
        then have "loop_frame s2 = loop_frame ?s" using keepsD[of loop_frame ?h ?s] g User_input_required by simp
        moreover have "asks 0 ?h"
          by (intro asks_bind0 asks_basic asks_maintains[OF answering_step.kept_user])
        then have "requests (map fst tr2) = 0"
          using g User_input_required by (auto simp: asks_def dest: spec[of _ ?s])
        ultimately show ?thesis using parts fd by (simp add: loop_frame_def)
      qed
    qed
  qed
qed

lemma loop_requests:
  "requests (events_of (thread_loop env tools mapping source s)) \<le>
     iteration_limit (th_config s) - iterations (th_metrics s)"
proof (induction env tools mapping source s rule: thread_loop.induct)
  case (1 env tools mapping source s)
  obtain tr s1 r where b: "loop_body env tools mapping source s = (tr, s1, r)"
    by (cases "loop_body env tools mapping source s")
  note budget = loop_body_budget[OF b]
  show ?case
  proof (cases "\<exists>source'. r = Inr (Continue, source')")
    case True
    then obtain source' where r: "r = Inr (Continue, source')" by blast
    obtain tr2 s2 r2 where t: "thread_loop env tools mapping source' s1 = (tr2, s2, r2)"
      by (cases "thread_loop env tools mapping source' s1")
    have "requests (map fst tr2) \<le> iteration_limit (th_config s1) - iterations (th_metrics s1)"
      using 1 b r t by fastforce
    moreover have "thread_loop env tools mapping source s = (tr @ tr2, s2, r2)"
      using b r t by (subst thread_loop.simps) simp
    ultimately show ?thesis using budget by auto
  next
    case False
    then have "thread_loop env tools mapping source s = (tr, s1, case r of Inl x \<Rightarrow> Inl x | Inr p \<Rightarrow> Inr ())"
      using b by (subst thread_loop.simps) (auto split: sum.splits prod.splits step_outcome.splits)
    then show ?thesis using budget by auto
  qed
qed

text \<open>Generators that stay within the calls the thread has left.\<close>

definition calls_left :: "agent_thread \<Rightarrow> nat" where
  "calls_left s = iteration_limit (th_config s) - iterations (th_metrics s)"

definition in_budget :: "'a thread_gen \<Rightarrow> bool" where
  "in_budget g = (\<forall>s. requests (events_of (g s)) \<le> calls_left s)"

lemma calls_left_frame: "keeps loop_frame g \<Longrightarrow> keeps calls_left g"
  by (auto simp: keeps_def loop_frame_def calls_left_def)

lemma within_asks: "asks 0 g \<Longrightarrow> in_budget g"
  by (simp add: asks_def in_budget_def)

lemma within_bind:
  assumes "asks 0 g" "keeps calls_left g" and "\<And>a. in_budget (h a)"
  shows "in_budget (gbind g h)"
  unfolding in_budget_def
proof
  fix s
  have "requests (events_of (g s)) = 0" "calls_left (final_of (g s)) = calls_left s"
    using assms(1,2) by (auto simp: asks_def keeps_def)
  moreover have "requests (events_of (h a t)) \<le> calls_left t" for a t using assms(3) by (simp add: in_budget_def)
  ultimately show "requests (events_of (gbind g h s)) \<le> calls_left s"
    by (cases "result_of (g s)") (simp_all add: gbind_run, metis)
qed

lemma within_then: "asks 0 g \<Longrightarrow> keeps calls_left g \<Longrightarrow> in_budget h \<Longrightarrow> in_budget (gthen g h)"
  by (simp add: gthen_def within_bind)

lemma within_case:
  "(x = None \<Longrightarrow> in_budget g) \<Longrightarrow> (\<And>y. x = Some y \<Longrightarrow> in_budget (h y)) \<Longrightarrow> in_budget (case x of None \<Rightarrow> g | Some y \<Rightarrow> h y)"
  "(c \<Longrightarrow> in_budget g1) \<Longrightarrow> (\<not> c \<Longrightarrow> in_budget g2) \<Longrightarrow> in_budget (if c then g1 else g2)"
  "(\<And>a b. in_budget (k a b)) \<Longrightarrow> in_budget (case p of (a, b) \<Rightarrow> k a b)"
  by (auto split: option.splits prod.splits)

lemma frame_init: "keeps calls_left (init env)"
proof -
  have "keeps calls_left (case r of Inl e \<Rightarrow> gthrow (thrown_tool_error e)
      | Inr cv \<Rightarrow> gthen (gmodify (\<lambda>s. s\<lparr>th_tools := Some (cv_tools cv, cv_mapping cv),
             th_managed_names := js_set_of (map tv_name managed)\<rparr>)) (gret (cv_init cv, cv_auth cv)))" for r managed
    by (cases r) (auto intro!: keeps_intro simp: calls_left_def)
  then show ?thesis unfolding init_def initTools_def
    by (intro keeps_intro calls_left_frame[OF frame_tick])
qed

lemma within_replay: "in_budget (gbind (glift (buildReplayEvent s c)) gyield)"
  by (cases "ac_parent (th_config s)")
    (auto simp: in_budget_def gbind_def gen_defs buildReplayEvent_def done_event_def guardE_def)

lemma within_loop: "in_budget (thread_loop env tools mapping source)"
  using loop_requests by (simp add: in_budget_def calls_left_def)

lemma asks_if: "asks 0 g \<Longrightarrow> asks 0 (if b then g else gret ())"
  by (simp add: asks_basic)

lemma within_body: "in_budget (execute_body env)"
  unfolding execute_body_def Let_def
  by (intro within_case within_replay within_loop within_then within_bind asks_if asks_basic
      within_asks[OF asks_maintains[OF answering_step.kept_auth_event]] within_asks[OF asks_basic(2)]
      asks_maintains[OF answering_step.kept_init] asks_maintains[OF answering_step.kept_processors]
      asks_maintains[OF answering_step.kept_init_event] frame_init keeps_intro
      calls_left_frame[OF frame_processors] calls_left_frame[OF frame_built(1)])
    (simp_all add: calls_left_def)

text \<open>
  C11. A run asks the model at most as often as the iteration limit leaves it, whatever the model, the tools
  and the processors answer, and it always returns: it throws only when the thread is busy, every other
  failure ends in an error event.
\<close>

theorem model_calls_bounded:
  "length (filter is_request (events_of (execute env s))) \<le> iteration_limit (th_config s) - iterations (th_metrics s) \<and>
   result_of (execute env s) =
     (if th_busy s then Inl (plain_error (''context is busy for thread '' @ ac_thread_id (th_config s))) else Inr ())"
proof (cases "th_busy s")
  case False
  let ?s = "s\<lparr>th_busy := True, th_state := None\<rparr>"
  obtain tr s1 r where b: "execute_body env ?s = (tr, s1, r)" by (cases "execute_body env ?s")
  have "requests (map fst tr) \<le> calls_left ?s" using within_body[of env] b by (auto simp: in_budget_def dest: spec[of _ ?s])
  moreover have "requests (events_of (execute env s)) = requests (map fst tr)"
    unfolding execute_events(1)[OF False b]
    by (cases r) (simp_all add: generateErrorEvent_def done_event_def)
  ultimately show ?thesis using execute_events(2)[OF False b] False by (simp add: requests_def calls_left_def)
qed (simp add: execute_run)

section \<open>Witnesses\<close>

lemma thread_ends_once_witness:
  "\<exists>d. last (events_of (execute demo_env demo_child)) = Thread_done d \<and>
     Thread_done d \<notin> set (butlast (events_of (execute demo_env demo_child))) \<and>
     map_option tm_tool_call_id (de_send_to_parent d) = Some ''call-1''"
proof -
  let ?es = "events_of (execute demo_env demo_child)"
  have "is_done (last ?es)" "?es \<noteq> []" by code_simp+
  then obtain d where d: "last ?es = Thread_done d" by (cases "last ?es") auto
  then have "Thread_done d \<in> set ?es" using \<open>?es \<noteq> []\<close> last_in_set[of ?es] by simp
  moreover have "completion_addressed demo_child" by code_simp
  moreover have "ac_parent (th_config demo_child) = Some \<lparr>ap_thread_id = ''p'', ap_tool_call_id = ''call-1''\<rparr>"
    by code_simp
  ultimately show ?thesis using thread_ends_once[of demo_child demo_env] d by auto
qed

lemma thread_is_exclusive_witness:
  "\<exists>st. execute demo_env st = ([], st, Inl (plain_error ''context is busy for thread t'')) \<and>
     \<not> th_busy (final_of (execute demo_env demo_child))"
proof -
  let ?run = "execute demo_env demo_child" and ?st = "snd (hd (trace_of (execute demo_env demo_child)))"
  have "trace_of ?run \<noteq> []" by code_simp
  then have "hd (trace_of ?run) \<in> set (trace_of ?run)" by simp
  then have "(fst (hd (trace_of ?run)), ?st) \<in> set (trace_of ?run)" by simp
  moreover have "ac_thread_id (th_config ?st) = ''t''" by code_simp
  ultimately show ?thesis
    using thread_is_exclusive[of "fst (hd (trace_of ?run))" ?st demo_env demo_child "[]" demo_env] by fastforce
qed

lemma capability_state_declared_witness:
  "\<exists>s. new_agent_thread (demo_agent_config None) [Some ''k'', None] None None None
         (Some [(''k'', JNull), (''old'', JNull)]) = Inr s \<and>
     th_capability_state s = [(''k'', JNull)] \<and>
     set (js_keys (th_capability_state (final_of (execute demo_env (final_of (send demo_env [] s)))))) \<subseteq>
       {k. Some k \<in> set [Some ''k'', None]}"
proof -
  let ?mk = "new_agent_thread (demo_agent_config None) [Some ''k'', None] None None None
    (Some [(''k'', JNull), (''old'', JNull)])"
  have "(case ?mk of Inl e \<Rightarrow> False | Inr s \<Rightarrow> th_capability_state s = [(''k'', JNull)])" by code_simp
  then obtain s where s: "?mk = Inr s" "th_capability_state s = [(''k'', JNull)]" by (auto split: sum.splits)
  show ?thesis using capability_state_declared[OF s(1), of demo_env "[]" demo_env] s by (auto simp: Let_def)
qed

end
