(* ===== verification/Agent_Thread_Input.thy ===== *)
theory Agent_Thread_Input
  imports Agent_Thread_Demo
begin

text \<open>
  What a thread accepts and in which state it is: the batches \<open>validateInputMessageTypesGivenContext\<close>
  accepts, the state derived from a context, and what an accepted batch settles.
\<close>

section \<open>Accepted batches\<close>

fun approval_ids :: "send_input list \<Rightarrow> string list" where
  "approval_ids [] = []"
| "approval_ids (Send_approval m # ms) = uta_tool_call_id m # approval_ids ms"
| "approval_ids (m # ms) = approval_ids ms"

fun answer_ids :: "send_input list \<Rightarrow> string list" where
  "answer_ids [] = []"
| "answer_ids (Send_response m # ms) = utr_tool_call_id m # answer_ids ms"
| "answer_ids (Send_tool m # ms) = tm_tool_call_id m # answer_ids ms"
| "answer_ids (m # ms) = answer_ids ms"

text \<open>Every user message says something and comes when no blocking call is left.\<close>

fun users_ok :: "string list \<Rightarrow> send_input list \<Rightarrow> bool" where
  "users_ok blocking [] = True"
| "users_ok blocking (Send_user c # ms) =
     (\<not> isEmptyMessageContent c \<and> blocking = [] \<and> users_ok blocking ms)"
| "users_ok blocking (Send_response m # ms) = users_ok (js_remove (utr_tool_call_id m) blocking) ms"
| "users_ok blocking (Send_tool m # ms) = users_ok (js_remove (tm_tool_call_id m) blocking) ms"
| "users_ok blocking (m # ms) = users_ok blocking ms"

definition settled_sets :: "send_input list \<Rightarrow> open_sets \<Rightarrow> open_sets" where
  "settled_sets ms os =
     \<lparr>os_open = fold js_remove (answer_ids ms) (os_open os),
      os_blocking = fold js_remove (answer_ids ms) (os_blocking os),
      os_approval = fold js_remove (approval_ids ms) (os_approval os),
      os_client = fold js_remove (answer_ids ms) (os_client os)\<rparr>"

lemma validate_loop_iff:
  "validate_loop n ms os = Inr os' \<longleftrightarrow>
     distinct (approval_ids ms) \<and> set (approval_ids ms) \<subseteq> set (os_approval os) \<and>
     distinct (answer_ids ms) \<and> set (answer_ids ms) \<subseteq> set (os_open os) \<and>
     users_ok (os_blocking os) ms \<and> os' = settled_sets ms os"
proof (induction n ms os arbitrary: os' rule: validate_loop.induct)
  case (1 n os)
  then show ?case by (auto simp: settled_sets_def)
next
  case (2 n m ms os)
  then show ?case
    by (auto simp: bindE_Inr_iff validateApprovalMessage_def settled_sets_def)
next
  case (3 n c ms os)
  then show ?case by (auto simp: bindE_Inr_iff validateUserMessage_def settled_sets_def)
next
  case (4 n m ms os)
  then show ?case by (auto simp: bindE_Inr_iff validateToolMessage_def settled_sets_def answer_call_def)
next
  case (5 n m ms os)
  then show ?case by (auto simp: bindE_Inr_iff validateToolMessage_def settled_sets_def answer_call_def)
qed

lemma user_positions:
  "(\<forall>pre c post. x # ms = pre @ Send_user c # post \<longrightarrow> P c pre) \<longleftrightarrow>
     (\<forall>c. x = Send_user c \<longrightarrow> P c []) \<and> (\<forall>pre c post. ms = pre @ Send_user c # post \<longrightarrow> P c (x # pre))"
  by (auto simp: Cons_eq_append_conv)

lemma users_ok_iff:
  "users_ok blocking ms \<longleftrightarrow>
     (\<forall>pre c post. ms = pre @ Send_user c # post \<longrightarrow>
        \<not> isEmptyMessageContent c \<and> set blocking \<subseteq> set (answer_ids pre))"
proof (induction blocking ms rule: users_ok.induct)
  case (1 blocking)
  then show ?case by simp
next
  case (2 blocking c ms)
  then show ?case unfolding user_positions by auto
next
  case (3 blocking m ms)
  then show ?case unfolding user_positions by (simp add: Diff_subset_conv)
next
  case (4 blocking m ms)
  then show ?case unfolding user_positions by (simp add: Diff_subset_conv)
next
  case (5 blocking m ms)
  then show ?case unfolding user_positions by simp
qed

lemma fold_remove_empty: "fold js_remove xs ys = [] \<longleftrightarrow> set ys \<subseteq> set xs"
  using set_fold_js_remove[of xs ys] by (metis Diff_eq_empty_iff set_empty)

lemma batch_accepted:
  "validateInputMessageTypesGivenContext ctx ms = Inr () \<longleftrightarrow>
     distinct (approval_ids ms) \<and> set (approval_ids ms) = set (map tc_id (getPendingApprovalToolCalls ctx)) \<and>
     distinct (answer_ids ms) \<and> set (answer_ids ms) \<subseteq> set (getOpenToolCallIds ctx) \<and>
     set (map tc_id (getPendingClientSideToolCalls ctx)) \<subseteq> set (answer_ids ms) \<and>
     (\<forall>pre c post. ms = pre @ Send_user c # post \<longrightarrow>
        \<not> isEmptyMessageContent c \<and>
        set (getUnclosableOpenToolCallIds ctx (getOpenToolCallIds ctx)) \<subseteq> set (answer_ids pre))"
proof -
  have "validateInputMessageTypesGivenContext ctx ms = Inr () \<longleftrightarrow>
      (\<exists>os. validate_loop 0 ms (initial_open_sets ctx) = Inr os \<and> os_approval os = [] \<and> os_client os = [])"
    by (auto simp: validateInputMessageTypesGivenContext_def bindE_Inr_iff)
  also have "\<dots> \<longleftrightarrow> distinct (approval_ids ms) \<and> set (approval_ids ms) \<subseteq> set (os_approval (initial_open_sets ctx)) \<and>
      distinct (answer_ids ms) \<and> set (answer_ids ms) \<subseteq> set (os_open (initial_open_sets ctx)) \<and>
      users_ok (os_blocking (initial_open_sets ctx)) ms \<and>
      set (os_approval (initial_open_sets ctx)) \<subseteq> set (approval_ids ms) \<and>
      set (os_client (initial_open_sets ctx)) \<subseteq> set (answer_ids ms)"
    unfolding validate_loop_iff by (auto simp: settled_sets_def fold_remove_empty)
  finally show ?thesis unfolding users_ok_iff by (auto simp: initial_open_sets_def)
qed

text \<open>
  C35. A batch is accepted exactly when it decides every pending approval once and nothing else, answers
  open calls only and each once, answers every pending client-side call, and every user message in it is
  not empty and comes after answers to all calls that the closer cannot close.
\<close>

theorem send_batch_accepted_iff:
  "validateInputMessageTypesGivenContext ctx ms = Inr () \<longleftrightarrow>
     distinct (approval_ids ms) \<and> set (approval_ids ms) = set (map tc_id (getPendingApprovalToolCalls ctx)) \<and>
     distinct (answer_ids ms) \<and> set (answer_ids ms) \<subseteq> set (getOpenToolCallIds ctx) \<and>
     set (map tc_id (getPendingClientSideToolCalls ctx)) \<subseteq> set (answer_ids ms) \<and>
     (\<forall>pre c post. ms = pre @ Send_user c # post \<longrightarrow>
        \<not> isEmptyMessageContent c \<and>
        set (getUnclosableOpenToolCallIds ctx (getOpenToolCallIds ctx)) \<subseteq> set (answer_ids pre))"
  by (rule batch_accepted)

section \<open>The derived state\<close>

lemma awaiting_iff:
  "isAwaitingUserInput s \<longleftrightarrow> deriveAgentThreadState (th_context s) = User_input_required"
  using open_ids_subset[of "th_context s"]
  by (auto simp: isAwaitingUserInput_def deriveAgentThreadState_def Let_def getPendingApprovalToolCalls_def
      getPendingClientSideToolCalls_def filter_empty_conv)

lemma awaited_iff:
  "deriveAgentThreadState ctx = User_input_required \<longleftrightarrow>
      (\<exists>tc \<in> set (last_tool_calls ctx). tc_id tc \<in> set (getOpenToolCallIds ctx) \<and>
        (ti_is_client_side (tc_tool_info tc) = Some True \<or>
         ti_is_approval_required (tc_tool_info tc) = Some True \<and>
           (\<forall>d. Approval_msg (tc_id tc) d \<notin> set ctx)))"
  by (auto simp: deriveAgentThreadState_def Let_def decided_iff)

text \<open>
  The state of a thread: a model call is due exactly when no call is open, the user is awaited exactly
  when an open call waits for a decision or for a client, and when tools are due, every open call that needs
  an approval has its decision and none is the client's.
\<close>

theorem derived_state_spec:
  "(deriveAgentThreadState ctx = Llm_call_required \<longleftrightarrow> getOpenToolCallIds ctx = []) \<and>
   (deriveAgentThreadState ctx = User_input_required \<longleftrightarrow>
      (\<exists>tc \<in> set (last_tool_calls ctx). tc_id tc \<in> set (getOpenToolCallIds ctx) \<and>
        (ti_is_client_side (tc_tool_info tc) = Some True \<or>
         ti_is_approval_required (tc_tool_info tc) = Some True \<and>
           (\<forall>d. Approval_msg (tc_id tc) d \<notin> set ctx)))) \<and>
   (deriveAgentThreadState ctx = Tool_response_required_state \<longrightarrow>
      (\<forall>tc \<in> set (last_tool_calls ctx). tc_id tc \<in> set (getOpenToolCallIds ctx) \<longrightarrow>
        ti_is_client_side (tc_tool_info tc) \<noteq> Some True \<and>
        (ti_is_approval_required (tc_tool_info tc) = Some True \<longrightarrow>
           js_get (scanApprovalDecisions ctx) (tc_id tc) \<noteq> None)))"
proof (intro conjI)
  show "deriveAgentThreadState ctx = Llm_call_required \<longleftrightarrow> getOpenToolCallIds ctx = []"
    by (simp add: deriveAgentThreadState_def Let_def)
  show "deriveAgentThreadState ctx = User_input_required \<longleftrightarrow>
      (\<exists>tc \<in> set (last_tool_calls ctx). tc_id tc \<in> set (getOpenToolCallIds ctx) \<and>
        (ti_is_client_side (tc_tool_info tc) = Some True \<or>
         ti_is_approval_required (tc_tool_info tc) = Some True \<and>
           (\<forall>d. Approval_msg (tc_id tc) d \<notin> set ctx)))"
    by (rule awaited_iff)
  show "deriveAgentThreadState ctx = Tool_response_required_state \<longrightarrow>
      (\<forall>tc \<in> set (last_tool_calls ctx). tc_id tc \<in> set (getOpenToolCallIds ctx) \<longrightarrow>
        ti_is_client_side (tc_tool_info tc) \<noteq> Some True \<and>
        (ti_is_approval_required (tc_tool_info tc) = Some True \<longrightarrow>
           js_get (scanApprovalDecisions ctx) (tc_id tc) \<noteq> None))"
    by (auto simp: deriveAgentThreadState_def Let_def js_has_def split: if_splits)
qed

section \<open>What a send settles\<close>

lemma approvals_sent: "i \<in> set (approval_ids ms) \<Longrightarrow> \<exists>d. Approval_msg i d \<in> set (send_approvals ms)"
  by (induction ms rule: approval_ids.induct) auto

lemma no_assistant_sent: "no_assistant (send_approvals ms)" "no_assistant (send_responses ms)"
  by (induction ms rule: send_approvals.induct) auto

lemma responses_sent:
  "tool_message_ids (send_approvals ms) = []"
  "set (tool_message_ids (send_responses ms)) = {i. \<exists>r. Send_response r \<in> set ms \<and> utr_tool_call_id r = i}"
proof -
  show "tool_message_ids (send_approvals ms) = []" by (induction ms rule: send_approvals.induct) auto
  show "set (tool_message_ids (send_responses ms)) = {i. \<exists>r. Send_response r \<in> set ms \<and> utr_tool_call_id r = i}"
    by (induction ms rule: send_responses.induct) auto
qed

lemma context_kept: "keeps th_context (send_context env m)"
  by (cases "(env, m)" rule: send_context.cases)
    (auto simp: gtick_def fresh_event_def intro!: keeps_intro)

lemma sent_context_shape:
  assumes "send_context env m s = (tr, s1, Inr ctx)"
  shows "no_assistant ctx" and "set (tool_message_ids ctx) = {i. \<exists>t. m = Send_tool t \<and> tm_tool_call_id t = i}"
  using assms
  by (cases "(env, m)" rule: send_context.cases,
      auto simp: gbind_def gthen_def gen_defs split: prod.splits sum.splits option.splits)+

lemma sent_contexts_shape:
  assumes "gmap ms (send_context env) s = (tr, s1, Inr ctxs)"
  shows "no_assistant (concat ctxs) \<and>
    set (tool_message_ids (concat ctxs)) = {i. \<exists>t. Send_tool t \<in> set ms \<and> tm_tool_call_id t = i}"
  using assms
proof (induction ms arbitrary: s tr ctxs)
  case Nil
  then show ?case by (simp add: gen_defs)
next
  case (Cons m ms)
  from Cons.prems obtain tr1 t ctx tr2 rest where m: "send_context env m s = (tr1, t, Inr ctx)"
    and r: "gmap ms (send_context env) t = (tr2, s1, Inr rest)" and c: "ctxs = ctx # rest"
    by (auto elim!: gbind_InrE simp: gen_defs)
  show ?case using Cons.IH[OF r] sent_context_shape[OF m] by (auto simp: c)
qed

lemma append_if_any_run:
  "append_if_any ctx s = (tr, s1, r) \<Longrightarrow> r = Inr () \<and> th_context s1 = th_context s @ ctx"
  by (cases "length ctx > 0")
    (auto simp: append_if_any_def appendToContext_def gbind_def gthen_def gen_defs Let_def)

lemma answered_iff: "i \<in> set (answer_ids ms) \<longleftrightarrow>
    (\<exists>r. Send_response r \<in> set ms \<and> utr_tool_call_id r = i) \<or> (\<exists>t. Send_tool t \<in> set ms \<and> tm_tool_call_id t = i)"
  by (induction ms rule: answer_ids.induct) auto

lemma settled_context:
  assumes "validateInputMessageTypesGivenContext ctx ms = Inr ()" and "no_assistant post"
    and "set (tool_message_ids post) = set (answer_ids ms)" and "set (send_approvals ms) \<subseteq> set post"
  shows "deriveAgentThreadState (ctx @ post) \<noteq> User_input_required"
proof
  assume "deriveAgentThreadState (ctx @ post) = User_input_required"
  then obtain tc where tc: "tc \<in> set (last_tool_calls ctx)" "tc_id tc \<in> set (getOpenToolCallIds ctx)"
      "tc_id tc \<notin> set (answer_ids ms)"
    and wait: "ti_is_client_side (tc_tool_info tc) = Some True \<or>
      ti_is_approval_required (tc_tool_info tc) = Some True \<and> (\<forall>d. Approval_msg (tc_id tc) d \<notin> set (ctx @ post))"
    using awaited_iff[of "ctx @ post"] assms(2,3) by (auto simp: last_tool_calls_append open_ids_append)
  from assms(1) have ok: "set (approval_ids ms) = set (map tc_id (getPendingApprovalToolCalls ctx))"
    "set (map tc_id (getPendingClientSideToolCalls ctx)) \<subseteq> set (answer_ids ms)"
    unfolding batch_accepted by blast+
  show False
  proof (cases "ti_is_client_side (tc_tool_info tc) = Some True")
    case True
    then have "tc \<in> set (getPendingClientSideToolCalls ctx)" using tc by (simp add: getPendingClientSideToolCalls_def)
    then show False using ok(2) tc(3) by auto
  next
    case False
    then have "tc \<in> set (getPendingApprovalToolCalls ctx)"
      using tc wait by (auto simp: getPendingApprovalToolCalls_def decided_iff)
    then have "tc_id tc \<in> set (approval_ids ms)" using ok(1) by auto
    then obtain d where "Approval_msg (tc_id tc) d \<in> set post" using approvals_sent assms(4) by blast
    then show False using wait False by auto
  qed
qed

lemma send_body_settles:
  assumes "send_body env ms s = (tr, s1, Inr ())"
  shows "deriveAgentThreadState (th_context s1) \<noteq> User_input_required"
proof -
  obtain s0 tr1 s3 ctxs tr2 s4 tr3 where v: "validateInputMessageTypesGivenContext (th_context s0) ms = Inr ()"
    and m: "gmap ms (send_context env) (s0\<lparr>th_pre_send_ran := True\<rparr>) = (tr1, s3, Inr ctxs)"
    and a: "append_if_any (send_approvals ms @ send_responses ms) s3 = (tr2, s4, Inr ())"
    and b: "append_if_any (concat ctxs) s4 = (tr3, s1, Inr ())"
    using assms unfolding send_body_def
    by (auto elim!: gthen_InrE gbind_InrE simp: gget_def glift_def gmodify_def)
  let ?s2 = "s0\<lparr>th_pre_send_ran := True\<rparr>"
  have "keeps th_context (gmap ms (send_context env))" by (rule keeps_map[OF context_kept])
  from keepsD[OF this, of ?s2] have "th_context s3 = th_context ?s2" using m by simp
  then have "th_context s1 = th_context s0 @ (send_approvals ms @ send_responses ms @ concat ctxs)"
    using append_if_any_run[OF a] append_if_any_run[OF b] by simp
  moreover have "set (tool_message_ids (send_approvals ms @ send_responses ms @ concat ctxs)) = set (answer_ids ms)"
    using sent_contexts_shape[OF m] responses_sent[of ms]
    by (auto simp: answered_iff)
  moreover have "no_assistant (send_approvals ms @ send_responses ms @ concat ctxs)"
    using sent_contexts_shape[OF m] no_assistant_sent by auto
  ultimately show ?thesis using settled_context[OF v] by auto
qed

text \<open>
  A send that succeeds leaves nothing for the user to decide or answer: the thread does not await user
  input, so the run that follows calls the model or the tools.
\<close>

theorem send_settles_pending:
  assumes "result_of (send env ms s) = Inr ()"
  shows "\<not> isAwaitingUserInput (final_of (send env ms s))"
proof (cases "length ms = 0 \<and> \<not> isAwaitingUserInput s")
  case True
  then show ?thesis by (simp add: send_def gbind_def gen_defs)
next
  case False
  have "send env ms s = (if th_completion s \<noteq> None
      then ([], s, Inl (InvalidAgentSendInputError (''thread '' @ ac_thread_id (th_config s) @ '' is already complete'')))
      else if th_busy s
      then ([], s, Inl (plain_error (''context is busy for thread '' @ ac_thread_id (th_config s))))
      else gfinally (send_body env ms) (th_busy_update (\<lambda>_. False)) (s\<lparr>th_busy := True\<rparr>))"
    using False by (auto simp: send_def throwIfContextBusy_def throwIfAlreadyComplete_def gthen_def gbind_def
        gen_defs split: prod.splits)
  moreover obtain tr s1 r where b: "send_body env ms (s\<lparr>th_busy := True\<rparr>) = (tr, s1, r)"
    by (cases "send_body env ms (s\<lparr>th_busy := True\<rparr>)")
  ultimately have "send env ms s = (tr, s1\<lparr>th_busy := False\<rparr>, r)" "r = Inr ()"
    using assms by (auto simp: gfinally_def split: if_splits)
  then show ?thesis using send_body_settles[of env ms _ tr s1] b by (simp add: awaiting_iff)
qed

section \<open>Witnesses\<close>

lemma send_batch_accepted_iff_witness:
  "validateInputMessageTypesGivenContext demo_pending [demo_approval] = Inr () \<and>
   set (approval_ids [demo_approval]) = set (map tc_id (getPendingApprovalToolCalls demo_pending)) \<and>
   validateInputMessageTypesGivenContext demo_pending [demo_approval, demo_approval] \<noteq> Inr ()"
proof -
  have ok: "validateInputMessageTypesGivenContext demo_pending [demo_approval] = Inr ()" by code_simp
  then have "set (approval_ids [demo_approval]) = set (map tc_id (getPendingApprovalToolCalls demo_pending))"
    unfolding send_batch_accepted_iff by blast
  moreover have "\<not> distinct (approval_ids [demo_approval, demo_approval])" by code_simp
  then have "validateInputMessageTypesGivenContext demo_pending [demo_approval, demo_approval] \<noteq> Inr ()"
    unfolding send_batch_accepted_iff by blast
  ultimately show ?thesis using ok by blast
qed

lemma derived_state_spec_witness:
  "deriveAgentThreadState demo_pending = User_input_required \<and> getOpenToolCallIds demo_pending \<noteq> []"
proof -
  have "deriveAgentThreadState demo_pending = User_input_required" by code_simp
  then show ?thesis using derived_state_spec[of demo_pending] by auto
qed

lemma send_settles_pending_witness:
  "isAwaitingUserInput (demo_thread None demo_pending) \<and>
   \<not> isAwaitingUserInput (final_of (send demo_env [demo_approval] (demo_thread None demo_pending)))"
proof -
  have "result_of (send demo_env [demo_approval] (demo_thread None demo_pending)) = Inr ()"
    "isAwaitingUserInput (demo_thread None demo_pending)" by code_simp+
  then show ?thesis using send_settles_pending by blast
qed

end
