(* ===== verification/Orchestrator.thy ===== *)
theory Orchestrator
  imports Agent_Thread
begin

text \<open>
  The threads of one turn: \<open>core/runtime/AgentThreadOrchestrator.ts\<close>, with \<open>mergeAsyncGenerators\<close> of
  \<open>core/util/promiseUtils.ts\<close>. A thread is a value of the map of live threads under its id; the user tool sets
  are objects that threads share, so they live in a store of their own and a thread has references to them.

  Up to five leaf threads run at the same time. A thread that runs is a list of what it still yields, each
  event with the state of the thread at that yield: a leaf is not the parent of a live thread, so nothing else
  writes it during its run. Which of the waiting threads answers next is a choice of the environment. A waiting
  thread may already have run to its next yield; the map shows it as of the last event it delivered. The
  tracing spans and the count of active threads, which only feed observability, are left out.
\<close>

section \<open>State\<close>

record user_tool_set =
  uts_name :: string
  uts_state :: tool_set_state

record orchestrator =
  orc_threads :: "(string, agent_thread) js_map"
  orc_finished :: agent_thread_metrics
  orc_set_refs :: "(string, nat list) js_map"
  orc_tool_sets :: "(nat, user_tool_set) js_map"
  orc_tick :: nat

record thread_created_event =
  tce_id :: string
  tce_created_at :: string
  tce_thread_id :: string
  tce_title :: string
  tce_parent :: agent_parent
  tce_agent_info :: agent_info

datatype execution_event =
    Thread_event thread_event
  | Thread_created thread_created_event
  | Registered_event json

text \<open>
  The world outside: the world of each thread, the factory of sub-agent threads (with the references of their
  tool sets), ids and clock, the abort signal, and the race between the waiting threads.
\<close>

record orc_env =
  oe_thread :: "string \<Rightarrow> agent_env"
  oe_create :: "nat \<Rightarrow> agent_config \<Rightarrow> nat list option \<Rightarrow> agent_info \<Rightarrow> string \<Rightarrow> agent_parent \<Rightarrow> thrown + (agent_thread \<times> nat list option)"
  oe_thread_id :: "nat \<Rightarrow> string"
  oe_id :: "nat \<Rightarrow> string"
  oe_now :: "nat \<Rightarrow> string"
  oe_aborted :: "nat \<Rightarrow> bool"
  oe_race :: "nat \<Rightarrow> nat"

type_synonym 'a orc_gen = "(orchestrator, execution_event, thrown, 'a) gen"

definition MAX_PARALLEL_SUB_AGENTS :: nat where "MAX_PARALLEL_SUB_AGENTS = 5"

definition CANCELED_BECAUSE_USER_SENT_NEW_MESSAGE :: string where
  "CANCELED_BECAUSE_USER_SENT_NEW_MESSAGE = ''Canceled because user sent a new message.''"

section \<open>Threads of the map\<close>

definition parent_ids :: "(string, agent_thread) js_map \<Rightarrow> string list" where
  "parent_ids m =
     List.map_filter (\<lambda>t. case ac_parent (th_config t) of None \<Rightarrow> None
       | Some p \<Rightarrow> if ap_thread_id p = '''' then None else Some (ap_thread_id p)) (js_values m)"

definition getActiveAgentThreads :: "(string, agent_thread) js_map \<Rightarrow> thrown + (string \<times> agent_thread) list" where
  "getActiveAgentThreads m =
     (let leaves = filter (\<lambda>kv. fst kv \<notin> set (parent_ids m)) m in
      if length leaves = 0 then Inl (plain_error ''We cannot have zero leave agents'') else Inr leaves)"

definition getMetrics :: "orchestrator \<Rightarrow> agent_thread_metrics" where
  "getMetrics s =
     fold (\<lambda>t total. addAgentThreadMetrics total (th_metrics t)) (js_values (orc_threads s))
       (addAgentThreadMetrics createEmptyAgentThreadMetrics (orc_finished s))"

definition is_root :: "agent_thread \<Rightarrow> bool" where
  "is_root t = (ac_parent (th_config t) = None)"

definition getMainThread :: "orchestrator \<Rightarrow> thrown + (string \<times> agent_thread)" where
  "getMainThread s =
     (case find (\<lambda>kv. is_root (snd kv)) (orc_threads s) of
        None \<Rightarrow> Inl (plain_error ''Unreachable: no root thread found'')
      | Some kv \<Rightarrow> Inr kv)"

definition getChildThreads :: "orchestrator \<Rightarrow> (string \<times> agent_thread) list" where
  "getChildThreads s = filter (\<lambda>kv. \<not> is_root (snd kv)) (orc_threads s)"

definition otick :: "nat orc_gen" where
  "otick = gbind gget (\<lambda>s. gthen (gmodify (orc_tick_update (\<lambda>n. n + 1))) (gret (orc_tick s)))"

definition put_thread :: "string \<Rightarrow> agent_thread \<Rightarrow> orchestrator \<Rightarrow> orchestrator" where
  "put_thread tid t = orc_threads_update (js_set tid t)"

text \<open>\<open>yield*\<close> of a generator of one thread, which writes the thread in place.\<close>

definition run_thread :: "string \<Rightarrow> 'a thread_gen \<Rightarrow> 'a orc_gen" where
  "run_thread tid g s =
     (case js_get (orc_threads s) tid of
        None \<Rightarrow> ([], s, Inl (plain_error (''AgentThreadOrchestrator.sendToThread: unknown threadId '' @ tid)))
      | Some t \<Rightarrow>
          (case g t of (tr, t', r) \<Rightarrow>
            (map (\<lambda>(e, st). (Thread_event e, put_thread tid st s)) tr, put_thread tid t' s, r)))"

definition sendToThread :: "orc_env \<Rightarrow> string \<Rightarrow> send_input list \<Rightarrow> unit orc_gen" where
  "sendToThread env tid ms = run_thread tid (send (oe_thread env tid) ms)"

section \<open>Approval policies\<close>

definition getUserToolSets :: "orchestrator \<Rightarrow> string \<Rightarrow> nat list" where
  "getUserToolSets s tid = (case js_get (orc_set_refs s) tid of None \<Rightarrow> [] | Some rs \<Rightarrow> rs)"

definition named_set :: "orchestrator \<Rightarrow> string \<Rightarrow> nat \<Rightarrow> bool" where
  "named_set s name r =
     (case js_get (orc_tool_sets s) r of None \<Rightarrow> False | Some ts \<Rightarrow> uts_name ts = name)"

text \<open>The references of all live threads, thread by thread.\<close>

definition all_user_sets :: "orchestrator \<Rightarrow> nat list" where
  "all_user_sets s = concat (map (getUserToolSets s) (js_keys (orc_threads s)))"

definition set_policy :: "tool_approval_policy_item \<Rightarrow> nat \<Rightarrow> orchestrator \<Rightarrow> orchestrator" where
  "set_policy p r s =
     (case js_get (orc_tool_sets s) r of
        None \<Rightarrow> s
      | Some ts \<Rightarrow>
          if uts_name ts = tpi_server_name p
          then s\<lparr>orc_tool_sets := js_set r (ts\<lparr>uts_state := setApprovalPolicy (tpi_name p) (tpi_action p) (uts_state ts)\<rparr>)
                   (orc_tool_sets s)\<rparr>
          else s)"

fun policy_errors :: "orchestrator \<Rightarrow> nat \<Rightarrow> tool_approval_policy_item list \<Rightarrow> string list" where
  "policy_errors s i [] = []"
| "policy_errors s i (p # ps) =
     (if \<not> list_ex (named_set s (tpi_server_name p)) (all_user_sets s)
      then [''policies['' @ show_nat i @ '']: unknown server_name '' @ CHR 0x27 # tpi_server_name p @ [CHR 0x27]]
      else []) @ policy_errors s (i + 1) ps"

definition applyApprovalPolicies :: "tool_approval_policy_item list \<Rightarrow> orchestrator \<Rightarrow> orchestrator \<times> string list" where
  "applyApprovalPolicies ps s =
     (let errors = policy_errors s 0 ps in
      if length errors > 0 then (s, errors)
      else (fold (\<lambda>p s. fold (set_policy p) (all_user_sets s) s) ps s, []))"

section \<open>Sending\<close>

text \<open>\<open>for (const event of g) \<open>{ yield event; ... }\<close>\<close>, with the events as the result.\<close>

definition each_event :: "unit orc_gen \<Rightarrow> execution_event list orc_gen" where
  "each_event g s = (case g s of (tr, t, r) \<Rightarrow> (tr, t, case r of Inl e \<Rightarrow> Inl e | Inr u \<Rightarrow> Inr (map fst tr)))"

fun closure_of :: "execution_event \<Rightarrow> (string, llm_tool_message) js_map \<Rightarrow> (string, llm_tool_message) js_map" where
  "closure_of (Thread_event (Append_context e)) m =
     (case tae_completion e of None \<Rightarrow> m | Some c \<Rightarrow> js_set (tm_tool_call_id (send_to_parent c)) (send_to_parent c) m)"
| "closure_of e m = m"

text \<open>The loop that cancels the sub-agents, with the messages that close their calls.\<close>

fun cancel_children ::
    "(string \<times> agent_thread) list \<Rightarrow> (string, llm_tool_message) js_map
       \<Rightarrow> (string, llm_tool_message) js_map orc_gen" where
  "cancel_children [] closures = gret closures"
| "cancel_children ((tid, t) # ts) closures =
     gbind (each_event (run_thread tid (cancel CANCELED_BECAUSE_USER_SENT_NEW_MESSAGE))) (\<lambda>es.
       cancel_children ts (fold closure_of es closures))"

definition send_user_messages :: "orc_env \<Rightarrow> send_input list \<Rightarrow> unit orc_gen" where
  "send_user_messages env ms =
     gbind gget (\<lambda>s.
     gbind (glift (getMainThread s)) (\<lambda>(main, t).
     gbind (cancel_children (getChildThreads s) []) (\<lambda>closures.
     gthen (run_thread main (closeAllOpenToolCalls closures CANCELED_BECAUSE_USER_SENT_NEW_MESSAGE))
       (sendToThread env main ms))))"

fun message_thread_id :: "send_input \<Rightarrow> string option" where
  "message_thread_id (Send_approval m) = Some (uta_thread_id m)"
| "message_thread_id (Send_response m) = Some (utr_thread_id m)"
| "message_thread_id m = None"

definition isUserToolApprovalOrResponseBatch :: "send_input list \<Rightarrow> bool" where
  "isUserToolApprovalOrResponseBatch ms =
     (case ms of [] \<Rightarrow> False | m # rest \<Rightarrow> isApprovalDecisionMessage m \<or> isClientSideToolResponseMessage m)"

fun group_messages ::
    "string list \<Rightarrow> send_input list \<Rightarrow> (string, send_input list) js_map \<Rightarrow> thrown + (string, send_input list) js_map" where
  "group_messages known [] grouped = Inr grouped"
| "group_messages known (m # ms) grouped =
     (let tid = (case message_thread_id m of Some i \<Rightarrow> i | None \<Rightarrow> ''undefined'') in
      if message_thread_id m = None \<or> tid \<notin> set known
      then Inl (InvalidAgentSendInputError (''unknown thread_id: '' @ tid))
      else group_messages known ms
        (js_set tid ((case js_get grouped tid of None \<Rightarrow> [] | Some b \<Rightarrow> b) @ [m]) grouped))"

text \<open>The batch of every live thread.\<close>

definition batches_by_thread ::
    "orchestrator \<Rightarrow> send_input list \<Rightarrow> thrown + (string, send_input list) js_map" where
  "batches_by_thread s ms =
     (let byThread = fold (\<lambda>tid. js_set tid []) (js_keys (orc_threads s)) [] in
      if isUserToolApprovalOrResponseBatch ms
      then bindE (group_messages (js_keys byThread) ms []) (\<lambda>grouped.
             Inr (fold (\<lambda>(tid, batch). js_set tid batch) grouped byThread))
      else if length ms > 0
      then bindE (getMainThread s) (\<lambda>(main, t). Inr (js_set main ms byThread))
      else Inr byThread)"

fun validation_errors ::
    "orchestrator \<Rightarrow> (string \<times> send_input list) list \<Rightarrow> string list \<Rightarrow> thrown + string list" where
  "validation_errors s [] errors = Inr errors"
| "validation_errors s ((tid, batch) # rest) errors =
     (case js_get (orc_threads s) tid of
        None \<Rightarrow> Inl (plain_error (''AgentThreadOrchestrator.send: unknown threadId '' @ tid))
      | Some t \<Rightarrow>
          (case result_of (validateSendInput batch t) of
             Inr u \<Rightarrow> validation_errors s rest errors
           | Inl e \<Rightarrow>
               (case e of
                  Thrown (Harness_class code) m cause \<Rightarrow>
                    if code = ''invalid_send_input''
                    then validation_errors s rest (errors @ [''thread '' @ tid @ '': '' @ m])
                    else Inl e
                | _ \<Rightarrow> Inl e)))"

definition send_batches :: "orc_env \<Rightarrow> send_input list \<Rightarrow> unit orc_gen" where
  "send_batches env ms =
     gbind gget (\<lambda>s.
     gbind (glift (batches_by_thread s ms)) (\<lambda>byThread.
     gbind (glift (validation_errors s byThread [])) (\<lambda>errors.
     gthen (glift (guardE (length errors > 0) (InvalidAgentSendInputError (join ''; '' errors))))
       (gfor byThread (\<lambda>(tid, batch). sendToThread env tid batch)))))"

definition orc_send :: "orc_env \<Rightarrow> send_input list \<Rightarrow> unit orc_gen" where
  "orc_send env ms = (if list_ex isInputUserMessage ms then send_user_messages env ms else send_batches env ms)"

section \<open>One event of a thread\<close>

fun event_thread_id :: "thread_event \<Rightarrow> string option" where
  "event_thread_id (Model_message m) = Some (mme_thread_id m)"
| "event_thread_id (Model_delta m) = Some (mde_thread_id m)"
| "event_thread_id (Tool_response m) = Some (tre_thread_id m)"
| "event_thread_id (Create_sub_agent m) = Some (csa_thread_id m)"
| "event_thread_id (Append_context m) = Some (tae_thread_id m)"
| "event_thread_id (Overwrite_context m) = Some (toc_thread_id m)"
| "event_thread_id (Compaction_started tid v) = Some tid"
| "event_thread_id (Compaction_finished tid v) = Some tid"
| "event_thread_id (Thread_done m) = Some (de_thread_id m)"
| "event_thread_id (Auth_required m) = None"
| "event_thread_id (Capability_state tid k v) = Some tid"
| "event_thread_id (Mcp_initialize m) = Some (mie_thread_id m)"
| "event_thread_id (Sandbox_created m) = None"
| "event_thread_id (Approval_required m) = Some (tcre_thread_id m)"
| "event_thread_id (Response_required m) = Some (tcre_thread_id m)"
| "event_thread_id (Passthrough v) = None"

definition deliver_completion :: "orc_env \<Rightarrow> agent_parent \<Rightarrow> llm_tool_message \<Rightarrow> unit orc_gen" where
  "deliver_completion env p m =
     gbind otick (\<lambda>n.
     gthen (gyield (Thread_event (Tool_response
        \<lparr>tre_id = oe_id env n, tre_created_at = oe_now env n, tre_thread_id = ap_thread_id p,
         tre_tool_call_id = tm_tool_call_id m, tre_content = ''''\<rparr>)))
       (sendToThread env (ap_thread_id p) [Send_tool m]))"

text \<open>The metrics move and the thread goes, with no yield in between.\<close>

definition finish_thread :: "string \<Rightarrow> orchestrator \<Rightarrow> orchestrator" where
  "finish_thread tid s =
     (case js_get (orc_threads s) tid of
        None \<Rightarrow> s
      | Some t \<Rightarrow> s\<lparr>orc_finished := addAgentThreadMetrics (orc_finished s) (th_metrics t),
                    orc_threads := js_delete tid (orc_threads s)\<rparr>)"

definition process_done :: "orc_env \<Rightarrow> thread_done_event \<Rightarrow> bool orc_gen" where
  "process_done env d =
     (case de_parent d of
        None \<Rightarrow> gthen (gyield (Thread_event (Thread_done d))) (gret True)
      | Some p \<Rightarrow>
          gbind gget (\<lambda>s.
          case js_get (orc_threads s) (ap_thread_id p) of
            None \<Rightarrow> gthrow (plain_error ''unreachable: parent thread missing'')
          | Some parent \<Rightarrow>
              gthen
                (if hasOpenToolCallId parent (ap_tool_call_id p)
                 then (case de_send_to_parent d of
                         None \<Rightarrow> gthrow (plain_error ''Cannot read properties of undefined'')
                       | Some m \<Rightarrow> deliver_completion env p m)
                 else gret ())
              (gthen (gyield (Thread_event (Thread_done d)))
              (gthen (gmodify (finish_thread (de_thread_id d))) (gret False)))))"

text \<open>The tool sets of a new thread; a definition may have none.\<close>

definition with_sets :: "string \<Rightarrow> nat list option \<Rightarrow> (string, nat list) js_map \<Rightarrow> (string, nat list) js_map" where
  "with_sets tid refs m = (case refs of None \<Rightarrow> m | Some rs \<Rightarrow> js_set tid rs m)"

definition process_create ::
    "orc_env \<Rightarrow> create_sub_agent \<Rightarrow> agent_thread \<Rightarrow> nat list option \<Rightarrow> bool orc_gen" where
  "process_create env c current sets =
     (let parent = \<lparr>ap_thread_id = csa_thread_id c, ap_tool_call_id = csa_tool_call_id c\<rparr> in
      gbind otick (\<lambda>n.
      gbind (glift (oe_create env n (th_config current) sets (csa_agent_info c) (oe_thread_id env n) parent)) (\<lambda>(t, refs).
      gbind otick (\<lambda>k.
      gthen (gyield (Thread_created
        \<lparr>tce_id = oe_id env k, tce_created_at = oe_now env k, tce_thread_id = oe_thread_id env n,
         tce_title = ai_name (csa_agent_info c), tce_parent = parent, tce_agent_info = csa_agent_info c\<rparr>))
      (gthen (gmodify (\<lambda>s. s\<lparr>orc_threads := js_set (oe_thread_id env n) t (orc_threads s),
                              orc_set_refs := with_sets (oe_thread_id env n) refs (orc_set_refs s)\<rparr>))
        (gret False))))))"

text \<open>The result says whether the execution must stop.\<close>

definition processAgentStreamChunk :: "orc_env \<Rightarrow> thread_event \<Rightarrow> bool orc_gen" where
  "processAgentStreamChunk env e =
     (case e of
        Passthrough v \<Rightarrow> gthen (gyield (Registered_event v)) (gret False)
      | _ \<Rightarrow>
        (case event_thread_id e of
           None \<Rightarrow> gthen (gyield (Thread_event e)) (gret False)
         | Some tid \<Rightarrow>
             gbind gget (\<lambda>s.
             case js_get (orc_threads s) tid of
               None \<Rightarrow> gthrow (plain_error ''unreachable'')
             | Some current \<Rightarrow>
                 (case e of
                    Approval_required r \<Rightarrow> gthen (gyield (Thread_event e)) (gret True)
                  | Response_required r \<Rightarrow> gthen (gyield (Thread_event e)) (gret True)
                  | Thread_done d \<Rightarrow> process_done env d
                  | Create_sub_agent c \<Rightarrow> process_create env c current (js_get (orc_set_refs s) tid)
                  | _ \<Rightarrow> gthen (gyield (Thread_event e)) (gret False)))))"

section \<open>Execution\<close>

text \<open>The local variables of \<open>execute\<close>; the error of the root is its text and its message.\<close>

record exec_locals =
  xl_stop :: bool
  xl_output :: "model_message_event option"
  xl_required :: "action_required_event list"
  xl_root_error :: "(string \<times> model_message_event option) option"
  xl_auth :: "internal_auth_event list"

definition initial_locals :: exec_locals where
  "initial_locals =
     \<lparr>xl_stop = False, xl_output = None, xl_required = [], xl_root_error = None, xl_auth = []\<rparr>"

fun agentThreadEventToTerminalFields ::
    "thread_event \<Rightarrow> model_message_event option \<times> action_required_event option" where
  "agentThreadEventToTerminalFields (Thread_done d) =
     (if de_parent d \<noteq> None then (None, None)
      else case de_status d of Done_ok out \<Rightarrow> (Some out, None) | _ \<Rightarrow> (None, None))"
| "agentThreadEventToTerminalFields (Approval_required r) = (None, Some (Tool_approval_required r))"
| "agentThreadEventToTerminalFields (Response_required r) = (None, Some (Tool_response_required r))"
| "agentThreadEventToTerminalFields e = (None, None)"

fun root_error_of :: "thread_event \<Rightarrow> (string \<times> model_message_event option) option" where
  "root_error_of (Thread_done d) =
     (if de_parent d \<noteq> None then None
      else case de_status d of Done_error msg out \<Rightarrow> Some (msg, out) | _ \<Rightarrow> None)"
| "root_error_of e = None"

definition record_terminal :: "thread_event \<Rightarrow> exec_locals \<Rightarrow> exec_locals" where
  "record_terminal e l =
     (case agentThreadEventToTerminalFields e of (out, action) \<Rightarrow>
       l\<lparr>xl_stop := True,
         xl_root_error := (case xl_root_error l of None \<Rightarrow> root_error_of e | Some x \<Rightarrow> Some x),
         xl_output := (case out of None \<Rightarrow> xl_output l | Some m \<Rightarrow> Some m),
         xl_required := xl_required l @ (case action of None \<Rightarrow> [] | Some a \<Rightarrow> [a])\<rparr>)"

definition handle_event :: "orc_env \<Rightarrow> thread_event \<Rightarrow> exec_locals \<Rightarrow> exec_locals orc_gen" where
  "handle_event env e l =
     (case e of
        Auth_required a \<Rightarrow> gret (l\<lparr>xl_auth := xl_auth l @ [a], xl_stop := True\<rparr>)
      | _ \<Rightarrow> gbind (processAgentStreamChunk env e) (\<lambda>stop. gret (if stop then record_terminal e l else l)))"

text \<open>A thread that runs: what it still yields, its state at the end and how it ends.\<close>

record live_run =
  lr_id :: string
  lr_steps :: "(thread_event \<times> agent_thread) list"
  lr_final :: agent_thread
  lr_end :: "thrown + unit"

text \<open>
  \<open>wrapWithSubAgentSpan\<close> and \<open>wrapThreadWithContext\<close>: a sub-agent without its description throws at once. The
  thread is the object of the list of active threads, in the state it has now.
\<close>

definition start_run :: "orc_env \<Rightarrow> orchestrator \<Rightarrow> string \<times> agent_thread \<Rightarrow> live_run" where
  "start_run env s kv =
     (case kv of (tid, listed) \<Rightarrow>
        let t = (case js_get (orc_threads s) tid of None \<Rightarrow> listed | Some now \<Rightarrow> now) in
        if \<not> is_root t \<and> ac_agent_info (th_config t) = None
        then \<lparr>lr_id = tid, lr_steps = [], lr_final = t,
              lr_end = Inl (plain_error ''Sub-agent thread is missing agentInfo'')\<rparr>
        else case execute (oe_thread env tid) t of (tr, fin, r) \<Rightarrow>
          \<lparr>lr_id = tid, lr_steps = tr, lr_final = fin, lr_end = r\<rparr>)"

text \<open>A thread that has left the map runs on outside of it.\<close>

definition advance_thread :: "string \<Rightarrow> agent_thread \<Rightarrow> orchestrator \<Rightarrow> orchestrator" where
  "advance_thread tid t s = (if js_has (orc_threads s) tid then put_thread tid t s else s)"

definition remove_at :: "nat \<Rightarrow> 'a list \<Rightarrow> 'a list" where
  "remove_at k xs = take k xs @ drop (Suc k) xs"

definition pending_size :: "live_run list \<Rightarrow> nat" where
  "pending_size rs = sum_list (map (\<lambda>r. Suc (length (lr_steps r))) rs)"

lemma pending_append [simp]: "pending_size (xs @ ys) = pending_size xs + pending_size ys"
  by (simp add: pending_size_def)

lemma pending_Cons [simp]: "pending_size (r # rs) = Suc (length (lr_steps r)) + pending_size rs"
  by (simp add: pending_size_def)

lemma pending_split:
  "k < length rs \<Longrightarrow>
     pending_size rs = pending_size (take k rs) + (Suc (length (lr_steps (rs ! k))) + pending_size (drop (Suc k) rs))"
  using arg_cong[OF id_take_nth_drop, of k rs pending_size] by simp

lemma pending_remove: "k < length rs \<Longrightarrow> pending_size (remove_at k rs) < pending_size rs"
  using pending_split[of k rs] by (simp add: remove_at_def)

lemma pending_update:
  "k < length rs \<Longrightarrow> lr_steps (rs ! k) = x # rest \<Longrightarrow>
     pending_size (rs[k := (rs ! k)\<lparr>lr_steps := rest\<rparr>]) < pending_size rs"
  using pending_split[of k rs] by (simp add: upd_conv_take_nth_drop)

text \<open>\<open>for await\<close> over the merged generators, with the body of the loop.\<close>

function merge_loop :: "orc_env \<Rightarrow> live_run list \<Rightarrow> exec_locals \<Rightarrow> exec_locals orc_gen" where
  "merge_loop env rs l =
     (if rs = [] then gret l
      else gbind otick (\<lambda>n.
        let k = oe_race env n mod length rs; r = rs ! k in
        case lr_steps r of
          [] \<Rightarrow>
            gthen (gmodify (advance_thread (lr_id r) (lr_final r)))
            (gthen (glift (lr_end r)) (merge_loop env (remove_at k rs) l))
        | (e, st) # rest \<Rightarrow>
            gthen (gmodify (advance_thread (lr_id r) st))
            (gbind (handle_event env e l) (\<lambda>l'. merge_loop env (rs[k := r\<lparr>lr_steps := rest\<rparr>]) l'))))"
  by pat_completeness auto
termination
  by (relation "measure (\<lambda>(env, rs, l). pending_size rs)") (auto simp: pending_remove pending_update)

declare merge_loop.simps [simp del]

definition check_stop :: "orc_env \<Rightarrow> exec_locals \<Rightarrow> exec_locals orc_gen" where
  "check_stop env l = gbind otick (\<lambda>n. gret (if oe_aborted env n then l\<lparr>xl_stop := True\<rparr> else l))"

function slices :: "'a list \<Rightarrow> 'a list list" where
  "slices xs =
     (if xs = [] then [] else take MAX_PARALLEL_SUB_AGENTS xs # slices (drop MAX_PARALLEL_SUB_AGENTS xs))"
  by pat_completeness auto
termination
  by (relation "measure length") (auto simp: MAX_PARALLEL_SUB_AGENTS_def)

declare slices.simps [simp del]

fun run_slices :: "orc_env \<Rightarrow> (string \<times> agent_thread) list list \<Rightarrow> exec_locals \<Rightarrow> exec_locals orc_gen" where
  "run_slices env [] l = gret l"
| "run_slices env (b # bs) l =
     gbind (check_stop env l) (\<lambda>l1.
       if xl_stop l1 then gret l1
       else gbind gget (\<lambda>s.
         gbind (merge_loop env (map (start_run env s) b) l1) (run_slices env bs)))"

text \<open>The outer loop may go on for ever, sub-agent after sub-agent: \<open>None\<close> when the fuel is used up.\<close>

fun exec_loop :: "nat \<Rightarrow> orc_env \<Rightarrow> exec_locals \<Rightarrow> exec_locals option orc_gen" where
  "exec_loop 0 env l = gret None"
| "exec_loop (Suc fuel) env l =
     gbind gget (\<lambda>s.
       if orc_threads s = [] then gret (Some l)
       else gbind (check_stop env l) (\<lambda>l1.
         if xl_stop l1 then gret (Some l1)
         else gbind gget (\<lambda>s1.
           gbind (glift (getActiveAgentThreads (orc_threads s1))) (\<lambda>active.
           gbind (run_slices env (slices active) l1) (exec_loop fuel env)))))"

fun merge_auth_servers ::
    "internal_auth_info list \<Rightarrow> (string, internal_auth_info) js_map \<Rightarrow> (string, internal_auth_info) js_map" where
  "merge_auth_servers [] m = m"
| "merge_auth_servers (x # xs) m =
     merge_auth_servers xs
       (case js_get m (msa_id (iai_server x)) of
          None \<Rightarrow> js_set (msa_id (iai_server x)) x m
        | Some old \<Rightarrow> js_set (msa_id (iai_server x)) (old\<lparr>iai_thread_ids := iai_thread_ids old @ iai_thread_ids x\<rparr>) m)"

definition mergeAuthEvents :: "string \<Rightarrow> string \<Rightarrow> internal_auth_event list \<Rightarrow> internal_auth_event" where
  "mergeAuthEvents i now es =
     \<lparr>iae_id = i, iae_created_at = now,
      iae_servers = js_values (merge_auth_servers (concat (map iae_servers es)) [])\<rparr>"

record execution_result =
  xr_output :: "model_message_event option"
  xr_required_actions :: "action_required_event list"
  xr_root_agent_error :: "(string \<times> model_message_event option) option"

definition finish_execution :: "orc_env \<Rightarrow> exec_locals \<Rightarrow> execution_result orc_gen" where
  "finish_execution env l =
     gbind
       (if length (xl_auth l) > 0
        then gbind otick (\<lambda>n.
          let a = mergeAuthEvents (oe_id env n) (oe_now env n) (xl_auth l) in
          gthen (gyield (Thread_event (Auth_required a)))
            (gret (xl_required l @ [Mcp_auth_required
              \<lparr>mare_id = iae_id a, mare_created_at = iae_created_at a, mare_thread_id = None,
               mare_mcp_servers = map iai_server (iae_servers a)\<rparr>])))
        else gret (xl_required l)) (\<lambda>actions.
     gret \<lparr>xr_output = xl_output l, xr_required_actions = actions, xr_root_agent_error = xl_root_error l\<rparr>)"

definition orc_execute :: "nat \<Rightarrow> orc_env \<Rightarrow> execution_result option orc_gen" where
  "orc_execute fuel env =
     gbind gget (\<lambda>s.
     gbind (glift (getMainThread s)) (\<lambda>main.
     gbind (exec_loop fuel env initial_locals) (\<lambda>out.
       case out of None \<Rightarrow> gret None | Some l \<Rightarrow> gbind (finish_execution env l) (\<lambda>r. gret (Some r)))))"

end
