(* ===== verification/Agent_Thread_Phases.thy ===== *)
theory Agent_Thread_Phases
  imports Agent_Thread_Props
begin

text \<open>
  A run of a thread either ends the thread or asks for sub-agents, never both: what the orchestrator needs to
  keep the tree of its threads whole. The requests come last in a tool step, and the run exits after them.
\<close>

fun is_create :: "thread_event \<Rightarrow> bool" where
  "is_create (Create_sub_agent c) = True"
| "is_create e = False"

lemma plain_no_create [simp]: "is_plain e \<Longrightarrow> \<not> is_create e" "writes_context tid e \<Longrightarrow> \<not> is_create e"
  by (cases e; simp)+

lemma error_no_create [simp]: "\<not> is_create (generateErrorEvent s msg out)"
  by (simp add: generateErrorEvent_def done_event_def)

lemma replay_no_create: "buildReplayEvent s c = Inr e \<Longrightarrow> \<not> is_create e"
  by (auto simp: buildReplayEvent_def bindE_Inr_iff done_event_def)

interpretation plain_step: step_observer "\<lambda>s. th_config s = c" "\<lambda>e. \<not> is_create e \<and> \<not> is_done e" for c
  by unfold_locales simp_all

interpretation childless: llm_observer "\<lambda>s. th_config s = c" "\<lambda>e. \<not> is_create e" for c
  by unfold_locales simp_all

definition neutral :: "('s, thread_event, 'x, 'a) gen \<Rightarrow> bool" where
  "neutral g = (\<forall>s. \<forall>e \<in> set (events_of (g s)). \<not> is_create e \<and> \<not> is_done e)"

text \<open>Either no request for a sub-agent, or no end of the thread and a result with \<open>S\<close>.\<close>

definition forks :: "('x + 'a \<Rightarrow> bool) \<Rightarrow> ('s, thread_event, 'x, 'a) gen \<Rightarrow> bool" where
  "forks S g =
     (\<forall>s. (\<forall>e \<in> set (events_of (g s)). \<not> is_create e) \<or>
        ((\<forall>e \<in> set (events_of (g s)). \<not> is_done e) \<and> S (result_of (g s))))"

lemma neutral_maintains: "(\<And>c. maintains (\<lambda>s. th_config s = c) (\<lambda>e. \<not> is_create e \<and> \<not> is_done e) g) \<Longrightarrow> neutral g"
  by (auto simp: neutral_def maintains_def)

lemma childless_maintains: "(\<And>c. maintains (\<lambda>s. th_config s = c) (\<lambda>e. \<not> is_create e) g) \<Longrightarrow> forks S g"
  by (auto simp: forks_def maintains_def)

lemma neutral_basic: "neutral (gret a)" "neutral (gthrow x)" "neutral (glift r)" "neutral gget" "neutral (gmodify f)"
  by (simp_all add: neutral_def gen_defs)

lemma neutral_case:
  "(c \<Longrightarrow> neutral g1) \<Longrightarrow> (\<not> c \<Longrightarrow> neutral g2) \<Longrightarrow> neutral (if c then g1 else g2)"
  by simp

lemma forks_neutral: "neutral g \<Longrightarrow> forks S g"
  by (auto simp: neutral_def forks_def)

lemma forks_bind:
  assumes "neutral g" and "\<And>a. forks S (h a)"
  shows "forks S (gbind g h)"
  unfolding forks_def
proof
  fix s
  have g: "\<forall>e \<in> set (events_of (g s)). \<not> is_create e \<and> \<not> is_done e" using assms(1) by (simp add: neutral_def)
  show "(\<forall>e \<in> set (events_of (gbind g h s)). \<not> is_create e) \<or>
      ((\<forall>e \<in> set (events_of (gbind g h s)). \<not> is_done e) \<and> S (result_of (gbind g h s)))"
  proof (cases "result_of (g s)")
    case (Inr a)
    have "(\<forall>e \<in> set (events_of (h a (final_of (g s)))). \<not> is_create e) \<or>
        ((\<forall>e \<in> set (events_of (h a (final_of (g s)))). \<not> is_done e) \<and> S (result_of (h a (final_of (g s)))))"
      using assms(2)[of a] by (simp add: forks_def)
    then show ?thesis using g Inr by (auto simp: gbind_run)
  qed (use g in \<open>auto simp: gbind_run\<close>)
qed

lemma forks_then: "neutral g \<Longrightarrow> forks S h \<Longrightarrow> forks S (gthen g h)"
  by (simp add: gthen_def forks_bind)

lemma forks_map: "forks S g \<Longrightarrow> (\<And>r. S r \<Longrightarrow> \<exists>a. r = Inr a \<and> S' (Inr (k a))) \<Longrightarrow> forks S' (gbind g (\<lambda>a. gret (k a)))"
  unfolding forks_def gbind_run gret_def by (fastforce split: sum.splits)

lemma forks_case:
  "(x = None \<Longrightarrow> forks S g) \<Longrightarrow> (\<And>y. x = Some y \<Longrightarrow> forks S (h y)) \<Longrightarrow> forks S (case x of None \<Rightarrow> g | Some y \<Rightarrow> h y)"
  "(c \<Longrightarrow> forks S g1) \<Longrightarrow> (\<not> c \<Longrightarrow> forks S g2) \<Longrightarrow> forks S (if c then g1 else g2)"
  "(\<And>a b. forks S (k a b)) \<Longrightarrow> forks S (case p of (a, b) \<Rightarrow> k a b)"
  by (auto split: option.splits prod.splits)

lemma create_events:
  "gfor xs (\<lambda>c. gyield (Create_sub_agent c)) s = (map (\<lambda>c. (Create_sub_agent c, s)) xs, s, Inr ())"
  by (induction xs) (simp_all add: gbind_def gen_defs)

lemma forks_creates:
  "(xs \<noteq> [] \<Longrightarrow> S (Inr a)) \<Longrightarrow> forks S (gthen (gfor xs (\<lambda>c. gyield (Create_sub_agent c))) (gret a))"
  by (cases "xs = []") (auto simp: forks_def gthen_def gbind_def gret_def create_events)

lemmas neutral_steps = plain_step.kept_tick plain_step.kept_aborted plain_step.kept_processors
  plain_step.kept_append plain_step.kept_drain plain_step.kept_derive plain_step.kept_user plain_step.kept_init
  plain_step.kept_init_event plain_step.kept_auth_event plain_step.kept_sandbox plain_step.kept_responses
  plain_step.plain

lemma neutral_yield: "\<not> is_create e \<Longrightarrow> \<not> is_done e \<Longrightarrow> neutral (gyield e)"
  by (simp add: neutral_def gen_defs)

lemma neutral_results:
  "neutral (if b then yield_built Mcp_initialize (buildMCPInitializeEvent env infos tid) else gret ())"
  "neutral (gfor vs (\<lambda>v. gyield (Passthrough v)) :: unit thread_gen)"
  "neutral (gmap results (tool_response_event_of env tid))"
  "neutral (gfor evs (\<lambda>e. gyield (Tool_response e)) :: unit thread_gen)"
proof -
  show "neutral (if b then yield_built Mcp_initialize (buildMCPInitializeEvent env infos tid) else gret ())"
    by (intro neutral_case neutral_basic neutral_maintains neutral_steps)
  show "neutral (gfor vs (\<lambda>v. gyield (Passthrough v)) :: unit thread_gen)"
    by (rule neutral_maintains, rule maintains_for, rule maintains_yield) simp
  show "neutral (gfor evs (\<lambda>e. gyield (Tool_response e)) :: unit thread_gen)"
    by (rule neutral_maintains, rule maintains_for, rule maintains_yield) simp
  show "neutral (gmap results (tool_response_event_of env tid))"
    unfolding tool_response_event_of_def
    by (intro neutral_maintains plain_step.kept_intro plain_step.kept_tick)
qed

lemmas forks_ret = forks_neutral[OF neutral_basic(1)]

lemma forks_settle: "forks (\<lambda>r. r = Inr Exit) (settle_tool_step env s r)"
  unfolding settle_tool_step_def Let_def
  by ((rule forks_creates forks_ret forks_case(2) neutral_results neutral_basic forks_then forks_bind
      neutral_maintains neutral_steps | simp)+)

lemma forks_tool: "forks (\<lambda>r. \<exists>i. r = Inr (Exit, i)) (tool_turn env mapping source)"
proof -
  have "forks (\<lambda>r. r = Inr Exit) (stepToolResponse env mapping)"
    unfolding stepToolResponse_def Let_def
    by (intro forks_case forks_then forks_bind forks_settle neutral_basic neutral_maintains neutral_steps
        forks_neutral)
  then have f: "forks (\<lambda>r. \<exists>i. r = Inr (Exit, i))
      (gbind (stepToolResponse env mapping) (\<lambda>outcome. gret (outcome, source)))"
    by (rule forks_map) simp
  show ?thesis unfolding tool_turn_def
    by (rule f forks_ret forks_case(2) forks_bind neutral_maintains neutral_steps)+
qed

lemma forks_body: "forks (\<lambda>r. \<exists>i. r = Inr (Exit, i)) (loop_body env tools mapping source)"
proof -
  have "forks (\<lambda>r. \<exists>i. r = Inr (Exit, i)) (gbind (stepUserInputRequired env source) (\<lambda>outcome. gret (outcome, source)))"
    by (intro forks_bind forks_neutral neutral_basic neutral_maintains neutral_steps)
  then have "forks (\<lambda>r. \<exists>i. r = Inr (Exit, i)) (case n of
         Llm_call_required \<Rightarrow> llm_turn env tools mapping source
       | Tool_response_required_state \<Rightarrow> tool_turn env mapping source
       | User_input_required \<Rightarrow> gbind (stepUserInputRequired env source) (\<lambda>outcome. gret (outcome, source)))" for n
    using forks_tool childless_maintains[OF childless.kept_llm_turn] by (cases n) auto
  then show ?thesis unfolding loop_body_def
    by (intro forks_then forks_bind neutral_maintains neutral_steps)
qed

lemma forks_loop: "forks (\<lambda>r. r = Inr ()) (thread_loop env tools mapping source)"
  unfolding forks_def
proof
  fix s
  show "(\<forall>e \<in> set (events_of (thread_loop env tools mapping source s)). \<not> is_create e) \<or>
      ((\<forall>e \<in> set (events_of (thread_loop env tools mapping source s)). \<not> is_done e) \<and>
        result_of (thread_loop env tools mapping source s) = Inr ())"
  proof (induction env tools mapping source s rule: thread_loop.induct)
    case (1 env tools mapping source s)
    obtain tr s1 r where b: "loop_body env tools mapping source s = (tr, s1, r)"
      by (cases "loop_body env tools mapping source s")
    have f: "(\<forall>e \<in> set (map fst tr). \<not> is_create e) \<or> ((\<forall>e \<in> set (map fst tr). \<not> is_done e) \<and> (\<exists>i. r = Inr (Exit, i)))"
      using forks_body[of env tools mapping source, unfolded forks_def, rule_format, of s] b by simp
    have d: "(\<forall>e \<in> set (map fst tr). \<not> is_done e) \<or> (\<exists>i. r = Inr (Exit, i))"
      using ends_body[of env tools mapping source, unfolded ends_def, rule_format, of s] b by auto
    show ?case
    proof (cases "\<exists>source'. r = Inr (Continue, source')")
      case True
      then obtain source' where r: "r = Inr (Continue, source')" by blast
      obtain tr2 s2 r2 where t: "thread_loop env tools mapping source' s1 = (tr2, s2, r2)"
        by (cases "thread_loop env tools mapping source' s1")
      have "(\<forall>e \<in> set (map fst tr2). \<not> is_create e) \<or> ((\<forall>e \<in> set (map fst tr2). \<not> is_done e) \<and> r2 = Inr ())"
        using 1 b r t by fastforce
      moreover have "thread_loop env tools mapping source s = (tr @ tr2, s2, r2)"
        using b r t by (subst thread_loop.simps) simp
      moreover have "\<forall>e \<in> set (map fst tr). \<not> is_create e" "\<forall>e \<in> set (map fst tr). \<not> is_done e"
        using f d r by auto
      ultimately show ?thesis by auto
    next
      case False
      then have "thread_loop env tools mapping source s =
          (tr, s1, case r of Inl x \<Rightarrow> Inl x | Inr p \<Rightarrow> Inr ())"
        using b by (subst thread_loop.simps) (auto split: sum.splits prod.splits step_outcome.splits)
      then show ?thesis using f by auto
    qed
  qed
qed

lemma forks_replay: "forks S (gbind (glift (buildReplayEvent s c)) gyield)"
  using replay_no_create[of s c]
  by (cases "buildReplayEvent s c") (auto simp: forks_def gbind_run gen_defs)

lemma forks_execute_body: "forks (\<lambda>r. r = Inr ()) (execute_body env)"
  unfolding execute_body_def Let_def
  by (intro forks_case forks_replay forks_loop forks_then forks_bind neutral_basic neutral_maintains neutral_steps
      neutral_results) (auto intro!: forks_neutral neutral_basic neutral_maintains neutral_steps maintains_basic)

lemma run_forks:
  "(\<forall>e \<in> set (events_of (execute env s)). \<not> is_create e) \<or> (\<forall>e \<in> set (events_of (execute env s)). \<not> is_done e)"
proof (cases "th_busy s")
  case False
  let ?s = "s\<lparr>th_busy := True, th_state := None\<rparr>"
  obtain tr s1 r where b: "execute_body env ?s = (tr, s1, r)" by (cases "execute_body env ?s")
  have "(\<forall>e \<in> set (map fst tr). \<not> is_create e) \<or> ((\<forall>e \<in> set (map fst tr). \<not> is_done e) \<and> r = Inr ())"
    using forks_execute_body[of env, unfolded forks_def, rule_format, of ?s] b by simp
  then show ?thesis unfolding execute_events(1)[OF False b] by (cases r) auto
qed (simp add: execute_run)

section \<open>Whose events\<close>

text \<open>Events that change or end a thread or ask for a sub-agent carry the thread they come from.\<close>

fun owned_event :: "agent_config \<Rightarrow> thread_event \<Rightarrow> bool" where
  "owned_event c (Thread_done d) =
     (de_thread_id d = ac_thread_id c \<and> de_parent d = ac_parent c \<and>
      (de_parent d = None \<longrightarrow> (\<forall>reason. de_status d \<noteq> Done_cancelled reason)))"
| "owned_event c (Create_sub_agent r) = (csa_thread_id r = ac_thread_id c)"
| "owned_event c (Append_context a) = (tae_thread_id a = ac_thread_id c)"
| "owned_event c (Overwrite_context a) = (toc_thread_id a = ac_thread_id c)"
| "owned_event c (Capability_state tid k v) = (tid = ac_thread_id c)"
| "owned_event c e = True"

lemma owned_plain [simp]: "is_plain e \<Longrightarrow> owned_event c e" "writes_context (ac_thread_id c) e \<Longrightarrow> owned_event c e"
  by (cases e; simp)+

lemma owned_done: "proper_done c d \<Longrightarrow> owned_event c (Thread_done d)"
  by (simp add: proper_done_def)

lemma owned_replayed:
  assumes "completion_addressed s" "th_completion s = Some k" "buildReplayEvent s k = Inr e"
  shows "owned_event (th_config s) e"
proof -
  obtain d where "e = Thread_done d" using assms(3) by (auto simp: buildReplayEvent_def bindE_Inr_iff done_event_def)
  moreover have "proper_event (th_config s) e" by (rule proper_replayed[OF assms])
  ultimately show ?thesis using owned_done by simp
qed

interpretation owned: thread_observer
  "\<lambda>s. th_config s = c \<and> completion_addressed s" "owned_event c" for c
  by unfold_locales (auto simp: completion_addressed_def[of "_\<lparr>th_context := _\<rparr>"] completion_addressed_def
      proper_done_def intro: owned_replayed[unfolded completion_addressed_def] split: option.splits)

lemma run_owned:
  assumes "completion_addressed s"
  shows "\<forall>p \<in> set (trace_of (execute env s)). th_config (snd p) = th_config s \<and>
      completion_addressed (snd p) \<and> owned_event (th_config s) (fst p)"
    and "th_config (final_of (execute env s)) = th_config s \<and> completion_addressed (final_of (execute env s))"
proof -
  have "maintains (\<lambda>t. th_config t = th_config s \<and> completion_addressed t) (owned_event (th_config s)) (execute env)"
    by (rule owned.kept_execute) (auto simp: completion_addressed_def)
  then show "\<forall>p \<in> set (trace_of (execute env s)). th_config (snd p) = th_config s \<and>
      completion_addressed (snd p) \<and> owned_event (th_config s) (fst p)"
    "th_config (final_of (execute env s)) = th_config s \<and> completion_addressed (final_of (execute env s))"
    using assms by (auto simp: maintains_def)
qed

text \<open>What a send yields.\<close>

interpretation writer: step_observer
  "\<lambda>s. th_config s = c \<and> completion_addressed s" "\<lambda>e. owned_event c e \<and> \<not> is_create e \<and> \<not> is_done e" for c
  by unfold_locales (auto simp: completion_addressed_def[of "_\<lparr>th_context := _\<rparr>"] completion_addressed_def)

end
