(* ===== verification/Orchestrator_Tree.thy ===== *)
theory Orchestrator_Tree
  imports Orchestrator Agent_Thread_Phases
begin

text \<open>
  The tree of the threads: one root, every sub-agent under a live parent. It holds at every yield of an
  execution, for every interleaving of the threads that run together.
\<close>

section \<open>Trees of threads\<close>

text \<open>The configurations of the live threads.\<close>

definition shape :: "orchestrator \<Rightarrow> string \<Rightarrow> agent_config option" where
  "shape s tid = map_option th_config (js_get (orc_threads s) tid)"

definition child_of :: "(string \<Rightarrow> agent_config option) \<Rightarrow> string \<Rightarrow> string \<Rightarrow> bool" where
  "child_of sh tid i = (\<exists>c p. sh i = Some c \<and> ac_parent c = Some p \<and> ap_thread_id p = tid)"

definition tree_ok :: "(string \<Rightarrow> agent_config option) \<Rightarrow> bool" where
  "tree_ok sh \<longleftrightarrow>
     (\<forall>tid c. sh tid = Some c \<longrightarrow> ac_thread_id c = tid \<and> tid \<noteq> '''') \<and>
     (\<forall>tid i. child_of sh tid i \<longrightarrow> sh tid \<noteq> None) \<and>
     (\<exists>rank :: string \<Rightarrow> nat. \<forall>tid i. child_of sh tid i \<longrightarrow> rank tid < rank i) \<and>
     (\<exists>!tid. \<exists>c. sh tid = Some c \<and> ac_parent c = None)"

definition of_config :: "agent_config \<Rightarrow> agent_thread \<Rightarrow> bool" where
  "of_config c t = (th_config t = c \<and> completion_addressed t)"

definition orc_ok :: "orchestrator \<Rightarrow> bool" where
  "orc_ok s \<longleftrightarrow> distinct (js_keys (orc_threads s)) \<and> tree_ok (shape s) \<and>
     (\<forall>tid t. js_get (orc_threads s) tid = Some t \<longrightarrow> completion_addressed t)"

lemma tree_okD:
  assumes "tree_ok sh"
  shows "sh tid = Some c \<Longrightarrow> ac_thread_id c = tid \<and> tid \<noteq> ''''" and "child_of sh tid i \<Longrightarrow> sh tid \<noteq> None"
  using assms by (auto simp: tree_ok_def)

lemma tree_okI:
  assumes "\<And>tid c. sh tid = Some c \<Longrightarrow> ac_thread_id c = tid \<and> tid \<noteq> []"
    and "\<And>tid i. child_of sh tid i \<Longrightarrow> sh tid \<noteq> None"
    and "\<And>tid i. child_of sh tid i \<Longrightarrow> (rank :: string \<Rightarrow> nat) tid < rank i"
    and "\<exists>!tid. \<exists>c. sh tid = Some c \<and> ac_parent c = None"
  shows "tree_ok sh"
  using assms unfolding tree_ok_def by blast

lemma child_delete: "child_of (sh(x := None)) tid i \<longleftrightarrow> i \<noteq> x \<and> child_of sh tid i"
  by (auto simp: child_of_def)

lemma child_add:
  "sh x = None \<Longrightarrow> ac_parent c = Some p \<Longrightarrow>
     child_of (sh(x \<mapsto> c)) tid i \<longleftrightarrow> (i = x \<and> tid = ap_thread_id p) \<or> child_of sh tid i"
  by (auto simp: child_of_def)

lemma tree_delete:
  assumes t: "tree_ok sh" and x: "sh x = Some c" "ac_parent c \<noteq> None" and leaf: "\<And>i. \<not> child_of sh x i"
  shows "tree_ok (sh(x := None))"
proof -
  obtain rank :: "string \<Rightarrow> nat" where rank: "\<And>tid i. child_of sh tid i \<Longrightarrow> rank tid < rank i"
    using t unfolding tree_ok_def by blast
  obtain root where root: "\<exists>c. sh root = Some c \<and> ac_parent c = None"
      "\<And>tid. \<exists>c. sh tid = Some c \<and> ac_parent c = None \<Longrightarrow> tid = root"
    using t unfolding tree_ok_def by blast
  have "root \<noteq> x" using root(1) x by auto
  then have "\<exists>c. (sh(x := None)) root = Some c \<and> ac_parent c = None" using root(1) by simp
  moreover have "tid = root" if "\<exists>c. (sh(x := None)) tid = Some c \<and> ac_parent c = None" for tid
    using that root(2)[of tid] by (cases "tid = x") simp_all
  ultimately have "\<exists>!tid. \<exists>c. (sh(x := None)) tid = Some c \<and> ac_parent c = None" by (rule ex1I)
  moreover have "(sh(x := None)) tid \<noteq> None" if "child_of (sh(x := None)) tid i" for tid i
    using that leaf[of i] tree_okD(2)[OF t, of tid i] by (cases "tid = x") (simp_all add: child_delete)
  moreover have "rank tid < rank i" if "child_of (sh(x := None)) tid i" for tid i
    using that rank[of tid i] by (simp add: child_delete)
  moreover have "ac_thread_id c' = tid \<and> tid \<noteq> []" if "(sh(x := None)) tid = Some c'" for tid c'
    using that tree_okD(1)[OF t, of tid c'] by (cases "tid = x") simp_all
  ultimately show ?thesis by (intro tree_okI[of "sh(x := None)" rank])
qed

lemma tree_add:
  assumes t: "tree_ok sh" and x: "sh x = None" "x \<noteq> ''''" "ac_thread_id c = x"
    and p: "ac_parent c = Some p" "sh (ap_thread_id p) \<noteq> None"
  shows "tree_ok (sh(x \<mapsto> c))"
proof -
  obtain rank :: "string \<Rightarrow> nat" where rank: "\<And>tid i. child_of sh tid i \<Longrightarrow> rank tid < rank i"
    using t unfolding tree_ok_def by blast
  let ?rank = "rank(x := Suc (rank (ap_thread_id p)))"
  have no_kids: "\<not> child_of sh x i" for i using tree_okD(2)[OF t, of x i] x by auto
  have "\<not> child_of sh tid x" for tid using x by (simp add: child_of_def)
  moreover have "ap_thread_id p \<noteq> x" using p x by auto
  ultimately have r: "child_of (sh(x \<mapsto> c)) tid i \<Longrightarrow> ?rank tid < ?rank i" for tid i
    using rank no_kids by (auto simp: child_add[of sh x c p, OF x(1) p(1)])
  have d: "child_of (sh(x \<mapsto> c)) tid i \<Longrightarrow> (sh(x \<mapsto> c)) tid \<noteq> None" for tid i
    using tree_okD(2)[OF t] p by (auto simp: child_add[of sh x c p, OF x(1) p(1)])
  obtain root where root: "\<exists>c. sh root = Some c \<and> ac_parent c = None"
      "\<And>tid. \<exists>c. sh tid = Some c \<and> ac_parent c = None \<Longrightarrow> tid = root"
    using t unfolding tree_ok_def by blast
  have "\<exists>c'. (sh(x \<mapsto> c)) root = Some c' \<and> ac_parent c' = None" using root(1) x(1) by (cases "root = x") auto
  moreover have "tid = root" if "\<exists>c'. (sh(x \<mapsto> c)) tid = Some c' \<and> ac_parent c' = None" for tid
    using that root(2)[of tid] p(1) by (cases "tid = x") simp_all
  ultimately have "\<exists>!tid. \<exists>c'. (sh(x \<mapsto> c)) tid = Some c' \<and> ac_parent c' = None" by (rule ex1I)
  moreover have "ac_thread_id c' = tid \<and> tid \<noteq> []" if "(sh(x \<mapsto> c)) tid = Some c'" for tid c'
    using that tree_okD(1)[OF t, of tid c'] x by (cases "tid = x") simp_all
  ultimately show ?thesis using r d by (intro tree_okI[of "sh(x \<mapsto> c)" ?rank])
qed

section \<open>Leaves\<close>

lemma set_map_filter: "y \<in> set (List.map_filter f xs) \<longleftrightarrow> (\<exists>x \<in> set xs. f x = Some y)"
  by (induction xs) (auto simp: List.map_filter_simps split: option.splits)

lemma child_of_value:
  assumes "distinct (js_keys (orc_threads s))"
  shows "(\<exists>i. child_of (shape s) tid i) \<longleftrightarrow>
    (\<exists>t \<in> set (js_values (orc_threads s)). \<exists>p. ac_parent (th_config t) = Some p \<and> ap_thread_id p = tid)"
proof
  assume "\<exists>i. child_of (shape s) tid i"
  then obtain i t p where "js_get (orc_threads s) i = Some t" "ac_parent (th_config t) = Some p" "ap_thread_id p = tid"
    by (auto simp: child_of_def shape_def)
  then show "\<exists>t \<in> set (js_values (orc_threads s)). \<exists>p. ac_parent (th_config t) = Some p \<and> ap_thread_id p = tid"
    using js_get_value[of "orc_threads s" i t] by auto
next
  assume "\<exists>t \<in> set (js_values (orc_threads s)). \<exists>p. ac_parent (th_config t) = Some p \<and> ap_thread_id p = tid"
  then obtain t p where t: "t \<in> set (js_values (orc_threads s))" "ac_parent (th_config t) = Some p" "ap_thread_id p = tid"
    by blast
  obtain i where "js_get (orc_threads s) i = Some t" by (rule js_value_get[OF assms t(1)])
  then show "\<exists>i. child_of (shape s) tid i" using t by (auto simp: child_of_def shape_def)
qed

lemma parent_ids_set:
  assumes "distinct (js_keys (orc_threads s))" and "tree_ok (shape s)"
  shows "tid \<in> set (parent_ids (orc_threads s)) \<longleftrightarrow> (\<exists>i. child_of (shape s) tid i)"
proof -
  have nonempty: "child_of (shape s) tid i \<Longrightarrow> tid \<noteq> ''''" for i
    using tree_okD[OF assms(2)] by (metis not_Some_eq)
  have "tid \<in> set (parent_ids (orc_threads s)) \<longleftrightarrow>
      tid \<noteq> '''' \<and> (\<exists>t \<in> set (js_values (orc_threads s)). \<exists>p. ac_parent (th_config t) = Some p \<and> ap_thread_id p = tid)"
    by (auto simp: parent_ids_def set_map_filter split: option.splits if_splits)
  then show ?thesis using child_of_value[OF assms(1)] nonempty by blast
qed

lemma finite_leaf:
  assumes "tree_ok sh" "finite (dom sh)" "sh x \<noteq> None"
  shows "\<exists>y. sh y \<noteq> None \<and> (\<forall>i. \<not> child_of sh y i)"
proof -
  obtain rank :: "string \<Rightarrow> nat" where rank: "\<And>tid i. child_of sh tid i \<Longrightarrow> rank tid < rank i"
    using assms(1) unfolding tree_ok_def by blast
  have fin: "finite (rank ` dom sh)" "rank ` dom sh \<noteq> {}" using assms(2,3) by (auto simp: dom_def)
  then obtain y where y: "y \<in> dom sh" "rank y = Max (rank ` dom sh)" using Max_in[OF fin] by fastforce
  have "\<not> child_of sh y i" for i
  proof
    assume "child_of sh y i"
    then have "rank y < rank i" "i \<in> dom sh" using rank by (auto simp: child_of_def)
    moreover from this have "rank i \<le> rank y" using Max_ge[OF fin(1), of "rank i"] y(2) by simp
    ultimately show False by simp

  qed
  then show ?thesis using y(1) by blast
qed

lemma finite_shape: "finite (dom (shape s))"
proof -
  have "dom (shape s) \<subseteq> set (js_keys (orc_threads s))"
    by (auto simp: shape_def js_has_keys[symmetric] js_has_def)
  then show ?thesis using finite_subset by blast
qed

lemma active_leaves:
  assumes "orc_ok s" and "orc_threads s \<noteq> []"
  shows "\<exists>active. getActiveAgentThreads (orc_threads s) = Inr active \<and> distinct (map fst active) \<and>
    (\<forall>(tid, t) \<in> set active. js_get (orc_threads s) tid = Some t \<and> (\<forall>i. \<not> child_of (shape s) tid i))"
proof -
  have k: "distinct (js_keys (orc_threads s))" "tree_ok (shape s)" using assms(1) by (auto simp: orc_ok_def)
  let ?active = "filter (\<lambda>kv. fst kv \<notin> set (parent_ids (orc_threads s))) (orc_threads s)"
  obtain x t where "(x, t) \<in> set (orc_threads s)" using assms(2) by (cases "orc_threads s") auto
  then have "shape s x \<noteq> None" using js_in_get[OF k(1)] by (simp add: shape_def)
  then obtain y where "shape s y \<noteq> None" "\<forall>i. \<not> child_of (shape s) y i"
    using finite_leaf[OF k(2) finite_shape] by blast
  then have "\<exists>kv \<in> set (orc_threads s). fst kv \<notin> set (parent_ids (orc_threads s))"
    using parent_ids_set[OF k, of y] js_get_in[of "orc_threads s" y] by (auto simp: shape_def intro!: bexI)
  then have "?active \<noteq> []" by (auto simp: filter_empty_conv)
  then have "getActiveAgentThreads (orc_threads s) = Inr ?active" by (simp add: getActiveAgentThreads_def Let_def)
  moreover have "distinct (map fst ?active)" using k(1) by (simp add: js_keys_def distinct_map_filter)
  moreover have "\<forall>(tid, t) \<in> set ?active. js_get (orc_threads s) tid = Some t \<and> (\<forall>i. \<not> child_of (shape s) tid i)"
    using js_in_get[OF k(1)] parent_ids_set[OF k] by auto
  ultimately show ?thesis by blast
qed

section \<open>Threads that run together\<close>

definition world_ok :: "orc_env \<Rightarrow> bool" where
  "world_ok env \<longleftrightarrow> inj (oe_thread_id env) \<and> (\<forall>n. oe_thread_id env n \<noteq> []) \<and>
     (\<forall>n c sets ai tid p t refs. oe_create env n c sets ai tid p = Inr (t, refs) \<longrightarrow>
        ac_thread_id (th_config t) = tid \<and> ac_parent (th_config t) = Some p \<and> completion_addressed t)"

text \<open>No id that is still to come.\<close>

definition unused :: "orc_env \<Rightarrow> orchestrator \<Rightarrow> string \<Rightarrow> bool" where
  "unused env s tid = (\<forall>n \<ge> orc_tick s. oe_thread_id env n \<noteq> tid)"

text \<open>The configuration \<open>c\<close> is the one of the thread, unless the thread has left.\<close>

definition config_at :: "orchestrator \<Rightarrow> string \<Rightarrow> agent_config \<Rightarrow> bool" where
  "config_at s tid c = (ac_thread_id c = tid \<and> (shape s tid = None \<or> shape s tid = Some c))"

definition leaf_at :: "orchestrator \<Rightarrow> string \<Rightarrow> bool" where
  "leaf_at s tid = (\<forall>i. \<not> child_of (shape s) tid i)"

definition no_ends :: "(thread_event \<times> agent_thread) list \<Rightarrow> bool" where
  "no_ends tr = (\<forall>p \<in> set tr. \<not> is_done (fst p))"

definition no_creates :: "(thread_event \<times> agent_thread) list \<Rightarrow> bool" where
  "no_creates tr = (\<forall>p \<in> set tr. \<not> is_create (fst p))"

definition run_ok :: "orc_env \<Rightarrow> orchestrator \<Rightarrow> live_run \<Rightarrow> bool" where
  "run_ok env s r \<longleftrightarrow> unused env s (lr_id r) \<and>
     (\<exists>c. config_at s (lr_id r) c \<and> of_config c (lr_final r) \<and>
        (\<forall>p \<in> set (lr_steps r). of_config c (snd p) \<and> owned_event c (fst p))) \<and>
     (no_creates (lr_steps r) \<or> no_ends (lr_steps r)) \<and> (no_ends (lr_steps r) \<or> leaf_at s (lr_id r))"

definition idle_ok :: "orc_env \<Rightarrow> orchestrator \<Rightarrow> string \<times> agent_thread \<Rightarrow> bool" where
  "idle_ok env s kv \<longleftrightarrow> unused env s (fst kv) \<and> (\<exists>c. config_at s (fst kv) c \<and> of_config c (snd kv)) \<and>
     leaf_at s (fst kv)"

text \<open>\<open>rs\<close> run together, \<open>idle\<close> are active threads that wait for their turn.\<close>

definition batch_ok :: "orc_env \<Rightarrow> live_run list \<Rightarrow> (string \<times> agent_thread) list \<Rightarrow> orchestrator \<Rightarrow> bool" where
  "batch_ok env rs idle s \<longleftrightarrow> orc_ok s \<and> (\<forall>tid. shape s tid \<noteq> None \<longrightarrow> unused env s tid) \<and>
     distinct (map lr_id rs @ map fst idle) \<and> (\<forall>r \<in> set rs. run_ok env s r) \<and> (\<forall>kv \<in> set idle. idle_ok env s kv)"

lemma batch_orc [simp]: "batch_ok env rs idle s \<Longrightarrow> orc_ok s"
  by (simp add: batch_ok_def)

lemma unused_later: "unused env s tid \<Longrightarrow> orc_tick s \<le> orc_tick s' \<Longrightarrow> unused env s' tid"
  by (auto simp: unused_def)

lemma run_move:
  assumes "run_ok env s r" and "unused env s (lr_id r) \<Longrightarrow> unused env s' (lr_id r)"
    and "\<And>c. config_at s (lr_id r) c \<Longrightarrow> config_at s' (lr_id r) c"
    and "no_ends (lr_steps r) \<or> (leaf_at s (lr_id r) \<longrightarrow> leaf_at s' (lr_id r))"
  shows "run_ok env s' r"
  using assms unfolding run_ok_def by blast

lemma idle_move:
  assumes "idle_ok env s kv" and "unused env s (fst kv) \<Longrightarrow> unused env s' (fst kv)"
    and "\<And>c. config_at s (fst kv) c \<Longrightarrow> config_at s' (fst kv) c"
    and "leaf_at s (fst kv) \<Longrightarrow> leaf_at s' (fst kv)"
  shows "idle_ok env s' kv"
  using assms unfolding idle_ok_def by blast

lemma batch_still:
  assumes "batch_ok env rs idle s" and "shape s' = shape s" "orc_tick s \<le> orc_tick s'" "orc_ok s'"
  shows "batch_ok env rs idle s'"
  using assms(1,4) unused_later[OF _ assms(3)]
  unfolding batch_ok_def run_ok_def idle_ok_def config_at_def leaf_at_def assms(2) by blast

lemma shape_put:
  "js_get (orc_threads s) tid = Some t0 \<Longrightarrow> th_config t = th_config t0 \<Longrightarrow> shape (put_thread tid t s) = shape s"
  by (auto simp: shape_def put_thread_def)

lemma orc_ok_put:
  assumes "orc_ok s" "js_get (orc_threads s) tid = Some t0" "of_config (th_config t0) t"
  shows "orc_ok (put_thread tid t s)"
proof -
  have "shape (put_thread tid t s) = shape s" using shape_put[OF assms(2)] assms(3) by (simp add: of_config_def)
  then show ?thesis using assms js_distinct_set[of "orc_threads s" tid t]
    by (auto simp: orc_ok_def put_thread_def of_config_def split: if_splits)
qed

lemma batch_put:
  assumes "batch_ok env rs idle s" "js_get (orc_threads s) tid = Some t0" "of_config (th_config t0) t"
  shows "batch_ok env rs idle (put_thread tid t s)"
  using assms orc_ok_put[OF _ assms(2,3)] shape_put[OF assms(2)]
  by (intro batch_still[OF assms(1)]) (auto simp: of_config_def put_thread_def)

lemma shape_tick [simp]: "shape (orc_tick_update f s) = shape s"
  by (rule ext) (simp add: shape_def)

lemma orc_ok_tick: "orc_ok s \<Longrightarrow> orc_ok (orc_tick_update Suc s)"
  by (simp add: orc_ok_def)

lemma batch_tick:
  assumes "batch_ok env rs idle s"
  shows "batch_ok env rs idle (orc_tick_update Suc s)"
  using batch_still[OF assms shape_tick _ orc_ok_tick[OF batch_orc[OF assms]]] by simp

lemma distinct_remove_at:
  assumes "distinct (map f rs @ ys)"
  shows "distinct (map f (remove_at k rs) @ ys)"
proof -
  have "distinct (map f (take k rs @ drop k rs) @ ys)" using assms by simp
  then have "distinct (map f (take k rs) @ map f (drop k rs) @ ys)" by (simp only: map_append append_assoc)
  moreover have "set (drop (Suc k) rs) \<subseteq> set (drop k rs)" by (rule set_drop_subset_set_drop) simp
  moreover have "distinct (map f (drop (Suc k) rs))"
    using assms by (simp add: drop_map[symmetric] distinct_drop)
  ultimately show ?thesis unfolding remove_at_def by (auto simp: disjoint_iff)
qed

lemma batch_remove: "batch_ok env rs idle s \<Longrightarrow> batch_ok env (remove_at k rs) idle s"
  using distinct_remove_at[of lr_id rs "map fst idle" k]
  by (auto simp: batch_ok_def remove_at_def dest: in_set_takeD in_set_dropD)

lemma batch_rest:
  assumes "batch_ok env rs idle s" "k < length rs" "lr_steps (rs ! k) = x # rest"
  shows "batch_ok env (rs[k := (rs ! k)\<lparr>lr_steps := rest\<rparr>]) idle s"
proof -
  have "run_ok env s (rs ! k)" using assms by (simp add: batch_ok_def)
  then have "run_ok env s ((rs ! k)\<lparr>lr_steps := rest\<rparr>)"
    using assms(3) by (auto simp: run_ok_def no_creates_def no_ends_def)
  moreover have "map lr_id (rs[k := (rs ! k)\<lparr>lr_steps := rest\<rparr>]) = map lr_id rs"
    using assms(2) by (simp add: map_update list_update_same_conv)
  moreover have "set (rs[k := (rs ! k)\<lparr>lr_steps := rest\<rparr>]) \<subseteq> insert ((rs ! k)\<lparr>lr_steps := rest\<rparr>) (set rs)"
    by (rule set_update_subset_insert)
  ultimately show ?thesis using assms(1) unfolding batch_ok_def by auto
qed

section \<open>Writes of a thread\<close>

text \<open>
  What the orchestrator shows while one thread writes itself: \<open>J\<close> survives any write that keeps the thread's
  configuration and the address of its completion.
\<close>

locale thread_host =
  fixes J :: "orchestrator \<Rightarrow> bool"
  assumes host_ok: "J s \<Longrightarrow> orc_ok s"
    and host_put: "J s \<Longrightarrow> js_get (orc_threads s) tid = Some t0 \<Longrightarrow> of_config (th_config t0) t \<Longrightarrow>
          J (put_thread tid t s)"
    and host_tick: "J s \<Longrightarrow> J (orc_tick_update Suc s)"
begin

lemma hosted_run:
  assumes "\<And>c. maintains (of_config c) (E c) g"
  shows "maintains J (\<lambda>e. True) (run_thread tid g)"
  unfolding maintains_def
proof (intro allI impI)
  fix s
  assume s: "J s"
  show "J (final_of (run_thread tid g s)) \<and> (\<forall>p \<in> set (trace_of (run_thread tid g s)). J (snd p) \<and> True)"
  proof (cases "js_get (orc_threads s) tid")
    case (Some t)
    obtain tr t' r where g: "g t = (tr, t', r)" by (cases "g t")
    have "of_config (th_config t) t" using host_ok[OF s] Some by (auto simp: orc_ok_def of_config_def)
    then have "of_config (th_config t) t'" "\<forall>p \<in> set tr. of_config (th_config t) (snd p)"
      using assms[of "th_config t", unfolded maintains_def, rule_format, of t] g by auto
    then show ?thesis using host_put[OF s Some] Some g by (auto simp: run_thread_def)
  qed (use s in \<open>simp add: run_thread_def\<close>)
qed

lemma hosted_send: "maintains J (\<lambda>e. True) (sendToThread env tid ms)"
  unfolding sendToThread_def
proof (rule hosted_run)
  fix c
  show "maintains (of_config c) (owned_event c) (send (oe_thread env tid) ms)"
    unfolding of_config_def [abs_def] by (rule owned.kept_send) (auto simp: completion_addressed_def)
qed

lemma hosted_tick: "maintains J (\<lambda>e. True) otick"
  unfolding otick_def by (intro maintains_bind maintains_intro) (simp add: host_tick)

lemma hosted_deliver: "maintains J (\<lambda>e. True) (deliver_completion env p m)"
  unfolding deliver_completion_def by (intro maintains_bind maintains_intro hosted_tick hosted_send TrueI)

end

definition batch_with ::
    "orc_env \<Rightarrow> live_run list \<Rightarrow> (string \<times> agent_thread) list \<Rightarrow> (string \<Rightarrow> agent_config option) \<Rightarrow>
       orchestrator \<Rightarrow> bool" where
  "batch_with env rs idle sh s = (batch_ok env rs idle s \<and> shape s = sh)"

interpretation tree_host: thread_host orc_ok
  by unfold_locales (auto intro: orc_ok_put orc_ok_tick)

interpretation batch_host: thread_host "batch_with env rs idle sh" for env rs idle sh
  by unfold_locales
    (auto simp: batch_with_def shape_put of_config_def intro: batch_put[unfolded of_config_def] batch_tick)

section \<open>Ends and starts of threads\<close>

lemma batch_finish:
  assumes "batch_with env rs idle sh s" and "sh tid = Some c" "ac_parent c \<noteq> None" "\<And>i. \<not> child_of sh tid i"
  shows "batch_ok env rs idle (finish_thread tid s)"
proof -
  have b: "batch_ok env rs idle s" "shape s = sh" using assms(1) by (auto simp: batch_with_def)
  obtain t where t: "js_get (orc_threads s) tid = Some t" using assms(2) b(2) by (auto simp: shape_def)
  let ?s = "finish_thread tid s"
  have d: "distinct (js_keys (orc_threads s))" using b(1) by (simp add: batch_ok_def orc_ok_def)
  have sh: "shape ?s = sh(tid := None)"
    using t b(2) by (auto simp: finish_thread_def shape_def fun_eq_iff)
  have "orc_ok ?s"
    using b(1) t tree_delete[OF _ assms(2-4)] b(2) js_distinct_delete[OF d, of tid]
    unfolding orc_ok_def sh by (auto simp: batch_ok_def orc_ok_def finish_thread_def split: if_splits)
  moreover have "unused env s x \<Longrightarrow> unused env ?s x" for x by (simp add: unused_def finish_thread_def split: option.split)
  moreover have "config_at s x c' \<Longrightarrow> config_at ?s x c'" for x c' by (auto simp: config_at_def sh b(2))
  moreover have "leaf_at s x \<Longrightarrow> leaf_at ?s x" for x by (auto simp: leaf_at_def sh b(2) child_delete)
  ultimately show ?thesis using b(1) unfolding batch_ok_def sh b(2)
    by (auto intro: run_move idle_move)
qed

text \<open>An id that nothing uses, now or later.\<close>

definition fresh_id ::
    "orc_env \<Rightarrow> live_run list \<Rightarrow> (string \<times> agent_thread) list \<Rightarrow> (string \<Rightarrow> agent_config option) \<Rightarrow> string \<Rightarrow>
       orchestrator \<Rightarrow> bool" where
  "fresh_id env rs idle sh x s \<longleftrightarrow> batch_with env rs idle sh s \<and> x \<notin> set (map lr_id rs @ map fst idle) \<and>
     x \<noteq> [] \<and> sh x = None \<and> unused env s x"

lemma fresh_tick: "fresh_id env rs idle sh x s \<Longrightarrow> fresh_id env rs idle sh x (orc_tick_update Suc s)"
  using batch_host.host_tick unused_later[of env s x] by (simp add: fresh_id_def)

lemma fresh_new:
  assumes "world_ok env" "batch_with env rs idle sh s"
  shows "fresh_id env rs idle sh (oe_thread_id env (orc_tick s)) (orc_tick_update Suc s)"
proof -
  let ?x = "oe_thread_id env (orc_tick s)"
  have b: "batch_ok env rs idle s" "shape s = sh" using assms(2) by (auto simp: batch_with_def)
  have n: "\<not> unused env s ?x" by (auto simp: unused_def)
  have "?x \<notin> set (map lr_id rs @ map fst idle)" "sh ?x = None"
    using b n unfolding batch_ok_def run_ok_def idle_ok_def by (auto intro: ccontr)
  moreover have "unused env (orc_tick_update Suc s) ?x" "?x \<noteq> []"
    using assms(1) by (auto simp: unused_def world_ok_def inj_eq)
  ultimately show ?thesis using batch_host.host_tick[OF assms(2)] by (simp add: fresh_id_def)
qed

lemma batch_create:
  assumes f: "fresh_id env rs idle sh x s" and t: "ac_thread_id (th_config t) = x"
      "ac_parent (th_config t) = Some p" "completion_addressed t"
    and p: "sh (ap_thread_id p) \<noteq> None" "ap_thread_id p \<notin> fst ` set idle"
      "\<And>r. r \<in> set rs \<Longrightarrow> lr_id r = ap_thread_id p \<Longrightarrow> no_ends (lr_steps r)"
  shows "batch_ok env rs idle (s\<lparr>orc_threads := js_set x t (orc_threads s), orc_set_refs := refs\<rparr>)"
proof -
  let ?s = "s\<lparr>orc_threads := js_set x t (orc_threads s), orc_set_refs := refs\<rparr>"
  have b: "batch_ok env rs idle s" "shape s = sh" and x: "sh x = None" "x \<noteq> []" "unused env s x"
    and new: "\<And>r. r \<in> set rs \<Longrightarrow> lr_id r \<noteq> x" "\<And>kv. kv \<in> set idle \<Longrightarrow> fst kv \<noteq> x"
    using f by (auto simp: fresh_id_def batch_with_def)
  have d: "distinct (js_keys (orc_threads s))" using b(1) by (simp add: batch_ok_def orc_ok_def)
  have sh: "shape ?s = sh(x \<mapsto> th_config t)" using b(2) by (auto simp: shape_def fun_eq_iff)
  have "orc_ok ?s"
    using b(1) tree_add[OF _ x(1,2) t(1,2) p(1)] b(2) js_distinct_set[OF d, of x t] t(3)
    unfolding orc_ok_def sh by (auto simp: batch_ok_def orc_ok_def split: if_splits)
  moreover have u: "unused env s y \<Longrightarrow> unused env ?s y" for y by (simp add: unused_def)
  have c: "config_at s y c \<Longrightarrow> y \<noteq> x \<Longrightarrow> config_at ?s y c" for y c by (simp add: config_at_def sh b(2))
  have l: "leaf_at s y \<Longrightarrow> y \<noteq> ap_thread_id p \<Longrightarrow> leaf_at ?s y" for y
    by (auto simp: leaf_at_def sh b(2) child_add[of sh x _ p, OF x(1) t(2)])
  have "run_ok env ?s r" if "r \<in> set rs" for r
    using b(1) new(1)[OF that] that p(3)[OF that] l[of "lr_id r"] c[of "lr_id r"]
    by (intro run_move[of env s, OF _ u]) (auto simp: batch_ok_def)
  moreover have "idle_ok env ?s kv" if "kv \<in> set idle" for kv
  proof -
    have "fst kv \<noteq> ap_thread_id p" using p(2) that by force
    then show ?thesis using b(1) new(2)[OF that] that l[of "fst kv"] c[of "fst kv"]
      by (intro idle_move[of env s, OF _ u]) (auto simp: batch_ok_def)
  qed
  moreover have "unused env ?s y" if "shape ?s y \<noteq> None" for y
    using b x(3) that u by (cases "y = x") (auto simp: batch_ok_def sh)
  ultimately show ?thesis using b(1) by (simp add: batch_ok_def)
qed

end
