(* ===== verification/Orchestrator_Runs.thy ===== *)
theory Orchestrator_Runs
  imports Orchestrator_Tree
begin

text \<open>
  Executions of the orchestrator: every event of a running thread leaves the tree of the threads whole, and an
  execution stops only for a reason its locals record.
\<close>

section \<open>One event\<close>

lemma batch_with_ok [intro]: "batch_with env rs idle sh s \<Longrightarrow> batch_ok env rs idle s"
  by (simp add: batch_with_def)

lemma batch_with_orc [intro]: "batch_with env rs idle sh s \<Longrightarrow> orc_ok s"
  by (rule batch_host.host_ok)

lemma ensures_hosted:
  assumes "maintains (batch_with env rs idle sh) E g"
  shows "ensures orc_ok (batch_with env rs idle sh) g (\<lambda>a. batch_with env rs idle sh)"
  using ensures_maintains[OF assms] by (rule ensures_show) (simp add: batch_host.host_ok)

lemma announce_ensures:
  "ensures orc_ok (batch_with env rs idle sh) (gthen (gyield x) (gret b)) (\<lambda>b. batch_ok env rs idle)"
  by (intro ensures_then[where R = "batch_with env rs idle sh"] ensures_basic) auto

lemma done_ensures:
  assumes sh: "sh tid = Some c" and owned: "owned_event c (Thread_done d)" and id: "ac_thread_id c = tid"
    and leaf: "\<And>i. \<not> child_of sh tid i"
  shows "ensures orc_ok (batch_with env rs idle sh) (process_done env d) (\<lambda>b. batch_ok env rs idle)"
proof (cases "de_parent d")
  case None
  then show ?thesis using announce_ensures by (simp add: process_done_def)
next
  case (Some p)
  let ?J = "batch_with env rs idle sh"
  have d: "de_thread_id d = tid" "ac_parent c \<noteq> None" using owned id Some by (cases "ac_parent c"; simp)+
  have deliver: "ensures orc_ok ?J
      (if b then (case de_send_to_parent d of
          None \<Rightarrow> gthrow (plain_error ''Cannot read properties of undefined'')
        | Some m \<Rightarrow> deliver_completion env p m) else gret ()) (\<lambda>u. ?J)" for b
    by (intro ensures_case ensures_basic ensures_hosted[OF batch_host.hosted_deliver]) auto
  have last: "ensures orc_ok ?J
      (gthen (gyield e) (gthen (gmodify (finish_thread (de_thread_id d))) (gret False))) (\<lambda>b. batch_ok env rs idle)" for e
    unfolding d(1) by (intro ensures_then[where R = ?J] ensures_then[where R = "batch_ok env rs idle"] ensures_basic
        batch_finish[of env rs idle sh _ tid c] sh d leaf) auto
  show ?thesis unfolding process_done_def Some option.case
    by (intro ensures_read ensures_case ensures_then[OF deliver last] ensures_basic) auto
qed

lemma create_ensures:
  assumes w: "world_ok env" and sh: "sh (csa_thread_id c) \<noteq> None" and idle: "csa_thread_id c \<notin> fst ` set idle"
    and rs: "\<And>r. r \<in> set rs \<Longrightarrow> lr_id r = csa_thread_id c \<Longrightarrow> no_ends (lr_steps r)"
  shows "ensures orc_ok (batch_with env rs idle sh) (process_create env c current sets) (\<lambda>b. batch_ok env rs idle)"
proof -
  let ?fresh = "\<lambda>x. fresh_id env rs idle sh x"
  have ok: "orc_ok s" if "?fresh x s" for x s using that by (auto simp: fresh_id_def)
  have tick: "ensures orc_ok (batch_with env rs idle sh) otick (\<lambda>n. ?fresh (oe_thread_id env n))"
    unfolding otick_def by (auto simp: ensures_def gbind_get gthen_def gbind_def gen_defs fresh_new[OF w])
  have tick2: "ensures orc_ok (?fresh x) otick (\<lambda>n. ?fresh x)" for x
    unfolding otick_def by (auto simp: ensures_def gbind_get gthen_def gbind_def gen_defs fresh_tick)
  show ?thesis unfolding process_create_def Let_def
  proof (intro ensures_bind[OF tick], rule ensures_lift_bind)
    fix n s x
    assume "?fresh (oe_thread_id env n) s"
    then show "orc_ok s" by (rule ok)
  next
    fix n a
    let ?p = "\<lparr>ap_thread_id = csa_thread_id c, ap_tool_call_id = csa_tool_call_id c\<rparr>" and ?x = "oe_thread_id env n"
    assume a: "oe_create env n (th_config current) sets (csa_agent_info c) ?x ?p = Inr a"
    obtain t refs where t: "a = (t, refs)" by (cases a)
    have p: "ac_thread_id (th_config t) = ?x" "ac_parent (th_config t) = Some ?p" "completion_addressed t"
      using w a unfolding t world_ok_def by blast+
    have add: "batch_ok env rs idle (s\<lparr>orc_threads := js_set ?x t (orc_threads s), orc_set_refs := with_sets ?x refs (orc_set_refs s)\<rparr>)"
      if "?fresh ?x s" for s
      using batch_create[OF that p] sh idle rs by simp
    show "ensures orc_ok (?fresh ?x) (case a of (t, refs) \<Rightarrow> gbind otick (\<lambda>k.
        gthen (gyield (Thread_created
          \<lparr>tce_id = oe_id env k, tce_created_at = oe_now env k, tce_thread_id = ?x,
           tce_title = ai_name (csa_agent_info c), tce_parent = ?p, tce_agent_info = csa_agent_info c\<rparr>))
        (gthen (gmodify (\<lambda>s. s\<lparr>orc_threads := js_set ?x t (orc_threads s),
                                orc_set_refs := with_sets ?x refs (orc_set_refs s)\<rparr>))
          (gret False)))) (\<lambda>b. batch_ok env rs idle)"
      unfolding t prod.case
      by (intro ensures_bind[OF tick2] ensures_then[where R = "?fresh ?x"]
          ensures_then[where R = "batch_ok env rs idle"] ensures_basic add) (auto intro: ok)
  qed
qed

definition event_ok ::
    "live_run list \<Rightarrow> (string \<times> agent_thread) list \<Rightarrow> (string \<Rightarrow> agent_config option) \<Rightarrow> string \<Rightarrow>
       thread_event \<Rightarrow> bool" where
  "event_ok rs idle sh tid e \<longleftrightarrow>
     (\<exists>c. ac_thread_id c = tid \<and> (sh tid = None \<or> sh tid = Some c) \<and> owned_event c e) \<and>
     (is_done e \<longrightarrow> (\<forall>i. \<not> child_of sh tid i)) \<and>
     (is_create e \<longrightarrow> (\<forall>r \<in> set rs. lr_id r = tid \<longrightarrow> no_ends (lr_steps r))) \<and> tid \<notin> fst ` set idle"

lemma chunk_ensures:
  assumes w: "world_ok env" and e: "event_ok rs idle sh tid e"
  shows "ensures orc_ok (batch_with env rs idle sh) (processAgentStreamChunk env e) (\<lambda>b. batch_ok env rs idle)"
proof -
  let ?J = "batch_with env rs idle sh"
  have missing: "ensures orc_ok ?J (gthrow x) (\<lambda>b. batch_ok env rs idle)" for x :: thrown
    by (intro ensures_basic) auto
  obtain c where c: "ac_thread_id c = tid" "sh tid = None \<or> sh tid = Some c" "owned_event c e"
    using e by (auto simp: event_ok_def)
  have known: "ensures orc_ok (\<lambda>s. s = s0 \<and> ?J s) (case js_get (orc_threads s0) i of
      None \<Rightarrow> gthrow (plain_error ''unreachable'')
    | Some current \<Rightarrow> g current) (\<lambda>b. batch_ok env rs idle)"
    if "\<And>current. sh i \<noteq> None \<Longrightarrow> ensures orc_ok ?J (g current) (\<lambda>b. batch_ok env rs idle)" for s0 i g
  proof (cases "?J s0 \<and> js_get (orc_threads s0) i \<noteq> None")
    case True
    then obtain t where t: "js_get (orc_threads s0) i = Some t" "sh i \<noteq> None"
      by (auto simp: batch_with_def shape_def)
    show ?thesis unfolding t(1) option.case by (rule ensures_weaken[OF that[OF t(2)]]) auto
  next
    case False
    then show ?thesis using missing by (cases "js_get (orc_threads s0) i") (auto simp: ensures_def)
  qed
  have done_ok: "ensures orc_ok ?J (process_done env d) (\<lambda>b. batch_ok env rs idle)"
    if "e = Thread_done d" "sh (de_thread_id d) \<noteq> None" for d
  proof (rule done_ensures)
    have "de_thread_id d = tid" using that(1) c(1,3) by simp
    then show "sh tid = Some c" using that(2) c(2) by auto
    show "owned_event c (Thread_done d)" using that(1) c(3) by simp
    show "ac_thread_id c = tid" by (rule c(1))
    show "\<not> child_of sh tid i" for i using e that(1) by (simp add: event_ok_def)
  qed
  have create_ok: "ensures orc_ok ?J (process_create env r current sets) (\<lambda>b. batch_ok env rs idle)"
    if "e = Create_sub_agent r" "sh (csa_thread_id r) \<noteq> None" for r current sets
  proof (rule create_ensures)
    show "world_ok env" "sh (csa_thread_id r) \<noteq> None" by (rule w that(2))+
    have tid: "csa_thread_id r = tid" using that(1) c(1,3) by simp
    show "csa_thread_id r \<notin> fst ` set idle" using e by (simp add: event_ok_def tid)
    show "no_ends (lr_steps x)" if "x \<in> set rs" "lr_id x = csa_thread_id r" for x
      using e that \<open>e = Create_sub_agent r\<close> by (simp add: event_ok_def tid)
  qed
  show ?thesis
  proof (cases e)
    case (Thread_done d)
    then show ?thesis by (simp add: processAgentStreamChunk_def) (intro ensures_get known, simp add: done_ok)
  next
    case (Create_sub_agent r)
    then show ?thesis by (simp add: processAgentStreamChunk_def) (intro ensures_get known, simp add: create_ok)
  qed (auto simp: processAgentStreamChunk_def announce_ensures intro!: ensures_get known)
qed

section \<open>Reasons to stop\<close>

text \<open>The locals say why the execution stops.\<close>

definition explained :: "orc_env \<Rightarrow> exec_locals \<Rightarrow> bool" where
  "explained env l \<longleftrightarrow> (xl_stop l \<longrightarrow> (\<exists>n. oe_aborted env n) \<or> xl_output l \<noteq> None \<or> xl_root_error l \<noteq> None \<or>
     xl_required l \<noteq> [] \<or> xl_auth l \<noteq> [])"

definition explained_batch ::
    "orc_env \<Rightarrow> live_run list \<Rightarrow> (string \<times> agent_thread) list \<Rightarrow> exec_locals \<Rightarrow> orchestrator \<Rightarrow> bool" where
  "explained_batch env rs idle l s = (batch_ok env rs idle s \<and> explained env l)"

lemma ensures_explained:
  "(explained env l \<Longrightarrow> ensures I (batch_ok env rs idle) g Q) \<Longrightarrow> ensures I (explained_batch env rs idle l) g Q"
  by (auto simp: ensures_def explained_batch_def)

lemma announced: "gthen (gyield x) (gret b) s = ([(x, s)], s, Inr b)"
  by (simp add: gthen_def gbind_def gen_defs)

lemma missing_or: "(case x of None \<Rightarrow> gthrow y | Some t \<Rightarrow> g t) s = (tr, s', Inr a) \<Longrightarrow> \<exists>t. x = Some t \<and> g t s = (tr, s', Inr a)"
  by (cases x) (simp_all add: gthrow_def)

lemma done_stops: "process_done env d s = (tr, s', Inr True) \<Longrightarrow> de_parent d = None"
  by (cases "de_parent d")
    (auto simp: process_done_def gbind_run gthen_def gen_defs split: sum.splits option.splits)

lemma create_stops: "process_create env c t sets s \<noteq> (tr, s', Inr True)"
  by (auto simp: process_create_def Let_def gbind_run gthen_def gen_defs split: sum.splits prod.splits)

lemma chunk_stops:
  assumes stop: "processAgentStreamChunk env e s = (tr, s', Inr True)" and c: "owned_event c e"
  shows "fst (agentThreadEventToTerminalFields e) \<noteq> None \<or> snd (agentThreadEventToTerminalFields e) \<noteq> None \<or>
    root_error_of e \<noteq> None"
proof (cases e)
  case (Thread_done d)
  then have "de_parent d = None"
    using stop by (auto simp: processAgentStreamChunk_def gbind_get dest!: missing_or intro: done_stops)
  then show ?thesis using c Thread_done by (cases "de_status d") auto
qed (use stop in \<open>auto simp: processAgentStreamChunk_def gbind_get announced create_stops dest!: missing_or\<close>)

lemma handle_explained:
  assumes "owned_event c e" "explained env l" "handle_event env e l s = (tr, s', Inr l')"
  shows "explained env l'"
proof (cases "\<exists>a. e = Auth_required a")
  case True
  then show ?thesis using assms(3) by (auto simp: handle_event_def gret_def explained_def)
next
  case False
  then have "gbind (processAgentStreamChunk env e) (\<lambda>stop. gret (if stop then record_terminal e l else l)) s = (tr, s', Inr l')"
    using assms(3) by (cases e) (auto simp: handle_event_def)
  then obtain tr1 b where "processAgentStreamChunk env e s = (tr1, s', Inr b)" "l' = (if b then record_terminal e l else l)"
    by (cases "processAgentStreamChunk env e s") (auto simp: gbind_run gret_def split: sum.splits)
  then show ?thesis using chunk_stops[of env e s tr1 s' c] assms(1,2)
    by (cases b) (auto simp: record_terminal_def explained_def split: prod.splits option.splits)
qed

lemma event_ensures:
  assumes "world_ok env" and e: "event_ok rs idle sh tid e" and l: "explained env l"
  shows "ensures orc_ok (batch_with env rs idle sh) (handle_event env e l) (explained_batch env rs idle)"
proof -
  obtain c where "owned_event c e" using e by (auto simp: event_ok_def)
  note x = handle_explained[OF this l]
  have "ensures orc_ok (batch_with env rs idle sh)
      (gbind (processAgentStreamChunk env e) (\<lambda>stop. gret (if stop then record_terminal e l else l)))
      (\<lambda>l'. batch_ok env rs idle)"
    by (intro ensures_bind[OF chunk_ensures[OF assms(1,2)]] ensures_basic)
  moreover have "ensures orc_ok (batch_with env rs idle sh) (gret l') (\<lambda>l'. batch_ok env rs idle)" for l'
    by (intro ensures_basic) auto
  ultimately have "ensures orc_ok (batch_with env rs idle sh) (handle_event env e l) (\<lambda>l'. batch_ok env rs idle)"
    by (cases e) (auto simp: handle_event_def)
  then show ?thesis unfolding explained_batch_def by (rule ensures_result) (rule x)
qed

section \<open>The merged runs\<close>

lemma maintains_batch_tick: "maintains (batch_ok env rs idle) (\<lambda>e. True) otick"
  unfolding otick_def by (intro maintains_bind maintains_intro) (simp add: batch_tick)

lemma ensures_batch_tick: "ensures orc_ok (batch_ok env rs idle) otick (\<lambda>n. batch_ok env rs idle)"
  using ensures_maintains[OF maintains_batch_tick] by (rule ensures_show) simp

lemma batch_advance:
  assumes b: "batch_ok env rs idle s" and c: "config_at s tid c" "of_config c t"
  shows "batch_ok env rs idle (advance_thread tid t s)"
proof (cases "js_get (orc_threads s) tid")
  case None
  then show ?thesis using b by (simp add: advance_thread_def js_has_def)
next
  case (Some t0)
  then have "th_config t0 = c" using c(1) by (auto simp: config_at_def shape_def)
  then show ?thesis using batch_put[OF b Some] Some c(2) by (simp add: advance_thread_def js_has_def)
qed

lemma run_states:
  assumes "batch_ok env rs idle s" and "r \<in> set rs"
  obtains c where "config_at s (lr_id r) c" "of_config c (lr_final r)"
    "\<And>p. p \<in> set (lr_steps r) \<Longrightarrow> of_config c (snd p) \<and> owned_event c (fst p)"
  using assms unfolding batch_ok_def run_ok_def by blast

lemma same_run:
  assumes "distinct (map f xs)" "k < length xs" "f y = f (xs ! k)" "z \<in> set (xs[k := y])" "f z = f (xs ! k)"
  shows "z = y"
proof -
  obtain j where j: "j < length xs" "z = xs[k := y] ! j" using assms(4) by (auto simp: in_set_conv_nth)
  then have "f (xs ! j) = f (xs ! k)" using assms(2,3,5) by (cases "j = k") auto
  then have "j = k" using assms(1,2) j(1) by (simp add: distinct_conv_nth) metis
  then show ?thesis using j assms(2) by simp
qed

lemma step_event_ok:
  assumes b: "batch_ok env rs idle s" and k: "k < length rs" and steps: "lr_steps (rs ! k) = (e, st) # rest"
  shows "event_ok (rs[k := (rs ! k)\<lparr>lr_steps := rest\<rparr>]) idle (shape s) (lr_id (rs ! k)) e"
proof -
  let ?r = "(rs ! k)\<lparr>lr_steps := rest\<rparr>" and ?tid = "lr_id (rs ! k)"
  have r: "run_ok env s (rs ! k)" using b k by (simp add: batch_ok_def)
  then obtain c where c: "config_at s ?tid c" "owned_event c e" using steps by (auto simp: run_ok_def)
  have "no_ends (lr_steps x)" if "is_create e" "x \<in> set (rs[k := ?r])" "lr_id x = ?tid" for x
  proof -
    have "x = ?r" using that b k by (intro same_run[of lr_id rs k ?r x]) (simp_all add: batch_ok_def)
    moreover have "no_ends rest" using r steps that(1) by (auto simp: run_ok_def no_creates_def no_ends_def)
    ultimately show ?thesis by simp
  qed
  moreover have "\<not> child_of (shape s) ?tid i" if "is_done e" for i
    using r steps that by (auto simp: run_ok_def no_ends_def leaf_at_def)
  moreover have "?tid \<notin> fst ` set idle"
    using b imageI[OF nth_mem[OF k], of lr_id] by (auto simp: batch_ok_def disjoint_iff)
  ultimately show ?thesis using c by (auto simp: event_ok_def config_at_def)
qed

lemma step_ensures:
  assumes w: "world_ok env" and k: "k < length rs" and steps: "lr_steps (rs ! k) = (e, st) # rest"
    and step: "rs' = rs[k := (rs ! k)\<lparr>lr_steps := rest\<rparr>]"
    and l: "explained env l"
    and IH: "\<And>l'. explained env l' \<Longrightarrow>
      ensures orc_ok (batch_ok env rs' idle) (merge_loop env rs' l') (explained_batch env [] idle)"
  shows "ensures orc_ok (batch_ok env rs idle)
    (gthen (gmodify (advance_thread (lr_id (rs ! k)) st))
      (gbind (handle_event env e l) (\<lambda>l'. merge_loop env rs' l'))) (explained_batch env [] idle)"
proof (rule ensures_then[where R = "batch_ok env rs idle"])
  show "ensures orc_ok (batch_ok env rs idle) (gmodify (advance_thread (lr_id (rs ! k)) st)) (\<lambda>u. batch_ok env rs idle)"
  proof (rule ensures_write)
    fix s
    assume s: "batch_ok env rs idle s"
    then show "batch_ok env rs idle (advance_thread (lr_id (rs ! k)) st s)"
      using run_states[OF s nth_mem[OF k]] steps by (metis batch_advance list.set_intros(1) snd_conv)
  qed
  have "ensures orc_ok (batch_ok env rs idle) (handle_event env e l) (explained_batch env rs' idle)"
  proof (rule ensures_at)
    fix s
    assume s: "batch_ok env rs idle s"
    have "event_ok rs' idle (shape s) (lr_id (rs ! k)) e" unfolding step by (rule step_event_ok[OF s k steps])
    from event_ensures[OF w this l] show "ensures orc_ok (\<lambda>t. t = s) (handle_event env e l) (explained_batch env rs' idle)"
      by (rule ensures_weaken) (use batch_rest[OF s k steps] step in \<open>auto simp: batch_with_def\<close>)
  qed
  then show "ensures orc_ok (batch_ok env rs idle)
      (gbind (handle_event env e l) (\<lambda>l'. merge_loop env rs' l')) (explained_batch env [] idle)"
    by (rule ensures_bind) (rule ensures_explained, erule IH)
qed

lemma merge_ensures:
  assumes "world_ok env" "explained env l"
  shows "ensures orc_ok (batch_ok env rs idle) (merge_loop env rs l) (explained_batch env [] idle)"
  using assms
proof (induction env rs l rule: merge_loop.induct)
  case (1 env rs l)
  note w = 1(3) and l = 1(4)
  show ?case
  proof (cases "rs = []")
    case True
    then show ?thesis using l by (subst merge_loop.simps) (simp add: ensures_ret explained_batch_def)
  next
    case False
    have body: "ensures orc_ok (batch_ok env rs idle)
        (case lr_steps (rs ! k) of
          [] \<Rightarrow>
            gthen (gmodify (advance_thread (lr_id (rs ! k)) (lr_final (rs ! k))))
            (gthen (glift (lr_end (rs ! k))) (merge_loop env (remove_at k rs) l))
        | (e, st) # rest \<Rightarrow>
            gthen (gmodify (advance_thread (lr_id (rs ! k)) st))
            (gbind (handle_event env e l) (\<lambda>l'. merge_loop env (rs[k := (rs ! k)\<lparr>lr_steps := rest\<rparr>]) l')))
        (explained_batch env [] idle)" if k: "k = oe_race env n mod length rs" for k n
    proof (cases "lr_steps (rs ! k)")
      case Nil
      have kl: "k < length rs" using k False by simp
      have "ensures orc_ok (batch_ok env (remove_at k rs) idle) (merge_loop env (remove_at k rs) l) (explained_batch env [] idle)"
        using 1(1)[OF False k refl Nil w l] .
      then have rest: "ensures orc_ok (batch_ok env rs idle)
          (gthen (glift (lr_end (rs ! k))) (merge_loop env (remove_at k rs) l)) (explained_batch env [] idle)"
        unfolding gthen_def by (intro ensures_lift_bind) (auto elim!: ensures_weaken intro: batch_remove)
      have "ensures orc_ok (batch_ok env rs idle)
          (gmodify (advance_thread (lr_id (rs ! k)) (lr_final (rs ! k)))) (\<lambda>u. batch_ok env rs idle)"
        by (rule ensures_write) (meson batch_advance kl nth_mem run_states)
      then show ?thesis unfolding Nil list.case by (rule ensures_then[OF _ rest])
    next
      case (Cons x rest)
      obtain e st where x: "x = (e, st)" by (cases x)
      have kl: "k < length rs" using k False by simp
      show ?thesis unfolding Cons x list.case prod.case
        using 1(2)[OF False k refl Cons x[symmetric] w] by (intro step_ensures[OF w kl Cons[unfolded x] refl l])
    qed
    then show ?thesis using False
      by (subst merge_loop.simps) (auto simp: Let_def intro!: ensures_bind[OF ensures_batch_tick])
  qed
qed

section \<open>Executions\<close>

lemma started_id [simp]: "lr_id (start_run env s kv) = fst kv"
  by (auto simp: start_run_def Let_def split: prod.splits)

lemma batch_start:
  assumes b: "batch_ok env [] (active @ idle) s"
  shows "batch_ok env (map (start_run env s) active) idle s"
proof -
  have "run_ok env s (start_run env s kv)" if "kv \<in> set active" for kv
  proof -
    obtain tid listed where kv: "kv = (tid, listed)" by (cases kv)
    have idle: "idle_ok env s (tid, listed)" using b that by (simp add: batch_ok_def kv)
    then have i: "unused env s tid" "leaf_at s tid" by (auto simp: idle_ok_def)
    obtain c where c: "config_at s tid c" "of_config c listed" using idle by (auto simp: idle_ok_def)
    let ?t = "case js_get (orc_threads s) tid of None \<Rightarrow> listed | Some now \<Rightarrow> now"
    have t: "of_config c ?t"
      using b c by (auto simp: batch_ok_def orc_ok_def of_config_def config_at_def shape_def split: option.splits)
    obtain tr fin r where x: "execute (oe_thread env tid) ?t = (tr, fin, r)" by (cases "execute (oe_thread env tid) ?t")
    have "of_config c fin" "\<forall>p \<in> set tr. of_config c (snd p) \<and> owned_event c (fst p)"
      using run_owned[of ?t "oe_thread env tid"] t x by (auto simp: of_config_def)
    moreover have "no_creates tr \<or> no_ends tr"
      using run_forks[of "oe_thread env tid" ?t] x by (auto simp: no_creates_def no_ends_def)
    ultimately have "run_ok env s \<lparr>lr_id = tid, lr_steps = tr, lr_final = fin, lr_end = r\<rparr>"
      using i c(1) by (auto simp: run_ok_def)
    moreover have "run_ok env s \<lparr>lr_id = tid, lr_steps = [], lr_final = ?t, lr_end = e\<rparr>" for e
      using i c(1) t by (auto simp: run_ok_def no_creates_def no_ends_def)
    ultimately show ?thesis by (simp add: start_run_def kv x Let_def)
  qed
  moreover have ids: "map lr_id (map (start_run env s) active) = map fst active" by simp
  ultimately show ?thesis using b unfolding batch_ok_def ids by auto
qed

lemma ensures_check_stop:
  assumes "explained env l"
  shows "ensures orc_ok (batch_ok env rs idle) (check_stop env l) (explained_batch env rs idle)"
  unfolding check_stop_def
  by (intro ensures_bind[OF ensures_batch_tick] ensures_ret) (use assms in \<open>auto simp: explained_batch_def explained_def\<close>)

lemma batch_drop: "batch_ok env rs idle s \<Longrightarrow> batch_ok env rs [] s"
  by (simp add: batch_ok_def)

lemma slices_ensures:
  assumes w: "world_ok env"
  shows "explained env l \<Longrightarrow>
    ensures orc_ok (batch_ok env [] (concat bs)) (run_slices env bs l) (explained_batch env [] [])"
proof (induction bs arbitrary: l)
  case Nil
  then show ?case by (simp add: ensures_ret explained_batch_def)
next
  case (Cons b bs)
  have rest: "ensures orc_ok (explained_batch env [] (concat bs) l1) (run_slices env bs l1) (explained_batch env [] [])" for l1
    by (rule ensures_explained) (rule Cons.IH)
  have turn: "ensures orc_ok (batch_ok env [] (b @ concat bs))
      (gbind gget (\<lambda>s. gbind (merge_loop env (map (start_run env s) b) l1) (run_slices env bs)))
      (explained_batch env [] [])" if "explained env l1" for l1
    by (intro ensures_get ensures_weaken[OF ensures_bind[OF merge_ensures[OF w that] rest]]) (auto dest: batch_start)
  have go: "ensures orc_ok (explained_batch env [] (b @ concat bs) l1) (if xl_stop l1 then gret l1
      else gbind gget (\<lambda>s. gbind (merge_loop env (map (start_run env s) b) l1) (run_slices env bs)))
      (explained_batch env [] [])" for l1
  proof (rule ensures_explained, rule ensures_case(2))
    assume "explained env l1"
    then show "ensures orc_ok (batch_ok env [] (b @ concat bs)) (gret l1) (explained_batch env [] [])"
      by (intro ensures_ret) (auto simp: explained_batch_def dest: batch_drop)
  qed (rule turn)
  show ?case using ensures_bind[OF ensures_check_stop[OF Cons.prems] go] by simp
qed

lemma concat_slices [simp]: "concat (slices xs) = xs"
proof (induction xs rule: slices.induct)
  case (1 xs)
  then show ?case by (subst slices.simps) auto
qed

lemma batch_active:
  assumes b: "batch_ok env [] [] s" and "orc_threads s \<noteq> []"
    and "getActiveAgentThreads (orc_threads s) = Inr active"
  shows "batch_ok env [] active s"
proof -
  have a: "distinct (map fst active)"
      "\<And>tid t. (tid, t) \<in> set active \<Longrightarrow> js_get (orc_threads s) tid = Some t \<and> (\<forall>i. \<not> child_of (shape s) tid i)"
    using active_leaves[of s] assms by auto
  have "idle_ok env s kv" if "kv \<in> set active" for kv
  proof -
    obtain tid t where kv: "kv = (tid, t)" by (cases kv)
    have t: "js_get (orc_threads s) tid = Some t" using a(2) that kv by blast
    then have sh: "shape s tid = Some (th_config t)" by (simp add: shape_def)
    have "ac_thread_id (th_config t) = tid" "completion_addressed t"
      using batch_orc[OF b] t tree_okD(1)[of "shape s" tid "th_config t"] sh by (auto simp: orc_ok_def)
    then show ?thesis using b a(2) that sh unfolding idle_ok_def kv
      by (auto simp: batch_ok_def config_at_def of_config_def leaf_at_def)
  qed
  then show ?thesis using b a(1) by (simp add: batch_ok_def)
qed

lemma exec_ensures:
  assumes w: "world_ok env"
  shows "explained env l \<Longrightarrow> ensures orc_ok (batch_ok env [] []) (exec_loop fuel env l)
    (\<lambda>out s. batch_ok env [] [] s \<and> (\<forall>l'. out = Some l' \<longrightarrow> (orc_threads s = [] \<or> xl_stop l') \<and> explained env l'))"
proof (induction fuel arbitrary: l)
  case 0
  then show ?case by (simp add: ensures_ret)
next
  case (Suc fuel)
  let ?Q = "\<lambda>out s. batch_ok env [] [] s \<and>
    (\<forall>l'. out = Some l' \<longrightarrow> (orc_threads s = [] \<or> xl_stop l') \<and> explained env l')"
  have rest: "ensures orc_ok (explained_batch env [] [] l1) (exec_loop fuel env l1) ?Q" for l1
    by (rule ensures_explained) (rule Suc.IH)
  have turn: "ensures orc_ok (\<lambda>s1. s1 = s \<and> batch_ok env [] [] s1)
      (gbind (glift (getActiveAgentThreads (orc_threads s))) (\<lambda>active.
        gbind (run_slices env (slices active) l1) (exec_loop fuel env))) ?Q" if l1: "explained env l1" for s l1
  proof (rule ensures_lift_bind)
    fix active
    assume a: "getActiveAgentThreads (orc_threads s) = Inr active"
    then have "orc_threads s \<noteq> []" by (auto simp: getActiveAgentThreads_def Let_def)
    then show "ensures orc_ok (\<lambda>s1. s1 = s \<and> batch_ok env [] [] s1)
        (gbind (run_slices env (slices active) l1) (exec_loop fuel env)) ?Q"
      using batch_active[OF _ _ a]
      by (intro ensures_weaken[OF ensures_bind[OF slices_ensures[OF w l1] rest]]) auto
  qed auto
  have go: "ensures orc_ok (explained_batch env [] [] l1) (if xl_stop l1 then gret (Some l1)
         else gbind gget (\<lambda>s1. gbind (glift (getActiveAgentThreads (orc_threads s1))) (\<lambda>active.
           gbind (run_slices env (slices active) l1) (exec_loop fuel env)))) ?Q" for l1
    by (intro ensures_explained ensures_case ensures_ret ensures_get turn) auto
  show ?case unfolding exec_loop.simps
  proof (intro ensures_get ensures_case)
    fix s
    show "orc_threads s = [] \<Longrightarrow> ensures orc_ok (\<lambda>t. t = s \<and> batch_ok env [] [] t) (gret (Some l)) ?Q"
      using Suc.prems by (intro ensures_ret) auto
    show "ensures orc_ok (\<lambda>t. t = s \<and> batch_ok env [] [] t)
        (gbind (check_stop env l) (\<lambda>l1. if xl_stop l1 then gret (Some l1)
         else gbind gget (\<lambda>s1. gbind (glift (getActiveAgentThreads (orc_threads s1))) (\<lambda>active.
           gbind (run_slices env (slices active) l1) (exec_loop fuel env))))) ?Q"
      by (rule ensures_weaken[OF ensures_bind[OF ensures_check_stop[OF Suc.prems] go]]) auto
  qed
qed

lemma ensures_batch:
  "maintains (batch_ok env rs idle) E g \<Longrightarrow> ensures orc_ok (batch_ok env rs idle) g (\<lambda>a. batch_ok env rs idle)"
  using ensures_maintains by (rule ensures_show) auto

lemma root_thread: "orc_ok s \<Longrightarrow> orc_threads s \<noteq> []"
  by (auto simp: orc_ok_def tree_ok_def shape_def dest!: ex1_implies_ex)

text \<open>What an execution gives that was not aborted.\<close>

definition explained_result :: "orc_env \<Rightarrow> execution_result option \<Rightarrow> bool" where
  "explained_result env out \<longleftrightarrow> (\<forall>r. out = Some r \<longrightarrow> (\<exists>n. oe_aborted env n) \<or> xr_output r \<noteq> None \<or>
     xr_root_agent_error r \<noteq> None \<or> xr_required_actions r \<noteq> [])"

lemma finish_ensures:
  assumes "explained env l" "xl_stop l"
  shows "ensures orc_ok (batch_ok env [] []) (gbind (finish_execution env l) (\<lambda>r. gret (Some r)))
    (\<lambda>out s. batch_ok env [] [] s \<and> explained_result env out)"
proof -
  have f: "maintains (batch_ok env [] []) (\<lambda>e. True) (gbind (finish_execution env l) (\<lambda>r. gret (Some r)))"
    unfolding finish_execution_def Let_def
    by (intro maintains_bind maintains_intro maintains_batch_tick TrueI)
  have "explained_result env out" if "gbind (finish_execution env l) (\<lambda>r. gret (Some r)) s = (tr, s', Inr out)" for s tr s' out
    using that assms
    by (auto simp: finish_execution_def Let_def gbind_run gthen_def gen_defs explained_result_def explained_def
        split: if_splits sum.splits)
  then show ?thesis using ensures_batch[OF f] by (intro ensures_result) auto
qed

lemma execute_ensures:
  assumes w: "world_ok env"
  shows "ensures orc_ok (batch_ok env [] []) (orc_execute fuel env)
    (\<lambda>out s. batch_ok env [] [] s \<and> explained_result env out)"
proof -
  have start: "explained env initial_locals" by (simp add: explained_def initial_locals_def)
  have tail: "ensures orc_ok
      (\<lambda>s. batch_ok env [] [] s \<and> (\<forall>l'. out = Some l' \<longrightarrow> (orc_threads s = [] \<or> xl_stop l') \<and> explained env l'))
      (case out of None \<Rightarrow> gret None | Some l \<Rightarrow> gbind (finish_execution env l) (\<lambda>r. gret (Some r)))
      (\<lambda>out s. batch_ok env [] [] s \<and> explained_result env out)" for out
  proof (cases out)
    case None
    then show ?thesis by (auto simp: explained_result_def intro: ensures_ret)
  next
    case (Some l)
    show ?thesis
    proof (rule ensures_at)
      fix s
      assume s: "batch_ok env [] [] s \<and> (\<forall>l'. out = Some l' \<longrightarrow> (orc_threads s = [] \<or> xl_stop l') \<and> explained env l')"
      then have "explained env l" "xl_stop l" using root_thread[of s] Some by auto
      from finish_ensures[OF this] show "ensures orc_ok (\<lambda>t. t = s)
          (case out of None \<Rightarrow> gret None | Some l \<Rightarrow> gbind (finish_execution env l) (\<lambda>r. gret (Some r)))
          (\<lambda>out s. batch_ok env [] [] s \<and> explained_result env out)"
        unfolding Some option.case by (rule ensures_weaken) (use s in auto)
    qed
  qed
  show ?thesis unfolding orc_execute_def
    by (intro ensures_read ensures_lift_bind ensures_bind[OF exec_ensures[OF w start] tail]) auto
qed

section \<open>Input\<close>

interpretation turn_host: thread_host "batch_ok env rs idle" for env rs idle
  by unfold_locales (auto intro: batch_put batch_tick)

context thread_host begin

lemma hosted_cancel: "maintains J (\<lambda>e. True) (run_thread tid (cancel reason))"
proof (rule hosted_run)
  fix c
  show "maintains (of_config c) (\<lambda>e. True) (cancel reason)"
    unfolding cancel_def Let_def
    by (intro maintains_get maintains_case maintains_intro)
      (auto simp: of_config_def completion_addressed_def split: option.splits)
qed

lemma hosted_close: "maintains J (\<lambda>e. True) (run_thread tid (closeAllOpenToolCalls closures reason))"
proof (rule hosted_run)
  fix c
  show "maintains (of_config c) (owned_event c) (closeAllOpenToolCalls closures reason)"
    unfolding closeAllOpenToolCalls_def Let_def of_config_def [abs_def]
    by (intro owned.kept_intro owned.kept_complete owned.kept_append)
qed

lemma hosted_each: "maintains J (\<lambda>e. True) g \<Longrightarrow> maintains J (\<lambda>e. True) (each_event g)"
  unfolding maintains_def each_event_def by (fastforce split: prod.splits)

lemma hosted_children: "maintains J (\<lambda>e. True) (cancel_children ts closures)"
  by (induction ts arbitrary: closures) (auto intro!: maintains_bind maintains_intro hosted_each hosted_cancel)

lemma hosted_input: "maintains J (\<lambda>e. True) (orc_send env ms)"
  unfolding orc_send_def send_user_messages_def send_batches_def
  by (intro maintains_bind maintains_intro hosted_children hosted_close hosted_send)

end

end
