(* ===== verification/Orchestrator_Demo.thy ===== *)
theory Orchestrator_Demo
  imports Orchestrator_Runs Agent_Thread_Demo
begin

text \<open>
  Concrete orchestrators on which the witnesses evaluate: a root with one open call and a sub-agent that
  answers it, in a world that never aborts and creates threads that only know their place in the tree.
\<close>

definition demo_config :: "string \<Rightarrow> agent_parent option \<Rightarrow> agent_info option \<Rightarrow> agent_config" where
  "demo_config tid parent info =
     (demo_agent_config parent)\<lparr>ac_thread_id := tid, ac_agent_info := info\<rparr>"

definition demo_place :: agent_parent where
  "demo_place = \<lparr>ap_thread_id = ''root'', ap_tool_call_id = ''a''\<rparr>"

definition demo_info :: agent_info where
  "demo_info = \<lparr>ai_name = ''helper'', ai_input = ''go'', ai_model = None\<rparr>"

definition demo_root :: agent_thread where
  "demo_root = (demo_thread None [Assistant_msg (demo_assistant\<lparr>am_tool_calls := Some [demo_call ''a'' (Some True)]\<rparr>)])
     \<lparr>th_config := demo_config ''root'' None None\<rparr>"

definition demo_helper :: agent_thread where
  "demo_helper = (demo_thread (Some demo_place) [User_msg (UText ''go'')])
     \<lparr>th_config := demo_config ''helper'' (Some demo_place) (Some demo_info)\<rparr>"

definition demo_orc :: orchestrator where
  "demo_orc =
     \<lparr>orc_threads = [(''root'', demo_root), (''helper'', demo_helper)],
      orc_finished = createEmptyAgentThreadMetrics, orc_set_refs = [], orc_tool_sets = [], orc_tick = 0\<rparr>"

definition demo_orc_env :: orc_env where
  "demo_orc_env =
     \<lparr>oe_thread = (\<lambda>tid. demo_env),
      oe_create = (\<lambda>n c sets info tid p.
        Inr ((demo_thread (Some p) [])\<lparr>th_config := demo_config tid (Some p) (Some info)\<rparr>, sets)),
      oe_thread_id = (\<lambda>n. replicate (Suc n) (CHR ''x'')), oe_id = (\<lambda>n. ''id''), oe_now = (\<lambda>n. ''now''),
      oe_aborted = (\<lambda>n. False), oe_race = (\<lambda>n. n)\<rparr>"

end
