(* ===== verification/Orchestrator_Props.thy ===== *)
theory Orchestrator_Props
  imports Orchestrator_Demo
begin

text \<open>
  What the orchestrator promises: the tree of its threads, the reasons an execution ends, the metrics of the
  threads it ends, and the input it accepts.
\<close>

section \<open>Turns\<close>

lemma demo_batch: "batch_ok demo_orc_env [] [] demo_orc"
proof -
  have sh: "shape demo_orc = [''root'' \<mapsto> demo_config ''root'' None None,
      ''helper'' \<mapsto> demo_config ''helper'' (Some demo_place) (Some demo_info)]"
    by (rule ext) (simp add: shape_def demo_orc_def js_get_def demo_root_def demo_helper_def)
  have kids: "child_of (shape demo_orc) tid i \<longleftrightarrow> i = ''helper'' \<and> tid = ''root''" for tid i
    by (auto simp: child_of_def sh demo_config_def demo_agent_config_def demo_place_def)
  have "tree_ok (shape demo_orc)"
    by (rule tree_okI[where rank = "\<lambda>i. if i = ''helper'' then 1 else 0"], unfold kids)
      (auto simp: sh demo_config_def demo_agent_config_def split: if_splits)
  moreover have "completion_addressed t" if "js_get (orc_threads demo_orc) tid = Some t" for tid t
  proof -
    have "t = demo_root \<or> t = demo_helper" using that by (auto simp: demo_orc_def js_get_def split: if_splits)
    then have "th_completion t = None" by (auto simp: demo_root_def demo_helper_def demo_thread_def)
    then show ?thesis by (simp add: completion_addressed_def split: option.split)
  qed
  moreover have "distinct (js_keys (orc_threads demo_orc))" by (simp add: demo_orc_def js_keys_def)
  moreover have "unused demo_orc_env demo_orc tid" if "shape demo_orc tid \<noteq> None" for tid
    using that by (auto simp: sh unused_def demo_orc_env_def split: if_splits)
  ultimately show ?thesis by (auto simp: batch_ok_def orc_ok_def)
qed

lemma demo_world: "world_ok demo_orc_env"
  by (auto simp: world_ok_def demo_orc_env_def demo_config_def demo_agent_config_def demo_thread_def
      completion_addressed_def inj_def)

text \<open>
  C36. The tree of threads survives a turn. From a state where every live thread is stored under its own id,
  the parents of sub-agents are live and acyclic, exactly one thread is a root and every completion answers the
  call of its thread's parent, the state at every yield of \<open>send\<close> followed by \<open>execute\<close>, and the state at their
  end, is again such a state: for every order in which the parallel threads answer, every input, every model
  and tool, and wherever the turn is cut short. New ids must be fresh and the factory must give a new thread
  the id and the parent it was asked for.
\<close>

theorem thread_tree_kept:
  assumes "world_ok env" and "batch_ok env [] [] s"
  shows "(\<forall>p \<in> set (trace_of (gthen (orc_send env ms) (orc_execute fuel env) s)). orc_ok (snd p)) \<and>
    orc_ok (final_of (gthen (orc_send env ms) (orc_execute fuel env) s))"
proof -
  have "ensures orc_ok (batch_ok env [] []) (gthen (orc_send env ms) (orc_execute fuel env)) (\<lambda>out. orc_ok)"
    by (rule ensures_weaken[OF ensures_then[OF ensures_batch[OF turn_host.hosted_input] execute_ensures[OF assms(1)]]])
      auto
  then show ?thesis using assms(2) by (auto simp: ensures_def split: sum.splits)
qed

theorem thread_tree_kept_witness:
  "orc_ok (final_of (gthen (orc_send demo_orc_env []) (orc_execute 3 demo_orc_env) demo_orc)) \<and>
   js_keys (orc_threads (final_of (gthen (orc_send demo_orc_env []) (orc_execute 3 demo_orc_env) demo_orc))) =
     [''root''] \<and>
   length (trace_of (gthen (orc_send demo_orc_env []) (orc_execute 3 demo_orc_env) demo_orc)) > 5"
  using thread_tree_kept[OF demo_world demo_batch, where ms = "[]" and fuel = 3, THEN conjunct2]
  by (rule conjI) (rule conjI, code_simp+)

text \<open>
  C38. An execution never just stops. Unless the signal aborts it, every result of \<open>execute\<close> has the output of
  the root, its error, or at least one action the user must take; with the tree of threads as above.
\<close>

theorem execution_explained:
  assumes "world_ok env" and "batch_ok env [] [] s" and "\<And>n. \<not> oe_aborted env n"
    and "orc_execute fuel env s = (tr, s', Inr (Some r))"
  shows "xr_output r \<noteq> None \<or> xr_root_agent_error r \<noteq> None \<or> xr_required_actions r \<noteq> []"
proof -
  have "explained_result env (Some r)"
    using execute_ensures[OF assms(1), unfolded ensures_def, rule_format, OF assms(2), of fuel] assms(4) by simp
  then show ?thesis using assms(3) by (simp add: explained_result_def)
qed

theorem execution_explained_witness:
  "\<exists>tr s' r. orc_execute 3 demo_orc_env demo_orc = (tr, s', Inr (Some r)) \<and> xr_output r \<noteq> None \<and>
     (xr_output r \<noteq> None \<or> xr_root_agent_error r \<noteq> None \<or> xr_required_actions r \<noteq> [])"
proof -
  have "(case result_of (orc_execute 3 demo_orc_env demo_orc) of
      Inr (Some r) \<Rightarrow> xr_output r \<noteq> None | _ \<Rightarrow> False)" by code_simp
  then obtain tr s' r where r: "orc_execute 3 demo_orc_env demo_orc = (tr, s', Inr (Some r))" "xr_output r \<noteq> None"
    by (cases "orc_execute 3 demo_orc_env demo_orc") (auto split: sum.splits option.splits)
  moreover from execution_explained[OF demo_world demo_batch _ r(1)]
  have "xr_output r \<noteq> None \<or> xr_root_agent_error r \<noteq> None \<or> xr_required_actions r \<noteq> []"
    by (simp add: demo_orc_env_def)
  ultimately show ?thesis by blast
qed

end
