(* ===== verification/Orchestrator_Sync.thy ===== *)
theory Orchestrator_Sync
  imports Orchestrator_Props Agent_Thread_Sync
begin

text \<open>
  The events of a turn are enough to rebuild its threads. A consumer keeps, per thread, the context, the usage
  and the capability state, and applies every event an execution yields; when the execution returns it has
  what the live threads have. During a run a waiting thread lags behind the consumer, which \<open>lagging\<close>
  describes.
\<close>

section \<open>The consumer\<close>

type_synonym turn_view = "string \<Rightarrow> thread_view option"

definition orc_view :: "orchestrator \<Rightarrow> turn_view" where
  "orc_view s tid = map_option thread_view (js_get (orc_threads s) tid)"

definition fresh_view :: thread_view where
  "fresh_view = ([], getEmptyCurrentContextUsage, [])"

definition absorb_in :: "string option \<Rightarrow> thread_event \<Rightarrow> turn_view \<Rightarrow> turn_view" where
  "absorb_in i e V = (case i of None \<Rightarrow> V | Some tid \<Rightarrow> V(tid := map_option (absorb_event e) (V tid)))"

fun absorb_exec :: "execution_event \<Rightarrow> turn_view \<Rightarrow> turn_view" where
  "absorb_exec (Thread_event (Thread_done d)) V = (if de_parent d = None then V else V(de_thread_id d := None))"
| "absorb_exec (Thread_event e) V = absorb_in (event_thread_id e) e V"
| "absorb_exec (Thread_created c) V = V(tce_thread_id c \<mapsto> fresh_view)"
| "absorb_exec (Registered_event v) V = V"

lemma absorb_silent: "silent_event e \<Longrightarrow> map_option (absorb_event e) x = x"
  by (cases x) (simp_all add: tlog.silent)

lemma absorb_quiet: "silent_event e \<Longrightarrow> \<not> is_done e \<Longrightarrow> absorb_exec (Thread_event e) V = V"
  by (cases e) (auto simp: absorb_in_def absorb_silent split: option.split)

lemma absorb_owned:
  assumes "owned_event c e" "ac_thread_id c = tid" "\<not> is_done e"
  shows "absorb_exec (Thread_event e) V = V(tid := map_option (absorb_event e) (V tid))"
proof (cases "silent_event e")
  case True
  then show ?thesis using absorb_quiet[OF True assms(3)] by (auto simp: absorb_silent)
next
  case False
  then show ?thesis using assms by (cases e) (auto simp: absorb_in_def)
qed

lemma fold_owned:
  assumes "\<forall>e \<in> set es. owned_event c e \<and> \<not> is_create e \<and> \<not> is_done e" and "ac_thread_id c = tid"
    and "V tid = Some v"
  shows "fold absorb_exec (map Thread_event es) V = V(tid \<mapsto> fold absorb_event es v)"
  using assms
proof (induction es arbitrary: V v)
  case (Cons e es)
  then show ?case
    using Cons.IH[of "V(tid \<mapsto> absorb_event e v)" "absorb_event e v"] absorb_owned[of c e tid V]
    by (simp add: fun_eq_iff)
qed auto

section \<open>Runs and their consumer\<close>

text \<open>Here the consumer is \<open>absorb_exec\<close>, and what counts is the end of a run that returns.\<close>

abbreviation replays ::
    "(turn_view \<Rightarrow> orchestrator \<Rightarrow> bool) \<Rightarrow> 'a orc_gen \<Rightarrow> ('a \<Rightarrow> turn_view \<Rightarrow> orchestrator \<Rightarrow> bool) \<Rightarrow> bool" where
  "replays P g Q \<equiv> tells absorb_exec (\<lambda>V s. True) P g Q (\<lambda>x V s. True)"

lemma replays_def:
  "replays P g Q = (\<forall>V s tr s' a. P V s \<longrightarrow> g s = (tr, s', Inr a) \<longrightarrow> Q a (fold absorb_exec (map fst tr) V) s')"
  unfolding tells_def by (force split: sum.splits)

lemma replaysD: "replays P g Q \<Longrightarrow> P V s \<Longrightarrow> g s = (tr, s', Inr a) \<Longrightarrow> Q a (fold absorb_exec (map fst tr) V) s'"
  by (simp add: replays_def)

lemma replays_throw: "replays P (gthrow x) Q"
  by (simp add: tells_throw)

lemma replays_yield: "(\<And>V s. P V s \<Longrightarrow> Q () (absorb_exec e V) s) \<Longrightarrow> replays P (gyield e) Q"
  by (simp add: tells_yield)

lemma replays_lift_bind: "(\<And>a. r = Inr a \<Longrightarrow> replays P (h a) Q) \<Longrightarrow> replays P (gbind (glift r) h) Q"
  by (simp add: tells_lift_bind)

lemma replays_weaken:
  "replays P g Q \<Longrightarrow> (\<And>V s. P' V s \<Longrightarrow> P V s) \<Longrightarrow> (\<And>a V s. Q a V s \<Longrightarrow> Q' a V s) \<Longrightarrow> replays P' g Q'"
  by (erule tells_weaken)

lemmas replays_ret = tells_ret[where absorb = absorb_exec and I = "\<lambda>V s. True" and X = "\<lambda>x V s. True"]
lemmas replays_modify = tells_modify[where absorb = absorb_exec and I = "\<lambda>V s. True" and X = "\<lambda>x V s. True"]
lemmas replays_bind = tells_bind[where absorb = absorb_exec and I = "\<lambda>V s. True" and X = "\<lambda>x V s. True"]
lemmas replays_then = tells_then[where absorb = absorb_exec and I = "\<lambda>V s. True" and X = "\<lambda>x V s. True"]
lemmas replays_read = tells_read[where absorb = absorb_exec and I = "\<lambda>V s. True" and X = "\<lambda>x V s. True"]
lemmas replays_at = tells_at[where absorb = absorb_exec and I = "\<lambda>V s. True" and X = "\<lambda>x V s. True"]
lemmas replays_ensures = tells_ensures[where absorb = absorb_exec and I = "\<lambda>V s. True" and X = "\<lambda>x V s. True"]

section \<open>Generators of one thread\<close>

lemma run_replays:
  assumes sync: "tlog.synced g"
    and own: "\<And>c. maintains (of_config c) (\<lambda>e. owned_event c e \<and> \<not> is_create e \<and> \<not> is_done e) g"
    and s: "orc_ok s" "V tid = orc_view s tid" and run: "run_thread tid g s = (tr, s', Inr a)"
  shows "fold absorb_exec (map fst tr) V = V(tid := orc_view s' tid) \<and>
    (\<forall>i. i \<noteq> tid \<longrightarrow> js_get (orc_threads s') i = js_get (orc_threads s) i) \<and>
    js_get (orc_threads s) tid \<noteq> None \<and> js_get (orc_threads s') tid \<noteq> None"
proof -
  obtain t where t: "js_get (orc_threads s) tid = Some t" using run by (auto simp: run_thread_def split: option.splits)
  obtain tr0 t' where g: "g t = (tr0, t', Inr a)"
      "tr = map (\<lambda>(e, st). (Thread_event e, put_thread tid st s)) tr0" "s' = put_thread tid t' s"
    using run t by (cases "g t") (auto simp: run_thread_def)
  have c: "of_config (th_config t) t" "ac_thread_id (th_config t) = tid"
    using s(1) t tree_okD(1)[of "shape s" tid "th_config t"] by (auto simp: orc_ok_def of_config_def shape_def)
  have "\<forall>e \<in> set (map fst tr0). owned_event (th_config t) e \<and> \<not> is_create e \<and> \<not> is_done e"
    using own[of "th_config t", unfolded maintains_def, rule_format, OF c(1)] g(1) by auto
  moreover have "map fst tr = map Thread_event (map fst tr0)" by (auto simp: g(2))
  moreover have "thread_view t' = fold absorb_event (map fst tr0) (thread_view t)"
    using sync[unfolded tlog.synced_def, rule_format, of t] g(1) by simp
  ultimately have "fold absorb_exec (map fst tr) V = V(tid := orc_view s' tid)"
    using fold_owned[of "map fst tr0" "th_config t" tid V "thread_view t"] c(2) s(2) t
    by (simp add: orc_view_def g(3) put_thread_def)
  then show ?thesis using t by (simp add: g(3) put_thread_def)
qed

lemma writer_send: "maintains (of_config c) (\<lambda>e. owned_event c e \<and> \<not> is_create e \<and> \<not> is_done e) (send env ms)"
  unfolding of_config_def [abs_def] by (rule writer.kept_send) (auto simp: completion_addressed_def)

lemma writer_close:
  "maintains (of_config c) (\<lambda>e. owned_event c e \<and> \<not> is_create e \<and> \<not> is_done e) (closeAllOpenToolCalls closures reason)"
  unfolding closeAllOpenToolCalls_def Let_def of_config_def [abs_def]
  by (intro writer.kept_intro writer.kept_complete writer.kept_append)

lemma writer_cancel:
  "maintains (of_config c) (\<lambda>e. owned_event c e \<and> \<not> is_create e \<and> \<not> is_done e) (cancel reason)"
  unfolding cancel_def Let_def
  by (intro maintains_get maintains_case maintains_intro)
    (auto simp: of_config_def completion_addressed_def split: option.splits)

section \<open>Running threads lag behind\<close>

definition follows :: "thread_view \<Rightarrow> live_run \<Rightarrow> bool" where
  "follows v r \<longleftrightarrow> tlog.in_step v (lr_steps r) \<and>
     thread_view (lr_final r) = fold absorb_event (map fst (lr_steps r)) v"

text \<open>
  A thread that does not run is as the consumer has it. What a running thread still yields starts from there.
  No thread of the batch is the parent of another.
\<close>

definition tracked :: "(string \<Rightarrow> thread_view \<Rightarrow> thread_view) \<Rightarrow> turn_view \<Rightarrow> live_run list \<Rightarrow> orchestrator \<Rightarrow> bool" where
  "tracked ahead V rs s \<longleftrightarrow>
     (\<forall>i. V i = None \<longleftrightarrow> js_get (orc_threads s) i = None) \<and>
     (\<forall>i. i \<notin> lr_id ` set rs \<longrightarrow> V i = orc_view s i) \<and>
     (\<forall>r \<in> set rs. \<forall>v. V (lr_id r) = Some v \<longrightarrow> follows (ahead (lr_id r) v) r) \<and>
     (\<forall>i \<in> lr_id ` set rs. \<forall>j \<in> lr_id ` set rs. \<not> child_of (shape s) i j)"

abbreviation lagging :: "turn_view \<Rightarrow> live_run list \<Rightarrow> orchestrator \<Rightarrow> bool" where
  "lagging \<equiv> tracked (\<lambda>i v. v)"

text \<open>Thread \<open>tid\<close> has delivered \<open>e\<close>, which the consumer has not applied yet.\<close>

abbreviation delivered :: "string \<Rightarrow> thread_event \<Rightarrow> turn_view \<Rightarrow> live_run list \<Rightarrow> orchestrator \<Rightarrow> bool" where
  "delivered tid e \<equiv> tracked (\<lambda>i v. if i = tid then absorb_event e v else v)"

lemma delivered_silent: "silent_event e \<Longrightarrow> delivered tid e V rs s = lagging V rs s"
proof -
  assume "silent_event e"
  then have "(\<lambda>i v. if i = tid then absorb_event e v else v) = (\<lambda>i v. v)"
    by (intro ext) (simp add: tlog.silent)
  then show ?thesis by simp
qed

lemma tracked_tick [simp]: "tracked ahead V rs (orc_tick_update f s) = tracked ahead V rs s"
  by (simp add: tracked_def orc_view_def [abs_def])

lemma delivered_absorbed:
  assumes "delivered tid e V rs s" "owned_event c e" "ac_thread_id c = tid" "\<not> is_done e" "tid \<in> lr_id ` set rs"
  shows "lagging (absorb_exec (Thread_event e) V) rs s"
  using assms(1,5) unfolding absorb_owned[OF assms(2-4)] tracked_def by auto

lemma lagging_write:
  assumes l: "lagging V rs s" and p: "p \<notin> lr_id ` set rs" and sh: "shape s' = shape s"
    and V: "V' = V(p := orc_view s' p)" and get: "\<And>i. i \<noteq> p \<Longrightarrow> js_get (orc_threads s') i = js_get (orc_threads s) i"
  shows "lagging V' rs s'"
proof -
  have "V' i = None \<longleftrightarrow> js_get (orc_threads s') i = None" for i
    using l get[of i] by (cases "i = p") (auto simp: V tracked_def orc_view_def)
  moreover have "V' i = orc_view s' i" if "i \<notin> lr_id ` set rs" for i
    using l that get[of i] by (cases "i = p") (auto simp: V tracked_def orc_view_def)
  moreover have "follows v r" if "r \<in> set rs" "V' (lr_id r) = Some v" for r v
    using l that p by (cases v) (auto simp: V tracked_def split: if_splits)
  ultimately show ?thesis using l unfolding tracked_def sh by blast
qed

lemma lagging_finish:
  assumes l: "lagging V rs s"
  shows "lagging (V(tid := None)) rs (finish_thread tid s)"
proof -
  have get: "js_get (orc_threads (finish_thread tid s)) i = (if i = tid then None else js_get (orc_threads s) i)" for i
    by (simp add: finish_thread_def split: option.split)
  have "child_of (shape (finish_thread tid s)) i j \<Longrightarrow> child_of (shape s) i j" for i j
    by (auto simp: child_of_def shape_def get split: if_splits)
  then have "\<forall>i \<in> lr_id ` set rs. \<forall>j \<in> lr_id ` set rs. \<not> child_of (shape (finish_thread tid s)) i j"
    using l unfolding tracked_def by blast
  moreover have "\<forall>r \<in> set rs. \<forall>v. (V(tid := None)) (lr_id r) = Some v \<longrightarrow> follows v r"
    using l by (simp add: tracked_def)
  moreover have "\<forall>i. i \<notin> lr_id ` set rs \<longrightarrow> (V(tid := None)) i = orc_view (finish_thread tid s) i"
    using l by (simp add: tracked_def orc_view_def get)
  ultimately show ?thesis using l by (simp add: tracked_def get)
qed

lemma lagging_create:
  assumes l: "lagging V rs s" and x: "x \<notin> lr_id ` set rs" "thread_view t = fresh_view"
  shows "lagging (V(x \<mapsto> fresh_view)) rs (s\<lparr>orc_threads := js_set x t (orc_threads s), orc_set_refs := refs\<rparr>)"
proof -
  let ?s = "s\<lparr>orc_threads := js_set x t (orc_threads s), orc_set_refs := refs\<rparr>"
  have "child_of (shape ?s) i j \<Longrightarrow> j = x \<or> child_of (shape s) i j" for i j
    by (auto simp: child_of_def shape_def split: if_splits)
  then have "\<forall>i \<in> lr_id ` set rs. \<forall>j \<in> lr_id ` set rs. \<not> child_of (shape ?s) i j"
    using l x(1) unfolding tracked_def by blast
  moreover have "\<forall>r \<in> set rs. \<forall>v. (V(x \<mapsto> fresh_view)) (lr_id r) = Some v \<longrightarrow> follows v r"
    using l x(1) by (auto simp: tracked_def)
  moreover have "\<forall>i. i \<notin> lr_id ` set rs \<longrightarrow> (V(x \<mapsto> fresh_view)) i = orc_view ?s i"
    using l x(2) by (simp add: tracked_def orc_view_def)
  ultimately show ?thesis using l by (simp add: tracked_def)
qed

section \<open>One event\<close>

definition world_blank :: "orc_env \<Rightarrow> bool" where
  "world_blank env = (\<forall>n c sets i tid p t refs. oe_create env n c sets i tid p = Inr (t, refs) \<longrightarrow> thread_view t = fresh_view)"

lemma replays_tick: "(\<And>V s. P V s \<Longrightarrow> Q (orc_tick s) V (orc_tick_update Suc s)) \<Longrightarrow> replays P otick Q"
  by (auto simp: replays_def otick_def gbind_run gthen_def gen_defs)

lemma replays_announce: "(\<And>V s. P V s \<Longrightarrow> Q b (absorb_exec e V) s) \<Longrightarrow> replays P (gthen (gyield e) (gret b)) Q"
  by (auto simp: replays_def gthen_def gbind_run gen_defs)

lemma deliver_replays:
  assumes p: "ap_thread_id p \<notin> lr_id ` set rs"
  shows "replays (\<lambda>V s. batch_with env rs idle sh s \<and> lagging V rs s) (deliver_completion env p m)
    (\<lambda>u V s. batch_with env rs idle sh s \<and> lagging V rs s)"
proof -
  let ?P = "\<lambda>V s. batch_with env rs idle sh s \<and> lagging V rs s"
  have send: "replays ?P (sendToThread env (ap_thread_id p) [Send_tool m]) (\<lambda>u. ?P)"
    unfolding replays_def
  proof (intro allI impI)
    fix V s tr s' u
    assume s: "?P V s" and r: "sendToThread env (ap_thread_id p) [Send_tool m] s = (tr, s', Inr u)"
    have b: "batch_with env rs idle sh s'"
      using batch_host.hosted_send[of env rs idle sh env "ap_thread_id p" "[Send_tool m]", unfolded maintains_def, rule_format, of s]
        s r by simp
    have "orc_ok s" "V (ap_thread_id p) = orc_view s (ap_thread_id p)" using s p by (auto simp: tracked_def)
    with run_replays[OF sync_send writer_send, of s V "ap_thread_id p" "oe_thread env (ap_thread_id p)" "[Send_tool m]" tr s' u]
    have "fold absorb_exec (map fst tr) V = V(ap_thread_id p := orc_view s' (ap_thread_id p))"
      "\<And>i. i \<noteq> ap_thread_id p \<Longrightarrow> js_get (orc_threads s') i = js_get (orc_threads s) i"
      using r by (auto simp: sendToThread_def)
    then show "?P (fold absorb_exec (map fst tr) V) s'"
      using lagging_write[of V rs s "ap_thread_id p" s'] s p b by (auto simp: batch_with_def)
  qed
  show ?thesis unfolding deliver_completion_def
    by (intro replays_bind[OF replays_tick[where Q = "\<lambda>n. ?P"]] replays_then[OF replays_yield[where Q = "\<lambda>u. ?P"] send])
      (auto intro: batch_host.host_tick simp: absorb_in_def absorb_silent split: option.split)
qed

lemma done_replays:
  assumes sh: "child_of sh (ap_thread_id p) tid" and id: "de_thread_id d = tid" "de_parent d = Some p"
    and tid: "tid \<in> lr_id ` set rs"
  shows "replays (\<lambda>V s. batch_with env rs idle sh s \<and> lagging V rs s) (process_done env d) (\<lambda>b V s. lagging V rs s)"
proof -
  let ?P = "\<lambda>V s. batch_with env rs idle sh s \<and> lagging V rs s"
  have tail: "replays ?P (gthen (gyield (Thread_event (Thread_done d)))
      (gthen (gmodify (finish_thread (de_thread_id d))) (gret False))) (\<lambda>b V s. lagging V rs s)"
    by (rule replays_then[OF replays_yield[where Q = "\<lambda>u V s. \<exists>W. V = W(tid := None) \<and> lagging W rs s"]
          replays_then[OF replays_modify[where Q = "\<lambda>u V s. lagging V rs s"] replays_ret]])
      (auto simp: id intro: lagging_finish)
  have mid: "replays (\<lambda>V s. s = s0 \<and> ?P V s)
      (if b then (case de_send_to_parent d of
          None \<Rightarrow> gthrow (plain_error ''Cannot read properties of undefined'')
        | Some m \<Rightarrow> deliver_completion env p m) else gret ()) (\<lambda>u. ?P)" for b s0
  proof (rule replays_at)
    fix V s
    assume s: "s = s0 \<and> ?P V s"
    have "\<not> child_of (shape s) i j" if "i \<in> lr_id ` set rs" "j \<in> lr_id ` set rs" for i j
      using s that unfolding tracked_def by blast
    then have "ap_thread_id p \<notin> lr_id ` set rs" using sh s tid by (auto simp: batch_with_def)
    from deliver_replays[OF this, of env idle sh]
    have "replays (\<lambda>W t. W = V \<and> t = s) (deliver_completion env p m) (\<lambda>u. ?P)" for m
      by (rule replays_weaken) (use s in auto)
    then show "replays (\<lambda>W t. W = V \<and> t = s) (if b then (case de_send_to_parent d of
          None \<Rightarrow> gthrow (plain_error ''Cannot read properties of undefined'')
        | Some m \<Rightarrow> deliver_completion env p m) else gret ()) (\<lambda>u. ?P)"
      using s by (cases "de_send_to_parent d") (auto intro: replays_throw replays_ret)
  qed
  show ?thesis unfolding process_done_def id(2) option.case
  proof (rule replays_read)
    fix s0
    show "replays (\<lambda>V s. s = s0 \<and> ?P V s) (case js_get (orc_threads s0) (ap_thread_id p) of
          None \<Rightarrow> gthrow (plain_error ''unreachable: parent thread missing'')
        | Some parent \<Rightarrow>
            gthen
              (if hasOpenToolCallId parent (ap_tool_call_id p)
               then (case de_send_to_parent d of
                       None \<Rightarrow> gthrow (plain_error ''Cannot read properties of undefined'')
                     | Some m \<Rightarrow> deliver_completion env p m)
               else gret ())
            (gthen (gyield (Thread_event (Thread_done d)))
            (gthen (gmodify (finish_thread (de_thread_id d))) (gret False)))) (\<lambda>b V s. lagging V rs s)"
      by (cases "js_get (orc_threads s0) (ap_thread_id p)")
        (simp add: replays_throw, simp only: option.case, rule replays_then[OF mid tail])
  qed
qed

lemma create_replays:
  assumes w: "world_ok env" "world_blank env"
  shows "replays (\<lambda>V s. batch_with env rs idle sh s \<and> lagging V rs s) (process_create env c current sets)
    (\<lambda>b V s. lagging V rs s)"
proof -
  let ?F = "\<lambda>x V s. fresh_id env rs idle sh x s \<and> lagging V rs s"
  have tick: "replays (\<lambda>V s. batch_with env rs idle sh s \<and> lagging V rs s) otick (\<lambda>n. ?F (oe_thread_id env n))"
    by (rule replays_tick) (auto intro: fresh_new[OF w(1)])
  have tick2: "replays (?F x) otick (\<lambda>n. ?F x)" for x by (rule replays_tick) (auto intro: fresh_tick)
  show ?thesis unfolding process_create_def Let_def
  proof (intro replays_bind[OF tick] replays_lift_bind)
    fix n a
    let ?p = "\<lparr>ap_thread_id = csa_thread_id c, ap_tool_call_id = csa_tool_call_id c\<rparr>" and ?x = "oe_thread_id env n"
    assume a: "oe_create env n (th_config current) sets (csa_agent_info c) ?x ?p = Inr a"
    obtain t refs where t: "a = (t, refs)" by (cases a)
    have v: "thread_view t = fresh_view" using w(2) a unfolding t world_blank_def by blast
    have add: "lagging (V(?x \<mapsto> fresh_view)) rs (s\<lparr>orc_threads := js_set ?x t (orc_threads s), orc_set_refs := refs'\<rparr>)"
      if "?F ?x V s" for V s refs' using that by (intro lagging_create v) (auto simp: fresh_id_def)
    show "replays (?F ?x) (case a of (t, refs) \<Rightarrow> gbind otick (\<lambda>k.
        gthen (gyield (Thread_created
          \<lparr>tce_id = oe_id env k, tce_created_at = oe_now env k, tce_thread_id = ?x,
           tce_title = ai_name (csa_agent_info c), tce_parent = ?p, tce_agent_info = csa_agent_info c\<rparr>))
        (gthen (gmodify (\<lambda>s. s\<lparr>orc_threads := js_set ?x t (orc_threads s),
                                orc_set_refs := with_sets ?x refs (orc_set_refs s)\<rparr>))
          (gret False)))) (\<lambda>b V s. lagging V rs s)"
      unfolding t prod.case
      by (rule replays_bind[OF tick2]
          replays_then[OF replays_yield[where Q = "\<lambda>u V s. \<exists>W. V = W(?x \<mapsto> fresh_view) \<and> ?F ?x W s"]
            replays_then[OF replays_modify[where Q = "\<lambda>u V s. lagging V rs s"] replays_ret]])+
        (auto intro: add)
  qed
qed

lemma chunk_replays:
  assumes w: "world_ok env" "world_blank env" and e: "event_ok rs idle sh tid e" and tid: "tid \<in> lr_id ` set rs"
  shows "replays (\<lambda>V s. batch_with env rs idle sh s \<and> delivered tid e V rs s) (processAgentStreamChunk env e)
    (\<lambda>b V s. lagging V rs s)"
proof -
  let ?P = "\<lambda>V s. batch_with env rs idle sh s \<and> delivered tid e V rs s"
  let ?L = "\<lambda>V s. batch_with env rs idle sh s \<and> lagging V rs s"
  obtain c where c: "ac_thread_id c = tid" "sh tid = None \<or> sh tid = Some c" "owned_event c e"
    using e by (auto simp: event_ok_def)
  have known: "replays ?P (gbind gget (\<lambda>s. case js_get (orc_threads s) i of
      None \<Rightarrow> gthrow (plain_error ''unreachable'') | Some current \<Rightarrow> g current s)) (\<lambda>b V s. lagging V rs s)"
    if "\<And>current s0. sh i \<noteq> None \<Longrightarrow> replays ?P (g current s0) (\<lambda>b V s. lagging V rs s)" for i g
  proof (rule replays_read)
    fix s0
    show "replays (\<lambda>V s. s = s0 \<and> ?P V s) (case js_get (orc_threads s0) i of
        None \<Rightarrow> gthrow (plain_error ''unreachable'') | Some current \<Rightarrow> g current s0) (\<lambda>b V s. lagging V rs s)"
    proof (cases "js_get (orc_threads s0) i")
      case (Some t)
      have "sh i \<noteq> None" if "batch_with env rs idle sh s0" using that Some by (auto simp: batch_with_def shape_def)
      then show ?thesis using that[of t s0] unfolding Some option.case replays_def by blast
    qed (simp add: replays_throw)
  qed
  have plain: "replays ?P (gthen (gyield (Thread_event e)) (gret b)) (\<lambda>b V s. lagging V rs s)" if "\<not> is_done e" for b
    using that c tid by (intro replays_announce) (auto intro: delivered_absorbed)
  have done_ok: "replays ?P (process_done env d) (\<lambda>b V s. lagging V rs s)"
    if e: "e = Thread_done d" and sh: "sh (de_thread_id d) \<noteq> None" for d
  proof -
    have P: "?P = ?L" by (simp add: e delivered_silent)
    show ?thesis
    proof (cases "de_parent d")
      case None
      then show ?thesis unfolding P by (auto simp: process_done_def intro!: replays_announce)
    next
      case (Some p)
      have d: "de_thread_id d = tid" "sh tid = Some c" "ac_parent c = Some p"
        using c e sh Some by auto
      then show ?thesis unfolding P using Some tid by (intro done_replays[of sh p tid]) (auto simp: child_of_def)
    qed
  qed
  have create_ok: "replays ?P (process_create env r current sets) (\<lambda>b V s. lagging V rs s)"
    if "e = Create_sub_agent r" for r current sets
  proof -
    have "?P = ?L" by (simp add: that delivered_silent)
    then show ?thesis using create_replays[OF w, of rs idle sh r current sets] by simp
  qed
  have body: "replays ?P (case e of
        Approval_required r \<Rightarrow> gthen (gyield (Thread_event e)) (gret True)
      | Response_required r \<Rightarrow> gthen (gyield (Thread_event e)) (gret True)
      | Thread_done d \<Rightarrow> process_done env d
      | Create_sub_agent r \<Rightarrow> process_create env r current sets
      | _ \<Rightarrow> gthen (gyield (Thread_event e)) (gret False)) (\<lambda>b V s. lagging V rs s)"
    if "event_thread_id e = Some i" "sh i \<noteq> None" for i current sets
    using that plain done_ok create_ok by (cases e) auto
  show ?thesis
  proof (cases "\<exists>v. e = Passthrough v")
    case True
    then have "?P = ?L" by (auto simp: delivered_silent)
    then show ?thesis using True by (auto simp: processAgentStreamChunk_def intro!: replays_announce)
  next
    case False
    have chunk: "processAgentStreamChunk env e = (case event_thread_id e of
        None \<Rightarrow> gthen (gyield (Thread_event e)) (gret False)
      | Some i \<Rightarrow> gbind gget (\<lambda>s. case js_get (orc_threads s) i of
          None \<Rightarrow> gthrow (plain_error ''unreachable'')
        | Some current \<Rightarrow> (case e of
            Approval_required r \<Rightarrow> gthen (gyield (Thread_event e)) (gret True)
          | Response_required r \<Rightarrow> gthen (gyield (Thread_event e)) (gret True)
          | Thread_done d \<Rightarrow> process_done env d
          | Create_sub_agent r \<Rightarrow> process_create env r current (js_get (orc_set_refs s) i)
          | _ \<Rightarrow> gthen (gyield (Thread_event e)) (gret False))))"
      using False by (cases e; hypsubst) (simp_all add: processAgentStreamChunk_def)
    show ?thesis
    proof (cases "event_thread_id e")
      case None
      then show ?thesis unfolding chunk using plain by (cases e) auto
    next
      case (Some i)
      show ?thesis unfolding chunk unfolding Some option.case by (rule known) (rule body[OF Some])
    qed
  qed
qed

lemma event_replays:
  assumes "world_ok env" "world_blank env" "event_ok rs idle sh tid e" "tid \<in> lr_id ` set rs"
  shows "replays (\<lambda>V s. batch_with env rs idle sh s \<and> delivered tid e V rs s) (handle_event env e l)
    (\<lambda>l' V s. lagging V rs s)"
proof (cases "\<exists>a. e = Auth_required a")
  case True
  then show ?thesis by (auto simp: handle_event_def delivered_silent intro!: replays_ret)
next
  case False
  then have "handle_event env e l = gbind (processAgentStreamChunk env e) (\<lambda>stop. gret (if stop then record_terminal e l else l))"
    by (cases e) (auto simp: handle_event_def)
  then show ?thesis using replays_bind[OF chunk_replays[OF assms] replays_ret] by simp
qed

section \<open>The merged runs\<close>

lemma shape_advance:
  assumes "config_at s tid c" "of_config c t"
  shows "shape (advance_thread tid t s) = shape s"
  using assms by (auto simp: advance_thread_def put_thread_def js_has_def shape_def config_at_def of_config_def fun_eq_iff
      split: option.splits)

lemma advanced_thread:
  "js_get (orc_threads (advance_thread tid t s)) i =
     (if i = tid \<and> js_get (orc_threads s) tid \<noteq> None then Some t else js_get (orc_threads s) i)"
  by (auto simp: advance_thread_def put_thread_def js_has_def)

lemma advance_delivered:
  assumes b: "batch_ok env rs idle s" and l: "lagging V rs s" and k: "k < length rs"
    and steps: "lr_steps (rs ! k) = (e, st) # rest"
  shows "delivered (lr_id (rs ! k)) e V (rs[k := (rs ! k)\<lparr>lr_steps := rest\<rparr>]) (advance_thread (lr_id (rs ! k)) st s)"
proof -
  let ?r = "(rs ! k)\<lparr>lr_steps := rest\<rparr>" and ?tid = "lr_id (rs ! k)"
  have at: "rs ! k \<in> set rs" using k by simp
  have "map lr_id (rs[k := ?r]) = map lr_id rs" using k by (simp add: map_update list_update_same_conv)
  then have ids: "lr_id ` set (rs[k := ?r]) = lr_id ` set rs" by (metis list.set_map)
  have "follows (if lr_id r = ?tid then absorb_event e v else v) r"
    if r: "r \<in> set (rs[k := ?r])" and v: "V (lr_id r) = Some v" for r v
  proof (cases "lr_id r = ?tid")
    case True
    have "r = ?r" using b k r True by (intro same_run[of lr_id rs k ?r r]) (simp_all add: batch_ok_def)
    moreover have "follows v (rs ! k)" using l at v True unfolding tracked_def by metis
    ultimately show ?thesis using steps by (simp add: follows_def)
  next
    case False
    then have "r \<in> set rs" using r set_update_subset_insert[of rs k ?r] by auto
    then show ?thesis using l v unfolding if_not_P[OF False] tracked_def by blast
  qed
  moreover obtain c where "config_at s ?tid c" "of_config c st"
    using run_states[OF b at] steps by (metis list.set_intros(1) snd_conv)
  then have "shape (advance_thread ?tid st s) = shape s" by (rule shape_advance)
  moreover have "\<forall>i. V i = None \<longleftrightarrow> js_get (orc_threads (advance_thread ?tid st s)) i = None"
    using l by (auto simp: tracked_def advanced_thread)
  moreover have "\<forall>i. i \<notin> lr_id ` set rs \<longrightarrow> V i = orc_view (advance_thread ?tid st s) i"
    using l at by (auto simp: tracked_def orc_view_def advanced_thread)
  ultimately show ?thesis using l unfolding tracked_def ids by simp
qed

lemma finish_lagging:
  assumes b: "batch_ok env rs idle s" and l: "lagging V rs s" and k: "k < length rs" and steps: "lr_steps (rs ! k) = []"
  shows "lagging V (remove_at k rs) (advance_thread (lr_id (rs ! k)) (lr_final (rs ! k)) s)"
proof -
  let ?r = "rs ! k" and ?rs = "remove_at k rs"
  let ?s = "advance_thread (lr_id ?r) (lr_final ?r) s"
  have at: "?r \<in> set rs" using k by simp
  have sub: "set ?rs \<subseteq> set rs" by (auto simp: remove_at_def dest: in_set_takeD in_set_dropD)
  have all: "set rs = insert ?r (set ?rs)"
    using arg_cong[OF id_take_nth_drop[OF k], of set] by (simp add: remove_at_def)
  obtain c where "config_at s (lr_id ?r) c" "of_config c (lr_final ?r)" using run_states[OF b at] by metis
  then have sh: "shape ?s = shape s" by (rule shape_advance)
  have "V i = orc_view ?s i" if "i \<notin> lr_id ` set ?rs" for i
  proof (cases "i = lr_id ?r")
    case True
    show ?thesis
    proof (cases "V i")
      case None
      then show ?thesis using l by (simp add: tracked_def orc_view_def advanced_thread True)
    next
      case (Some v)
      then have "follows v ?r" using l at True unfolding tracked_def by metis
      moreover have "js_get (orc_threads s) i \<noteq> None" using l Some unfolding tracked_def by (metis option.distinct(1))
      ultimately show ?thesis using Some steps by (simp add: follows_def orc_view_def advanced_thread True)
    qed
  next
    case False
    then have "i \<notin> lr_id ` set rs" using that all by auto
    then show ?thesis using l False by (simp add: tracked_def orc_view_def advanced_thread)
  qed
  moreover have "\<forall>i. V i = None \<longleftrightarrow> js_get (orc_threads ?s) i = None"
    using l by (auto simp: tracked_def advanced_thread)
  moreover have "\<forall>r \<in> set ?rs. \<forall>v. V (lr_id r) = Some v \<longrightarrow> follows v r" using l sub unfolding tracked_def by blast
  moreover have "\<forall>i \<in> lr_id ` set ?rs. \<forall>j \<in> lr_id ` set ?rs. \<not> child_of (shape s) i j"
    using l sub unfolding tracked_def by blast
  ultimately show ?thesis unfolding tracked_def sh by simp
qed

text \<open>What a run of the orchestrator keeps.\<close>

abbreviation current :: "orc_env \<Rightarrow> live_run list \<Rightarrow> (string \<times> agent_thread) list \<Rightarrow> turn_view \<Rightarrow> orchestrator \<Rightarrow> bool" where
  "current env rs idle V s \<equiv> batch_ok env rs idle s \<and> lagging V rs s"

lemma current_tick: "replays (current env rs idle) otick (\<lambda>n. current env rs idle)"
  by (rule replays_tick) (auto intro: batch_tick)

lemma end_replays:
  assumes k: "k < length rs" and steps: "lr_steps (rs ! k) = []"
    and IH: "replays (current env (remove_at k rs) idle) (merge_loop env (remove_at k rs) l) (\<lambda>l'. current env [] idle)"
  shows "replays (current env rs idle)
    (gthen (gmodify (advance_thread (lr_id (rs ! k)) (lr_final (rs ! k))))
      (gthen (glift (lr_end (rs ! k))) (merge_loop env (remove_at k rs) l))) (\<lambda>l'. current env [] idle)"
proof (rule replays_then[OF replays_modify[where Q = "\<lambda>u. current env (remove_at k rs) idle"]])
  fix V s
  assume s: "current env rs idle V s"
  then have s': "batch_ok env rs idle s" by simp
  have "batch_ok env rs idle (advance_thread (lr_id (rs ! k)) (lr_final (rs ! k)) s)"
    using run_states[OF s' nth_mem[OF k]] by (metis s' batch_advance)
  then show "current env (remove_at k rs) idle V (advance_thread (lr_id (rs ! k)) (lr_final (rs ! k)) s)"
    using finish_lagging[OF _ _ k steps] s by (auto intro: batch_remove)
next
  show "replays (current env (remove_at k rs) idle)
      (gthen (glift (lr_end (rs ! k))) (merge_loop env (remove_at k rs) l)) (\<lambda>l'. current env [] idle)"
    unfolding gthen_def by (rule replays_lift_bind) (rule IH)
qed

lemma step_replays:
  assumes w: "world_ok env" "world_blank env" and k: "k < length rs" and steps: "lr_steps (rs ! k) = (e, st) # rest"
    and step: "rs' = rs[k := (rs ! k)\<lparr>lr_steps := rest\<rparr>]" and l: "explained env l"
    and IH: "\<And>l'. explained env l' \<Longrightarrow> replays (current env rs' idle) (merge_loop env rs' l') (\<lambda>l'. current env [] idle)"
  shows "replays (current env rs idle)
    (gthen (gmodify (advance_thread (lr_id (rs ! k)) st))
      (gbind (handle_event env e l) (\<lambda>l'. merge_loop env rs' l'))) (\<lambda>l'. current env [] idle)"
proof -
  let ?tid = "lr_id (rs ! k)"
  let ?D = "\<lambda>V s. \<exists>sh. event_ok rs' idle sh ?tid e \<and> batch_with env rs' idle sh s \<and> delivered ?tid e V rs' s"
  have tid: "?tid \<in> lr_id ` set rs'"
    using imageI[OF set_update_memI[OF k, of "(rs ! k)\<lparr>lr_steps := rest\<rparr>"], of lr_id] by (simp add: step)
  have handle: "replays ?D (handle_event env e l) (\<lambda>l' V s. explained env l' \<and> current env rs' idle V s)"
  proof (rule replays_at)
    fix V s
    assume "?D V s"
    then obtain sh where s: "event_ok rs' idle sh ?tid e" "batch_with env rs' idle sh s" "delivered ?tid e V rs' s" by blast
    have "replays (\<lambda>V s. batch_with env rs' idle sh s \<and> (batch_with env rs' idle sh s \<and> delivered ?tid e V rs' s))
        (handle_event env e l) (\<lambda>l' V s. explained_batch env rs' idle l' s \<and> lagging V rs' s)"
      by (rule replays_ensures[OF event_ensures[OF w(1) s(1) l]])
        (rule replays_weaken[OF event_replays[OF w s(1) tid]]; simp only:)
    then show "replays (\<lambda>W t. W = V \<and> t = s) (handle_event env e l)
        (\<lambda>l' V s. explained env l' \<and> current env rs' idle V s)"
      by (rule replays_weaken) (use s in \<open>auto simp: explained_batch_def\<close>)
  qed
  show ?thesis
  proof (rule replays_then[OF replays_modify[where Q = "\<lambda>u. ?D"] replays_bind[OF handle]])
    fix V s
    assume s: "current env rs idle V s"
    have s': "batch_ok env rs idle s" using s by simp
    have b: "batch_ok env rs idle (advance_thread ?tid st s)"
      using run_states[OF s' nth_mem[OF k]] steps by (metis s' batch_advance list.set_intros(1) snd_conv)
    show "?D V (advance_thread ?tid st s)"
    proof (intro exI[of _ "shape (advance_thread ?tid st s)"] conjI)
      show "event_ok rs' idle (shape (advance_thread ?tid st s)) ?tid e" unfolding step by (rule step_event_ok[OF b k steps])
      show "batch_with env rs' idle (shape (advance_thread ?tid st s)) (advance_thread ?tid st s)"
        using batch_rest[OF b k steps] by (simp add: step batch_with_def)
      show "delivered ?tid e V rs' (advance_thread ?tid st s)"
        unfolding step using s by (intro advance_delivered[OF _ _ k steps]) auto
    qed
  next
    fix l'
    show "replays (\<lambda>V s. explained env l' \<and> current env rs' idle V s) (merge_loop env rs' l') (\<lambda>l'. current env [] idle)"
      using IH[of l'] by (auto simp: replays_def)
  qed
qed

lemma merge_replays:
  assumes "world_ok env" "world_blank env" "explained env l"
  shows "replays (current env rs idle) (merge_loop env rs l) (\<lambda>l'. current env [] idle)"
  using assms
proof (induction env rs l rule: merge_loop.induct)
  case (1 env rs l)
  note w = 1(3,4) and l = 1(5)
  show ?case
  proof (cases "rs = []")
    case True
    then show ?thesis by (subst merge_loop.simps) (simp add: replays_ret)
  next
    case False
    have body: "replays (current env rs idle)
        (case lr_steps (rs ! k) of
          [] \<Rightarrow>
            gthen (gmodify (advance_thread (lr_id (rs ! k)) (lr_final (rs ! k))))
            (gthen (glift (lr_end (rs ! k))) (merge_loop env (remove_at k rs) l))
        | (e, st) # rest \<Rightarrow>
            gthen (gmodify (advance_thread (lr_id (rs ! k)) st))
            (gbind (handle_event env e l) (\<lambda>l'. merge_loop env (rs[k := (rs ! k)\<lparr>lr_steps := rest\<rparr>]) l')))
        (\<lambda>l'. current env [] idle)" if k: "k = oe_race env n mod length rs" for k n
    proof (cases "lr_steps (rs ! k)")
      case Nil
      have kl: "k < length rs" using k False by simp
      show ?thesis unfolding Nil list.case by (rule end_replays[OF kl Nil 1(1)[OF False k refl Nil w l]])
    next
      case (Cons x rest)
      obtain e st where x: "x = (e, st)" by (cases x)
      have kl: "k < length rs" using k False by simp
      show ?thesis unfolding Cons x list.case prod.case
        using 1(2)[OF False k refl Cons x[symmetric] w] by (intro step_replays[OF w kl Cons[unfolded x] refl l])
    qed
    then show ?thesis using False
      by (subst merge_loop.simps) (auto simp: Let_def intro!: replays_bind[OF current_tick])
  qed
qed

section \<open>Executions\<close>

lemma lagging_idle: "lagging V [] s \<longleftrightarrow> V = orc_view s"
  by (auto simp: tracked_def orc_view_def)

lemma started_follows:
  assumes "js_get (orc_threads s) tid = Some t"
  shows "follows (thread_view t) (start_run env s (tid, listed))"
  using sync_execute[of "oe_thread env tid", unfolded tlog.synced_def, rule_format, of t] assms
  by (cases "execute (oe_thread env tid) t") (simp add: start_run_def Let_def follows_def)

lemma lagging_start:
  assumes b: "batch_ok env [] (active @ idle) s"
  shows "lagging (orc_view s) (map (start_run env s) active) s"
proof -
  have "follows v (start_run env s kv)" if v: "orc_view s (fst kv) = Some v" for kv v
  proof -
    obtain tid listed where kv: "kv = (tid, listed)" by (cases kv)
    obtain t where "js_get (orc_threads s) tid = Some t" "v = thread_view t" using v by (auto simp: orc_view_def kv)
    then show ?thesis using started_follows[of s tid t env listed] by (simp add: kv)
  qed
  moreover have "\<not> child_of (shape s) (fst kv) i" if "kv \<in> set active" for kv i
  proof -
    have "idle_ok env s kv" using b that by (simp add: batch_ok_def)
    then show ?thesis by (auto simp: idle_ok_def leaf_at_def)
  qed
  moreover have "lr_id ` set (map (start_run env s) active) = fst ` set active" by (simp add: image_image)
  ultimately show ?thesis unfolding tracked_def by (auto simp: orc_view_def)
qed

abbreviation in_sync :: "orc_env \<Rightarrow> exec_locals \<Rightarrow> (string \<times> agent_thread) list \<Rightarrow> turn_view \<Rightarrow> orchestrator \<Rightarrow> bool" where
  "in_sync env l idle V s \<equiv> explained_batch env [] idle l s \<and> V = orc_view s"

lemma replays_explained:
  "(explained env l \<Longrightarrow> replays (\<lambda>V s. batch_ok env [] idle s \<and> V = orc_view s) g Q) \<Longrightarrow> replays (in_sync env l idle) g Q"
  by (auto simp: replays_def explained_batch_def)

lemma check_replays:
  assumes "explained env l"
  shows "replays (\<lambda>V s. batch_ok env [] idle s \<and> V = orc_view s) (check_stop env l) (\<lambda>l'. in_sync env l' idle)"
  unfolding check_stop_def
  by (rule replays_bind[OF current_tick[of env "[]" idle, unfolded lagging_idle] replays_ret])
    (use assms in \<open>auto simp: explained_batch_def explained_def\<close>)

lemma batch_replays:
  assumes w: "world_ok env" "world_blank env" and l: "explained env l"
  shows "replays (\<lambda>V s. s = s0 \<and> batch_ok env [] (b @ idle) s \<and> V = orc_view s)
    (merge_loop env (map (start_run env s0) b) l) (\<lambda>l'. in_sync env l' idle)"
proof (rule replays_at)
  fix V s
  assume s: "s = s0 \<and> batch_ok env [] (b @ idle) s \<and> V = orc_view s"
  let ?rs = "map (start_run env s0) b"
  have "replays (\<lambda>V s. batch_ok env ?rs idle s \<and> current env ?rs idle V s) (merge_loop env ?rs l)
      (\<lambda>l' V s. explained_batch env [] idle l' s \<and> current env [] idle V s)"
    by (rule replays_ensures[OF merge_ensures[OF w(1) l]])
      (rule replays_weaken[OF merge_replays[OF w l]]; simp only:)
  then show "replays (\<lambda>W t. W = V \<and> t = s) (merge_loop env ?rs l) (\<lambda>l'. in_sync env l' idle)"
    by (rule replays_weaken) (use s batch_start lagging_start in \<open>auto simp: lagging_idle\<close>)
qed

lemma slices_replays:
  assumes w: "world_ok env" "world_blank env"
  shows "explained env l \<Longrightarrow> replays (\<lambda>V s. batch_ok env [] (concat bs) s \<and> V = orc_view s) (run_slices env bs l)
    (\<lambda>l'. in_sync env l' [])"
proof (induction bs arbitrary: l)
  case Nil
  then show ?case by (auto simp: explained_batch_def intro: replays_ret)
next
  case (Cons b bs)
  have turn: "replays (\<lambda>V s. batch_ok env [] (b @ concat bs) s \<and> V = orc_view s)
      (gbind gget (\<lambda>s. gbind (merge_loop env (map (start_run env s) b) l1) (run_slices env bs))) (\<lambda>l'. in_sync env l' [])"
    if "explained env l1" for l1
    by (intro replays_read replays_bind[OF batch_replays[OF w that] replays_explained[OF Cons.IH]])
  have go: "replays (in_sync env l1 (b @ concat bs)) (if xl_stop l1 then gret l1
      else gbind gget (\<lambda>s. gbind (merge_loop env (map (start_run env s) b) l1) (run_slices env bs)))
      (\<lambda>l'. in_sync env l' [])" for l1
  proof (cases "xl_stop l1")
    case True
    then show ?thesis by (auto simp: explained_batch_def intro: replays_ret batch_drop)
  next
    case False
    then show ?thesis using replays_explained[OF turn] by simp
  qed
  show ?case using replays_bind[OF check_replays[OF Cons.prems] go] by simp
qed

lemma exec_replays:
  assumes w: "world_ok env" "world_blank env"
  shows "explained env l \<Longrightarrow> replays (\<lambda>V s. batch_ok env [] [] s \<and> V = orc_view s) (exec_loop fuel env l)
    (\<lambda>out V s. V = orc_view s)"
proof (induction fuel arbitrary: l)
  case 0
  show ?case unfolding exec_loop.simps by (rule replays_ret) simp
next
  case (Suc fuel)
  let ?S = "\<lambda>V s. batch_ok env [] [] s \<and> V = orc_view s" and ?Q = "\<lambda>(out :: exec_locals option) V s. V = orc_view s"
  have turn: "replays (\<lambda>V t. t = s \<and> ?S V t) (gbind (glift (getActiveAgentThreads (orc_threads s))) (\<lambda>active.
        gbind (run_slices env (slices active) l1) (exec_loop fuel env))) ?Q" if l1: "explained env l1" for s l1
  proof (rule replays_lift_bind)
    fix active
    assume a: "getActiveAgentThreads (orc_threads s) = Inr active"
    then have "orc_threads s \<noteq> []" by (auto simp: getActiveAgentThreads_def Let_def)
    then show "replays (\<lambda>V t. t = s \<and> ?S V t) (gbind (run_slices env (slices active) l1) (exec_loop fuel env)) ?Q"
      using batch_active[OF _ _ a]
      by (intro replays_weaken[OF replays_bind[OF slices_replays[OF w l1] replays_explained[OF Suc.IH]]]) auto
  qed
  have go: "replays (in_sync env l1 []) (if xl_stop l1 then gret (Some l1)
         else gbind gget (\<lambda>s1. gbind (glift (getActiveAgentThreads (orc_threads s1))) (\<lambda>active.
           gbind (run_slices env (slices active) l1) (exec_loop fuel env)))) ?Q" for l1
  proof (cases "xl_stop l1")
    case True
    then show ?thesis by (auto intro: replays_ret)
  next
    case False
    have "replays (in_sync env l1 []) (gbind gget (\<lambda>s1. gbind (glift (getActiveAgentThreads (orc_threads s1))) (\<lambda>active.
           gbind (run_slices env (slices active) l1) (exec_loop fuel env)))) ?Q"
      by (rule replays_explained, rule replays_read, rule turn)
    then show ?thesis using False by simp
  qed
  show ?case unfolding exec_loop.simps
  proof (rule replays_read)
    fix s
    show "replays (\<lambda>V t. t = s \<and> ?S V t) (if orc_threads s = [] then gret (Some l)
        else gbind (check_stop env l) (\<lambda>l1. if xl_stop l1 then gret (Some l1)
         else gbind gget (\<lambda>s1. gbind (glift (getActiveAgentThreads (orc_threads s1))) (\<lambda>active.
           gbind (run_slices env (slices active) l1) (exec_loop fuel env))))) ?Q"
    proof (cases "orc_threads s = []")
      case True
      have "replays (\<lambda>V t. t = s \<and> ?S V t) (gret (Some l)) ?Q" by (rule replays_ret) simp
      then show ?thesis using True by simp
    next
      case False
      have "replays (\<lambda>V t. t = s \<and> ?S V t) (gbind (check_stop env l) (\<lambda>l1. if xl_stop l1 then gret (Some l1)
         else gbind gget (\<lambda>s1. gbind (glift (getActiveAgentThreads (orc_threads s1))) (\<lambda>active.
           gbind (run_slices env (slices active) l1) (exec_loop fuel env))))) ?Q"
        by (rule replays_weaken[OF replays_bind[OF check_replays[OF Suc.prems] go]]) auto
      then show ?thesis using False by simp
    qed
  qed
qed

lemma finish_replays:
  "replays (\<lambda>V s. V = orc_view s) (gbind (finish_execution env l) (\<lambda>r. gret (Some r))) (\<lambda>out V s. V = orc_view s)"
proof -
  have tick: "replays (\<lambda>V s. V = orc_view s) otick (\<lambda>n V s. V = orc_view s)"
    by (rule replays_tick) (simp add: orc_view_def fun_eq_iff)
  have "replays (\<lambda>V s. V = orc_view s) (gthen (gyield (Thread_event (Auth_required a))) (gret b)) (\<lambda>c V s. V = orc_view s)"
    for a and b :: "action_required_event list"
    by (rule replays_then[OF replays_yield[where Q = "\<lambda>u V s. V = orc_view s"] replays_ret]) (simp_all add: absorb_in_def)
  then have "replays (\<lambda>V s. V = orc_view s) (if length (xl_auth l) > 0
      then gbind otick (\<lambda>n. let a = mergeAuthEvents (oe_id env n) (oe_now env n) (xl_auth l) in
          gthen (gyield (Thread_event (Auth_required a)))
            (gret (xl_required l @ [Mcp_auth_required
              \<lparr>mare_id = iae_id a, mare_created_at = iae_created_at a, mare_thread_id = None,
               mare_mcp_servers = map iai_server (iae_servers a)\<rparr>])))
      else gret (xl_required l)) (\<lambda>actions V s. V = orc_view s)"
    by (auto simp: Let_def intro: replays_bind[OF tick] replays_ret)
  then show ?thesis unfolding finish_execution_def by (intro replays_bind replays_ret)
qed

lemma execute_replays:
  assumes "world_ok env" "world_blank env"
  shows "replays (\<lambda>V s. batch_ok env [] [] s \<and> V = orc_view s) (orc_execute fuel env) (\<lambda>out V s. V = orc_view s)"
proof -
  have start: "explained env initial_locals" by (simp add: explained_def initial_locals_def)
  have tail: "replays (\<lambda>V s. V = orc_view s)
      (case out of None \<Rightarrow> gret None | Some l \<Rightarrow> gbind (finish_execution env l) (\<lambda>r. gret (Some r))) (\<lambda>out V s. V = orc_view s)"
    for out by (cases out) (simp_all add: finish_replays replays_ret)
  show ?thesis unfolding orc_execute_def
    by (intro replays_read replays_lift_bind replays_weaken[OF replays_bind[OF exec_replays[OF assms start] tail]]) auto
qed

section \<open>Input\<close>

abbreviation matched :: "turn_view \<Rightarrow> orchestrator \<Rightarrow> bool" where
  "matched V s \<equiv> orc_ok s \<and> V = orc_view s"

lemma matched_run:
  assumes "tlog.synced g"
    and own: "\<And>c. maintains (of_config c) (\<lambda>e. owned_event c e \<and> \<not> is_create e \<and> \<not> is_done e) g"
  shows "replays matched (run_thread tid g) (\<lambda>a. matched)"
  unfolding replays_def
proof (intro allI impI)
  fix V s tr s' a
  assume s: "matched V s" and r: "run_thread tid g s = (tr, s', Inr a)"
  have "orc_ok s'"
    using tree_host.hosted_run[OF own, of tid, unfolded maintains_def, rule_format, of s] s r by simp
  moreover have "fold absorb_exec (map fst tr) V i = orc_view s' i" for i
    using run_replays[OF assms(1) own, of s V tid tr s' a] s r by (auto simp: orc_view_def)
  ultimately show "matched (fold absorb_exec (map fst tr) V) s'" by auto
qed

lemma matched_send: "replays matched (sendToThread env tid ms) (\<lambda>u. matched)"
  unfolding sendToThread_def by (rule matched_run[OF sync_send writer_send])

lemma matched_each: "replays P g (\<lambda>u. Q) \<Longrightarrow> replays P (each_event g) (\<lambda>es. Q)"
  unfolding replays_def each_event_def by (auto split: prod.splits sum.splits)

lemma matched_children: "replays matched (cancel_children ts closures) (\<lambda>c. matched)"
proof (induction ts arbitrary: closures)
  case Nil
  show ?case unfolding cancel_children.simps by (rule replays_ret)
next
  case (Cons kv ts)
  obtain tid t where "kv = (tid, t)" by (cases kv)
  then show ?case using replays_bind[OF matched_each[OF matched_run[OF sync_cancel writer_cancel]] Cons.IH] by simp
qed

lemma matched_for: "(\<And>x. replays matched (f x) (\<lambda>u. matched)) \<Longrightarrow> replays matched (gfor xs f) (\<lambda>u. matched)"
  by (induction xs) (auto intro: replays_ret replays_bind)

lemma input_replays: "replays matched (orc_send env ms) (\<lambda>u. matched)"
proof -
  have "replays matched (send_user_messages env ms) (\<lambda>u. matched)"
    unfolding send_user_messages_def
    by (intro replays_read replays_lift_bind) (auto split: prod.split intro!: replays_weaken[OF replays_bind[OF matched_children
          replays_then[OF matched_run[OF sync_close writer_close] matched_send]]])
  moreover have "replays matched (send_batches env ms) (\<lambda>u. matched)"
    unfolding send_batches_def gthen_def
    by (intro replays_read replays_lift_bind) (rule replays_weaken[OF matched_for], auto split: prod.split intro: matched_send)
  ultimately show ?thesis by (simp add: orc_send_def)
qed

section \<open>Turns\<close>

lemma demo_blank: "world_blank demo_orc_env"
  by (auto simp: world_blank_def demo_orc_env_def demo_thread_def thread_view_def fresh_view_def)

text \<open>
  C37. The events of a turn rebuild its threads. A consumer that starts from what the threads are and applies the
  events that \<open>send\<close> and then \<open>execute\<close> yield, in the order they arrive, ends with the context, the usage and the
  capability state of every live thread and with no thread that ended: for every order in which the parallel
  threads answer. Writes are announced, children start empty, and the completion of a child reaches its parent
  before the child goes.
\<close>

theorem orchestrator_in_sync:
  assumes "world_ok env" and "world_blank env" and "batch_ok env [] [] s"
    and "gthen (orc_send env ms) (orc_execute fuel env) s = (tr, s', Inr out)"
  shows "orc_view s' = fold absorb_exec (map fst tr) (orc_view s)"
proof -
  have "replays (\<lambda>V s. batch_ok env [] [] s \<and> matched V s) (orc_send env ms) (\<lambda>u V s. batch_ok env [] [] s \<and> matched V s)"
    by (rule replays_ensures[OF ensures_batch[OF turn_host.hosted_input]]) (rule replays_weaken[OF input_replays]; simp only:)
  then have "replays (\<lambda>V s. batch_ok env [] [] s \<and> matched V s) (gthen (orc_send env ms) (orc_execute fuel env))
      (\<lambda>out V s. V = orc_view s)"
    by (rule replays_then[OF replays_weaken execute_replays[OF assms(1,2)]]) auto
  from replaysD[OF this _ assms(4), of "orc_view s"] show ?thesis using assms(3) batch_orc by auto
qed

theorem orchestrator_in_sync_witness:
  "(\<exists>tr s' out. gthen (orc_send demo_orc_env []) (orc_execute 3 demo_orc_env) demo_orc = (tr, s', Inr out) \<and>
      orc_view s' = fold absorb_exec (map fst tr) (orc_view demo_orc) \<and> orc_view s' ''helper'' = None) \<and>
   orc_view demo_orc ''helper'' \<noteq> None"
proof -
  have "(case gthen (orc_send demo_orc_env []) (orc_execute 3 demo_orc_env) demo_orc of
      (tr, s', Inr out) \<Rightarrow> orc_view s' ''helper'' = None | _ \<Rightarrow> False)" by code_simp
  then obtain tr s' out where r: "gthen (orc_send demo_orc_env []) (orc_execute 3 demo_orc_env) demo_orc = (tr, s', Inr out)"
      "orc_view s' ''helper'' = None"
    by (auto split: prod.splits sum.splits)
  moreover have "orc_view demo_orc ''helper'' \<noteq> None" by code_simp
  ultimately show ?thesis using orchestrator_in_sync[OF demo_world demo_blank demo_batch r(1)] by blast
qed

end
