(* ===== verification/Orchestrator_Metrics.thy ===== *)
theory Orchestrator_Metrics
  imports Orchestrator_Demo
begin

text \<open>
  The metrics of a turn: the sum of the live threads and of the threads that have ended. The sum does not
  depend on the order of the threads, and the events the orchestrator handles move metrics, never change them.
\<close>

section \<open>The monoid of metrics\<close>

lemma sum_optional_assoc: "sumOptional (sumOptional a b) c = sumOptional a (sumOptional b (c :: 'a::monoid_add option))"
  by (cases a; cases b; cases c) (simp_all add: add.assoc)

lemma sum_optional_commute: "sumOptional a b = sumOptional b (a :: 'a::comm_monoid_add option)"
  by (cases a; cases b) (simp_all add: add.commute)

lemma sum_optional_none [simp]: "sumOptional a None = a"
  by (cases a) simp_all

lemma add_metrics_assoc:
  "addAgentThreadMetrics (addAgentThreadMetrics a b) c = addAgentThreadMetrics a (addAgentThreadMetrics b c)"
  by (simp add: addAgentThreadMetrics_def sum_optional_assoc)

lemma add_metrics_commute: "addAgentThreadMetrics a b = addAgentThreadMetrics b a"
  by (simp add: addAgentThreadMetrics_def sum_optional_commute add.commute)

lemma add_metrics_empty [simp]: "addAgentThreadMetrics a createEmptyAgentThreadMetrics = a"
  by (simp add: addAgentThreadMetrics_def createEmptyAgentThreadMetrics_def)

definition metrics_sum :: "agent_thread list \<Rightarrow> agent_thread_metrics \<Rightarrow> agent_thread_metrics" where
  "metrics_sum ts acc = fold (\<lambda>t total. addAgentThreadMetrics total (th_metrics t)) ts acc"

lemma getMetrics_sum:
  "getMetrics s = metrics_sum (js_values (orc_threads s)) (addAgentThreadMetrics createEmptyAgentThreadMetrics (orc_finished s))"
  by (simp add: getMetrics_def metrics_sum_def)

lemma metrics_sum_start:
  "metrics_sum ts (addAgentThreadMetrics acc m) = addAgentThreadMetrics (metrics_sum ts acc) m"
proof (induction ts arbitrary: acc)
  case (Cons t ts)
  have "addAgentThreadMetrics (addAgentThreadMetrics acc m) (th_metrics t) =
      addAgentThreadMetrics (addAgentThreadMetrics acc (th_metrics t)) m"
    by (metis add_metrics_assoc add_metrics_commute)
  then show ?case using Cons by (simp add: metrics_sum_def)
qed (simp add: metrics_sum_def)

lemma metrics_sum_append: "metrics_sum (ts @ us) acc = metrics_sum us (metrics_sum ts acc)"
  by (simp add: metrics_sum_def)

lemma metrics_sum_Cons: "metrics_sum (t # ts) acc = metrics_sum ts (addAgentThreadMetrics acc (th_metrics t))"
  by (simp add: metrics_sum_def)

lemma metrics_sum_delete:
  "distinct (js_keys m) \<Longrightarrow> js_get m k = Some t \<Longrightarrow>
     metrics_sum (js_values (js_delete k m)) (addAgentThreadMetrics acc (th_metrics t)) = metrics_sum (js_values m) acc"
proof (induction m arbitrary: acc)
  case (Cons kv m)
  obtain j u where kv: "kv = (j, u)" by (cases kv)
  show ?case
  proof (cases "j = k")
    case True
    then have "k \<notin> set (js_keys m)" using Cons.prems(1) by (simp add: kv js_keys_def)
    then have "js_delete k m = m" by (simp add: js_delete_def js_keys_def)
    then show ?thesis using True Cons.prems(2)
      by (simp add: kv js_values_def js_delete_def js_get_def metrics_sum_Cons)
  next
    case False
    then have "metrics_sum (js_values (js_delete k m)) (addAgentThreadMetrics (addAgentThreadMetrics acc (th_metrics u)) (th_metrics t)) =
        metrics_sum (js_values m) (addAgentThreadMetrics acc (th_metrics u))"
      using Cons.prems by (intro Cons.IH) (simp_all add: kv js_keys_def js_get_def)
    moreover have "addAgentThreadMetrics (addAgentThreadMetrics acc (th_metrics t)) (th_metrics u) =
        addAgentThreadMetrics (addAgentThreadMetrics acc (th_metrics u)) (th_metrics t)"
      by (metis add_metrics_assoc add_metrics_commute)
    ultimately show ?thesis using False by (simp add: kv js_values_def js_delete_def metrics_sum_Cons)
  qed
qed (simp add: js_get_def)

lemma values_set_same:
  "js_get m k = Some t0 \<Longrightarrow> th_metrics t = th_metrics t0 \<Longrightarrow>
     metrics_sum (js_values (js_set k t m)) acc = metrics_sum (js_values m) acc"
  by (induction m arbitrary: acc) (auto simp: js_get_def js_set_def js_values_def metrics_sum_Cons split: if_splits)

lemma values_set_new: "js_get m k = None \<Longrightarrow> js_values (js_set k t m) = js_values m @ [t]"
  by (induction m) (auto simp: js_get_def js_set_def js_values_def split: if_splits)

section \<open>Moves of metrics\<close>

lemma finish_metrics:
  assumes "distinct (js_keys (orc_threads s))"
  shows "getMetrics (finish_thread tid s) = getMetrics s"
proof (cases "js_get (orc_threads s) tid")
  case (Some t)
  then show ?thesis using metrics_sum_delete[OF assms Some]
    by (simp add: getMetrics_sum finish_thread_def add_metrics_assoc[symmetric])
qed (simp add: finish_thread_def)

lemma create_metrics:
  assumes "js_get (orc_threads s) tid = None" "th_metrics t = createEmptyAgentThreadMetrics"
  shows "getMetrics (s\<lparr>orc_threads := js_set tid t (orc_threads s), orc_set_refs := refs\<rparr>) = getMetrics s"
  by (simp add: getMetrics_sum values_set_new[OF assms(1)] metrics_sum_append metrics_sum_Cons assms(2))
    (simp add: metrics_sum_def)

text \<open>\<open>preSend\<close> processors only append: their type is \<open>AsyncGenerator<AgentThreadAppendContext>\<close>.\<close>

fun appends_only :: "processor_output \<Rightarrow> bool" where
  "appends_only (PO_append ctx evs u) = True"
| "appends_only out = False"

definition presend_appends :: "agent_env \<Rightarrow> bool" where
  "presend_appends env = (\<forall>p \<in> set (env_pre_send env). \<forall>n x. \<forall>out \<in> set (fst (p n x)). appends_only out)"

lemma keeps_for_in: "(\<And>x. x \<in> set xs \<Longrightarrow> keeps f (g x)) \<Longrightarrow> keeps f (gfor xs g)"
  by (induction xs) (auto intro: keeps_intro)

lemma append_metrics: "keeps th_metrics (appendToContext ctx evs cu None completion)"
  unfolding appendToContext_def Let_def by (intro keeps_intro) (simp_all add: keeps_basic)

lemma output_metrics: "appends_only out \<Longrightarrow> keeps th_metrics (handle_output out)"
  unfolding handle_output_def by (cases out) (auto intro!: keeps_intro append_metrics)

lemma tick_metrics: "keeps th_metrics gtick"
  unfolding gtick_def by (intro keeps_intro) simp

lemma processors_metrics:
  assumes "\<And>p n x out. p \<in> set ps \<Longrightarrow> out \<in> set (fst (p n x)) \<Longrightarrow> appends_only out"
  shows "keeps th_metrics (executeContextProcessors ps)"
  unfolding executeContextProcessors_def
proof (intro keeps_bind keeps_basic keeps_for_in tick_metrics)
  fix s0 p n
  assume p: "p \<in> set ps"
  obtain outs failure where o: "p n (execution_of s0) = (outs, failure)" by (cases "p n (execution_of s0)")
  have "keeps th_metrics (gfor outs handle_output)"
    using assms[OF p, of _ n "execution_of s0"] o by (intro keeps_for_in output_metrics) auto
  then show "keeps th_metrics (case p n (execution_of s0) of (outs, failure) \<Rightarrow>
      gthen (gfor outs handle_output) (case failure of None \<Rightarrow> gret () | Some e \<Rightarrow> gthrow e))"
    by (cases failure) (auto simp: o intro!: keeps_then keeps_basic)
qed

lemma context_metrics: "keeps th_metrics (send_context env m)"
  by (cases "(env, m)" rule: send_context.cases)
    (auto simp: fresh_event_def intro!: keeps_intro tick_metrics frame_case)

lemma send_metrics:
  assumes "presend_appends env"
  shows "keeps th_metrics (send env ms)"
proof -
  have "appends_only out" if "p \<in> set (pre_send_processors env)" "out \<in> set (fst (p n x))" for p n x out
    using that assms
    by (auto simp: pre_send_processors_def presend_appends_def open_tool_call_closer_def split: option.splits prod.splits)
  then have p: "keeps th_metrics (executeContextProcessors (pre_send_processors env))"
    by (rule processors_metrics)
  have "keeps th_metrics (send_body env ms)"
    unfolding send_body_def append_if_any_def
    by (intro keeps_intro p context_metrics frame_case) (auto intro!: keeps_intro append_metrics)
  then have f: "keeps th_metrics (gfinally (send_body env ms) (th_busy_update b))" for b
  proof -
    have "final_of (gfinally g f s) = f (final_of (g s))" "trace_of (gfinally g f s) = trace_of (g s)"
      for g :: "unit thread_gen" and f s by (simp_all add: gfinally_def split: prod.split)
    then show ?thesis using \<open>keeps th_metrics (send_body env ms)\<close> by (simp add: keeps_def)
  qed
  show ?thesis unfolding send_def throwIfAlreadyComplete_def throwIfContextBusy_def
    by (intro keeps_intro f frame_case) (auto intro!: keeps_intro f)
qed

section \<open>One event\<close>

text \<open>The metrics of the turn are \<open>M\<close>.\<close>

definition metered :: "agent_thread_metrics \<Rightarrow> orchestrator \<Rightarrow> bool" where
  "metered M s = (distinct (js_keys (orc_threads s)) \<and> getMetrics s = M)"

lemma put_metered:
  assumes "metered M s" "js_get (orc_threads s) tid = Some t0" "th_metrics t = th_metrics t0"
  shows "metered M (put_thread tid t s)"
  using assms js_distinct_set[of "orc_threads s" tid t]
  by (simp add: metered_def getMetrics_sum put_thread_def values_set_same)

lemma run_metered:
  assumes "keeps th_metrics g"
  shows "maintains (metered M) (\<lambda>e. True) (run_thread tid g)"
  unfolding maintains_def
proof (intro allI impI)
  fix s
  assume s: "metered M s"
  show "metered M (final_of (run_thread tid g s)) \<and>
      (\<forall>p \<in> set (trace_of (run_thread tid g s)). metered M (snd p) \<and> True)"
  proof (cases "js_get (orc_threads s) tid")
    case (Some t)
    obtain tr t' r where g: "g t = (tr, t', r)" by (cases "g t")
    then have "th_metrics t' = th_metrics t" "\<forall>p \<in> set tr. th_metrics (snd p) = th_metrics t"
      using assms[unfolded keeps_def, rule_format, of t] by auto
    then show ?thesis using put_metered[OF s Some] Some g by (auto simp: run_thread_def)
  qed (use s in \<open>simp add: run_thread_def\<close>)
qed

lemma tick_metered: "maintains (metered M) (\<lambda>e. True) otick"
  unfolding otick_def by (intro maintains_bind maintains_intro) (simp add: metered_def getMetrics_sum)

lemma finish_metered: "metered M s \<Longrightarrow> metered M (finish_thread tid s)"
  using finish_metrics[of s tid] js_distinct_delete[of "orc_threads s" tid]
  by (simp add: metered_def) (simp add: finish_thread_def split: option.split)

lemma done_metered:
  assumes "\<And>tid. presend_appends (oe_thread env tid)"
  shows "maintains (metered M) (\<lambda>e. True) (process_done env d)"
  unfolding process_done_def deliver_completion_def sendToThread_def
  by (intro maintains_bind maintains_intro tick_metered run_metered send_metrics assms finish_metered TrueI)

definition starts_empty :: "orc_env \<Rightarrow> bool" where
  "starts_empty env = (\<forall>n c sets i tid p t refs.
     oe_create env n c sets i tid p = Inr (t, refs) \<longrightarrow> th_metrics t = createEmptyAgentThreadMetrics)"

lemma create_metered:
  assumes "metered M s" and "js_get (orc_threads s) (oe_thread_id env (orc_tick s)) = None"
    and "starts_empty env"
  shows "metered M (final_of (process_create env c current sets s)) \<and>
    (\<forall>p \<in> set (trace_of (process_create env c current sets s)). metered M (snd p))"
proof -
  have t: "metered M (orc_tick_update f s)" for f using assms(1) by (simp add: metered_def getMetrics_sum)
  have a: "metered M ((orc_tick_update f s)\<lparr>orc_threads := js_set (oe_thread_id env (orc_tick s)) t (orc_threads s),
      orc_set_refs := refs\<rparr>)" if "th_metrics t = createEmptyAgentThreadMetrics" for t refs f
  proof -
    let ?s = "orc_tick_update f s"
    have "metered M ?s" by (rule t)
    then show ?thesis using create_metrics[of ?s "oe_thread_id env (orc_tick s)" t refs] assms(2) that
        js_distinct_set[of "orc_threads s" "oe_thread_id env (orc_tick s)" t]
      by (simp add: metered_def)
  qed
  show ?thesis
  proof (cases "oe_create env (orc_tick s) (th_config current) sets (csa_agent_info c) (oe_thread_id env (orc_tick s))
      \<lparr>ap_thread_id = csa_thread_id c, ap_tool_call_id = csa_tool_call_id c\<rparr>")
    case (Inl x)
    then show ?thesis using t[of Suc]
      by (simp add: process_create_def Let_def otick_def gbind_run gthen_def gen_defs)
  next
    case (Inr b)
    obtain nt refs where b: "b = (nt, refs)" by (cases b)
    have "th_metrics nt = createEmptyAgentThreadMetrics" using assms(3) Inr b unfolding starts_empty_def by blast
    then show ?thesis using t[of "Suc \<circ> Suc"] a[of nt _ "Suc \<circ> Suc"] Inr b
      by (simp add: process_create_def Let_def otick_def gbind_run gthen_def gen_defs)
  qed
qed

text \<open>
  C39. Metrics are neither lost nor counted twice. While the orchestrator handles an event of a thread, whatever
  it is, the metrics of the turn, the sum over the live threads and over those that have ended, are the same at
  every yield and at the end: a sub-agent that ends hands its metrics over as it leaves the map, and neither
  the answer it delivers to its parent nor a thread that starts adds any. The processors before a send only
  append, as their type says, and new threads start from empty metrics.
\<close>

theorem metrics_conserved:
  assumes "distinct (js_keys (orc_threads s))"
    and "js_get (orc_threads s) (oe_thread_id env (orc_tick s)) = None"
    and "\<And>tid. presend_appends (oe_thread env tid)"
    and "starts_empty env"
  shows "getMetrics (final_of (processAgentStreamChunk env e s)) = getMetrics s \<and>
    (\<forall>p \<in> set (trace_of (processAgentStreamChunk env e s)). getMetrics (snd p) = getMetrics s)"
proof -
  let ?M = "getMetrics s" and ?g = "processAgentStreamChunk env e"
  have s: "metered ?M s" using assms(1) by (simp add: metered_def)
  have plain: "maintains (metered ?M) (\<lambda>e. True) (gthen (gyield x) (gret b))" for x b by (intro maintains_intro TrueI)
  have "metered ?M (final_of (?g s)) \<and> (\<forall>p \<in> set (trace_of (?g s)). metered ?M (snd p))"
  proof (cases "\<exists>c. e = Create_sub_agent c")
    case True
    then obtain c where e: "e = Create_sub_agent c" by blast
    note c = create_metered[OF s assms(2,4)]
    show ?thesis
    proof (cases "js_get (orc_threads s) (csa_thread_id c)")
      case (Some t)
      then have "?g s = process_create env c t (js_get (orc_set_refs s) (csa_thread_id c)) s" by (simp add: e processAgentStreamChunk_def gbind_get)
      then show ?thesis using c by simp
    qed (use s in \<open>simp add: e processAgentStreamChunk_def gbind_get gthrow_def\<close>)
  next
    case False
    then have "maintains (metered ?M) (\<lambda>e. True) ?g"
      by (cases e)
        (auto simp: processAgentStreamChunk_def intro!: plain done_metered[OF assms(3)] maintains_get maintains_case
          maintains_basic)
    then show ?thesis using s by (auto simp: maintains_def)
  qed
  then show ?thesis by (simp add: metered_def)
qed

definition demo_metered :: orchestrator where
  "demo_metered = demo_orc\<lparr>orc_threads := [(''root'', demo_root),
     (''helper'', demo_helper\<lparr>th_metrics := createEmptyAgentThreadMetrics\<lparr>total_tokens := 7\<rparr>\<rparr>)]\<rparr>"

definition demo_done :: thread_event where
  "demo_done = Thread_done
     \<lparr>de_thread_id = ''helper'', de_title = ''demo'', de_parent = Some demo_place, de_status = Done_cancelled ''why'',
      de_send_to_parent = Some \<lparr>tm_tool_call_id = ''a'', tm_content = ''hi''\<rparr>\<rparr>"

theorem metrics_conserved_witness:
  "getMetrics (final_of (processAgentStreamChunk demo_orc_env demo_done demo_metered)) = getMetrics demo_metered \<and>
   total_tokens (getMetrics demo_metered) = 7 \<and>
   js_keys (orc_threads (final_of (processAgentStreamChunk demo_orc_env demo_done demo_metered))) = [''root'']"
proof -
  have "distinct (js_keys (orc_threads demo_metered))"
    "js_get (orc_threads demo_metered) (oe_thread_id demo_orc_env (orc_tick demo_metered)) = None"
    by (simp_all add: demo_metered_def demo_orc_def js_keys_def js_get_def demo_orc_env_def)
  moreover have "presend_appends (oe_thread demo_orc_env tid)" for tid
    by (simp add: demo_orc_env_def demo_env_def presend_appends_def)
  moreover have "starts_empty demo_orc_env" by (auto simp: starts_empty_def demo_orc_env_def demo_thread_def)
  ultimately have "getMetrics (final_of (processAgentStreamChunk demo_orc_env demo_done demo_metered)) = getMetrics demo_metered"
    by (rule metrics_conserved[THEN conjunct1])
  moreover have "total_tokens (getMetrics demo_metered) = 7" by code_simp
  moreover have "js_keys (orc_threads (final_of (processAgentStreamChunk demo_orc_env demo_done demo_metered))) = [''root'']"
    by code_simp
  ultimately show ?thesis by blast
qed

end
