(* ===== verification/Orchestrator_Input.thy ===== *)
theory Orchestrator_Input
  imports Orchestrator_Demo
begin

text \<open>
  What the orchestrator does with input: approval policies for the tool sets the threads share, batches of
  answers that must fit every thread, and user messages that cancel the sub-agents.
\<close>

section \<open>Approval policies\<close>

definition apply_policy :: "tool_approval_policy_item \<Rightarrow> user_tool_set \<Rightarrow> user_tool_set" where
  "apply_policy p ts =
     (if uts_name ts = tpi_server_name p
      then ts\<lparr>uts_state := setApprovalPolicy (tpi_name p) (tpi_action p) (uts_state ts)\<rparr> else ts)"

lemma js_set_again: "js_set k v (js_set k v m) = js_set k v m"
  by (induction m) (auto simp: js_set_def)

lemma apply_again: "apply_policy p (apply_policy p ts) = apply_policy p ts"
  by (simp add: apply_policy_def setApprovalPolicy_def js_set_again)

lemma apply_name [simp]: "uts_name (apply_policy p ts) = uts_name ts"
  by (simp add: apply_policy_def)

lemma set_policy_sets [simp]:
  "js_get (orc_tool_sets (set_policy p r s)) q =
     (if q = r then map_option (apply_policy p) (js_get (orc_tool_sets s) r) else js_get (orc_tool_sets s) q)"
  by (auto simp: set_policy_def apply_policy_def split: option.split)

lemma set_policy_frame [simp]:
  "orc_threads (set_policy p r s) = orc_threads s" "orc_set_refs (set_policy p r s) = orc_set_refs s"
  by (auto simp: set_policy_def split: option.split)

lemma policies_frame [simp]:
  "orc_threads (fold (set_policy p) rs s) = orc_threads s"
  "orc_set_refs (fold (set_policy p) rs s) = orc_set_refs s"
  by (induction rs arbitrary: s) simp_all

lemma user_sets_frame [simp]: "all_user_sets (fold (set_policy p) rs s) = all_user_sets s"
  by (simp add: all_user_sets_def getUserToolSets_def [abs_def])

lemma policy_sets:
  "js_get (orc_tool_sets (fold (set_policy p) rs s)) q =
     (if q \<in> set rs then map_option (apply_policy p) (js_get (orc_tool_sets s) q) else js_get (orc_tool_sets s) q)"
proof (induction rs arbitrary: s)
  case (Cons r rs)
  then show ?case by (cases "js_get (orc_tool_sets s) q") (auto simp: apply_again)
qed simp

lemma policies_sets:
  fixes ps s
  defines "s' \<equiv> fold (\<lambda>p s. fold (set_policy p) (all_user_sets s) s) ps s"
  shows "js_get (orc_tool_sets s') q =
      (if q \<in> set (all_user_sets s) then map_option (fold apply_policy ps) (js_get (orc_tool_sets s) q)
       else js_get (orc_tool_sets s) q)"
    and "orc_threads s' = orc_threads s" and "orc_set_refs s' = orc_set_refs s"
  unfolding s'_def
  by (induction ps arbitrary: s) (auto simp: policy_sets option.map_comp comp_def option.map_ident id_def split: if_splits)

definition known_server :: "orchestrator \<Rightarrow> tool_approval_policy_item \<Rightarrow> bool" where
  "known_server s p = list_ex (named_set s (tpi_server_name p)) (all_user_sets s)"

lemma policy_errors_none: "policy_errors s i ps = [] \<longleftrightarrow> (\<forall>p \<in> set ps. known_server s p)"
  by (induction ps arbitrary: i) (auto simp: known_server_def)

lemma policy_errors_count: "length (policy_errors s i ps) = length (filter (\<lambda>p. \<not> known_server s p) ps)"
  by (induction ps arbitrary: i) (auto simp: known_server_def)

text \<open>
  Approval policies are applied all or none. There is one error per policy whose server no live thread has,
  and with an error nothing changes; without one, every user tool set of a live thread has exactly the
  policies for its name, in their order and once each, however many threads share it, and nothing else changes.
\<close>

theorem approval_policies_exact:
  assumes "applyApprovalPolicies ps s = (s', errors)"
  shows "length errors = length (filter (\<lambda>p. \<not> known_server s p) ps) \<and>
    (if errors \<noteq> [] then s' = s
     else orc_threads s' = orc_threads s \<and> orc_set_refs s' = orc_set_refs s \<and>
       js_get (orc_tool_sets s') r =
         (if r \<in> set (all_user_sets s) then map_option (fold apply_policy ps) (js_get (orc_tool_sets s) r)
          else js_get (orc_tool_sets s) r))"
  using assms policy_errors_count[of s 0 ps] policies_sets[of ps s]
  by (auto simp: applyApprovalPolicies_def Let_def split: if_splits)

text \<open>Two threads that share the set 0.\<close>

definition demo_set :: user_tool_set where
  "demo_set = \<lparr>uts_name = ''mcp'', uts_state = \<lparr>tss_policy = new_policy
     \<lparr>tsc_enable = [], tsc_disable = [], tsc_preload = [], tsc_require_approval = None\<rparr> True, tss_approvals = []\<rparr>\<rparr>"

definition demo_shared :: orchestrator where
  "demo_shared = demo_orc\<lparr>orc_set_refs := [(''root'', [0]), (''helper'', [0])], orc_tool_sets := [(0, demo_set)]\<rparr>"

definition demo_policy :: "string \<Rightarrow> tool_approval_policy_item" where
  "demo_policy server = \<lparr>tpi_server_name = server, tpi_name = ''f'', tpi_action = \<lparr>tap_expire_at = None\<rparr>\<rparr>"

theorem approval_policies_exact_witness:
  "snd (applyApprovalPolicies [demo_policy ''mcp'', demo_policy ''no''] demo_shared) \<noteq> [] \<and>
   fst (applyApprovalPolicies [demo_policy ''mcp'', demo_policy ''no''] demo_shared) = demo_shared \<and>
   js_get (orc_tool_sets (fst (applyApprovalPolicies [demo_policy ''mcp''] demo_shared))) 0 =
     Some (apply_policy (demo_policy ''mcp'') demo_set)"
proof -
  let ?bad = "applyApprovalPolicies [demo_policy ''mcp'', demo_policy ''no''] demo_shared"
  let ?good = "applyApprovalPolicies [demo_policy ''mcp''] demo_shared"
  have "snd ?bad \<noteq> []" "snd ?good = []" by code_simp+
  moreover have "0 \<in> set (all_user_sets demo_shared)" "js_get (orc_tool_sets demo_shared) 0 = Some demo_set"
    by (simp_all add: all_user_sets_def demo_shared_def demo_orc_def getUserToolSets_def js_keys_def js_get_def)
  ultimately show ?thesis
    using approval_policies_exact[OF surjective_pairing, of "[demo_policy ''mcp'', demo_policy ''no'']" demo_shared]
      approval_policies_exact[OF surjective_pairing, of "[demo_policy ''mcp'']" demo_shared 0] by simp
qed

section \<open>Batches of answers\<close>

lemma validated:
  "validation_errors s bs errors = Inr [] \<Longrightarrow>
     errors = [] \<and> (\<forall>(tid, b) \<in> set bs. \<exists>t. js_get (orc_threads s) tid = Some t \<and> result_of (validateSendInput b t) = Inr ())"
proof (induction bs arbitrary: errors)
  case (Cons kv bs)
  then show ?case
    by (cases kv) (auto split: option.splits sum.splits thrown.splits error_class.splits if_splits dest!: Cons.IH)
qed simp

lemma fold_set_has: "js_has (fold (\<lambda>k. js_set k (f k)) ks m) k \<longleftrightarrow> k \<in> set ks \<or> js_has m k"
  by (induction ks arbitrary: m) auto

lemma fold_sets_has: "js_has m k \<Longrightarrow> js_has (fold (\<lambda>(k, v). js_set k v) kvs m) k"
  by (induction kvs arbitrary: m) auto

lemma batches_cover:
  assumes "batches_by_thread s ms = Inr bs" and "js_has (orc_threads s) tid"
  shows "js_has bs tid"
proof -
  let ?none = "fold (\<lambda>tid. js_set tid ([] :: send_input list)) (js_keys (orc_threads s)) []"
  have has: "js_has ?none tid"
    unfolding fold_set_has[of "\<lambda>tid. [] :: send_input list"] using assms(2) by (simp add: js_has_keys)
  have "bs = ?none \<or> (\<exists>main. bs = js_set main ms ?none) \<or>
      (\<exists>grouped. bs = fold (\<lambda>(k, v). js_set k v) grouped ?none)"
    using assms(1) by (auto simp: batches_by_thread_def Let_def bindE_Inr_iff split: if_splits)
  then show ?thesis
  proof (elim disjE exE)
    fix grouped
    assume "bs = fold (\<lambda>(k, v). js_set k v) grouped ?none"
    then show ?thesis using fold_sets_has[OF has, of grouped] by simp
  qed (use has in simp_all)
qed

text \<open>
  C40. Answers are checked before anything is written. When a batch without a user message yields an event or
  changes the orchestrator, every live thread has its part of the batch, and each part has passed the
  validation of its thread in the state before: a batch that one thread rejects leaves all threads as they were.
\<close>

theorem rejected_batch_writes_nothing:
  assumes "orc_send env ms s = (tr, s', r)" and "\<not> list_ex isInputUserMessage ms" and "tr \<noteq> [] \<or> s' \<noteq> s"
  shows "\<exists>bs. batches_by_thread s ms = Inr bs \<and> (\<forall>tid. js_has (orc_threads s) tid \<longrightarrow> js_has bs tid) \<and>
    (\<forall>(tid, b) \<in> set bs. \<exists>t. js_get (orc_threads s) tid = Some t \<and> result_of (validateSendInput b t) = Inr ())"
proof (cases "batches_by_thread s ms")
  case (Inl e)
  then show ?thesis using assms by (auto simp: orc_send_def send_batches_def gbind_run gen_defs)
next
  case (Inr bs)
  have "validation_errors s bs [] = Inr []"
  proof (rule ccontr)
    assume "validation_errors s bs [] \<noteq> Inr []"
    then show False using assms Inr
      by (cases "validation_errors s bs []")
        (auto simp: orc_send_def send_batches_def gbind_run gthen_def gen_defs guardE_def split: if_splits)
  qed
  then show ?thesis using validated batches_cover[OF Inr] Inr by blast
qed

text \<open>An approval for the root, which waits for it.\<close>

definition demo_waiting :: orchestrator where
  "demo_waiting = demo_orc\<lparr>orc_threads := [(''t'', demo_thread None demo_pending)]\<rparr>"

theorem rejected_batch_writes_nothing_witness:
  "\<exists>bs. batches_by_thread demo_waiting [demo_approval] = Inr bs \<and>
    (\<forall>tid. js_has (orc_threads demo_waiting) tid \<longrightarrow> js_has bs tid) \<and>
    (\<forall>(tid, b) \<in> set bs. \<exists>t. js_get (orc_threads demo_waiting) tid = Some t \<and> result_of (validateSendInput b t) = Inr ())"
proof -
  obtain tr s' r where o: "orc_send demo_orc_env [demo_approval] demo_waiting = (tr, s', r)"
    by (cases "orc_send demo_orc_env [demo_approval] demo_waiting")
  have "events_of (orc_send demo_orc_env [demo_approval] demo_waiting) \<noteq> []" by code_simp
  then have "tr \<noteq> [] \<or> s' \<noteq> demo_waiting" using o by simp
  moreover have "\<not> list_ex isInputUserMessage [demo_approval]" by (simp add: demo_approval_def)
  ultimately show ?thesis using rejected_batch_writes_nothing[OF o] by blast
qed

section \<open>User messages\<close>

text \<open>The completion a cancelled sub-agent has: its own, if it was complete already.\<close>

definition cancelled_completion :: "agent_thread \<Rightarrow> agent_parent \<Rightarrow> sub_agent_completion" where
  "cancelled_completion t p =
     (case th_completion t of Some c \<Rightarrow> c
      | None \<Rightarrow> Completion_cancelled CANCELED_BECAUSE_USER_SENT_NEW_MESSAGE
          \<lparr>tm_tool_call_id = ap_tool_call_id p, tm_content = CANCELED_BECAUSE_USER_SENT_NEW_MESSAGE\<rparr>)"

definition cancelled :: "agent_thread \<Rightarrow> agent_thread" where
  "cancelled t = (case ac_parent (th_config t) of None \<Rightarrow> t
     | Some p \<Rightarrow> th_completion_update (\<lambda>_. Some (cancelled_completion t p)) t)"

lemma cancel_one:
  assumes "js_get (orc_threads s) tid = Some t" "ac_parent (th_config t) = Some p"
  shows "\<exists>tr. run_thread tid (cancel CANCELED_BECAUSE_USER_SENT_NEW_MESSAGE) s =
    (tr, put_thread tid (cancelled t) s, Inr ())"
proof -
  have e: "th_completion_update (case_option (Some c) Some) t =
      th_completion_update (\<lambda>_. Some (case th_completion t of None \<Rightarrow> c | Some k \<Rightarrow> k)) t" for c
    by (cases t) (simp split: option.split)
  show ?thesis using assms
    by (cases "th_completion t") (simp_all add: e run_thread_def cancel_def gbind_get gthen_def gbind_run gen_defs
        Let_def cancelled_def cancelled_completion_def)
qed

lemma cancel_all:
  assumes "distinct (map fst ts)"
    and "\<And>tid t. (tid, t) \<in> set ts \<Longrightarrow> js_get (orc_threads s) tid = Some t \<and> ac_parent (th_config t) \<noteq> None"
  shows "\<exists>tr s' m. cancel_children ts closures s = (tr, s', Inr m) \<and>
    (\<forall>tid t. (tid, t) \<in> set ts \<longrightarrow> js_get (orc_threads s') tid = Some (cancelled t)) \<and>
    (\<forall>tid. tid \<notin> fst ` set ts \<longrightarrow> js_get (orc_threads s') tid = js_get (orc_threads s) tid)"
  using assms
proof (induction ts arbitrary: s closures)
  case (Cons kv ts)
  obtain tid t where kv: "kv = (tid, t)" by (cases kv)
  have t: "js_get (orc_threads s) tid = Some t" "ac_parent (th_config t) \<noteq> None"
    using Cons.prems(2)[of tid t] by (simp_all add: kv)
  then obtain p tr where one: "run_thread tid (cancel CANCELED_BECAUSE_USER_SENT_NEW_MESSAGE) s =
      (tr, put_thread tid (cancelled t) s, Inr ())" using cancel_one by blast
  let ?s = "put_thread tid (cancelled t) s"
  have new: "tid \<notin> fst ` set ts" using Cons.prems(1) by (simp add: kv)
  have "js_get (orc_threads ?s) i = Some u \<and> ac_parent (th_config u) \<noteq> None" if "(i, u) \<in> set ts" for i u
  proof -
    have "i \<noteq> tid" using that new by force
    then show ?thesis using Cons.prems(2)[of i u] that by (simp add: put_thread_def)
  qed
  then obtain tr' s' m where ih: "cancel_children ts (fold closure_of (map fst tr) closures) ?s = (tr', s', Inr m)"
      "\<And>i u. (i, u) \<in> set ts \<Longrightarrow> js_get (orc_threads s') i = Some (cancelled u)"
      "\<And>i. i \<notin> fst ` set ts \<Longrightarrow> js_get (orc_threads s') i = js_get (orc_threads ?s) i"
    using Cons.IH[of ?s "fold closure_of (map fst tr) closures"] Cons.prems(1) by (auto simp: kv)
  have "cancel_children (kv # ts) closures s = (tr @ tr', s', Inr m)"
    using one ih(1) by (simp add: kv gbind_run each_event_def)
  moreover have "js_get (orc_threads s') tid = Some (cancelled t)" using ih(3)[OF new] by (simp add: put_thread_def)
  moreover have "js_get (orc_threads s') i = js_get (orc_threads s) i" if "i \<notin> fst ` set (kv # ts)" for i
    using ih(3)[of i] that by (simp add: kv put_thread_def)
  ultimately show ?case using ih(2) by (auto simp: kv)
qed (simp add: gret_def)

lemma run_other: "run_thread tid g s = (tr, s', r) \<Longrightarrow> i \<noteq> tid \<Longrightarrow> js_get (orc_threads s') i = js_get (orc_threads s) i"
  by (auto simp: run_thread_def put_thread_def split: option.splits prod.splits)

text \<open>
  A user message cancels every sub-agent. When a batch with a user message is sent, whatever becomes of the
  message itself, every sub-agent that was live has a completion afterwards: the one it already had, or the
  cancellation that answers its parent's call, and nothing else of it has changed.
\<close>

theorem user_message_cancels_sub_agents:
  assumes "list_ex isInputUserMessage ms" and "distinct (js_keys (orc_threads s))"
    and "getMainThread s = Inr main"
    and "js_get (orc_threads s) tid = Some t" "ac_parent (th_config t) = Some p"
  shows "js_get (orc_threads (final_of (orc_send env ms s))) tid = Some (cancelled t) \<and>
    th_completion (cancelled t) = Some (cancelled_completion t p)"
proof -
  obtain mid mt where main: "main = (mid, mt)" by (cases main)
  have "find (\<lambda>kv. is_root (snd kv)) (orc_threads s) = Some (mid, mt)"
    using assms(3) unfolding main by (auto simp: getMainThread_def split: option.splits)
  then obtain k where "k < length (orc_threads s)" "is_root (snd (orc_threads s ! k))" "orc_threads s ! k = (mid, mt)"
    unfolding find_Some_iff by metis
  then have root: "(mid, mt) \<in> set (orc_threads s)" "is_root mt" using nth_mem by fastforce+
  have "js_get (orc_threads s) mid = Some mt" by (rule js_in_get[OF assms(2) root(1)])
  then have other: "tid \<noteq> mid" using assms(4,5) root(2) by (auto simp: is_root_def)
  have "(tid, t) \<in> set (getChildThreads s)"
    using js_get_in[OF assms(4)] assms(5) by (simp add: getChildThreads_def is_root_def)
  moreover have d: "distinct (map fst (getChildThreads s))"
    using assms(2) by (simp add: getChildThreads_def js_keys_def distinct_map_filter)
  moreover have "js_get (orc_threads s) i = Some u \<and> ac_parent (th_config u) \<noteq> None"
    if "(i, u) \<in> set (getChildThreads s)" for i u
    using js_in_get[OF assms(2), of i u] that by (simp add: getChildThreads_def is_root_def)
  ultimately obtain tr s1 m where c: "cancel_children (getChildThreads s) [] s = (tr, s1, Inr m)"
      "js_get (orc_threads s1) tid = Some (cancelled t)"
    using cancel_all[of "getChildThreads s" s "[]"] by metis
  obtain tr2 s2 r2 where two: "run_thread mid (closeAllOpenToolCalls m CANCELED_BECAUSE_USER_SENT_NEW_MESSAGE) s1 = (tr2, s2, r2)"
    by (cases "run_thread mid (closeAllOpenToolCalls m CANCELED_BECAUSE_USER_SENT_NEW_MESSAGE) s1")
  obtain tr3 s3 r3 where three: "sendToThread env mid ms s2 = (tr3, s3, r3)" by (cases "sendToThread env mid ms s2")
  have "final_of (orc_send env ms s) = (case r2 of Inl x \<Rightarrow> s2 | Inr u \<Rightarrow> s3)"
    using assms(1) c(1) two three
    by (simp add: orc_send_def send_user_messages_def gthen_def gbind_run gget_def glift_def assms(3)[unfolded main]
        split: sum.split)
  moreover have "js_get (orc_threads s2) tid = Some (cancelled t)" using run_other[OF two other] c(2) by simp
  moreover have "js_get (orc_threads s3) tid = js_get (orc_threads s2) tid"
    using run_other[OF three[unfolded sendToThread_def] other] by simp
  ultimately show ?thesis using assms(5) by (simp add: cancelled_def split: sum.split)
qed

theorem user_message_cancels_sub_agents_witness:
  "js_get (orc_threads (final_of (orc_send demo_orc_env [Send_user (IText ''stop'')] demo_orc))) ''helper'' =
     Some (cancelled demo_helper) \<and>
   th_completion (cancelled demo_helper) = Some (cancelled_completion demo_helper demo_place)"
  by (rule user_message_cancels_sub_agents[where main = "(''root'', demo_root)"])
    (simp_all add: demo_orc_def js_keys_def js_get_def getMainThread_def is_root_def demo_root_def demo_helper_def
      demo_config_def demo_agent_config_def)

end
