(* ===== verification/Turn_Handle.thy ===== *)
theory Turn_Handle
  imports Session_Steps Orchestrator
begin

text \<open>
  \<open>agent-session/TurnHandle.ts\<close>: one turn run to its end. \<open>stream\<close> drives the orchestrator, writes what each event
  changes to the store before it yields the event, and writes the terminal state of the turn itself; with the
  classes of \<open>agent-session/store/SessionStoreErrors.ts\<close> and their messages.

  The handle is a record over the store it writes to. Between two of its calls other handles may use the store:
  \<open>te_rival env n\<close> is what they do before interaction \<open>n\<close>. The consumer of the stream decides at each yield
  whether it goes on, leaves or throws. The execution is the trace \<open>orc_execute\<close> gives; it is taken event by
  event, so what a turn that stops early never asks for has no effect on the store. Counting for operators
  (\<open>getOperationMetrics\<close>, \<open>writeStore\<close>) is left out.
\<close>

section \<open>Errors\<close>

fun status_text :: "turn_status \<Rightarrow> string" where
  "status_text St_running = ''running''"
| "status_text St_paused = ''paused''"
| "status_text St_done = ''done''"
| "status_text St_cancelled = ''cancelled''"
| "status_text St_error = ''error''"

fun invariant_message :: "invariant_violation \<Rightarrow> string" where
  "invariant_message (Thread_already_exists i) =
     ''new_threads must only contain threads absent on the previous turn; thread '' @ CHR 0x27 # i @ CHR 0x27 # '' already exists''"
| "invariant_message (Append_unknown_thread i) = ''new_context_appends references unknown thread '' @ i"
| "invariant_message (Capability_unknown_thread i) = ''capability_states references unknown thread '' @ i"
| "invariant_message (Capability_duplicate_thread i) = ''capability_states contains duplicate thread '' @ i"
| "invariant_message (Capability_missing_thread i) = ''capability_states is missing thread '' @ i"
| "invariant_message (Named_agent_cannot_be_updated i) = ''Session '' @ i @ '' is named; agent cannot be updated''"
| "invariant_message (Expected_status want i got) =
     ''expected '' @ status_text want @ '' state for turn '' @ i @ '', got '' @ status_text got"
| "invariant_message (Thread_not_found i) = ''Thread not found: '' @ i"

text \<open>The text of a page token and the message of a failed \<open>schema.parse\<close> are parameters.\<close>

fun store_error_message :: "(page_token \<Rightarrow> string) \<Rightarrow> string \<Rightarrow> serror \<Rightarrow> string" where
  "store_error_message tok zod (Session_not_found i) = ''Session not found: '' @ i"
| "store_error_message tok zod (Turn_not_found i) = ''Turn not found: '' @ i"
| "store_error_message tok zod (Session_already_exists i) = ''Session already exists: '' @ i"
| "store_error_message tok zod (Session_external_id_conflict i) = ''Session already exists for external id: '' @ i"
| "store_error_message tok zod (Turn_already_exists i) = ''Turn already exists: '' @ i"
| "store_error_message tok zod (Turn_event_already_exists s t e) =
     ''Turn event already exists: '' @ s @ ''/'' @ t @ ''/'' @ e"
| "store_error_message tok zod (Previous_turn_running i) =
     ''Previous turn '' @ i @ '' is still non-terminal; freezeAndGetTurn must be called before creating a successor''"
| "store_error_message tok zod (Turn_not_running i st) =
     ''Turn '' @ i @ '' is not running ('' @ status_text (state_status st) @ '')''"
| "store_error_message tok zod (Invalid_page_token t) = ''Invalid page token: '' @ tok t"
| "store_error_message tok zod (Store_invariant v) = invariant_message v"
| "store_error_message tok zod Zod_error = zod"

text \<open>What ends the body of \<open>stream\<close> early: the consumer returns the generator, or something throws.\<close>

datatype raised = Raised_by_store serror | Raised thrown

datatype stream_exit = Consumer_left | Threw raised

section \<open>The handle and its world\<close>

datatype consumer_move = Goes_on | Leaves | Throws thrown

record turn_env =
  te_now :: "nat \<Rightarrow> int"
  te_lib :: iso_lib
  te_id :: "nat \<Rightarrow> string"
  te_clock :: "nat \<Rightarrow> nat \<Rightarrow> int"
  te_aborted :: "nat \<Rightarrow> json option"
  te_consumer :: "nat \<Rightarrow> consumer_move"
  te_rival :: "nat \<Rightarrow> store \<Rightarrow> store"
  te_read_event :: "json \<Rightarrow> persisted_event"
  te_string :: "thrown \<Rightarrow> string"
  te_token_text :: "page_token \<Rightarrow> string"
  te_zod_message :: string
  te_orchestrator :: orc_env

text \<open>
  The fields of \<open>TurnHandle\<close>; \<open>ts_resolver\<close> and \<open>ts_signal\<close> say whether the field is set, \<open>ts_closed\<close> counts the
  calls of \<open>resolver.close()\<close>.
\<close>

record turn_handle =
  ts_store :: store
  ts_turn :: turn_record
  ts_orchestrator :: "orchestrator option"
  ts_resolver :: bool
  ts_signal :: bool
  ts_started :: bool
  ts_closed :: nat
  ts_tick :: nat

datatype streaming_event = Durable persisted_event | Delta model_delta_event

type_synonym 'a turn_gen = "(turn_handle, streaming_event, stream_exit, 'a) gen"

definition ttick :: "nat turn_gen" where
  "ttick = gbind gget (\<lambda>s. gthen (gmodify (ts_tick_update Suc)) (gret (ts_tick s)))"

definition fromRecord :: "store \<Rightarrow> turn_record \<Rightarrow> turn_handle" where
  "fromRecord store t =
     \<lparr>ts_store = store, ts_turn = t, ts_orchestrator = None, ts_resolver = False, ts_signal = False,
      ts_started = False, ts_closed = 0, ts_tick = 0\<rparr>"

definition get_handle :: "store \<Rightarrow> string \<Rightarrow> string \<Rightarrow> turn_handle option" where
  "get_handle store sid tid = map_option (fromRecord store) (getTurn sid tid store)"

definition listEvents ::
    "nat \<Rightarrow> page_token option \<Rightarrow> sort_order option \<Rightarrow> turn_handle
       \<Rightarrow> serror + (persisted_event list \<times> page_token token_pagination)" where
  "listEvents limit token order s =
     listTurnEvents (tr_session_id (ts_turn s)) (tr_turn_id (ts_turn s)) limit token order (ts_store s)"

section \<open>Conversions\<close>

fun reason_text :: "cancellation_reason \<Rightarrow> string" where
  "reason_text Server_execution_timeout = ''server-execution-timeout''"
| "reason_text Client_cancelled = ''client-cancelled''"
| "reason_text Cancelled_for_next_turn = ''cancelled-for-next-turn''"
| "reason_text Abandoned = ''abandoned''"

definition cancellationReasonFromAbortReason :: "json \<Rightarrow> cancellation_reason" where
  "cancellationReasonFromAbortReason reason =
     (if reason = JStr (reason_text Server_execution_timeout) then Server_execution_timeout
      else if reason = JStr (reason_text Cancelled_for_next_turn) then Cancelled_for_next_turn
      else if reason = JStr (reason_text Abandoned) then Abandoned
      else Client_cancelled)"

definition turnMetricsFromAgentThreadMetrics :: "agent_thread_metrics \<Rightarrow> turn_metrics" where
  "turnMetricsFromAgentThreadMetrics m =
     \<lparr>tmx_input_tokens = Some (total_input_tokens m), tmx_output_tokens = Some (total_output_tokens m),
      tmx_total_tokens = Some (total_tokens m), tmx_cache_read_tokens = total_cache_read_tokens m,
      tmx_cache_write_tokens = total_cache_write_tokens m, tmx_reasoning_tokens = total_reasoning_tokens m,
      tmx_cost_in_usd = total_cost_in_usd m\<rparr>"

fun toThreadDoneEvent :: "turn_env \<Rightarrow> nat \<Rightarrow> thread_done_event \<Rightarrow> thrown + persisted_event" where
  "toThreadDoneEvent env n d =
     (let made = (\<lambda>err out. \<lparr>pe_id = te_id env n, pe_created_at = iso_text (te_lib env) (te_now env n),
            pe_thread_id = Some (de_thread_id d),
            pe_body = Ev_thread_done (de_parent d) (de_title d) err out\<rparr>)
      in case de_status d of
           Done_cancelled r \<Rightarrow> Inl (plain_error ''unreachable: cancelled AGENT_DONE cannot be converted to thread.done'')
         | Done_error msg out \<Rightarrow> Inr (made (Some msg) out)
         | Done_ok out \<Rightarrow> Inr (made None (Some out)))"

definition toMCPAuthRequiredEvent :: "internal_auth_event \<Rightarrow> persisted_event" where
  "toMCPAuthRequiredEvent a =
     \<lparr>pe_id = iae_id a, pe_created_at = iae_created_at a, pe_thread_id = None,
      pe_body = Ev_action_required (Mcp_auth_required
        \<lparr>mare_id = iae_id a, mare_created_at = iae_created_at a, mare_thread_id = None,
         mare_mcp_servers = map iai_server (iae_servers a)\<rparr>)\<rparr>"

text \<open>The events of a thread that are durable as they are, in the form of the log.\<close>

definition model_message_row :: "model_message_event \<Rightarrow> persisted_event" where
  "model_message_row m =
     \<lparr>pe_id = mme_id m, pe_created_at = mme_created_at m, pe_thread_id = Some (mme_thread_id m),
      pe_body = Ev_model_message m\<rparr>"

definition tool_response_row :: "tool_response_event \<Rightarrow> persisted_event" where
  "tool_response_row r =
     \<lparr>pe_id = tre_id r, pe_created_at = tre_created_at r, pe_thread_id = Some (tre_thread_id r),
      pe_body = Ev_tool_response r\<rparr>"

definition thread_created_row :: "thread_created_event \<Rightarrow> persisted_event" where
  "thread_created_row c =
     \<lparr>pe_id = tce_id c, pe_created_at = tce_created_at c, pe_thread_id = Some (tce_thread_id c),
      pe_body = Ev_thread_created (tce_agent_info c) (tce_parent c) (tce_title c)\<rparr>"

definition mcp_initialize_row :: "mcp_initialize_event \<Rightarrow> persisted_event" where
  "mcp_initialize_row m =
     \<lparr>pe_id = mie_id m, pe_created_at = mie_created_at m, pe_thread_id = Some (mie_thread_id m),
      pe_body = Ev_mcp_initialize (mie_servers m)\<rparr>"

definition sandbox_created_row :: "sandbox_created_event \<Rightarrow> persisted_event" where
  "sandbox_created_row e =
     \<lparr>pe_id = sce_id e, pe_created_at = sce_created_at e, pe_thread_id = None,
      pe_body = Ev_sandbox_created (sce_info e)\<rparr>"

definition calls_required_row :: "(tool_calls_required_event \<Rightarrow> action_required_event) \<Rightarrow> tool_calls_required_event \<Rightarrow> persisted_event" where
  "calls_required_row kind r =
     \<lparr>pe_id = tcre_id r, pe_created_at = tcre_created_at r, pe_thread_id = Some (tcre_thread_id r),
      pe_body = Ev_action_required (kind r)\<rparr>"

section \<open>Persistence\<close>

text \<open>
  One call of the store for this turn, after what others have done to the store meanwhile. A write that throws
  leaves the store as its operation says.
\<close>

definition writeStore :: "turn_env \<Rightarrow> ((nat \<Rightarrow> int) \<Rightarrow> string \<Rightarrow> string \<Rightarrow> store \<Rightarrow> unit outcome) \<Rightarrow> unit turn_gen" where
  "writeStore env f =
     gbind ttick (\<lambda>n. gbind gget (\<lambda>s.
     case f (te_clock env n) (tr_session_id (ts_turn s)) (tr_turn_id (ts_turn s)) (te_rival env n (ts_store s)) of
       (store', Inl e) \<Rightarrow> gthen (gmodify (\<lambda>s. s\<lparr>ts_store := store'\<rparr>)) (gthrow (Threw (Raised_by_store e)))
     | (store', Inr u) \<Rightarrow> gmodify (\<lambda>s. s\<lparr>ts_store := store'\<rparr>)))"

definition append_events :: "turn_env \<Rightarrow> persisted_event list \<Rightarrow> unit turn_gen" where
  "append_events env evs = writeStore env (\<lambda>clk sid tid. appendToEvents sid tid evs)"

definition append_and_return :: "turn_env \<Rightarrow> persisted_event \<Rightarrow> streaming_event option turn_gen" where
  "append_and_return env ev = gthen (append_events env [ev]) (gret (Some (Durable ev)))"

definition context_append :: "thread_append_event \<Rightarrow> turn_context_append" where
  "context_append e =
     \<lparr>tca_thread_id = tae_thread_id e, tca_context = tae_context e, tca_current_context_usage = tae_usage e,
      tca_completion = tae_completion e\<rparr>"

definition created_thread_snapshot :: "thread_created_event \<Rightarrow> agent_thread_snapshot" where
  "created_thread_snapshot c =
     \<lparr>ats_thread_id = tce_thread_id c, ats_context = [], ats_current_context_usage = getEmptyCurrentContextUsage,
      ats_parent = Some (tce_parent c), ats_agent_info = Some (tce_agent_info c), ats_completion = None,
      ats_capability_state = None\<rparr>"

fun isInternalThreadDoneCancelled :: "thread_done_event \<Rightarrow> bool" where
  "isInternalThreadDoneCancelled d = (case de_status d of Done_cancelled r \<Rightarrow> True | _ \<Rightarrow> False)"

definition persist_thread_done :: "turn_env \<Rightarrow> thread_done_event \<Rightarrow> streaming_event option turn_gen" where
  "persist_thread_done env d =
     gthen (if de_parent d \<noteq> None
            then writeStore env (\<lambda>clk sid tid. removeThreads clk sid tid [de_thread_id d]) else gret ())
     (if isInternalThreadDoneCancelled d then gret None
      else if de_parent d = None then gret None
      else gbind ttick (\<lambda>n.
           gbind (glift (case toThreadDoneEvent env n d of Inl x \<Rightarrow> Inl (Threw (Raised x)) | Inr ev \<Rightarrow> Inr ev))
             (append_and_return env)))"

text \<open>
  A state that is \<open>undefined\<close> is no JSON value, so the check of a capability state cannot fail here. The events
  of compaction, as registered events, are JSON values that \<open>te_read_event\<close> reads as rows of the log.
\<close>

definition persist_thread_event :: "turn_env \<Rightarrow> thread_event \<Rightarrow> streaming_event option turn_gen" where
  "persist_thread_event env e =
     (case e of
        Model_message m \<Rightarrow> gret (Some (Durable (model_message_row m)))
      | Model_delta d \<Rightarrow> gret (Some (Delta d))
      | Tool_response r \<Rightarrow> append_and_return env (tool_response_row r)
      | Create_sub_agent c \<Rightarrow> gret None
      | Capability_state i key v \<Rightarrow>
          gthen (writeStore env (\<lambda>clk sid tid. patchThreadCapabilityState clk sid tid i key v)) (gret None)
      | Overwrite_context ev \<Rightarrow>
          gthen (writeStore env (\<lambda>clk sid tid. overwriteThreadContext clk sid tid ev)) (gret None)
      | Compaction_started i v \<Rightarrow> append_and_return env ((te_read_event env v)\<lparr>pe_thread_id := Some i\<rparr>)
      | Compaction_finished i v \<Rightarrow> append_and_return env ((te_read_event env v)\<lparr>pe_thread_id := Some i\<rparr>)
      | Append_context a \<Rightarrow>
          gthen (writeStore env (\<lambda>clk sid tid. appendToThreadContext clk sid tid (context_append a)))
          (gthen (if length (tae_output a) > 0 then append_events env (map model_message_row (tae_output a)) else gret ())
            (gret None))
      | Thread_done d \<Rightarrow> persist_thread_done env d
      | Auth_required a \<Rightarrow> append_and_return env (toMCPAuthRequiredEvent a)
      | Mcp_initialize m \<Rightarrow>
          gthen (writeStore env (\<lambda>clk sid tid. patchMCPServers clk sid tid (mie_servers m)))
            (append_and_return env (mcp_initialize_row m))
      | Sandbox_created c \<Rightarrow>
          gthen (writeStore env (\<lambda>clk sid tid. patchSandboxInfo clk sid tid (sce_info c)))
            (append_and_return env (sandbox_created_row c))
      | Approval_required r \<Rightarrow> append_and_return env (calls_required_row Tool_approval_required r)
      | Response_required r \<Rightarrow> append_and_return env (calls_required_row Tool_response_required r)
      | Passthrough v \<Rightarrow> append_and_return env (te_read_event env v))"

definition persistExecutionEvent :: "turn_env \<Rightarrow> execution_event \<Rightarrow> streaming_event option turn_gen" where
  "persistExecutionEvent env e =
     (case e of
        Thread_event te \<Rightarrow> persist_thread_event env te
      | Thread_created c \<Rightarrow>
          gthen (writeStore env (\<lambda>clk sid tid. addThreads clk sid tid [created_thread_snapshot c]))
            (append_and_return env (thread_created_row c))
      | Registered_event v \<Rightarrow> append_and_return env (te_read_event env v))"

section \<open>The stream\<close>

text \<open>A yield, and what the consumer does with it.\<close>

definition yield_to :: "turn_env \<Rightarrow> streaming_event \<Rightarrow> unit turn_gen" where
  "yield_to env ev =
     gthen (gyield ev) (gbind ttick (\<lambda>n.
       case te_consumer env n of
         Goes_on \<Rightarrow> gret ()
       | Leaves \<Rightarrow> gthrow Consumer_left
       | Throws x \<Rightarrow> gthrow (Threw (Raised x))))"

text \<open>A state that an error of the store carries, with the metrics of this run.\<close>

fun with_metrics :: "turn_metrics \<Rightarrow> turn_state \<Rightarrow> terminal_turn_state option" where
  "with_metrics m (Turn_done out acts tm mx) = Some (Term_done out acts tm (Some m))"
| "with_metrics m (Turn_cancelled r tm mx) = Some (Term_cancelled r tm (Some m))"
| "with_metrics m (Turn_error msg tm mx) = Some (Term_error msg tm (Some m))"
| "with_metrics m st = None"

definition turn_done_row :: "turn_env \<Rightarrow> nat \<Rightarrow> int \<Rightarrow> terminal_turn_state \<Rightarrow> persisted_event" where
  "turn_done_row env n time st =
     \<lparr>pe_id = te_id env n, pe_created_at = iso_text (te_lib env) time, pe_thread_id = None,
      pe_body = Ev_turn_done st\<rparr>"

text \<open>
  The store has ended the turn: the handle takes over its state and yields the event of the end. Nothing that the
  consumer does at this yield, the last one, has an effect. An error of the store carries a terminal state.
\<close>

definition adopt_state :: "turn_env \<Rightarrow> int \<Rightarrow> turn_metrics \<Rightarrow> turn_state \<Rightarrow> unit turn_gen" where
  "adopt_state env time metrics st =
     gbind ttick (\<lambda>n.
     case with_metrics metrics st of
       None \<Rightarrow> gret ()
     | Some t \<Rightarrow>
         gthen (gmodify (\<lambda>s. s\<lparr>ts_turn := (ts_turn s)\<lparr>tr_state := of_terminal t, tr_updated_at := time\<rparr>\<rparr>))
           (gyield (Durable (turn_done_row env n time t))))"

definition persist_and_yield :: "turn_env \<Rightarrow> execution_event \<Rightarrow> unit turn_gen" where
  "persist_and_yield env e =
     gbind (persistExecutionEvent env e) (\<lambda>out.
       case out of None \<Rightarrow> gret () | Some ev \<Rightarrow> yield_to env ev)"

text \<open>The loop over the execution; the result says whether the store had ended the turn.\<close>

fun drain :: "turn_env \<Rightarrow> (execution_event \<times> orchestrator) list \<Rightarrow> bool turn_gen" where
  "drain env [] = gret False"
| "drain env ((e, orc) # rest) =
     gthen (gmodify (\<lambda>s. s\<lparr>ts_orchestrator := Some orc\<rparr>))
     (gbind (gcatch (gthen (persist_and_yield env e) (gret False)) (\<lambda>x.
         case x of
           Threw (Raised_by_store (Turn_not_running i st)) \<Rightarrow> gbind ttick (\<lambda>n.
             gthen (adopt_state env (te_now env n) (turnMetricsFromAgentThreadMetrics (getMetrics orc)) st) (gret True))
         | _ \<Rightarrow> gthrow x)) (\<lambda>frozen.
       if frozen then gret True else drain env rest))"

definition turn_created_row :: "turn_env \<Rightarrow> nat \<Rightarrow> turn_record \<Rightarrow> persisted_event" where
  "turn_created_row env n t =
     \<lparr>pe_id = te_id env n, pe_created_at = iso_text (te_lib env) (tr_created_at t), pe_thread_id = None,
      pe_body = Ev_turn_created (tr_turn_id t) (tr_previous_turn_id t)
        (if length (tr_input t) > 0 then Some (tr_input t) else None)\<rparr>"

text \<open>How the body ends; \<open>Not_ended\<close> is an execution that has used up its fuel.\<close>

datatype stream_end =
  Executed execution_result | Frozen_by_store | Failed raised | Abandoned_by_consumer | Not_ended

definition stream_body :: "turn_env \<Rightarrow> nat \<Rightarrow> orchestrator \<Rightarrow> stream_end turn_gen" where
  "stream_body env fuel orc =
     gbind ttick (\<lambda>n. gbind gget (\<lambda>s.
     let created = turn_created_row env n (ts_turn s) in
     gthen (append_events env [created])
     (gthen (yield_to env (Durable created))
     (case orc_execute fuel (te_orchestrator env) orc of
        (tr, orc', r) \<Rightarrow>
          gbind (drain env tr) (\<lambda>frozen.
            if frozen then gret Frozen_by_store
            else gthen (gmodify (\<lambda>s. s\<lparr>ts_orchestrator := Some orc'\<rparr>))
              (case r of
                 Inl x \<Rightarrow> gthrow (Threw (Raised x))
               | Inr None \<Rightarrow> gret Not_ended
               | Inr (Some out) \<Rightarrow> gret (Executed out)))))))"

definition caught_message :: "turn_env \<Rightarrow> raised \<Rightarrow> string" where
  "caught_message env x =
     (case x of
        Raised_by_store e \<Rightarrow> store_error_message (te_token_text env) (te_zod_message env) e
      | Raised (Thrown c msg cause) \<Rightarrow> msg
      | Raised v \<Rightarrow> te_string env v)"

definition terminal_state ::
    "turn_env \<Rightarrow> json option \<Rightarrow> stream_end \<Rightarrow> iso_string \<Rightarrow> turn_metrics \<Rightarrow> terminal_turn_state" where
  "terminal_state env signalled ending at_time metrics =
     (case signalled of
        Some reason \<Rightarrow> Term_cancelled (cancellationReasonFromAbortReason reason) at_time (Some metrics)
      | None \<Rightarrow>
          (case ending of
             Failed x \<Rightarrow> Term_error (caught_message env x) at_time (Some metrics)
           | Executed r \<Rightarrow>
               (case xr_root_agent_error r of
                  Some (msg, out) \<Rightarrow> Term_error msg at_time (Some metrics)
                | None \<Rightarrow> Term_done (xr_output r) (xr_required_actions r) at_time (Some metrics))
           | _ \<Rightarrow> Term_cancelled Client_cancelled at_time (Some metrics)))"

definition close_resolver :: "unit turn_gen" where
  "close_resolver = gmodify (ts_closed_update Suc)"

text \<open>The \<open>finally\<close> block.\<close>

definition end_turn :: "turn_env \<Rightarrow> orchestrator \<Rightarrow> stream_end \<Rightarrow> unit turn_gen" where
  "end_turn env orc ending =
     gbind ttick (\<lambda>n.
     let metrics = turnMetricsFromAgentThreadMetrics (getMetrics orc);
         st = terminal_state env (te_aborted env n) ending (to_iso (te_now env n)) metrics;
         row = turn_done_row env n (te_now env n) st
     in if ending = Frozen_by_store then close_resolver
        else gbind (gcatch
            (gthen (writeStore env (\<lambda>clk sid tid. updateTurnTerminalState clk sid tid st row))
              (gthen (gmodify (\<lambda>s. s\<lparr>ts_turn := (ts_turn s)\<lparr>tr_state := of_terminal st, tr_updated_at := te_now env n\<rparr>\<rparr>))
                (gret True)))
            (\<lambda>x. case x of
                Threw (Raised_by_store (Turn_not_running i other)) \<Rightarrow>
                  gthen close_resolver (gthen (adopt_state env (te_now env n) metrics other) (gret False))
              | _ \<Rightarrow> gthen close_resolver (gthrow x)))
          (\<lambda>written. if written then gthen close_resolver (gyield (Durable row)) else gret ()))"

text \<open>The result says whether the stream ended: with too little fuel the execution has not.\<close>

definition stream :: "turn_env \<Rightarrow> nat \<Rightarrow> bool turn_gen" where
  "stream env fuel =
     gbind gget (\<lambda>s.
     if ts_started s then gthrow (Threw (Raised (plain_error ''TurnHandle.stream() is single-use and was already called'')))
     else gthen (gmodify (\<lambda>s. s\<lparr>ts_started := True\<rparr>))
       (case ts_orchestrator s of
          None \<Rightarrow> gthrow (Threw (Raised (plain_error
            ''TurnHandle.stream() is only available on turns returned from SessionHandle.createTurn()'')))
        | Some orc \<Rightarrow>
            if \<not> ts_resolver s \<or> \<not> ts_signal s
            then gthrow (Threw (Raised (plain_error
              ''TurnHandle.stream() is only available on turns returned from SessionHandle.createTurn()'')))
            else gbind (gcatch (stream_body env fuel orc) (\<lambda>x.
                case x of Consumer_left \<Rightarrow> gret Abandoned_by_consumer | Threw e \<Rightarrow> gret (Failed e)))
              (\<lambda>ending.
                if ending = Not_ended then gret False
                else gbind gget (\<lambda>s1. gthen (end_turn env (case ts_orchestrator s1 of Some o1 \<Rightarrow> o1 | None \<Rightarrow> orc) ending)
                  (gret True)))))"

end
