(* ===== verification/Turn_Handle_Runs.thy ===== *)
theory Turn_Handle_Runs
  imports Turn_Handle Session_Contract "HOL-Library.Sublist"
begin

text \<open>
  What a stream does to the store: every write is a step of the store that keeps the row of the turn, so the
  log of the turn only grows and a terminal state stays. \<open>carried\<close> is the invariant of a stream, \<open>refused\<close> what
  the error of a turn that does not run says of its row.
\<close>

section \<open>Steps that keep a turn\<close>

definition kept_step :: "string \<Rightarrow> store \<Rightarrow> store \<Rightarrow> bool" where
  "kept_step k s s' \<longleftrightarrow> store_step s s' \<and> (turn_at s k \<noteq> None \<longrightarrow> turn_at s' k \<noteq> None)"

abbreviation kept_steps :: "string \<Rightarrow> store \<Rightarrow> store \<Rightarrow> bool" where
  "kept_steps k \<equiv> (kept_step k)\<^sup>*\<^sup>*"

lemma kept_steps_ok: "kept_steps k s s' \<Longrightarrow> store_ok s \<Longrightarrow> store_ok s'"
  by (induction rule: rtranclp_induct) (auto simp: kept_step_def intro: store_step_ok)

text \<open>The turn stays, its log grows, and once it is terminal nothing of it changes.\<close>

lemma kept_steps_turn:
  assumes "kept_steps k s s'" and "store_ok s" and "turn_at s k = Some t" and "events_at s k = Some es"
  shows "\<exists>t' xs. turn_at s' k = Some t' \<and> events_at s' k = Some (es @ xs) \<and>
    (\<not> isNonTerminalTurnState (tr_state t) \<longrightarrow> t' = t \<and> xs = [])"
  using assms(1)
proof (induction rule: rtranclp_induct)
  case base
  then show ?case using assms(3,4) by simp
next
  case (step u w)
  from step.IH obtain t' xs where u: "turn_at u k = Some t'" "events_at u k = Some (es @ xs)"
    "\<not> isNonTerminalTurnState (tr_state t) \<longrightarrow> t' = t \<and> xs = []" by blast
  have "turn_extends u w" "turn_at w k \<noteq> None"
    using step.hyps(2) u(1) store_step_extends by (auto simp: kept_step_def)
  with u show ?case unfolding turn_extends_def by (metis append.assoc append_Nil2)
qed

section \<open>The writes of a stream\<close>

text \<open>A turn that does not run has a terminal state, which the error carries.\<close>

definition refused :: "string \<Rightarrow> turn_state \<Rightarrow> store \<Rightarrow> bool" where
  "refused k st s \<longleftrightarrow> (\<exists>t. turn_at s k = Some t \<and> tr_state t = st) \<and> \<not> isNonTerminalTurnState st"

definition turn_write ::
    "string \<Rightarrow> string \<Rightarrow> ((nat \<Rightarrow> int) \<Rightarrow> string \<Rightarrow> string \<Rightarrow> store \<Rightarrow> unit outcome) \<Rightarrow> bool" where
  "turn_write sid tid f \<longleftrightarrow> (\<forall>clk s. kept_step (turnKey sid tid) s (fst (f clk sid tid s)) \<and>
     (\<forall>i st. snd (f clk sid tid s) = Inl (Turn_not_running i st) \<longrightarrow> refused (turnKey sid tid) st (fst (f clk sid tid s))))"

named_theorems turn_writes "the writes of a stream"

lemma requireRunningTurn_refused:
  "requireRunningTurn s sid tid = Inl (Turn_not_running i st) \<Longrightarrow> refused (turnKey sid tid) st s"
  by (cases "js_get (st_turns s) (turnKey sid tid)")
    (auto simp: requireRunningTurn_def requireTurn_def refused_def split: if_splits)

lemma on_running_turn_write:
  assumes "\<And>sn i st. f sn \<noteq> Inl (Turn_not_running i st)"
  shows "(turn_at s (turnKey sid tid) \<noteq> None \<longrightarrow> turn_at (fst (on_running_turn clk sid tid f s)) (turnKey sid tid) \<noteq> None) \<and>
    (\<forall>i st. snd (on_running_turn clk sid tid f s) = Inl (Turn_not_running i st) \<longrightarrow>
       refused (turnKey sid tid) st (fst (on_running_turn clk sid tid f s)))"
proof (cases "requireRunningTurn s sid tid")
  case (Inl e)
  then show ?thesis using requireRunningTurn_refused[of s sid tid] by (auto simp: on_running_turn_def)
next
  case (Inr t)
  then show ?thesis using assms by (cases "f (tr_snapshot t)") (auto simp: on_running_turn_def)
qed

lemma on_thread_error: "on_thread i f sn \<noteq> Inl (Turn_not_running j st)"
  by (simp add: on_thread_def split: option.split)

lemma turn_write_patch:
  assumes "\<And>clk s. store_step s (fst (on_running_turn clk sid tid g s))"
    and "\<And>sn i st. g sn \<noteq> Inl (Turn_not_running i st)"
  shows "turn_write sid tid (\<lambda>clk sid tid. on_running_turn clk sid tid g)"
  using assms(1) on_running_turn_write[of g, OF assms(2)] unfolding turn_write_def kept_step_def by blast

lemma turn_write_patches [turn_writes]:
  "turn_write sid tid (\<lambda>clk sid tid. addThreads clk sid tid ths)"
  "turn_write sid tid (\<lambda>clk sid tid. appendToThreadContext clk sid tid a)"
  "turn_write sid tid (\<lambda>clk sid tid. overwriteThreadContext clk sid tid ov)"
  "turn_write sid tid (\<lambda>clk sid tid. patchMCPServers clk sid tid servers)"
  "turn_write sid tid (\<lambda>clk sid tid. patchSandboxInfo clk sid tid info)"
  "turn_write sid tid (\<lambda>clk sid tid. patchThreadCapabilityState clk sid tid i key v)"
  using step_addThreads[of _ _ sid tid ths] step_appendContext[of _ _ sid tid a] step_overwriteContext[of _ _ sid tid ov]
    step_mcp[of _ _ sid tid servers] step_sandbox[of _ _ sid tid info] step_capability[of _ _ sid tid i key v]
  unfolding addThreads_def appendToThreadContext_def overwriteThreadContext_def patchMCPServers_def
    patchSandboxInfo_def patchThreadCapabilityState_def
  by (intro turn_write_patch on_thread_error; simp)+

lemma turn_write_remove [turn_writes]: "turn_write sid tid (\<lambda>clk sid tid. removeThreads clk sid tid [i])"
proof -
  have "removeThreads clk sid tid [i] = on_running_turn clk sid tid
      (\<lambda>sn. Inr (sn\<lparr>sn_threads := fold js_delete [i] (sn_threads sn)\<rparr>))" for clk sid tid
    by (rule ext) (simp add: removeThreads_def)
  moreover from this have "store_step s (fst (on_running_turn clk sid tid
      (\<lambda>sn. Inr (sn\<lparr>sn_threads := fold js_delete [i] (sn_threads sn)\<rparr>)) s))" for clk s
    using step_removeThreads[of s clk sid tid "[i]"] by simp
  ultimately show ?thesis using turn_write_patch by simp
qed

lemma turn_write_events [turn_writes]: "turn_write sid tid (\<lambda>clk sid tid. appendToEvents sid tid evs)"
proof -
  have "snd (appendToEvents sid tid evs s) = Inl (Turn_not_running i st) \<Longrightarrow>
      requireRunningTurn s sid tid = Inl (Turn_not_running i st) \<and> fst (appendToEvents sid tid evs s) = s" for s i st
    by (auto simp: appendToEvents_def requireEvents_def split: sum.splits option.splits)
  moreover have "st_turns (fst (appendToEvents sid tid evs s)) = st_turns s" for s
    by (simp add: appendToEvents_def split: sum.splits)
  ultimately show ?thesis
    using step_events[of _ sid tid evs] requireRunningTurn_refused unfolding turn_write_def kept_step_def by metis
qed

section \<open>Runs of a stream\<close>

lemma writeStore_run:
  "writeStore env f h =
     (let n = ts_tick h; out = f (te_clock env n) (tr_session_id (ts_turn h)) (tr_turn_id (ts_turn h)) (te_rival env n (ts_store h))
      in ([], h\<lparr>ts_store := fst out, ts_tick := Suc n\<rparr>,
          case snd out of Inl e \<Rightarrow> Inl (Threw (Raised_by_store e)) | Inr u \<Rightarrow> Inr u))"
  by (auto simp: writeStore_def ttick_def gbind_run gthen_def gen_defs Let_def split: prod.splits sum.splits)

text \<open>The store a write leaves behind at a handle.\<close>

definition written ::
    "turn_env \<Rightarrow> ((nat \<Rightarrow> int) \<Rightarrow> string \<Rightarrow> string \<Rightarrow> store \<Rightarrow> unit outcome) \<Rightarrow> turn_handle \<Rightarrow> unit outcome" where
  "written env f h = f (te_clock env (ts_tick h)) (tr_session_id (ts_turn h)) (tr_turn_id (ts_turn h))
     (te_rival env (ts_tick h) (ts_store h))"

lemma tells_write:
  assumes "\<And>V h s' u. P V h \<Longrightarrow> written env f h = (s', Inr u) \<Longrightarrow> Q () V (h\<lparr>ts_store := s', ts_tick := Suc (ts_tick h)\<rparr>)"
    and "\<And>V h s' e. P V h \<Longrightarrow> written env f h = (s', Inl e) \<Longrightarrow>
      X (Threw (Raised_by_store e)) V (h\<lparr>ts_store := s', ts_tick := Suc (ts_tick h)\<rparr>)"
  shows "tells absorb I P (writeStore env f) Q X"
  unfolding tells_def
proof (intro allI impI)
  fix V h tr h' r
  assume s: "P V h" and run: "writeStore env f h = (tr, h', r)"
  obtain s' x where w: "written env f h = (s', x)" by (cases "written env f h")
  then have "tr = []" "h' = h\<lparr>ts_store := s', ts_tick := Suc (ts_tick h)\<rparr>"
    "r = (case x of Inl e \<Rightarrow> Inl (Threw (Raised_by_store e)) | Inr u \<Rightarrow> Inr u)"
    using run by (auto simp: writeStore_run written_def Let_def)
  then show "watched absorb I V tr \<and>
      (case r of Inl x \<Rightarrow> X x (fold absorb (map fst tr) V) h' | Inr a \<Rightarrow> Q a (fold absorb (map fst tr) V) h')"
    using assms[OF s] w by (cases x) auto
qed

lemma tells_tick:
  assumes "\<And>V h. P V h \<Longrightarrow> Q (ts_tick h) V (ts_tick_update Suc h)"
  shows "tells absorb I P ttick Q X"
  using assms by (auto simp: tells_def ttick_def gbind_run gthen_def gen_defs)

text \<open>The invariant: the handle names the turn, and the store was reached by steps that keep it.\<close>

definition rivals_keep :: "turn_env \<Rightarrow> string \<Rightarrow> bool" where
  "rivals_keep env k = (\<forall>n s. kept_steps k s (te_rival env n s))"

record origin =
  or_session :: string
  or_turn :: string
  or_store :: store
  or_closed :: nat

abbreviation or_key :: "origin \<Rightarrow> string" where
  "or_key b \<equiv> turnKey (or_session b) (or_turn b)"

definition carried :: "origin \<Rightarrow> turn_handle \<Rightarrow> bool" where
  "carried b h \<longleftrightarrow> tr_session_id (ts_turn h) = or_session b \<and> tr_turn_id (ts_turn h) = or_turn b \<and>
     kept_steps (or_key b) (or_store b) (ts_store h)"

lemma carried_simps [simp]:
  "carried b (h\<lparr>ts_orchestrator := x\<rparr>) = carried b h"
  "carried b (ts_tick_update f h) = carried b h"
  "carried b (h\<lparr>ts_started := y\<rparr>) = carried b h"
  "carried b (ts_closed_update g h) = carried b h"
  "carried b (h\<lparr>ts_turn := (ts_turn h)\<lparr>tr_state := st, tr_updated_at := u\<rparr>\<rparr>) = carried b h"
  by (simp_all add: carried_def)

lemma carried_written:
  assumes "carried b h" "rivals_keep env (or_key b)" "turn_write (or_session b) (or_turn b) f"
    and "written env f h = (s', x)"
  shows "carried b (h\<lparr>ts_store := s', ts_tick := n\<rparr>)"
    and "kept_steps (or_key b) (te_rival env (ts_tick h) (ts_store h)) s'"
    and "\<And>i st. x = Inl (Turn_not_running i st) \<Longrightarrow> refused (or_key b) st s'"
proof -
  let ?s = "te_rival env (ts_tick h) (ts_store h)"
  have out: "f (te_clock env (ts_tick h)) (or_session b) (or_turn b) ?s = (s', x)"
    using assms(1,4) by (simp add: written_def carried_def)
  have w: "kept_step (or_key b) ?s s'" "\<And>i st. x = Inl (Turn_not_running i st) \<Longrightarrow> refused (or_key b) st s'"
    using assms(3)[unfolded turn_write_def, rule_format, of ?s "te_clock env (ts_tick h)"] out by auto
  show "\<And>i st. x = Inl (Turn_not_running i st) \<Longrightarrow> refused (or_key b) st s'" by (rule w(2))
  show "kept_steps (or_key b) ?s s'" using w(1) by blast
  moreover have "kept_steps (or_key b) (ts_store h) ?s" using assms(2) by (simp add: rivals_keep_def)
  ultimately show "carried b (h\<lparr>ts_store := s', ts_tick := n\<rparr>)" using assms(1) by (auto simp: carried_def)
qed

section \<open>What is in the log\<close>

text \<open>
  The rows a consumer has seen that must be in the log. The content of a model message is logged with the context
  it is part of, and the event of the end with the state.
\<close>

fun durable_row :: "persisted_event \<Rightarrow> bool" where
  "durable_row row = (case pe_body row of Ev_model_message m \<Rightarrow> False | Ev_turn_done st \<Rightarrow> False | _ \<Rightarrow> True)"

fun row_of :: "streaming_event \<Rightarrow> persisted_event list" where
  "row_of (Durable row) = [row]"
| "row_of (Delta d) = []"

definition durable_rows :: "streaming_event list \<Rightarrow> persisted_event list" where
  "durable_rows ys = filter durable_row (concat (map row_of ys))"

lemma durable_rows_append [simp]: "durable_rows (ys @ zs) = durable_rows ys @ durable_rows zs"
  by (simp add: durable_rows_def)

definition logged :: "origin \<Rightarrow> streaming_event list \<Rightarrow> turn_handle \<Rightarrow> bool" where
  "logged b ys h \<longleftrightarrow> (\<exists>es0 es. events_at (or_store b) (or_key b) = Some es0 \<and>
     events_at (ts_store h) (or_key b) = Some (es0 @ es) \<and> subseq (durable_rows ys) es)"

abbreviation history :: "streaming_event \<Rightarrow> streaming_event list \<Rightarrow> streaming_event list" where
  "history e ys \<equiv> ys @ [e]"

lemma fold_history [simp]: "fold history xs ys = ys @ xs"
  by (induction xs arbitrary: ys) simp_all

text \<open>At every yield; between two yields with \<open>out\<close> about to be yielded; and when something throws.\<close>

definition shown :: "origin \<Rightarrow> streaming_event list \<Rightarrow> turn_handle \<Rightarrow> bool" where
  "shown b ys h \<longleftrightarrow> carried b h \<and> logged b ys h"

definition pending :: "origin \<Rightarrow> streaming_event list \<Rightarrow> streaming_event list \<Rightarrow> turn_handle \<Rightarrow> bool" where
  "pending b out ys h \<longleftrightarrow> shown b (ys @ out) h \<and> ts_closed h = or_closed b"

definition thrown_out :: "origin \<Rightarrow> stream_exit \<Rightarrow> streaming_event list \<Rightarrow> turn_handle \<Rightarrow> bool" where
  "thrown_out b x ys h \<longleftrightarrow> pending b [] ys h \<and>
     (\<forall>i st. x = Threw (Raised_by_store (Turn_not_running i st)) \<longrightarrow> refused (or_key b) st (ts_store h))"

definition sound_origin :: "origin \<Rightarrow> bool" where
  "sound_origin b \<longleftrightarrow> store_ok (or_store b) \<and> colon_free (or_session b) \<and> turn_at (or_store b) (or_key b) \<noteq> None"

lemma carried_row:
  assumes "sound_origin b" "carried b h"
  obtains t es where "store_ok (ts_store h)" "turn_at (ts_store h) (or_key b) = Some t"
    "events_at (ts_store h) (or_key b) = Some es"
proof -
  obtain t where t: "turn_at (or_store b) (or_key b) = Some t" "store_ok (or_store b)"
    using assms(1) by (auto simp: sound_origin_def)
  obtain es where es: "events_at (or_store b) (or_key b) = Some es" using events_of_turn[OF t(2,1)] by blast
  have k: "kept_steps (or_key b) (or_store b) (ts_store h)" using assms(2) by (simp add: carried_def)
  from kept_steps_turn[OF k t(2,1) es] kept_steps_ok[OF k t(2)] show thesis using that by blast
qed

lemma logged_later:
  assumes "sound_origin b" "shown b ys h" "kept_steps (or_key b) (ts_store h) (ts_store h')"
  shows "logged b ys h'"
proof -
  obtain t where t: "store_ok (ts_store h)" "turn_at (ts_store h) (or_key b) = Some t"
    using carried_row[OF assms(1)] assms(2) by (auto simp: shown_def)
  obtain es0 es where es: "events_at (or_store b) (or_key b) = Some es0"
    "events_at (ts_store h) (or_key b) = Some (es0 @ es)" "subseq (durable_rows ys) es"
    using assms(2) by (auto simp: shown_def logged_def)
  obtain xs where "events_at (ts_store h') (or_key b) = Some ((es0 @ es) @ xs)"
    using kept_steps_turn[OF assms(3) t es(2)] by blast
  moreover have "subseq (durable_rows ys) (es @ xs)" using list_emb_append_mono[OF es(3) list_emb_Nil[of _ xs]] by simp
  ultimately show ?thesis using es(1) by (auto simp: logged_def)
qed

lemma shown_written:
  assumes "sound_origin b" "rivals_keep env (or_key b)" "turn_write (or_session b) (or_turn b) f"
    and h: "shown b ys h" and w: "written env f h = (s', x)"
  shows "shown b ys (h\<lparr>ts_store := s', ts_tick := n\<rparr>)"
proof -
  have c: "carried b h" using h by (simp add: shown_def)
  have "kept_steps (or_key b) (ts_store h) s'"
    using carried_written(2)[OF c assms(2,3) w] assms(2) unfolding rivals_keep_def by (meson rtranclp_trans)
  then show ?thesis
    using carried_written(1)[OF c assms(2,3) w] logged_later[OF assms(1) h, of "h\<lparr>ts_store := s', ts_tick := n\<rparr>"]
    by (simp add: shown_def)
qed

text \<open>The rows of a successful append are in the log, in front of their yield.\<close>

lemma shown_appended:
  assumes "sound_origin b" "rivals_keep env (or_key b)" and h: "shown b ys h"
    and w: "written env (\<lambda>clk sid tid. appendToEvents sid tid rows) h = (s', Inr u)"
  shows "shown b (ys @ map Durable rows) (h\<lparr>ts_store := s', ts_tick := n\<rparr>)"
proof -
  let ?s = "te_rival env (ts_tick h) (ts_store h)" and ?h = "h\<lparr>ts_store := s', ts_tick := n\<rparr>"
  have c: "carried b h" using h by (simp add: shown_def)
  have "kept_steps (or_key b) (ts_store h) ?s" using assms(2) by (simp add: rivals_keep_def)
  then have "logged b ys (h\<lparr>ts_store := ?s\<rparr>)" by (intro logged_later[OF assms(1) h]) simp
  then obtain es0 es where es: "events_at (or_store b) (or_key b) = Some es0"
    "events_at ?s (or_key b) = Some (es0 @ es)" "subseq (durable_rows ys) es"
    by (auto simp: logged_def)
  have "appendToEvents (or_session b) (or_turn b) rows ?s = (s', Inr u)" using w c by (simp add: written_def carried_def)
  then have "events_at s' (or_key b) = Some (es0 @ es @ rows)"
    using es(2) by (auto simp: appendToEvents_def requireEvents_def split: sum.splits option.splits)
  moreover have "durable_rows (map Durable rows) = filter durable_row rows" by (induction rows) (simp_all add: durable_rows_def)
  then have "subseq (durable_rows (ys @ map Durable rows)) (es @ rows)"
    using list_emb_append_mono[OF es(3)] by simp
  ultimately have "logged b (ys @ map Durable rows) ?h" using es(1) by (auto simp: logged_def)
  moreover have "carried b ?h" by (rule carried_written(1)[OF c assms(2) turn_write_events w])
  ultimately show ?thesis by (simp add: shown_def)
qed

section \<open>The steps of a stream\<close>

definition stream_ok :: "origin \<Rightarrow> turn_env \<Rightarrow> bool" where
  "stream_ok b env \<longleftrightarrow> sound_origin b \<and> rivals_keep env (or_key b)"

abbreviation tells_out ::
    "origin \<Rightarrow> (streaming_event list \<Rightarrow> turn_handle \<Rightarrow> bool) \<Rightarrow> 'a turn_gen \<Rightarrow>
       ('a \<Rightarrow> streaming_event list \<Rightarrow> turn_handle \<Rightarrow> bool) \<Rightarrow> bool" where
  "tells_out b P g Q \<equiv> tells history (shown b) P g Q (thrown_out b)"

named_theorems out_intro "steps of a stream"

lemma pending_tick [simp]: "pending b out ys (ts_tick_update f h) = pending b out ys h"
  by (simp add: pending_def shown_def logged_def)

lemma out_ret: "tells_out b (pending b out) (gret a) (\<lambda>a. pending b out)"
  by (rule tells_ret)

lemma out_tick: "tells_out b (pending b out) ttick (\<lambda>n. pending b out)"
  by (rule tells_tick) simp

lemma thrown_written:
  assumes "stream_ok b env" "turn_write (or_session b) (or_turn b) f" "pending b [] ys h" "written env f h = (s', Inl e)"
  shows "thrown_out b (Threw (Raised_by_store e)) ys (h\<lparr>ts_store := s', ts_tick := Suc (ts_tick h)\<rparr>)"
  using shown_written[of b env f ys h s'] carried_written(3)[of b h env f s' "Inl e"] assms
  by (auto simp: thrown_out_def pending_def stream_ok_def shown_def[of b ys h])

lemma out_write:
  assumes "stream_ok b env" "turn_write (or_session b) (or_turn b) f"
  shows "tells_out b (pending b []) (writeStore env f) (\<lambda>u. pending b [])"
proof (rule tells_write)
  fix ys h s' u
  assume h: "pending b [] ys h" and w: "written env f h = (s', Inr u)"
  then show "pending b [] ys (h\<lparr>ts_store := s', ts_tick := Suc (ts_tick h)\<rparr>)"
    using shown_written[of b env f ys h s'] assms by (simp add: pending_def stream_ok_def)
qed (rule thrown_written[OF assms])

lemma out_append:
  assumes ok: "stream_ok b env"
  shows "tells_out b (pending b []) (append_events env rows) (\<lambda>u. pending b (map Durable rows))"
  unfolding append_events_def
proof (rule tells_write)
  fix ys h s' u
  assume h: "pending b [] ys h" and w: "written env (\<lambda>clk sid tid. appendToEvents sid tid rows) h = (s', Inr u)"
  then show "pending b (map Durable rows) ys (h\<lparr>ts_store := s', ts_tick := Suc (ts_tick h)\<rparr>)"
    using shown_appended[of b env ys h rows s' u] ok by (simp add: pending_def stream_ok_def)
qed (rule thrown_written[OF ok turn_write_events])

text \<open>Rows in the log that are not yielded do not matter.\<close>

lemma subseq_drop_tail: "subseq (xs @ ys) zs \<Longrightarrow> subseq xs zs"
  using list_emb_append_mono[OF subseq_order.order_refl list_emb_Nil, of xs ys] by (simp add: subseq_order.order_trans)

lemma pending_weaken: "pending b out ys h \<Longrightarrow> pending b [] ys h"
  by (auto simp: pending_def shown_def logged_def dest: subseq_drop_tail)

lemma pending_free: "durable_rows out = [] \<Longrightarrow> pending b out ys h = pending b [] ys h"
  by (simp add: pending_def shown_def logged_def)

definition out_list :: "streaming_event option \<Rightarrow> streaming_event list" where
  "out_list out = (case out of None \<Rightarrow> [] | Some ev \<Rightarrow> [ev])"

lemma out_append_return [out_intro]:
  assumes "stream_ok b env"
  shows "tells_out b (pending b []) (append_and_return env row) (\<lambda>out. pending b (out_list out))"
  unfolding append_and_return_def
  by (rule tells_then[OF out_append[OF assms] tells_ret]) (simp add: out_list_def)

lemma out_then_return [out_intro]:
  assumes "stream_ok b env" "turn_write (or_session b) (or_turn b) f"
  shows "tells_out b (pending b []) (gthen (writeStore env f) (append_and_return env row)) (\<lambda>out. pending b (out_list out))"
    and "tells_out b (pending b []) (gthen (writeStore env f) (gret None)) (\<lambda>out. pending b (out_list out))"
  by (rule tells_then[OF out_write[OF assms] out_append_return[OF assms(1)]])
    (rule tells_then[OF out_write[OF assms] tells_ret], simp add: out_list_def)

lemma out_thread_done [out_intro]:
  assumes "stream_ok b env"
  shows "tells_out b (pending b []) (persist_thread_done env d) (\<lambda>out. pending b (out_list out))"
proof -
  have drop: "tells_out b (pending b []) (gret None) (\<lambda>out. pending b (out_list out))"
    by (rule tells_ret) (simp add: out_list_def)
  have "tells_out b (pending b []) (if de_parent d \<noteq> None
      then writeStore env (\<lambda>clk sid tid. removeThreads clk sid tid [de_thread_id d]) else gret ()) (\<lambda>u. pending b [])"
    using out_write[OF assms turn_write_remove] out_ret by auto
  moreover have "tells_out b (pending b []) (gbind ttick (\<lambda>n.
      gbind (glift (case toThreadDoneEvent env n d of Inl x \<Rightarrow> Inl (Threw (Raised x)) | Inr ev \<Rightarrow> Inr ev))
        (append_and_return env))) (\<lambda>out. pending b (out_list out))"
    by (intro tells_bind[OF out_tick] tells_lift_bind out_append_return assms)
      (auto simp: thrown_out_def split: sum.splits)
  ultimately show ?thesis unfolding persist_thread_done_def using drop by (simp add: tells_then)
qed

lemma out_context_append [out_intro]:
  assumes "stream_ok b env"
  shows "tells_out b (pending b []) (gthen (writeStore env (\<lambda>clk sid tid. appendToThreadContext clk sid tid a))
    (gthen (if c then append_events env rows else gret ()) (gret None))) (\<lambda>out. pending b (out_list out))"
proof -
  have "tells_out b (pending b []) (if c then append_events env rows else gret ()) (\<lambda>u. pending b [])"
    using tells_weaken[OF out_append[OF assms]] pending_weaken out_ret by (auto intro!: tells_case)
  then show ?thesis
    by (intro tells_then[OF out_write[OF assms turn_write_patches(2)]] tells_then[OF _ tells_ret])
      (simp_all add: out_list_def)
qed

lemma out_plain [out_intro]: "durable_rows [ev] = [] \<Longrightarrow>
    tells_out b (pending b []) (gret (Some ev)) (\<lambda>out. pending b (out_list out))"
  "tells_out b (pending b []) (gret None) (\<lambda>out. pending b (out_list out))"
  by (auto intro!: tells_ret simp: out_list_def pending_free)

lemma out_persist:
  assumes "stream_ok b env"
  shows "tells_out b (pending b []) (persistExecutionEvent env e) (\<lambda>out. pending b (out_list out))"
proof -
  have "tells_out b (pending b []) (persist_thread_event env te) (\<lambda>out. pending b (out_list out))" for te
    unfolding persist_thread_event_def
    by (cases te; hypsubst; simp only: thread_event.case)
      (rule out_intro turn_writes assms | simp add: durable_rows_def model_message_row_def; fail)+
  then show ?thesis
    unfolding persistExecutionEvent_def by (cases e) (auto intro: out_intro turn_writes assms)
qed

section \<open>The loop and the end\<close>

lemma shown_durable: "shown b (ys @ [ev]) h \<Longrightarrow> shown b ys h"
  by (auto simp: shown_def logged_def dest: subseq_drop_tail)

lemma out_yield: "tells_out b (pending b [ev]) (yield_to env ev) (\<lambda>u. pending b [])"
  unfolding yield_to_def
proof (rule tells_then[OF tells_yield[where Q = "\<lambda>u. pending b []"] tells_bind[OF out_tick]])
  show "pending b [ev] ys h \<Longrightarrow> shown b (ys @ [ev]) h" "pending b [ev] ys h \<Longrightarrow> pending b [] (ys @ [ev]) h" for ys h
    by (simp_all add: pending_def)
next
  fix n
  show "tells_out b (pending b []) (case te_consumer env n of Goes_on \<Rightarrow> gret () | Leaves \<Rightarrow> gthrow Consumer_left
      | Throws x \<Rightarrow> gthrow (Threw (Raised x))) (\<lambda>u. pending b [])"
    by (cases "te_consumer env n") (auto intro!: tells_ret tells_throw simp: thrown_out_def)
qed

lemma out_persist_yield:
  assumes "stream_ok b env"
  shows "tells_out b (pending b []) (persist_and_yield env e) (\<lambda>u. pending b [])"
  unfolding persist_and_yield_def
proof (rule tells_bind[OF out_persist[OF assms]])
  fix out
  show "tells_out b (pending b (out_list out)) (case out of None \<Rightarrow> gret () | Some ev \<Rightarrow> yield_to env ev) (\<lambda>u. pending b [])"
    by (cases out) (simp_all add: out_list_def tells_ret out_yield)
qed

text \<open>The turn has ended: the handle has the state of the row, and the last event says so.\<close>

definition agreed :: "origin \<Rightarrow> streaming_event list \<Rightarrow> turn_handle \<Rightarrow> bool" where
  "agreed b ys h \<longleftrightarrow> (\<exists>t m st row. turn_at (ts_store h) (or_key b) = Some t \<and> with_metrics m (tr_state t) = Some st \<and>
     tr_state (ts_turn h) = of_terminal st \<and> ys \<noteq> [] \<and> last ys = Durable row \<and> pe_body row = Ev_turn_done st)"

lemma agreed_simps [simp]:
  "agreed b ys (ts_tick_update f h) = agreed b ys h"
  "agreed b ys (ts_closed_update g h) = agreed b ys h"
  by (simp_all add: agreed_def)

lemma with_metrics_terminal:
  "\<not> isNonTerminalTurnState st \<Longrightarrow> \<exists>t. with_metrics m st = Some t"
  by (cases st) simp_all

lemma out_adopt:
  assumes st: "\<not> isNonTerminalTurnState st"
  shows "tells history (shown b) (\<lambda>ys h. shown b ys h \<and> ts_closed h = c \<and> refused (or_key b) st (ts_store h))
    (adopt_state env time m st) (\<lambda>u ys h. shown b ys h \<and> ts_closed h = c \<and> agreed b ys h) X"
proof -
  let ?P = "\<lambda>ys h. shown b ys h \<and> ts_closed h = c \<and> refused (or_key b) st (ts_store h)"
  obtain t where t: "with_metrics m st = Some t" using with_metrics_terminal[OF st] by blast
  have tick: "tells history (shown b) ?P ttick (\<lambda>n. ?P) X"
    by (rule tells_tick) (simp add: shown_def logged_def)
  show ?thesis unfolding adopt_state_def t option.case
    by (rule tells_bind[OF tick tells_then[OF
          tells_modify[where Q = "\<lambda>u ys h. ?P ys h \<and> tr_state (ts_turn h) = of_terminal t"] tells_yield]])
      (use t in \<open>auto simp: shown_def logged_def turn_done_row_def durable_rows_def agreed_def refused_def\<close>)
qed

lemma out_drain:
  assumes ok: "stream_ok b env"
  shows "tells_out b (pending b []) (drain env tr)
    (\<lambda>frozen ys h. pending b [] ys h \<and> (frozen \<longrightarrow> agreed b ys h))"
proof (induction tr)
  case Nil
  show ?case unfolding drain.simps by (rule tells_ret) simp
next
  case (Cons p tr)
  obtain e orc where p: "p = (e, orc)" by (cases p)
  let ?Q = "\<lambda>frozen ys h. pending b [] ys h \<and> (frozen \<longrightarrow> agreed b ys h)"
  have go: "tells_out b (pending b []) (gthen (persist_and_yield env e) (gret False)) ?Q"
    by (rule tells_then[OF out_persist_yield[OF ok] tells_ret]) simp
  have stop: "tells_out b (thrown_out b x) (case x of
      Threw (Raised_by_store (Turn_not_running i st)) \<Rightarrow> gbind ttick (\<lambda>n.
        gthen (adopt_state env (te_now env n) (turnMetricsFromAgentThreadMetrics (getMetrics orc)) st) (gret True))
    | _ \<Rightarrow> gthrow x) ?Q" for x
  proof (cases "\<exists>i st. x = Threw (Raised_by_store (Turn_not_running i st))")
    case True
    then obtain i st where x: "x = Threw (Raised_by_store (Turn_not_running i st))" by blast
    show ?thesis
    proof (cases "isNonTerminalTurnState st")
      case True
      then show ?thesis by (auto simp: tells_def thrown_out_def refused_def x)
    next
      case False
      have tick: "tells_out b (thrown_out b x) ttick (\<lambda>n. thrown_out b x)"
        by (rule tells_tick) (simp add: thrown_out_def)
      have "tells_out b (thrown_out b x) (gthen (adopt_state env (te_now env n)
          (turnMetricsFromAgentThreadMetrics (getMetrics orc)) st) (gret True)) ?Q" for n
        by (rule tells_then[OF tells_weaken[OF out_adopt[OF False, of b "or_closed b"]] tells_ret])
          (auto simp: thrown_out_def pending_def x)
      from tells_bind[OF tick this] show ?thesis by (simp add: x)
    qed
  next
    case False
    then show ?thesis
      by (auto split: stream_exit.split raised.split store_error.split intro!: tells_throw)
  qed
  have rest: "tells_out b (?Q frozen) (if frozen then gret True else drain env tr) ?Q" for frozen
    using Cons.IH by (cases frozen) (auto intro: tells_ret)
  show ?case unfolding p drain.simps
    by (rule tells_then[OF tells_modify[where Q = "\<lambda>u. pending b []"] tells_bind[OF tells_catch[OF go stop] rest]])
      (simp add: pending_def shown_def logged_def)
qed

lemma turn_write_terminal:
  assumes "colon_free sid"
  shows "turn_write sid tid (\<lambda>clk sid tid. updateTurnTerminalState clk sid tid st row)"
proof -
  have "turn_at (fst (updateTurnTerminalState clk sid tid st row s)) (turnKey sid tid) \<noteq> None"
    if "turn_at s (turnKey sid tid) \<noteq> None" for clk s
    using that by (simp add: updateTurnTerminalState_def write_turn_state_def requireTurn_def Let_def split: option.splits sum.splits)
  moreover have "refused (turnKey sid tid) st' (fst (updateTurnTerminalState clk sid tid st row s))"
    if "snd (updateTurnTerminalState clk sid tid st row s) = Inl (Turn_not_running i st')" for clk s i st'
  proof (cases "turn_at s (turnKey sid tid)")
    case (Some t)
    have "snd (write_turn_state clk sid tid t (of_terminal st) row s) \<noteq> Inl (Turn_not_running i st')"
      by (auto simp: write_turn_state_def applyTurnStateToSession_def requireEvents_def requireSession_def
          parse_last_turn_details_def Let_def split: sum.splits option.splits if_splits)
    then show ?thesis using that Some by (auto simp: updateTurnTerminalState_def requireTurn_def refused_def split: if_splits)
  qed (use that in \<open>simp add: updateTurnTerminalState_def requireTurn_def\<close>)
  ultimately show ?thesis using step_terminal[OF assms] unfolding turn_write_def kept_step_def by blast
qed

text \<open>The row of a turn that no stream has ended may still have been frozen by others.\<close>

lemma terminal_write:
  assumes ok: "stream_ok b env" and h: "pending b [] ys h"
    and w: "written env (\<lambda>clk sid tid. updateTurnTerminalState clk sid tid st row) h = (s', x)"
  shows "(x = Inr () \<and> map_option tr_state (turn_at s' (or_key b)) = Some (of_terminal st)) \<or>
    (\<exists>i other. x = Inl (Turn_not_running i other) \<and> refused (or_key b) other s')"
    and "shown b ys (h\<lparr>ts_store := s', ts_tick := n\<rparr>)"
proof -
  let ?s = "te_rival env (ts_tick h) (ts_store h)"
  have b: "sound_origin b" "carried b h" using ok h by (auto simp: stream_ok_def pending_def shown_def)
  have cf: "colon_free (or_session b)" using b(1) by (simp add: sound_origin_def)
  have c: "carried b (h\<lparr>ts_store := ?s\<rparr>)"
    using b(2) ok unfolding carried_def stream_ok_def rivals_keep_def by (auto intro: rtranclp_trans)
  obtain t where t: "store_ok ?s" "turn_at ?s (or_key b) = Some t" using carried_row[OF b(1) c] by auto
  have out: "updateTurnTerminalState (te_clock env (ts_tick h)) (or_session b) (or_turn b) st row ?s = (s', x)"
    using w b(2) by (simp add: written_def carried_def)
  have live: "x = Inr () \<and> map_option tr_state (turn_at s' (or_key b)) = Some (of_terminal st)"
    if "isNonTerminalTurnState (tr_state t)"
    by (rule updateTerminal_live[OF t(1) cf t(2) that, of "te_clock env (ts_tick h)" st row]) (use out in auto)
  have frozen: "x = Inl (Turn_not_running (or_turn b) (tr_state t)) \<and> s' = ?s"
    if "\<not> isNonTerminalTurnState (tr_state t)"
    using out t(2) that by (simp add: updateTurnTerminalState_def requireTurn_def)
  show "(x = Inr () \<and> map_option tr_state (turn_at s' (or_key b)) = Some (of_terminal st)) \<or>
    (\<exists>i other. x = Inl (Turn_not_running i other) \<and> refused (or_key b) other s')"
    using live frozen t(2) by (cases "isNonTerminalTurnState (tr_state t)") (auto simp: refused_def)
  show "shown b ys (h\<lparr>ts_store := s', ts_tick := n\<rparr>)"
    using shown_written[OF b(1) _ turn_write_terminal[OF cf] _ w] ok h by (simp add: stream_ok_def pending_def)
qed

lemma terminal_state_metrics:
  "with_metrics m (of_terminal (terminal_state env sig ending time m)) = Some (terminal_state env sig ending time m)"
  by (auto simp: terminal_state_def split: option.split stream_end.split prod.split)

lemma terminal_state_agrees:
  "\<exists>m'. with_metrics m' (of_terminal (terminal_state env sig ending time m)) = Some (terminal_state env sig ending time m)"
  by (rule exI) (rule terminal_state_metrics)

definition closing :: "origin \<Rightarrow> nat \<Rightarrow> streaming_event list \<Rightarrow> turn_handle \<Rightarrow> bool" where
  "closing b c ys h \<longleftrightarrow> shown b ys h \<and> agreed b ys h \<and> ts_closed h = c"

lemma shown_simps [simp]:
  "shown b ys (ts_closed_update g h) = shown b ys h"
  "shown b ys (ts_tick_update f h) = shown b ys h"
  "shown b ys (h\<lparr>ts_started := y\<rparr>) = shown b ys h"
  "shown b ys (h\<lparr>ts_orchestrator := o1\<rparr>) = shown b ys h"
  "shown b ys (h\<lparr>ts_turn := (ts_turn h)\<lparr>tr_state := st, tr_updated_at := u\<rparr>\<rparr>) = shown b ys h"
  by (simp_all add: shown_def logged_def)

lemma out_refused_end:
  "tells history (shown b)
     (\<lambda>ys h. \<exists>i other. x = Threw (Raised_by_store (Turn_not_running i other)) \<and> shown b ys h \<and>
        ts_closed h = c \<and> refused (or_key b) other (ts_store h))
     (case x of
        Threw (Raised_by_store (Turn_not_running i other)) \<Rightarrow>
          gthen close_resolver (gthen (adopt_state env time m other) (gret False))
      | _ \<Rightarrow> gthen close_resolver (gthrow x))
     (\<lambda>wr ys h. \<not> wr \<and> closing b (Suc c) ys h) (\<lambda>x ys h. False)"
proof (cases "\<exists>i other. x = Threw (Raised_by_store (Turn_not_running i other)) \<and> \<not> isNonTerminalTurnState other")
  case True
  then obtain i other where x: "x = Threw (Raised_by_store (Turn_not_running i other))"
    and t: "\<not> isNonTerminalTurnState other" by blast
  have close: "tells history (shown b) (\<lambda>ys h. shown b ys h \<and> ts_closed h = c \<and> refused (or_key b) other (ts_store h))
      close_resolver (\<lambda>u ys h. shown b ys h \<and> ts_closed h = Suc c \<and> refused (or_key b) other (ts_store h))
      (\<lambda>x ys h. False)"
    unfolding close_resolver_def by (rule tells_modify) simp
  have "tells history (shown b) (\<lambda>ys h. shown b ys h \<and> ts_closed h = c \<and> refused (or_key b) other (ts_store h))
      (gthen close_resolver (gthen (adopt_state env time m other) (gret False)))
      (\<lambda>wr ys h. \<not> wr \<and> closing b (Suc c) ys h) (\<lambda>x ys h. False)"
    by (rule tells_then[OF close tells_then[OF out_adopt[OF t] tells_ret]]) (simp add: closing_def)
  then show ?thesis by (simp add: x)
next
  case False
  then show ?thesis by (auto simp: tells_def refused_def)
qed

lemma out_end:
  assumes ok: "stream_ok b env"
  shows "tells history (shown b) (\<lambda>ys h. pending b [] ys h \<and> (ending = Frozen_by_store \<longrightarrow> agreed b ys h))
    (end_turn env orc ending) (\<lambda>u. closing b (Suc (or_closed b))) (\<lambda>x ys h. False)"
proof -
  let ?P = "\<lambda>ys h. pending b [] ys h \<and> (ending = Frozen_by_store \<longrightarrow> agreed b ys h)" and ?c = "or_closed b"
  let ?m = "turnMetricsFromAgentThreadMetrics (getMetrics orc)"
  let ?st = "\<lambda>n. terminal_state env (te_aborted env n) ending (to_iso (te_now env n)) ?m"
  let ?row = "\<lambda>n. turn_done_row env n (te_now env n) (?st n)"
  let ?W = "\<lambda>n ys h. shown b ys h \<and> ts_closed h = ?c \<and>
      map_option tr_state (turn_at (ts_store h) (or_key b)) = Some (of_terminal (?st n))"
  let ?Y = "\<lambda>x ys h. \<exists>i other. x = Threw (Raised_by_store (Turn_not_running i other)) \<and> shown b ys h \<and>
      ts_closed h = ?c \<and> refused (or_key b) other (ts_store h)"
  have tick: "tells history (shown b) ?P ttick (\<lambda>n. ?P) X" for X by (rule tells_tick) simp
  have close: "tells history (shown b) ?P close_resolver (\<lambda>u. closing b (Suc ?c)) (\<lambda>x ys h. False)" if "ending = Frozen_by_store"
    unfolding close_resolver_def using that by (intro tells_modify) (simp add: closing_def pending_def)
  have "tells history (shown b) ?P (writeStore env (\<lambda>clk sid tid. updateTurnTerminalState clk sid tid (?st n) (?row n)))
      (\<lambda>u. ?W n) ?Y" for n
  proof (rule tells_write)
    fix ys h s' u
    assume h: "?P ys h" and w: "written env (\<lambda>clk sid tid. updateTurnTerminalState clk sid tid (?st n) (?row n)) h = (s', Inr u)"
    show "?W n ys (h\<lparr>ts_store := s', ts_tick := Suc (ts_tick h)\<rparr>)"
      using terminal_write[OF ok _ w] h by (auto simp: pending_def)
  next
    fix ys h s' e
    assume h: "?P ys h" and w: "written env (\<lambda>clk sid tid. updateTurnTerminalState clk sid tid (?st n) (?row n)) h = (s', Inl e)"
    show "?Y (Threw (Raised_by_store e)) ys (h\<lparr>ts_store := s', ts_tick := Suc (ts_tick h)\<rparr>)"
      using terminal_write[OF ok _ w] h by (auto simp: pending_def)
  qed
  then have body: "tells history (shown b) ?P
      (gthen (writeStore env (\<lambda>clk sid tid. updateTurnTerminalState clk sid tid (?st n) (?row n)))
        (gthen (gmodify (\<lambda>s. s\<lparr>ts_turn := (ts_turn s)\<lparr>tr_state := of_terminal (?st n), tr_updated_at := te_now env n\<rparr>\<rparr>))
          (gret True)))
      (\<lambda>wr ys h. wr \<and> ?W n ys h \<and> tr_state (ts_turn h) = of_terminal (?st n)) ?Y" for n
    by (rule tells_then)
      (rule tells_then[OF tells_modify[where Q = "\<lambda>u ys h. ?W n ys h \<and> tr_state (ts_turn h) = of_terminal (?st n)"] tells_ret], simp_all)
  have last: "tells history (shown b)
      (\<lambda>ys h. if wr then ?W n ys h \<and> tr_state (ts_turn h) = of_terminal (?st n) else closing b (Suc ?c) ys h)
      (if wr then gthen close_resolver (gyield (Durable (?row n))) else gret ()) (\<lambda>u. closing b (Suc ?c)) (\<lambda>x ys h. False)" for n wr
  proof (cases wr)
    case True
    have "tells history (shown b) (\<lambda>ys h. ?W n ys h \<and> tr_state (ts_turn h) = of_terminal (?st n))
        (gthen close_resolver (gyield (Durable (?row n)))) (\<lambda>u. closing b (Suc ?c)) (\<lambda>x ys h. False)"
      unfolding close_resolver_def
      by (rule tells_then[OF tells_modify[where Q = "\<lambda>u ys h. shown b ys h \<and> ts_closed h = Suc ?c \<and>
            map_option tr_state (turn_at (ts_store h) (or_key b)) = Some (of_terminal (?st n)) \<and>
            tr_state (ts_turn h) = of_terminal (?st n)"] tells_yield])
        (auto simp: shown_def logged_def durable_rows_def turn_done_row_def closing_def agreed_def
          intro: terminal_state_agrees)
    then show ?thesis using True by simp
  qed (auto intro: tells_ret)
  have stop: "tells history (shown b) (?Y x)
      (case x of
         Threw (Raised_by_store (Turn_not_running i other)) \<Rightarrow>
           gthen close_resolver (gthen (adopt_state env (te_now env n) ?m other) (gret False))
       | _ \<Rightarrow> gthen close_resolver (gthrow x))
      (\<lambda>wr ys h. if wr then ?W n ys h \<and> tr_state (ts_turn h) = of_terminal (?st n) else closing b (Suc ?c) ys h)
      (\<lambda>x ys h. False)" for x n
    by (rule tells_weaken[OF out_refused_end]) auto
  show ?thesis unfolding end_turn_def Let_def
    by (rule tells_bind[OF tick], rule tells_case(2))
      (erule close, rule tells_bind[OF tells_catch[OF tells_weaken[OF body] stop] last], auto)
qed

section \<open>The stream\<close>

text \<open>A handle as \<open>createTurn\<close> returns it, over the store the stream starts from.\<close>

definition stream_origin :: "turn_handle \<Rightarrow> origin" where
  "stream_origin h = \<lparr>or_session = tr_session_id (ts_turn h), or_turn = tr_turn_id (ts_turn h),
     or_store = ts_store h, or_closed = ts_closed h\<rparr>"

definition stream_ready :: "turn_handle \<Rightarrow> bool" where
  "stream_ready h \<longleftrightarrow> \<not> ts_started h \<and> ts_orchestrator h \<noteq> None \<and> ts_resolver h \<and> ts_signal h \<and>
     store_ok (ts_store h) \<and> colon_free (tr_session_id (ts_turn h)) \<and>
     turn_at (ts_store h) (turnKey (tr_session_id (ts_turn h)) (tr_turn_id (ts_turn h))) \<noteq> None"

lemma ready_pending:
  assumes "stream_ready h"
  shows "pending (stream_origin h) [] [] (h\<lparr>ts_started := True\<rparr>)"
proof -
  obtain t where t: "store_ok (ts_store h)" "turn_at (ts_store h) (or_key (stream_origin h)) = Some t"
    using assms by (auto simp: stream_ready_def stream_origin_def)
  obtain es where "events_at (ts_store h) (or_key (stream_origin h)) = Some es" using events_of_turn[OF t] by blast
  then show ?thesis
    by (auto simp: pending_def shown_def logged_def carried_def stream_origin_def durable_rows_def)
qed

lemma ready_ok: "stream_ready h \<Longrightarrow> rivals_keep env (or_key (stream_origin h)) \<Longrightarrow> stream_ok (stream_origin h) env"
  by (simp add: stream_ok_def sound_origin_def stream_ready_def stream_origin_def)

lemma out_body:
  assumes ok: "stream_ok b env"
  shows "tells_out b (pending b []) (stream_body env fuel orc) (\<lambda>ending ys h. pending b [] ys h \<and>
    (ending = Frozen_by_store \<longrightarrow> agreed b ys h) \<and>
    (ending = Not_ended \<longrightarrow> result_of (orc_execute fuel (te_orchestrator env) orc) = Inr None))"
proof -
  let ?Q = "\<lambda>ending ys h. pending b [] ys h \<and> (ending = Frozen_by_store \<longrightarrow> agreed b ys h) \<and>
    (ending = Not_ended \<longrightarrow> result_of (orc_execute fuel (te_orchestrator env) orc) = Inr None)"
  obtain tr orc' r where x: "orc_execute fuel (te_orchestrator env) orc = (tr, orc', r)"
    by (cases "orc_execute fuel (te_orchestrator env) orc")
  have finish: "tells_out b (pending b []) (case r of Inl x \<Rightarrow> gthrow (Threw (Raised x))
      | Inr None \<Rightarrow> gret Not_ended | Inr (Some out) \<Rightarrow> gret (Executed out)) ?Q"
    by (auto simp: thrown_out_def x split: sum.split option.split intro!: tells_throw tells_ret)
  have set: "tells_out b (pending b []) (gmodify (\<lambda>s. s\<lparr>ts_orchestrator := Some orc'\<rparr>)) (\<lambda>u. pending b [])"
    by (rule tells_modify) (simp add: pending_def)
  have tail: "tells_out b (\<lambda>ys h. pending b [] ys h \<and> (frozen \<longrightarrow> agreed b ys h))
      (if frozen then gret Frozen_by_store else gthen (gmodify (\<lambda>s. s\<lparr>ts_orchestrator := Some orc'\<rparr>))
        (case r of Inl x \<Rightarrow> gthrow (Threw (Raised x))
         | Inr None \<Rightarrow> gret Not_ended | Inr (Some out) \<Rightarrow> gret (Executed out))) ?Q" for frozen
    using tells_then[OF set finish] by (cases frozen) (auto intro: tells_ret)
  have "tells_out b (\<lambda>ys h. h = h0 \<and> pending b [] ys h) (let created = turn_created_row env n (ts_turn h0) in
      gthen (append_events env [created]) (gthen (yield_to env (Durable created))
        (case orc_execute fuel (te_orchestrator env) orc of (tr, orc', r) \<Rightarrow>
          gbind (drain env tr) (\<lambda>frozen. if frozen then gret Frozen_by_store
            else gthen (gmodify (\<lambda>s. s\<lparr>ts_orchestrator := Some orc'\<rparr>))
              (case r of Inl x \<Rightarrow> gthrow (Threw (Raised x))
               | Inr None \<Rightarrow> gret Not_ended | Inr (Some out) \<Rightarrow> gret (Executed out)))))) ?Q" for n h0
    unfolding Let_def x prod.case
    by (rule tells_weaken[OF tells_then[OF out_append[OF ok] tells_then[OF _ tells_bind[OF out_drain[OF ok] tail]]]])
      (auto simp: out_yield x)
  then show ?thesis unfolding stream_body_def by (intro tells_bind[OF out_tick] tells_read)
qed

lemma out_stream:
  assumes ok: "stream_ok b env" and s: "stream_ready h" and b: "b = stream_origin h"
  shows "tells history (shown b) (\<lambda>ys h'. h' = h \<and> ys = []) (stream env fuel)
    (\<lambda>ended ys h'. if ended then closing b (Suc (or_closed b)) ys h'
       else \<exists>orc. ts_orchestrator h = Some orc \<and> result_of (orc_execute fuel (te_orchestrator env) orc) = Inr None)
    (\<lambda>x ys h'. False)"
proof -
  obtain orc where orc: "ts_orchestrator h = Some orc" using s by (auto simp: stream_ready_def)
  let ?F = "result_of (orc_execute fuel (te_orchestrator env) orc) = Inr None"
  let ?E = "\<lambda>ending ys h. pending b [] ys h \<and> (ending = Frozen_by_store \<longrightarrow> agreed b ys h) \<and> (ending = Not_ended \<longrightarrow> ?F)"
  let ?Q = "\<lambda>ended ys h'. if ended then closing b (Suc (or_closed b)) ys h' else ?F"
  have leave: "tells history (shown b) (thrown_out b x)
      (case x of Consumer_left \<Rightarrow> gret Abandoned_by_consumer | Threw e \<Rightarrow> gret (Failed e)) ?E (\<lambda>x ys h. False)" for x
    by (cases x) (auto simp: thrown_out_def intro!: tells_ret)
  have "tells history (shown b) (?E ending) (if ending = Not_ended then gret False
      else gbind gget (\<lambda>s1. gthen (end_turn env (case ts_orchestrator s1 of Some o1 \<Rightarrow> o1 | None \<Rightarrow> orc) ending) (gret True)))
      ?Q (\<lambda>x ys h. False)" for ending
  proof (rule tells_case(2))
    show "ending = Not_ended \<Longrightarrow> tells history (shown b) (?E ending) (gret False) ?Q (\<lambda>x ys h. False)"
      by (rule tells_ret) simp
    have "tells history (shown b) (\<lambda>ys h. h = h0 \<and> ?E ending ys h) (gthen (end_turn env o1 ending) (gret True)) ?Q
        (\<lambda>x ys h. False)" for h0 o1
      by (rule tells_then[OF tells_weaken[OF out_end[OF ok]] tells_ret]) auto
    then show "tells history (shown b) (?E ending) (gbind gget (\<lambda>s1.
        gthen (end_turn env (case ts_orchestrator s1 of Some o1 \<Rightarrow> o1 | None \<Rightarrow> orc) ending) (gret True))) ?Q (\<lambda>x ys h. False)"
      by (intro tells_read)
  qed
  note run = tells_bind[OF tells_catch[OF out_body[OF ok] leave] this]
  have "tells history (shown b) (\<lambda>ys h'. h' = h \<and> ys = []) (gmodify (\<lambda>s. s\<lparr>ts_started := True\<rparr>))
      (\<lambda>u. pending b []) (\<lambda>x ys h. False)"
    by (rule tells_modify) (use ready_pending[OF s] b in simp)
  note all = tells_then[OF this run]
  have start: "\<not> ts_started h" "\<not> (\<not> ts_resolver h \<or> \<not> ts_signal h)" using s by (auto simp: stream_ready_def)
  show ?thesis unfolding stream_def
  proof (rule tells_read)
    fix h0
    show "tells history (shown b) (\<lambda>ys h'. h' = h0 \<and> h' = h \<and> ys = [])
      (if ts_started h0 then gthrow (Threw (Raised (plain_error ''TurnHandle.stream() is single-use and was already called'')))
       else gthen (gmodify (\<lambda>s. s\<lparr>ts_started := True\<rparr>))
       (case ts_orchestrator h0 of
          None \<Rightarrow> gthrow (Threw (Raised (plain_error
            ''TurnHandle.stream() is only available on turns returned from SessionHandle.createTurn()'')))
        | Some orc \<Rightarrow>
            if \<not> ts_resolver h0 \<or> \<not> ts_signal h0
            then gthrow (Threw (Raised (plain_error
              ''TurnHandle.stream() is only available on turns returned from SessionHandle.createTurn()'')))
            else gbind (gcatch (stream_body env fuel orc) (\<lambda>x.
                case x of Consumer_left \<Rightarrow> gret Abandoned_by_consumer | Threw e \<Rightarrow> gret (Failed e)))
              (\<lambda>ending.
                if ending = Not_ended then gret False
                else gbind gget (\<lambda>s1. gthen (end_turn env (case ts_orchestrator s1 of Some o1 \<Rightarrow> o1 | None \<Rightarrow> orc) ending)
                  (gret True)))))
      (\<lambda>ended ys h'. if ended then closing b (Suc (or_closed b)) ys h' else \<exists>orc. ts_orchestrator h = Some orc \<and>
        result_of (orc_execute fuel (te_orchestrator env) orc) = Inr None) (\<lambda>x ys h'. False)"
    proof (cases "h0 = h")
      case True
      show ?thesis unfolding True orc option.case if_not_P[OF start(1)] if_not_P[OF start(2)]
        by (rule tells_weaken[OF all]) (auto simp: orc)
    qed (simp add: tells_def)
  qed
qed

end
