(* ===== verification/Turn_Handle_Sync.thy ===== *)
theory Turn_Handle_Sync
  imports Turn_Handle_Runs Orchestrator_Sync
begin

text \<open>
  What the store has of the threads of a turn. The snapshot of the turn row is at every moment what the replay of
  the events persisted so far gives, so a turn that is resumed from its snapshot finds the threads as they were.
  A capability state that was set to null is not stored.
\<close>

section \<open>The snapshot as a view\<close>

definition stored_caps :: "capability_state option \<Rightarrow> capability_state \<Rightarrow> bool" where
  "stored_caps c live \<longleftrightarrow> (\<forall>key. js_get (case c of None \<Rightarrow> [] | Some m \<Rightarrow> m) key =
     (case js_get live key of None \<Rightarrow> None | Some v \<Rightarrow> if v = JNull then None else Some v))"

fun thread_stored :: "thread_view \<Rightarrow> agent_thread_snapshot \<Rightarrow> bool" where
  "thread_stored (ctx, u, caps) th \<longleftrightarrow> ats_context th = ctx \<and> ats_current_context_usage th = u \<and>
     stored_caps (ats_capability_state th) caps"

definition recovers :: "turn_snapshot \<Rightarrow> turn_view \<Rightarrow> bool" where
  "recovers sn V \<longleftrightarrow> (\<forall>tid. rel_option thread_stored (V tid) (js_get (sn_threads sn) tid))"

lemma recovers_set:
  "recovers sn V \<Longrightarrow> thread_stored v th \<Longrightarrow> recovers (sn\<lparr>sn_threads := js_set i th (sn_threads sn)\<rparr>) (V(i \<mapsto> v))"
  by (simp add: recovers_def)

lemma recovers_delete: "recovers sn V \<Longrightarrow> recovers (sn\<lparr>sn_threads := js_delete i (sn_threads sn)\<rparr>) (V(i := None))"
  by (simp add: recovers_def)

lemma recovers_rest [simp]:
  "recovers (sn\<lparr>sn_mcp_servers := x\<rparr>) V = recovers sn V" "recovers (sn\<lparr>sn_sandbox_info := y\<rparr>) V = recovers sn V"
  by (simp_all add: recovers_def)

lemma recovers_at:
  assumes "recovers sn V" "js_get (sn_threads sn) i = Some th"
  obtains v where "V i = Some v" "thread_stored v th"
  using assms unfolding recovers_def by (metis option.rel_cases option.sel option.distinct(1))

lemma stored_patch:
  assumes "stored_caps c live"
  shows "stored_caps (patch_capability key v c) (js_set key v live)"
proof -
  let ?m = "case c of None \<Rightarrow> [] | Some m \<Rightarrow> m"
  have "js_get (case patch_capability key v c of None \<Rightarrow> [] | Some m \<Rightarrow> m) k =
      (if k = key then if v = JNull then None else Some v else js_get ?m k)" for k
  proof (cases "v = JNull")
    case True
    have "js_get (js_delete key ?m) k = (if k = key then None else js_get ?m k)" by simp
    then show ?thesis using True by (cases "js_delete key ?m = []") (simp_all add: patch_capability_def Let_def split: if_splits)
  qed (simp add: patch_capability_def Let_def)
  then show ?thesis using assms by (simp add: stored_caps_def)
qed

section \<open>What a write does to the snapshot\<close>

text \<open>A change of one thread that the view of the thread shows as well.\<close>

lemma recovers_thread:
  assumes r: "recovers sn V" and on: "on_thread i f sn = Inr sn'"
    and f: "\<And>v th. thread_stored v th \<Longrightarrow> thread_stored (g v) (f th)"
  shows "recovers sn' (V(i := map_option g (V i)))"
proof -
  obtain th where th: "js_get (sn_threads sn) i = Some th" "sn' = sn\<lparr>sn_threads := js_set i (f th) (sn_threads sn)\<rparr>"
    using on by (auto simp: on_thread_def split: option.splits)
  obtain v where v: "V i = Some v" "thread_stored v th" by (rule recovers_at[OF r th(1)])
  show ?thesis using recovers_set[OF r f[OF v(2)], of i] by (simp add: th(2) v(1))
qed

text \<open>The state of a row that is not the turn's own end.\<close>

fun ended_well :: "turn_state \<Rightarrow> bool" where
  "ended_well (Turn_done out acts tm mx) = True"
| "ended_well st = False"

text \<open>The handle names the turn, whose row holds the view and has not ended well.\<close>

definition fit :: "origin \<Rightarrow> turn_view \<Rightarrow> turn_handle \<Rightarrow> bool" where
  "fit b V h \<longleftrightarrow> tr_session_id (ts_turn h) = or_session b \<and> tr_turn_id (ts_turn h) = or_turn b \<and>
     (\<exists>t. turn_at (ts_store h) (or_key b) = Some t \<and> recovers (tr_snapshot t) V \<and> \<not> ended_well (tr_state t))"

lemma fit_simps [simp]:
  "fit b V (h\<lparr>ts_orchestrator := x\<rparr>) = fit b V h"
  "fit b V (ts_tick_update f h) = fit b V h"
  "fit b V (h\<lparr>ts_started := y\<rparr>) = fit b V h"
  "fit b V (ts_closed_update g h) = fit b V h"
  "fit b V (h\<lparr>ts_turn := (ts_turn h)\<lparr>tr_state := st, tr_updated_at := u\<rparr>\<rparr>) = fit b V h"
  by (simp_all add: fit_def)

text \<open>Others do not write the threads of this turn, and all they do to its state is cancel it.\<close>

definition rivals_spare :: "turn_env \<Rightarrow> string \<Rightarrow> bool" where
  "rivals_spare env k \<longleftrightarrow> (\<forall>n s t. turn_at s k = Some t \<longrightarrow> (\<exists>t'. turn_at (te_rival env n s) k = Some t' \<and>
     tr_snapshot t' = tr_snapshot t \<and> (tr_state t' = tr_state t \<or> (\<exists>r tm mx. tr_state t' = Turn_cancelled r tm mx))))"

lemma spared:
  assumes "fit b V h" "rivals_spare env (or_key b)"
  obtains t where "turn_at (te_rival env n (ts_store h)) (or_key b) = Some t" "recovers (tr_snapshot t) V"
    "\<not> ended_well (tr_state t)"
proof -
  obtain t where t: "turn_at (ts_store h) (or_key b) = Some t" "recovers (tr_snapshot t) V" "\<not> ended_well (tr_state t)"
    using assms(1) by (auto simp: fit_def)
  from assms(2)[unfolded rivals_spare_def, rule_format, OF t(1), of n] that t show thesis by fastforce
qed

definition moves ::
    "string \<Rightarrow> string \<Rightarrow> ((nat \<Rightarrow> int) \<Rightarrow> string \<Rightarrow> string \<Rightarrow> store \<Rightarrow> unit outcome) \<Rightarrow>
       (turn_snapshot \<Rightarrow> turn_snapshot \<Rightarrow> bool) \<Rightarrow> bool" where
  "moves sid tid f R \<longleftrightarrow> (\<forall>clk s s' x t. turn_at s (turnKey sid tid) = Some t \<longrightarrow> f clk sid tid s = (s', x) \<longrightarrow>
     (case x of
        Inl e \<Rightarrow> turn_at s' (turnKey sid tid) = Some t \<and> (\<forall>i st. e = Turn_not_running i st \<longrightarrow> st = tr_state t)
      | Inr u \<Rightarrow> \<exists>t'. turn_at s' (turnKey sid tid) = Some t' \<and> tr_state t' = tr_state t \<and> R (tr_snapshot t) (tr_snapshot t')))"

lemma running_refusal:
  "requireRunningTurn s sid tid = Inl (Turn_not_running i st) \<Longrightarrow> turn_at s (turnKey sid tid) = Some t \<Longrightarrow> st = tr_state t"
  by (auto simp: requireRunningTurn_def requireTurn_def split: if_splits)

lemma moves_patch:
  assumes g: "\<And>sn i st. g sn \<noteq> Inl (Turn_not_running i st)"
  shows "moves sid tid (\<lambda>clk sid tid. on_running_turn clk sid tid g) (\<lambda>sn sn'. g sn = Inr sn')"
  unfolding moves_def
proof (intro allI impI)
  fix clk s s' x t
  assume t: "turn_at s (turnKey sid tid) = Some t" and f: "on_running_turn clk sid tid g s = (s', x)"
  show "case x of Inl e \<Rightarrow> turn_at s' (turnKey sid tid) = Some t \<and> (\<forall>i st. e = Turn_not_running i st \<longrightarrow> st = tr_state t)
    | Inr u \<Rightarrow> \<exists>t'. turn_at s' (turnKey sid tid) = Some t' \<and> tr_state t' = tr_state t \<and> g (tr_snapshot t) = Inr (tr_snapshot t')"
  proof (cases "bindE (requireRunningTurn s sid tid) (\<lambda>t. bindE (g (tr_snapshot t)) (\<lambda>sn. Inr (t, sn)))")
    case (Inl e)
    have "st = tr_state t" if "e = Turn_not_running i st" for i st
      using Inl t that g running_refusal[of s sid tid i st t] by (cases "requireRunningTurn s sid tid") (auto simp: bindE_Inl_iff split: sum.splits)
    then show ?thesis using Inl t f by (auto simp: on_running_turn_def)
  next
    case (Inr p)
    then have "fst p = t" "g (tr_snapshot t) = Inr (snd p)"
      using t by (auto simp: bindE_Inr_iff requireRunningTurn_Inr)
    then show ?thesis using t f Inr by (cases p) (auto simp: on_running_turn_def)
  qed
qed

lemma moves_events: "moves sid tid (\<lambda>clk sid tid. appendToEvents sid tid rows) (=)"
  by (auto simp: moves_def appendToEvents_def requireEvents_def dest: running_refusal split: sum.splits option.splits)

section \<open>What an event does to the snapshot\<close>

abbreviation tells_fit ::
    "(nat \<Rightarrow> turn_handle \<Rightarrow> bool) \<Rightarrow> (turn_handle \<Rightarrow> bool) \<Rightarrow> 'a turn_gen \<Rightarrow> ('a \<Rightarrow> turn_handle \<Rightarrow> bool) \<Rightarrow>
       (stream_exit \<Rightarrow> turn_handle \<Rightarrow> bool) \<Rightarrow> bool" where
  "tells_fit I P g Q X \<equiv> tells (\<lambda>e u. u) I (\<lambda>u. P) g (\<lambda>a u. Q a) (\<lambda>x u. X x)"

text \<open>An error of the store that says that the turn does not run says so with a state that is not a good end.\<close>

definition mild :: "stream_exit \<Rightarrow> bool" where
  "mild x \<longleftrightarrow> (\<forall>i st. x = Threw (Raised_by_store (Turn_not_running i st)) \<longrightarrow> \<not> ended_well st)"

lemma mild_raised [simp]: "mild (Threw (Raised y))" "mild Consumer_left"
  by (simp_all add: mild_def)

lemma fit_write:
  assumes sp: "rivals_spare env (or_key b)" and f: "moves (or_session b) (or_turn b) f R"
    and R: "\<And>sn sn'. recovers sn V \<Longrightarrow> R sn sn' \<Longrightarrow> recovers sn' W"
  shows "tells_fit I (fit b V) (writeStore env f) (\<lambda>u. fit b W) (\<lambda>x h. fit b V h \<and> mild x)"
proof -
  have step: "(case x of Inl e \<Rightarrow> fit b V (h\<lparr>ts_store := s', ts_tick := n\<rparr>) \<and> mild (Threw (Raised_by_store e)) | Inr u \<Rightarrow> fit b W (h\<lparr>ts_store := s', ts_tick := n\<rparr>))"
    if h: "fit b V h" and w: "written env f h = (s', x)" for h s' x n
  proof -
    obtain t where t: "turn_at (te_rival env (ts_tick h) (ts_store h)) (or_key b) = Some t"
      "recovers (tr_snapshot t) V" "\<not> ended_well (tr_state t)" by (rule spared[OF h sp])
    have names: "tr_session_id (ts_turn h) = or_session b" "tr_turn_id (ts_turn h) = or_turn b" using h by (auto simp: fit_def)
    have "f (te_clock env (ts_tick h)) (or_session b) (or_turn b) (te_rival env (ts_tick h) (ts_store h)) = (s', x)"
      using w by (simp add: written_def names)
    from f[unfolded moves_def, rule_format, OF t(1) this] show ?thesis
      using t(2,3) R names by (cases x) (auto simp: fit_def mild_def)
  qed
  show ?thesis by (rule tells_write) (use step in fastforce)+
qed

lemma fit_append:
  assumes "rivals_spare env (or_key b)"
  shows "tells_fit I (fit b V) (append_events env rows) (\<lambda>u. fit b V) (\<lambda>x h. fit b V h \<and> mild x)"
  unfolding append_events_def by (rule fit_write[OF assms moves_events]) simp

lemma fit_append_return:
  assumes "rivals_spare env (or_key b)"
  shows "tells_fit I (fit b V) (append_and_return env row) (\<lambda>out. fit b V) (\<lambda>x h. fit b V h \<and> mild x)"
  unfolding append_and_return_def by (rule tells_then[OF fit_append[OF assms] tells_ret])

text \<open>Either the event is persisted or it is not.\<close>

definition one_of :: "origin \<Rightarrow> turn_view \<Rightarrow> turn_view \<Rightarrow> turn_handle \<Rightarrow> bool" where
  "one_of b V W h \<longleftrightarrow> fit b V h \<or> fit b W h"

definition persists :: "turn_env \<Rightarrow> origin \<Rightarrow> turn_view \<Rightarrow> streaming_event option turn_gen \<Rightarrow> turn_view \<Rightarrow> bool" where
  "persists env b V g W \<longleftrightarrow> (\<forall>I. tells_fit I (fit b V) g (\<lambda>out. fit b W) (\<lambda>x h. one_of b V W h \<and> mild x))"

lemma persists_ret: "persists env b V (gret out) V"
  by (simp add: persists_def tells_ret)

lemma persists_append: "rivals_spare env (or_key b) \<Longrightarrow> persists env b V (append_and_return env row) V"
  unfolding persists_def by (intro allI tells_weaken[OF fit_append_return]) (auto simp: one_of_def)

lemma persists_write:
  assumes "rivals_spare env (or_key b)" "moves (or_session b) (or_turn b) f R"
    and "\<And>sn sn'. recovers sn V \<Longrightarrow> R sn sn' \<Longrightarrow> recovers sn' W" and "persists env b W g W"
  shows "persists env b V (gthen (writeStore env f) g) W"
  unfolding persists_def
proof
  fix I
  show "tells_fit I (fit b V) (gthen (writeStore env f) g) (\<lambda>out. fit b W) (\<lambda>x h. one_of b V W h \<and> mild x)"
    by (rule tells_then[OF tells_weaken[OF fit_write[OF assms(1-3)]]
          tells_weaken[OF assms(4)[unfolded persists_def, rule_format]]])
      (auto simp: one_of_def)
qed

lemma persists_then:
  assumes "\<And>I. tells_fit I (fit b V) g1 (\<lambda>u. fit b V) (\<lambda>x h. fit b V h \<and> mild x)" and "persists env b V g W"
  shows "persists env b V (gthen g1 g) W"
  unfolding persists_def
  by (intro allI tells_then[OF tells_weaken[OF assms(1)] assms(2)[unfolded persists_def, rule_format]]) (auto simp: one_of_def)

lemma persists_thread_done:
  assumes sp: "rivals_spare env (or_key b)"
  shows "persists env b V (persist_thread_done env d) (if de_parent d = None then V else V(de_thread_id d := None))"
proof -
  have rest: "persists env b W (if isInternalThreadDoneCancelled d then gret None
      else if de_parent d = None then gret None
      else gbind ttick (\<lambda>n.
           gbind (glift (case toThreadDoneEvent env n d of Inl x \<Rightarrow> Inl (Threw (Raised x)) | Inr ev \<Rightarrow> Inr ev))
             (append_and_return env))) W" for W
    unfolding persists_def
  proof (intro allI tells_case)
    fix I
    show "tells_fit I (fit b W) (gbind ttick (\<lambda>n.
           gbind (glift (case toThreadDoneEvent env n d of Inl x \<Rightarrow> Inl (Threw (Raised x)) | Inr ev \<Rightarrow> Inr ev))
             (append_and_return env))) (\<lambda>out. fit b W) (\<lambda>x h. one_of b W W h \<and> mild x)"
      by (rule tells_bind[OF tells_tick[where Q = "\<lambda>n u. fit b W"] tells_lift_bind[OF _ tells_weaken[OF fit_append_return[OF sp]]]])
        (auto simp: one_of_def simp del: toThreadDoneEvent.simps split: sum.splits)
  qed (auto intro: tells_ret)
  show ?thesis
  proof (cases "de_parent d")
    case None
    then show ?thesis using persists_then[OF tells_ret rest] by (simp add: persist_thread_done_def)
  next
    case (Some p)
    have eq: "(\<lambda>clk sid tid. removeThreads clk sid tid [de_thread_id d]) = (\<lambda>clk sid tid. on_running_turn clk sid tid
        (\<lambda>sn. Inr (sn\<lparr>sn_threads := fold js_delete [de_thread_id d] (sn_threads sn)\<rparr>)))"
      by (intro ext) (simp add: removeThreads_def)
    have "persists env b V (gthen (writeStore env (\<lambda>clk sid tid. removeThreads clk sid tid [de_thread_id d]))
        (if isInternalThreadDoneCancelled d then gret None
         else if de_parent d = None then gret None
         else gbind ttick (\<lambda>n.
           gbind (glift (case toThreadDoneEvent env n d of Inl x \<Rightarrow> Inl (Threw (Raised x)) | Inr ev \<Rightarrow> Inr ev))
             (append_and_return env)))) (V(de_thread_id d := None))"
      unfolding eq by (rule persists_write[OF sp moves_patch _ rest]) (auto intro: recovers_delete)
    then show ?thesis using Some by (simp add: persist_thread_done_def)
  qed
qed

lemma persists_thread:
  assumes sp: "rivals_spare env (or_key b)"
    and f: "\<And>v th. thread_stored v th \<Longrightarrow> thread_stored (g v) (f th)"
    and rest: "\<And>W. persists env b W rest W"
  shows "persists env b V (gthen (writeStore env (\<lambda>clk sid tid. on_running_turn clk sid tid (on_thread i f))) rest)
    (V(i := map_option g (V i)))"
  by (rule persists_write[OF sp moves_patch[OF on_thread_error] _ rest]) (rule recovers_thread[OF _ _ f])

lemma persists_patch:
  assumes sp: "rivals_spare env (or_key b)" and f: "\<And>sn. recovers (f sn) V = recovers sn V"
  shows "persists env b V (gthen (writeStore env (\<lambda>clk sid tid. on_running_turn clk sid tid (\<lambda>sn. Inr (f sn))))
    (append_and_return env row)) V"
  by (rule persists_write[OF sp moves_patch _ persists_append[OF sp]]) (use f in auto)

lemma persists_context_append:
  assumes sp: "rivals_spare env (or_key b)"
  shows "persists env b V (persist_thread_event env (Append_context a)) (absorb_exec (Thread_event (Append_context a)) V)"
proof -
  have rest: "persists env b W (gthen (if length (tae_output a) > 0
      then append_events env (map model_message_row (tae_output a)) else gret ()) (gret None)) W" for W
    by (rule persists_then[OF tells_case(2)[OF fit_append[OF sp] tells_ret] persists_ret])
  have stored: "thread_stored (absorb_event (Append_context a) v)
      (append_to_thread (tca_context (context_append a)) (tca_current_context_usage (context_append a))
        (tca_completion (context_append a)) th)"
    if "thread_stored v th" for v th
    using that by (cases v) (simp add: append_to_thread_def context_append_def split: option.split)
  have id: "tca_thread_id (context_append a) = tae_thread_id a" by (simp add: context_append_def)
  show ?thesis
    unfolding persist_thread_event_def thread_event.case appendToThreadContext_def id absorb_exec.simps event_thread_id.simps
      absorb_in_def option.case
    by (rule persists_thread[OF sp stored rest])
qed

lemma persists_overwrite:
  assumes sp: "rivals_spare env (or_key b)"
  shows "persists env b V (persist_thread_event env (Overwrite_context ev)) (absorb_exec (Thread_event (Overwrite_context ev)) V)"
proof -
  have "thread_stored (absorb_event (Overwrite_context ev) v)
      (th\<lparr>ats_context := toc_context ev, ats_current_context_usage := toc_current_context_usage ev\<rparr>)"
    if "thread_stored v th" for v th using that by (cases v) simp
  from persists_thread[OF sp this persists_ret] show ?thesis
    by (simp add: persist_thread_event_def overwriteThreadContext_def absorb_in_def)
qed

lemma persists_capability:
  assumes sp: "rivals_spare env (or_key b)"
  shows "persists env b V (persist_thread_event env (Capability_state i key v)) (absorb_exec (Thread_event (Capability_state i key v)) V)"
proof -
  have "thread_stored (absorb_event (Capability_state i key v) w)
      (th\<lparr>ats_capability_state := patch_capability key v (ats_capability_state th)\<rparr>)"
    if "thread_stored w th" for w th using that by (cases w) (simp add: stored_patch)
  from persists_thread[OF sp this persists_ret] show ?thesis
    by (simp add: persist_thread_event_def patchThreadCapabilityState_def absorb_in_def)
qed

lemma persists_done:
  "rivals_spare env (or_key b) \<Longrightarrow>
     persists env b V (persist_thread_event env (Thread_done d)) (absorb_exec (Thread_event (Thread_done d)) V)"
  using persists_thread_done[of env b V d] by (simp add: persist_thread_event_def)

lemma persists_created:
  assumes sp: "rivals_spare env (or_key b)"
  shows "persists env b V (persistExecutionEvent env (Thread_created c)) (absorb_exec (Thread_created c) V)"
proof -
  have stored: "thread_stored fresh_view (created_thread_snapshot c)"
    by (simp add: fresh_view_def created_thread_snapshot_def stored_caps_def)
  have id: "ats_thread_id (created_thread_snapshot c) = tce_thread_id c" by (simp add: created_thread_snapshot_def)
  show ?thesis unfolding persistExecutionEvent_def execution_event.case addThreads_def absorb_exec.simps
    by (rule persists_write[OF sp moves_patch _ persists_append[OF sp]]) (auto simp: id intro: recovers_set[OF _ stored])
qed

lemma persists_event:
  assumes sp: "rivals_spare env (or_key b)"
  shows "persists env b V (persistExecutionEvent env e) (absorb_exec e V)"
proof (cases e)
  case (Thread_event te)
  have "persists env b V (persist_thread_event env te) (absorb_exec (Thread_event te) V)"
  proof (cases "silent_event te \<and> \<not> is_done te")
    case True
    then have "absorb_exec (Thread_event te) V = V" by (simp add: absorb_quiet)
    then show ?thesis using True persists_append[OF sp] persists_ret
        persists_patch[OF sp, of "\<lambda>sn. sn\<lparr>sn_sandbox_info := Some info\<rparr>" for info]
        persists_patch[OF sp, of "\<lambda>sn. sn\<lparr>sn_mcp_servers := Some (fold (\<lambda>m. js_set (msi_id m) m) servers
                 (case sn_mcp_servers sn of None \<Rightarrow> [] | Some ms \<Rightarrow> ms))\<rparr>" for servers]
      by (cases te) (simp_all add: persist_thread_event_def patchSandboxInfo_def patchMCPServers_def recovers_def)
  next
    case False
    then show ?thesis
      by (cases te) (auto simp: persists_context_append[OF sp] persists_overwrite[OF sp] persists_capability[OF sp]
          persists_done[OF sp] simp del: absorb_exec.simps)
  qed
  then show ?thesis by (simp add: Thread_event persistExecutionEvent_def)
next
  case (Thread_created c)
  then show ?thesis using persists_created[OF sp] by simp
next
  case (Registered_event v)
  then show ?thesis using persists_append[OF sp] by (simp add: persistExecutionEvent_def)
qed

section \<open>The stream\<close>

text \<open>The views that a replay of the trace goes through, and a row that holds one of them.\<close>

definition replayed :: "turn_view \<Rightarrow> (execution_event \<times> orchestrator) list \<Rightarrow> nat \<Rightarrow> turn_view" where
  "replayed V tr n = fold absorb_exec (map fst (take n tr)) V"

definition held :: "origin \<Rightarrow> turn_view \<Rightarrow> turn_handle \<Rightarrow> bool" where
  "held b V h \<longleftrightarrow> (\<exists>t. turn_at (ts_store h) (or_key b) = Some t \<and> recovers (tr_snapshot t) V)"

definition held_among :: "origin \<Rightarrow> turn_view set \<Rightarrow> turn_handle \<Rightarrow> bool" where
  "held_among b VS h \<longleftrightarrow> (\<exists>V \<in> VS. held b V h)"

definition fit_among :: "origin \<Rightarrow> turn_view set \<Rightarrow> turn_handle \<Rightarrow> bool" where
  "fit_among b VS h \<longleftrightarrow> (\<exists>V \<in> VS. fit b V h)"

lemma held_simps [simp]:
  "held b V (ts_tick_update f h) = held b V h"
  "held b V (ts_closed_update g h) = held b V h"
  "held b V (h\<lparr>ts_turn := (ts_turn h)\<lparr>tr_state := st, tr_updated_at := u\<rparr>\<rparr>) = held b V h"
  by (simp_all add: held_def)

lemma among_simps [simp]:
  "fit_among b VS (ts_tick_update f h) = fit_among b VS h"
  "fit_among b VS (h\<lparr>ts_orchestrator := x\<rparr>) = fit_among b VS h"
  "fit_among b VS (h\<lparr>ts_turn := (ts_turn h)\<lparr>tr_state := st, tr_updated_at := u\<rparr>\<rparr>) = fit_among b VS h"
  "held_among b VS (ts_tick_update f h) = held_among b VS h"
  "held_among b VS (ts_closed_update g h) = held_among b VS h"
  "held_among b VS (h\<lparr>ts_turn := (ts_turn h)\<lparr>tr_state := st, tr_updated_at := u\<rparr>\<rparr>) = held_among b VS h"
  by (simp_all add: fit_among_def held_among_def)

lemma fit_held: "fit b V h \<Longrightarrow> held b V h"
  by (auto simp: fit_def held_def)

lemma among_held: "fit_among b VS h \<Longrightarrow> held_among b VS h"
  by (auto simp: fit_among_def held_among_def intro: fit_held)

lemma among_intro: "fit b V h \<Longrightarrow> V \<in> VS \<Longrightarrow> fit_among b VS h"
  by (auto simp: fit_among_def)

abbreviation badly :: "turn_handle \<Rightarrow> bool" where
  "badly h \<equiv> \<not> ended_well (tr_state (ts_turn h))"

lemma with_metrics_badly: "with_metrics m st = Some t \<Longrightarrow> ended_well (of_terminal t) = ended_well st"
  by (cases st) auto

lemma fit_yield:
  assumes "V \<in> VS"
  shows "tells_fit (\<lambda>u. held_among b VS) (fit b V) (yield_to env ev) (\<lambda>u. fit b V) (\<lambda>x h. fit b V h \<and> mild x)"
  unfolding yield_to_def
proof (rule tells_then[OF tells_yield[where Q = "\<lambda>u w. fit b V"] tells_bind[OF tells_tick[where Q = "\<lambda>n w. fit b V"]]])
  fix n
  show "tells_fit (\<lambda>u. held_among b VS) (fit b V) (case te_consumer env n of Goes_on \<Rightarrow> gret () | Leaves \<Rightarrow> gthrow Consumer_left
      | Throws x \<Rightarrow> gthrow (Threw (Raised x))) (\<lambda>u. fit b V) (\<lambda>x h. fit b V h \<and> mild x)"
    by (cases "te_consumer env n") (auto intro!: tells_ret tells_throw)
qed (use assms in \<open>auto intro: among_held among_intro\<close>)

lemma fit_persist_yield:
  assumes sp: "rivals_spare env (or_key b)" and VS: "V \<in> VS" "absorb_exec e V \<in> VS"
  shows "tells_fit (\<lambda>u. held_among b VS) (fit b V) (persist_and_yield env e) (\<lambda>u. fit b (absorb_exec e V))
    (\<lambda>x h. fit_among b VS h \<and> mild x)"
  unfolding persist_and_yield_def
proof (rule tells_bind)
  show "tells_fit (\<lambda>u. held_among b VS) (fit b V) (persistExecutionEvent env e) (\<lambda>out. fit b (absorb_exec e V))
      (\<lambda>x h. fit_among b VS h \<and> mild x)"
    by (rule tells_weaken[OF persists_event[OF sp, unfolded persists_def, rule_format]])
      (use VS in \<open>auto simp: one_of_def intro: among_intro\<close>)
  show "tells_fit (\<lambda>u. held_among b VS) (fit b (absorb_exec e V)) (case out of None \<Rightarrow> gret () | Some ev \<Rightarrow> yield_to env ev)
      (\<lambda>u. fit b (absorb_exec e V)) (\<lambda>x h. fit_among b VS h \<and> mild x)" for out
    by (cases out) (auto intro: tells_ret tells_weaken[OF fit_yield[OF VS(2)]] among_intro[OF _ VS(2)])
qed

lemma fit_adopt:
  assumes "\<not> ended_well st"
  shows "tells_fit (\<lambda>u. held_among b VS) (\<lambda>h. fit_among b VS h \<and> badly h) (adopt_state env time m st)
    (\<lambda>u h. fit_among b VS h \<and> badly h) X"
proof -
  let ?P = "\<lambda>h. fit_among b VS h \<and> badly h"
  have tick: "tells_fit (\<lambda>u. held_among b VS) ?P ttick (\<lambda>n. ?P) X" by (rule tells_tick) simp
  show ?thesis unfolding adopt_state_def
  proof (rule tells_bind[OF tick], cases "with_metrics m st")
    case (Some t)
    then show "tells_fit (\<lambda>u. held_among b VS) ?P (case with_metrics m st of None \<Rightarrow> gret ()
        | Some t \<Rightarrow> gthen (gmodify (\<lambda>s. s\<lparr>ts_turn := (ts_turn s)\<lparr>tr_state := of_terminal t, tr_updated_at := time\<rparr>\<rparr>))
             (gyield (Durable (turn_done_row env n time t)))) (\<lambda>u. ?P) X" for n
      using assms by (auto simp: with_metrics_badly[OF Some] among_held
        intro!: tells_then[OF tells_modify[where Q = "\<lambda>u w. ?P"] tells_yield])
  qed (auto intro: tells_ret)
qed

text \<open>Only the end of a stream writes the handle's own row.\<close>

lemma tells_keeps:
  assumes "keeps f g" and "tells absorb I P g Q X"
  shows "tells absorb I (\<lambda>V s. P V s \<and> R (f s)) g (\<lambda>a V s. Q a V s \<and> R (f s)) (\<lambda>x V s. X x V s \<and> R (f s))"
  unfolding tells_def
proof (intro allI impI)
  fix V s tr s' r
  assume s: "P V s \<and> R (f s)" and g: "g s = (tr, s', r)"
  have "f s' = f s" using keepsD[OF assms(1), of s] g by simp
  then show "watched absorb I V tr \<and> (case r of Inl x \<Rightarrow> X x (fold absorb (map fst tr) V) s' \<and> R (f s')
      | Inr a \<Rightarrow> Q a (fold absorb (map fst tr) V) s' \<and> R (f s'))"
    using tellsD[OF assms(2) conjunct1[OF s] g] s by (cases r) simp_all
qed

lemma keeps_writeStore [keeps_intro]: "keeps ts_turn (writeStore env f)"
  by (simp add: keeps_def writeStore_run Let_def)

lemma keeps_tick [keeps_intro]: "keeps ts_turn ttick"
  by (simp add: keeps_def ttick_def gbind_run gthen_def gen_defs)

lemma keeps_append [keeps_intro]: "keeps ts_turn (append_events env rows)" "keeps ts_turn (append_and_return env row)"
  unfolding append_and_return_def append_events_def by (intro keeps_intro)+

lemma keeps_persist [keeps_intro]: "keeps ts_turn (persistExecutionEvent env e)"
proof -
  have "keeps ts_turn (persist_thread_done env d)" for d
    unfolding persist_thread_done_def by (auto intro!: keeps_intro)
  then have "keeps ts_turn (persist_thread_event env te)" for te
    unfolding persist_thread_event_def by (cases te) (auto intro!: keeps_intro)
  then show ?thesis unfolding persistExecutionEvent_def by (cases e) (auto intro!: keeps_intro)
qed

lemma keeps_persist_yield: "keeps ts_turn (persist_and_yield env e)"
  unfolding persist_and_yield_def yield_to_def
  by (auto intro!: keeps_intro split: option.split consumer_move.split)

lemma replayed_Suc: "replayed V ((e, orc) # tr) (Suc n) = replayed (absorb_exec e V) tr n"
  by (simp add: replayed_def)

text \<open>How the handle goes on after an error: only a refusal of the store, and that a mild one, is taken up.\<close>

lemma refusal_cases:
  assumes "\<And>i st. \<not> ended_well st \<Longrightarrow> tells_fit I P (taken st) Q X" and "tells_fit I P otherwise Q X"
  shows "tells_fit I (\<lambda>h. P h \<and> mild x) (case x of
    Threw (Raised_by_store (Turn_not_running i st)) \<Rightarrow> taken st | _ \<Rightarrow> otherwise) Q X"
proof (cases "mild x")
  case True
  then have "tells_fit I P (case x of
      Threw (Raised_by_store (Turn_not_running i st)) \<Rightarrow> taken st | _ \<Rightarrow> otherwise) Q X"
    using assms by (auto simp: mild_def split: stream_exit.split raised.split store_error.split)
  then show ?thesis by (rule tells_weaken) simp_all
next
  case False
  then show ?thesis unfolding tells_def by blast
qed

lemma fit_drain:
  assumes sp: "rivals_spare env (or_key b)"
  shows "(\<And>n. n \<le> length tr \<Longrightarrow> replayed V tr n \<in> VS) \<Longrightarrow>
    tells_fit (\<lambda>u. held_among b VS) (\<lambda>h. fit b V h \<and> badly h) (drain env tr)
      (\<lambda>frozen h. fit_among b VS h \<and> badly h \<and> (\<not> frozen \<longrightarrow> fit b (replayed V tr (length tr)) h))
      (\<lambda>x h. fit_among b VS h \<and> badly h)"
proof (induction tr arbitrary: V)
  case Nil
  then have "V \<in> VS" by (simp add: replayed_def)
  then show ?case unfolding drain.simps by (intro tells_ret) (auto simp: replayed_def intro: among_intro)
next
  case (Cons p tr)
  obtain e orc where p: "p = (e, orc)" by (cases p)
  let ?W = "absorb_exec e V"
  have VS: "V \<in> VS" "?W \<in> VS" "\<And>n. n \<le> length tr \<Longrightarrow> replayed ?W tr n \<in> VS"
    using Cons.prems[of 0] Cons.prems[of 1] Cons.prems[of "Suc n" for n] by (simp_all add: p replayed_def)
  let ?Q = "\<lambda>frozen h. badly h \<and> (if frozen then fit_among b VS h else fit b ?W h)"
    and ?X = "\<lambda>x h. fit_among b VS h \<and> badly h"
    and ?R = "\<lambda>frozen h. fit_among b VS h \<and> badly h \<and> (\<not> frozen \<longrightarrow> fit b (replayed V (p # tr) (length (p # tr))) h)"
  have go: "tells_fit (\<lambda>u. held_among b VS) (\<lambda>h. fit b V h \<and> badly h) (gthen (persist_and_yield env e) (gret False)) ?Q
      (\<lambda>x h. (fit_among b VS h \<and> mild x) \<and> badly h)"
    by (rule tells_then[OF tells_keeps[OF keeps_persist_yield fit_persist_yield[OF sp VS(1,2)],
            where R = "\<lambda>t. \<not> ended_well (tr_state t)"] tells_ret]) simp
  have stop: "tells_fit (\<lambda>u. held_among b VS) (\<lambda>h. (fit_among b VS h \<and> mild x) \<and> badly h) (case x of
      Threw (Raised_by_store (Turn_not_running i st)) \<Rightarrow> gbind ttick (\<lambda>n.
        gthen (adopt_state env (te_now env n) (turnMetricsFromAgentThreadMetrics (getMetrics orc)) st) (gret True))
    | _ \<Rightarrow> gthrow x) ?Q ?X" for x
  proof (rule tells_weaken[OF refusal_cases])
    let ?B = "\<lambda>h. fit_among b VS h \<and> badly h"
    fix st
    assume "\<not> ended_well st"
    from fit_adopt[OF this]
    have "tells_fit (\<lambda>u. held_among b VS) ?B (gthen (adopt_state env (te_now env n)
        (turnMetricsFromAgentThreadMetrics (getMetrics orc)) st) (gret True)) ?Q ?X" for n
      by (rule tells_then[OF _ tells_ret]) simp
    then show "tells_fit (\<lambda>u. held_among b VS) ?B (gbind ttick (\<lambda>n.
        gthen (adopt_state env (te_now env n) (turnMetricsFromAgentThreadMetrics (getMetrics orc)) st) (gret True))) ?Q ?X"
      by (intro tells_bind[OF tells_tick[where Q = "\<lambda>n w. ?B"]]) simp_all
  next
    show "tells_fit (\<lambda>u. held_among b VS) (\<lambda>h. fit_among b VS h \<and> badly h) (gthrow x) ?Q ?X" by (rule tells_throw) simp
  qed auto
  have rest: "tells_fit (\<lambda>u. held_among b VS) (?Q frozen) (if frozen then gret True else drain env tr) ?R ?X" for frozen
  proof (cases frozen)
    case True
    then show ?thesis by (auto intro: tells_ret)
  next
    case False
    then show ?thesis using tells_weaken[OF Cons.IH[OF VS(3)], where P' = "\<lambda>u. ?Q False"]
      by (simp add: p replayed_Suc)
  qed
  show ?case unfolding p drain.simps
    by (rule tells_then[OF tells_modify[where Q = "\<lambda>w u h. fit b V h \<and> badly h"] tells_bind[OF tells_catch[OF go stop] rest[unfolded p]]])
      simp
qed


section \<open>The end of a stream\<close>

text \<open>The write of the end changes no thread; a refusal names the state that the turn ended in.\<close>

lemma session_refusal:
  "applyTurnStateToSession sid tid c st s = (s', x) \<Longrightarrow> st_turns s' = st_turns s \<and> x \<noteq> Inl (Turn_not_running i other)"
  by (auto simp: applyTurnStateToSession_def requireSession_def parse_last_turn_details_def Let_def
      split: sum.splits if_splits option.splits prod.splits turn_state.splits)

lemma terminal_keeps_snapshot:
  assumes t: "turn_at s (turnKey sid tid) = Some t" and f: "updateTurnTerminalState clk sid tid st row s = (s', x)"
  shows "(\<exists>t'. turn_at s' (turnKey sid tid) = Some t' \<and> tr_snapshot t' = tr_snapshot t) \<and>
    (\<forall>i other. x = Inl (Turn_not_running i other) \<longrightarrow> other = tr_state t)"
proof (cases "isNonTerminalTurnState (tr_state t)")
  case False
  then show ?thesis using f t by (auto simp: updateTurnTerminalState_def requireTurn_def)
next
  case True
  let ?k = "turnKey sid tid"
  have f': "write_turn_state clk sid tid t (of_terminal st) row s = (s', x)"
    using f t True by (auto simp: updateTurnTerminalState_def requireTurn_def)
  show ?thesis
  proof (cases "events_at s ?k")
    case None
    then show ?thesis using f' t by (auto simp: write_turn_state_def requireEvents_def Let_def)
  next
    case (Some es)
    let ?s = "put_events ?k (es @ [row]) (put_turn ?k (t\<lparr>tr_state := of_terminal st, tr_updated_at := clk 0\<rparr>) s)"
    have "applyTurnStateToSession sid tid (tr_created_at t) (of_terminal st) ?s = (s', x)"
      using f' Some by (simp add: write_turn_state_def requireEvents_def Let_def)
    from session_refusal[OF this] have s': "st_turns s' = st_turns ?s" "\<And>i other. x \<noteq> Inl (Turn_not_running i other)" by blast+
    show ?thesis using s'(2) by (simp add: s'(1))
  qed
qed

lemma fit_terminal:
  assumes sp: "rivals_spare env (or_key b)"
  shows "tells_fit I (fit b V) (writeStore env (\<lambda>clk sid tid. updateTurnTerminalState clk sid tid st row))
    (\<lambda>u. held b V) (\<lambda>x h. held b V h \<and> mild x)"
proof -
  have step: "held b V (h\<lparr>ts_store := s', ts_tick := n\<rparr>) \<and> (\<forall>e. x = Inl e \<longrightarrow> mild (Threw (Raised_by_store e)))"
    if h: "fit b V h" and w: "written env (\<lambda>clk sid tid. updateTurnTerminalState clk sid tid st row) h = (s', x)" for h s' x n
  proof -
    obtain t where t: "turn_at (te_rival env (ts_tick h) (ts_store h)) (or_key b) = Some t"
      "recovers (tr_snapshot t) V" "\<not> ended_well (tr_state t)" by (rule spared[OF h sp])
    have names: "tr_session_id (ts_turn h) = or_session b" "tr_turn_id (ts_turn h) = or_turn b" using h by (auto simp: fit_def)
    have "updateTurnTerminalState (te_clock env (ts_tick h)) (or_session b) (or_turn b) st row
        (te_rival env (ts_tick h) (ts_store h)) = (s', x)"
      using w by (simp add: written_def names)
    from terminal_keeps_snapshot[OF t(1) this] show ?thesis
      using t(2,3) by (auto simp: held_def mild_def)
  qed
  show ?thesis by (rule tells_write) (use step in fastforce)+
qed

text \<open>What a stream has at its end: a handle that ended well has executed all of its turn and stored it.\<close>

definition fully ::
    "origin \<Rightarrow> turn_view \<Rightarrow> orchestrator \<Rightarrow> (thrown + execution_result option) \<Rightarrow> turn_state \<Rightarrow> turn_handle \<Rightarrow> bool" where
  "fully b V orc' r st h \<longleftrightarrow> held b V h \<and> ts_orchestrator h = Some orc' \<and> (\<exists>out tm mx. r = Inr (Some out) \<and>
     xr_root_agent_error out = None \<and> st = Turn_done (xr_output out) (xr_required_actions out) tm mx)"

lemma fully_simps [simp]:
  "fully b V orc' r st (ts_tick_update f h) = fully b V orc' r st h"
  "fully b V orc' r st (ts_closed_update g h) = fully b V orc' r st h"
  "fully b V orc' r st (h\<lparr>ts_turn := (ts_turn h)\<lparr>tr_state := st', tr_updated_at := u\<rparr>\<rparr>) = fully b V orc' r st h"
  by (simp_all add: fully_def)

lemma terminal_well:
  assumes "ended_well (of_terminal (terminal_state env sig ending time m))"
  obtains out tm mx where "ending = Executed out" "xr_root_agent_error out = None"
    "of_terminal (terminal_state env sig ending time m) = Turn_done (xr_output out) (xr_required_actions out) tm mx"
  using assms by (auto simp: terminal_state_def split: option.splits stream_end.splits prod.splits)

text \<open>What the body leaves for the end of the stream.\<close>

definition body_left ::
    "origin \<Rightarrow> turn_view set \<Rightarrow> turn_view \<Rightarrow> orchestrator \<Rightarrow> (thrown + execution_result option) \<Rightarrow> stream_end \<Rightarrow> turn_handle \<Rightarrow> bool" where
  "body_left b VS V orc' r ending h \<longleftrightarrow> fit_among b VS h \<and> badly h \<and>
     (\<forall>out. ending = Executed out \<longrightarrow> fit b V h \<and> ts_orchestrator h = Some orc' \<and> r = Inr (Some out))"

lemma body_left_simps [simp]: "body_left b VS V orc' r ending (ts_tick_update f h) = body_left b VS V orc' r ending h"
  by (simp add: body_left_def)

definition at_end :: "origin \<Rightarrow> turn_view set \<Rightarrow> turn_view \<Rightarrow> orchestrator \<Rightarrow> (thrown + execution_result option) \<Rightarrow> turn_handle \<Rightarrow> bool" where
  "at_end b VS V orc' r h \<longleftrightarrow> held_among b VS h \<and> (ended_well (tr_state (ts_turn h)) \<longrightarrow> fully b V orc' r (tr_state (ts_turn h)) h)"

lemma at_end_simps [simp]:
  "at_end b VS V orc' r (ts_tick_update f h) = at_end b VS V orc' r h"
  "at_end b VS V orc' r (ts_closed_update g h) = at_end b VS V orc' r h"
  by (simp_all add: at_end_def)

lemma end_badly: "held_among b VS h \<Longrightarrow> badly h \<Longrightarrow> at_end b VS V orc' r h"
  by (simp add: at_end_def)

lemma fit_adopt_end:
  assumes "\<not> ended_well st"
  shows "tells_fit (\<lambda>u. held_among b VS) (\<lambda>h. held_among b VS h \<and> badly h) (adopt_state env time m st)
    (\<lambda>u h. held_among b VS h \<and> badly h) X"
proof -
  let ?P = "\<lambda>h. held_among b VS h \<and> badly h"
  have tick: "tells_fit (\<lambda>u. held_among b VS) ?P ttick (\<lambda>n. ?P) X" by (rule tells_tick) simp
  show ?thesis unfolding adopt_state_def
  proof (rule tells_bind[OF tick], cases "with_metrics m st")
    case (Some t)
    then show "tells_fit (\<lambda>u. held_among b VS) ?P (case with_metrics m st of None \<Rightarrow> gret ()
        | Some t \<Rightarrow> gthen (gmodify (\<lambda>s. s\<lparr>ts_turn := (ts_turn s)\<lparr>tr_state := of_terminal t, tr_updated_at := time\<rparr>\<rparr>))
             (gyield (Durable (turn_done_row env n time t)))) (\<lambda>u. ?P) X" for n
      using assms by (auto simp: with_metrics_badly[OF Some]
        intro!: tells_then[OF tells_modify[where Q = "\<lambda>u w. ?P"] tells_yield])
  qed (auto intro: tells_ret)
qed


lemma fit_end:
  assumes sp: "rivals_spare env (or_key b)" and VS: "V \<in> VS"
  shows "tells_fit (\<lambda>u. held_among b VS) (body_left b VS V orc' r ending) (end_turn env o1 ending)
    (\<lambda>u. at_end b VS V orc' r) (\<lambda>x h. held_among b VS h \<and> badly h)"
proof -
  let ?P = "body_left b VS V orc' r ending" and ?I = "held_among b VS"
  let ?m = "turnMetricsFromAgentThreadMetrics (getMetrics o1)"
  let ?st = "\<lambda>n. terminal_state env (te_aborted env n) ending (to_iso (te_now env n)) ?m"
  let ?row = "\<lambda>n. turn_done_row env n (te_now env n) (?st n)"
  let ?W = "\<lambda>n h. ?I h \<and> (ended_well (of_terminal (?st n)) \<longrightarrow> fully b V orc' r (of_terminal (?st n)) h)"
  let ?Y = "\<lambda>x h. (?I h \<and> badly h) \<and> mild x"
  have tick: "tells_fit (\<lambda>u. ?I) ?P ttick (\<lambda>n. ?P) X" for X by (rule tells_tick) simp
  have close: "tells_fit (\<lambda>u. ?I) ?P close_resolver (\<lambda>u. at_end b VS V orc' r) (\<lambda>x h. ?I h \<and> badly h)"
    unfolding close_resolver_def by (rule tells_modify) (simp add: body_left_def among_held end_badly)
  have keep: "keeps (\<lambda>s. (ts_turn s, ts_orchestrator s)) (writeStore env f)" for f
    by (simp add: keeps_def writeStore_run Let_def)
  have stored: "tells_fit (\<lambda>u. ?I) ?P
      (writeStore env (\<lambda>clk sid tid. updateTurnTerminalState clk sid tid (?st n) (?row n))) (\<lambda>u. ?W n) ?Y" for n
  proof (rule tells_at)
    fix u :: nat and h
    assume h: "?P h"
    obtain V' where V': "V' \<in> VS" "fit b V' h"
      "ended_well (of_terminal (?st n)) \<longrightarrow> V' = V \<and> ts_orchestrator h = Some orc' \<and> (\<exists>out tm mx. r = Inr (Some out) \<and>
         xr_root_agent_error out = None \<and> of_terminal (?st n) = Turn_done (xr_output out) (xr_required_actions out) tm mx)"
    proof (cases "ended_well (of_terminal (?st n))")
      case True
      then obtain out tm mx where "ending = Executed out" "xr_root_agent_error out = None"
        "of_terminal (?st n) = Turn_done (xr_output out) (xr_required_actions out) tm mx" by (rule terminal_well)
      then show thesis using that[OF VS] h by (auto simp: body_left_def)
    next
      case False
      then show thesis using that h by (auto simp: body_left_def fit_among_def)
    qed
    have bad: "badly h" using h by (simp add: body_left_def)
    show "tells (\<lambda>e u. u) (\<lambda>u. ?I) (\<lambda>w t. w = u \<and> t = h) (writeStore env
        (\<lambda>clk sid tid. updateTurnTerminalState clk sid tid (?st n) (?row n))) (\<lambda>u w. ?W n) (\<lambda>x w. ?Y x)"
      by (rule tells_weaken[OF tells_keeps[OF keep fit_terminal[OF sp, where V = V'],
              where R = "\<lambda>p. p = (ts_turn h, ts_orchestrator h)"]])
        (use V' bad in \<open>auto simp: held_among_def fully_def\<close>)

  qed
  have body: "tells_fit (\<lambda>u. ?I) ?P
      (gthen (writeStore env (\<lambda>clk sid tid. updateTurnTerminalState clk sid tid (?st n) (?row n)))
        (gthen (gmodify (\<lambda>s. s\<lparr>ts_turn := (ts_turn s)\<lparr>tr_state := of_terminal (?st n), tr_updated_at := te_now env n\<rparr>\<rparr>))
          (gret True)))
      (\<lambda>wr. at_end b VS V orc' r) ?Y" for n
    by (rule tells_then[OF stored], rule tells_then[OF tells_modify[where Q = "\<lambda>u w. at_end b VS V orc' r"] tells_ret])
      (simp_all add: at_end_def)
  have last: "tells_fit (\<lambda>u. ?I) (at_end b VS V orc' r)
      (if wr then gthen close_resolver (gyield (Durable (?row n))) else gret ()) (\<lambda>u. at_end b VS V orc' r) (\<lambda>x h. ?I h \<and> badly h)" for n wr
  proof (rule tells_case(2))
    show "tells_fit (\<lambda>u. ?I) (at_end b VS V orc' r) (gthen close_resolver (gyield (Durable (?row n))))
        (\<lambda>u. at_end b VS V orc' r) (\<lambda>x h. ?I h \<and> badly h)"
      unfolding close_resolver_def
      by (rule tells_then[OF tells_modify[where Q = "\<lambda>u w. at_end b VS V orc' r"] tells_yield]) (simp_all add: at_end_def)
  qed (rule tells_ret, simp)
  have stop: "tells_fit (\<lambda>u. ?I) (?Y x)
      (case x of
         Threw (Raised_by_store (Turn_not_running i other)) \<Rightarrow>
           gthen close_resolver (gthen (adopt_state env (te_now env n) ?m other) (gret False))
       | _ \<Rightarrow> gthen close_resolver (gthrow x))
      (\<lambda>wr. at_end b VS V orc' r) (\<lambda>x h. ?I h \<and> badly h)" for x n
  proof -
    let ?B = "\<lambda>h. ?I h \<and> badly h"
    have shut: "tells_fit (\<lambda>u. ?I) ?B close_resolver (\<lambda>u. ?B) (\<lambda>x h. ?I h \<and> badly h)"
      unfolding close_resolver_def by (rule tells_modify) simp
    have "tells_fit (\<lambda>u. ?I) ?B (gthen close_resolver (gthen (adopt_state env (te_now env n) ?m other) (gret False)))
      (\<lambda>wr. at_end b VS V orc' r) (\<lambda>x h. ?I h \<and> badly h)" if "\<not> ended_well other" for other
      by (rule tells_then[OF shut tells_then[OF fit_adopt_end[OF that] tells_ret]]) (simp add: end_badly)
    moreover have "tells_fit (\<lambda>u. ?I) ?B (gthen close_resolver (gthrow x)) (\<lambda>wr. at_end b VS V orc' r) (\<lambda>x h. ?I h \<and> badly h)"
      by (rule tells_then[OF shut tells_throw]) simp
    ultimately show ?thesis by (rule refusal_cases)
  qed
  show ?thesis unfolding end_turn_def Let_def
    by (rule tells_bind[OF tick], rule tells_case(2))
      (rule close, rule tells_bind[OF tells_catch[OF body stop] last])
qed


text \<open>What the events of an execution give, one after the other.\<close>

definition stages :: "turn_view \<Rightarrow> (execution_event \<times> orchestrator) list \<Rightarrow> turn_view set" where
  "stages V tr = {replayed V tr n | n. n \<le> length tr}"

lemma stages_at [simp]: "n \<le> length tr \<Longrightarrow> replayed V tr n \<in> stages V tr" "V \<in> stages V tr"
  by (auto simp: stages_def replayed_def intro: exI[of _ 0])

lemma fit_body:
  assumes sp: "rivals_spare env (or_key b)" and x: "orc_execute fuel (te_orchestrator env) orc = (tr, orc', r)"
  shows "tells_fit (\<lambda>u. held_among b (stages V tr)) (\<lambda>h. fit b V h \<and> badly h) (stream_body env fuel orc)
    (body_left b (stages V tr) (replayed V tr (length tr)) orc' r) (\<lambda>x h. fit_among b (stages V tr) h \<and> badly h)"
proof -
  let ?VS = "stages V tr" and ?W = "replayed V tr (length tr)"
  let ?I = "held_among b ?VS" and ?P = "\<lambda>h. fit b V h \<and> badly h" and ?X = "\<lambda>x h. fit_among b ?VS h \<and> badly h"
  let ?Q = "body_left b ?VS ?W orc' r"
  have finish: "tells_fit (\<lambda>u. ?I) (\<lambda>h. fit b ?W h \<and> badly h \<and> ts_orchestrator h = Some orc') (case r of
      Inl x \<Rightarrow> gthrow (Threw (Raised x)) | Inr None \<Rightarrow> gret Not_ended | Inr (Some out) \<Rightarrow> gret (Executed out)) ?Q ?X"
    by (auto simp: body_left_def among_intro split: sum.split option.split intro!: tells_throw tells_ret)
  have set: "tells_fit (\<lambda>u. ?I) (\<lambda>h. fit b ?W h \<and> badly h) (gmodify (\<lambda>s. s\<lparr>ts_orchestrator := Some orc'\<rparr>))
      (\<lambda>u h. fit b ?W h \<and> badly h \<and> ts_orchestrator h = Some orc') ?X"
    by (rule tells_modify) simp
  have tail: "tells_fit (\<lambda>u. ?I) (\<lambda>h. fit_among b ?VS h \<and> badly h \<and> (\<not> frozen \<longrightarrow> fit b ?W h))
      (if frozen then gret Frozen_by_store else gthen (gmodify (\<lambda>s. s\<lparr>ts_orchestrator := Some orc'\<rparr>))
        (case r of Inl x \<Rightarrow> gthrow (Threw (Raised x))
         | Inr None \<Rightarrow> gret Not_ended | Inr (Some out) \<Rightarrow> gret (Executed out))) ?Q ?X" for frozen
  proof (cases frozen)
    case True
    then show ?thesis by (simp add: tells_ret body_left_def)
  next
    case False
    then show ?thesis using tells_weaken[OF tells_then[OF set finish], where P' = "\<lambda>u h. fit_among b ?VS h \<and> badly h \<and> fit b ?W h"]
      by simp
  qed
  have kept: "keeps ts_turn (append_events env rows)" "keeps ts_turn (yield_to env ev)" for rows ev
    unfolding yield_to_def by (auto intro!: keeps_intro split: consumer_move.split)
  have badly: "tells_fit I ?P g (\<lambda>u. ?P) (\<lambda>x h. (fit b V h \<and> mild x) \<and> badly h)"
    if "keeps ts_turn g" "tells_fit I (fit b V) g (\<lambda>u. fit b V) (\<lambda>x h. fit b V h \<and> mild x)" for I and g :: "unit turn_gen"
    using tells_keeps[OF that, where R = "\<lambda>t. \<not> ended_well (tr_state t)"] .
  have carry: "tells_fit (\<lambda>u. ?I) ?P g (\<lambda>u. ?P) ?X"
    if "keeps ts_turn g" "tells_fit (\<lambda>u. ?I) (fit b V) g (\<lambda>u. fit b V) (\<lambda>x h. fit b V h \<and> mild x)" for g :: "unit turn_gen"
    by (rule tells_weaken[OF badly[OF that]]) (auto intro: among_intro)
  have tick: "tells_fit (\<lambda>u. ?I) ?P ttick (\<lambda>n. ?P) ?X" by (rule tells_tick) simp
  have "tells_fit (\<lambda>u. ?I) ?P (let created = turn_created_row env n (ts_turn h0) in
      gthen (append_events env [created]) (gthen (yield_to env (Durable created))
        (case orc_execute fuel (te_orchestrator env) orc of (tr, orc', r) \<Rightarrow>
          gbind (drain env tr) (\<lambda>frozen. if frozen then gret Frozen_by_store
            else gthen (gmodify (\<lambda>s. s\<lparr>ts_orchestrator := Some orc'\<rparr>))
              (case r of Inl x \<Rightarrow> gthrow (Threw (Raised x))
               | Inr None \<Rightarrow> gret Not_ended | Inr (Some out) \<Rightarrow> gret (Executed out)))))) ?Q ?X" for n h0
    unfolding Let_def x prod.case
    by (rule tells_then[OF carry[OF kept(1) fit_append[OF sp]] tells_then[OF carry[OF kept(2) fit_yield]
            tells_bind[OF fit_drain[OF sp] tail]]]) simp_all
  then have read: "tells (\<lambda>e u. u) (\<lambda>u. ?I) (\<lambda>u h. h = h0 \<and> ?P h) (let created = turn_created_row env n (ts_turn h0) in
      gthen (append_events env [created]) (gthen (yield_to env (Durable created))
        (case orc_execute fuel (te_orchestrator env) orc of (tr, orc', r) \<Rightarrow>
          gbind (drain env tr) (\<lambda>frozen. if frozen then gret Frozen_by_store
            else gthen (gmodify (\<lambda>s. s\<lparr>ts_orchestrator := Some orc'\<rparr>))
              (case r of Inl x \<Rightarrow> gthrow (Threw (Raised x))
               | Inr None \<Rightarrow> gret Not_ended | Inr (Some out) \<Rightarrow> gret (Executed out)))))) (\<lambda>a (u::nat). ?Q a) (\<lambda>x u. ?X x)" for n h0
    by (rule tells_weaken) simp_all
  show ?thesis unfolding stream_body_def by (intro tells_bind[OF tick] tells_read read)
qed


lemma fit_stream:
  assumes sp: "rivals_spare env (or_key b)" and s: "stream_ready h" and orc: "ts_orchestrator h = Some orc"
    and fit: "fit b V h" "badly h" and x: "orc_execute fuel (te_orchestrator env) orc = (tr, orc', r)"
  shows "tells_fit (\<lambda>u. held_among b (stages V tr)) (\<lambda>h'. h' = h) (stream env fuel)
    (\<lambda>ended. at_end b (stages V tr) (replayed V tr (length tr)) orc' r) (\<lambda>x h. held_among b (stages V tr) h \<and> badly h)"
proof -
  let ?VS = "stages V tr" and ?W = "replayed V tr (length tr)"
  let ?I = "held_among b ?VS" and ?P = "\<lambda>h. fit b V h \<and> badly h"
  let ?B = "body_left b ?VS ?W orc' r" and ?E = "at_end b ?VS ?W orc' r"
  have leave: "tells_fit (\<lambda>u. ?I) (\<lambda>h. fit_among b ?VS h \<and> badly h)
      (case x of Consumer_left \<Rightarrow> gret Abandoned_by_consumer | Threw e \<Rightarrow> gret (Failed e)) ?B (\<lambda>x h. ?I h \<and> badly h)" for x
    by (cases x) (auto simp: body_left_def intro!: tells_ret)
  have tail: "tells_fit (\<lambda>u. ?I) (?B ending) (if ending = Not_ended then gret False
      else gbind gget (\<lambda>s1. gthen (end_turn env (case ts_orchestrator s1 of Some o1 \<Rightarrow> o1 | None \<Rightarrow> orc) ending) (gret True)))
      (\<lambda>ended. ?E) (\<lambda>x h. ?I h \<and> badly h)" for ending
  proof (rule tells_case(2))
    show "tells_fit (\<lambda>u. ?I) (?B ending) (gret False) (\<lambda>ended. ?E) (\<lambda>x h. ?I h \<and> badly h)"
      by (rule tells_ret) (simp add: body_left_def among_held end_badly)
    have "tells (\<lambda>e u. u) (\<lambda>u. ?I) (\<lambda>u w. w = h0 \<and> ?B ending w) (gthen (end_turn env o1 ending) (gret True))
        (\<lambda>ended (u::nat). ?E) (\<lambda>x u h. ?I h \<and> badly h)" for h0 o1
      by (rule tells_then[OF tells_weaken[OF fit_end[OF sp, where V = ?W]] tells_ret]) auto
    then show "tells_fit (\<lambda>u. ?I) (?B ending) (gbind gget (\<lambda>s1.
        gthen (end_turn env (case ts_orchestrator s1 of Some o1 \<Rightarrow> o1 | None \<Rightarrow> orc) ending) (gret True))) (\<lambda>ended. ?E) (\<lambda>x h. ?I h \<and> badly h)"
      by (intro tells_read)
  qed
  have start_it: "tells_fit (\<lambda>u. ?I) (\<lambda>h'. h' = h) (gmodify (\<lambda>s. s\<lparr>ts_started := True\<rparr>)) (\<lambda>u. ?P) (\<lambda>x h. ?I h \<and> badly h)"
    by (rule tells_modify) (use fit in simp)
  note all = tells_then[OF start_it tells_bind[OF tells_catch[OF fit_body[OF sp x] leave] tail]]
  have start: "\<not> ts_started h" "\<not> (\<not> ts_resolver h \<or> \<not> ts_signal h)" using s by (auto simp: stream_ready_def)
  have "stream env fuel h = gthen (gmodify (\<lambda>s. s\<lparr>ts_started := True\<rparr>))
     (gbind (gcatch (stream_body env fuel orc) (\<lambda>x.
          case x of Consumer_left \<Rightarrow> gret Abandoned_by_consumer | Threw e \<Rightarrow> gret (Failed e)))
        (\<lambda>ending. if ending = Not_ended then gret False
          else gbind gget (\<lambda>s1. gthen (end_turn env (case ts_orchestrator s1 of Some o1 \<Rightarrow> o1 | None \<Rightarrow> orc) ending)
            (gret True)))) h"
    unfolding stream_def gbind_get orc option.case if_not_P[OF start(1)] if_not_P[OF start(2)] by (rule refl)
  with all show ?thesis unfolding tells_def by simp
qed

end
