(* ===== verification/Turn_Handle_Props.thy ===== *)
theory Turn_Handle_Props
  imports Turn_Handle_Sync
begin

text \<open>
  What a stream promises: it ends its turn in the store and says so last, a consumer sees no event before it is in
  the log, and the stored threads are at every moment those of a prefix of the execution, at a good end those of
  the whole. The turn at the start instantiates the theorems.
\<close>

section \<open>A concrete turn\<close>

text \<open>The threads of \<open>demo_orc\<close> as they are stored.\<close>

definition demo_orc_turn :: create_turn_input where
  "demo_orc_turn =
     \<lparr>cti_turn = demo_row,
      cti_new_threads = [\<lparr>nt_thread_id = ''root'', nt_parent = None, nt_agent_info = None\<rparr>,
        \<lparr>nt_thread_id = ''helper'', nt_parent = Some demo_place, nt_agent_info = Some demo_info\<rparr>],
      cti_new_context_appends =
        [\<lparr>tca_thread_id = ''root'', tca_context = th_context demo_root,
          tca_current_context_usage = None, tca_completion = None\<rparr>,
         \<lparr>tca_thread_id = ''helper'', tca_context = th_context demo_helper,
          tca_current_context_usage = None, tca_completion = None\<rparr>],
      cti_capability_states = [\<lparr>tcs_thread_id = ''root'', tcs_capability_state = None\<rparr>,
        \<lparr>tcs_thread_id = ''helper'', tcs_capability_state = None\<rparr>],
      cti_update_session_title_if_not_exist = None\<rparr>"

definition demo_orc_store :: store where
  "demo_orc_store = fst (createTurn demo_clock demo_orc_turn (fst (createSession demo_clock demo_session empty_store)))"

definition demo_handle :: turn_handle where
  "demo_handle =
     \<lparr>ts_store = demo_orc_store, ts_turn = with_snapshot demo_row \<lparr>sn_threads = [], sn_mcp_servers = None, sn_sandbox_info = None\<rparr>,
      ts_orchestrator = Some demo_orc, ts_resolver = True, ts_signal = True,
      ts_started = False, ts_closed = 0, ts_tick = 0\<rparr>"

definition demo_turn_env :: turn_env where
  "demo_turn_env =
     \<lparr>te_now = (\<lambda>n. 2000 + int n),
      te_lib = \<lparr>iso_text = (\<lambda>n. ''now''), iso_time = (\<lambda>s. None), iso_valid = (\<lambda>s. True)\<rparr>,
      te_id = (\<lambda>n. CHR ''e'' # replicate n (CHR ''x'')), te_clock = (\<lambda>n. demo_clock), te_aborted = (\<lambda>n. None),
      te_consumer = (\<lambda>n. Goes_on), te_rival = (\<lambda>n s. s), te_read_event = (\<lambda>j. demo_event ''x''),
      te_string = (\<lambda>v. ''''), te_token_text = (\<lambda>t. ''''), te_zod_message = '''', te_orchestrator = demo_orc_env\<rparr>"

lemma demo_orc_store_ok: "store_ok demo_orc_store"
proof -
  have "store_step empty_store (fst (createSession demo_clock demo_session empty_store))"
    by (rule step_createSession) (simp add: demo_defs colon_free_def)
  moreover have "store_step (fst (createSession demo_clock demo_session empty_store)) demo_orc_store"
    unfolding demo_orc_store_def by (rule step_createTurn) (simp_all add: demo_orc_turn_def demo_row_def)
  ultimately show ?thesis using store_step_ok store_ok_empty by blast
qed

lemma demo_stored:
  "\<exists>t root1 helper1. turn_at demo_orc_store (turnKey ''s1'' ''t1'') = Some t \<and> tr_state t = Turn_running \<and>
     sn_threads (tr_snapshot t) = [(''root'', root1), (''helper'', helper1)] \<and>
     thread_stored (thread_view demo_root) root1 \<and> thread_stored (thread_view demo_helper) helper1"
proof -
  let ?stored = "\<lambda>tid parent info t. \<lparr>ats_thread_id = tid, ats_context = th_context t, ats_current_context_usage = th_usage t,
     ats_parent = parent, ats_agent_info = info, ats_completion = None, ats_capability_state = None\<rparr>"
  have row: "map_option (\<lambda>t. (tr_state t, sn_threads (tr_snapshot t))) (turn_at demo_orc_store (turnKey ''s1'' ''t1'')) =
      Some (Turn_running, [(''root'', ?stored ''root'' None None demo_root),
        (''helper'', ?stored ''helper'' (Some demo_place) (Some demo_info) demo_helper)])"
    by code_simp
  have "th_capability_state demo_root = []" "th_capability_state demo_helper = []" by code_simp+
  then have "thread_stored (thread_view demo_root) (?stored i p a demo_root)"
    "thread_stored (thread_view demo_helper) (?stored i p a demo_helper)" for i p a
    by (simp_all add: thread_view_def stored_caps_def js_get_def)
  then show ?thesis using row by auto
qed

lemma demo_names [simp]:
  "tr_session_id (ts_turn demo_handle) = ''s1''" "tr_turn_id (ts_turn demo_handle) = ''t1''"
  "tr_state (ts_turn demo_handle) = Turn_running" "ts_orchestrator demo_handle = Some demo_orc"
  "ts_store demo_handle = demo_orc_store"
  by (simp_all add: demo_handle_def with_snapshot_def demo_row_def turn_row.defs)

lemma demo_ready: "stream_ready demo_handle"
proof -
  have "\<not> ts_started demo_handle" "ts_resolver demo_handle" "ts_signal demo_handle" by (simp_all add: demo_handle_def)
  then show ?thesis using demo_stored demo_orc_store_ok by (auto simp: stream_ready_def colon_free_def)
qed

lemma demo_keeps: "rivals_keep demo_turn_env k" "rivals_spare demo_turn_env k"
  by (auto simp: rivals_keep_def rivals_spare_def demo_turn_env_def)

lemma demo_fit: "fit (stream_origin demo_handle) (orc_view demo_orc) demo_handle"
proof -
  obtain t root1 helper1 where t: "turn_at demo_orc_store (turnKey ''s1'' ''t1'') = Some t" "tr_state t = Turn_running"
    "sn_threads (tr_snapshot t) = [(''root'', root1), (''helper'', helper1)]"
    "thread_stored (thread_view demo_root) root1" "thread_stored (thread_view demo_helper) helper1"
    using demo_stored by blast
  then have "recovers (tr_snapshot t) (orc_view demo_orc)"
    by (simp add: recovers_def orc_view_def demo_orc_def js_get_def)
  then show ?thesis using t(1,2) by (simp add: fit_def stream_origin_def)
qed

definition demo_turn_stream :: "(streaming_event \<times> turn_handle) list \<times> turn_handle \<times> (stream_exit + bool)" where
  "demo_turn_stream = stream demo_turn_env 3 demo_handle"

lemma demo_streams: "stream demo_turn_env 3 demo_handle = (trace_of demo_turn_stream, final_of demo_turn_stream, result_of demo_turn_stream)"
  by (simp add: demo_turn_stream_def)

lemma demo_streamed:
  "5 < length (trace_of demo_turn_stream)" "ended_well (tr_state (ts_turn (final_of demo_turn_stream)))"
  "2 < length (durable_rows (map fst (take (Suc 5) (trace_of demo_turn_stream))))"
proof -
  have "case demo_turn_stream of (tr, h, r) \<Rightarrow> 5 < length tr \<and> ended_well (tr_state (ts_turn h)) \<and>
      2 < length (durable_rows (map fst (take (Suc 5) tr)))" by code_simp
  then show "5 < length (trace_of demo_turn_stream)" "ended_well (tr_state (ts_turn (final_of demo_turn_stream)))"
    "2 < length (durable_rows (map fst (take (Suc 5) (trace_of demo_turn_stream))))"
    by (simp_all add: split_beta)
qed

lemma demo_executes: "result_of (orc_execute 3 (te_orchestrator demo_turn_env) demo_orc) \<noteq> Inr None"
  by code_simp

section \<open>The end of a turn\<close>

text \<open>
  C1. A turn that is streamed always ends. Whatever the execution throws, whenever the consumer leaves and whatever
  other handles do to the store meanwhile, \<open>stream\<close> returns, and it does not throw: the row of the turn is
  terminal, the handle has the same state up to the metrics of this run, the last event yielded is the
  \<open>turn.done\<close> of that state, and the resolver is closed once. Only an execution that does not return is excluded.
\<close>

theorem turn_always_ends:
  assumes "stream_ready h" and "rivals_keep env (turnKey (tr_session_id (ts_turn h)) (tr_turn_id (ts_turn h)))"
    and "ts_orchestrator h = Some orc" and "result_of (orc_execute fuel (te_orchestrator env) orc) \<noteq> Inr None"
    and "stream env fuel h = (tr, h', r)"
  shows "r = Inr True \<and> ts_closed h' = Suc (ts_closed h) \<and> (\<exists>t m st row.
    getTurn (tr_session_id (ts_turn h)) (tr_turn_id (ts_turn h)) (ts_store h') = Some t \<and>
    with_metrics m (tr_state t) = Some st \<and> tr_state (ts_turn h') = of_terminal st \<and>
    tr \<noteq> [] \<and> fst (last tr) = Durable row \<and> pe_body row = Ev_turn_done st)"
proof -
  let ?b = "stream_origin h"
  have key: "or_key ?b = turnKey (tr_session_id (ts_turn h)) (tr_turn_id (ts_turn h))" "or_closed ?b = ts_closed h"
    by (simp_all add: stream_origin_def)
  have ok: "stream_ok ?b env" using ready_ok[OF assms(1)] assms(2) by (simp add: key)
  note run = tellsD[OF out_stream[OF ok assms(1) refl] _ assms(5), of "[]"]
  have "r = Inr True" using run(2,3) assms(3,4) by (cases r) (fastforce split: if_splits)+
  with run(2)[of True] have "closing ?b (Suc (ts_closed h)) (map fst tr) h'" by (simp add: key)
  then show ?thesis using \<open>r = Inr True\<close>
    by (auto simp: closing_def agreed_def key getTurn_def last_map)
qed

lemma turn_always_ends_witness:
  "result_of demo_turn_stream = Inr True \<and> (\<exists>t m st row.
    getTurn ''s1'' ''t1'' (ts_store (final_of demo_turn_stream)) = Some t \<and>
    with_metrics m (tr_state t) = Some st \<and> tr_state (ts_turn (final_of demo_turn_stream)) = of_terminal st \<and>
    trace_of demo_turn_stream \<noteq> [] \<and> fst (last (trace_of demo_turn_stream)) = Durable row \<and> pe_body row = Ev_turn_done st)"
  using turn_always_ends[OF demo_ready demo_keeps(1) _ demo_executes demo_streams] by simp

section \<open>The log and the consumer\<close>

text \<open>
  What is logged of the events a consumer has seen. At every yield of a stream the events taken so far, the deltas, the
  model messages and the end of the turn left out, are a subsequence of what the stream and others have
  added to the log of the turn: each of these is persisted before it is shown, and in that order. A model message is
  shown without being logged, and so is the end of a turn that others have frozen.
\<close>

theorem persist_before_yield:
  assumes "stream_ready h" and "rivals_keep env (turnKey (tr_session_id (ts_turn h)) (tr_turn_id (ts_turn h)))"
    and "stream env fuel h = (tr, h', r)" and "n < length tr"
  shows "\<exists>es0 es. events_at (ts_store h) (turnKey (tr_session_id (ts_turn h)) (tr_turn_id (ts_turn h))) = Some es0 \<and>
    events_at (ts_store (snd (tr ! n))) (turnKey (tr_session_id (ts_turn h)) (tr_turn_id (ts_turn h))) = Some (es0 @ es) \<and>
    subseq (durable_rows (map fst (take (Suc n) tr))) es"
proof -
  let ?b = "stream_origin h"
  have key: "or_key ?b = turnKey (tr_session_id (ts_turn h)) (tr_turn_id (ts_turn h))" "or_store ?b = ts_store h"
    by (simp_all add: stream_origin_def)
  have ok: "stream_ok ?b env" using ready_ok[OF assms(1)] assms(2) by (simp add: key)
  have "watched history (shown ?b) [] tr"
    by (rule tellsD(1)[OF out_stream[OF ok assms(1) refl] _ assms(3)]) simp
  from watched_nth[OF this assms(4)] show ?thesis by (simp add: shown_def logged_def key fold_history)
qed

lemma persist_before_yield_witness:
  "(\<exists>es0 es. events_at demo_orc_store (turnKey ''s1'' ''t1'') = Some es0 \<and>
     events_at (ts_store (snd (trace_of demo_turn_stream ! 5))) (turnKey ''s1'' ''t1'') = Some (es0 @ es) \<and>
     subseq (durable_rows (map fst (take (Suc 5) (trace_of demo_turn_stream)))) es) \<and>
   length (durable_rows (map fst (take (Suc 5) (trace_of demo_turn_stream)))) > 2"
proof (rule conjI)
  show "\<exists>es0 es. events_at demo_orc_store (turnKey ''s1'' ''t1'') = Some es0 \<and>
     events_at (ts_store (snd (trace_of demo_turn_stream ! 5))) (turnKey ''s1'' ''t1'') = Some (es0 @ es) \<and>
     subseq (durable_rows (map fst (take (Suc 5) (trace_of demo_turn_stream)))) es"
    using persist_before_yield[OF demo_ready demo_keeps(1) demo_streams demo_streamed(1)] unfolding demo_names .
  show "length (durable_rows (map fst (take (Suc 5) (trace_of demo_turn_stream)))) > 2" by (rule demo_streamed(3))
qed

section \<open>The stored threads\<close>

text \<open>
  C2. The store follows the threads. At every yield of a stream the snapshot of the turn has for every thread the
  context, the usage and the capability state that a replay of some first part of the execution gives. If the turn
  ends as done, the snapshot has exactly the threads that are live at the end of the execution, and the turn has its
  output and its required actions.
\<close>

theorem stored_threads_follow:
  assumes "stream_ready h" and "ts_orchestrator h = Some orc" and "fit (stream_origin h) (orc_view orc) h"
    and "\<not> ended_well (tr_state (ts_turn h))"
    and "rivals_spare env (turnKey (tr_session_id (ts_turn h)) (tr_turn_id (ts_turn h)))"
    and "world_ok (te_orchestrator env)" and "world_blank (te_orchestrator env)"
    and "batch_ok (te_orchestrator env) [] [] orc"
    and "orc_execute fuel (te_orchestrator env) orc = (etr, orc', er)" and "stream env fuel h = (tr, h', r)"
  shows "(\<forall>n < length tr. \<exists>m \<le> length etr.
      held (stream_origin h) (fold absorb_exec (map fst (take m etr)) (orc_view orc)) (snd (tr ! n))) \<and>
    (ended_well (tr_state (ts_turn h')) \<longrightarrow> held (stream_origin h) (orc_view orc') h' \<and> ts_orchestrator h' = Some orc' \<and>
      (\<exists>out tm mx. er = Inr (Some out) \<and> tr_state (ts_turn h') = Turn_done (xr_output out) (xr_required_actions out) tm mx))"
proof -
  let ?b = "stream_origin h" and ?V = "orc_view orc"
  have sp: "rivals_spare env (or_key ?b)" using assms(5) by (simp add: stream_origin_def)
  note run = tellsD[OF fit_stream[OF sp assms(1,2,3,4,9)] refl assms(10)]
  have yields: "\<exists>m \<le> length etr. held ?b (fold absorb_exec (map fst (take m etr)) ?V) (snd (tr ! n))" if "n < length tr" for n
    using watched_nth[OF run(1) that] by (auto simp: held_among_def stages_def replayed_def)
  have live: "replayed ?V etr (length etr) = orc_view orc'" if "er = Inr out" for out
  proof -
    have "batch_ok (te_orchestrator env) [] [] orc \<and> ?V = orc_view orc" using assms(8) by simp
    from replaysD[OF execute_replays[OF assms(6,7)] this, of fuel etr orc' out] assms(9) that
    show ?thesis by (simp add: replayed_def)
  qed
  have "at_end ?b (stages ?V etr) (replayed ?V etr (length etr)) orc' er h'"
    using run(2,3) by (cases r) (auto intro: end_badly)
  then show ?thesis using yields live by (auto simp: at_end_def fully_def)
qed


lemma stored_threads_follow_witness:
  "\<exists>orc' (out :: execution_result) tm mx. held (stream_origin demo_handle) (orc_view orc') (final_of demo_turn_stream) \<and>
     ts_orchestrator (final_of demo_turn_stream) = Some orc' \<and>
     tr_state (ts_turn (final_of demo_turn_stream)) = Turn_done (xr_output out) (xr_required_actions out) tm mx"
proof -
  let ?run = "orc_execute 3 (te_orchestrator demo_turn_env) demo_orc"
  have e: "?run = (trace_of ?run, final_of ?run, result_of ?run)" by simp
  have env: "te_orchestrator demo_turn_env = demo_orc_env" by (simp add: demo_turn_env_def)
  have w: "\<not> ended_well (tr_state (ts_turn demo_handle))" "world_ok (te_orchestrator demo_turn_env)"
    "world_blank (te_orchestrator demo_turn_env)" "batch_ok (te_orchestrator demo_turn_env) [] [] demo_orc"
    unfolding env using demo_world demo_blank demo_batch by simp_all
  from mp[OF conjunct2[OF stored_threads_follow[OF demo_ready demo_names(4) demo_fit w(1) demo_keeps(2) w(2,3,4) e
        demo_streams]] demo_streamed(2)]
  show ?thesis by (elim conjE exE) (intro exI conjI)
qed

end
