(* ===== verification/Turn_Resolver.thy ===== *)
theory Turn_Resolver
  imports Session_Types Orchestrator
begin

text \<open>
  What a turn is run with: the agent spec (the fields of \<open>agent-session/schemas/agentSpec.ts\<close> that the code reads), the
  built-in capabilities it switches on (\<open>agent-session/builtinsFromSpec.ts\<close>), and the resolver of a turn
  (\<open>agent-session/TurnResourceResolver.ts\<close>), which looks up models and tool servers once per turn. The lookups
  themselves are parameters, as is the connection of a tool server; the client of a model is part of \<open>agent_env\<close>.
\<close>

section \<open>Agent specs\<close>

record mcp_server_entry =
  me_name :: string
  me_enable_tools :: "string list"
  me_disable_tools :: "string list"
  me_preload_tools :: "string list"
  me_require_approval_for_tools :: "string list"
  me_preload :: bool

record runtime_config =
  rc_iteration_limit :: nat
  rc_sandbox :: bool
  rc_dynamic_sub_agents :: bool
  rc_compaction :: bool
  rc_compaction_trigger :: "nat option"
  rc_large_tool_response :: bool
  rc_generative_ui :: bool
  rc_ask_user_questions :: bool
  rc_web_search :: bool

record agent_spec =
  as_model_name :: string
  as_model_params :: "(string, json) js_map option"
  as_instructions :: "string option"
  as_messages :: "string list option"
  as_mcp_servers :: "mcp_server_entry list option"
  as_response_format :: "json option"
  as_config :: runtime_config

text \<open>\<open>AgentDefinition\<close>; its tool sets are references.\<close>

record agent_definition =
  df_model_name :: string
  df_context_length :: "nat option"
  df_instruction :: "string option"
  df_messages :: "user_content list option"
  df_model_params :: "(string, json) js_map option"
  df_response_format :: "json option"
  df_iteration_limit :: "nat option"
  df_tool_sets :: "nat list option"

section \<open>Built-in capabilities\<close>

datatype builtin =
    CurrentDateTime
  | ContextCompaction agent_definition "nat option"
  | AskUserQuestion
  | DynamicSubAgents bool
  | LargeToolResponse bool "nat option"
  | OpenUI
  | WebSearch

definition builtinsFromSpec :: "agent_spec \<Rightarrow> agent_definition \<Rightarrow> bool \<Rightarrow> bool \<Rightarrow> bool \<Rightarrow> builtin list" where
  "builtinsFromSpec spec d isChild sandboxAvailable webSearchProvider =
     (let config = as_config spec in
      [CurrentDateTime] @
      (if rc_compaction config then [ContextCompaction d (rc_compaction_trigger config)] else []) @
      (if \<not> isChild \<and> rc_ask_user_questions config then [AskUserQuestion] else []) @
      (if \<not> isChild \<and> rc_dynamic_sub_agents config then [DynamicSubAgents sandboxAvailable] else []) @
      (if rc_large_tool_response config
       then [LargeToolResponse (\<not> isChild \<and> rc_dynamic_sub_agents config) (df_context_length d)] else []) @
      (if \<not> isChild \<and> rc_generative_ui config then [OpenUI] else []) @
      (if webSearchProvider \<and> rc_web_search config then [WebSearch] else []))"

text \<open>A capability of a thread: a built-in one, or one of the host, of which only the key of its state is known.\<close>

datatype capability = Builtin builtin | Contributed "string option"

text \<open>No built-in capability has a state.\<close>

fun capability_key :: "capability \<Rightarrow> string option" where
  "capability_key (Builtin b) = None"
| "capability_key (Contributed k) = k"

record resolved_definition =
  rdf_definition :: agent_definition
  rdf_extra_capabilities :: "string option list option"

definition capabilities_of :: "agent_spec \<Rightarrow> agent_definition \<Rightarrow> string option list option \<Rightarrow> bool \<Rightarrow> bool \<Rightarrow> bool \<Rightarrow> capability list" where
  "capabilities_of spec d extra isChild sandboxAvailable webSearchProvider =
     map Builtin (builtinsFromSpec spec d isChild sandboxAvailable webSearchProvider) @
     map Contributed (case extra of None \<Rightarrow> [] | Some ks \<Rightarrow> ks)"

section \<open>The resolver\<close>

record mcp_connection =
  mcn_url :: string
  mcn_headers :: "json option"
  mcn_description :: string

text \<open>The fields a \<open>RemoteMCP\<close> is made of that depend on the turn.\<close>

record remote_mcp =
  rm_id :: string
  rm_name :: string
  rm_url :: string
  rm_headers :: json
  rm_description :: string
  rm_session_id :: "string option"

record resolved_model =
  rmd_default_params :: "(string, json) js_map"
  rmd_context_length :: "nat option"

record resolver_deps =
  rd_llm :: "nat \<Rightarrow> string \<Rightarrow> thrown + resolved_model"
  rd_mcp :: "nat \<Rightarrow> string \<Rightarrow> thrown + mcp_connection"
  rd_sandbox_provider :: "(nat \<Rightarrow> agent_spec \<Rightarrow> string option \<Rightarrow> thrown + unit) option"
  rd_agent :: "(nat \<Rightarrow> string \<Rightarrow> thrown + agent_spec) option"
  rd_web_search_provider :: bool
  rd_root_capabilities :: "string option list option"
  rd_now :: "nat \<Rightarrow> int"
  rd_first_failure :: "nat \<Rightarrow> nat"

text \<open>
  \<open>rs_sources\<close> and \<open>rs_models\<close> are the two caches of promises, a rejection is \<open>Inl\<close>; \<open>rs_sandbox\<close> says whether a
  sandbox is held. The tool sets made so far are objects, \<open>rs_tool_sets\<close>, with the source each was made over.
  \<open>rs_tick\<close> counts the calls of the host, \<open>rs_mcp_calls\<close> and \<open>rs_llm_calls\<close> are the names it was asked for.
\<close>

record turn_resolver =
  rs_sources :: "(string, thrown + remote_mcp) js_map"
  rs_models :: "(string, thrown + resolved_model) js_map"
  rs_sandbox :: bool
  rs_tool_sets :: "(user_tool_set \<times> remote_mcp) list"
  rs_tick :: nat
  rs_mcp_calls :: "string list"
  rs_llm_calls :: "string list"

definition new_turn_resolver :: turn_resolver where
  "new_turn_resolver =
     \<lparr>rs_sources = [], rs_models = [], rs_sandbox = False, rs_tool_sets = [], rs_tick = 0, rs_mcp_calls = [],
      rs_llm_calls = []\<rparr>"

definition resolveAgentSpec :: "resolver_deps \<Rightarrow> string \<Rightarrow> turn_resolver \<Rightarrow> turn_resolver \<times> (thrown + agent_spec)" where
  "resolveAgentSpec deps agent_id r =
     (case rd_agent deps of
        None \<Rightarrow> (r, Inl (plain_error (''Named agent '' @ CHR 0x27 # agent_id @ CHR 0x27 #
          '' cannot be resolved: no agent lookup configured on the turn resolver'')))
      | Some agent \<Rightarrow> (r\<lparr>rs_tick := Suc (rs_tick r)\<rparr>, agent (rs_tick r) agent_id))"

definition resolveSandbox ::
    "resolver_deps \<Rightarrow> agent_spec \<Rightarrow> sandbox_info option \<Rightarrow> turn_resolver \<Rightarrow> turn_resolver \<times> (thrown + bool)" where
  "resolveSandbox deps spec existing r =
     (case rd_sandbox_provider deps of
        None \<Rightarrow> (r, Inr False)
      | Some provider \<Rightarrow>
          if \<not> rc_sandbox (as_config spec) then (r, Inr False)
          else let r1 = r\<lparr>rs_tick := Suc (rs_tick r)\<rparr> in
            (case provider (rs_tick r) spec (map_option sandbox_id existing) of
               Inl x \<Rightarrow> (r1, Inl x)
             | Inr u \<Rightarrow> (r1\<lparr>rs_sandbox := True\<rparr>, Inr True)))"

text \<open>An error of the handle that is closed is swallowed.\<close>

definition resolver_close :: "turn_resolver \<Rightarrow> turn_resolver" where
  "resolver_close r = r\<lparr>rs_sandbox := False\<rparr>"

definition getOrCreateToolSource ::
    "string \<Rightarrow> (turn_resolver \<Rightarrow> turn_resolver \<times> (thrown + remote_mcp)) \<Rightarrow> turn_resolver \<Rightarrow>
       turn_resolver \<times> (thrown + remote_mcp)" where
  "getOrCreateToolSource i create r =
     (case js_get (rs_sources r) i of
        Some cached \<Rightarrow> (r, cached)
      | None \<Rightarrow> (case create r of (r1, made) \<Rightarrow> (r1\<lparr>rs_sources := js_set i made (rs_sources r1)\<rparr>, made)))"

definition getModel :: "resolver_deps \<Rightarrow> string \<Rightarrow> turn_resolver \<Rightarrow> turn_resolver \<times> (thrown + resolved_model)" where
  "getModel deps name r =
     (case js_get (rs_models r) name of
        Some cached \<Rightarrow> (r, cached)
      | None \<Rightarrow>
          let made = rd_llm deps (rs_tick r) name in
          (r\<lparr>rs_models := js_set name made (rs_models r), rs_tick := Suc (rs_tick r),
             rs_llm_calls := rs_llm_calls r @ [name]\<rparr>, made))"

definition toSelectors :: "mcp_server_entry \<Rightarrow> tool_selector_config" where
  "toSelectors e =
     \<lparr>tsc_enable = me_enable_tools e, tsc_disable = me_disable_tools e, tsc_preload = me_preload_tools e,
      tsc_require_approval = Some (me_require_approval_for_tools e)\<rparr>"

definition previous_server :: "turn_record option \<Rightarrow> string \<Rightarrow> mcp_server_init_info option" where
  "previous_server previous name =
     Option.bind previous (\<lambda>t. Option.bind (sn_mcp_servers (tr_snapshot t)) (\<lambda>ms. js_get ms name))"

definition create_source ::
    "resolver_deps \<Rightarrow> turn_record option \<Rightarrow> string \<Rightarrow> turn_resolver \<Rightarrow> turn_resolver \<times> (thrown + remote_mcp)" where
  "create_source deps previous name r =
     (let r1 = r\<lparr>rs_tick := Suc (rs_tick r), rs_mcp_calls := rs_mcp_calls r @ [name]\<rparr> in
      case rd_mcp deps (rs_tick r) name of
        Inl x \<Rightarrow> (r1, Inl x)
      | Inr c \<Rightarrow> (r1, Inr
          \<lparr>rm_id = name, rm_name = name, rm_url = mcn_url c,
           rm_headers = (case mcn_headers c of None \<Rightarrow> JObj [] | Some h \<Rightarrow> h), rm_description = mcn_description c,
           rm_session_id = Option.bind (previous_server previous name) msi_session_id\<rparr>))"

text \<open>One entry of \<open>spec.mcp_servers\<close>; the result is the reference of the new tool set.\<close>

definition tool_set_of ::
    "resolver_deps \<Rightarrow> turn_record option \<Rightarrow> mcp_server_entry \<Rightarrow> turn_resolver \<Rightarrow> turn_resolver \<times> (thrown + nat)" where
  "tool_set_of deps previous e r =
     (case getOrCreateToolSource (me_name e) (create_source deps previous (me_name e)) r of
        (r1, Inl x) \<Rightarrow> (r1, Inl x)
      | (r1, Inr source) \<Rightarrow>
          let ts = \<lparr>uts_name = rm_name source,
                    uts_state = new_tool_set (toSelectors e) (me_preload e)
                      (Option.bind (previous_server previous (me_name e)) msi_approval_policies) (rd_now deps (rs_tick r1))\<rparr>
          in (r1\<lparr>rs_tool_sets := rs_tool_sets r1 @ [(ts, source)]\<rparr>, Inr (length (rs_tool_sets r1))))"

text \<open>\<open>Promise.all\<close>: every entry is run; when some fail, the first failure in time is the one thrown.\<close>

fun run_all :: "('a \<Rightarrow> 's \<Rightarrow> 's \<times> ('e + 'b)) \<Rightarrow> 'a list \<Rightarrow> 's \<Rightarrow> 's \<times> 'e list \<times> 'b list" where
  "run_all f [] s = (s, [], [])"
| "run_all f (x # xs) s =
     (case f x s of (s1, r) \<Rightarrow>
       (case run_all f xs s1 of (s2, es, bs) \<Rightarrow>
         (case r of Inl e \<Rightarrow> (s2, e # es, bs) | Inr b \<Rightarrow> (s2, es, b # bs))))"

definition promise_all :: "nat \<Rightarrow> 'e list \<times> 'b list \<Rightarrow> 'e + 'b list" where
  "promise_all first p = (case p of (es, bs) \<Rightarrow> if es = [] then Inr bs else Inl (es ! (first mod length es)))"

definition resolveAgentDefinition ::
    "resolver_deps \<Rightarrow> agent_spec \<Rightarrow> agent_info option \<Rightarrow> turn_record option \<Rightarrow> turn_resolver \<Rightarrow>
       turn_resolver \<times> (thrown + resolved_definition)" where
  "resolveAgentDefinition deps spec info previous r =
     (case run_all (tool_set_of deps previous) (case as_mcp_servers spec of None \<Rightarrow> [] | Some es \<Rightarrow> es) r of
        (r1, outs) \<Rightarrow>
          (case promise_all (rd_first_failure deps (rs_tick r1)) outs of
             Inl x \<Rightarrow> (r1, Inl x)
           | Inr toolSets \<Rightarrow>
               let modelName = (case Option.bind info ai_model of Some m \<Rightarrow> m | None \<Rightarrow> as_model_name spec) in
               (case getModel deps modelName r1 of
                  (r2, Inl x) \<Rightarrow> (r2, Inl x)
                | (r2, Inr model) \<Rightarrow>
                    (r2, Inr
                       \<lparr>rdf_definition =
                          \<lparr>df_model_name = modelName, df_context_length = rmd_context_length model,
                           df_instruction = (if info = None then as_instructions spec else None),
                           df_messages = (case info of
                               Some i \<Rightarrow> Some [UText (ai_input i)]
                             | None \<Rightarrow> map_option (map UText) (as_messages spec)),
                           df_model_params = Some (fold (\<lambda>(k, v). js_set k v)
                             (case as_model_params spec of None \<Rightarrow> [] | Some ps \<Rightarrow> ps) (rmd_default_params model)),
                           df_response_format = (if info = None then as_response_format spec else None),
                           df_iteration_limit = Some (rc_iteration_limit (as_config spec)),
                           df_tool_sets = Some toolSets\<rparr>,
                        rdf_extra_capabilities =
                          (if info = None
                           then (case rd_root_capabilities deps of
                                   None \<Rightarrow> None | Some ks \<Rightarrow> if length ks = 0 then None else Some ks)
                           else None)\<rparr>))))"

end
