(* ===== verification/Turn_Resolver_Props.thy ===== *)
theory Turn_Resolver_Props
  imports Turn_Resolver
begin

text \<open>
  What the resolver of a turn promises: each model and each tool server is looked up once per turn, whatever the order
  in which the threads of the turn ask, and a failed lookup stays failed.
\<close>

section \<open>The caches\<close>

text \<open>A call of the interface \<open>ITurnResourceResolver\<close>.\<close>

inductive resolver_step :: "resolver_deps \<Rightarrow> turn_resolver \<Rightarrow> turn_resolver \<Rightarrow> bool" for deps where
  "resolver_step deps r (fst (resolveAgentSpec deps agent_id r))"
| "resolver_step deps r (fst (resolveSandbox deps spec existing r))"
| "resolver_step deps r (fst (resolveAgentDefinition deps spec info previous r))"
| "resolver_step deps r (resolver_close r)"

definition resolver_ok :: "turn_resolver \<Rightarrow> bool" where
  "resolver_ok r \<longleftrightarrow> distinct (rs_mcp_calls r) \<and> distinct (rs_llm_calls r) \<and>
     (\<forall>i. js_get (rs_sources r) i \<noteq> None \<longleftrightarrow> i \<in> set (rs_mcp_calls r)) \<and>
     (\<forall>i. js_get (rs_models r) i \<noteq> None \<longleftrightarrow> i \<in> set (rs_llm_calls r)) \<and>
     (\<forall>i source. js_get (rs_sources r) i = Some (Inr source) \<longrightarrow> rm_id source = i) \<and>
     (\<forall>ts \<in> set (rs_tool_sets r). js_get (rs_sources r) (rm_id (snd ts)) = Some (Inr (snd ts)))"

text \<open>What was answered once is answered again.\<close>

definition remembers :: "turn_resolver \<Rightarrow> turn_resolver \<Rightarrow> bool" where
  "remembers r r' \<longleftrightarrow>
     (\<forall>i x. js_get (rs_sources r) i = Some x \<longrightarrow> js_get (rs_sources r') i = Some x) \<and>
     (\<forall>i x. js_get (rs_models r) i = Some x \<longrightarrow> js_get (rs_models r') i = Some x) \<and>
     (\<exists>new. rs_tool_sets r' = rs_tool_sets r @ new)"

lemma remembers_refl: "remembers r r"
  by (simp add: remembers_def)

lemma remembers_trans: "remembers a b \<Longrightarrow> remembers b c \<Longrightarrow> remembers a c"
  unfolding remembers_def by (metis append.assoc)

lemma source_kept:
  assumes "getOrCreateToolSource name (create_source deps previous name) r = (r', out)" and "resolver_ok r"
  shows "resolver_ok r' \<and> remembers r r' \<and> js_get (rs_sources r') name = Some out"
proof (cases "js_get (rs_sources r) name")
  case None
  then have new: "name \<notin> set (rs_mcp_calls r)" using assms(2) by (metis resolver_ok_def)
  have old: "js_get (rs_sources r) (rm_id (snd ts)) = Some (Inr (snd ts))" if "ts \<in> set (rs_tool_sets r)" for ts
    using assms(2) that by (simp add: resolver_ok_def)
  have other: "rm_id (snd ts) \<noteq> name" if "ts \<in> set (rs_tool_sets r)" for ts using old[OF that] None by auto
  have r': "r' = r\<lparr>rs_tick := Suc (rs_tick r), rs_mcp_calls := rs_mcp_calls r @ [name], rs_sources := js_set name out (rs_sources r)\<rparr>"
    and id: "\<And>source. out = Inr source \<Longrightarrow> rm_id source = name"
    using assms(1) None by (auto simp: getOrCreateToolSource_def create_source_def Let_def split: sum.splits)
  have "js_get (rs_sources r') i \<noteq> None \<longleftrightarrow> i \<in> set (rs_mcp_calls r')" for i
    using assms(2) by (auto simp: resolver_ok_def r')
  moreover have "rm_id source = i" if "js_get (rs_sources r') i = Some (Inr source)" for i source
    using that assms(2) id by (auto simp: resolver_ok_def r' split: if_splits)
  moreover have "js_get (rs_sources r') (rm_id (snd ts)) = Some (Inr (snd ts))" if "ts \<in> set (rs_tool_sets r')" for ts
    using old other[of ts] that by (simp add: r')
  ultimately have "resolver_ok r'" using assms(2) new by (simp add: resolver_ok_def r')
  then show ?thesis using None by (auto simp: r' remembers_def)
qed (use assms in \<open>auto simp: getOrCreateToolSource_def remembers_refl\<close>)

lemma tool_set_kept:
  assumes "tool_set_of deps previous e r = (r', out)" and "resolver_ok r"
  shows "resolver_ok r' \<and> remembers r r'"
proof -
  obtain r1 s where s: "getOrCreateToolSource (me_name e) (create_source deps previous (me_name e)) r = (r1, s)"
    by (cases "getOrCreateToolSource (me_name e) (create_source deps previous (me_name e)) r")
  note k = source_kept[OF s assms(2)]
  show ?thesis
  proof (cases s)
    case (Inl x)
    then show ?thesis using assms(1) s k by (simp add: tool_set_of_def)
  next
    case (Inr source)
    then have src: "js_get (rs_sources r1) (me_name e) = Some (Inr source)" using k by simp
    then have id: "rm_id source = me_name e" using k unfolding resolver_ok_def by blast
    obtain ts where r': "r' = r1\<lparr>rs_tool_sets := rs_tool_sets r1 @ [(ts, source)]\<rparr>"
      using assms(1) s Inr by (auto simp: tool_set_of_def Let_def)
    have "resolver_ok r'" using k src id by (simp add: resolver_ok_def r')
    moreover have "remembers r1 r'" by (simp add: r' remembers_def)
    ultimately show ?thesis using k remembers_trans by blast
  qed
qed

lemma run_all_kept:
  assumes "\<And>x s s' out. f x s = (s', out) \<Longrightarrow> P s \<Longrightarrow> P s' \<and> R s s'"
    and "\<And>s. R s s" and "\<And>a b c. R a b \<Longrightarrow> R b c \<Longrightarrow> R a c"
    and "run_all f xs s = (s', outs)" and "P s"
  shows "P s' \<and> R s s'"
  using assms(4,5)
proof (induction xs arbitrary: s s' outs)
  case (Cons x xs)
  obtain s1 r where 1: "f x s = (s1, r)" by (cases "f x s")
  obtain s2 o2 where 2: "run_all f xs s1 = (s2, o2)" by (cases "run_all f xs s1")
  have "s' = s2" using Cons.prems(1) 1 2 by (auto split: prod.splits sum.splits)
  moreover note assms(1)[OF 1 Cons.prems(2)]
  ultimately show ?case using Cons.IH[OF 2] assms(3) by blast
qed (use assms(2) in auto)

lemma model_kept:
  assumes "getModel deps name r = (r', out)" and "resolver_ok r"
  shows "resolver_ok r' \<and> remembers r r'"
proof (cases "js_get (rs_models r) name")
  case None
  then have "name \<notin> set (rs_llm_calls r)" using assms(2) by (metis resolver_ok_def)
  then have new: "name \<notin> set (rs_llm_calls r)" .
  have r': "r' = r\<lparr>rs_models := js_set name out (rs_models r), rs_tick := Suc (rs_tick r), rs_llm_calls := rs_llm_calls r @ [name]\<rparr>"
    using assms(1) None by (auto simp: getModel_def Let_def)
  have "js_get (rs_models r') i \<noteq> None \<longleftrightarrow> i \<in> set (rs_llm_calls r')" for i
    using assms(2) by (auto simp: resolver_ok_def r')
  then have "resolver_ok r'" using assms(2) new by (simp add: resolver_ok_def r')
  then show ?thesis using None by (auto simp: r' remembers_def)
qed (use assms in \<open>auto simp: getModel_def remembers_refl\<close>)

lemma definition_kept:
  assumes "resolver_ok r"
  shows "resolver_ok (fst (resolveAgentDefinition deps spec info previous r)) \<and>
    remembers r (fst (resolveAgentDefinition deps spec info previous r))"
proof -
  let ?es = "case as_mcp_servers spec of None \<Rightarrow> [] | Some es \<Rightarrow> es"
  let ?m = "case Option.bind info ai_model of Some m \<Rightarrow> m | None \<Rightarrow> as_model_name spec"
  obtain r1 outs where 1: "run_all (tool_set_of deps previous) ?es r = (r1, outs)" by (cases "run_all (tool_set_of deps previous) ?es r")
  have k1: "resolver_ok r1 \<and> remembers r r1"
    by (rule run_all_kept[where P = resolver_ok and R = remembers, OF _ remembers_refl _ 1 assms])
      (use tool_set_kept remembers_trans in blast)+
  obtain r2 model where 2: "getModel deps ?m r1 = (r2, model)" by (cases "getModel deps ?m r1")
  have k2: "resolver_ok r2 \<and> remembers r1 r2" using model_kept[OF 2] k1 by blast
  have "fst (resolveAgentDefinition deps spec info previous r) \<in> {r1, r2}"
    unfolding resolveAgentDefinition_def 1 prod.case Let_def 2
    by (cases "promise_all (rd_first_failure deps (rs_tick r1)) outs"; cases model) simp_all
  then show ?thesis using k1 k2 remembers_trans by blast
qed

lemma unchanged_kept:
  assumes "resolver_ok r" and "rs_sources r' = rs_sources r" "rs_models r' = rs_models r" "rs_tool_sets r' = rs_tool_sets r"
    "rs_mcp_calls r' = rs_mcp_calls r" "rs_llm_calls r' = rs_llm_calls r"
  shows "resolver_ok r' \<and> remembers r r'"
  using assms by (simp add: resolver_ok_def remembers_def)

lemma resolver_step_kept: "resolver_step deps r r' \<Longrightarrow> resolver_ok r \<Longrightarrow> resolver_ok r' \<and> remembers r r'"
proof (induction rule: resolver_step.induct)
  case (3 r spec info previous)
  then show ?case by (rule definition_kept)
qed (erule unchanged_kept; simp add: resolveAgentSpec_def resolveSandbox_def resolver_close_def Let_def split: option.split sum.split)+

text \<open>
  A resolver that is asked one call after the other looks up each model and each tool server once. However the threads of a turn ask for their specs,
  sandboxes and definitions, and whether lookups fail or not, the host is never asked twice for the same name, what it
  answered stays the answer, and every tool set is made over the one connection of its server.
\<close>

theorem resolver_single_flight:
  assumes "(resolver_step deps)\<^sup>*\<^sup>* new_turn_resolver r" and "(resolver_step deps)\<^sup>*\<^sup>* r r'"
  shows "distinct (rs_mcp_calls r') \<and> distinct (rs_llm_calls r') \<and> remembers r r' \<and>
    (\<forall>ts source ts' source'. (ts, source) \<in> set (rs_tool_sets r') \<and> (ts', source') \<in> set (rs_tool_sets r') \<and>
       rm_id source = rm_id source' \<longrightarrow> source = source')"
proof -
  have "resolver_ok new_turn_resolver" by (simp add: resolver_ok_def new_turn_resolver_def)
  with assms(1) have "resolver_ok r" by (induction rule: rtranclp_induct) (use resolver_step_kept in blast)+
  with assms(2) have k: "resolver_ok r' \<and> remembers r r'"
    by (induction rule: rtranclp_induct) (use resolver_step_kept remembers_refl remembers_trans in blast)+
  then have "source = source'" if "(ts, source) \<in> set (rs_tool_sets r')" "(ts', source') \<in> set (rs_tool_sets r')"
    "rm_id source = rm_id source'" for ts source ts' source'
    using that unfolding resolver_ok_def by (metis option.inject snd_conv sum.inject(2))
  then show ?thesis using k by (auto simp: resolver_ok_def)
qed

definition demo_entry :: "string \<Rightarrow> mcp_server_entry" where
  "demo_entry name = \<lparr>me_name = name, me_enable_tools = [''*''], me_disable_tools = [], me_preload_tools = [],
     me_require_approval_for_tools = [], me_preload = False\<rparr>"

definition demo_server_spec :: agent_spec where
  "demo_server_spec =
     \<lparr>as_model_name = ''m'', as_model_params = None, as_instructions = None, as_messages = None,
      as_mcp_servers = Some [demo_entry ''files'', demo_entry ''down''], as_response_format = None,
      as_config = \<lparr>rc_iteration_limit = 5, rc_sandbox = False, rc_dynamic_sub_agents = True, rc_compaction = False,
        rc_compaction_trigger = None, rc_large_tool_response = False, rc_generative_ui = False,
        rc_ask_user_questions = False, rc_web_search = False\<rparr>\<rparr>"

text \<open>The server \<open>down\<close> cannot be reached.\<close>

definition demo_deps :: resolver_deps where
  "demo_deps =
     \<lparr>rd_llm = (\<lambda>n name. Inr \<lparr>rmd_default_params = [], rmd_context_length = None\<rparr>),
      rd_mcp = (\<lambda>n name. if name = ''down'' then Inl (plain_error ''unreachable'')
        else Inr \<lparr>mcn_url = ''https://files'', mcn_headers = None, mcn_description = ''''\<rparr>),
      rd_sandbox_provider = None, rd_agent = None, rd_web_search_provider = False, rd_root_capabilities = None,
      rd_now = (\<lambda>n. 0), rd_first_failure = (\<lambda>n. 0)\<rparr>"

definition demo_resolved :: "turn_resolver \<times> (thrown + resolved_definition)" where
  "demo_resolved = resolveAgentDefinition demo_deps demo_server_spec None None new_turn_resolver"

definition demo_resolved_again :: "turn_resolver \<times> (thrown + resolved_definition)" where
  "demo_resolved_again = resolveAgentDefinition demo_deps demo_server_spec None None (fst demo_resolved)"

lemma resolver_single_flight_witness:
  "distinct (rs_mcp_calls (fst demo_resolved_again)) \<and> remembers (fst demo_resolved) (fst demo_resolved_again) \<and>
     rs_mcp_calls (fst demo_resolved_again) = [''files'', ''down''] \<and> length (rs_tool_sets (fst demo_resolved_again)) = 2 \<and>
     snd demo_resolved_again = Inl (plain_error ''unreachable'')"
proof -
  have steps: "resolver_step demo_deps new_turn_resolver (fst demo_resolved)" "resolver_step demo_deps (fst demo_resolved) (fst demo_resolved_again)"
    unfolding demo_resolved_def demo_resolved_again_def by (rule resolver_step.intros(3))+
  have "rs_mcp_calls (fst demo_resolved_again) = [''files'', ''down''] \<and> length (rs_tool_sets (fst demo_resolved_again)) = 2 \<and>
     snd demo_resolved_again = Inl (plain_error ''unreachable'')" by code_simp
  with resolver_single_flight[OF r_into_rtranclp[of "resolver_step demo_deps", OF steps(1)] r_into_rtranclp[of "resolver_step demo_deps", OF steps(2)]]
  show ?thesis by blast
qed

end
