(* ===== verification/Session_Handle.thy ===== *)
theory Session_Handle
  imports Turn_Handle Turn_Resolver
begin

text \<open>
  \<open>agent-session/SessionHandle.ts\<close>: the handle of a session, whose \<open>createTurn\<close> rebuilds the threads of the previous
  turn from its snapshot, sends the input to them and commits the new turn in one write of the store; and
  \<open>agent-session/Sessions.ts\<close>, the collection of sessions.

  As with the handle of a turn, \<open>se_rival env n\<close> is what other handles do to the store before interaction \<open>n\<close>. The
  resolver of the turn is the interface \<open>ITurnResourceResolver\<close>: its answers are fields of \<open>session_env\<close>, indexed by the
  number of the call. A failing \<open>close\<close> and tracing change no result.
\<close>

section \<open>The world of a session\<close>

definition MAX_TURN_ANCESTORS :: nat where "MAX_TURN_ANCESTORS = 20"

definition MAIN_THREAD_ID :: string where "MAIN_THREAD_ID = ''main''"

datatype custom_input = No_custom | Custom_value json | Custom_merge "json option \<Rightarrow> thrown + json"

record session_turn_input =
  sti_turn_id :: string
  sti_active_executor_id :: string
  sti_input :: "turn_input_item list option"
  sti_previous_turn_id :: "string option"
  sti_custom :: custom_input
  sti_title :: "string option"

text \<open>
  \<open>se_prompt\<close> assembles the system prompt of a thread, with the tokens of its skills; \<open>se_orchestrator\<close> is the rest of
  the world of the orchestrator, whose factory of threads is the one of the session.
\<close>

record session_env =
  se_now :: "nat \<Rightarrow> int"
  se_lib :: iso_lib
  se_id :: "nat \<Rightarrow> string"
  se_clock :: "nat \<Rightarrow> nat \<Rightarrow> int"
  se_rival :: "nat \<Rightarrow> store \<Rightarrow> store"
  se_read_spec :: "json \<Rightarrow> agent_spec"
  se_spec :: "nat \<Rightarrow> string \<Rightarrow> thrown + agent_spec"
  se_sandbox :: "nat \<Rightarrow> agent_spec \<Rightarrow> sandbox_info option \<Rightarrow> turn_record option \<Rightarrow> thrown + bool"
  se_code_mode :: "nat \<Rightarrow> nat list \<Rightarrow> thrown + unit"
  se_definition :: "nat \<Rightarrow> agent_spec \<Rightarrow> agent_info option \<Rightarrow> turn_record option \<Rightarrow> thrown + resolved_definition"
  se_first_failure :: "nat \<Rightarrow> nat"
  se_tool_sets :: "(nat, user_tool_set) js_map"
  se_web_search_provider :: bool
  se_prompt :: "agent_definition \<Rightarrow> agent_parent option \<Rightarrow> bool \<Rightarrow> capability list \<Rightarrow> string option \<times> nat"
  se_orchestrator :: orc_env

record session_handle =
  sh_store :: store
  sh_session :: session_record
  sh_tick :: nat
  sh_closes :: nat

type_synonym 'a session_call = "session_handle \<Rightarrow> session_handle \<times> (raised + 'a)"

section \<open>Input\<close>

definition resolvePreviousTurnId :: "string option \<Rightarrow> string option \<Rightarrow> string option" where
  "resolvePreviousTurnId requested lastTurnId =
     (if requested = Some ''none'' then None
      else if requested = None \<or> requested = Some ''auto'' then lastTurnId
      else requested)"

fun send_item :: "turn_input_item \<Rightarrow> send_input" where
  "send_item (Input_user c) = Send_user c"
| "send_item (Input_approval m) = Send_approval m"
| "send_item (Input_response m) = Send_response m"

definition toSendBatch :: "turn_input_item list option \<Rightarrow> thrown + send_input list" where
  "toSendBatch input =
     (case input of
        None \<Rightarrow> Inr []
      | Some items \<Rightarrow>
          let msgs = map send_item items in
          if length items = 0 then Inr []
          else if list_all (\<lambda>m. isApprovalDecisionMessage m \<or> isClientSideToolResponseMessage m) msgs then Inr msgs
          else if list_all isInputUserMessage msgs then Inr msgs
          else Inl (plain_error
            ''input must be homogeneous: all user messages, or all approval/tool-response messages''))"

definition toNewThreadInit :: "agent_thread_snapshot \<Rightarrow> new_thread_init" where
  "toNewThreadInit sn =
     \<lparr>nt_thread_id = ats_thread_id sn, nt_parent = ats_parent sn, nt_agent_info = ats_agent_info sn\<rparr>"

text \<open>One event of a send; an event without a context is not iterable.\<close>

fun collect_append ::
    "execution_event \<Rightarrow> (string, turn_context_append) js_map \<Rightarrow> thrown + (string, turn_context_append) js_map" where
  "collect_append (Thread_event (Append_context e)) appendMap =
     Inr (case js_get appendMap (tae_thread_id e) of
       Some existing \<Rightarrow> js_set (tae_thread_id e)
         (existing\<lparr>tca_context := tca_context existing @ tae_context e,
            tca_current_context_usage :=
              (case tae_usage e of None \<Rightarrow> tca_current_context_usage existing | Some u \<Rightarrow> Some u),
            tca_completion := (case tae_completion e of None \<Rightarrow> tca_completion existing | Some c \<Rightarrow> Some c)\<rparr>)
         appendMap
     | None \<Rightarrow> js_set (tae_thread_id e)
         \<lparr>tca_thread_id = tae_thread_id e, tca_context = tae_context e, tca_current_context_usage = tae_usage e,
          tca_completion = tae_completion e\<rparr> appendMap)"
| "collect_append e appendMap = Inl (plain_error ''event.context is not iterable'')"

definition collectContextAppends :: "execution_event list \<Rightarrow> thrown + turn_context_append list" where
  "collectContextAppends events = bindE (foldE collect_append events []) (\<lambda>appendMap. Inr (js_values appendMap))"

definition cancelledTurnDoneEvent :: "session_env \<Rightarrow> nat \<Rightarrow> cancellation_reason \<Rightarrow> persisted_event" where
  "cancelledTurnDoneEvent env n reason =
     \<lparr>pe_id = se_id env n, pe_created_at = iso_text (se_lib env) (se_now env n), pe_thread_id = None,
      pe_body = Ev_turn_done (Term_cancelled reason (to_iso (se_now env n)) None)\<rparr>"

definition threadsRecordFromMap :: "(string, agent_thread) js_map \<Rightarrow> thread_map" where
  "threadsRecordFromMap threads = map (\<lambda>(i, t). (i, toSnapshot t)) threads"

definition threadIdsForCurrentTurn :: "turn_snapshot option \<Rightarrow> string list" where
  "threadIdsForCurrentTurn sn = (case sn of Some s \<Rightarrow> js_keys (sn_threads s) | None \<Rightarrow> [MAIN_THREAD_ID])"

section \<open>Building threads\<close>

definition previous_thread :: "turn_record option \<Rightarrow> string \<Rightarrow> agent_thread_snapshot option" where
  "previous_thread previous i = Option.bind previous (\<lambda>t. js_get (sn_threads (tr_snapshot t)) i)"

text \<open>The fields of a definition that a thread reads, and its assembled prompt.\<close>

definition thread_config ::
    "session_env \<Rightarrow> agent_definition \<Rightarrow> string \<Rightarrow> string \<Rightarrow> agent_parent option \<Rightarrow> agent_info option \<Rightarrow> bool \<Rightarrow>
       capability list \<Rightarrow> agent_config" where
  "thread_config env d tid title parent info sandbox caps =
     (case se_prompt env d parent sandbox caps of (prompt, skills) \<Rightarrow>
       \<lparr>ac_thread_id = tid, ac_title = title, ac_parent = parent, ac_agent_info = info, ac_instruction = prompt,
        ac_user_instruction = df_instruction d,
        ac_messages = (case df_messages d of None \<Rightarrow> [] | Some ms \<Rightarrow> ms),
        ac_model_name = df_model_name d, ac_model_params = df_model_params d,
        ac_response_format = df_response_format d, ac_iteration_limit = df_iteration_limit d,
        ac_skills_tokens = skills, ac_state_keys = []\<rparr>)"

definition buildThread ::
    "session_env \<Rightarrow> agent_spec \<Rightarrow> bool \<Rightarrow> string \<Rightarrow> agent_thread_snapshot option \<Rightarrow> resolved_definition \<Rightarrow> thrown + agent_thread" where
  "buildThread env spec sandbox tid previous resolved =
     (let d = rdf_definition resolved;
          parent = Option.bind previous ats_parent;
          info = Option.bind previous ats_agent_info;
          isChild = (parent \<noteq> None);
          caps = capabilities_of spec d (rdf_extra_capabilities resolved) isChild sandbox (se_web_search_provider env);
          title = (case info of Some i \<Rightarrow> ai_name i | None \<Rightarrow> if isChild then tid else ''main'')
      in new_agent_thread (thread_config env d tid title parent info sandbox caps) (map capability_key caps)
           (map_option ats_context previous) (map_option ats_current_context_usage previous)
           (Option.bind previous ats_completion) (Option.bind previous ats_capability_state))"

text \<open>The definitions of all threads are resolved together; call \<open>n + k\<close> is the one for the \<open>k\<close>-th thread.\<close>

definition resolve_one ::
    "session_env \<Rightarrow> turn_record option \<Rightarrow> agent_spec \<Rightarrow> string \<Rightarrow> nat \<Rightarrow> nat \<times> (thrown + (string \<times> resolved_definition))" where
  "resolve_one env previous spec tid n =
     (Suc n, bindE (se_definition env n spec (Option.bind (previous_thread previous tid) ats_agent_info) previous)
        (\<lambda>d. Inr (tid, d)))"

definition resolveAgentDefinitions ::
    "session_env \<Rightarrow> turn_record option \<Rightarrow> agent_spec \<Rightarrow> nat \<Rightarrow> thrown + (string, resolved_definition) js_map" where
  "resolveAgentDefinitions env previous spec n =
     (case run_all (resolve_one env previous spec) (threadIdsForCurrentTurn (map_option tr_snapshot previous)) n of
        (m, outs) \<Rightarrow> promise_all (se_first_failure env n) outs)"

fun buildThreads ::
    "session_env \<Rightarrow> turn_record option \<Rightarrow> agent_spec \<Rightarrow> bool \<Rightarrow> (string, resolved_definition) js_map \<Rightarrow> string list \<Rightarrow>
       (string, agent_thread) js_map \<Rightarrow> thrown + (string, agent_thread) js_map" where
  "buildThreads env previous spec sandbox defs [] m = Inr m"
| "buildThreads env previous spec sandbox defs (tid # tids) m =
     (case js_get defs tid of
        None \<Rightarrow> Inl (plain_error (''Unreachable: missing resolved agent definition for thread '' @ CHR 0x27 # tid @ [CHR 0x27]))
      | Some resolved \<Rightarrow>
          bindE (buildThread env spec sandbox tid (previous_thread previous tid) resolved) (\<lambda>t.
            buildThreads env previous spec sandbox defs tids (js_set tid t m)))"

text \<open>The threads of an orchestrator refer to the tool sets of their definitions.\<close>

definition refs_of :: "(string, resolved_definition) js_map \<Rightarrow> (string, nat list) js_map" where
  "refs_of defs = fold (\<lambda>(tid, d). with_sets tid (df_tool_sets (rdf_definition d))) defs []"

definition makeCreateDynamicSubAgentThread ::
    "session_env \<Rightarrow> turn_record option \<Rightarrow> agent_spec \<Rightarrow> bool \<Rightarrow> nat \<Rightarrow> agent_config \<Rightarrow> nat list option \<Rightarrow> agent_info \<Rightarrow> string \<Rightarrow>
       agent_parent \<Rightarrow> thrown + (agent_thread \<times> nat list option)" where
  "makeCreateDynamicSubAgentThread env previous spec sandbox n parentConfig parentSets request tid parent =
     bindE (se_definition env n spec (Some request) previous) (\<lambda>resolved.
     let childDefinition = (rdf_definition resolved)
           \<lparr>df_tool_sets := (case parentSets of Some rs \<Rightarrow> Some rs | None \<Rightarrow> df_tool_sets (rdf_definition resolved)),
            df_instruction := None, df_messages := Some [UText (ai_input request)], df_response_format := None\<rparr>;
         caps = capabilities_of spec childDefinition (rdf_extra_capabilities resolved) True sandbox (se_web_search_provider env)
     in bindE (new_agent_thread (thread_config env childDefinition tid (ai_name request) (Some parent) (Some request) sandbox caps)
          (map capability_key caps) None None None None) (\<lambda>t.
        Inr (t, df_tool_sets childDefinition)))"

text \<open>The world of the orchestrator of a turn.\<close>

definition orchestrator_env :: "session_env \<Rightarrow> turn_record option \<Rightarrow> agent_spec \<Rightarrow> bool \<Rightarrow> orc_env" where
  "orchestrator_env env previous spec sandbox =
     (se_orchestrator env)\<lparr>oe_create := makeCreateDynamicSubAgentThread env previous spec sandbox\<rparr>"

section \<open>Creating a turn\<close>

record prepared_turn =
  pt_record :: turn_record
  pt_create :: create_turn_input
  pt_orchestrator :: orchestrator

definition turn_spec :: "session_env \<Rightarrow> session_agent \<Rightarrow> nat \<Rightarrow> thrown + agent_spec" where
  "turn_spec env agent n =
     (case agent of Agent_inline sp \<Rightarrow> Inr (se_read_spec env sp) | Agent_reference i name \<Rightarrow> se_spec env n i)"

text \<open>The threads and tool sets that the input is sent to.\<close>

definition turn_threads ::
    "session_env \<Rightarrow> session_agent \<Rightarrow> turn_record option \<Rightarrow> nat \<Rightarrow> thrown + (orchestrator \<times> orc_env)" where
  "turn_threads env agent previous n =
     bindE (turn_spec env agent n) (\<lambda>spec.
     bindE (se_sandbox env n spec (Option.bind previous (\<lambda>t. sn_sandbox_info (tr_snapshot t))) previous) (\<lambda>sandbox.
     bindE (resolveAgentDefinitions env previous spec n) (\<lambda>defs.
     case js_get defs MAIN_THREAD_ID of
       None \<Rightarrow> Inl (plain_error ''Unreachable: missing resolved agent definition for main thread'')
     | Some main \<Rightarrow>
         bindE (if sandbox
                then se_code_mode env n (case df_tool_sets (rdf_definition main) of None \<Rightarrow> [] | Some rs \<Rightarrow> rs)
                else Inr ()) (\<lambda>_.
         bindE (buildThreads env previous spec sandbox defs
             (threadIdsForCurrentTurn (map_option tr_snapshot previous)) []) (\<lambda>threads.
         Inr (\<lparr>orc_threads = threads, orc_finished = createEmptyAgentThreadMetrics, orc_set_refs = refs_of defs,
               orc_tool_sets = se_tool_sets env, orc_tick = 0\<rparr>, orchestrator_env env previous spec sandbox))))))"

text \<open>The input is sent before anything is stored; what it appends is collected as it comes.\<close>

definition send_input_first ::
    "orc_env \<Rightarrow> turn_input_item list option \<Rightarrow> orchestrator \<Rightarrow> thrown + (orchestrator \<times> turn_context_append list)" where
  "send_input_first oenv input s =
     bindE (toSendBatch input) (\<lambda>batch.
     case orc_send oenv batch s of
       (tr, s', r) \<Rightarrow>
         bindE (collectContextAppends (map fst tr)) (\<lambda>appends.
           case r of Inl x \<Rightarrow> Inl x | Inr u \<Rightarrow> Inr (s', appends)))"

definition new_threads_of :: "turn_record option \<Rightarrow> (string, agent_thread) js_map \<Rightarrow> new_thread_init list" where
  "new_threads_of previous threads =
     (case previous of
        None \<Rightarrow> (case js_get threads MAIN_THREAD_ID of None \<Rightarrow> [] | Some main \<Rightarrow> [toNewThreadInit (toSnapshot main)])
      | Some t \<Rightarrow> map (\<lambda>(i, th). toNewThreadInit (toSnapshot th))
          (filter (\<lambda>(i, th). js_get (sn_threads (tr_snapshot t)) i = None) threads))"

definition last_ancestors :: "string list \<Rightarrow> string list" where
  "last_ancestors ids = drop (length ids - MAX_TURN_ANCESTORS) ids"

definition turn_init ::
    "session_turn_input \<Rightarrow> string \<Rightarrow> turn_record option \<Rightarrow> string option \<Rightarrow> json option \<Rightarrow> int \<Rightarrow> turn_row" where
  "turn_init inp sid previous previousTurnId custom now =
     \<lparr>tr_turn_id = sti_turn_id inp, tr_session_id = sid,
      tr_first_turn_id = (case previous of Some t \<Rightarrow> tr_first_turn_id t | None \<Rightarrow> sti_turn_id inp),
      tr_ancestor_ids = (case previous of Some t \<Rightarrow> last_ancestors (tr_ancestor_ids t @ [tr_turn_id t]) | None \<Rightarrow> []),
      tr_previous_turn_id = previousTurnId, tr_active_executor_id = sti_active_executor_id inp,
      tr_state = Turn_running, tr_input = (case sti_input inp of None \<Rightarrow> [] | Some items \<Rightarrow> items),
      tr_created_at = now, tr_updated_at = now, tr_custom = custom\<rparr>"

definition prepare_turn ::
    "session_env \<Rightarrow> session_record \<Rightarrow> session_turn_input \<Rightarrow> string option \<Rightarrow> turn_record option \<Rightarrow> json option \<Rightarrow> nat \<Rightarrow>
       thrown + prepared_turn" where
  "prepare_turn env session inp previousTurnId previous custom n =
     bindE (turn_threads env (sr_agent session) previous n) (\<lambda>(orc, oenv).
     bindE (send_input_first oenv (sti_input inp) orc) (\<lambda>(orc', appends).
     let threads = orc_threads orc';
         row = turn_init inp (sr_session_id session) previous previousTurnId custom (se_now env n)
     in Inr
       \<lparr>pt_record = with_snapshot row
          \<lparr>sn_threads = threadsRecordFromMap threads,
           sn_mcp_servers = Option.bind previous (\<lambda>t. sn_mcp_servers (tr_snapshot t)),
           sn_sandbox_info = Option.bind previous (\<lambda>t. sn_sandbox_info (tr_snapshot t))\<rparr>,
        pt_create =
          \<lparr>cti_turn = row, cti_new_threads = new_threads_of previous threads, cti_new_context_appends = appends,
           cti_capability_states = map (\<lambda>(i, t).
             \<lparr>tcs_thread_id = i, tcs_capability_state = ats_capability_state (toSnapshot t)\<rparr>) threads,
           cti_update_session_title_if_not_exist = sti_title inp\<rparr>,
        pt_orchestrator = orc'\<rparr>))"

definition session_write :: "session_env \<Rightarrow> ((nat \<Rightarrow> int) \<Rightarrow> store \<Rightarrow> 'a outcome) \<Rightarrow> 'a session_call" where
  "session_write env f s =
     (case f (se_clock env (sh_tick s)) (se_rival env (sh_tick s) (sh_store s)) of
        (store', Inl e) \<Rightarrow> (s\<lparr>sh_store := store', sh_tick := Suc (sh_tick s)\<rparr>, Inl (Raised_by_store e))
      | (store', Inr a) \<Rightarrow> (s\<lparr>sh_store := store', sh_tick := Suc (sh_tick s)\<rparr>, Inr a))"

definition freezeTurn :: "session_env \<Rightarrow> string \<Rightarrow> cancellation_reason \<Rightarrow> turn_record session_call" where
  "freezeTurn env tid reason s =
     session_write env (\<lambda>clk. freezeAndGetTurn clk (sr_session_id (sh_session s)) tid reason
       (cancelledTurnDoneEvent env (sh_tick s) reason)) s"

text \<open>The previous turn is frozen before the \<open>try\<close> block.\<close>

definition freeze_previous :: "session_env \<Rightarrow> string option \<Rightarrow> turn_record option session_call" where
  "freeze_previous env previousTurnId s =
     (case previousTurnId of
        None \<Rightarrow> (s, Inr None)
      | Some p \<Rightarrow>
          if p = '''' then (s, Inr None)
          else (case freezeTurn env p Cancelled_for_next_turn s of
                  (s1, Inl x) \<Rightarrow> (s1, Inl x)
                | (s1, Inr t) \<Rightarrow> (s1, Inr (Some t))))"

fun custom_of :: "custom_input \<Rightarrow> turn_record option \<Rightarrow> thrown + json option" where
  "custom_of No_custom previous = Inr None"
| "custom_of (Custom_value v) previous = Inr (Some v)"
| "custom_of (Custom_merge f) previous = bindE (f (Option.bind previous tr_custom)) (\<lambda>v. Inr (Some v))"

definition refreshed_session :: "session_handle \<Rightarrow> session_record" where
  "refreshed_session s =
     (case getSession (sr_tenant_id (sh_session s)) (sr_session_id (sh_session s)) (sh_store s) of
        Some r \<Rightarrow> r | None \<Rightarrow> sh_session s)"

text \<open>The body of the \<open>try\<close> block.\<close>

definition commit_turn ::
    "session_env \<Rightarrow> session_turn_input \<Rightarrow> string option \<Rightarrow> turn_record option \<Rightarrow> json option \<Rightarrow> turn_handle session_call" where
  "commit_turn env inp previousTurnId previous custom s =
     (case prepare_turn env (sh_session s) inp previousTurnId previous custom (sh_tick s) of
        Inl x \<Rightarrow> (s, Inl (Raised x))
      | Inr p \<Rightarrow>
          (case session_write env (\<lambda>clk. createTurn clk (pt_create p)) s of
             (s1, Inl x) \<Rightarrow> (s1, Inl x)
           | (s1, Inr u) \<Rightarrow>
               let s2 = s1\<lparr>sh_store := se_rival env (sh_tick s1) (sh_store s1), sh_tick := Suc (sh_tick s1)\<rparr>;
                   s3 = s2\<lparr>sh_session := refreshed_session s2\<rparr>
               in (s3, Inr
                 \<lparr>ts_store = sh_store s3, ts_turn = pt_record p, ts_orchestrator = Some (pt_orchestrator p),
                  ts_resolver = True, ts_signal = True, ts_started = False, ts_closed = 0, ts_tick = 0\<rparr>)))"

definition session_createTurn :: "session_env \<Rightarrow> session_turn_input \<Rightarrow> turn_handle session_call" where
  "session_createTurn env inp s =
     (let previousTurnId = resolvePreviousTurnId (sti_previous_turn_id inp)
            (map_option ltd_id (sr_last_turn_details (sh_session s)))
      in case freeze_previous env previousTurnId s of
           (s1, Inl x) \<Rightarrow> (s1, Inl x)
         | (s1, Inr previous) \<Rightarrow>
             (case custom_of (sti_custom inp) previous of
                Inl x \<Rightarrow> (s1, Inl (Raised x))
              | Inr custom \<Rightarrow>
                  (case commit_turn env inp previousTurnId previous custom s1 of
                     (s2, Inl x) \<Rightarrow> (s2\<lparr>sh_closes := Suc (sh_closes s2)\<rparr>, Inl x)
                   | (s2, Inr h) \<Rightarrow> (s2, Inr h))))"

section \<open>Reads\<close>

definition session_getTurn :: "string \<Rightarrow> session_handle \<Rightarrow> turn_handle option" where
  "session_getTurn tid s = get_handle (sh_store s) (sr_session_id (sh_session s)) tid"

definition session_listTurns ::
    "nat \<Rightarrow> page_token option \<Rightarrow> session_handle \<Rightarrow> serror + (turn_row list \<times> page_token token_pagination)" where
  "session_listTurns limit token s = listTurns (sr_session_id (sh_session s)) limit token (sh_store s)"

definition session_listEvents ::
    "nat \<Rightarrow> page_token option \<Rightarrow> string option \<Rightarrow> session_handle \<Rightarrow>
       serror + (session_event_item list \<times> page_token token_pagination)" where
  "session_listEvents limit token last_turn_id s =
     listSessionEvents (sr_session_id (sh_session s)) limit token last_turn_id (sh_store s)"

section \<open>Sessions\<close>

text \<open>
  \<open>Sessions.create\<close> and its relatives over a store; \<open>sc_ulid n\<close> is the \<open>n\<close>-th new id. The defaults of the optional
  fields are those of \<open>create_session_input\<close>: \<open>null\<close>, the empty metadata and \<open>null\<close>.
\<close>

record sessions =
  sc_store :: store
  sc_tick :: nat

definition session_handle_of :: "store \<Rightarrow> session_record \<Rightarrow> session_handle" where
  "session_handle_of s r = \<lparr>sh_store = s, sh_session = r, sh_tick = 0, sh_closes = 0\<rparr>"

definition sessions_step :: "(nat \<Rightarrow> store \<Rightarrow> store) \<Rightarrow> sessions \<Rightarrow> sessions" where
  "sessions_step rival s = s\<lparr>sc_store := rival (sc_tick s) (sc_store s), sc_tick := Suc (sc_tick s)\<rparr>"

definition sessions_create ::
    "(nat \<Rightarrow> store \<Rightarrow> store) \<Rightarrow> (nat \<Rightarrow> nat \<Rightarrow> int) \<Rightarrow> create_session_input \<Rightarrow> sessions \<Rightarrow> sessions \<times> (raised + session_handle)" where
  "sessions_create rival clock inp s =
     (let s1 = sessions_step rival s in
      case createSession (clock (sc_tick s)) inp (sc_store s1) of
        (store', Inl e) \<Rightarrow> (s1\<lparr>sc_store := store'\<rparr>, Inl (Raised_by_store e))
      | (store', Inr u) \<Rightarrow>
          let s2 = sessions_step rival (s1\<lparr>sc_store := store'\<rparr>) in
          (case getSession (csi_tenant_id inp) (csi_session_id inp) (sc_store s2) of
             None \<Rightarrow> (s2, Inl (Raised (plain_error
               (''Session create succeeded but getSession returned undefined: '' @ csi_session_id inp))))
           | Some r \<Rightarrow> (s2, Inr (session_handle_of (sc_store s2) r))))"

definition sessions_get :: "(nat \<Rightarrow> store \<Rightarrow> store) \<Rightarrow> string \<Rightarrow> string \<Rightarrow> sessions \<Rightarrow> sessions \<times> session_handle option" where
  "sessions_get rival tenant sid s =
     (let s1 = sessions_step rival s in
      (s1, map_option (session_handle_of (sc_store s1)) (getSession tenant sid (sc_store s1))))"

definition sessions_getByExternalId ::
    "(nat \<Rightarrow> store \<Rightarrow> store) \<Rightarrow> string \<Rightarrow> string \<Rightarrow> sessions \<Rightarrow> sessions \<times> session_handle option" where
  "sessions_getByExternalId rival tenant ext s =
     (let s1 = sessions_step rival s in
      (s1, map_option (session_handle_of (sc_store s1)) (getSessionByExternalId tenant ext (sc_store s1))))"

definition getOrCreateByExternalId ::
    "(nat \<Rightarrow> store \<Rightarrow> store) \<Rightarrow> (nat \<Rightarrow> nat \<Rightarrow> int) \<Rightarrow> (nat \<Rightarrow> string) \<Rightarrow> create_session_input \<Rightarrow> string \<Rightarrow> sessions \<Rightarrow>
       sessions \<times> (raised + (session_handle \<times> bool))" where
  "getOrCreateByExternalId rival clock ulid inp ext s =
     (case sessions_getByExternalId rival (csi_tenant_id inp) ext s of
        (s1, Some existing) \<Rightarrow> (s1, Inr (existing, False))
      | (s1, None) \<Rightarrow>
          (case sessions_create rival clock
              (inp\<lparr>csi_session_id := lower_case (ulid (sc_tick s1)), csi_external_id := Some ext\<rparr>) s1 of
             (s2, Inr h) \<Rightarrow> (s2, Inr (h, True))
           | (s2, Inl x) \<Rightarrow>
               (case x of
                  Raised_by_store (Session_external_id_conflict e) \<Rightarrow>
                    (case sessions_getByExternalId rival (csi_tenant_id inp) ext s2 of
                       (s3, None) \<Rightarrow> (s3, Inl x)
                     | (s3, Some winner) \<Rightarrow> (s3, Inr (winner, False)))
                | _ \<Rightarrow> (s2, Inl x))))"

end
