(* ===== verification/Session_Commit.thy ===== *)
theory Session_Commit
  imports Session_Handle Turn_Handle_Sync
begin

text \<open>
  What \<open>createTurn\<close> commits: the appends it collects from the send are what the send did to the threads, so the row of
  the new turn holds the live threads, and the handle it returns is ready to stream.
\<close>

section \<open>A send as appends\<close>

fun append_view :: "turn_context_append \<Rightarrow> thread_view \<Rightarrow> thread_view" where
  "append_view a (ctx, u, k) =
     (ctx @ tca_context a, (case tca_current_context_usage a of None \<Rightarrow> u | Some v \<Rightarrow> v), k)"

text \<open>The view after the appends collected so far.\<close>

definition appended :: "(string, turn_context_append) js_map \<Rightarrow> turn_view \<Rightarrow> turn_view" where
  "appended M V = (\<lambda>i. case js_get M i of None \<Rightarrow> V i | Some a \<Rightarrow> map_option (append_view a) (V i))"

definition keyed_appends :: "(string, turn_context_append) js_map \<Rightarrow> bool" where
  "keyed_appends M \<longleftrightarrow> distinct (js_keys M) \<and> (\<forall>i a. js_get M i = Some a \<longrightarrow> tca_thread_id a = i)"

lemma collect_step:
  assumes "collect_append e M = Inr M'" and "keyed_appends M"
  shows "keyed_appends M' \<and> appended M' V = absorb_exec e (appended M V)"
proof (cases "(e, M)" rule: collect_append.cases)
  case (1 a M0)
  have "appended M' V i = absorb_exec e (appended M V) i" for i
    using assms 1
    by (cases "V i"; cases "js_get M (tae_thread_id a)"; cases "tae_usage a")
      (auto simp: appended_def absorb_in_def split: option.split)
  moreover have "keyed_appends M'" using assms 1
    by (auto simp: keyed_appends_def js_distinct_set split: option.splits if_splits)
  ultimately show ?thesis by auto
qed (use assms in auto)

lemma collect_steps:
  assumes "foldE collect_append es M = Inr M'" and "keyed_appends M"
  shows "keyed_appends M' \<and> appended M' V = fold absorb_exec es (appended M V)"
  using assms
proof (induction es arbitrary: M)
  case (Cons e es)
  then obtain M1 where m: "collect_append e M = Inr M1" "foldE collect_append es M1 = Inr M'"
    by (auto simp: bindE_Inr_iff)
  from collect_step[OF m(1) Cons.prems(2), of V] Cons.IH[OF m(2)] show ?case by simp
qed simp

lemma collected:
  assumes "collectContextAppends es = Inr apps"
  obtains M where "apps = js_values M" "keyed_appends M" "\<And>V. appended M V = fold absorb_exec es V"
proof -
  obtain M where m: "foldE collect_append es [] = Inr M" "apps = js_values M"
    using assms by (auto simp: collectContextAppends_def bindE_Inr_iff)
  have e: "keyed_appends []" "appended [] V = V" for V by (simp_all add: keyed_appends_def appended_def js_keys_def)
  show thesis by (rule that[OF m(2)]) (use collect_steps[OF m(1) e(1)] e(2) in auto)
qed

section \<open>The appends on the snapshot\<close>

text \<open>Contexts and usages of the stored threads; the capability states are set afterwards.\<close>

fun context_stored :: "thread_view \<Rightarrow> agent_thread_snapshot \<Rightarrow> bool" where
  "context_stored (ctx, u, caps) th \<longleftrightarrow> ats_context th = ctx \<and> ats_current_context_usage th = u"

definition contexts_match :: "turn_view \<Rightarrow> thread_map \<Rightarrow> bool" where
  "contexts_match V threads \<longleftrightarrow> (\<forall>i. rel_option context_stored (V i) (js_get threads i))"

lemma appends_match:
  assumes "foldE apply_append (js_values M) threads = Inr threads'" and "keyed_appends M" and "contexts_match V threads"
  shows "contexts_match (appended M V) threads'"
  using assms
proof (induction M arbitrary: threads V)
  case Nil
  then show ?case by (simp add: js_values_def appended_def)
next
  case (Cons kv M)
  obtain i a where kv: "kv = (i, a)" by (cases kv)
  have get: "js_get (kv # M) j = (if j = i then Some a else js_get M j)" for j by (simp add: kv js_get_def)
  have d: "distinct (js_keys M)" "i \<notin> set (js_keys M)" using Cons.prems(2) by (simp_all add: keyed_appends_def kv js_keys_def)
  then have none: "js_get M i = None" by (simp add: js_has_keys[symmetric] js_has_def)
  have ids: "tca_thread_id b = j" if "js_get (kv # M) j = Some b" for j b
    using Cons.prems(2) that by (simp add: keyed_appends_def)
  have id: "tca_thread_id a = i" using ids[of i a] by (simp add: get)
  have "tca_thread_id b = j" if "js_get M j = Some b" for j b using ids[of j b] that none by (cases "j = i") (auto simp: get)
  then have M: "keyed_appends M" "js_get M i = None" using d(1) none by (simp_all add: keyed_appends_def)
  obtain m where m: "apply_append a threads = Inr m" "foldE apply_append (js_values M) m = Inr threads'"
    using Cons.prems(1) by (auto simp: kv js_values_def bindE_Inr_iff)
  obtain th where th: "js_get threads i = Some th"
    "m = js_set i (append_to_thread (tca_context a) (tca_current_context_usage a) (tca_completion a) th) threads"
    using m(1) by (auto simp: apply_append_def id split: option.splits)
  have rel: "rel_option context_stored (V j) (js_get threads j)" for j using Cons.prems(3) by (simp add: contexts_match_def)
  obtain v where v: "V i = Some v" "context_stored v th" using rel[of i] th(1) by (cases "V i") auto
  have "context_stored (append_view a v) (append_to_thread (tca_context a) (tca_current_context_usage a) (tca_completion a) th)"
    using v(2) by (cases v) (simp add: append_to_thread_def split: option.split)
  then have "contexts_match (V(i \<mapsto> append_view a v)) (js_set i (append_to_thread (tca_context a) (tca_current_context_usage a)
      (tca_completion a) th) threads)"
    using rel by (simp add: contexts_match_def)
  moreover have "appended M (V(i \<mapsto> append_view a v)) = appended (kv # M) V"
    using M(2) v(1) by (auto simp: appended_def kv js_get_def fun_eq_iff split: option.split)
  ultimately show ?case using Cons.IH[OF m(2) M(1)] th(2) by metis
qed

lemma capabilities_get:
  assumes "foldE apply_capability cs threads = Inr threads'" and "distinct (map tcs_thread_id cs)"
  shows "js_get threads' i = (case find (\<lambda>c. tcs_thread_id c = i) cs of None \<Rightarrow> js_get threads i
    | Some c \<Rightarrow> map_option (\<lambda>th. th\<lparr>ats_capability_state := tcs_capability_state c\<rparr>) (js_get threads i))"
  using assms
proof (induction cs arbitrary: threads)
  case (Cons c cs)
  obtain m where m: "apply_capability c threads = Inr m" "foldE apply_capability cs m = Inr threads'"
    using Cons.prems(1) by (auto simp: bindE_Inr_iff)
  obtain th where th: "js_get threads (tcs_thread_id c) = Some th"
    "m = js_set (tcs_thread_id c) (th\<lparr>ats_capability_state := tcs_capability_state c\<rparr>) threads"
    using m(1) by (auto simp: apply_capability_def split: option.splits)
  have none: "find (\<lambda>b. tcs_thread_id b = tcs_thread_id c) cs = None"
    using Cons.prems(2) by (auto simp: find_None_iff image_iff)
  show ?case using Cons.IH[OF m(2)] Cons.prems(2) th none by (auto split: option.split)
qed simp

section \<open>The threads that are built\<close>

text \<open>A tree of threads in the sense of the orchestrator, whose completions answer the calls that created them.\<close>

definition thread_place :: "agent_thread_snapshot \<Rightarrow> agent_config" where
  "thread_place th =
     \<lparr>ac_thread_id = ats_thread_id th, ac_title = '''', ac_parent = ats_parent th, ac_agent_info = ats_agent_info th,
      ac_instruction = None, ac_user_instruction = None, ac_messages = [], ac_model_name = '''',
      ac_model_params = None, ac_response_format = None, ac_iteration_limit = None, ac_skills_tokens = 0, ac_state_keys = []\<rparr>"

fun answers_parent :: "agent_parent option \<Rightarrow> sub_agent_completion option \<Rightarrow> bool" where
  "answers_parent (Some p) (Some c) = (tm_tool_call_id (send_to_parent c) = ap_tool_call_id p)"
| "answers_parent p c = True"

definition null_free :: "capability_state option \<Rightarrow> bool" where
  "null_free caps \<longleftrightarrow> (\<forall>m. caps = Some m \<longrightarrow> (\<forall>kv \<in> set m. snd kv \<noteq> JNull))"

definition resumable :: "thread_map \<Rightarrow> bool" where
  "resumable threads \<longleftrightarrow> tree_ok (\<lambda>i. map_option thread_place (js_get threads i)) \<and>
     (\<forall>i th. js_get threads i = Some th \<longrightarrow>
        answers_parent (ats_parent th) (ats_completion th) \<and> null_free (ats_capability_state th))"

lemma tree_ok_cong:
  assumes "tree_ok sh" and "\<And>i. map_option (\<lambda>c. (ac_thread_id c, ac_parent c)) (sh i) = map_option (\<lambda>c. (ac_thread_id c, ac_parent c)) (sh' i)"
  shows "tree_ok sh'"
proof -
  have fwd: "\<exists>c. sh i = Some c \<and> ac_thread_id c = ac_thread_id c' \<and> ac_parent c = ac_parent c'" if "sh' i = Some c'" for i c'
    using assms(2)[of i] that by (cases "sh i") auto
  have bwd: "\<exists>c'. sh' i = Some c' \<and> ac_thread_id c = ac_thread_id c' \<and> ac_parent c = ac_parent c'" if "sh i = Some c" for i c
    using assms(2)[of i] that by (cases "sh' i") auto
  have child: "child_of sh' tid i = child_of sh tid i" for tid i
    unfolding child_of_def using fwd[of i] bwd[of i] by metis
  have none: "sh' i = None \<longleftrightarrow> sh i = None" for i using fwd[of i] bwd[of i] by (metis option.exhaust option.distinct(1))
  have main: "(\<exists>c. sh' tid = Some c \<and> ac_parent c = None) = (\<exists>c. sh tid = Some c \<and> ac_parent c = None)" for tid
    using fwd[of tid] bwd[of tid] by metis
  have "\<forall>tid c. sh' tid = Some c \<longrightarrow> ac_thread_id c = tid \<and> tid \<noteq> []"
    using assms(1) fwd unfolding tree_ok_def by metis
  then show ?thesis using assms(1) unfolding tree_ok_def child none main by blast
qed

definition built :: "string \<Rightarrow> agent_thread_snapshot option \<Rightarrow> agent_thread \<Rightarrow> bool" where
  "built tid previous t \<longleftrightarrow>
     ac_thread_id (th_config t) = tid \<and> ac_parent (th_config t) = Option.bind previous ats_parent \<and>
     th_completion t = Option.bind previous ats_completion \<and>
     th_context t = (case previous of None \<Rightarrow> [] | Some th \<Rightarrow> ats_context th) \<and>
     th_usage t = (case previous of None \<Rightarrow> getEmptyCurrentContextUsage | Some th \<Rightarrow> ats_current_context_usage th) \<and>
     (null_free (Option.bind previous ats_capability_state) \<longrightarrow> (\<forall>k. js_get (th_capability_state t) k \<noteq> Some JNull))"

lemma claim_null_free:
  assumes "null_free inp"
  shows "js_get (claimCapabilityState cs inp) k \<noteq> Some JNull"
proof (cases inp)
  case (Some kvs)
  have "js_get (fold (\<lambda>(k, v) claimed. if Some k \<notin> set cs then claimed else js_set k v claimed) kvs m) k \<noteq> Some JNull"
    if "\<forall>kv \<in> set kvs. snd kv \<noteq> JNull" "js_get m k \<noteq> Some JNull" for m
    using that by (induction kvs arbitrary: m) (auto split: prod.split)
  then show ?thesis using Some assms by (simp add: claimCapabilityState_def null_free_def)
qed (simp add: claimCapabilityState_def)

lemma thread_config_fields [simp]:
  "ac_thread_id (thread_config env d tid title parent info sandbox caps) = tid"
  "ac_parent (thread_config env d tid title parent info sandbox caps) = parent"
  by (simp_all add: thread_config_def split: prod.split)

lemma buildThread_built:
  assumes "buildThread env spec sandbox tid previous resolved = Inr t"
  shows "built tid previous t"
  using assms by (auto simp: buildThread_def new_agent_thread_def Let_def bindE_Inr_iff built_def claim_null_free split: option.split)

lemma buildThreads_built:
  assumes "buildThreads env previous spec sandbox defs tids m = Inr m'" and "distinct (js_keys m)"
  shows "distinct (js_keys m') \<and> (\<forall>i. if i \<in> set tids
    then \<exists>t. js_get m' i = Some t \<and> built i (previous_thread previous i) t else js_get m' i = js_get m i)"
  using assms
proof (induction tids arbitrary: m)
  case (Cons tid tids)
  obtain resolved t where t: "buildThread env spec sandbox tid (previous_thread previous tid) resolved = Inr t"
    "buildThreads env previous spec sandbox defs tids (js_set tid t m) = Inr m'"
    using Cons.prems(1) by (auto simp: bindE_Inr_iff split: option.splits)
  have "built tid (previous_thread previous tid) t" by (rule buildThread_built[OF t(1)])
  moreover have "distinct (js_keys m')" and "if i \<in> set tids then \<exists>t. js_get m' i = Some t \<and> built i (previous_thread previous i) t
      else js_get m' i = js_get (js_set tid t m) i" for i
    using Cons.IH[OF t(2) js_distinct_set[OF Cons.prems(2)]] by blast+
  ultimately have "distinct (js_keys m')" and "if i \<in> set (tid # tids)
    then \<exists>t. js_get m' i = Some t \<and> built i (previous_thread previous i) t else js_get m' i = js_get m i" for i
    by (cases "i = tid"; force split: if_splits)+
  then show ?case by blast
qed simp

text \<open>The stored threads that the threads are built from; the first turn has an empty main thread.\<close>

definition starting_threads :: "turn_record option \<Rightarrow> thread_map" where
  "starting_threads previous = (case previous of
     None \<Rightarrow> [(MAIN_THREAD_ID, newThreadSnapshot \<lparr>nt_thread_id = MAIN_THREAD_ID, nt_parent = None, nt_agent_info = None\<rparr>)]
   | Some t \<Rightarrow> sn_threads (tr_snapshot t))"

lemma previous_thread_starting:
  "previous = Some t \<Longrightarrow> previous_thread previous i = js_get (starting_threads previous) i"
  by (simp add: previous_thread_def starting_threads_def)

definition starts_well :: "turn_record option \<Rightarrow> orchestrator \<Rightarrow> bool" where
  "starts_well previous s \<longleftrightarrow> orc_ok s \<and> contexts_match (orc_view s) (starting_threads previous) \<and>
     (\<forall>i t k. js_get (orc_threads s) i = Some t \<longrightarrow> js_get (th_capability_state t) k \<noteq> Some JNull)"

lemma threads_start_well:
  assumes b: "buildThreads env previous spec sandbox defs (threadIdsForCurrentTurn (map_option tr_snapshot previous)) [] = Inr threads"
    and ok: "\<And>t. previous = Some t \<Longrightarrow> resumable (sn_threads (tr_snapshot t)) \<and> snapshot_ok (sn_threads (tr_snapshot t))"
    and s: "orc_threads s = threads"
  shows "starts_well previous s"
proof -
  let ?ids = "threadIdsForCurrentTurn (map_option tr_snapshot previous)" and ?T = "starting_threads previous"
  have "distinct (js_keys ([] :: (string \<times> agent_thread) list))" by (simp add: js_keys_def)
  note m = buildThreads_built[OF b this]
  have ids: "i \<in> set ?ids \<longleftrightarrow> js_get ?T i \<noteq> None" for i
    by (cases previous) (auto simp: threadIdsForCurrentTurn_def starting_threads_def js_get_def js_keys_def map_of_eq_None_iff
        split: if_splits)
  have none: "js_get ?T i = None \<Longrightarrow> js_get threads i = None" for i
    using m ids[of i] by (metis js_map_simps(1))
  have some: "\<exists>t. js_get threads i = Some t \<and> built i (Some th) t" if th: "js_get ?T i = Some th" for i th
  proof -
    obtain t where t: "js_get threads i = Some t" "built i (previous_thread previous i) t" using m[THEN conjunct2, THEN spec, of i] ids[of i] th by auto
    show ?thesis
    proof (cases previous)
      case None
      then have "th = newThreadSnapshot \<lparr>nt_thread_id = i, nt_parent = None, nt_agent_info = None\<rparr>"
        using th by (auto simp: starting_threads_def js_get_def split: if_splits)
      then show ?thesis using t None by (simp add: built_def previous_thread_def newThreadSnapshot_def)
    qed (use t th previous_thread_starting in auto)
  qed
  have place: "tree_ok (\<lambda>i. map_option thread_place (js_get ?T i)) \<and> (\<forall>i th. js_get ?T i = Some th \<longrightarrow>
      answers_parent (ats_parent th) (ats_completion th) \<and> null_free (ats_capability_state th) \<and> ats_thread_id th = i)"
  proof (cases previous)
    case None
    let ?sh = "\<lambda>i. map_option thread_place (js_get ?T i)"
    have sh: "?sh = (\<lambda>i. if i = MAIN_THREAD_ID then Some (thread_place (newThreadSnapshot
        \<lparr>nt_thread_id = MAIN_THREAD_ID, nt_parent = None, nt_agent_info = None\<rparr>)) else None)"
      using None by (auto simp: starting_threads_def js_get_def fun_eq_iff)
    have "tree_ok ?sh" unfolding sh
      by (rule tree_okI[where rank = "\<lambda>i. 0"])
        (auto simp: child_of_def thread_place_def newThreadSnapshot_def MAIN_THREAD_ID_def split: if_splits)
    then show ?thesis using None by (auto simp: starting_threads_def js_get_def newThreadSnapshot_def null_free_def split: if_splits)
  next
    case (Some t)
    then show ?thesis using ok[OF Some] by (auto simp: starting_threads_def resumable_def snapshot_ok_def)
  qed
  have "map_option (\<lambda>c. (ac_thread_id c, ac_parent c)) (map_option thread_place (js_get ?T i)) =
      map_option (\<lambda>c. (ac_thread_id c, ac_parent c)) (shape s i)" for i
  proof (cases "js_get ?T i")
    case (Some th)
    from some[OF this] place Some show ?thesis by (auto simp: shape_def s built_def thread_place_def)
  qed (simp add: none shape_def s)
  then have "tree_ok (shape s)" using place tree_ok_cong by blast
  moreover have "completion_addressed t" if t: "js_get threads i = Some t" for i t
  proof -
    obtain th where th: "js_get ?T i = Some th" using none[of i] t by (cases "js_get ?T i") auto
    from some[OF th] t have "built i (Some th) t" by simp
    moreover have "answers_parent (ats_parent th) (ats_completion th)" using place th by blast
    ultimately show ?thesis
      by (cases "ats_parent th"; cases "ats_completion th") (simp_all add: completion_addressed_def built_def)
  qed
  ultimately have "orc_ok s" using m by (simp add: orc_ok_def s)
  moreover have "rel_option context_stored (orc_view s i) (js_get ?T i)" for i
  proof (cases "js_get ?T i")
    case (Some th)
    from some[OF this] show ?thesis by (auto simp: Some orc_view_def s built_def thread_view_def)
  qed (simp add: none orc_view_def s)
  moreover have "js_get (th_capability_state t) k \<noteq> Some JNull" if t: "js_get threads i = Some t" for i t k
  proof -
    obtain th where th: "js_get ?T i = Some th" using none[of i] t by (cases "js_get ?T i") auto
    from some[OF th] t have "built i (Some th) t" by simp
    moreover have "null_free (ats_capability_state th)" using place th by blast
    ultimately show ?thesis by (simp add: built_def)
  qed
  ultimately show ?thesis by (simp add: starts_well_def contexts_match_def s)
qed

section \<open>What is committed\<close>

lemma turn_threads_well:
  assumes "turn_threads env agent previous n = Inr (s, oenv)"
    and "\<And>t. previous = Some t \<Longrightarrow> resumable (sn_threads (tr_snapshot t)) \<and> snapshot_ok (sn_threads (tr_snapshot t))"
  shows "starts_well previous s \<and> (\<exists>spec sandbox. oenv = orchestrator_env env previous spec sandbox)"
proof -
  obtain spec where 1: "turn_spec env agent n = Inr spec" using assms(1) by (auto simp: turn_threads_def bindE_Inr_iff)
  obtain sandbox where 2: "se_sandbox env n spec (Option.bind previous (\<lambda>t. sn_sandbox_info (tr_snapshot t))) previous = Inr sandbox"
    using assms(1) by (auto simp: turn_threads_def bindE_Inr_iff 1)
  obtain defs where 3: "resolveAgentDefinitions env previous spec n = Inr defs"
    using assms(1) by (auto simp: turn_threads_def bindE_Inr_iff 1 2)
  obtain threads where
    "buildThreads env previous spec sandbox defs (threadIdsForCurrentTurn (map_option tr_snapshot previous)) [] = Inr threads"
    "orc_threads s = threads" "oenv = orchestrator_env env previous spec sandbox"
    using assms(1) by (auto simp: turn_threads_def bindE_Inr_iff 1 2 3 split: option.splits)
  then show ?thesis using threads_start_well[OF _ assms(2)] by blast
qed

lemma capability_of_send:
  assumes "appended M V i = Some (ctx, u, k)"
  obtains ctx0 u0 where "V i = Some (ctx0, u0, k)"
proof (cases "js_get M i")
  case (Some a)
  then obtain v where v: "V i = Some v" "append_view a v = (ctx, u, k)" using assms by (auto simp: appended_def)
  then show ?thesis using that by (cases v) auto
qed (use assms that in \<open>auto simp: appended_def\<close>)

lemma send_first:
  assumes "send_input_first oenv input s = Inr (s', apps)" and "starts_well previous s"
  obtains M where "apps = js_values M" "keyed_appends M" "orc_view s' = appended M (orc_view s)" "orc_ok s'"
    "\<And>i t k. js_get (orc_threads s') i = Some t \<Longrightarrow> js_get (th_capability_state t) k \<noteq> Some JNull"
proof -
  obtain batch where b: "toSendBatch input = Inr batch" using assms(1) by (auto simp: send_input_first_def bindE_Inr_iff)
  obtain tr s1 out where o: "orc_send oenv batch s = (tr, s1, out)" by (cases "orc_send oenv batch s")
  obtain u where r: "orc_send oenv batch s = (tr, s', Inr u)" "collectContextAppends (map fst tr) = Inr apps"
    using assms(1) by (cases out) (auto simp: send_input_first_def b o bindE_Inr_iff)
  obtain M where M: "apps = js_values M" "keyed_appends M" "\<And>V. appended M V = fold absorb_exec (map fst tr) V"
    by (rule collected[OF r(2)]) blast
  have "orc_ok s \<and> orc_view s = orc_view s" using assms(2) by (simp add: starts_well_def)
  from replaysD[OF input_replays this r(1)] have s': "orc_ok s'" "orc_view s' = appended M (orc_view s)" by (simp_all add: M(3))
  show thesis
  proof (rule that[OF M(1,2) s'(2,1)])
    fix i t k assume t: "js_get (orc_threads s') i = Some t"
    then have "appended M (orc_view s) i = Some (th_context t, th_usage t, th_capability_state t)"
      by (simp add: s'(2)[symmetric] orc_view_def thread_view_def)
    then obtain c u0 where "orc_view s i = Some (c, u0, th_capability_state t)" by (rule capability_of_send)
    then obtain t0 where "js_get (orc_threads s) i = Some t0" "th_capability_state t0 = th_capability_state t"
      by (auto simp: orc_view_def thread_view_def)
    then show "js_get (th_capability_state t) k \<noteq> Some JNull" using assms(2) unfolding starts_well_def by metis
  qed
qed

text \<open>The new threads make the starting threads out of the inherited ones.\<close>

lemma new_threads_start:
  assumes ok: "orc_ok s'" and dom: "\<And>i. js_get (orc_threads s') i = None \<longleftrightarrow> js_get (starting_threads previous) i = None"
  shows "\<exists>T. fold (\<lambda>nt. js_set (nt_thread_id nt) (newThreadSnapshot nt)) (new_threads_of previous (orc_threads s'))
      (previous_threads (map_option tr_snapshot previous)) = T \<and>
    (\<forall>V. contexts_match V (starting_threads previous) \<longrightarrow> contexts_match V T)"
proof (cases previous)
  case None
  have start: "starting_threads previous =
    [(MAIN_THREAD_ID, newThreadSnapshot \<lparr>nt_thread_id = MAIN_THREAD_ID, nt_parent = None, nt_agent_info = None\<rparr>)]"
    by (simp add: None starting_threads_def)
  obtain t where t: "js_get (orc_threads s') MAIN_THREAD_ID = Some t"
    using dom[of MAIN_THREAD_ID] by (cases "js_get (orc_threads s') MAIN_THREAD_ID") (auto simp: start js_get_def)
  have id: "ac_thread_id (th_config t) = MAIN_THREAD_ID"
    using ok t tree_okD(1)[of "shape s'" MAIN_THREAD_ID "th_config t"] by (auto simp: orc_ok_def shape_def)
  let ?T = "js_set MAIN_THREAD_ID (newThreadSnapshot (toNewThreadInit (toSnapshot t))) []"
  have "contexts_match V ?T" if V: "contexts_match V (starting_threads previous)" for V
  proof -
    have "rel_option context_stored (V i) (js_get ?T i)" for i
    proof (cases "i = MAIN_THREAD_ID")
      case True
      obtain v where "V i = Some v" "context_stored v (newThreadSnapshot \<lparr>nt_thread_id = MAIN_THREAD_ID, nt_parent = None, nt_agent_info = None\<rparr>)"
        using V[unfolded contexts_match_def, rule_format, of i] True by (cases "V i") (auto simp: start js_get_def)
      then show ?thesis using True by (cases v) (simp add: newThreadSnapshot_def)
    next
      case False
      moreover from this have "js_get (starting_threads previous) i = None" by (simp add: start js_get_def)
      ultimately show ?thesis using V[unfolded contexts_match_def, rule_format, of i] by simp
    qed
    then show ?thesis by (simp add: contexts_match_def)
  qed
  moreover have "new_threads_of previous (orc_threads s') = [toNewThreadInit (toSnapshot t)]"
    by (simp add: None new_threads_of_def t)
  moreover have "nt_thread_id (toNewThreadInit (toSnapshot t)) = MAIN_THREAD_ID"
    by (simp add: toNewThreadInit_def toSnapshot_def id)
  ultimately show ?thesis by (simp add: None previous_threads_def)
next
  case (Some p)
  have "js_get (sn_threads (tr_snapshot p)) i \<noteq> None" if "(i, t) \<in> set (orc_threads s')" for i t
  proof -
    have "js_get (orc_threads s') i \<noteq> None" using js_in_get[OF _ that] ok by (simp add: orc_ok_def)
    then show ?thesis using dom[of i] by (simp add: Some starting_threads_def)
  qed
  then have "new_threads_of previous (orc_threads s') = []"
    by (auto simp: Some new_threads_of_def filter_empty_conv)
  then show ?thesis by (simp add: Some previous_threads_def starting_threads_def)
qed

lemma snapshot_caps:
  assumes "\<And>k. js_get (th_capability_state t) k \<noteq> Some JNull"
  shows "stored_caps (ats_capability_state (toSnapshot t)) (th_capability_state t)"
proof -
  have "js_get (case ats_capability_state (toSnapshot t) of None \<Rightarrow> [] | Some m \<Rightarrow> m) k = js_get (th_capability_state t) k" for k
    by (simp add: toSnapshot_def js_keys_def)
  then show ?thesis using assms by (auto simp: stored_caps_def split: option.split)
qed

definition capability_inits :: "(string, agent_thread) js_map \<Rightarrow> thread_capability_state_init list" where
  "capability_inits threads = map (\<lambda>(i, t).
     \<lparr>tcs_thread_id = i, tcs_capability_state = ats_capability_state (toSnapshot t)\<rparr>) threads"

lemma capability_inits:
  assumes "distinct (js_keys threads)"
  shows "distinct (map tcs_thread_id (capability_inits threads))"
    and "find (\<lambda>c. tcs_thread_id c = i) (capability_inits threads) = map_option (\<lambda>t.
      \<lparr>tcs_thread_id = i, tcs_capability_state = ats_capability_state (toSnapshot t)\<rparr>) (js_get threads i)"
proof -
  have "map tcs_thread_id (capability_inits threads) = js_keys threads"
    by (auto simp: capability_inits_def js_keys_def)
  then show "distinct (map tcs_thread_id (capability_inits threads))" using assms by simp
  show "find (\<lambda>c. tcs_thread_id c = i) (capability_inits threads) = map_option (\<lambda>t.
      \<lparr>tcs_thread_id = i, tcs_capability_state = ats_capability_state (toSnapshot t)\<rparr>) (js_get threads i)"
    by (induction threads) (auto simp: capability_inits_def js_get_def split: prod.splits)
qed

lemma committed_snapshot:
  assumes orc: "starts_well previous s" and send: "send_input_first oenv input s = Inr (s', apps)"
    and snap: "buildSnapshotFromDelta (map_option tr_snapshot previous) (new_threads_of previous (orc_threads s')) apps
      (capability_inits (orc_threads s')) = Inr snap"
  shows "orc_ok s' \<and> recovers snap (orc_view s')"
proof -
  obtain M where M: "apps = js_values M" "keyed_appends M" "orc_view s' = appended M (orc_view s)" "orc_ok s'"
    "\<And>i t k. js_get (orc_threads s') i = Some t \<Longrightarrow> js_get (th_capability_state t) k \<noteq> Some JNull"
    by (rule send_first[OF send orc]) blast
  have match: "contexts_match (orc_view s) (starting_threads previous)" using orc by (simp add: starts_well_def)
  have dom: "js_get (orc_threads s') i = None \<longleftrightarrow> js_get (starting_threads previous) i = None" for i
  proof -
    have "orc_view s' i = None \<longleftrightarrow> orc_view s i = None" by (simp add: M(3) appended_def split: option.split)
    moreover have "orc_view s i = None \<longleftrightarrow> js_get (starting_threads previous) i = None"
      using match[unfolded contexts_match_def, rule_format, of i]
      by (cases "orc_view s i"; cases "js_get (starting_threads previous) i") auto
    ultimately show ?thesis by (simp add: orc_view_def)
  qed
  let ?t0 = "previous_threads (map_option tr_snapshot previous)"
  obtain T1 where T1: "fold (\<lambda>nt. js_set (nt_thread_id nt) (newThreadSnapshot nt)) (new_threads_of previous (orc_threads s')) ?t0 = T1"
    "\<And>V. contexts_match V (starting_threads previous) \<Longrightarrow> contexts_match V T1"
    using new_threads_start[OF M(4) dom] by blast
  have t0: "(case map_option tr_snapshot previous of None \<Rightarrow> [] | Some p \<Rightarrow> sn_threads p) = ?t0" by (simp add: previous_threads_def)
  obtain T2 where T2: "applyContextAppends T1 apps = Inr T2"
    "foldE apply_capability (capability_inits (orc_threads s')) T2 = Inr (sn_threads snap)"
    using snap unfolding buildSnapshotFromDelta_def t0 Let_def T1(1) by (auto simp: bindE_Inr_iff)
  have d: "distinct (js_keys (orc_threads s'))" using M(4) by (simp add: orc_ok_def)
  have match2: "contexts_match (orc_view s') T2"
    unfolding M(3) by (rule appends_match[OF T2(1)[unfolded applyContextAppends_def M(1)] M(2) T1(2)[OF match]])
  have "rel_option thread_stored (orc_view s' i) (js_get (sn_threads snap) i)" for i
  proof -
    have get: "js_get (sn_threads snap) i = (case js_get (orc_threads s') i of None \<Rightarrow> js_get T2 i
        | Some t \<Rightarrow> map_option (\<lambda>th. th\<lparr>ats_capability_state := ats_capability_state (toSnapshot t)\<rparr>) (js_get T2 i))"
      unfolding capabilities_get[OF T2(2) capability_inits(1)[OF d]] capability_inits(2)[OF d] by (simp split: option.split)
    have rel: "rel_option context_stored (orc_view s' i) (js_get T2 i)" using match2 by (simp add: contexts_match_def)
    show ?thesis
    proof (cases "js_get (orc_threads s') i")
      case None
      then show ?thesis using rel get by (cases "js_get T2 i") (simp_all add: orc_view_def)
    next
      case (Some t)
      have "orc_view s' i = Some (thread_view t)" by (simp add: orc_view_def Some)
      moreover from this rel obtain th where th: "js_get T2 i = Some th" "context_stored (thread_view t) th"
        by (cases "js_get T2 i") auto
      moreover have "stored_caps (ats_capability_state (toSnapshot t)) (th_capability_state t)"
        by (rule snapshot_caps[OF M(5)[OF Some]])
      ultimately show ?thesis using get Some by (simp add: thread_view_def)
    qed
  qed
  then show ?thesis using M(4) by (simp add: recovers_def)
qed

text \<open>What a handle of a new turn has to be for its stream.\<close>

lemma prepared_turn:
  assumes p: "prepare_turn env ss inp ptid previous custom n = Inr p"
    and ok: "\<And>t. previous = Some t \<Longrightarrow> resumable (sn_threads (tr_snapshot t)) \<and> snapshot_ok (sn_threads (tr_snapshot t))"
  defines "row \<equiv> turn_init inp (sr_session_id ss) previous ptid custom (se_now env n)"
  shows "cti_turn (pt_create p) = row" and "\<exists>sn. pt_record p = with_snapshot row sn" and "orc_ok (pt_orchestrator p)"
    and "buildSnapshotFromDelta (map_option tr_snapshot previous) (cti_new_threads (pt_create p))
      (cti_new_context_appends (pt_create p)) (cti_capability_states (pt_create p)) = Inr snap \<Longrightarrow>
      recovers snap (orc_view (pt_orchestrator p))"
proof -
  obtain s oenv where s: "turn_threads env (sr_agent ss) previous n = Inr (s, oenv)"
    using p by (auto simp: prepare_turn_def bindE_Inr_iff)
  obtain s' apps where s': "send_input_first oenv (sti_input inp) s = Inr (s', apps)"
    using p by (auto simp: prepare_turn_def bindE_Inr_iff s)
  have pt: "p = \<lparr>pt_record = with_snapshot row
      \<lparr>sn_threads = threadsRecordFromMap (orc_threads s'),
       sn_mcp_servers = Option.bind previous (\<lambda>t. sn_mcp_servers (tr_snapshot t)),
       sn_sandbox_info = Option.bind previous (\<lambda>t. sn_sandbox_info (tr_snapshot t))\<rparr>,
     pt_create = \<lparr>cti_turn = row, cti_new_threads = new_threads_of previous (orc_threads s'), cti_new_context_appends = apps,
       cti_capability_states = capability_inits (orc_threads s'), cti_update_session_title_if_not_exist = sti_title inp\<rparr>,
     pt_orchestrator = s'\<rparr>"
    using p by (simp add: prepare_turn_def s s' Let_def row_def capability_inits_def)
  have well: "starts_well previous s" using turn_threads_well[OF s ok] by blast
  show "cti_turn (pt_create p) = row" "\<exists>sn. pt_record p = with_snapshot row sn" by (auto simp: pt)
  show "orc_ok (pt_orchestrator p)" using send_first[OF s' well] by (metis pt prepared_turn.select_convs(3))
  show "recovers snap (orc_view (pt_orchestrator p))"
    if "buildSnapshotFromDelta (map_option tr_snapshot previous) (cti_new_threads (pt_create p))
      (cti_new_context_appends (pt_create p)) (cti_capability_states (pt_create p)) = Inr snap"
    using committed_snapshot[OF well s'] that by (simp add: pt)
qed

section \<open>A turn that is created\<close>

lemma frozen_turn:
  assumes "freezeAndGetTurn clk sid tid reason ev s = (s', Inr t)"
  shows "turn_at s' (turnKey sid tid) = Some t \<and> \<not> isNonTerminalTurnState (tr_state t) \<and>
    (\<exists>t0. turn_at s (turnKey sid tid) = Some t0 \<and> tr_snapshot t = tr_snapshot t0)"
proof -
  obtain t0 where t0: "turn_at s (turnKey sid tid) = Some t0"
    using assms by (auto simp: freezeAndGetTurn_def requireTurn_Inr Let_def split: sum.splits)
  show ?thesis
  proof (cases "isNonTerminalTurnState (tr_state t0)")
    case True
    have "fst (freezeAndGetTurn clk sid tid reason ev s) = s'" using assms by simp
    then have "turn_at s' (turnKey sid tid) = Some (t0\<lparr>tr_state := Turn_cancelled reason (to_iso (clk 0)) None, tr_updated_at := clk 1\<rparr>)"
      using t0 True by (auto simp: freeze_fst Let_def split: option.split)
    moreover have "t = t0\<lparr>tr_state := Turn_cancelled reason (to_iso (clk 0)) None, tr_updated_at := clk 1\<rparr>"
      using assms t0 True by (auto simp: freezeAndGetTurn_def requireTurn_def Let_def split: prod.splits sum.splits)
    ultimately show ?thesis using t0 by simp
  next
    case False
    then show ?thesis using assms t0 by (auto simp: freezeAndGetTurn_def requireTurn_def Let_def)
  qed
qed

text \<open>Others write through the operations of the store and delete no turn; they leave the threads of this turn alone.\<close>

definition others_keep :: "session_env \<Rightarrow> bool" where
  "others_keep env \<longleftrightarrow> (\<forall>n s k. kept_steps k s (se_rival env n s))"

definition others_spare :: "session_env \<Rightarrow> string \<Rightarrow> bool" where
  "others_spare env k \<longleftrightarrow> (\<forall>n s t. turn_at s k = Some t \<longrightarrow> (\<exists>t'. turn_at (se_rival env n s) k = Some t' \<and>
     tr_snapshot t' = tr_snapshot t \<and> (tr_state t' = tr_state t \<or> (\<exists>r tm mx. tr_state t' = Turn_cancelled r tm mx))))"

text \<open>What is known of the previous turn when the new one is committed.\<close>

definition previous_frozen :: "session_handle \<Rightarrow> string option \<Rightarrow> turn_record option \<Rightarrow> bool" where
  "previous_frozen s ptid previous \<longleftrightarrow> store_ok (sh_store s) \<and>
     (case previous of
        None \<Rightarrow> ptid = None
      | Some t \<Rightarrow> resumable (sn_threads (tr_snapshot t)) \<and> (\<exists>p. ptid = Some p \<and>
          turn_at (sh_store s) (turnKey (sr_session_id (sh_session s)) p) = Some t \<and> \<not> isNonTerminalTurnState (tr_state t)))"

lemma freeze_freezes:
  assumes "freeze_previous env ptid s = (s1, Inr previous)" and "store_ok (sh_store s)"
    and "colon_free (sr_session_id (sh_session s))" and "others_keep env" and "ptid \<noteq> Some ''''"
    and "\<And>p t. ptid = Some p \<Longrightarrow>
      turn_at (se_rival env (sh_tick s) (sh_store s)) (turnKey (sr_session_id (sh_session s)) p) = Some t \<Longrightarrow>
      resumable (sn_threads (tr_snapshot t))"
  shows "previous_frozen s1 ptid previous \<and> sh_session s1 = sh_session s"
proof (cases ptid)
  case None
  then show ?thesis using assms(1,2) by (auto simp: freeze_previous_def previous_frozen_def)
next
  case (Some p)
  let ?f = "freezeAndGetTurn (se_clock env (sh_tick s)) (sr_session_id (sh_session s)) p Cancelled_for_next_turn
    (cancelledTurnDoneEvent env (sh_tick s) Cancelled_for_next_turn) (se_rival env (sh_tick s) (sh_store s))"
  obtain st t where f: "?f = (st, Inr t)" "previous = Some t" "s1 = s\<lparr>sh_store := st, sh_tick := Suc (sh_tick s)\<rparr>"
    using assms(1,5) Some
    by (auto simp: freeze_previous_def freezeTurn_def session_write_def split: prod.splits sum.splits)
  have "kept_steps k (sh_store s) (se_rival env (sh_tick s) (sh_store s))" for k using assms(4) by (simp add: others_keep_def)
  then have "store_ok (se_rival env (sh_tick s) (sh_store s))" using kept_steps_ok assms(2) by blast
  then have "store_ok st" using store_step_ok[OF step_freeze[OF assms(3)]] f(1) by (metis fst_conv)
  moreover obtain t0 where "turn_at (se_rival env (sh_tick s) (sh_store s)) (turnKey (sr_session_id (sh_session s)) p) = Some t0"
    "tr_snapshot t = tr_snapshot t0" using frozen_turn[OF f(1)] by blast
  ultimately show ?thesis using assms(6)[OF Some] frozen_turn[OF f(1)] by (auto simp: f(2,3) previous_frozen_def Some)
qed

definition ready_turn :: "turn_handle \<Rightarrow> bool" where
  "ready_turn h \<longleftrightarrow> stream_ready h \<and> \<not> ended_well (tr_state (ts_turn h)) \<and>
     (\<exists>orc. ts_orchestrator h = Some orc \<and> orc_ok orc \<and> fit (stream_origin h) (orc_view orc) h)"

lemma commit_ready:
  assumes c: "commit_turn env inp ptid previous custom s = (s', Inr h)"
    and pre: "previous_frozen s ptid previous" and colon: "colon_free (sr_session_id (sh_session s))"
    and keep: "others_keep env" and spare: "others_spare env (turnKey (sr_session_id (sh_session s)) (sti_turn_id inp))"
  shows "ready_turn h \<and> tr_session_id (ts_turn h) = sr_session_id (sh_session s) \<and> tr_turn_id (ts_turn h) = sti_turn_id inp"
proof -
  let ?k = "turnKey (sr_session_id (sh_session s)) (sti_turn_id inp)"
  obtain p where p: "prepare_turn env (sh_session s) inp ptid previous custom (sh_tick s) = Inr p"
    using c by (auto simp: commit_turn_def split: sum.splits)
  let ?st = "se_rival env (sh_tick s) (sh_store s)"
  obtain st u where st: "createTurn (se_clock env (sh_tick s)) (pt_create p) ?st = (st, Inr u)"
    using c p by (auto simp: commit_turn_def session_write_def split: prod.splits sum.splits)
  let ?st' = "se_rival env (Suc (sh_tick s)) st"
  have h: "ts_store h = ?st'" "ts_turn h = pt_record p" "ts_orchestrator h = Some (pt_orchestrator p)" "ts_resolver h" "ts_signal h"
    "\<not> ts_started h"
    using c p st by (auto simp: commit_turn_def session_write_def Let_def)
  have steps: "kept_steps k x (se_rival env n x)" for k n x using keep by (simp add: others_keep_def)
  have ok: "store_ok (sh_store s)" using pre by (simp add: previous_frozen_def)
  then have ok1: "store_ok ?st" using kept_steps_ok[OF steps] by blast
  have prev: "resumable (sn_threads (tr_snapshot t)) \<and> snapshot_ok (sn_threads (tr_snapshot t)) \<and>
      (\<exists>q. ptid = Some q \<and> turn_at ?st (turnKey (sr_session_id (sh_session s)) q) = Some t \<and> \<not> isNonTerminalTurnState (tr_state t))"
    if some: "previous = Some t" for t
  proof -
    obtain q where q: "ptid = Some q" "turn_at (sh_store s) (turnKey (sr_session_id (sh_session s)) q) = Some t"
      "\<not> isNonTerminalTurnState (tr_state t)" "resumable (sn_threads (tr_snapshot t))"
      using pre unfolding previous_frozen_def some option.case by blast
    obtain es where "events_at (sh_store s) (turnKey (sr_session_id (sh_session s)) q) = Some es" using events_of_turn[OF ok q(2)] by blast
    from kept_steps_turn[OF steps ok q(2) this] q(3) have "turn_at ?st (turnKey (sr_session_id (sh_session s)) q) = Some t" by blast
    moreover have "snapshot_ok (sn_threads (tr_snapshot t))" using store_okD(2)[OF ok q(2)] by (simp add: turn_ok_def threads_ok_def)
    ultimately show ?thesis using q by blast
  qed
  then have prev': "resumable (sn_threads (tr_snapshot t)) \<and> snapshot_ok (sn_threads (tr_snapshot t))" if "previous = Some t" for t
    using that by blast
  note pt = prepared_turn[OF p prev']
  let ?row = "turn_init inp (sr_session_id (sh_session s)) previous ptid custom (se_now env (sh_tick s))"
  have row: "tr_session_id ?row = sr_session_id (sh_session s)" "tr_turn_id ?row = sti_turn_id inp" "tr_state ?row = Turn_running"
    "tr_previous_turn_id ?row = ptid" by (simp_all add: turn_init_def)
  obtain sn where sn: "pt_record p = with_snapshot ?row sn" using pt(2) by blast
  have id: "sti_turn_id inp \<noteq> ''''"
  proof
    assume "sti_turn_id inp = ''''"
    then have "tr_turn_id (cti_turn (pt_create p)) = ''''" using pt(1) row(2) by simp
    then show False using st by (auto simp: createTurn_def parse_last_turn_details_def Let_def split: sum.splits)
  qed
  obtain ss snap where chk: "createTurn_checks (pt_create p) ?st = Inr (ss, snap)"
    using st by (auto simp: createTurn_def split: sum.splits)
  have t: "turn_at st ?k = Some (with_snapshot ?row snap)"
    using st chk id by (auto simp: createTurn_result pt(1) row Let_def)
  have "inherited_snapshot ?st ?row = Inr (map_option tr_snapshot previous)"
    unfolding inherited_snapshot_def row using prev pre
    by (cases previous) (auto simp: previous_frozen_def simp del: isNonTerminalTurnState.simps)
  then have snapped: "buildSnapshotFromDelta (map_option tr_snapshot previous) (cti_new_threads (pt_create p))
      (cti_new_context_appends (pt_create p)) (cti_capability_states (pt_create p)) = Inr snap"
    using chk by (auto simp: createTurn_checks_def pt(1) Let_def bindE_Inr_iff)
  have rec: "recovers snap (orc_view (pt_orchestrator p))" by (rule pt(4)[OF _ snapped])
  have "store_step ?st (fst (createTurn (se_clock env (sh_tick s)) (pt_create p) ?st))"
    by (rule step_createTurn) (simp_all add: pt(1) row id)
  then have ok2: "store_ok st" using store_step_ok ok1 st by fastforce
  obtain t' where t': "turn_at ?st' ?k = Some t'" "tr_snapshot t' = snap" "\<not> ended_well (tr_state t')"
  proof -
    obtain t' where "turn_at ?st' ?k = Some t'" "tr_snapshot t' = tr_snapshot (with_snapshot ?row snap)"
      "tr_state t' = tr_state (with_snapshot ?row snap) \<or> (\<exists>r tm mx. tr_state t' = Turn_cancelled r tm mx)"
      using spare[unfolded others_spare_def, rule_format, OF t] by blast
    then show thesis using that row(3) by (auto simp: with_snapshot_def turn_row.defs)
  qed
  have names: "tr_session_id (ts_turn h) = sr_session_id (sh_session s)" "tr_turn_id (ts_turn h) = sti_turn_id inp"
    "tr_state (ts_turn h) = Turn_running"
    using row by (simp_all add: h(2) sn with_snapshot_def turn_row.defs)
  have "store_ok ?st'" using kept_steps_ok[OF steps ok2] .
  then have "stream_ready h" using h names colon t'(1) by (simp add: stream_ready_def)
  moreover have "fit (stream_origin h) (orc_view (pt_orchestrator p)) h"
    using t' rec by (auto simp: fit_def stream_origin_def names h(1))
  ultimately show ?thesis using names h(3) pt(3) by (simp add: ready_turn_def)
qed

end
