(* ===== verification/Session_Handle_Props.thy ===== *)
theory Session_Handle_Props
  imports Session_Commit Turn_Handle_Props
begin

text \<open>
  What the handle of a session and the collection of sessions promise. The session at the start, whose second turn
  goes on from the first, instantiates the theorems.
\<close>

section \<open>A concrete session\<close>

definition demo_spec :: agent_spec where
  "demo_spec =
     \<lparr>as_model_name = ''m'', as_model_params = None, as_instructions = None, as_messages = None, as_mcp_servers = None,
      as_response_format = None,
      as_config = \<lparr>rc_iteration_limit = 5, rc_sandbox = False, rc_dynamic_sub_agents = True, rc_compaction = False,
        rc_compaction_trigger = None, rc_large_tool_response = False, rc_generative_ui = False,
        rc_ask_user_questions = False, rc_web_search = False\<rparr>\<rparr>"

definition demo_definition :: resolved_definition where
  "demo_definition =
     \<lparr>rdf_definition = \<lparr>df_model_name = ''m'', df_context_length = None, df_instruction = None, df_messages = None,
        df_model_params = None, df_response_format = None, df_iteration_limit = Some 5, df_tool_sets = Some []\<rparr>,
      rdf_extra_capabilities = None\<rparr>"

definition demo_session_env :: session_env where
  "demo_session_env =
     \<lparr>se_now = (\<lambda>n. 2000 + int n),
      se_lib = \<lparr>iso_text = (\<lambda>n. ''now''), iso_time = (\<lambda>s. None), iso_valid = (\<lambda>s. True)\<rparr>,
      se_id = (\<lambda>n. CHR ''f'' # replicate n (CHR ''x'')), se_clock = (\<lambda>n. demo_clock), se_rival = (\<lambda>n s. s),
      se_read_spec = (\<lambda>j. demo_spec), se_spec = (\<lambda>n i. Inr demo_spec), se_sandbox = (\<lambda>n sp i t. Inr False),
      se_code_mode = (\<lambda>n rs. Inr ()), se_definition = (\<lambda>n sp i t. Inr demo_definition), se_first_failure = (\<lambda>n. 0),
      se_tool_sets = [], se_web_search_provider = False, se_prompt = (\<lambda>d p b cs. (None, 0)),
      se_orchestrator = demo_orc_env\<rparr>"

definition demo_record :: session_record where
  "demo_record = the (getSession ''acme'' ''s1'' demo_store)"

definition demo_session_handle :: session_handle where
  "demo_session_handle = session_handle_of demo_store demo_record"

definition demo_input :: session_turn_input where
  "demo_input =
     \<lparr>sti_turn_id = ''t2'', sti_active_executor_id = ''e1'', sti_input = Some [Input_user (IText ''and now?'')],
      sti_previous_turn_id = None, sti_custom = No_custom, sti_title = None\<rparr>"

text \<open>A turn whose only thread is the main one can be resumed.\<close>

lemma single_resumable:
  assumes "ats_thread_id th = ''main''" "ats_parent th = None" "ats_capability_state th = None"
  shows "resumable [(''main'', th)]"
proof -
  have sh: "(\<lambda>i. map_option thread_place (js_get [(''main'', th)] i)) = (\<lambda>i. if i = ''main'' then Some (thread_place th) else None)"
    by (auto simp: js_get_def fun_eq_iff)
  have "tree_ok (\<lambda>i. if i = ''main'' then Some (thread_place th) else None)"
    by (rule tree_okI[where rank = "\<lambda>i. 0"]) (use assms in \<open>auto simp: child_of_def thread_place_def split: if_splits\<close>)
  moreover have "answers_parent (ats_parent u) (ats_completion u) \<and> null_free (ats_capability_state u)"
    if "js_get [(''main'', th)] i = Some u" for i u
    using that assms by (auto simp: js_get_def null_free_def split: if_splits)
  ultimately show ?thesis unfolding resumable_def sh by blast
qed

definition demo_created :: "session_handle \<times> (raised + turn_handle)" where
  "demo_created = session_createTurn demo_session_env demo_input demo_session_handle"

lemma demo_created:
  obtains s h where "session_createTurn demo_session_env demo_input demo_session_handle = (s, Inr h)" "demo_created = (s, Inr h)"
    "sh_store s = ts_store h"
    "map_option (map (\<lambda>(i, th). (i, ats_context th)) \<circ> sn_threads \<circ> tr_snapshot) (turn_at (ts_store h) (turnKey ''s1'' ''t2'')) =
      Some [(''main'', [User_msg (UText ''hi''), User_msg (UText ''hello'')])]"
proof -
  have "(case demo_created of (s, Inr h) \<Rightarrow> sh_store s = ts_store h \<and> map_option (map (\<lambda>(i, th). (i, ats_context th)) \<circ> sn_threads \<circ> tr_snapshot) (turn_at (ts_store h) (turnKey ''s1'' ''t2'')) =
      Some [(''main'', [User_msg (UText ''hi''), User_msg (UText ''hello'')])] | _ \<Rightarrow> False)" by code_simp
  then show thesis using that by (auto simp: demo_created_def split: prod.splits sum.splits)
qed

lemma demo_session_names:
  "sh_store demo_session_handle = demo_store" "sr_session_id (sh_session demo_session_handle) = ''s1''"
  "resolvePreviousTurnId (sti_previous_turn_id demo_input) (map_option ltd_id (sr_last_turn_details (sh_session demo_session_handle))) =
     Some ''t1''"
  "se_rival demo_session_env = (\<lambda>n s. s)" "sti_turn_id demo_input = ''t2''"
proof -
  show "sh_store demo_session_handle = demo_store" by (simp add: demo_session_handle_def session_handle_of_def)
  show "sr_session_id (sh_session demo_session_handle) = ''s1''" by code_simp
  show "resolvePreviousTurnId (sti_previous_turn_id demo_input) (map_option ltd_id (sr_last_turn_details (sh_session demo_session_handle))) =
     Some ''t1''" by code_simp
qed (simp_all add: demo_session_env_def demo_input_def)

lemma demo_previous:
  assumes "turn_at demo_store (turnKey ''s1'' ''t1'') = Some t"
  shows "resumable (sn_threads (tr_snapshot t))"
proof -
  have "map_option (\<lambda>t. map (\<lambda>(i, th). (i, ats_thread_id th, ats_parent th, ats_capability_state th)) (sn_threads (tr_snapshot t)))
      (turn_at demo_store (turnKey ''s1'' ''t1'')) = Some [(''main'', ''main'', None, None)]" by code_simp
  then obtain th where "sn_threads (tr_snapshot t) = [(''main'', th)]" "ats_thread_id th = ''main''" "ats_parent th = None"
    "ats_capability_state th = None" using assms by auto
  then show ?thesis using single_resumable by simp
qed

section \<open>A new turn\<close>

text \<open>
  C4. A turn that \<open>createTurn\<close> returns is ready to run, whatever other handles do to the store between its calls. It is
  stored and does not run yet, its handle has not ended well and owns the resolver, its orchestrator is a
  well-formed tree of threads, and the stored row has for every live thread its context, its usage and its capability
  state: the appends collected from the send are what the send did to the threads built from the frozen previous turn.
\<close>

theorem created_turn_ready:
  assumes "store_ok (sh_store s)" and "colon_free (sr_session_id (sh_session s))"
    and "others_keep env" and "others_spare env (turnKey (sr_session_id (sh_session s)) (sti_turn_id inp))"
    and "resolvePreviousTurnId (sti_previous_turn_id inp) (map_option ltd_id (sr_last_turn_details (sh_session s))) = ptid"
    and "ptid \<noteq> Some ''''"
    and "\<forall>p t. ptid = Some p \<longrightarrow>
      turn_at (se_rival env (sh_tick s) (sh_store s)) (turnKey (sr_session_id (sh_session s)) p) = Some t \<longrightarrow>
      resumable (sn_threads (tr_snapshot t))"
    and "session_createTurn env inp s = (s', Inr h)"
  shows "stream_ready h \<and> \<not> ended_well (tr_state (ts_turn h)) \<and>
    tr_session_id (ts_turn h) = sr_session_id (sh_session s) \<and> tr_turn_id (ts_turn h) = sti_turn_id inp \<and>
    (\<exists>orc. ts_orchestrator h = Some orc \<and> orc_ok orc \<and> fit (stream_origin h) (orc_view orc) h)"
proof -
  obtain s1 previous where f: "freeze_previous env ptid s = (s1, Inr previous)"
    using assms(5,8) by (auto simp: session_createTurn_def Let_def split: prod.splits sum.splits)
  obtain custom where c: "custom_of (sti_custom inp) previous = Inr custom"
    using assms(5,8) f by (auto simp: session_createTurn_def Let_def split: sum.splits)
  have commit: "commit_turn env inp ptid previous custom s1 = (s', Inr h)"
    using assms(5,8) f c by (auto simp: session_createTurn_def Let_def split: prod.splits sum.splits)
  note s1 = freeze_freezes[OF f assms(1,2,3,6) assms(7)[rule_format]]
  have "colon_free (sr_session_id (sh_session s1))" "others_spare env (turnKey (sr_session_id (sh_session s1)) (sti_turn_id inp))"
    using s1 assms(2,4) by simp_all
  from commit_ready[OF commit conjunct1[OF s1] this(1) assms(3) this(2)] s1 show ?thesis
    by (simp add: ready_turn_def)
qed

lemma created_turn_ready_witness:
  "\<exists>s h orc. session_createTurn demo_session_env demo_input demo_session_handle = (s, Inr h) \<and> stream_ready h \<and>
     ts_orchestrator h = Some orc \<and> fit (stream_origin h) (orc_view orc) h \<and>
     map_option (map (\<lambda>(i, th). (i, ats_context th)) \<circ> sn_threads \<circ> tr_snapshot) (turn_at (ts_store h) (turnKey ''s1'' ''t2'')) =
       Some [(''main'', [User_msg (UText ''hi''), User_msg (UText ''hello'')])]"
proof -
  obtain s h where h: "session_createTurn demo_session_env demo_input demo_session_handle = (s, Inr h)"
    "map_option (map (\<lambda>(i, th). (i, ats_context th)) \<circ> sn_threads \<circ> tr_snapshot) (turn_at (ts_store h) (turnKey ''s1'' ''t2'')) =
      Some [(''main'', [User_msg (UText ''hi''), User_msg (UText ''hello'')])]" by (rule demo_created)
  have ok: "store_ok (sh_store demo_session_handle)" using demo_ok by (simp add: demo_session_names)
  have colon: "colon_free (sr_session_id (sh_session demo_session_handle))" by (simp add: demo_session_names colon_free_def)
  have keep: "others_keep demo_session_env" "others_spare demo_session_env k" for k
    by (auto simp: others_keep_def others_spare_def demo_session_names)
  have prev: "\<forall>p t. Some ''t1'' = Some p \<longrightarrow>
    turn_at (se_rival demo_session_env (sh_tick demo_session_handle) (sh_store demo_session_handle))
      (turnKey (sr_session_id (sh_session demo_session_handle)) p) = Some t \<longrightarrow> resumable (sn_threads (tr_snapshot t))"
    using demo_previous by (simp add: demo_session_names)
  show ?thesis using created_turn_ready[OF ok colon keep demo_session_names(3) _ prev h(1)] h by auto
qed

text \<open>
  C5. What a turn runs on is well formed. The threads built from a resumable turn are a tree with one root, and the
  world the orchestrator gets is one in which it keeps that: a child that the factory of the session makes has the id
  and the parent it was asked for, is in the state a new thread is stored in, and takes no id of a thread that is there.
\<close>

theorem turn_threads_typed:
  assumes "turn_threads env agent previous n = Inr (s, oenv)"
    and "\<forall>t. previous = Some t \<longrightarrow> resumable (sn_threads (tr_snapshot t)) \<and> snapshot_ok (sn_threads (tr_snapshot t))"
    and "inj (oe_thread_id (se_orchestrator env))"
    and "\<forall>k. oe_thread_id (se_orchestrator env) k \<notin> insert '''' (set (threadIdsForCurrentTurn (map_option tr_snapshot previous)))"
  shows "batch_ok oenv [] [] s \<and> world_ok oenv \<and> world_blank oenv"
proof -
  obtain spec sandbox where w: "starts_well previous s" "oenv = orchestrator_env env previous spec sandbox"
    using turn_threads_well[OF assms(1)] assms(2) by blast
  have new: "ac_thread_id (th_config t) = tid \<and> ac_parent (th_config t) = Some p \<and> th_completion t = None \<and> thread_view t = fresh_view"
    if "oe_create oenv k c sets info tid p = Inr (t, refs)" for k c sets info tid p t refs
    using that by (auto simp: w(2) orchestrator_env_def makeCreateDynamicSubAgentThread_def Let_def bindE_Inr_iff
        new_agent_thread_def thread_view_def fresh_view_def claimCapabilityState_def)
  have ids: "oe_thread_id oenv = oe_thread_id (se_orchestrator env)" by (simp add: w(2) orchestrator_env_def)
  have "world_ok oenv" using new assms(3,4) by (auto simp: world_ok_def ids completion_addressed_def)
  moreover have "world_blank oenv" using new by (auto simp: world_blank_def)
  moreover have "unused oenv s tid" if "shape s tid \<noteq> None" for tid
  proof -
    have "rel_option context_stored (orc_view s tid) (js_get (starting_threads previous) tid)"
      using w(1) by (simp add: starts_well_def contexts_match_def)
    moreover have "orc_view s tid \<noteq> None" using that by (simp add: shape_def orc_view_def)
    ultimately have "js_get (starting_threads previous) tid \<noteq> None" by (cases "js_get (starting_threads previous) tid") auto
    then have "tid \<in> set (threadIdsForCurrentTurn (map_option tr_snapshot previous))"
      by (cases previous) (auto simp: starting_threads_def threadIdsForCurrentTurn_def js_get_def js_keys_def
          split: if_splits dest: map_of_SomeD intro: rev_image_eqI)
    then show ?thesis using assms(4) by (auto simp: unused_def ids)
  qed
  ultimately show ?thesis using w(1) by (simp add: batch_ok_def starts_well_def)
qed

lemma turn_threads_typed_witness:
  "\<exists>s oenv. turn_threads demo_session_env (Agent_reference ''a1'' None) (turn_at demo_store (turnKey ''s1'' ''t1'')) 0 = Inr (s, oenv) \<and>
     batch_ok oenv [] [] s \<and> world_ok oenv \<and> world_blank oenv \<and> js_keys (orc_threads s) = [''main'']"
proof -
  let ?prev = "turn_at demo_store (turnKey ''s1'' ''t1'')"
  have "(case turn_threads demo_session_env (Agent_reference ''a1'' None) ?prev 0 of
      Inr (s, oenv) \<Rightarrow> js_keys (orc_threads s) = [''main''] | _ \<Rightarrow> False)" by code_simp
  then obtain s oenv where r: "turn_threads demo_session_env (Agent_reference ''a1'' None) ?prev 0 = Inr (s, oenv)"
    "js_keys (orc_threads s) = [''main'']" by (auto split: sum.splits prod.splits)
  have prev: "\<forall>t. ?prev = Some t \<longrightarrow> resumable (sn_threads (tr_snapshot t)) \<and> snapshot_ok (sn_threads (tr_snapshot t))"
    using demo_previous store_okD(2)[OF demo_ok] by (auto simp: turn_ok_def threads_ok_def)
  have id: "oe_thread_id (se_orchestrator demo_session_env) = (\<lambda>n. replicate (Suc n) (CHR ''x''))"
    by (simp add: demo_session_env_def demo_orc_env_def)
  have inj: "inj (oe_thread_id (se_orchestrator demo_session_env))"
    unfolding id by (rule injI) (metis length_replicate nat.inject)
  have "threadIdsForCurrentTurn (map_option tr_snapshot ?prev) = [''main'']" by code_simp
  then have "\<forall>k. oe_thread_id (se_orchestrator demo_session_env) k \<notin> insert '''' (set (threadIdsForCurrentTurn (map_option tr_snapshot ?prev)))"
    by (simp add: id)
  from turn_threads_typed[OF r(1) prev inj this] r show ?thesis by blast
qed

section \<open>Failures\<close>

text \<open>Whether the body of the \<open>try\<close> block of \<open>createTurn\<close> is reached.\<close>

definition acquires :: "session_env \<Rightarrow> session_turn_input \<Rightarrow> session_handle \<Rightarrow> string option \<Rightarrow> bool" where
  "acquires env inp s ptid =
     (case snd (freeze_previous env ptid s) of Inl x \<Rightarrow> False
      | Inr previous \<Rightarrow> (case custom_of (sti_custom inp) previous of Inl x \<Rightarrow> False | Inr v \<Rightarrow> True))"

text \<open>
  Whenever \<open>createTurn\<close> throws, the store is the one after the freeze of the previous turn, with at most what others did
  to it since. The resolver is closed in the \<open>try\<close> block only: a freeze or a merge of the custom data that throws
  leaves it open.
\<close>

lemma createTurn_throws:
  assumes "session_createTurn env inp s = (s', Inl x)" and "sti_turn_id inp \<noteq> ''''"
    and "resolvePreviousTurnId (sti_previous_turn_id inp) (map_option ltd_id (sr_last_turn_details (sh_session s))) = ptid"
  shows "sh_session s' = sh_session s \<and>
    (\<exists>s1. s1 = fst (freeze_previous env ptid s) \<and>
       (sh_store s' = sh_store s1 \<or> acquires env inp s ptid \<and> sh_store s' = se_rival env (sh_tick s1) (sh_store s1))) \<and>
    sh_closes s' = sh_closes s + (if acquires env inp s ptid then 1 else 0)"
proof -
  obtain s1 r where f: "freeze_previous env ptid s = (s1, r)" by (cases "freeze_previous env ptid s")
  have same: "sh_session s1 = sh_session s \<and> sh_closes s1 = sh_closes s"
    using f by (auto simp: freeze_previous_def freezeTurn_def session_write_def split: option.splits if_splits prod.splits sum.splits)
  have commit: "sh_session s2 = sh_session s1 \<and> sh_closes s2 = sh_closes s1 \<and>
      (sh_store s2 = sh_store s1 \<or> sh_store s2 = se_rival env (sh_tick s1) (sh_store s1))"
    if c: "commit_turn env inp ptid previous custom s1 = (s2, Inl y)" for previous custom s2 y
  proof (cases "prepare_turn env (sh_session s1) inp ptid previous custom (sh_tick s1)")
    case (Inr p)
    have "tr_turn_id (cti_turn (pt_create p)) = sti_turn_id inp"
      using Inr by (auto simp: prepare_turn_def bindE_Inr_iff Let_def turn_init_def)
    then have "tr_turn_id (cti_turn (pt_create p)) \<noteq> ''''" using assms(2) by simp
    note out = createTurn_result[OF this, of "se_clock env (sh_tick s1)" "se_rival env (sh_tick s1) (sh_store s1)"]
    show ?thesis
    proof (cases "createTurn_checks (pt_create p) (se_rival env (sh_tick s1) (sh_store s1))")
      case (Inl e)
      then show ?thesis using c Inr out by (auto simp: commit_turn_def session_write_def)
    next
      case (Inr q)
      then show ?thesis using c \<open>prepare_turn _ _ _ _ _ _ _ = Inr p\<close> out
        by (cases q) (simp add: commit_turn_def session_write_def Let_def)
    qed
  qed (use c in \<open>auto simp: commit_turn_def\<close>)
  show ?thesis
  proof (cases r)
    case (Inl e)
    then show ?thesis using assms(1,3) f same by (auto simp: session_createTurn_def acquires_def)
  next
    case (Inr previous)
    show ?thesis
    proof (cases "custom_of (sti_custom inp) previous")
      case (Inl e)
      then show ?thesis using assms(1,3) f same Inr by (auto simp: session_createTurn_def acquires_def)
    next
      case custom: (Inr custom)
      obtain s2 y where "commit_turn env inp ptid previous custom s1 = (s2, Inl y)" "s' = s2\<lparr>sh_closes := Suc (sh_closes s2)\<rparr>"
        using assms(1,3) f Inr custom by (auto simp: session_createTurn_def Let_def split: prod.splits sum.splits)
      then show ?thesis using commit[of previous custom s2 y] same f Inr custom by (auto simp: acquires_def)
    qed
  qed
qed

text \<open>
  C6. A \<open>createTurn\<close> that throws once its previous turn is frozen and its custom data merged, so from the first step that
  acquires anything, undoes what it did: the resolver is closed, exactly once; the session record is the old one; and
  no turn is stored, the store is the one after the freeze, with at most what others did to it since.
\<close>

theorem createTurn_failure:
  assumes "session_createTurn env inp s = (s', Inl x)" and "sti_turn_id inp \<noteq> ''''"
    and "resolvePreviousTurnId (sti_previous_turn_id inp) (map_option ltd_id (sr_last_turn_details (sh_session s))) = ptid"
    and "acquires env inp s ptid"
  shows "sh_closes s' = Suc (sh_closes s) \<and> sh_session s' = sh_session s \<and>
    (let s1 = fst (freeze_previous env ptid s) in
       sh_store s' \<in> {sh_store s1, se_rival env (sh_tick s1) (sh_store s1)})"
  using createTurn_throws[OF assms(1-3)] assms(4) by (auto simp: Let_def)

definition demo_mixed :: session_turn_input where
  "demo_mixed = demo_input\<lparr>sti_input := Some [Input_user (IText ''and now?''),
     Input_approval \<lparr>uta_thread_id = ''main'', uta_tool_call_id = ''a'', uta_approval = Approval_allow\<rparr>]\<rparr>"

lemma createTurn_failure_witness:
  "\<exists>s x. session_createTurn demo_session_env demo_mixed demo_session_handle = (s, Inl x) \<and>
     sh_session s = sh_session demo_session_handle \<and> sh_closes s = 1 \<and> turn_at (sh_store s) (turnKey ''s1'' ''t2'') = None \<and>
     map_option tr_state (turn_at (sh_store s) (turnKey ''s1'' ''t1'')) = Some (Turn_cancelled Cancelled_for_next_turn (to_iso 1000) None)"
proof -
  let ?run = "session_createTurn demo_session_env demo_mixed demo_session_handle"
  have "(case ?run of (s, r) \<Rightarrow> isl r \<and> turn_at (sh_store s) (turnKey ''s1'' ''t2'') = None \<and>
      map_option tr_state (turn_at (sh_store s) (turnKey ''s1'' ''t1'')) = Some (Turn_cancelled Cancelled_for_next_turn (to_iso 1000) None) \<and>
      acquires demo_session_env demo_mixed demo_session_handle (Some ''t1''))" by code_simp
  then obtain s x where r: "?run = (s, Inl x)" "turn_at (sh_store s) (turnKey ''s1'' ''t2'') = None"
    "map_option tr_state (turn_at (sh_store s) (turnKey ''s1'' ''t1'')) = Some (Turn_cancelled Cancelled_for_next_turn (to_iso 1000) None)"
    "acquires demo_session_env demo_mixed demo_session_handle (Some ''t1'')"
    by (cases ?run) (auto simp: isl_def)
  have id: "sti_turn_id demo_mixed \<noteq> ''''" and prev: "sti_previous_turn_id demo_input = sti_previous_turn_id demo_mixed"
    by (simp_all add: demo_mixed_def demo_input_def)
  have "sh_closes demo_session_handle = 0" by (simp add: demo_session_handle_def session_handle_of_def)
  then show ?thesis using createTurn_failure[OF r(1) id demo_session_names(3)[unfolded prev] r(4)] r by auto
qed

section \<open>Input and lineage\<close>

text \<open>
  The input of a turn is sent as it is, in its order, exactly when it is homogeneous: all user messages, or no user
  message at all; an empty or missing input sends nothing and is accepted.
\<close>

theorem send_batch_iff:
  "toSendBatch input = Inr batch \<longleftrightarrow>
     batch = map send_item (case input of None \<Rightarrow> [] | Some items \<Rightarrow> items) \<and>
     (list_all isInputUserMessage batch \<or> list_all (\<lambda>m. \<not> isInputUserMessage m) batch)"
proof -
  have other: "isApprovalDecisionMessage (send_item x) \<or> isClientSideToolResponseMessage (send_item x) \<longleftrightarrow>
      \<not> isInputUserMessage (send_item x)" for x
    by (cases x) simp_all
  show ?thesis by (cases input) (auto simp: toSendBatch_def Let_def list.pred_map o_def other)
qed

text \<open>
  The lineage of a new turn. It keeps the first turn of its previous turn, its ancestors are those of the previous
  turn and then that turn, of which the last twenty are kept in their order; a turn without a previous one starts a lineage.
\<close>

theorem turn_lineage:
  assumes "commit_turn env inp ptid previous custom s = (s', Inr h)"
  shows "length (tr_ancestor_ids (ts_turn h)) \<le> 20 \<and> tr_previous_turn_id (ts_turn h) = ptid \<and>
    (case previous of
       None \<Rightarrow> tr_ancestor_ids (ts_turn h) = [] \<and> tr_first_turn_id (ts_turn h) = sti_turn_id inp
     | Some t \<Rightarrow> tr_first_turn_id (ts_turn h) = tr_first_turn_id t \<and> last (tr_ancestor_ids (ts_turn h)) = tr_turn_id t \<and>
         (\<exists>older. tr_ancestor_ids t @ [tr_turn_id t] = older @ tr_ancestor_ids (ts_turn h) \<and>
            (older \<noteq> [] \<longrightarrow> length (tr_ancestor_ids (ts_turn h)) = 20)))"
proof -
  obtain p where p: "prepare_turn env (sh_session s) inp ptid previous custom (sh_tick s) = Inr p" "ts_turn h = pt_record p"
    using assms by (auto simp: commit_turn_def Let_def split: sum.splits prod.splits)
  obtain sn where "pt_record p = with_snapshot (turn_init inp (sr_session_id (sh_session s)) previous ptid custom (se_now env (sh_tick s))) sn"
    using p(1) by (auto simp: prepare_turn_def bindE_Inr_iff Let_def)
  then have t: "tr_ancestor_ids (ts_turn h) = (case previous of Some t \<Rightarrow> last_ancestors (tr_ancestor_ids t @ [tr_turn_id t]) | None \<Rightarrow> [])"
    "tr_first_turn_id (ts_turn h) = (case previous of Some t \<Rightarrow> tr_first_turn_id t | None \<Rightarrow> sti_turn_id inp)"
    "tr_previous_turn_id (ts_turn h) = ptid"
    by (simp_all add: p(2) with_snapshot_def turn_row.defs turn_init_def)
  have "\<exists>older. ids = older @ last_ancestors ids \<and> (older \<noteq> [] \<longrightarrow> length (last_ancestors ids) = 20)" for ids
    by (rule exI[of _ "take (length ids - 20) ids"]) (auto simp: last_ancestors_def MAX_TURN_ANCESTORS_def)
  moreover have "last (last_ancestors (ids @ [i])) = i" for ids i
    by (simp add: last_ancestors_def MAX_TURN_ANCESTORS_def)
  moreover have "length (last_ancestors ids) \<le> 20" for ids by (simp add: last_ancestors_def MAX_TURN_ANCESTORS_def)
  ultimately show ?thesis using t by (auto split: option.split)
qed

section \<open>Sessions by external id\<close>

text \<open>
  \<open>getOrCreateByExternalId\<close> gives the one session of an external id. When it returns a session, that session has
  the tenant and the external id; and as long as others do not delete such a session, losing the race to create it
  is no error: the conflict is answered with the session that won.
\<close>

theorem external_id_session:
  assumes "getOrCreateByExternalId rival clock ulid inp ext s = (s', r)"
    and "\<forall>n st. getSessionByExternalId (csi_tenant_id inp) ext st \<noteq> None \<longrightarrow>
      getSessionByExternalId (csi_tenant_id inp) ext (rival n st) \<noteq> None"
  shows "(\<forall>h b. r = Inr (h, b) \<longrightarrow> sr_tenant_id (sh_session h) = csi_tenant_id inp \<and>
      (b \<or> sr_external_id (sh_session h) = Some ext)) \<and>
    (\<forall>e. r \<noteq> Inl (Raised_by_store (Session_external_id_conflict e)))"
proof -
  let ?inp = "inp\<lparr>csi_session_id := lower_case (ulid (Suc (sc_tick s))), csi_external_id := Some ext\<rparr>"
  have found: "sr_tenant_id (sh_session h) = csi_tenant_id inp \<and> sr_external_id (sh_session h) = Some ext"
    if "sessions_getByExternalId rival (csi_tenant_id inp) ext t = (t', Some h)" for t t' h
    using that by (auto simp: sessions_getByExternalId_def Let_def getSessionByExternalId_def session_handle_of_def find_Some_iff)
  have made: "sr_tenant_id (sh_session h) = csi_tenant_id inp" if "sessions_create rival clock ?inp t = (t', Inr h)" for t t' h
    using that by (auto simp: sessions_create_def Let_def getSession_def session_handle_of_def
        split: prod.splits sum.splits option.splits if_splits)
  have lost: "getSessionByExternalId (csi_tenant_id inp) ext (sc_store t') \<noteq> None"
    if "sessions_create rival clock ?inp t = (t', Inl (Raised_by_store (Session_external_id_conflict e)))" for t t' e
  proof -
    have "createSession (clock (sc_tick t)) ?inp (rival (sc_tick t) (sc_store t)) = (sc_store t', Inl (Session_external_id_conflict e))"
      using that by (auto simp: sessions_create_def sessions_step_def Let_def split: prod.splits sum.splits option.splits)
    then show ?thesis
      by (auto simp: createSession_def Let_def getSessionByExternalId_def find_None_iff list_ex_iff split: if_splits)
  qed
  obtain s1 existing where g: "sessions_getByExternalId rival (csi_tenant_id inp) ext s = (s1, existing)"
    by (cases "sessions_getByExternalId rival (csi_tenant_id inp) ext s")
  have tick: "sc_tick s1 = Suc (sc_tick s)" using g by (auto simp: sessions_getByExternalId_def sessions_step_def Let_def)
  show ?thesis
  proof (cases existing)
    case (Some h)
    then show ?thesis using assms(1) g found[of s s1 h] by (auto simp: getOrCreateByExternalId_def)
  next
    case None
    obtain s2 out where c: "sessions_create rival clock ?inp s1 = (s2, out)" by (cases "sessions_create rival clock ?inp s1")
    show ?thesis
    proof (cases "\<exists>e. out = Inl (Raised_by_store (Session_external_id_conflict e))")
      case True
      then obtain e where e: "out = Inl (Raised_by_store (Session_external_id_conflict e))" by blast
      have "getSessionByExternalId (csi_tenant_id inp) ext (rival (sc_tick s2) (sc_store s2)) \<noteq> None"
        using lost[OF c[unfolded e]] assms(2) by blast
      then obtain s3 h where "sessions_getByExternalId rival (csi_tenant_id inp) ext s2 = (s3, Some h)"
        by (auto simp: sessions_getByExternalId_def sessions_step_def Let_def)
      then show ?thesis using assms(1) g None c[unfolded e] found[of s2 s3 h] by (auto simp: getOrCreateByExternalId_def tick)
    next
      case False
      then show ?thesis using assms(1) g None c made[of s1 s2]
        by (auto simp: getOrCreateByExternalId_def tick split: sum.splits raised.splits store_error.splits)
    qed
  qed
qed

text \<open>Another caller creates the session between the lookup and the insertion.\<close>

definition demo_race :: "nat \<Rightarrow> store \<Rightarrow> store" where
  "demo_race n st = (if n = 1 then fst (createSession demo_clock demo_session st) else st)"

lemma demo_race_keeps:
  "\<forall>n st. getSessionByExternalId ''acme'' ''ext'' st \<noteq> None \<longrightarrow> getSessionByExternalId ''acme'' ''ext'' (demo_race n st) \<noteq> None"
proof (intro allI impI)
  fix n st
  assume "getSessionByExternalId ''acme'' ''ext'' st \<noteq> None"
  then have "list_ex (\<lambda>ss. sr_tenant_id (ss_record ss) = ''acme'' \<and> sr_external_id (ss_record ss) = Some ''ext'') (js_values (st_sessions st))"
    by (auto simp: getSessionByExternalId_def find_None_iff list_ex_iff)
  then have "fst (createSession demo_clock demo_session st) = st" by (simp add: createSession_def demo_session_def)
  then show "getSessionByExternalId ''acme'' ''ext'' (demo_race n st) \<noteq> None"
    using \<open>getSessionByExternalId ''acme'' ''ext'' st \<noteq> None\<close> by (simp add: demo_race_def)
qed

lemma external_id_session_witness:
  "\<exists>s h. getOrCreateByExternalId demo_race (\<lambda>n. demo_clock) (\<lambda>n. ''01ABC'') demo_session ''ext'' \<lparr>sc_store = empty_store, sc_tick = 0\<rparr> =
      (s, Inr (h, False)) \<and> sr_external_id (sh_session h) = Some ''ext'' \<and> sr_session_id (sh_session h) = ''s1''"
proof -
  let ?run = "getOrCreateByExternalId demo_race (\<lambda>n. demo_clock) (\<lambda>n. ''01ABC'') demo_session ''ext'' \<lparr>sc_store = empty_store, sc_tick = 0\<rparr>"
  have "(case ?run of (s, Inr (h, b)) \<Rightarrow> \<not> b \<and> sr_session_id (sh_session h) = ''s1'' | _ \<Rightarrow> False)" by code_simp
  then obtain s h where r: "?run = (s, Inr (h, False))" "sr_session_id (sh_session h) = ''s1''"
    by (auto split: prod.splits sum.splits)
  have "csi_tenant_id demo_session = ''acme''" by (simp add: demo_session_def)
  then show ?thesis using external_id_session[OF r(1)] demo_race_keeps r by auto
qed

lemma turn_lineage_witness:
  "\<exists>s h. commit_turn demo_session_env demo_input (Some ''t1'') (turn_at demo_finished (turnKey ''s1'' ''t1'')) None
      (session_handle_of demo_finished demo_record) = (s, Inr h) \<and>
    tr_ancestor_ids (ts_turn h) = [''t1''] \<and> tr_previous_turn_id (ts_turn h) = Some ''t1''"
proof -
  let ?run = "commit_turn demo_session_env demo_input (Some ''t1'') (turn_at demo_finished (turnKey ''s1'' ''t1'')) None
      (session_handle_of demo_finished demo_record)"
  have "(case ?run of (s, Inr h) \<Rightarrow> tr_ancestor_ids (ts_turn h) = [''t1''] | _ \<Rightarrow> False)" by code_simp
  then obtain s h where r: "?run = (s, Inr h)" "tr_ancestor_ids (ts_turn h) = [''t1'']"
    by (auto split: prod.splits sum.splits)
  then show ?thesis using turn_lineage[OF r(1)] by auto
qed

end
