(* ===== verification/Ip_Address.thy ===== *)
theory Ip_Address
  imports JS_Prelude "HOL-Library.Word"
begin

unbundle bit_operations_syntax

text \<open>
  What \<open>core/util/ssrfGuard.ts\<close> uses of \<open>node:net\<close>: the addresses \<open>isIP\<close> accepts and the \<open>BlockList\<close>. An address
  is a word; a blocked range is a base and a prefix length. As documented, a \<open>BlockList\<close> checks an IPv4 address and
  its IPv6 notation \<open>::ffff:a.b.c.d\<close> alike, so ranges and addresses of both families are compared as 128-bit words.
\<close>

section \<open>Text\<close>

fun split_at_char :: "char \<Rightarrow> string \<Rightarrow> string list" where
  "split_at_char c [] = [[]]"
| "split_at_char c (x # xs) =
     (if x = c then [] # split_at_char c xs
      else case split_at_char c xs of [] \<Rightarrow> [[x]] | p # ps \<Rightarrow> (x # p) # ps)"

lemma split_nonempty: "split_at_char c s \<noteq> []"
  by (cases s) (auto split: list.split)

fun find_double_colon :: "string \<Rightarrow> (string \<times> string) option" where
  "find_double_colon (x # y # zs) =
     (if x = CHR '':'' \<and> y = CHR '':'' then Some ([], zs)
      else map_option (\<lambda>(l, r). (x # l, r)) (find_double_colon (y # zs)))"
| "find_double_colon s = None"

definition digit_value :: "char \<Rightarrow> int option" where
  "digit_value c = (let n = of_char c :: int in
     if 48 \<le> n \<and> n \<le> 57 then Some (n - 48)
     else if 97 \<le> n \<and> n \<le> 102 then Some (n - 87)
     else if 65 \<le> n \<and> n \<le> 70 then Some (n - 55) else None)"

fun number_value :: "int \<Rightarrow> string \<Rightarrow> int \<Rightarrow> int option" where
  "number_value base [] n = Some n"
| "number_value base (c # cs) n =
     (case digit_value c of None \<Rightarrow> None
      | Some d \<Rightarrow> if d < base then number_value base cs (n * base + d) else None)"

section \<open>Addresses\<close>

datatype ip_address = Ipv4 "32 word" | Ipv6 "128 word"

text \<open>A part of a dotted address: at most three digits, no leading zero, at most 255.\<close>

definition octet :: "string \<Rightarrow> int option" where
  "octet s =
     (if s = [] \<or> length s > 3 \<or> (length s > 1 \<and> hd s = CHR ''0'') then None
      else case number_value 10 s 0 of None \<Rightarrow> None | Some n \<Rightarrow> if n < 256 then Some n else None)"

definition parse_ipv4 :: "string \<Rightarrow> int option" where
  "parse_ipv4 s =
     (case map octet (split_at_char (CHR ''.'') s) of
        [Some a, Some b, Some c, Some d] \<Rightarrow> Some (((a * 256 + b) * 256 + c) * 256 + d)
      | _ \<Rightarrow> None)"

definition hextet :: "string \<Rightarrow> int option" where
  "hextet s = (if s = [] \<or> length s > 4 then None else number_value 16 s 0)"

text \<open>The groups between the colons; the last one of the address may be a dotted one, which counts as two.\<close>

fun hextets :: "bool \<Rightarrow> string list \<Rightarrow> int list option" where
  "hextets dotted [] = Some []"
| "hextets dotted (p # ps) =
     (case hextet p of
        Some n \<Rightarrow> map_option (\<lambda>ns. n # ns) (hextets dotted ps)
      | None \<Rightarrow>
          if dotted \<and> ps = []
          then (case parse_ipv4 p of None \<Rightarrow> None | Some v \<Rightarrow> Some [v div 65536, v mod 65536])
          else None)"

definition hextets_of :: "bool \<Rightarrow> string \<Rightarrow> int list option" where
  "hextets_of dotted s = (if s = [] then Some [] else hextets dotted (split_at_char (CHR '':'') s))"

definition join_hextets :: "int list \<Rightarrow> int" where
  "join_hextets ns = foldl (\<lambda>a n. a * 65536 + n) 0 ns"

text \<open>A zone after a percent sign is not part of the address.\<close>

definition zone_char :: "char \<Rightarrow> bool" where
  "zone_char c = (let n = of_char c :: int in (48 \<le> n \<and> n \<le> 57) \<or> (65 \<le> n \<and> n \<le> 90) \<or> (97 \<le> n \<and> n \<le> 122) \<or>
     c \<in> {CHR ''-'', CHR ''.'', CHR '':''})"

definition without_zone :: "string \<Rightarrow> string option" where
  "without_zone s =
     (case dropWhile (\<lambda>c. c \<noteq> CHR ''%'') s of
        [] \<Rightarrow> Some s
      | x # zone \<Rightarrow> if zone \<noteq> [] \<and> list_all zone_char zone then Some (takeWhile (\<lambda>c. c \<noteq> CHR ''%'') s) else None)"

definition parse_groups :: "string \<Rightarrow> int option" where
  "parse_groups s =
     (case find_double_colon s of
        None \<Rightarrow> (case hextets_of True s of Some ns \<Rightarrow> if length ns = 8 then Some (join_hextets ns) else None | None \<Rightarrow> None)
      | Some (l, r) \<Rightarrow>
          (case (hextets_of False l, hextets_of True r) of
             (Some ls, Some rs) \<Rightarrow>
               if length ls + length rs \<le> 7
               then Some (join_hextets (ls @ replicate (8 - length ls - length rs) 0 @ rs)) else None
           | _ \<Rightarrow> None))"

definition parse_ipv6 :: "string \<Rightarrow> int option" where
  "parse_ipv6 s = Option.bind (without_zone s) parse_groups"

definition parse_ip :: "string \<Rightarrow> ip_address option" where
  "parse_ip s =
     (case parse_ipv4 s of
        Some n \<Rightarrow> Some (Ipv4 (word_of_int n))
      | None \<Rightarrow> map_option (\<lambda>n. Ipv6 (word_of_int n)) (parse_ipv6 s))"

text \<open>\<open>isIP\<close>: 4, 6, or 0.\<close>

definition isIP :: "string \<Rightarrow> nat" where
  "isIP s = (case parse_ip s of None \<Rightarrow> 0 | Some (Ipv4 w) \<Rightarrow> 4 | Some (Ipv6 w) \<Rightarrow> 6)"

section \<open>Block lists\<close>

text \<open>The IPv6 notation of an IPv4 address.\<close>

fun ip_word :: "ip_address \<Rightarrow> 128 word" where
  "ip_word (Ipv4 w) = 0xFFFF00000000 OR ucast w"
| "ip_word (Ipv6 w) = w"

type_synonym block_rule = "128 word \<times> nat"

definition in_subnet :: "block_rule \<Rightarrow> 128 word \<Rightarrow> bool" where
  "in_subnet rule w = (case rule of (base, len) \<Rightarrow> drop_bit (128 - len) w = drop_bit (128 - len) base)"

definition subnet_rule :: "ip_address \<Rightarrow> nat \<Rightarrow> block_rule" where
  "subnet_rule net len = (ip_word net, case net of Ipv4 w \<Rightarrow> 96 + len | Ipv6 w \<Rightarrow> len)"

definition check_block :: "block_rule list \<Rightarrow> ip_address \<Rightarrow> bool" where
  "check_block rules a = list_ex (\<lambda>r. in_subnet r (ip_word a)) rules"

section \<open>Prefixes are intervals\<close>

lemma in_subnet_interval:
  assumes "len \<le> 128"
  shows "in_subnet (base, len) w \<longleftrightarrow> unat base div 2 ^ (128 - len) = unat w div 2 ^ (128 - len)"
proof -
  have "unat (drop_bit (128 - len) x) = unat x div 2 ^ (128 - len)" for x :: "128 word"
    by (subst unat_drop_bit_eq) (rule drop_bit_eq_div)
  then show ?thesis unfolding in_subnet_def prod.case by (metis word_unat_eq_iff)
qed

end
