(* ===== verification/Outbound_Guard.thy ===== *)
theory Outbound_Guard
  imports Ip_Address
begin

text \<open>
  \<open>core/util/ssrfGuard.ts\<close> and \<open>core/util/outboundFetch.ts\<close>: the guard of outbound requests, which decides which hosts
  and addresses may be contacted, follows redirects itself and retries.

  The policy, module variables of the code, is an argument. The rest of the world is \<open>net_env\<close>: the URL parser, DNS, one request of
  \<open>undici\<close>, the abort signal, the random numbers and the readers of numbers and dates in headers; the number of an interaction
  indexes its answer. Header names are lower case, as \<open>Headers\<close> keeps them. Metrics change no result.
\<close>

section \<open>Errors\<close>

text \<open>An error with its chain of causes, the error first; an error that is not an \<open>Error\<close> has no cause.\<close>

record error_link =
  el_blocked :: bool
  el_code :: "string option"
  el_message :: string

type_synonym fetch_error = "error_link list"

definition OUTBOUND_URL_BLOCKED :: string where "OUTBOUND_URL_BLOCKED = ''Outbound URL blocked''"

definition OutboundUrlBlockedError :: "string \<Rightarrow> fetch_error \<Rightarrow> fetch_error" where
  "OutboundUrlBlockedError message cause = \<lparr>el_blocked = True, el_code = None, el_message = message\<rparr> # cause"

definition blockedError :: "string \<Rightarrow> fetch_error \<Rightarrow> fetch_error" where
  "blockedError host cause =
     OutboundUrlBlockedError (OUTBOUND_URL_BLOCKED @ '' for host '' @ CHR 0x22 # host @ [CHR 0x22]) cause"

section \<open>Hosts and addresses\<close>

definition allowedProtocols :: "string list" where "allowedProtocols = [''http:'', ''https:'']"

definition denyCidrsV4 :: "string list" where
  "denyCidrsV4 =
     [''0.0.0.0/8'', ''10.0.0.0/8'', ''100.64.0.0/10'', ''127.0.0.0/8'', ''169.254.0.0/16'', ''172.16.0.0/12'',
      ''192.0.0.0/24'', ''192.0.2.0/24'', ''192.88.99.0/24'', ''192.168.0.0/16'', ''198.18.0.0/15'',
      ''198.51.100.0/24'', ''203.0.113.0/24'', ''224.0.0.0/4'', ''240.0.0.0/4'']"

definition denyCidrsV6 :: "string list" where
  "denyCidrsV6 =
     [''::/96'', ''64:ff9b::/96'', ''64:ff9b:1::/48'', ''100::/64'', ''2001::/32'', ''2001:10::/28'', ''2001:20::/28'',
      ''2001:db8::/32'', ''2002::/16'', ''fc00::/7'', ''fe80::/10'', ''ff00::/8'']"

definition denyHostSuffixes :: "string list" where
  "denyHostSuffixes =
     [''.local'', ''.localhost'', ''.localdomain'', ''.internal'', ''.svc'', ''.cluster'', ''.arpa'', ''.lan'',
      ''.intranet'', ''.corp'', ''.home'', ''.test'', ''.invalid'', ''.example'']"

text \<open>\<open>addSubnet\<close> throws on an address or a prefix it cannot read; none of the lists has one.\<close>

definition addDenyCidrs :: "string list \<Rightarrow> block_rule list \<Rightarrow> block_rule list option" where
  "addDenyCidrs cidrs rules =
     fold (\<lambda>cidr acc. Option.bind acc (\<lambda>rs.
       let len = takeWhile (\<lambda>c. c \<noteq> CHR ''/'') (rev cidr); net = rev (tl (dropWhile (\<lambda>c. c \<noteq> CHR ''/'') (rev cidr)))
       in Option.bind (parse_ip net) (\<lambda>a. map_option (\<lambda>n. rs @ [subnet_rule a (nat n)]) (number_value 10 (rev len) 0))))
     cidrs (Some rules)"

definition privateNets :: "block_rule list" where
  "privateNets = the (Option.bind (addDenyCidrs denyCidrsV4 []) (addDenyCidrs denyCidrsV6))"

definition normalizeHost :: "string \<Rightarrow> string" where
  "normalizeHost hostname =
     (let h = lower_case (if hostname \<noteq> [] \<and> last hostname = CHR ''.'' then butlast hostname else hostname)
      in if h \<noteq> [] \<and> hd h = CHR ''['' \<and> last h = CHR '']'' then butlast (tl h) else h)"

definition strip_mapped :: "string \<Rightarrow> string" where
  "strip_mapped a = (if lower_case (take 7 a) = ''::ffff:'' then drop 7 a else a)"

definition isPrivateIp :: "string \<Rightarrow> bool" where
  "isPrivateIp a = (case parse_ip (strip_mapped a) of Some ip \<Rightarrow> check_block privateNets ip | None \<Rightarrow> True)"

record guard_policy =
  gp_enabled :: bool
  gp_allowed :: "string list"
  gp_blocked :: "string list"

definition configureOutboundUrlGuard :: "bool option \<Rightarrow> string list \<Rightarrow> string list \<Rightarrow> guard_policy" where
  "configureOutboundUrlGuard enabled allowed blocked =
     \<lparr>gp_enabled = (case enabled of None \<Rightarrow> True | Some b \<Rightarrow> b),
      gp_allowed = map normalizeHost allowed, gp_blocked = map normalizeHost blocked\<rparr>"

definition ends_with :: "string \<Rightarrow> string \<Rightarrow> bool" where
  "ends_with s suffix = (take (length suffix) (rev s) = rev suffix)"

definition assertHost :: "guard_policy \<Rightarrow> string \<Rightarrow> fetch_error + unit" where
  "assertHost pol host =
     (if host = '''' \<or> host \<in> set (gp_blocked pol) then Inl (blockedError host [])
      else if host \<in> set (gp_allowed pol) then Inr ()
      else if isIP host = 0
      then if CHR ''.'' \<notin> set host \<or> list_ex (ends_with host) denyHostSuffixes then Inl (blockedError host []) else Inr ()
      else if isPrivateIp host then Inl (blockedError host []) else Inr ())"

section \<open>Name resolution\<close>

text \<open>The lookup of a socket; \<open>dns host all\<close> is the one of the system, which gives one address if \<open>all\<close> is not set.\<close>

definition guardedLookup ::
    "guard_policy \<Rightarrow> (string \<Rightarrow> bool \<Rightarrow> fetch_error + string list) \<Rightarrow> string \<Rightarrow> bool \<Rightarrow> fetch_error + string list" where
  "guardedLookup pol dns hostname wants_all =
     (if \<not> gp_enabled pol then dns hostname wants_all
      else let host = normalizeHost hostname in
        bindE (assertHost pol host) (\<lambda>_.
          if host \<in> set (gp_allowed pol) \<or> isIP host \<noteq> 0 then dns hostname wants_all
          else bindE (dns hostname True) (\<lambda>addresses.
            case addresses of
              [] \<Rightarrow> Inl (blockedError host [])
            | first # rest \<Rightarrow>
                if list_ex isPrivateIp addresses then Inl (blockedError host [])
                else if wants_all then Inr addresses else Inr [first])))"

section \<open>Requests\<close>

record url =
  url_href :: string
  url_protocol :: string
  url_hostname :: string
  url_origin :: string

text \<open>A body that can be sent again, or a stream, which gives its content once.\<close>

datatype request_body = Replayable string | Stream_body "fetch_error + string"

record request_init =
  ri_method :: "string option"
  ri_headers :: "(string, string) js_map option"
  ri_body :: "request_body option"
  ri_redirect :: "string option"
  ri_signal :: bool

datatype outbound_input = Input_text string | Input_url url | Input_request url request_init

record response =
  rp_status :: nat
  rp_headers :: "(string, string) js_map"

record net_env =
  ne_url :: "string \<Rightarrow> url option \<Rightarrow> fetch_error + url"
  ne_dns :: "nat \<Rightarrow> string \<Rightarrow> bool \<Rightarrow> fetch_error + string list"
  ne_fetch :: "nat \<Rightarrow> url \<Rightarrow> request_init \<Rightarrow> fetch_error + response"
  ne_aborted :: "nat \<Rightarrow> fetch_error option"
  ne_random :: "nat \<Rightarrow> rat"
  ne_parse_float :: "string \<Rightarrow> rat option"
  ne_number :: "string \<Rightarrow> rat option"
  ne_until :: "nat \<Rightarrow> string \<Rightarrow> rat option"

text \<open>What a fetch has done: the requests it sent and the pauses it made.\<close>

record fetch_run =
  fr_tick :: nat
  fr_requests :: "(url \<times> request_init) list"
  fr_sleeps :: "rat list"

definition protocol_error :: fetch_error where
  "protocol_error = OutboundUrlBlockedError (OUTBOUND_URL_BLOCKED @ '': only http and https are allowed'') []"

definition checked_url :: "fetch_error + url \<Rightarrow> fetch_error + url" where
  "checked_url r =
     (case r of
        Inl cause \<Rightarrow> Inl (OutboundUrlBlockedError OUTBOUND_URL_BLOCKED cause)
      | Inr u \<Rightarrow> if url_protocol u \<in> set allowedProtocols then Inr u else Inl protocol_error)"

fun parseOutboundUrl :: "net_env \<Rightarrow> outbound_input \<Rightarrow> fetch_error + url" where
  "parseOutboundUrl env (Input_text s) = checked_url (ne_url env s None)"
| "parseOutboundUrl env (Input_url u) = checked_url (Inr u)"
| "parseOutboundUrl env (Input_request u r) = checked_url (Inr u)"

text \<open>An empty answer of DNS is not an error here.\<close>

definition assertSafeOutboundUrl ::
    "net_env \<Rightarrow> guard_policy \<Rightarrow> (string \<Rightarrow> bool \<Rightarrow> fetch_error + string list) \<Rightarrow> outbound_input \<Rightarrow> fetch_error + unit" where
  "assertSafeOutboundUrl env pol dns input =
     bindE (parseOutboundUrl env input) (\<lambda>u.
     if \<not> gp_enabled pol then Inr ()
     else let host = normalizeHost (url_hostname u) in
       bindE (assertHost pol host) (\<lambda>_.
         if host \<in> set (gp_allowed pol) \<or> isIP host \<noteq> 0 then Inr ()
         else case dns host True of
             Inl cause \<Rightarrow> Inl (blockedError host cause)
           | Inr addresses \<Rightarrow> if list_ex isPrivateIp addresses then Inl (blockedError host []) else Inr ()))"

definition CROSS_ORIGIN_STRIPPED_HEADERS :: "string list" where
  "CROSS_ORIGIN_STRIPPED_HEADERS = [''authorization'', ''proxy-authorization'', ''cookie'', ''host'']"

definition CONTENT_HEADERS :: "string list" where
  "CONTENT_HEADERS = [''content-encoding'', ''content-language'', ''content-location'', ''content-type'', ''content-length'']"

definition upper_case :: "string \<Rightarrow> string" where
  "upper_case = map (\<lambda>c. let n = of_char c :: nat in if 97 \<le> n \<and> n \<le> 122 then char_of (n - 32) else c)"

definition init_headers :: "request_init \<Rightarrow> (string, string) js_map" where
  "init_headers i = (case ri_headers i of None \<Rightarrow> [] | Some hs \<Rightarrow> hs)"

definition init_method :: "request_init \<Rightarrow> string" where
  "init_method i = upper_case (case ri_method i of None \<Rightarrow> ''GET'' | Some m \<Rightarrow> m)"

definition downgrades_to_get :: "nat \<Rightarrow> string \<Rightarrow> bool" where
  "downgrades_to_get status meth \<longleftrightarrow>
     ((status = 301 \<or> status = 302) \<and> meth = ''POST'') \<or> (status = 303 \<and> meth \<noteq> ''GET'' \<and> meth \<noteq> ''HEAD'')"

definition nextHop :: "net_env \<Rightarrow> response \<Rightarrow> string \<Rightarrow> url \<Rightarrow> request_init \<Rightarrow> fetch_error + (url \<times> request_init)" where
  "nextHop env res location from_url i =
     bindE (checked_url (ne_url env location (Some from_url))) (\<lambda>to_url.
     if url_protocol from_url = ''https:'' \<and> url_protocol to_url = ''http:''
     then Inl (OutboundUrlBlockedError (OUTBOUND_URL_BLOCKED @ '': https to http redirect is not allowed'') [])
     else
       let get = downgrades_to_get (rp_status res) (init_method i);
           hs1 = (if get then fold js_delete CONTENT_HEADERS (init_headers i) else init_headers i);
           hs2 = (if url_origin to_url \<noteq> url_origin from_url then fold js_delete CROSS_ORIGIN_STRIPPED_HEADERS hs1 else hs1)
       in Inr (to_url, i\<lparr>ri_method := Some (if get then ''GET'' else init_method i), ri_headers := Some hs2,
                 ri_body := (if get then None else ri_body i)\<rparr>))"

text \<open>The fields of the request, where the options leave them out.\<close>

fun mergeRequestInit :: "outbound_input \<Rightarrow> request_init \<Rightarrow> request_init" where
  "mergeRequestInit (Input_request u r) i =
     \<lparr>ri_method = (case ri_method i of None \<Rightarrow> ri_method r | Some m \<Rightarrow> Some m),
      ri_headers = (case ri_headers i of None \<Rightarrow> ri_headers r | Some h \<Rightarrow> Some h),
      ri_body = (case ri_body i of None \<Rightarrow> ri_body r | Some b \<Rightarrow> Some b),
      ri_redirect = (case ri_redirect i of None \<Rightarrow> ri_redirect r | Some d \<Rightarrow> Some d),
      ri_signal = (ri_signal i \<or> ri_signal r)\<rparr>"
| "mergeRequestInit input i = i"

definition materializeReplayableOutboundRequest ::
    "net_env \<Rightarrow> outbound_input \<Rightarrow> request_init \<Rightarrow> fetch_error + (outbound_input \<times> request_init)" where
  "materializeReplayableOutboundRequest env input i =
     bindE (parseOutboundUrl env input) (\<lambda>u.
     let merged = mergeRequestInit input i in
     case ri_body merged of
       Some (Stream_body content) \<Rightarrow> bindE content (\<lambda>c. Inr (Input_url u, merged\<lparr>ri_body := Some (Replayable c)\<rparr>))
     | _ \<Rightarrow> Inr (Input_url u, merged))"

definition MAX_REDIRECTS :: nat where "MAX_REDIRECTS = 20"

definition REDIRECT_STATUSES :: "nat list" where "REDIRECT_STATUSES = [301, 302, 303, 307, 308]"

text \<open>One request of \<open>undici\<close>, which follows no redirect if the guard does.\<close>

definition send_request ::
    "net_env \<Rightarrow> url \<Rightarrow> request_init \<Rightarrow> fetch_run \<Rightarrow> fetch_run \<times> (fetch_error + response)" where
  "send_request env u i run =
     (run\<lparr>fr_tick := Suc (fr_tick run), fr_requests := fr_requests run @ [(u, i)]\<rparr>, ne_fetch env (fr_tick run) u i)"

fun guardedFetch ::
    "net_env \<Rightarrow> guard_policy \<Rightarrow> nat \<Rightarrow> outbound_input \<Rightarrow> request_init \<Rightarrow> fetch_run \<Rightarrow> fetch_run \<times> (fetch_error + response)" where
  "guardedFetch env pol hopsLeft input i run =
     (case bindE (parseOutboundUrl env input) (\<lambda>u.
        if gp_enabled pol then bindE (assertHost pol (normalizeHost (url_hostname u))) (\<lambda>_. Inr u) else Inr u) of
        Inl e \<Rightarrow> (run, Inl e)
      | Inr u \<Rightarrow>
          let merged = mergeRequestInit input i;
              mode = (case ri_redirect merged of None \<Rightarrow> ''follow'' | Some d \<Rightarrow> d);
              followsRedirects = (gp_enabled pol \<and> mode = ''follow'')
          in case send_request env u (merged\<lparr>ri_redirect := Some (if followsRedirects then ''manual'' else mode)\<rparr>) run of
               (run1, Inl e) \<Rightarrow> (run1, Inl e)
             | (run1, Inr res) \<Rightarrow>
                 if \<not> followsRedirects \<or> rp_status res \<notin> set REDIRECT_STATUSES then (run1, Inr res)
                 else case js_get (rp_headers res) ''location'' of
                     None \<Rightarrow> (run1, Inr res)
                   | Some location \<Rightarrow>
                       (case hopsLeft of
                          0 \<Rightarrow> (run1, Inl (OutboundUrlBlockedError (OUTBOUND_URL_BLOCKED @ '': too many redirects'') []))
                        | Suc left \<Rightarrow>
                            (case nextHop env res location u merged of
                               Inl e \<Rightarrow> (run1, Inl e)
                             | Inr (to_url, i') \<Rightarrow> guardedFetch env pol left (Input_url to_url) i' run1)))"

declare guardedFetch.simps [simp del]

section \<open>Retries\<close>

definition UNPROCESSED_RETRY_STATUSES :: "nat list" where
  "UNPROCESSED_RETRY_STATUSES = [408, 429, 503, 521, 522, 523, 530]"

definition MAYBE_PROCESSED_RETRY_STATUSES :: "nat list" where
  "MAYBE_PROCESSED_RETRY_STATUSES = [409, 502, 520, 524]"

definition getErrorCode :: "fetch_error \<Rightarrow> string option" where
  "getErrorCode e = Option.bind (List.find (\<lambda>l. el_code l \<noteq> None) (take 5 e)) el_code"

definition transportRetryReason :: "fetch_error \<Rightarrow> bool \<Rightarrow> string option" where
  "transportRetryReason e idempotent =
     (if getErrorCode e = Some ''UND_ERR_CONNECT_TIMEOUT'' then Some ''connect_timeout''
      else if idempotent \<and> getErrorCode e = Some ''UND_ERR_HEADERS_TIMEOUT'' then Some ''headers_timeout'' else None)"

definition isRetryableOutboundTransportError :: "fetch_error \<Rightarrow> bool \<Rightarrow> bool" where
  "isRetryableOutboundTransportError e idempotent \<longleftrightarrow> transportRetryReason e idempotent \<noteq> None"

definition isRetryableOutboundStatus :: "nat \<Rightarrow> bool \<Rightarrow> bool" where
  "isRetryableOutboundStatus status idempotent \<longleftrightarrow>
     status \<in> set UNPROCESSED_RETRY_STATUSES \<or> (idempotent \<and> status \<in> set MAYBE_PROCESSED_RETRY_STATUSES)"

definition MAX_RETRY_AFTER_MS :: rat where "MAX_RETRY_AFTER_MS = 5000"

text \<open>\<open>ne_until\<close> is the time until an HTTP date; \<open>None\<close> stands for \<open>NaN\<close> and the infinities.\<close>

definition retryAfterMs :: "net_env \<Rightarrow> nat \<Rightarrow> (string, string) js_map \<Rightarrow> rat option" where
  "retryAfterMs env n headers =
     (let delay = (case js_get headers ''retry-after-ms'' of
            Some v \<Rightarrow> ne_parse_float env v
          | None \<Rightarrow>
              (case js_get headers ''retry-after'' of
                 None \<Rightarrow> None
               | Some v \<Rightarrow> (case ne_number env v of Some secs \<Rightarrow> Some (secs * 1000) | None \<Rightarrow> ne_until env n v)))
      in case delay of None \<Rightarrow> None | Some d \<Rightarrow> if d < 0 \<or> d > MAX_RETRY_AFTER_MS then None else Some d)"

definition retryDelayMs :: "net_env \<Rightarrow> nat \<Rightarrow> nat \<Rightarrow> rat" where
  "retryDelayMs env n attempt =
     (let base = 1000 * 2 ^ attempt; jitterMultiplier = 1 + (ne_random env n - 1/2) * (1/5)
      in max 0 (of_int \<lfloor>base * jitterMultiplier + 1/2\<rfloor>))"

record fetch_options =
  fo_connect_timeout_ms :: nat
  fo_headers_timeout_ms :: nat
  fo_body_timeout_ms :: nat
  fo_max_retries :: nat
  fo_idempotent :: bool
  fo_user_agent :: "string option"

text \<open>A pause is cut short by the abort of the signal.\<close>

definition sleep :: "net_env \<Rightarrow> bool \<Rightarrow> rat \<Rightarrow> fetch_run \<Rightarrow> fetch_run \<times> (fetch_error + unit)" where
  "sleep env signal ms run =
     (run\<lparr>fr_tick := Suc (fr_tick run), fr_sleeps := fr_sleeps run @ [ms]\<rparr>,
      case (if signal then ne_aborted env (fr_tick run) else None) of None \<Rightarrow> Inr () | Some e \<Rightarrow> Inl e)"

text \<open>\<open>left\<close> is \<open>maxRetries - attempt\<close>.\<close>

fun retry_loop ::
    "net_env \<Rightarrow> guard_policy \<Rightarrow> bool \<Rightarrow> bool \<Rightarrow> outbound_input \<Rightarrow> request_init \<Rightarrow> nat \<Rightarrow> nat \<Rightarrow> fetch_run \<Rightarrow>
       fetch_run \<times> (fetch_error + response)" where
  "retry_loop env pol idempotent signal input i left attempt run =
     (case (if signal then ne_aborted env (fr_tick run) else None) of
        Some e \<Rightarrow> (run, Inl e)
      | None \<Rightarrow>
          let delay = retryDelayMs env (fr_tick run) attempt in
          (case guardedFetch env pol MAX_REDIRECTS input i (fr_tick_update Suc run) of
             (run1, Inr res) \<Rightarrow>
               if \<not> isRetryableOutboundStatus (rp_status res) idempotent then (run1, Inr res)
               else (case left of
                   0 \<Rightarrow> (run1, Inr res)
                 | Suc l \<Rightarrow>
                     (case sleep env signal
                         (case retryAfterMs env (fr_tick run1) (rp_headers res) of None \<Rightarrow> delay | Some d \<Rightarrow> d) run1 of
                        (run2, Inl e) \<Rightarrow> (run2, Inl e)
                      | (run2, Inr u) \<Rightarrow> retry_loop env pol idempotent signal input i l (Suc attempt) run2))
           | (run1, Inl e) \<Rightarrow>
               if transportRetryReason e idempotent = None \<or> (signal \<and> ne_aborted env (fr_tick run1) \<noteq> None) then (run1, Inl e)
               else (case left of
                   0 \<Rightarrow> (run1, Inl e)
                 | Suc l \<Rightarrow>
                     (case sleep env signal delay run1 of
                        (run2, Inl e') \<Rightarrow> (run2, Inl e')
                      | (run2, Inr u) \<Rightarrow> retry_loop env pol idempotent signal input i l (Suc attempt) run2))))"

declare retry_loop.simps [simp del]

definition withOutboundHttpRetries ::
    "net_env \<Rightarrow> guard_policy \<Rightarrow> fetch_options \<Rightarrow> outbound_input \<Rightarrow> request_init \<Rightarrow> fetch_run \<Rightarrow>
       fetch_run \<times> (fetch_error + response)" where
  "withOutboundHttpRetries env pol opts input i run =
     (let signal = ri_signal (mergeRequestInit input i) in
      case (if fo_max_retries opts > 0 then materializeReplayableOutboundRequest env input i else Inr (input, i)) of
        Inl e \<Rightarrow> (run, Inl e)
      | Inr (input', i') \<Rightarrow> retry_loop env pol (fo_idempotent opts) signal input' i' (fo_max_retries opts) 0 run)"

definition withPrependedUserAgent :: "request_init \<Rightarrow> string option \<Rightarrow> request_init" where
  "withPrependedUserAgent i ua =
     (case ua of
        None \<Rightarrow> i
      | Some userAgent \<Rightarrow>
          i\<lparr>ri_headers := Some (js_set ''user-agent''
            (case js_get (init_headers i) ''user-agent'' of
               None \<Rightarrow> userAgent | Some existing \<Rightarrow> if existing = '''' then userAgent else userAgent @ '' '' @ existing)
            (init_headers i))\<rparr>)"

definition no_init :: request_init where
  "no_init = \<lparr>ri_method = None, ri_headers = None, ri_body = None, ri_redirect = None, ri_signal = False\<rparr>"

text \<open>The \<open>fetch\<close> of \<open>createOutboundFetch\<close>.\<close>

definition outbound_fetch ::
    "net_env \<Rightarrow> guard_policy \<Rightarrow> fetch_options \<Rightarrow> outbound_input \<Rightarrow> request_init option \<Rightarrow> fetch_run \<times> (fetch_error + response)" where
  "outbound_fetch env pol opts input i =
     withOutboundHttpRetries env pol opts input
       (withPrependedUserAgent (mergeRequestInit input (case i of None \<Rightarrow> no_init | Some x \<Rightarrow> x)) (fo_user_agent opts))
       \<lparr>fr_tick = 0, fr_requests = [], fr_sleeps = []\<rparr>"

definition isBlockedOutboundError :: "fetch_error \<Rightarrow> bool" where
  "isBlockedOutboundError e = list_ex el_blocked (take 2 e)"

section \<open>The three clients\<close>

definition defaultOutboundFetchOptions :: fetch_options where
  "defaultOutboundFetchOptions =
     \<lparr>fo_connect_timeout_ms = 5000, fo_headers_timeout_ms = 5000, fo_body_timeout_ms = 5000, fo_max_retries = 2,
      fo_idempotent = True, fo_user_agent = None\<rparr>"

definition defaultModelOutboundFetchOptions :: fetch_options where
  "defaultModelOutboundFetchOptions =
     \<lparr>fo_connect_timeout_ms = 5000, fo_headers_timeout_ms = 20000, fo_body_timeout_ms = 120000, fo_max_retries = 2,
      fo_idempotent = True, fo_user_agent = None\<rparr>"

definition defaultMcpOutboundFetchOptions :: fetch_options where
  "defaultMcpOutboundFetchOptions =
     \<lparr>fo_connect_timeout_ms = 5000, fo_headers_timeout_ms = 120000, fo_body_timeout_ms = 1800000, fo_max_retries = 2,
      fo_idempotent = False, fo_user_agent = None\<rparr>"

text \<open>The clients of the process and the agents that were closed; a client is its options.\<close>

record outbound_clients =
  oc_outbound :: fetch_options
  oc_model :: fetch_options
  oc_mcp :: fetch_options
  oc_closed :: "fetch_options list"

definition initial_clients :: outbound_clients where
  "initial_clients =
     \<lparr>oc_outbound = defaultOutboundFetchOptions, oc_model = defaultModelOutboundFetchOptions, oc_mcp = defaultMcpOutboundFetchOptions,
      oc_closed = []\<rparr>"

definition configureOutboundFetches :: "fetch_options \<Rightarrow> fetch_options \<Rightarrow> fetch_options \<Rightarrow> outbound_clients \<Rightarrow> outbound_clients" where
  "configureOutboundFetches outbound model mcp c =
     \<lparr>oc_outbound = outbound, oc_model = model, oc_mcp = mcp,
      oc_closed = oc_closed c @ [oc_outbound c, oc_model c, oc_mcp c]\<rparr>"

definition ssrfFetch ::
    "net_env \<Rightarrow> guard_policy \<Rightarrow> outbound_clients \<Rightarrow> outbound_input \<Rightarrow> request_init option \<Rightarrow> fetch_run \<times> (fetch_error + response)" where
  "ssrfFetch env pol c = outbound_fetch env pol (oc_outbound c)"

definition modelSsrfFetch ::
    "net_env \<Rightarrow> guard_policy \<Rightarrow> outbound_clients \<Rightarrow> outbound_input \<Rightarrow> request_init option \<Rightarrow> fetch_run \<times> (fetch_error + response)" where
  "modelSsrfFetch env pol c = outbound_fetch env pol (oc_model c)"

definition mcpSsrfFetch ::
    "net_env \<Rightarrow> guard_policy \<Rightarrow> outbound_clients \<Rightarrow> outbound_input \<Rightarrow> request_init option \<Rightarrow> fetch_run \<times> (fetch_error + response)" where
  "mcpSsrfFetch env pol c = outbound_fetch env pol (oc_mcp c)"

end
