(* ===== verification/Outbound_Guard_Props.thy ===== *)
theory Outbound_Guard_Props
  imports Outbound_Guard
begin

text \<open>
  What the guard of outbound requests promises: which addresses and hosts it lets through, what a chain of redirects may
  do, and when a request is sent again.
\<close>

section \<open>Addresses\<close>

text \<open>The blocked ranges as intervals: the first address and the number of addresses.\<close>

definition interval_of :: "block_rule \<Rightarrow> nat \<times> nat" where
  "interval_of rule = (case rule of (base, len) \<Rightarrow> (unat base div 2 ^ (128 - len) * 2 ^ (128 - len), 2 ^ (128 - len)))"

lemma in_subnet_bounds:
  assumes "len \<le> 128"
  shows "in_subnet (base, len) w \<longleftrightarrow> fst (interval_of (base, len)) \<le> unat w \<and>
    unat w < fst (interval_of (base, len)) + snd (interval_of (base, len))"
proof -
  have "(a div k = b div k) \<longleftrightarrow> (a div k * k \<le> b \<and> b < a div k * k + k)" if "0 < k" for a b k :: nat
    using that by (metis add.commute div_mult2_eq div_nat_eqI dividend_less_times_div mult.commute times_div_less_eq_dividend mult_Suc_right)
  then show ?thesis unfolding in_subnet_interval[OF assms] interval_of_def by simp
qed

lemma privateNets_eval:
  "privateNets =
    [(281470681743360, 104), (281470849515520, 104), (281472363659264, 106), (281472812449792, 104), (281473533739008, 112),
     (281473568473088, 108), (281473902968832, 120), (281473902969344, 120), (281473908761344, 120), (281473913978880, 112),
     (281474004811776, 111), (281474007000064, 120), (281474087547136, 120), (281474439839744, 100), (281474708275200, 100),
     (0, 96), (524413980667603649783483181312245760, 96), (524413980668812575603097810486951936, 48),
     (1329227995784915872903807060280344576, 64), (42540488161975842760550356425300246528, 32),
     (42540489429626442988779757922003451904, 28), (42540490697277043217009159418706657280, 28),
     (42540766411282592856903984951653826560, 32), (42545680458834377588178886921629466624, 16),
     (334965454937798799971759379190646833152, 7), (338288524927261089654018896841347694592, 10),
     (338953138925153547590470800371487866880, 8)]"
  by code_simp

lemma mapped_value: "unat (ip_word (Ipv4 w)) = 281470681743360 + unat w"
proof -
  have low: "\<not> bit (0xFFFF00000000 :: 128 word) n" if "n < 32" for n
  proof -
    have "(0xFFFF00000000 :: 128 word) = push_bit 32 0xFFFF" by simp
    then show ?thesis using that by (simp only: bit_push_bit_iff) simp
  qed
  have high: "n < 32" if "bit (ucast w :: 128 word) n" for n
    using that bit_imp_le_length[of w n] by (auto simp: bit_ucast_iff)
  have "0xFFFF00000000 OR (ucast w :: 128 word) = 0xFFFF00000000 + ucast w"
    by (rule disjunctive_add [symmetric]) (use low high in blast)
  moreover have "unat w < 4294967296" using unsigned_less[of w] by simp
  then have "unat w < 2 ^ 128" by simp
  then have "unat (ucast w :: 128 word) = unat w" by (simp add: unsigned_ucast_eq take_bit_nat_eq_self)
  moreover have "unat w < 4294967296" using unsigned_less[of w] by simp
  ultimately show ?thesis by (simp add: unat_add_lem[THEN iffD1])
qed

text \<open>The reserved IPv4 ranges of the special-purpose registries, as a first address and a number of addresses.\<close>

definition reserved_v4 :: "(nat \<times> nat) list" where
  "reserved_v4 =
     [(0, 16777216), (167772160, 16777216), (1681915904, 4194304), (2130706432, 16777216), (2851995648, 65536),
      (2886729728, 1048576), (3221225472, 256), (3221225984, 256), (3227017984, 256), (3232235520, 65536),
      (3323068416, 131072), (3325256704, 256), (3405803776, 256), (3758096384, 268435456), (4026531840, 268435456)]"

lemma check_v4: "check_block privateNets (Ipv4 w) \<longleftrightarrow> (\<exists>(a, n) \<in> set reserved_v4. a \<le> unat w \<and> unat w < a + n)"
proof -
  have "unat w < 4294967296" using unsigned_less[of w] by simp
  then show ?thesis
    unfolding check_block_def privateNets_eval reserved_v4_def
    by (simp add: in_subnet_bounds interval_of_def mapped_value del: ip_word.simps)
qed

section \<open>Texts of addresses\<close>

lemma number_value_digits: "number_value b s n = Some m \<Longrightarrow> c \<in> set s \<Longrightarrow> digit_value c \<noteq> None"
  by (induction b s n rule: number_value.induct) (auto split: option.splits if_splits)

lemma number_value_bounds:
  assumes "number_value b s n = Some m" "0 \<le> n" "n < b ^ k" "0 < b"
  shows "0 \<le> m \<and> m < b ^ (k + length s)"
  using assms
proof (induction b s n arbitrary: k rule: number_value.induct)
  case (2 b c cs n)
  obtain d where d: "digit_value c = Some d" "d < b" "number_value b cs (n * b + d) = Some m"
    using "2.prems"(1) by (auto split: option.splits if_splits)
  have "0 \<le> d" using d(1) by (auto simp: digit_value_def Let_def split: if_splits)
  moreover have "n * b + d < b ^ Suc k"
  proof -
    have "n + 1 \<le> b ^ k" using "2.prems"(3) by simp
    then have "(n + 1) * b \<le> b ^ k * b" using "2.prems"(4) by (simp add: mult_right_mono)
    then show ?thesis using d(2) by (simp add: algebra_simps)
  qed
  ultimately show ?case using "2.IH"[OF d(1,2,3), of "Suc k"] "2.prems" by simp
qed auto

lemma split_none: "c \<notin> set s \<Longrightarrow> split_at_char c s = [s]"
  by (induction s) auto

lemma split_covers: "x \<in> set s \<Longrightarrow> x \<noteq> c \<Longrightarrow> \<exists>p \<in> set (split_at_char c s). x \<in> set p"
  by (induction s) (auto split: list.split)

lemma split_append: "c \<notin> set p \<Longrightarrow> split_at_char c (p @ c # s) = p # split_at_char c s"
  by (induction p) auto

lemma octet_digits: "octet p = Some n \<Longrightarrow> p \<noteq> [] \<and> 0 \<le> n \<and> n < 256 \<and> (\<forall>x \<in> set p. digit_value x \<noteq> None)"
  using number_value_bounds[of 10 p 0 n 0] number_value_digits[of 10 p 0 n]
  by (auto simp: octet_def split: if_splits option.splits)

lemma parse_ipv4_parts:
  assumes "parse_ipv4 s = Some v"
  obtains a b c d where "split_at_char (CHR ''.'') s = [a, b, c, d]" "octet a \<noteq> None" "octet b \<noteq> None" "octet c \<noteq> None" "octet d \<noteq> None"
    "0 \<le> v" "v < 4294967296"
proof -
  obtain a b c d na nb nc nd where p: "map octet (split_at_char (CHR ''.'') s) = [Some na, Some nb, Some nc, Some nd]"
    "v = ((na * 256 + nb) * 256 + nc) * 256 + nd"
    using assms by (auto simp: parse_ipv4_def split: list.splits option.splits)
  then obtain a b c d where s: "split_at_char (CHR ''.'') s = [a, b, c, d]" "octet a = Some na" "octet b = Some nb" "octet c = Some nc" "octet d = Some nd"
    by (auto simp: map_eq_Cons_conv)
  show thesis using that[OF s(1)] octet_digits[OF s(2)] octet_digits[OF s(3)] octet_digits[OF s(4)] octet_digits[OF s(5)]
    unfolding p(2) by (simp add: s)
qed

lemma ipv4_chars:
  assumes "parse_ipv4 s = Some v" "x \<in> set s"
  shows "x = CHR ''.'' \<or> digit_value x \<noteq> None"
proof (rule ccontr)
  assume x: "\<not> ?thesis"
  obtain a b c d where s: "split_at_char (CHR ''.'') s = [a, b, c, d]" "octet a \<noteq> None" "octet b \<noteq> None" "octet c \<noteq> None" "octet d \<noteq> None"
    by (rule parse_ipv4_parts[OF assms(1)]) blast
  obtain p where "p \<in> {a, b, c, d}" "x \<in> set p" using split_covers[OF assms(2), of "CHR ''.''"] x s(1) by auto
  moreover from this s obtain n where "octet p = Some n" by auto
  ultimately show False using octet_digits x by blast
qed

lemma colon_no_digit [simp]: "digit_value (CHR '':'') = None" "digit_value (CHR ''.'') = None" "digit_value (CHR ''%'') = None"
  by code_simp+

lemma ipv4_no_colon: "parse_ipv4 s = Some v \<Longrightarrow> CHR '':'' \<notin> set s \<and> CHR ''%'' \<notin> set s"
  using ipv4_chars[of s v "CHR '':''"] ipv4_chars[of s v "CHR ''%''"] by auto

lemma ipv4_has_dot: "parse_ipv4 s = Some v \<Longrightarrow> CHR ''.'' \<in> set s"
  using parse_ipv4_parts[of s v] split_none[of "CHR ''.''" s] by fastforce

lemma lower_char:
  assumes "lower_case [c] = [d]" "(of_char d :: nat) < 65 \<or> 90 < (of_char d :: nat)"
  shows "c = d \<or> (97 \<le> (of_char d :: nat) \<and> c = char_of ((of_char d :: nat) - 32))"
proof -
  let ?n = "of_char c :: nat"
  have d: "d = (if 65 \<le> ?n \<and> ?n \<le> 90 then char_of (?n + 32) else c)" using assms(1) by (simp add: lower_case_def Let_def)
  show ?thesis
  proof (cases "65 \<le> ?n \<and> ?n \<le> 90")
    case True
    then have "(of_char d :: nat) = ?n + 32" using d by simp
    then show ?thesis using True by simp
  qed (use d in simp)
qed

lemma strip_cases:
  obtains (same) "strip_mapped s = s"
  | (mapped) h rest where "s = '':'' @ '':'' @ h @ CHR '':'' # rest" "strip_mapped s = rest" "length h = 4"
      "\<forall>c \<in> set h. digit_value c = Some 15"
proof (cases "lower_case (take 7 s) = ''::ffff:''")
  case True
  have lower: "lower_case (x # xs) = lower_case [x] @ lower_case xs" "lower_case [] = []" for x xs by (simp_all add: lower_case_def)
  obtain c0 c1 c2 c3 c4 c5 c6 where t: "take 7 s = [c0, c1, c2, c3, c4, c5, c6]"
  proof -
    have "length (take 7 s) = 7" using arg_cong[OF True, of length] by (simp add: lower_case_def)
    then show thesis using that by (auto simp: eval_nat_numeral length_Suc_conv simp del: length_take)
  qed
  have l: "lower_case [c0] = '':''" "lower_case [c1] = '':''" "lower_case [c2] = ''f''" "lower_case [c3] = ''f''" "lower_case [c4] = ''f''"
    "lower_case [c5] = ''f''" "lower_case [c6] = '':''"
    using True unfolding t by (simp_all add: lower_case_def)
  have colon: "c = CHR '':''" if "lower_case [c] = '':''" for c using lower_char[OF that] by simp
  have f: "digit_value c = Some 15" if "lower_case [c] = ''f''" for c
  proof -
    have "c = CHR ''f'' \<or> c = char_of (70 :: nat)" using lower_char[OF that] by simp
    moreover have "digit_value (CHR ''f'') = Some 15" "digit_value (char_of (70 :: nat)) = Some 15" by code_simp+
    ultimately show ?thesis by blast
  qed
  have c: "c0 = CHR '':''" "c1 = CHR '':''" "c6 = CHR '':''" using colon[OF l(1)] colon[OF l(2)] colon[OF l(7)] by auto
  have "s = take 7 s @ drop 7 s" by simp
  then have "s = '':'' @ '':'' @ [c2, c3, c4, c5] @ CHR '':'' # drop 7 s" unfolding t unfolding c by simp
  moreover have "strip_mapped s = drop 7 s" using True by (simp add: strip_mapped_def)
  ultimately show thesis using mapped[of "[c2, c3, c4, c5]" "drop 7 s"] f l by simp
qed (use same in \<open>simp add: strip_mapped_def\<close>)

lemma hextet_mapped:
  assumes "length h = 4" "\<forall>c \<in> set h. digit_value c = Some 15"
  shows "hextet h = Some 65535"
proof -
  obtain a b c d where "h = [a, b, c, d]" using assms(1) by (auto simp: eval_nat_numeral length_Suc_conv)
  then show ?thesis using assms(2) by (simp add: hextet_def)
qed

lemma double_colon_gap: "find_double_colon s \<noteq> None \<Longrightarrow> [] \<in> set (tl (split_at_char (CHR '':'') s))"
proof (induction s rule: find_double_colon.induct)
  case (1 x y zs)
  show ?case
  proof (cases "x = CHR '':'' \<and> y = CHR '':''")
    case False
    then have "[] \<in> set (tl (split_at_char (CHR '':'') (y # zs)))" using 1 by auto
    then show ?thesis using split_nonempty[of "CHR '':''" "y # zs"]
      by (auto split: list.split simp del: split_at_char.simps(2) simp: split_at_char.simps(2)[of _ x] dest: list.set_sel(2)[rotated])
  qed simp
qed auto

lemma hextets_gap: "[] \<in> set ps \<Longrightarrow> hextets dotted ps = None"
proof (induction ps)
  case (Cons p ps)
  have "hextet [] = None" "parse_ipv4 [] = None" by (simp_all add: hextet_def parse_ipv4_def octet_def)
  with Cons show ?case by (auto split: option.split)
qed simp

text \<open>What comes after the prefix \<open>::ffff:\<close> decides what the whole text stands for.\<close>

lemma mapped_groups:
  assumes "length h = 4" "\<forall>c \<in> set h. digit_value c = Some 15"
  shows "parse_groups ('':'' @ '':'' @ h @ CHR '':'' # r) =
    (case hextets True (split_at_char (CHR '':'') r) of None \<Rightarrow> None
     | Some ns \<Rightarrow> if length ns \<le> 6 then Some (join_hextets (replicate (7 - length ns) 0 @ 65535 # ns)) else None)"
proof -
  have h: "CHR '':'' \<notin> set h" using assms(2) by auto
  have "h \<noteq> []" using assms(1) by auto
  then have "hextets_of True (h @ CHR '':'' # r) = map_option (\<lambda>ns. 65535 # ns) (hextets True (split_at_char (CHR '':'') r))"
    unfolding hextets_of_def split_append[OF h] by (simp add: hextet_mapped[OF assms])
  then show ?thesis by (simp add: parse_groups_def hextets_of_def[of False] split: option.split)
qed

lemma without_zone_append: "CHR ''%'' \<notin> set p \<Longrightarrow> without_zone (p @ r) = map_option (\<lambda>q. p @ q) (without_zone r)"
proof -
  assume p: "CHR ''%'' \<notin> set p"
  have "dropWhile (\<lambda>c. c \<noteq> CHR ''%'') (p @ r) = dropWhile (\<lambda>c. c \<noteq> CHR ''%'') r"
    "takeWhile (\<lambda>c. c \<noteq> CHR ''%'') (p @ r) = p @ takeWhile (\<lambda>c. c \<noteq> CHR ''%'') r"
    using p by (induction p) auto
  then show ?thesis by (cases "dropWhile (\<lambda>c. c \<noteq> CHR ''%'') r") (simp_all add: without_zone_def del: dropWhile_eq_Nil_conv)
qed

lemma without_zone_plain: "CHR ''%'' \<notin> set r \<Longrightarrow> without_zone r = Some r"
proof -
  assume "CHR ''%'' \<notin> set r"
  then have "dropWhile (\<lambda>c. c \<noteq> CHR ''%'') r = []" by auto
  then show ?thesis by (simp add: without_zone_def del: dropWhile_eq_Nil_conv)
qed

lemma ipv4_bounds: "parse_ipv4 s = Some v \<Longrightarrow> 0 \<le> v \<and> v < 4294967296"
  by (rule parse_ipv4_parts) simp_all

lemma ipv4_word:
  assumes "0 \<le> v" "v < 4294967296"
  shows "ip_word (Ipv6 (word_of_int (281470681743360 + v))) = ip_word (Ipv4 (word_of_int v))"
proof -
  have "unat (word_of_int v :: 32 word) = nat v"
    using assms by (simp add: unsigned_of_int take_bit_int_eq_self)
  moreover have "unat (word_of_int (281470681743360 + v) :: 128 word) = 281470681743360 + nat v"
    using assms by (simp add: unsigned_of_int take_bit_int_eq_self nat_add_distrib del: of_int_add)
  ultimately show ?thesis using mapped_value[of "word_of_int v"] by (simp add: word_unat_eq_iff)
qed

lemma ipv4_groups:
  assumes "parse_ipv4 r = Some v"
  shows "hextets True (split_at_char (CHR '':'') r) = Some [v div 65536, v mod 65536]"
proof -
  have "split_at_char (CHR '':'') r = [r]" by (rule split_none) (use ipv4_no_colon[OF assms] in blast)
  moreover have "hextet r = None"
    using ipv4_has_dot[OF assms] number_value_digits[of 16 r 0]
    by (cases "number_value 16 r 0") (fastforce simp: hextet_def)+
  ultimately show ?thesis using assms by simp
qed

lemma mapped_parse:
  assumes "length h = 4" "\<forall>c \<in> set h. digit_value c = Some 15" "parse_ip r = Some b"
    "parse_ip ('':'' @ '':'' @ h @ CHR '':'' # r) = Some a"
  shows "ip_word a = ip_word b"
proof -
  let ?p = "'':'' @ '':'' @ h @ '':''"
  have "CHR ''%'' \<notin> set ?p" using assms(2) by auto
  from without_zone_append[OF this, of r]
  have zone: "without_zone (?p @ r) = map_option (\<lambda>q. ?p @ q) (without_zone r)" .
  have s: "'':'' @ '':'' @ h @ CHR '':'' # r = ?p @ r" by simp
  have "parse_ipv4 (?p @ r) = None" using ipv4_no_colon[of "?p @ r"] by (cases "parse_ipv4 (?p @ r)") auto
  then obtain n where n: "parse_ipv6 (?p @ r) = Some n" "a = Ipv6 (word_of_int n)"
    using assms(4) unfolding s by (auto simp: parse_ip_def)
  then obtain q where q: "without_zone r = Some q" "parse_groups ('':'' @ '':'' @ h @ CHR '':'' # q) = Some n"
    unfolding parse_ipv6_def zone by (auto simp: bind_eq_Some_conv)
  note groups = q(2)[unfolded mapped_groups[OF assms(1,2)]]
  show ?thesis
  proof (cases "parse_ipv4 r")
    case (Some v)
    have "without_zone r = Some r" using ipv4_no_colon[OF Some] by (simp add: without_zone_plain)
    then have "n = 281470681743360 + v" using groups q(1) unfolding ipv4_groups[OF Some]
      by (auto simp: join_hextets_def eval_nat_numeral ipv4_groups[OF Some])
    moreover have "b = Ipv4 (word_of_int v)" using assms(3) Some by (simp add: parse_ip_def)
    ultimately show ?thesis using n(2) ipv4_word ipv4_bounds[OF Some] by simp
  next
    case None
    then obtain m where "parse_groups q = Some m" using assms(3) q(1) by (auto simp: parse_ip_def parse_ipv6_def)
    moreover have "find_double_colon q = None"
    proof (rule ccontr)
      assume "find_double_colon q \<noteq> None"
      then have "[] \<in> set (split_at_char (CHR '':'') q)"
        using double_colon_gap[of q] by (cases "split_at_char (CHR '':'') q") auto
      then show False using groups hextets_gap by auto
    qed
    ultimately obtain ns where "hextets True (split_at_char (CHR '':'') q) = Some ns" "length ns = 8"
      by (auto simp: parse_groups_def hextets_of_def split: option.splits if_splits)
    then show ?thesis using groups by simp
  qed
qed

text \<open>No spelling of a blocked address gets past \<open>isPrivateIp\<close>: an address text that it lets through stands for an
  address outside every blocked range, whether it is written as IPv4, as IPv6, compressed, with a zone, or as an
  IPv4 address mapped into IPv6, with the prefix \<open>::ffff:\<close> that the code cuts off or in any other notation.\<close>

lemma public_text_checked:
  assumes s: "parse_ip s = Some a" and "\<not> isPrivateIp s"
  shows "\<not> check_block privateNets a"
proof -
  from assms obtain b where b: "parse_ip (strip_mapped s) = Some b" "\<not> check_block privateNets b"
    by (auto simp: isPrivateIp_def split: option.splits)
  have "ip_word a = ip_word b"
  proof (cases s rule: strip_cases)
    case same
    then show ?thesis using s b by simp
  next
    case (mapped h rest)
    then show ?thesis using mapped_parse[of h rest b a] s b by simp
  qed
  then show "\<not> check_block privateNets a" using b(2) by (simp add: check_block_def)
qed

text \<open>C32. An IPv4 address is refused exactly if it lies in one of the fifteen reserved ranges of the special-purpose
  address registry, between its first address (inclusive) and its end: the prefixes of the code denote these
  intervals, and the rules written for IPv6 never touch an IPv4 address.\<close>

theorem ipv4_private_iff_reserved:
  "\<forall>s v. parse_ipv4 s = Some v \<longrightarrow> (isPrivateIp s \<longleftrightarrow> (\<exists>(a, n) \<in> set reserved_v4. a \<le> nat v \<and> nat v < a + n))"
proof (intro allI impI)
  fix s v
  assume v: "parse_ipv4 s = Some v"
  have "strip_mapped s = s"
    by (rule strip_cases[of s]) (use ipv4_no_colon[OF v] in auto)
  then have "isPrivateIp s \<longleftrightarrow> check_block privateNets (Ipv4 (word_of_int v))"
    using v by (simp add: isPrivateIp_def parse_ip_def)
  moreover have "unat (word_of_int v :: 32 word) = nat v"
    using ipv4_bounds[OF v] by (simp add: unsigned_of_int take_bit_int_eq_self)
  ultimately show "isPrivateIp s \<longleftrightarrow> (\<exists>(a, n) \<in> set reserved_v4. a \<le> nat v \<and> nat v < a + n)"
    by (simp add: check_v4)
qed

theorem ipv4_private_iff_reserved_witness:
  "isPrivateIp ''100.127.255.255'' \<and> \<not> isPrivateIp ''100.128.0.0''"
proof -
  have "parse_ipv4 ''100.127.255.255'' = Some 1686110207" "parse_ipv4 ''100.128.0.0'' = Some 1686110208" by code_simp+
  then show ?thesis using ipv4_private_iff_reserved by (simp add: reserved_v4_def)
qed

end
