(* ===== verification/Outbound_Fetch_Props.thy ===== *)
theory Outbound_Fetch_Props
  imports Outbound_Guard_Props
begin

text \<open>
  The fetch of the outbound guard: what every request it sends satisfies, how a chain of redirects may go on, and when and
  after which pause a request is sent again.
\<close>

section \<open>One request of a chain and the next\<close>

text \<open>A request the guard may send.\<close>

definition request_allowed :: "guard_policy \<Rightarrow> url \<times> request_init \<Rightarrow> bool" where
  "request_allowed pol q \<longleftrightarrow>
     url_protocol (fst q) \<in> set allowedProtocols \<and> assertHost pol (normalizeHost (url_hostname (fst q))) = Inr () \<and>
     ri_redirect (snd q) \<noteq> Some ''follow''"

text \<open>A step of a redirect: no downgrade, no new header or body, no credentials for another origin.\<close>

definition hop_allowed :: "url \<times> request_init \<Rightarrow> url \<times> request_init \<Rightarrow> bool" where
  "hop_allowed p q \<longleftrightarrow>
     (url_protocol (fst p) = ''https:'' \<longrightarrow> url_protocol (fst q) = ''https:'') \<and>
     (\<forall>h. js_get (init_headers (snd q)) h \<in> {None, js_get (init_headers (snd p)) h}) \<and>
     ri_body (snd q) \<in> {None, ri_body (snd p)} \<and>
     (url_origin (fst q) \<noteq> url_origin (fst p) \<longrightarrow>
        (\<forall>h \<in> set CROSS_ORIGIN_STRIPPED_HEADERS. js_get (init_headers (snd q)) h = None))"

lemma js_get_fold_delete: "js_get (fold js_delete ks m) k = (if k \<in> set ks then None else js_get m k)"
  by (induction ks arbitrary: m) auto

lemma checked_url_Inr: "checked_url r = Inr u \<longleftrightarrow> r = Inr u \<and> url_protocol u \<in> set allowedProtocols"
  by (auto simp: checked_url_def split: sum.splits)

lemma parseOutboundUrl_protocol: "parseOutboundUrl env input = Inr u \<Longrightarrow> url_protocol u \<in> set allowedProtocols"
  by (cases input) (auto simp: checked_url_Inr)

lemma nextHop_allowed:
  assumes "nextHop env res location u i = Inr (u', i')" "init_headers i = init_headers j" "ri_body i = ri_body j"
  shows "hop_allowed (u, j) (u', i') \<and> url_protocol u' \<in> set allowedProtocols"
  using assms
  by (auto simp: nextHop_def hop_allowed_def Let_def bindE_Inr_iff checked_url_Inr init_headers_def allowedProtocols_def
      js_get_fold_delete split: if_splits)

section \<open>Chains of redirects\<close>

lemma guardedFetch_step:
  assumes "guardedFetch env pol n input i run = (run', r)" "gp_enabled pol"
  obtains (refused) e where "run' = run" "r = Inl e"
  | (sent) u q where "parseOutboundUrl env input = Inr u" "request_allowed pol (u, q)"
      "init_headers q = init_headers (mergeRequestInit input i)" "ri_body q = ri_body (mergeRequestInit input i)"
      "fr_requests run' = fr_requests run @ [(u, q)]" "fr_sleeps run' = fr_sleeps run"
  | (hop) u q m u' i' run1 where "parseOutboundUrl env input = Inr u" "request_allowed pol (u, q)"
      "init_headers q = init_headers (mergeRequestInit input i)" "ri_body q = ri_body (mergeRequestInit input i)"
      "n = Suc m" "hop_allowed (u, q) (u', i')" "url_protocol u' \<in> set allowedProtocols"
      "guardedFetch env pol m (Input_url u') i' run1 = (run', r)"
      "fr_requests run1 = fr_requests run @ [(u, q)]" "fr_sleeps run1 = fr_sleeps run"
proof (cases "bindE (parseOutboundUrl env input) (\<lambda>u. bindE (assertHost pol (normalizeHost (url_hostname u))) (\<lambda>_. Inr u))")
  case (Inl e)
  then show thesis using assms refused by (auto simp: guardedFetch.simps)
next
  case (Inr u)
  let ?i = "mergeRequestInit input i"
  let ?mode = "case ri_redirect ?i of None \<Rightarrow> ''follow'' | Some d \<Rightarrow> d"
  define q where "q = ?i\<lparr>ri_redirect := Some (if ?mode = ''follow'' then ''manual'' else ?mode)\<rparr>"
  define run1 where "run1 = run\<lparr>fr_tick := Suc (fr_tick run), fr_requests := fr_requests run @ [(u, q)]\<rparr>"
  have u: "parseOutboundUrl env input = Inr u" "assertHost pol (normalizeHost (url_hostname u)) = Inr ()"
    using Inr by (auto simp: bindE_Inr_iff)
  have q: "request_allowed pol (u, q)" "init_headers q = init_headers ?i" "ri_body q = ri_body ?i"
    using u parseOutboundUrl_protocol[OF u(1)] by (auto simp: request_allowed_def q_def init_headers_def)
  have run1: "fr_requests run1 = fr_requests run @ [(u, q)]" "fr_sleeps run1 = fr_sleeps run" by (simp_all add: run1_def)
  have step: "guardedFetch env pol n input i run =
    (case ne_fetch env (fr_tick run) u q of
       Inl e \<Rightarrow> (run1, Inl e)
     | Inr res \<Rightarrow>
         if ?mode \<noteq> ''follow'' \<or> rp_status res \<notin> set REDIRECT_STATUSES then (run1, Inr res)
         else case js_get (rp_headers res) ''location'' of
             None \<Rightarrow> (run1, Inr res)
           | Some location \<Rightarrow>
               (case n of
                  0 \<Rightarrow> (run1, Inl (OutboundUrlBlockedError (OUTBOUND_URL_BLOCKED @ '': too many redirects'') []))
                | Suc m \<Rightarrow>
                    (case nextHop env res location u ?i of
                       Inl e \<Rightarrow> (run1, Inl e)
                     | Inr (u', i') \<Rightarrow> guardedFetch env pol m (Input_url u') i' run1)))"
    unfolding guardedFetch.simps[of env pol n] q_def run1_def
    by (simp add: Let_def assms(2) u send_request_def split: sum.split)
  have "run' = run1 \<or> (\<exists>res location m u' i'. n = Suc m \<and> nextHop env res location u ?i = Inr (u', i') \<and>
      guardedFetch env pol m (Input_url u') i' run1 = (run', r))"
    using assms(1) unfolding step by (auto split: sum.splits if_split_asm option.splits nat.splits prod.splits)
  then show thesis
  proof (elim disjE exE conjE)
    assume "run' = run1"
    then show thesis using sent[OF u(1) q] run1 by simp
  next
    fix res location m u' i'
    assume m: "n = Suc m" "nextHop env res location u ?i = Inr (u', i')" "guardedFetch env pol m (Input_url u') i' run1 = (run', r)"
    show thesis using hop[OF u(1) q m(1) _ _ m(3) run1] nextHop_allowed[OF m(2) q(2,3)[symmetric]] by blast
  qed
qed

lemma guardedFetch_chain:
  assumes "gp_enabled pol" "guardedFetch env pol n input i run = (run', r)"
  shows "\<exists>new. fr_requests run' = fr_requests run @ new \<and> fr_sleeps run' = fr_sleeps run \<and> length new \<le> Suc n \<and>
    list_all (request_allowed pol) new \<and> successively hop_allowed new \<and>
    (new \<noteq> [] \<longrightarrow> (\<exists>u. parseOutboundUrl env input = Inr u \<and> fst (hd new) = u) \<and>
       init_headers (snd (hd new)) = init_headers (mergeRequestInit input i) \<and>
       ri_body (snd (hd new)) = ri_body (mergeRequestInit input i))"
  using assms(2)
proof (induction n arbitrary: input i run)
  case 0
  from 0 assms(1) show ?case by (cases rule: guardedFetch_step) auto
next
  case (Suc n)
  from Suc.prems assms(1) show ?case
  proof (cases rule: guardedFetch_step)
    case (hop u q m u' i' run1)
    from Suc.IH[of "Input_url u'" i' run1] hop obtain new where new: "fr_requests run' = fr_requests run1 @ new" "fr_sleeps run' = fr_sleeps run1"
      "length new \<le> Suc n" "list_all (request_allowed pol) new" "successively hop_allowed new"
      "new \<noteq> [] \<longrightarrow> fst (hd new) = u' \<and> init_headers (snd (hd new)) = init_headers i' \<and> ri_body (snd (hd new)) = ri_body i'"
      by (auto simp: checked_url_Inr)
    have "new \<noteq> [] \<longrightarrow> hop_allowed (u, q) (hd new)" using new(6) hop(6) by (cases "hd new") (simp add: hop_allowed_def)
    then have "successively hop_allowed ((u, q) # new)" using new(5) by (auto simp: successively_Cons)
    then show ?thesis using new hop by (intro exI[of _ "(u, q) # new"]) simp
  qed auto
qed

text \<open>What holds of each hop holds of any two requests of the chain.\<close>

definition same_side :: "url \<times> request_init \<Rightarrow> url \<times> request_init \<Rightarrow> bool" where
  "same_side p q \<longleftrightarrow>
     (\<forall>h \<in> set CROSS_ORIGIN_STRIPPED_HEADERS. js_get (init_headers (snd q)) h \<noteq> None \<longrightarrow> url_origin (fst p) = url_origin (fst q)) \<and>
     (\<forall>h. js_get (init_headers (snd q)) h \<in> {None, js_get (init_headers (snd p)) h}) \<and>
     ri_body (snd q) \<in> {None, ri_body (snd p)} \<and>
     (url_protocol (fst p) = ''https:'' \<longrightarrow> url_protocol (fst q) = ''https:'')"

lemma same_side_refl: "same_side p p"
  by (simp add: same_side_def)

lemma same_side_hop:
  assumes "same_side p q" "hop_allowed q q'"
  shows "same_side p q'"
proof -
  have "js_get (init_headers (snd q')) h \<in> {None, js_get (init_headers (snd q)) h}" for h
    using assms(2) by (simp add: hop_allowed_def)
  then have sub: "js_get (init_headers (snd q')) h = None \<or> js_get (init_headers (snd q')) h = js_get (init_headers (snd q)) h" for h
    by blast
  show ?thesis unfolding same_side_def
  proof (intro conjI ballI allI impI)
    fix h
    assume "h \<in> set CROSS_ORIGIN_STRIPPED_HEADERS" "js_get (init_headers (snd q')) h \<noteq> None"
    moreover from this assms(2) have "url_origin (fst q') = url_origin (fst q)" by (auto simp: hop_allowed_def)
    ultimately show "url_origin (fst p) = url_origin (fst q')" using assms(1) sub[of h] by (auto simp: same_side_def)
  next
    fix h
    show "js_get (init_headers (snd q')) h \<in> {None, js_get (init_headers (snd p)) h}"
      using assms(1) sub[of h] by (auto simp: same_side_def)
  next
    show "ri_body (snd q') \<in> {None, ri_body (snd p)}" using assms by (auto simp: same_side_def hop_allowed_def)
  next
    assume "url_protocol (fst p) = ''https:''"
    then show "url_protocol (fst q') = ''https:''" using assms by (simp add: same_side_def hop_allowed_def)
  qed
qed

lemma chain_pairs:
  assumes "successively hop_allowed ps" "k < length ps" "j \<le> k"
  shows "same_side (ps ! j) (ps ! k)"
  using assms(3,2)
proof (induction k rule: dec_induct)
  case (step n)
  have "hop_allowed (ps ! n) (ps ! Suc n)" using assms(1) step.prems by (simp add: successively_conv_nth)
  then show ?case using step same_side_hop by simp
qed (rule same_side_refl)

text \<open>C26. Credentials stay with the server they were given for. In a chain of redirects followed by the guard, a request that
  still carries a header \<open>authorization\<close>, \<open>proxy-authorization\<close>, \<open>cookie\<close> or \<open>host\<close> goes to the origin of the first
  request, and so did every request before it; a chain that leaves the origin and comes back has lost them. No
  header appears that the first request did not have, and after a request over TLS every later one is over TLS.\<close>

theorem redirects_keep_credentials:
  "\<forall>run' r. gp_enabled pol \<longrightarrow> fr_requests run = [] \<longrightarrow> guardedFetch env pol n input i run = (run', r) \<longrightarrow>
     (\<forall>k < length (fr_requests run'). \<forall>j \<le> k.
        (\<forall>h \<in> set CROSS_ORIGIN_STRIPPED_HEADERS. js_get (init_headers (snd (fr_requests run' ! k))) h \<noteq> None \<longrightarrow>
           url_origin (fst (fr_requests run' ! j)) = url_origin (fst (fr_requests run' ! k))) \<and>
        (\<forall>h. js_get (init_headers (snd (fr_requests run' ! k))) h \<in> {None, js_get (init_headers (snd (fr_requests run' ! j))) h}) \<and>
        (url_protocol (fst (fr_requests run' ! j)) = ''https:'' \<longrightarrow> url_protocol (fst (fr_requests run' ! k)) = ''https:''))"
proof (intro allI impI)
  fix run' r k j
  assume "gp_enabled pol" "fr_requests run = []" "guardedFetch env pol n input i run = (run', r)"
    and k: "k < length (fr_requests run')" "j \<le> k"
  then have "successively hop_allowed (fr_requests run')" using guardedFetch_chain[of pol env n input i run run' r] by auto
  from chain_pairs[OF this k] show
    "(\<forall>h \<in> set CROSS_ORIGIN_STRIPPED_HEADERS. js_get (init_headers (snd (fr_requests run' ! k))) h \<noteq> None \<longrightarrow>
        url_origin (fst (fr_requests run' ! j)) = url_origin (fst (fr_requests run' ! k))) \<and>
     (\<forall>h. js_get (init_headers (snd (fr_requests run' ! k))) h \<in> {None, js_get (init_headers (snd (fr_requests run' ! j))) h}) \<and>
     (url_protocol (fst (fr_requests run' ! j)) = ''https:'' \<longrightarrow> url_protocol (fst (fr_requests run' ! k)) = ''https:'')"
    unfolding same_side_def by blast
qed

text \<open>A server that redirects from one host to another, is once overloaded and then answers.\<close>

definition demo_url :: "string \<Rightarrow> url" where
  "demo_url h = \<lparr>url_href = ''https://'' @ h @ ''/'', url_protocol = ''https:'', url_hostname = h, url_origin = ''https://'' @ h\<rparr>"

definition demo_env :: net_env where
  "demo_env =
     \<lparr>ne_url = \<lambda>s base. Inr (demo_url s), ne_dns = \<lambda>n host wants_all. Inr [''93.184.216.34''],
      ne_fetch = \<lambda>n u i. Inr (if url_hostname u = ''api.dev'' then \<lparr>rp_status = 302, rp_headers = [(''location'', ''cdn.dev'')]\<rparr>
        else \<lparr>rp_status = if n = 2 then 503 else 200, rp_headers = []\<rparr>),
      ne_aborted = \<lambda>n. None, ne_random = \<lambda>n. 1/2, ne_parse_float = \<lambda>s. None, ne_number = \<lambda>s. None, ne_until = \<lambda>n s. None\<rparr>"

definition demo_policy :: guard_policy where
  "demo_policy = configureOutboundUrlGuard None [] []"

definition demo_init :: request_init where
  "demo_init = no_init\<lparr>ri_headers := Some [(''authorization'', ''Bearer k''), (''accept'', ''text/html'')],
     ri_body := Some (Stream_body (Inr ''data''))\<rparr>"

definition start_run :: fetch_run where
  "start_run = \<lparr>fr_tick = 0, fr_requests = [], fr_sleeps = []\<rparr>"

theorem redirects_keep_credentials_witness:
  "\<exists>run' r. guardedFetch demo_env demo_policy 20 (Input_text ''api.dev'') demo_init start_run = (run', r) \<and>
     map (\<lambda>q. (url_hostname (fst q), js_keys (init_headers (snd q)))) (fr_requests run') =
       [(''api.dev'', [''authorization'', ''accept'']), (''cdn.dev'', [''accept''])] \<and>
     js_get (init_headers (snd (fr_requests run' ! 1))) ''authorization'' = None"
proof -
  obtain run' r where run: "guardedFetch demo_env demo_policy 20 (Input_text ''api.dev'') demo_init start_run = (run', r)"
    by (cases "guardedFetch demo_env demo_policy 20 (Input_text ''api.dev'') demo_init start_run")
  have "gp_enabled demo_policy" "fr_requests start_run = []" by code_simp+
  have "map (\<lambda>q. (url_hostname (fst q), js_keys (init_headers (snd q))))
      (fr_requests (fst (guardedFetch demo_env demo_policy 20 (Input_text ''api.dev'') demo_init start_run))) =
    [(''api.dev'', [''authorization'', ''accept'']), (''cdn.dev'', [''accept''])]" by code_simp
  then have m: "map (\<lambda>q. (url_hostname (fst q), js_keys (init_headers (snd q)))) (fr_requests run') =
    [(''api.dev'', [''authorization'', ''accept'']), (''cdn.dev'', [''accept''])]" by (simp add: run)
  have "\<forall>q \<in> set (fr_requests (fst (guardedFetch demo_env demo_policy 20 (Input_text ''api.dev'') demo_init start_run))).
    url_origin (fst q) = ''https://'' @ url_hostname (fst q)" by code_simp
  then have origin: "\<forall>q \<in> set (fr_requests run'). url_origin (fst q) = ''https://'' @ url_hostname (fst q)" by (simp add: run)
  from m obtain p q where pq: "fr_requests run' = [p, q]" "url_hostname (fst p) = ''api.dev''" "url_hostname (fst q) = ''cdn.dev''"
    by (auto simp: map_eq_Cons_conv)
  have "js_get (init_headers (snd (fr_requests run' ! 1))) ''authorization'' = None"
  proof (rule ccontr)
    assume "js_get (init_headers (snd (fr_requests run' ! 1))) ''authorization'' \<noteq> None"
    then have "url_origin (fst (fr_requests run' ! 0)) = url_origin (fst (fr_requests run' ! 1))"
      using redirects_keep_credentials[of demo_policy start_run demo_env 20 "Input_text ''api.dev''" demo_init, rule_format,
        OF \<open>gp_enabled demo_policy\<close> \<open>fr_requests start_run = []\<close> run, of 1 0] pq(1)
      by (simp add: CROSS_ORIGIN_STRIPPED_HEADERS_def)
    then show False using origin pq by simp
  qed
  with run m show ?thesis by (intro exI conjI)
qed

section \<open>Retries\<close>

text \<open>Why an attempt is followed by another one, and the pause before it.\<close>

definition retryable :: "bool \<Rightarrow> fetch_error + response \<Rightarrow> bool" where
  "retryable idempotent x =
     (case x of Inr res \<Rightarrow> isRetryableOutboundStatus (rp_status res) idempotent | Inl e \<Rightarrow> isRetryableOutboundTransportError e idempotent)"

definition pause_allowed :: "nat \<Rightarrow> rat \<Rightarrow> bool" where
  "pause_allowed attempt d \<longleftrightarrow> (0 \<le> d \<and> d \<le> 5000) \<or> (900 * 2 ^ attempt \<le> d \<and> d \<le> 1100 * 2 ^ attempt)"

lemma retryDelayMs_bounds:
  assumes "0 \<le> ne_random env n" "ne_random env n < 1"
  shows "900 * 2 ^ attempt \<le> retryDelayMs env n attempt \<and> retryDelayMs env n attempt \<le> 1100 * 2 ^ attempt"
proof -
  let ?x = "1000 * 2 ^ attempt * (1 + (ne_random env n - 1/2) * (1/5)) :: rat"
  have "9/10 \<le> 1 + (ne_random env n - 1/2) * (1/5)" "1 + (ne_random env n - 1/2) * (1/5) \<le> 11/10"
    using assms by (simp_all add: field_simps)
  from mult_left_mono[OF this(1), of "1000 * 2 ^ attempt"] mult_left_mono[OF this(2), of "1000 * 2 ^ attempt"]
  have x: "of_int (900 * 2 ^ attempt) \<le> ?x" "?x \<le> of_int (1100 * 2 ^ attempt)" by simp_all
  have "of_int (900 * 2 ^ attempt) \<le> ?x + 1/2" using x(1) by linarith
  then have "900 * 2 ^ attempt \<le> \<lfloor>?x + 1/2\<rfloor>" by (simp only: le_floor_iff)
  moreover have "?x + 1/2 < of_int (1100 * 2 ^ attempt + 1)" using x(2) unfolding of_int_add of_int_1 by linarith
  then have "\<lfloor>?x + 1/2\<rfloor> < 1100 * 2 ^ attempt + 1" by (simp only: floor_less_iff)
  then have "\<lfloor>?x + 1/2\<rfloor> \<le> 1100 * 2 ^ attempt" by simp
  ultimately have "of_int (900 * 2 ^ attempt) \<le> (of_int \<lfloor>?x + 1/2\<rfloor> :: rat)" "(of_int \<lfloor>?x + 1/2\<rfloor> :: rat) \<le> of_int (1100 * 2 ^ attempt)"
    by (simp_all only: of_int_le_iff)
  moreover have "0 \<le> (of_int \<lfloor>?x + 1/2\<rfloor> :: rat)" using calculation(1) by (rule order_trans[rotated]) simp
  ultimately show ?thesis unfolding retryDelayMs_def Let_def by (simp only: max_absorb2) simp
qed

lemma retryAfterMs_bounds: "retryAfterMs env n hs = Some d \<Longrightarrow> 0 \<le> d \<and> d \<le> 5000"
  by (auto simp: retryAfterMs_def Let_def MAX_RETRY_AFTER_MS_def split: option.splits if_splits)

lemma retry_loop_step:
  assumes "retry_loop env pol idem signal input i left attempt run = (run', r)"
  obtains (gone) e where "run' = run" "r = Inl e"
  | (tried) run1 x where "guardedFetch env pol MAX_REDIRECTS input i (fr_tick_update Suc run) = (run1, x)" "run' = run1" "r = x"
  | (slept) run1 x l d run2 where "guardedFetch env pol MAX_REDIRECTS input i (fr_tick_update Suc run) = (run1, x)"
      "left = Suc l" "retryable idem x" "\<forall>n. 0 \<le> ne_random env n \<and> ne_random env n < 1 \<Longrightarrow> pause_allowed attempt d"
      "fr_requests run2 = fr_requests run1" "fr_sleeps run2 = fr_sleeps run1 @ [d]"
      "run' = run2 \<or> retry_loop env pol idem signal input i l (Suc attempt) run2 = (run', r)"
proof (cases "if signal then ne_aborted env (fr_tick run) else None")
  case (Some e)
  then show thesis using assms gone by (auto simp: retry_loop.simps)
next
  case None
  obtain run1 x where f: "guardedFetch env pol MAX_REDIRECTS input i (fr_tick_update Suc run) = (run1, x)"
    by (cases "guardedFetch env pol MAX_REDIRECTS input i (fr_tick_update Suc run)")
  define delay where "delay = retryDelayMs env (fr_tick run) attempt"
  define d where "d = (case x of Inr res \<Rightarrow> (case retryAfterMs env (fr_tick run1) (rp_headers res) of None \<Rightarrow> delay | Some d \<Rightarrow> d) | Inl e \<Rightarrow> delay)"
  define run2 where "run2 = run1\<lparr>fr_tick := Suc (fr_tick run1), fr_sleeps := fr_sleeps run1 @ [d]\<rparr>"
  have run2: "fr_requests run2 = fr_requests run1" "fr_sleeps run2 = fr_sleeps run1 @ [d]" by (simp_all add: run2_def)
  have d: "pause_allowed attempt d" if "\<forall>n. 0 \<le> ne_random env n \<and> ne_random env n < 1"
    using retryDelayMs_bounds[of env "fr_tick run" attempt] that retryAfterMs_bounds
    by (auto simp: d_def delay_def pause_allowed_def split: sum.split option.split)
  have "run' = run1 \<and> r = x \<or> (\<exists>l. left = Suc l \<and> retryable idem x \<and>
      (run' = run2 \<or> retry_loop env pol idem signal input i l (Suc attempt) run2 = (run', r)))"
    using assms None unfolding retry_loop.simps[of env pol idem signal input i left]
    by (cases x) (auto simp: Let_def f sleep_def retryable_def isRetryableOutboundTransportError_def run2_def d_def delay_def
        split: if_splits nat.splits option.splits)
  then show thesis using tried[OF f] slept[OF f _ _ d run2] by blast
qed

text \<open>The requests of all attempts, one chain of redirects each; \<open>b\<close> is the body every attempt starts with.\<close>

definition attempt_allowed :: "guard_policy \<Rightarrow> request_body option \<Rightarrow> (url \<times> request_init) list \<Rightarrow> bool" where
  "attempt_allowed pol b c \<longleftrightarrow>
     length c \<le> Suc MAX_REDIRECTS \<and> list_all (request_allowed pol) c \<and> successively hop_allowed c \<and>
     (c \<noteq> [] \<longrightarrow> ri_body (snd (hd c)) = b)"

lemma guardedFetch_attempt:
  assumes "gp_enabled pol" "guardedFetch env pol MAX_REDIRECTS input i (fr_tick_update f run) = (run1, x)"
  obtains new where "fr_requests run1 = fr_requests run @ new" "attempt_allowed pol (ri_body (mergeRequestInit input i)) new"
  using guardedFetch_chain[OF assms] by (auto simp: attempt_allowed_def)

lemma retry_loop_chains:
  assumes "gp_enabled pol" "retry_loop env pol idem signal input i left attempt run = (run', r)"
  shows "\<exists>hops. fr_requests run' = fr_requests run @ concat hops \<and> length hops \<le> Suc left \<and>
    list_all (attempt_allowed pol (ri_body (mergeRequestInit input i))) hops"
  using assms(2)
proof (induction left arbitrary: attempt run)
  case 0
  from 0 show ?case
  proof (cases rule: retry_loop_step)
    case gone
    then show ?thesis by (intro exI[of _ "[]"]) simp
  next
    case (tried run1 x)
    from guardedFetch_attempt[OF assms(1) tried(1)] obtain new where "fr_requests run1 = fr_requests run @ new"
      "attempt_allowed pol (ri_body (mergeRequestInit input i)) new" by blast
    then show ?thesis using tried by (intro exI[of _ "[new]"]) simp
  qed simp
next
  case (Suc left)
  from Suc.prems show ?case
  proof (cases rule: retry_loop_step)
    case gone
    then show ?thesis by (intro exI[of _ "[]"]) simp
  next
    case (tried run1 x)
    from guardedFetch_attempt[OF assms(1) tried(1)] obtain new where "fr_requests run1 = fr_requests run @ new"
      "attempt_allowed pol (ri_body (mergeRequestInit input i)) new" by blast
    then show ?thesis using tried by (intro exI[of _ "[new]"]) simp
  next
    case (slept run1 x l d run2)
    from guardedFetch_attempt[OF assms(1) slept(1)] obtain new where new: "fr_requests run1 = fr_requests run @ new"
      "attempt_allowed pol (ri_body (mergeRequestInit input i)) new" by blast
    obtain hops where "fr_requests run' = fr_requests run2 @ concat hops" "length hops \<le> Suc left"
      "list_all (attempt_allowed pol (ri_body (mergeRequestInit input i))) hops"
    proof (cases "run' = run2")
      case True
      then show thesis using that[of "[]"] by simp
    qed (use slept(2,7) Suc.IH[of "Suc attempt" run2] that in auto)
    then show ?thesis using new slept(5) by (intro exI[of _ "new # hops"]) auto
  qed
qed

lemma guardedFetch_sleeps: "fr_sleeps (fst (guardedFetch env pol n input i run)) = fr_sleeps run"
proof (induction n arbitrary: input i run)
  case 0
  show ?case by (simp add: guardedFetch.simps Let_def send_request_def split: sum.split option.split)
next
  case (Suc n)
  show ?case unfolding guardedFetch.simps[of env pol "Suc n"]
    by (simp add: Let_def send_request_def Suc.IH split: sum.split option.split)
qed

lemma retry_loop_pauses:
  assumes "\<forall>n. 0 \<le> ne_random env n \<and> ne_random env n < 1" "retry_loop env pol idem signal input i left attempt run = (run', r)"
  shows "\<exists>ps. fr_sleeps run' = fr_sleeps run @ ps \<and> length ps \<le> left \<and> (\<forall>k < length ps. pause_allowed (attempt + k) (ps ! k))"
  using assms(2)
proof (induction left arbitrary: attempt run)
  case 0
  from 0 show ?case
    by (cases rule: retry_loop_step) (use guardedFetch_sleeps[of env pol MAX_REDIRECTS input i "fr_tick_update Suc run"] in auto)
next
  case (Suc left)
  from Suc.prems show ?case
  proof (cases rule: retry_loop_step)
    case (slept run1 x l d run2)
    have s: "fr_sleeps run2 = fr_sleeps run @ [d]"
      using guardedFetch_sleeps[of env pol MAX_REDIRECTS input i "fr_tick_update Suc run"] slept(1,6) by simp
    have "\<exists>ps. fr_sleeps run' = fr_sleeps run2 @ ps \<and> length ps \<le> left \<and> (\<forall>k < length ps. pause_allowed (Suc attempt + k) (ps ! k))"
    proof (cases "run' = run2")
      case False
      then show ?thesis using slept(2,7) Suc.IH[of "Suc attempt" run2] by simp
    qed simp
    then obtain ps where ps: "fr_sleeps run' = fr_sleeps run2 @ ps" "length ps \<le> left"
      "\<forall>k < length ps. pause_allowed (Suc attempt + k) (ps ! k)" by blast
    have "\<forall>k < length (d # ps). pause_allowed (attempt + k) ((d # ps) ! k)"
    proof (intro allI impI)
      fix k
      assume "k < length (d # ps)"
      then show "pause_allowed (attempt + k) ((d # ps) ! k)" using slept(4)[OF assms(1)] ps(3) by (cases k) auto
    qed
    then show ?thesis using ps(1,2) s by (intro exI[of _ "d # ps"]) simp
  qed (use guardedFetch_sleeps[of env pol MAX_REDIRECTS input i "fr_tick_update Suc run"] in auto)
qed

section \<open>The whole fetch\<close>

lemma concat_length: "list_all (\<lambda>c. length c \<le> n) cs \<Longrightarrow> length (concat cs) \<le> n * length cs"
  by (induction cs) auto

lemma materialize_replayable:
  assumes "materializeReplayableOutboundRequest env input i = Inr (input', i')"
  shows "\<nexists>c. ri_body (mergeRequestInit input' i') = Some (Stream_body c)"
proof (cases "ri_body (mergeRequestInit input i)")
  case None
  then show ?thesis using assms by (auto simp: materializeReplayableOutboundRequest_def bindE_Inr_iff Let_def)
next
  case (Some b)
  then show ?thesis using assms
    by (cases b) (auto simp: materializeReplayableOutboundRequest_def bindE_Inr_iff Let_def)
qed

lemma outbound_fetch_loop:
  assumes "outbound_fetch env pol opts input i = (run', r)"
  obtains (refused) "run' = start_run"
  | (looped) input' i' signal where "retry_loop env pol (fo_idempotent opts) signal input' i' (fo_max_retries opts) 0 start_run = (run', r)"
      "fo_max_retries opts > 0 \<Longrightarrow> \<nexists>c. ri_body (mergeRequestInit input' i') = Some (Stream_body c)"
proof (cases "fo_max_retries opts > 0")
  case True
  let ?i = "withPrependedUserAgent (mergeRequestInit input (case i of None \<Rightarrow> no_init | Some x \<Rightarrow> x)) (fo_user_agent opts)"
  show thesis
  proof (cases "materializeReplayableOutboundRequest env input ?i")
    case (Inl e)
    then show thesis using assms refused True
      by (simp add: outbound_fetch_def withOutboundHttpRetries_def start_run_def)
  next
    case (Inr p)
    obtain input' i' where p: "p = (input', i')" by (cases p)
    then show thesis using assms looped[of "ri_signal (mergeRequestInit input ?i)" input' i'] True Inr
        materialize_replayable[of env input ?i input' i']
      by (simp add: outbound_fetch_def withOutboundHttpRetries_def start_run_def Let_def)
  qed
next
  case False
  then show thesis using assms looped
    by (simp add: outbound_fetch_def withOutboundHttpRetries_def start_run_def Let_def)
qed

text \<open>C25. Whatever servers, DNS and redirects answer, the guarded fetch only ever sends requests that the policy allows: over
  \<open>http\<close> or \<open>https\<close>, to a host that passes \<open>assertHost\<close>, and never with the following of redirects left to the
  client underneath. It sends at most 21 requests per attempt, and the attempts are bounded by the options.\<close>

theorem outbound_requests_allowed:
  "gp_enabled pol \<longrightarrow>
     list_all (request_allowed pol) (fr_requests (fst (outbound_fetch env pol opts input i))) \<and>
     length (fr_requests (fst (outbound_fetch env pol opts input i))) \<le> 21 * (fo_max_retries opts + 1)"
proof
  assume on: "gp_enabled pol"
  obtain run' r where run': "outbound_fetch env pol opts input i = (run', r)" by (cases "outbound_fetch env pol opts input i")
  then show "list_all (request_allowed pol) (fr_requests (fst (outbound_fetch env pol opts input i))) \<and>
     length (fr_requests (fst (outbound_fetch env pol opts input i))) \<le> 21 * (fo_max_retries opts + 1)"
  proof (cases rule: outbound_fetch_loop)
    case refused
    then show ?thesis using run' by (simp add: start_run_def)
  next
    case (looped input' i' signal)
    from retry_loop_chains[OF on looped(1)] obtain hops where hops: "fr_requests run' = concat hops" "length hops \<le> Suc (fo_max_retries opts)"
      "list_all (attempt_allowed pol (ri_body (mergeRequestInit input' i'))) hops" by (auto simp: start_run_def)
    have "length (concat hops) \<le> 21 * length hops"
      by (rule concat_length) (use hops(3) in \<open>auto simp: list_all_iff attempt_allowed_def MAX_REDIRECTS_def\<close>)
    moreover have "list_all (request_allowed pol) (concat hops)"
      using hops(3) by (auto simp: list_all_iff attempt_allowed_def)
    ultimately show ?thesis using hops(1,2) run' by simp
  qed
qed

theorem outbound_requests_allowed_witness:
  "list_all (request_allowed demo_policy)
     (fr_requests (fst (outbound_fetch demo_env demo_policy defaultOutboundFetchOptions (Input_text ''api.dev'') (Some demo_init)))) \<and>
   length (fr_requests (fst (outbound_fetch demo_env demo_policy defaultOutboundFetchOptions (Input_text ''api.dev'') (Some demo_init)))) \<le>
     21 * (fo_max_retries defaultOutboundFetchOptions + 1)"
proof -
  have "gp_enabled demo_policy" by code_simp
  then show ?thesis
    using outbound_requests_allowed[of demo_policy demo_env defaultOutboundFetchOptions "Input_text ''api.dev''" "Some demo_init"] by blast
qed

text \<open>A fetch that may be repeated never sends a body that can be read only once: no request of any attempt or redirect
  carries a stream, because the body was read into memory before the first attempt.\<close>

theorem retried_bodies_replayable:
  "gp_enabled pol \<longrightarrow> fo_max_retries opts > 0 \<longrightarrow>
     list_all (\<lambda>q. \<nexists>c. ri_body (snd q) = Some (Stream_body c)) (fr_requests (fst (outbound_fetch env pol opts input i)))"
proof (intro impI)
  assume on: "gp_enabled pol" and retries: "fo_max_retries opts > 0"
  obtain run' r where run': "outbound_fetch env pol opts input i = (run', r)" by (cases "outbound_fetch env pol opts input i")
  then show "list_all (\<lambda>q. \<nexists>c. ri_body (snd q) = Some (Stream_body c)) (fr_requests (fst (outbound_fetch env pol opts input i)))"
  proof (cases rule: outbound_fetch_loop)
    case refused
    then show ?thesis using run' by (simp add: start_run_def)
  next
    case (looped input' i' signal)
    let ?b = "ri_body (mergeRequestInit input' i')"
    from retry_loop_chains[OF on looped(1)] obtain hops where hops: "fr_requests run' = concat hops"
      "list_all (attempt_allowed pol ?b) hops" by (auto simp: start_run_def)
    have "ri_body (snd q) \<in> {None, ?b}" if "c \<in> set hops" "q \<in> set c" for c q
    proof -
      obtain k where k: "k < length c" "q = c ! k" using \<open>q \<in> set c\<close> by (auto simp: in_set_conv_nth)
      have c: "attempt_allowed pol ?b c" using hops(2) \<open>c \<in> set hops\<close> by (simp add: list_all_iff)
      then have "same_side (c ! 0) (c ! k)" using chain_pairs[of c k 0] k by (simp add: attempt_allowed_def)
      moreover have "ri_body (snd (c ! 0)) = ?b" using c k by (cases c) (auto simp: attempt_allowed_def)
      ultimately show ?thesis using k(2) by (simp add: same_side_def)
    qed
    then show ?thesis using hops(1) run' looped(2)[OF retries] by (fastforce simp: list_all_iff)
  qed
qed

theorem retried_bodies_replayable_witness:
  "list_all (\<lambda>q. \<nexists>c. ri_body (snd q) = Some (Stream_body c))
     (fr_requests (fst (outbound_fetch demo_env demo_policy defaultOutboundFetchOptions (Input_text ''api.dev'') (Some demo_init))))"
proof -
  have "gp_enabled demo_policy" "fo_max_retries defaultOutboundFetchOptions > 0" by code_simp+
  then show ?thesis
    using retried_bodies_replayable[of demo_policy defaultOutboundFetchOptions demo_env "Input_text ''api.dev''" "Some demo_init"] by blast
qed

text \<open>C34. A fetch pauses at most as often as its options allow retries, and every pause is bounded: it is what the server asked
  for, between 0 and 5 seconds, or the backoff of the attempt, within a tenth of \<open>2 ^ attempt\<close> seconds, rounding included.\<close>

theorem outbound_pauses_bounded:
  "(\<forall>n. 0 \<le> ne_random env n \<and> ne_random env n < 1) \<longrightarrow>
     length (fr_sleeps (fst (outbound_fetch env pol opts input i))) \<le> fo_max_retries opts \<and>
     (\<forall>k < length (fr_sleeps (fst (outbound_fetch env pol opts input i))).
        pause_allowed k (fr_sleeps (fst (outbound_fetch env pol opts input i)) ! k))"
proof
  assume rand: "\<forall>n. 0 \<le> ne_random env n \<and> ne_random env n < 1"
  obtain run' r where run': "outbound_fetch env pol opts input i = (run', r)" by (cases "outbound_fetch env pol opts input i")
  then show "length (fr_sleeps (fst (outbound_fetch env pol opts input i))) \<le> fo_max_retries opts \<and>
     (\<forall>k < length (fr_sleeps (fst (outbound_fetch env pol opts input i))).
        pause_allowed k (fr_sleeps (fst (outbound_fetch env pol opts input i)) ! k))"
  proof (cases rule: outbound_fetch_loop)
    case refused
    then show ?thesis using run' by (simp add: start_run_def)
  next
    case (looped input' i' signal)
    from retry_loop_pauses[OF rand looped(1)] show ?thesis using run' by (auto simp: start_run_def)
  qed
qed

theorem outbound_pauses_bounded_witness:
  "fr_sleeps (fst (outbound_fetch demo_env demo_policy defaultOutboundFetchOptions (Input_text ''api.dev'') (Some demo_init))) = [1000] \<and>
   pause_allowed 0 1000"
proof -
  have s: "fr_sleeps (fst (outbound_fetch demo_env demo_policy defaultOutboundFetchOptions (Input_text ''api.dev'') (Some demo_init))) = [1000]"
    by code_simp
  have "\<forall>n. 0 \<le> ne_random demo_env n \<and> ne_random demo_env n < 1" by (simp add: demo_env_def)
  then show ?thesis
    using outbound_pauses_bounded[of demo_env demo_policy defaultOutboundFetchOptions "Input_text ''api.dev''" "Some demo_init"] unfolding s by simp
qed

text \<open>A call that is not safe to repeat is not repeated once the server may have seen it. If the client is not idempotent, as
  the one for remote tools is not, the attempt is the last one and its outcome is the outcome of the fetch, unless the
  status says that the request was not processed or the connection was never made; a timeout while waiting for headers and
  the statuses 409, 502, 520 and 524 end the fetch.\<close>

theorem unsafe_calls_not_replayed:
  "\<forall>run1 x. (signal \<longrightarrow> ne_aborted env (fr_tick run) = None) \<longrightarrow>
     guardedFetch env pol MAX_REDIRECTS input i (fr_tick_update Suc run) = (run1, x) \<longrightarrow>
     (case x of Inr res \<Rightarrow> rp_status res \<notin> set UNPROCESSED_RETRY_STATUSES
              | Inl e \<Rightarrow> getErrorCode e \<noteq> Some ''UND_ERR_CONNECT_TIMEOUT'') \<longrightarrow>
     retry_loop env pol False signal input i left attempt run = (run1, x)"
  by (auto simp: retry_loop.simps[of env pol False] Let_def isRetryableOutboundStatus_def transportRetryReason_def
      split: sum.split nat.split)

theorem unsafe_calls_not_replayed_witness:
  "\<exists>run1 x. retry_loop (demo_env\<lparr>ne_fetch := \<lambda>n u i. Inr \<lparr>rp_status = 502, rp_headers = []\<rparr>\<rparr>) demo_policy False False
     (Input_text ''mcp.dev'') no_init 2 0 start_run = (run1, x) \<and> x = Inr \<lparr>rp_status = 502, rp_headers = []\<rparr>"
proof -
  let ?env = "demo_env\<lparr>ne_fetch := \<lambda>n u i. Inr \<lparr>rp_status = 502, rp_headers = []\<rparr>\<rparr>"
  obtain run1 x where x: "guardedFetch ?env demo_policy MAX_REDIRECTS (Input_text ''mcp.dev'') no_init (fr_tick_update Suc start_run) = (run1, x)"
    by (cases "guardedFetch ?env demo_policy MAX_REDIRECTS (Input_text ''mcp.dev'') no_init (fr_tick_update Suc start_run)")
  have "snd (guardedFetch ?env demo_policy MAX_REDIRECTS (Input_text ''mcp.dev'') no_init (fr_tick_update Suc start_run)) =
    Inr \<lparr>rp_status = 502, rp_headers = []\<rparr>" by code_simp
  then have "x = Inr \<lparr>rp_status = 502, rp_headers = []\<rparr>" using x by simp
  then show ?thesis
    using unsafe_calls_not_replayed[of False ?env start_run demo_policy "Input_text ''mcp.dev''" no_init 2 0] x
    by (simp add: UNPROCESSED_RETRY_STATUSES_def)
qed

section \<open>Connections\<close>

text \<open>C27. The sockets of the guard connect to public addresses only. When a name is looked up that the policy does not allow
  by name, every address handed to the socket is outside all blocked ranges in whatever notation DNS returned it, the name is
  not a blocked one, and it has no private suffix; and there is an address.\<close>

theorem lookup_returns_public_addresses:
  "\<forall>addresses. gp_enabled pol \<longrightarrow> normalizeHost hostname \<notin> set (gp_allowed pol) \<longrightarrow> isIP (normalizeHost hostname) = 0 \<longrightarrow>
     guardedLookup pol dns hostname wants_all = Inr addresses \<longrightarrow>
     addresses \<noteq> [] \<and> (\<forall>s \<in> set addresses. \<forall>a. parse_ip s = Some a \<longrightarrow> \<not> check_block privateNets a) \<and>
     normalizeHost hostname \<notin> set (gp_blocked pol) \<and> \<not> list_ex (ends_with (normalizeHost hostname)) denyHostSuffixes"
proof (intro allI impI)
  fix addresses
  assume h: "gp_enabled pol" "normalizeHost hostname \<notin> set (gp_allowed pol)" "isIP (normalizeHost hostname) = 0"
    and ok: "guardedLookup pol dns hostname wants_all = Inr addresses"
  from ok h obtain found where found: "dns hostname True = Inr found" "assertHost pol (normalizeHost hostname) = Inr ()"
    by (auto simp: guardedLookup_def Let_def bindE_Inr_iff)
  with ok h have "addresses \<noteq> [] \<and> (\<forall>s \<in> set addresses. \<not> isPrivateIp s) \<and> assertHost pol (normalizeHost hostname) = Inr ()"
    by (cases found) (auto simp: guardedLookup_def Let_def list_ex_iff split: if_splits)
  then show "addresses \<noteq> [] \<and> (\<forall>s \<in> set addresses. \<forall>a. parse_ip s = Some a \<longrightarrow> \<not> check_block privateNets a) \<and>
     normalizeHost hostname \<notin> set (gp_blocked pol) \<and> \<not> list_ex (ends_with (normalizeHost hostname)) denyHostSuffixes"
    using h public_text_checked by (auto simp: assertHost_def split: if_splits)
qed

theorem lookup_returns_public_addresses_witness:
  "guardedLookup demo_policy (\<lambda>h wants_all. Inr [''93.184.216.34'']) ''Cdn.dev.'' False = Inr [''93.184.216.34''] \<and>
   guardedLookup demo_policy (\<lambda>h wants_all. Inr [''93.184.216.34'', ''::ffff:7f00:1'']) ''cdn.dev'' False = Inl (blockedError ''cdn.dev'' []) \<and>
   \<not> check_block privateNets (Ipv4 0x5DB8D822)"
proof -
  have 1: "guardedLookup demo_policy (\<lambda>h wants_all. Inr [''93.184.216.34'']) ''Cdn.dev.'' False = Inr [''93.184.216.34'']" by code_simp
  have "parse_ip ''93.184.216.34'' = Some (Ipv4 0x5DB8D822)" "gp_enabled demo_policy"
    "normalizeHost ''Cdn.dev.'' \<notin> set (gp_allowed demo_policy)" "isIP (normalizeHost ''Cdn.dev.'') = 0" by code_simp+
  with lookup_returns_public_addresses[of demo_policy "''Cdn.dev.''" "\<lambda>h wants_all. Inr [''93.184.216.34'']" False] 1
  have "\<not> check_block privateNets (Ipv4 0x5DB8D822)" by simp
  moreover have "guardedLookup demo_policy (\<lambda>h wants_all. Inr [''93.184.216.34'', ''::ffff:7f00:1'']) ''cdn.dev'' False =
    Inl (blockedError ''cdn.dev'' [])" by code_simp
  ultimately show ?thesis using 1 by blast
qed

end
