(* ===== verification/Deferred_Tools.thy ===== *)
theory Deferred_Tools
  imports Tool_Calls
begin

text \<open>
  \<open>core/runtime/DeferredTool.ts\<close>: the local tool set through which a model finds and calls the tools of servers that are not
  preloaded. A server is a tool set behind its interface, with operations over one state \<open>'s\<close> of all of them.

  A \<open>deferred_world\<close> has \<open>JSON.stringify\<close>, the text of validation errors, and the schemas of a tool, of which the
  model of tool lists keeps only what the code reads elsewhere; \<open>dw_definition\<close> has the description and the JSON schema of the
  arguments of a local tool.
\<close>

definition DEFERRED_TOOLS_SERVER_ID :: string where "DEFERRED_TOOLS_SERVER_ID = ''deferred-tools''"
definition LIST_TOOLS_NAME :: string where "LIST_TOOLS_NAME = ''list_tools''"
definition GET_TOOL_INFO_NAME :: string where "GET_TOOL_INFO_NAME = ''get_tool_info''"
definition GET_TOOL_OUTPUT_SCHEMA_NAME :: string where "GET_TOOL_OUTPUT_SCHEMA_NAME = ''get_tool_output_schema''"
definition CALL_TOOL_NAME :: string where "CALL_TOOL_NAME = ''call_tool''"
definition MAX_DESCRIPTION_LENGTH :: nat where "MAX_DESCRIPTION_LENGTH = 200"

record 's deferred_server =
  ds_set :: "'s tool_source"
  ds_preload :: bool
  ds_description :: "string option"

record deferred_world =
  dw_stringify :: "json \<Rightarrow> string"
  dw_issues :: "json \<Rightarrow> json"
  dw_definition :: "string \<Rightarrow> agent_tool_schema"
  dw_input_schema :: "tool_input_schema \<Rightarrow> json"
  dw_output_schema :: "agent_tool_schema \<Rightarrow> json option"

section \<open>Arguments of the tools\<close>

fun string_field :: "string \<Rightarrow> json \<Rightarrow> string option" where
  "string_field k (JObj fs) = (case js_get fs k of Some (JStr s) \<Rightarrow> Some s | _ \<Rightarrow> None)"
| "string_field k v = None"

definition listToolsSchema :: "json \<Rightarrow> string option" where
  "listToolsSchema v = string_field ''mcp_server'' v"

definition getToolInfoSchema :: "json \<Rightarrow> (string \<times> string) option" where
  "getToolInfoSchema v =
     (case (string_field ''mcp_server'' v, string_field ''tool_name'' v) of
        (Some server, Some tool) \<Rightarrow> Some (server, tool)
      | _ \<Rightarrow> None)"

definition callToolSchema :: "json \<Rightarrow> (string \<times> call_params) option" where
  "callToolSchema v =
     (case (getToolInfoSchema v, v) of
        (Some (server, tool), JObj fs) \<Rightarrow>
          (case js_get fs ''input'' of
             None \<Rightarrow> Some (server, \<lparr>cp_name = tool, cp_arguments = JObj []\<rparr>)
           | Some (JObj inp) \<Rightarrow> Some (server, \<lparr>cp_name = tool, cp_arguments = JObj inp\<rparr>)
           | Some x \<Rightarrow> None)
      | _ \<Rightarrow> None)"

definition validated :: "deferred_world \<Rightarrow> (json \<Rightarrow> 'i option) \<Rightarrow> json \<Rightarrow> json + 'i" where
  "validated w parse raw = (case parse raw of None \<Rightarrow> Inl (dw_issues w raw) | Some i \<Rightarrow> Inr i)"

section \<open>Servers\<close>

definition serverMap :: "'s deferred_server list \<Rightarrow> (string, 's deferred_server) js_map" where
  "serverMap servers = fold (\<lambda>s m. js_set (tsrc_name (ds_set s)) s m) servers []"

text \<open>The servers the instruction names, with the start of their descriptions; no section without any.\<close>

definition deferred_list :: "'s deferred_server list \<Rightarrow> string option" where
  "deferred_list servers =
     (case filter (\<lambda>s. \<not> ds_preload s) (js_values (serverMap servers)) of
        [] \<Rightarrow> None
      | ds \<Rightarrow> Some (join newline (map (\<lambda>s.
          ''- '' @ tsrc_name (ds_set s) @
          (case ds_description s of
             None \<Rightarrow> ''''
           | Some d \<Rightarrow> if d = '''' then '''' else '': '' @ CHR 0x22 # take MAX_DESCRIPTION_LENGTH d @ [CHR 0x22])) ds)))"

definition error_response :: "deferred_world \<Rightarrow> string \<Rightarrow> call_tool_response" where
  "error_response w msg = toolResultResponse (dw_stringify w (JObj [(''error'', JStr msg)])) True"

definition quoted :: "string \<Rightarrow> string" where
  "quoted s = CHR 0x27 # s @ [CHR 0x27]"

fun caught_text :: "tool_error \<Rightarrow> string" where
  "caught_text Not_an_error = ''unknown''"
| "caught_text e = error_text e"

text \<open>\<open>overrides\<close>: the metadata of a list response.\<close>

definition with_metadata :: "mcp_server_init_info option \<Rightarrow> call_tool_response \<Rightarrow> call_tool_response" where
  "with_metadata wasInit r = (case r of Call_result c \<Rightarrow> Call_result (c\<lparr>cr_was_initialized := wasInit\<rparr>) | _ \<Rightarrow> r)"

text \<open>A response that ends the tool, or the tools of the server with the metadata of the list.\<close>

definition resolveServerTools ::
    "deferred_world \<Rightarrow> 's deferred_server list \<Rightarrow> string \<Rightarrow> 's \<Rightarrow>
       's \<times> (tool_error + (call_tool_response + agent_tool_schema list \<times> mcp_server_init_info option))" where
  "resolveServerTools w servers name s =
     (case js_get (serverMap servers) name of
        None \<Rightarrow> (s, Inr (Inl (error_response w (''MCP server '' @ quoted name @ '' not found''))))
      | Some server \<Rightarrow>
          (case tsrc_list (ds_set server) s of
             (s', Inl e) \<Rightarrow> (s', Inl e)
           | (s', Inr (List_auth_required auths)) \<Rightarrow> (s', Inr (Inl (Call_auth_required auths)))
           | (s', Inr (List_tools tools wasInit)) \<Rightarrow> (s', Inr (Inr (tools, wasInit)))))"

section \<open>The four tools\<close>

definition list_tools_handler ::
    "deferred_world \<Rightarrow> 's deferred_server list \<Rightarrow> string \<Rightarrow> 's \<Rightarrow> 's \<times> (tool_error + call_tool_response)" where
  "list_tools_handler w servers name s =
     (case resolveServerTools w servers name s of
        (s', Inl e) \<Rightarrow> (s', Inr (error_response w (''Failed to list tools for '' @ quoted name @ '': '' @ caught_text e)))
      | (s', Inr (Inl r)) \<Rightarrow> (s', Inr r)
      | (s', Inr (Inr (tools, wasInit))) \<Rightarrow>
          (s', Inr (with_metadata wasInit (toolResultResponse
             (name @ '':'' @ newline @ ''  '' @ join '', '' (map tl_name tools)) False))))"

definition option_json :: "json option \<Rightarrow> json" where
  "option_json x = (case x of None \<Rightarrow> JNull | Some v \<Rightarrow> v)"

text \<open>\<open>get_tool_info\<close> and \<open>get_tool_output_schema\<close> differ in what they show of the tool and in the error text.\<close>

definition show_tool_handler ::
    "deferred_world \<Rightarrow> 's deferred_server list \<Rightarrow> string \<Rightarrow> (agent_tool_schema \<Rightarrow> json) \<Rightarrow> string \<times> string \<Rightarrow> 's \<Rightarrow>
       's \<times> (tool_error + call_tool_response)" where
  "show_tool_handler w servers failed shown inp s =
     (case inp of (name, tool) \<Rightarrow>
      case resolveServerTools w servers name s of
        (s', Inl e) \<Rightarrow> (s', Inr (error_response w (failed @ caught_text e)))
      | (s', Inr (Inl r)) \<Rightarrow> (s', Inr r)
      | (s', Inr (Inr (tools, wasInit))) \<Rightarrow>
          (s', Inr (with_metadata wasInit
             (case List.find (\<lambda>t. tl_name t = tool) tools of
                None \<Rightarrow> error_response w (''Tool '' @ quoted tool @ '' not found on server '' @ quoted name)
              | Some t \<Rightarrow> toolResultResponse (dw_stringify w (shown t)) False))))"

definition get_tool_info_handler ::
    "deferred_world \<Rightarrow> 's deferred_server list \<Rightarrow> string \<times> string \<Rightarrow> 's \<Rightarrow> 's \<times> (tool_error + call_tool_response)" where
  "get_tool_info_handler w servers =
     show_tool_handler w servers ''Failed to get tool info: ''
       (\<lambda>t. JObj ((case tl_description t of None \<Rightarrow> [] | Some d \<Rightarrow> [(''description'', JStr d)]) @
          [(''inputSchema'', dw_input_schema w (tl_input_schema t)), (''outputSchema'', option_json (dw_output_schema w t))]))"

definition get_tool_output_schema_handler ::
    "deferred_world \<Rightarrow> 's deferred_server list \<Rightarrow> string \<times> string \<Rightarrow> 's \<Rightarrow> 's \<times> (tool_error + call_tool_response)" where
  "get_tool_output_schema_handler w servers =
     show_tool_handler w servers ''Failed to get output schema: ''
       (\<lambda>t. JObj [(''outputSchema'', option_json (dw_output_schema w t))])"

definition unexpected_response :: "call_tool_response \<Rightarrow> bool" where
  "unexpected_response r = (case r of Call_create_sub_agent a \<Rightarrow> True | Call_client_side_required i \<Rightarrow> True | _ \<Rightarrow> False)"

definition call_tool_handler ::
    "deferred_world \<Rightarrow> 's deferred_server list \<Rightarrow> string \<times> call_params \<Rightarrow> approval_decision option \<Rightarrow> 's \<Rightarrow>
       's \<times> (tool_error + call_tool_response)" where
  "call_tool_handler w servers inp decision s =
     (case inp of (name, params) \<Rightarrow>
      case js_get (serverMap servers) name of
        None \<Rightarrow> (s, Inr (error_response w (''MCP server '' @ quoted name @ '' not found'')))
      | Some server \<Rightarrow>
          (case tsrc_call (ds_set server) params decision s of
             (s', Inl e) \<Rightarrow> (s', Inr (error_response w (''Tool call failed: '' @ caught_text e)))
           | (s', Inr r) \<Rightarrow>
               if unexpected_response r
               then (s', Inr (error_response w (''Tool call failed: Tool call returned an unexpected sub-agent response'')))
               else (s', Inr r)))"

definition tool_schema :: "deferred_world \<Rightarrow> string \<Rightarrow> agent_tool_schema" where
  "tool_schema w name = (dw_definition w name)\<lparr>tl_name := name, tl_annotations := None, tl_preload := True\<rparr>"

definition buildTools :: "deferred_world \<Rightarrow> 's deferred_server list \<Rightarrow> 's local_tool list" where
  "buildTools w servers =
     [\<lparr>lt_schema = tool_schema w LIST_TOOLS_NAME, lt_execute =
         withValidatedInput (dw_stringify w) (validated w listToolsSchema) (\<lambda>i d. list_tools_handler w servers i)\<rparr>,
      \<lparr>lt_schema = tool_schema w GET_TOOL_INFO_NAME, lt_execute =
         withValidatedInput (dw_stringify w) (validated w getToolInfoSchema) (\<lambda>i d. get_tool_info_handler w servers i)\<rparr>,
      \<lparr>lt_schema = tool_schema w GET_TOOL_OUTPUT_SCHEMA_NAME, lt_execute =
         withValidatedInput (dw_stringify w) (validated w getToolInfoSchema) (\<lambda>i d. get_tool_output_schema_handler w servers i)\<rparr>,
      \<lparr>lt_schema = tool_schema w CALL_TOOL_NAME, lt_execute =
         withValidatedInput (dw_stringify w) (validated w callToolSchema) (call_tool_handler w servers)\<rparr>]"

section \<open>What a call is about\<close>

definition deferred_info :: "call_params \<Rightarrow> internal_tool_call_info" where
  "deferred_info params = (local_toolCallInfo DEFERRED_TOOLS_SERVER_ID params)\<lparr>ti_is_deferred := Some True\<rparr>"

definition deferred_toolCallInfo ::
    "'s deferred_server list \<Rightarrow> call_params \<Rightarrow> bool option \<Rightarrow> 's \<Rightarrow> 's \<times> (tool_error + internal_tool_call_info)" where
  "deferred_toolCallInfo servers params resolve s =
     (if cp_name params \<noteq> CALL_TOOL_NAME then (s, Inr (local_toolCallInfo DEFERRED_TOOLS_SERVER_ID params))
      else if resolve = Some False then (s, Inr (deferred_info params))
      else case callToolSchema (cp_arguments params) of
          None \<Rightarrow> (s, Inr (deferred_info params))
        | Some (name, underlying) \<Rightarrow>
            (case js_get (serverMap servers) name of
               None \<Rightarrow> (s, Inr (deferred_info params))
             | Some server \<Rightarrow>
                 (case tsrc_info (ds_set server) underlying None s of
                    (s', Inl e) \<Rightarrow> (s', Inl e)
                  | (s', Inr info) \<Rightarrow> (s', Inr (info\<lparr>ti_is_deferred := Some True\<rparr>)))))"

definition deferred_tool :: "deferred_world \<Rightarrow> 's deferred_server list \<Rightarrow> 's tool_source" where
  "deferred_tool w servers =
     (local_source (dw_stringify w) DEFERRED_TOOLS_SERVER_ID (buildTools w servers))\<lparr>tsrc_info := deferred_toolCallInfo servers\<rparr>"

end
