(* ===== verification/Deferred_Tools_Props.thy ===== *)
theory Deferred_Tools_Props
  imports Deferred_Tools Tool_Calls_Props
begin

text \<open>
  A call that goes through the deferred tools is gated as the call it stands for. \<open>gated_servers\<close> is what the deferred tools ask
  of the servers they call: that calls are gated and that listing and describing tools runs none of them. From it follows
  the contract \<open>gated_calls\<close> of the deferred tools themselves; it is discharged for tool sets that share one state.
\<close>

section \<open>Which call a deferred call stands for\<close>

definition deferred_target :: "'s deferred_server list \<Rightarrow> call_params \<Rightarrow> ('s deferred_server \<times> call_params) option" where
  "deferred_target servers p =
     (if cp_name p \<noteq> CALL_TOOL_NAME then None
      else Option.bind (callToolSchema (cp_arguments p)) (\<lambda>(name, q).
        map_option (\<lambda>server. (server, q)) (js_get (serverMap servers) name)))"

abbreviation deferred_call ::
    "deferred_world \<Rightarrow> 's deferred_server list \<Rightarrow> call_params \<Rightarrow> approval_decision option \<Rightarrow> 's \<Rightarrow>
       's \<times> (tool_error + call_tool_response)" where
  "deferred_call w servers \<equiv> tsrc_call (deferred_tool w servers)"

lemma serverMap_in: "js_get (serverMap servers) n = Some server \<Longrightarrow> server \<in> set servers \<and> tsrc_name (ds_set server) = n"
proof -
  have "js_get (fold (\<lambda>s m. js_set (tsrc_name (ds_set s)) s m) servers m) n = Some server \<Longrightarrow>
    (server \<in> set servers \<and> tsrc_name (ds_set server) = n) \<or> js_get m n = Some server" for m
    by (induction servers arbitrary: m) (fastforce split: if_splits)+
  from this[of "[]"] show "js_get (serverMap servers) n = Some server \<Longrightarrow> ?thesis" by (simp add: serverMap_def)
qed

lemma resolve_state:
  "fst (resolveServerTools w servers n s) =
     (case js_get (serverMap servers) n of None \<Rightarrow> s | Some server \<Rightarrow> fst (tsrc_list (ds_set server) s))"
  by (auto simp: resolveServerTools_def split: option.split sum.split prod.split list_tools_response.split)

text \<open>A call of the deferred tools only lists the tools of one server, or is the call it stands for, or does nothing.\<close>

lemma deferred_call_effect:
  obtains (none) "fst (deferred_call w servers p d s) = s"
  | (listed) server where "server \<in> set servers" "fst (deferred_call w servers p d s) = fst (tsrc_list (ds_set server) s)"
  | (called) server q where "server \<in> set servers" "deferred_target servers p = Some (server, q)"
      "fst (deferred_call w servers p d s) = fst (tsrc_call (ds_set server) q d s)"
proof -
  have resolve: "fst (resolveServerTools w servers n s) = s \<or>
    (\<exists>server \<in> set servers. fst (resolveServerTools w servers n s) = fst (tsrc_list (ds_set server) s))" for n
    using serverMap_in[of servers n] by (auto simp: resolve_state split: option.split)
  have handlers: "fst (list_tools_handler w servers n s) = fst (resolveServerTools w servers n s)"
    "fst (show_tool_handler w servers f j (n, t) s) = fst (resolveServerTools w servers n s)" for n t f j
    by (auto simp: list_tools_handler_def show_tool_handler_def split: sum.split prod.split)
  have call: "fst (call_tool_handler w servers (n, q) d s) = s \<or>
    (\<exists>server. js_get (serverMap servers) n = Some server \<and> fst (call_tool_handler w servers (n, q) d s) = fst (tsrc_call (ds_set server) q d s))" for n q
    by (auto simp: call_tool_handler_def split: option.split sum.split prod.split)
  have "fst (deferred_call w servers p d s) = s \<or>
    (\<exists>server \<in> set servers. fst (deferred_call w servers p d s) = fst (tsrc_list (ds_set server) s)) \<or>
    (\<exists>server q. server \<in> set servers \<and> deferred_target servers p = Some (server, q) \<and>
       fst (deferred_call w servers p d s) = fst (tsrc_call (ds_set server) q d s))"
  proof (cases "cp_name p \<in> {LIST_TOOLS_NAME, GET_TOOL_INFO_NAME, GET_TOOL_OUTPUT_SCHEMA_NAME}")
    case True
    then show ?thesis
      using resolve
      by (auto simp: deferred_tool_def local_source_def local_executeTool_def buildTools_def tool_schema_def withValidatedInput_def
          validated_def handlers get_tool_info_handler_def get_tool_output_schema_handler_def LIST_TOOLS_NAME_def GET_TOOL_INFO_NAME_def
          GET_TOOL_OUTPUT_SCHEMA_NAME_def CALL_TOOL_NAME_def split: option.split)
  next
    case other: False
    show ?thesis
    proof (cases "cp_name p = CALL_TOOL_NAME")
      case True
      then have e: "deferred_call w servers p d s =
          withValidatedInput (dw_stringify w) (validated w callToolSchema) (call_tool_handler w servers) (cp_arguments p) d s"
        by (simp add: deferred_tool_def local_source_def local_executeTool_def buildTools_def tool_schema_def LIST_TOOLS_NAME_def
            GET_TOOL_INFO_NAME_def GET_TOOL_OUTPUT_SCHEMA_NAME_def CALL_TOOL_NAME_def)
      show ?thesis
      proof (cases "callToolSchema (cp_arguments p)")
        case None
        then show ?thesis by (simp add: e withValidatedInput_def validated_def)
      next
        case (Some x)
        obtain n q where x: "x = (n, q)" by (cases x)
        from call[of n q] serverMap_in[of servers n] show ?thesis
          by (auto simp: e withValidatedInput_def validated_def Some x deferred_target_def True)
      qed
    next
      case False
      then have "List.find (\<lambda>t. tl_name (lt_schema t) = cp_name p) (buildTools w servers) = None"
        using other by (auto simp: buildTools_def tool_schema_def)
      then show ?thesis by (simp add: deferred_tool_def local_source_def local_executeTool_def)
    qed
  qed
  then show thesis using none listed called by blast
qed

section \<open>The gate\<close>

locale gated_servers =
  fixes w :: deferred_world
    and servers :: "'s deferred_server list"
    and executed :: "'s \<Rightarrow> 'c list"
    and needs :: "'s deferred_server \<Rightarrow> call_params \<Rightarrow> 's \<Rightarrow> bool"
  assumes server_denied: "server \<in> set servers \<Longrightarrow> is_denial d \<Longrightarrow> executed (fst (tsrc_call (ds_set server) q d s)) = executed s"
    and server_undecided: "server \<in> set servers \<Longrightarrow> needs server q s \<Longrightarrow> executed (fst (tsrc_call (ds_set server) q None s)) = executed s"
    and server_list: "server \<in> set servers \<Longrightarrow> executed (fst (tsrc_list (ds_set server) s)) = executed s"
begin

definition deferred_needs :: "call_params \<Rightarrow> 's \<Rightarrow> bool" where
  "deferred_needs p s \<longleftrightarrow> (\<exists>server q. deferred_target servers p = Some (server, q) \<and> needs server q s)"

lemma discovery_executes_nothing:
  "deferred_target servers p = None \<Longrightarrow> executed (fst (deferred_call w servers p d s)) = executed s"
  by (rule deferred_call_effect[of w servers p d s]) (auto simp: server_list)

end

sublocale gated_servers \<subseteq> deferred: gated_calls "deferred_call w servers" executed deferred_needs
proof unfold_locales
  fix d p s
  show "is_denial d \<Longrightarrow> executed (fst (deferred_call w servers p d s)) = executed s"
    by (rule deferred_call_effect[of w servers p d s]) (auto simp: server_list server_denied)
  show "deferred_needs p s \<Longrightarrow> executed (fst (deferred_call w servers p None s)) = executed s"
    by (rule deferred_call_effect[of w servers p None s]) (auto simp: server_list server_undecided deferred_needs_def)
qed

section \<open>Tool sets as the servers\<close>

text \<open>The tool sets of a turn keep their states side by side, each under the name of its server.\<close>

definition set_source :: "(json \<Rightarrow> string) \<Rightarrow> int \<Rightarrow> 's tool_source \<Rightarrow> (tool_set_state \<times> 's) tool_source" where
  "set_source stringify now src =
     \<lparr>tsrc_name = tsrc_name src, tsrc_id = tsrc_id src, tsrc_list = ts_listTools src,
      tsrc_call = ts_callTool stringify src now, tsrc_info = ts_toolCallInfo src now\<rparr>"

definition at_server :: "string \<Rightarrow> 't tool_source \<Rightarrow> (string \<Rightarrow> 't) tool_source" where
  "at_server n src =
     \<lparr>tsrc_name = n, tsrc_id = tsrc_id src,
      tsrc_list = (\<lambda>st. case tsrc_list src (st n) of (t, r) \<Rightarrow> (st(n := t), r)),
      tsrc_call = (\<lambda>params d st. case tsrc_call src params d (st n) of (t, r) \<Rightarrow> (st(n := t), r)),
      tsrc_info = (\<lambda>params res st. case tsrc_info src params res (st n) of (t, r) \<Rightarrow> (st(n := t), r))\<rparr>"

definition tool_set_servers ::
    "(json \<Rightarrow> string) \<Rightarrow> int \<Rightarrow> (string \<Rightarrow> 's tool_source) \<Rightarrow> string list \<Rightarrow>
       (string \<Rightarrow> tool_set_state \<times> call_params list \<times> 's) deferred_server list" where
  "tool_set_servers stringify now srcs names =
     map (\<lambda>n. \<lparr>ds_set = at_server n (set_source stringify now (logging (srcs n))), ds_preload = False, ds_description = None\<rparr>) names"

lemma tool_set_servers_ops:
  assumes "server \<in> set (tool_set_servers stringify now srcs names)"
  shows "tsrc_name (ds_set server) \<in> set names"
    "fst (tsrc_list (ds_set server) st) = st(tsrc_name (ds_set server) :=
       fst (ts_listTools (logging (srcs (tsrc_name (ds_set server)))) (st (tsrc_name (ds_set server)))))"
    "fst (tsrc_call (ds_set server) q d st) = st(tsrc_name (ds_set server) :=
       fst (ts_callTool stringify (logging (srcs (tsrc_name (ds_set server)))) now q d (st (tsrc_name (ds_set server)))))"
  using assms by (auto simp: tool_set_servers_def at_server_def set_source_def split: prod.split)

lemma ts_list_log: "fst (snd (fst (ts_listTools (logging src) st))) = fst (snd st)"
proof -
  obtain ts lg s where st: "st = (ts, lg, s)" by (cases st)
  obtain lg' s1 r where l: "tsrc_list (logging src) (lg, s) = ((lg', s1), r)" by (cases "tsrc_list (logging src) (lg, s)") auto
  then have "lg' = lg" using logging_list[of src lg s] by simp
  then show ?thesis using l st by (simp add: ts_listTools_def Let_def split: sum.split list_tools_response.split prod.split)
qed

lemma ts_call_log:
  "fst (snd (fst (ts_callTool stringify (logging src) now p d st))) \<in> {fst (snd st), fst (snd st) @ [p]}"
proof -
  obtain ts lg s where st: "st = (ts, lg, s)" by (cases st)
  obtain s1 r where l: "tsrc_list (logging src) (lg, s) = ((lg, s1), r)"
    using logging_list[of src lg s] by (cases "tsrc_list (logging src) (lg, s)") (auto simp: prod_eq_iff)
  have call: "fst (fst (tsrc_call (logging src) p e (l, x))) = l @ [p]" for e l x
    by (simp add: logging_def split: prod.split)
  show ?thesis
  proof (cases "\<exists>tools w. r = Inr (List_tools tools w)")
    case True
    then obtain tools w where r: "r = Inr (List_tools tools w)" by blast
    let ?an = "findAnnotations tools (cp_name p)"
    obtain ts2 lg2 s2 i where b: "buildToolCallInfo (logging src) now p ?an None (ts, lg, s1) = ((ts2, lg2, s2), i)"
      by (cases "buildToolCallInfo (logging src) now p ?an None (ts, lg, s1)") auto
    have "lg2 = lg" using build_info_log[of src now p ?an None ts lg s1] b by simp
    moreover obtain lg3 s3 x where c: "tsrc_call (logging src) p d (lg2, s2) = ((lg3, s3), x)"
      by (cases "tsrc_call (logging src) p d (lg2, s2)") auto
    moreover from this have "lg3 = lg2 @ [p]" using call[of d lg2 s2] by simp
    ultimately show ?thesis using l r b st
      by (auto simp: ts_callTool_def Let_def split: sum.splits option.splits approval_decision.splits)
  next
    case False
    then show ?thesis using l st by (auto simp: ts_callTool_def split: sum.splits list_tools_response.splits)
  qed
qed

interpretation sets_gate: gated_servers w "tool_set_servers stringify now srcs names" "\<lambda>st. fst (snd (st k))"
  "\<lambda>server q st. call_needs_approval (logging (srcs (tsrc_name (ds_set server)))) now q (st (tsrc_name (ds_set server)))"
  for w stringify now and srcs :: "string \<Rightarrow> 's tool_source" and names k
proof unfold_locales
  fix server d q and st :: "string \<Rightarrow> tool_set_state \<times> call_params list \<times> 's"
  assume s: "server \<in> set (tool_set_servers stringify now srcs names)"
  note ops = tool_set_servers_ops[OF s]
  let ?n = "tsrc_name (ds_set server)"
  obtain ts lg s where st: "st ?n = (ts, lg, s)" by (cases "st ?n")
  show "is_denial d \<Longrightarrow> fst (snd (fst (tsrc_call (ds_set server) q d st) k)) = fst (snd (st k))"
    using stopped_call_log[of d "srcs ?n" now q ts lg s stringify] st by (simp add: ops)
  show "call_needs_approval (logging (srcs ?n)) now q (st ?n) \<Longrightarrow>
      fst (snd (fst (tsrc_call (ds_set server) q None st) k)) = fst (snd (st k))"
    using stopped_call_log[of None "srcs ?n" now q ts lg s stringify] st by (simp add: ops)
  show "fst (snd (fst (tsrc_list (ds_set server) st) k)) = fst (snd (st k))"
    using ts_list_log[of "srcs ?n" "st ?n"] by (simp add: ops)
qed

text \<open>C28. The deferred tools open no way around the approval of a tool. If a call of a deferred tool makes the source of a server run
  anything, it was \<open>call_tool\<close> with that server in its arguments, the source ran exactly the named tool with the
  given arguments and once, the call was not denied, and if the tool needs an approval, it was allowed. Listing and
  describing tools runs nothing.\<close>

theorem deferred_calls_gated:
  "\<forall>k. fst (snd (fst (deferred_call w (tool_set_servers stringify now srcs names) p d st) k)) \<noteq> fst (snd (st k)) \<longrightarrow>
     (\<exists>q. cp_name p = CALL_TOOL_NAME \<and> callToolSchema (cp_arguments p) = Some (k, q) \<and> k \<in> set names \<and>
        fst (snd (fst (deferred_call w (tool_set_servers stringify now srcs names) p d st) k)) = fst (snd (st k)) @ [q] \<and>
        \<not> is_denial d \<and> (call_needs_approval (logging (srcs k)) now q (st k) \<longrightarrow> d = Some Approval_allow))"
proof (intro allI impI)
  fix k
  let ?servers = "tool_set_servers stringify now srcs names"
  assume run: "fst (snd (fst (deferred_call w ?servers p d st) k)) \<noteq> fst (snd (st k))"
  then have "\<not> is_denial d" using sets_gate.deferred.denied by blast
  obtain server q where s: "deferred_target ?servers p = Some (server, q)"
  proof (cases "deferred_target ?servers p")
    case None
    then show thesis using run sets_gate.discovery_executes_nothing[OF None] by simp
  qed (use that in auto)
  then have name: "cp_name p = CALL_TOOL_NAME" "callToolSchema (cp_arguments p) = Some (tsrc_name (ds_set server), q)"
    "server \<in> set ?servers"
    using serverMap_in by (fastforce simp: deferred_target_def bind_eq_Some_conv split: if_splits)+
  have e: "fst (deferred_call w ?servers p d st) = fst (tsrc_call (ds_set server) q d st)"
  proof (rule deferred_call_effect[of w ?servers p d st])
    fix other
    assume other: "other \<in> set ?servers" "fst (deferred_call w ?servers p d st) = fst (tsrc_list (ds_set other) st)"
    then show ?thesis
      using run ts_list_log[of "srcs (tsrc_name (ds_set other))" "st (tsrc_name (ds_set other))"]
      by (auto simp: tool_set_servers_ops(2)[OF other(1)] split: if_splits)
  qed (use s run in auto)
  note ops = tool_set_servers_ops[OF name(3)]
  have k: "k = tsrc_name (ds_set server)" using run unfolding e ops by (auto split: if_splits)
  have "fst (snd (fst (deferred_call w ?servers p d st) k)) = fst (snd (st k)) @ [q]"
    using run ts_call_log[of stringify "srcs k" now q d "st k"] unfolding e ops k by auto
  moreover have "d = Some Approval_allow" if "call_needs_approval (logging (srcs k)) now q (st k)"
    by (rule sets_gate.deferred.executed_needs_allow[OF run]) (use that s k in \<open>auto simp: sets_gate.deferred_needs_def\<close>)
  ultimately show "\<exists>q. cp_name p = CALL_TOOL_NAME \<and> callToolSchema (cp_arguments p) = Some (k, q) \<and> k \<in> set names \<and>
      fst (snd (fst (deferred_call w ?servers p d st) k)) = fst (snd (st k)) @ [q] \<and>
      \<not> is_denial d \<and> (call_needs_approval (logging (srcs k)) now q (st k) \<longrightarrow> d = Some Approval_allow)"
    using name ops(1) k \<open>\<not> is_denial d\<close> by blast
qed

definition demo_deferred_world :: deferred_world where
  "demo_deferred_world =
     \<lparr>dw_stringify = demo_text, dw_issues = id, dw_definition = \<lambda>n. demo_write_tool, dw_input_schema = \<lambda>t. JNull, dw_output_schema = \<lambda>t. None\<rparr>"

definition demo_deferred_params :: call_params where
  "demo_deferred_params =
     \<lparr>cp_name = ''call_tool'', cp_arguments = JObj [(''mcp_server'', JStr ''fs''), (''tool_name'', JStr ''write'')]\<rparr>"

theorem deferred_calls_gated_witness:
  "let call = (\<lambda>d. fst (snd (fst (deferred_call demo_deferred_world (tool_set_servers demo_text 0 (\<lambda>n. demo_source) [''fs''])
       demo_deferred_params d (\<lambda>n. (demo_tool_set, [], 0))) ''fs'')))
   in call (Some Approval_allow) = [demo_params] \<and> call None = [] \<and> call (Some (Approval_deny None)) = []"
proof -
  let ?st = "\<lambda>n :: string. (demo_tool_set, [] :: call_params list, 0 :: nat)"
  let ?call = "\<lambda>d. fst (snd (fst (deferred_call demo_deferred_world (tool_set_servers demo_text 0 (\<lambda>n. demo_source) [''fs''])
       demo_deferred_params d ?st) ''fs''))"
  have allow: "?call (Some Approval_allow) = [demo_params]" by code_simp
  have q: "callToolSchema (cp_arguments demo_deferred_params) = Some (''fs'', demo_params)"
    "call_needs_approval (logging demo_source) 0 demo_params (demo_tool_set, [], 0)" by code_simp+
  have "?call d = []" if "d \<noteq> Some Approval_allow" for d
  proof (rule ccontr)
    assume "?call d \<noteq> []"
    then show False
      using deferred_calls_gated[of demo_deferred_world demo_text 0 "\<lambda>n. demo_source" "[''fs'']" demo_deferred_params d ?st] q that
      by auto
  qed
  then show ?thesis using allow by (simp add: Let_def)
qed

section \<open>Errors\<close>

lemma answered:
  "\<not> unexpected_response (toolResultResponse t e)" "\<not> unexpected_response (error_response w t)"
  "\<not> unexpected_response (Call_auth_required auths)"
  "unexpected_response (with_metadata m r) \<longleftrightarrow> unexpected_response r"
  by (auto simp: unexpected_response_def toolResultResponse_def error_response_def with_metadata_def split: call_tool_response.split)

text \<open>A call of a deferred tool never throws and never starts a sub-agent: what goes wrong in a server is a tool result, a
  server that asks for an authentication or an approval is passed on, and nothing else comes back.\<close>

theorem deferred_call_answers:
  "\<exists>r. snd (deferred_call w servers p d s) = Inr r \<and>
     ((\<exists>c. r = Call_result c) \<or> (\<exists>auths. r = Call_auth_required auths) \<or> (\<exists>info. r = Call_approval_required info))"
proof -
  let ?answers = "\<lambda>x. \<exists>r. x = Inr r \<and> \<not> unexpected_response r"
  have handlers: "?answers (snd (list_tools_handler w servers n s))" "?answers (snd (show_tool_handler w servers f j (n, t) s))"
    "?answers (snd (call_tool_handler w servers (n, q) d s))" for n t f j q
    by (auto simp: list_tools_handler_def show_tool_handler_def resolveServerTools_def call_tool_handler_def answered
        split: option.split sum.split prod.split list_tools_response.split)
  have "?answers (snd (deferred_call w servers p d s))"
  proof (cases "cp_name p \<in> {LIST_TOOLS_NAME, GET_TOOL_INFO_NAME, GET_TOOL_OUTPUT_SCHEMA_NAME, CALL_TOOL_NAME}")
    case True
    then show ?thesis using handlers
      by (auto simp: deferred_tool_def local_source_def local_executeTool_def buildTools_def tool_schema_def withValidatedInput_def
          validated_def get_tool_info_handler_def get_tool_output_schema_handler_def LIST_TOOLS_NAME_def GET_TOOL_INFO_NAME_def
          GET_TOOL_OUTPUT_SCHEMA_NAME_def CALL_TOOL_NAME_def answered split: option.split)
  next
    case False
    then have "List.find (\<lambda>t. tl_name (lt_schema t) = cp_name p) (buildTools w servers) = None"
      by (auto simp: buildTools_def tool_schema_def)
    then show ?thesis by (simp add: deferred_tool_def local_source_def local_executeTool_def answered)
  qed
  then obtain r where r: "snd (deferred_call w servers p d s) = Inr r" "\<not> unexpected_response r" by blast
  then show ?thesis by (cases r) (auto simp: unexpected_response_def)
qed

end
