(* ===== verification/Context_Compaction.thy ===== *)
theory Context_Compaction
  imports Agent_Thread
begin

text \<open>
  \<open>core/capabilities/builtins/ContextCompaction.ts\<close>: before a model call, a context that has grown over its threshold is replaced
  by a summary, which a model writes. A \<open>compaction_world\<close> has that model, the ids and times, by the number of the run and of
  the event in it, and the text of the prompt. Its answer is the content of the message and the usage.
\<close>

section \<open>The threshold\<close>

definition DEFAULT_CONTEXT_COMPACTION_THRESHOLD_TOKENS :: int where "DEFAULT_CONTEXT_COMPACTION_THRESHOLD_TOKENS = 50 * 1000"
definition DEFAULT_CONTEXT_COMPACTION_RATIO :: rat where "DEFAULT_CONTEXT_COMPACTION_RATIO = 8/10"
definition PROMPT_TOKENS :: rat where "PROMPT_TOKENS = 778"
definition CONTINUATION_MESSAGE_TOKENS :: rat where "CONTINUATION_MESSAGE_TOKENS = 42"

text \<open>The reserved output is read as \<open>resolveMaxOutputTokens\<close> reads it.\<close>

definition resolveCompactionThresholdTokens :: "nat option \<Rightarrow> nat option \<Rightarrow> (string, json) js_map option \<Rightarrow> int" where
  "resolveCompactionThresholdTokens configured context_length params =
     (case configured of
        Some n \<Rightarrow> int n
      | None \<Rightarrow>
          (case context_length of
             None \<Rightarrow> DEFAULT_CONTEXT_COMPACTION_THRESHOLD_TOKENS
           | Some len \<Rightarrow>
               let ratioThreshold = \<lfloor>of_nat len * DEFAULT_CONTEXT_COMPACTION_RATIO\<rfloor> in
               (case Option.bind params resolveMaxOutputTokens of
                  None \<Rightarrow> ratioThreshold
                | Some out \<Rightarrow>
                    if out \<ge> 0
                    then (let inputBudget = \<lfloor>of_nat len - out\<rfloor>
                          in if inputBudget > 0 then min ratioThreshold inputBudget else ratioThreshold)
                    else ratioThreshold)))"

definition contextCompaction :: "(string, json) js_map option \<Rightarrow> nat option \<Rightarrow> nat option \<Rightarrow> nat option \<Rightarrow> int" where
  "contextCompaction params context_length threshold settings_threshold =
     resolveCompactionThresholdTokens (case threshold of None \<Rightarrow> settings_threshold | Some n \<Rightarrow> Some n) context_length params"

section \<open>What is summarised\<close>

definition CONTINUATION_MESSAGE :: context_message where
  "CONTINUATION_MESSAGE = internalSystemMessage
     (''The above is the summarised context of the work so far. The Agent must not repeat or re-run any work that was '' @
      ''already completed. If results were already obtained, the Agent should present them directly.'')"

fun part_text :: "assistant_part \<Rightarrow> string" where
  "part_text (ATextPart t) = t"
| "part_text (ARefusalPart t) = t"

fun formatAssistantContent :: "assistant_content option \<Rightarrow> string" where
  "formatAssistantContent None = ''''"
| "formatAssistantContent (Some (AText t)) = t"
| "formatAssistantContent (Some (AParts ps)) = join newline (map part_text ps)"

definition attachment_text :: "string \<Rightarrow> string" where
  "attachment_text kind = ''[user attached a '' @ kind @ '' here, no longer available after summarization]''"

fun user_part_text :: "content_part \<Rightarrow> string" where
  "user_part_text (PText t) = t"
| "user_part_text (PImage u d) = attachment_text ''image_url''"
| "user_part_text (PInputAudio d f) = attachment_text ''input_audio''"
| "user_part_text (PFile d i n) = attachment_text ''file''"

fun thinking_text :: "nat \<Rightarrow> thinking_block \<Rightarrow> string" where
  "thinking_text n (Thinking t s) = ''<'' @ show_nat n @ ''><assistant-thinking>:'' @ t"
| "thinking_text n (Redacted_thinking d) = ''''"

definition listed :: "'a list option \<Rightarrow> 'a list" where
  "listed x = (case x of None \<Rightarrow> [] | Some xs \<Rightarrow> xs)"

fun message_text :: "nat \<Rightarrow> context_message \<Rightarrow> string" where
  "message_text n (User_msg (UText t)) = ''<'' @ show_nat n @ ''><user>:'' @ t"
| "message_text n (User_msg (UParts ps)) = ''<'' @ show_nat n @ ''><user>:'' @ join newline (map user_part_text ps)"
| "message_text n (Tool_msg m) = ''<'' @ show_nat n @ ''><tool-response id='' @ tm_tool_call_id m @ ''>:'' @ tm_content m"
| "message_text n (Assistant_msg m) =
     concat (map (thinking_text n) (listed (am_thinking_blocks m))) @
     ''<'' @ show_nat n @ ''><assistant>:'' @ formatAssistantContent (am_content m) @
     concat (map (\<lambda>t. ''<tool-call id='' @ tc_id t @ '' name='' @ tc_name t @ ''>:'' @ tc_arguments t) (listed (am_tool_calls m)))"
| "message_text n (Approval_msg i d) = ''''"

definition createSummarizationCandidate :: "context_message list \<Rightarrow> string" where
  "createSummarizationCandidate ctx =
     concat (map (\<lambda>(n, m). if isInternalSystemMessage m \<or> \<not> isLLMContextMessage m then '''' else message_text n m) (enumerate 0 ctx))"

section \<open>The processor\<close>

record compaction_world =
  cw_prompt :: string
  cw_id :: "nat \<Rightarrow> nat \<Rightarrow> string"
  cw_created :: "nat \<Rightarrow> nat \<Rightarrow> string"
  cw_time :: "nat \<Rightarrow> nat \<Rightarrow> int"
  cw_model :: "nat \<Rightarrow> user_content list \<Rightarrow> thrown + (assistant_content option \<times> completion_usage)"

definition optional_field :: "string \<Rightarrow> rat option \<Rightarrow> (string \<times> json) list" where
  "optional_field k v = (case v of None \<Rightarrow> [] | Some x \<Rightarrow> [(k, JNum x)])"

definition usage_json :: "completion_usage \<Rightarrow> json" where
  "usage_json u =
     JObj ([(''input_tokens'', JNum (of_nat (cu_input_tokens u))), (''output_tokens'', JNum (of_nat (cu_output_tokens u))),
            (''total_tokens'', JNum (of_nat (cu_total_tokens u)))] @
       optional_field ''cache_read_tokens'' (map_option of_nat (cu_cache_read_tokens u)) @
       optional_field ''cache_write_tokens'' (map_option of_nat (cu_cache_write_tokens u)) @
       optional_field ''reasoning_tokens'' (map_option of_nat (cu_reasoning_tokens u)) @
       optional_field ''cost_in_usd'' (cu_cost_in_usd u))"

definition event_json :: "compaction_world \<Rightarrow> nat \<Rightarrow> nat \<Rightarrow> string \<Rightarrow> (string \<times> json) list \<Rightarrow> json" where
  "event_json w n k kind parts =
     JObj ([(''type'', JStr kind), (''id'', JStr (cw_id w n k)), (''created_at'', JStr (cw_created w n k))] @ parts)"

definition trigger_json :: "rat \<Rightarrow> int \<Rightarrow> json" where
  "trigger_json contextTokens threshold =
     JObj [(''type'', JStr ''context_threshold_exceeded''), (''context_tokens'', JNum (of_int \<lceil>contextTokens\<rceil>)),
           (''threshold_tokens'', JNum (of_int threshold))]"

definition plain_assistant :: "assistant_content option \<Rightarrow> internal_assistant_message" where
  "plain_assistant content =
     \<lparr>am_content = content, am_name = None, am_refusal = None, am_tool_calls = None, am_thinking_blocks = None,
      am_reasoning_content = None, am_source = None\<rparr>"

definition compacted_context :: "assistant_content option \<Rightarrow> context_message list" where
  "compacted_context content = [Assistant_msg (plain_assistant content), CONTINUATION_MESSAGE]"

definition compacted_usage :: "completion_usage \<Rightarrow> current_context_usage" where
  "compacted_usage u =
     \<lparr>ccu_prompt_tokens = of_nat (cu_input_tokens u) + CONTINUATION_MESSAGE_TOKENS, ccu_completion_tokens = 0\<rparr>"

definition processPreLLM :: "compaction_world \<Rightarrow> int \<Rightarrow> context_processor" where
  "processPreLLM w threshold n x =
     (let contextTokens = ccu_prompt_tokens (ec_usage x) + ccu_completion_tokens (ec_usage x) in
      if contextTokens + PROMPT_TOKENS < of_int threshold then ([], None)
      else
        let trigger = trigger_json contextTokens threshold;
            started = PO_compaction_started (event_json w n 0 ''thread.context_compaction_started'' [(''trigger'', trigger)]) in
        (case cw_model w n [UText (createSummarizationCandidate (ec_context x)), UText (cw_prompt w)] of
           Inl e \<Rightarrow> ([started], Some e)
         | Inr (content, usage) \<Rightarrow>
             ([started,
               PO_compaction_finished (event_json w n 1 ''thread.context_compaction_finished''
                 [(''trigger'', trigger), (''usage'', usage_json usage),
                  (''duration_ms'', JNum (of_int (max 0 (cw_time w n 1 - cw_time w n 0))))]),
               PO_overwrite (cw_id w n 2) (cw_created w n 2) (compacted_context content) (compacted_usage usage) usage],
              None)))"

end
