(* ===== verification/Large_Responses.thy ===== *)
theory Large_Responses
  imports Context_Compaction Deferred_Tools
begin

text \<open>
  \<open>core/capabilities/builtins/LargeToolResponse.ts\<close>: the processor of tool responses that keeps large ones out of the context.
  It changes the results in place, so its result has the list after the changes. The sandbox, if there is one, is the test
  whether a tool set is the sandbox itself and the write of a file, indexed by the order of the writes. Thresholds are whole
  numbers; token estimates are a quarter of the length and not rounded, as in the code.
\<close>

section \<open>Configuration\<close>

definition DEFAULT_INDIVIDUAL_TOOL_TOKEN_THRESHOLD :: nat where "DEFAULT_INDIVIDUAL_TOOL_TOKEN_THRESHOLD = 6000"
definition DEFAULT_TOTAL_TOOL_TOKEN_THRESHOLD :: nat where "DEFAULT_TOTAL_TOOL_TOKEN_THRESHOLD = 10000"
definition DEFAULT_PREVIEW_NUMBER_OF_CHARACTERS :: nat where "DEFAULT_PREVIEW_NUMBER_OF_CHARACTERS = 100"
definition ELEVATED_TOOL_CHARACTER_LIMIT_CAP :: int where "ELEVATED_TOOL_CHARACTER_LIMIT_CAP = 50000"
definition ELEVATED_TOOLS :: "string list" where "ELEVATED_TOOLS = [GET_TOOL_INFO_NAME]"
definition FAILURE_MESSAGE_TRUNCATION_LENGTH :: nat where "FAILURE_MESSAGE_TRUNCATION_LENGTH = 500"

record large_config =
  lc_sub_agents :: bool
  lc_individual :: nat
  lc_total :: nat
  lc_preview :: nat
  lc_context_length :: "nat option"

definition new_large_processor :: "large_config \<Rightarrow> thrown + large_config" where
  "new_large_processor c =
     (if lc_individual c > lc_total c
      then Inl (plain_error (''individualTokenThreshold ('' @ show_nat (lc_individual c) @
        '') must be <= totalTokenThreshold ('' @ show_nat (lc_total c) @ '')''))
      else Inr c)"

definition largeToolResponse ::
    "bool \<Rightarrow> nat option \<Rightarrow> nat option \<Rightarrow> nat option \<Rightarrow> nat option \<Rightarrow> thrown + large_config" where
  "largeToolResponse subAgents context_length individual combined preview =
     new_large_processor
       \<lparr>lc_sub_agents = subAgents,
        lc_individual = (case individual of None \<Rightarrow> DEFAULT_INDIVIDUAL_TOOL_TOKEN_THRESHOLD | Some n \<Rightarrow> n),
        lc_total = (case combined of None \<Rightarrow> DEFAULT_TOTAL_TOOL_TOKEN_THRESHOLD | Some n \<Rightarrow> n),
        lc_preview = (case preview of None \<Rightarrow> DEFAULT_PREVIEW_NUMBER_OF_CHARACTERS | Some n \<Rightarrow> n),
        lc_context_length = context_length\<rparr>"

record sandbox_handle =
  sbx_is_set :: "tool_set_view \<Rightarrow> bool"
  sbx_write :: "nat \<Rightarrow> string \<Rightarrow> string \<Rightarrow> mapped_mcp_tool \<Rightarrow> thrown + (string \<times> sandbox_info option)"

section \<open>Entries\<close>

datatype result_category = Category_failure | Category_sandbox | Category_mcp

record large_entry =
  le_index :: nat
  le_info :: "mapped_mcp_tool option"
  le_content :: string
  le_category :: result_category

definition le_tokens :: "large_entry \<Rightarrow> rat" where "le_tokens e = estimateTokensForString (le_content e)"

definition categorize :: "sandbox_handle option \<Rightarrow> tool_call_result \<Rightarrow> thrown + result_category" where
  "categorize sandbox r =
     (if tcr_failure r then Inr Category_failure
      else case tcr_info r of
          None \<Rightarrow> Inl (plain_error ''Unreachable'')
        | Some info \<Rightarrow>
            (case sandbox of
               Some sb \<Rightarrow> if sbx_is_set sb (mm_tool_set info) then Inr Category_sandbox else Inr Category_mcp
             | None \<Rightarrow> Inr Category_mcp))"

definition slice_end :: "nat \<Rightarrow> string \<Rightarrow> string" where
  "slice_end n s = (if n = 0 then s else drop (length s - n) s)"

definition createContentPreview :: "string \<Rightarrow> nat \<Rightarrow> string" where
  "createContentPreview content n =
     (if length content \<le> n * 2 then content else take n content @ newline @ ''...'' @ newline @ slice_end n content)"

definition remainingContextCharacters :: "nat option \<Rightarrow> current_context_usage \<Rightarrow> rat option" where
  "remainingContextCharacters context_length u =
     map_option (\<lambda>n. max 0 ((of_nat n - (ccu_prompt_tokens u + ccu_completion_tokens u)) * 4)) context_length"

definition elevatedCharacterLimit :: "rat option \<Rightarrow> int" where
  "elevatedCharacterLimit remaining =
     (case remaining of
        None \<Rightarrow> ELEVATED_TOOL_CHARACTER_LIMIT_CAP
      | Some r \<Rightarrow> min ELEVATED_TOOL_CHARACTER_LIMIT_CAP \<lfloor>r * DEFAULT_CONTEXT_COMPACTION_RATIO\<rfloor>)"

definition isWithinElevatedCharacterLimit :: "mapped_mcp_tool option \<Rightarrow> string \<Rightarrow> int \<Rightarrow> bool" where
  "isWithinElevatedCharacterLimit info content limit =
     (case info of
        None \<Rightarrow> False
      | Some i \<Rightarrow> tv_name (mm_tool_set i) = DEFERRED_TOOLS_SERVER_ID \<and> mm_original_tool_name i \<in> set ELEVATED_TOOLS \<and>
          int (length content) \<le> limit)"

fun buildResultsWithInfo ::
    "sandbox_handle option \<Rightarrow> int \<Rightarrow> nat \<Rightarrow> tool_call_result list \<Rightarrow> thrown + large_entry list" where
  "buildResultsWithInfo sandbox limit n [] = Inr []"
| "buildResultsWithInfo sandbox limit n (r # rs) =
     bindE (categorize sandbox r) (\<lambda>c.
     bindE (buildResultsWithInfo sandbox limit (Suc n) rs) (\<lambda>es.
       Inr (if isWithinElevatedCharacterLimit (tcr_info r) (tm_content (tcr_message r)) limit then es
            else \<lparr>le_index = n, le_info = tcr_info r, le_content = tm_content (tcr_message r), le_category = c\<rparr> # es)))"

section \<open>Texts\<close>

definition numbered_steps :: "string list \<Rightarrow> string" where
  "numbered_steps steps = join newline (map (\<lambda>(i, s). show_nat (i + 1) @ ''. '' @ s) (enumerate 0 steps))"

definition individualResponseCharacterLimit :: "large_config \<Rightarrow> string" where
  "individualResponseCharacterLimit cfg = show_nat (lc_individual cfg * 4)"

definition blockReasonDescription :: "large_config \<Rightarrow> large_entry \<Rightarrow> string" where
  "blockReasonDescription cfg e =
     (if le_tokens e > of_nat (lc_individual cfg)
      then ''this exceeds the '' @ individualResponseCharacterLimit cfg @ ''-character tool call response limit''
      else ''the parallel tool call responses together exceed the '' @ show_nat (lc_total cfg * 4) @
        ''-character combined tool call response limit'')"

definition formatBlockedContentPreamble :: "large_config \<Rightarrow> large_entry \<Rightarrow> string" where
  "formatBlockedContentPreamble cfg e =
     ''Content too big ('' @ show_nat (length (le_content e)) @ '' characters; '' @ blockReasonDescription cfg e @ '')''"

definition formatPreview :: "large_config \<Rightarrow> string \<Rightarrow> string" where
  "formatPreview cfg preview = ''Preview (first and last '' @ show_nat (lc_preview cfg) @ '' chars):'' @ newline @ preview"

definition createSandboxLargeToolResponseGuidance :: string where
  "createSandboxLargeToolResponseGuidance =
     ''For use cases where the Agent needs a subset of fields from the MCP response or needs deterministic processing, '' @
     ''write code with the provided MCP client and use <sandbox-mcp-code-mode>.''"

definition createDynamicSubAgentLargeToolResponseGuidance :: string where
  "createDynamicSubAgentLargeToolResponseGuidance =
     ''For large unstructured output like web search, documentation lookup, or broad search results,'' @ newline @
     ''it SHOULD prefer delegating to a sub-agent and MUST ask it to return only the relevant summary, with citations'' @ newline @
     ''when they improve verification.''"

definition createLargeToolResponseGuidance :: "large_config \<Rightarrow> bool \<Rightarrow> large_entry \<Rightarrow> string" where
  "createLargeToolResponseGuidance cfg sandbox e =
     formatBlockedContentPreamble cfg e @ ''. To handle a large tool call it MUST do the following:'' @ newline @
     numbered_steps ([''It MUST check whether a parameter can reduce the output size.''] @
       (if sandbox then [createSandboxLargeToolResponseGuidance] else []) @
       (if lc_sub_agents cfg then [createDynamicSubAgentLargeToolResponseGuidance] else []))"

definition createFileDumpMessage :: "large_config \<Rightarrow> string \<Rightarrow> string \<Rightarrow> large_entry \<Rightarrow> string" where
  "createFileDumpMessage cfg path preview e =
     (let charCap = individualResponseCharacterLimit cfg in
      formatBlockedContentPreamble cfg e @ ''. Result saved to: '' @ path @ ''.'' @ newline @ newline @
      ''To handle a large tool call it MUST do the following:'' @ newline @
      numbered_steps
        ([''It MUST use the sandbox to read or extract from the file.'' @ newline @
          ''It MUST use sandbox-schema-infer to understand the schema.'' @ newline @
          ''Each sandbox tool response MUST stay under the '' @ charCap @ ''-character tool call response limit.'' @ newline @
          ''It MUST prefer one read or extract that returns only what it needs; it MAY use up to '' @ charCap @
          '' character limit when useful.''] @
         (if lc_sub_agents cfg
          then [createDynamicSubAgentLargeToolResponseGuidance @ '' It MUST pass the file path to the sub-agent also.''] else [])) @
      newline @ newline @ formatPreview cfg preview)"

section \<open>Blocking\<close>

definition blocked_text :: "large_config \<Rightarrow> bool \<Rightarrow> large_entry \<Rightarrow> string" where
  "blocked_text cfg sandbox e =
     (let preview = createContentPreview (le_content e) (lc_preview cfg) in
      case le_category e of
        Category_failure \<Rightarrow> take FAILURE_MESSAGE_TRUNCATION_LENGTH (le_content e)
      | Category_sandbox \<Rightarrow>
          formatBlockedContentPreamble cfg e @
          ''. It MUST write the full output to a file, then return only what it needs. Each tool call response MUST stay under the '' @
          individualResponseCharacterLimit cfg @
          '' character tool call response limit. It MAY use grep and sed on the file as needed.'' @ newline @ newline @
          formatPreview cfg preview
      | Category_mcp \<Rightarrow> createLargeToolResponseGuidance cfg sandbox e @ newline @ newline @ formatPreview cfg preview)"

definition set_content :: "nat \<Rightarrow> string \<Rightarrow> tool_call_result list \<Rightarrow> tool_call_result list" where
  "set_content i txt rs =
     rs[i := (rs ! i)\<lparr>tcr_message := (tcr_message (rs ! i))\<lparr>tm_content := txt\<rparr>, tcr_structured := False\<rparr>]"

record block_state =
  bs_results :: "tool_call_result list"
  bs_total :: rat
  bs_dumps :: "large_entry list"

definition blockResult :: "large_config \<Rightarrow> bool \<Rightarrow> large_entry \<Rightarrow> block_state \<Rightarrow> block_state" where
  "blockResult cfg sandbox e st =
     (let txt = blocked_text cfg sandbox e in
      \<lparr>bs_results = set_content (le_index e) txt (bs_results st),
       bs_total = bs_total st - max 0 (le_tokens e - estimateTokensForString txt),
       bs_dumps = (if le_category e = Category_mcp \<and> sandbox then bs_dumps st @ [e] else bs_dumps st)\<rparr>)"

text \<open>First the entries that are too large by themselves; the others are left for the second loop.\<close>

fun block_individual ::
    "large_config \<Rightarrow> bool \<Rightarrow> large_entry list \<Rightarrow> block_state \<times> large_entry list \<Rightarrow> block_state \<times> large_entry list" where
  "block_individual cfg sandbox [] acc = acc"
| "block_individual cfg sandbox (e # es) (st, unblocked) =
     block_individual cfg sandbox es
       (if le_tokens e > of_nat (lc_individual cfg) then (blockResult cfg sandbox e st, unblocked) else (st, unblocked @ [e]))"

fun block_total :: "large_config \<Rightarrow> bool \<Rightarrow> large_entry list \<Rightarrow> block_state \<Rightarrow> block_state" where
  "block_total cfg sandbox [] st = st"
| "block_total cfg sandbox (e # es) st =
     (if bs_total st < of_nat (lc_total cfg) then st else block_total cfg sandbox es (blockResult cfg sandbox e st))"

definition by_size :: "large_entry \<Rightarrow> large_entry \<Rightarrow> int" where
  "by_size a b = int (length (le_content b)) - int (length (le_content a))"

section \<open>Files\<close>

definition dump_file_name :: "mapped_mcp_tool \<Rightarrow> nat \<Rightarrow> nat \<Rightarrow> string" where
  "dump_file_name info index epoch =
     take 40 (map (\<lambda>c. if tool_name_char c then c else CHR ''_'') (mm_original_tool_name info)) @
     ''_'' @ show_nat index @ ''_'' @ show_nat epoch @ ''.txt''"

text \<open>A write that fails leaves the text the result was blocked with.\<close>

definition uploadToSandboxAndPrependFilePath ::
    "large_config \<Rightarrow> sandbox_handle \<Rightarrow> (nat \<Rightarrow> nat) \<Rightarrow> nat \<Rightarrow> large_entry \<Rightarrow> tool_call_result list \<Rightarrow>
       thrown + (tool_call_result list \<times> sandbox_info option)" where
  "uploadToSandboxAndPrependFilePath cfg sandbox now index e rs =
     (case le_info e of
        None \<Rightarrow> Inl (plain_error ''Unreachable'')
      | Some info \<Rightarrow>
          (case sbx_write sandbox index (dump_file_name info index (now index)) (le_content e) info of
             Inl err \<Rightarrow> Inr (rs, None)
           | Inr (path, created) \<Rightarrow>
               Inr (set_content (le_index e)
                      (createFileDumpMessage cfg path (createContentPreview (le_content e) (lc_preview cfg)) e) rs,
                    created)))"

fun executeSandboxDumps ::
    "large_config \<Rightarrow> sandbox_handle \<Rightarrow> (nat \<Rightarrow> nat) \<Rightarrow> nat \<Rightarrow> large_entry list \<Rightarrow> tool_call_result list \<times> sandbox_info option \<Rightarrow>
       thrown + (tool_call_result list \<times> sandbox_info option)" where
  "executeSandboxDumps cfg sandbox now index [] acc = Inr acc"
| "executeSandboxDumps cfg sandbox now index (e # es) (rs, found) =
     bindE (uploadToSandboxAndPrependFilePath cfg sandbox now index e rs) (\<lambda>(rs', created).
       executeSandboxDumps cfg sandbox now (Suc index) es (rs', case found of None \<Rightarrow> created | Some i \<Rightarrow> Some i))"

section \<open>The processor\<close>

definition process_large_responses ::
    "large_config \<Rightarrow> sandbox_handle option \<Rightarrow> (nat \<Rightarrow> nat) \<Rightarrow> tool_call_result list \<Rightarrow> execution_context \<Rightarrow>
       thrown + tool_processor_result" where
  "process_large_responses cfg sandbox now results x =
     (let limit = elevatedCharacterLimit (remainingContextCharacters (lc_context_length cfg) (ec_usage x)) in
      bindE (buildResultsWithInfo sandbox limit 0 results) (\<lambda>entries.
      let running = sum_list (map le_tokens entries) in
      if running \<le> of_nat (lc_individual cfg) then Inr \<lparr>tpr_results = results, tpr_sandbox_created = None, tpr_events = []\<rparr>
      else
        case block_individual cfg (sandbox \<noteq> None) entries (\<lparr>bs_results = results, bs_total = running, bs_dumps = []\<rparr>, []) of
          (st1, unblocked) \<Rightarrow>
            let st2 = block_total cfg (sandbox \<noteq> None) (js_sort by_size unblocked) st1 in
            (case sandbox of
               None \<Rightarrow> Inr \<lparr>tpr_results = bs_results st2, tpr_sandbox_created = None, tpr_events = []\<rparr>
             | Some sb \<Rightarrow>
                 bindE (executeSandboxDumps cfg sb now 0 (bs_dumps st2) (bs_results st2, None)) (\<lambda>(rs, created).
                   Inr \<lparr>tpr_results = rs, tpr_sandbox_created = created, tpr_events = []\<rparr>))))"

end
