(* ===== verification/Large_Responses_Props.thy ===== *)
theory Large_Responses_Props
  imports Large_Responses
begin

text \<open>
  What the processor of large tool responses guarantees: every call keeps its message, what is passed on in full fits the limits,
  and only what has to go is replaced, the largest first.
\<close>

section \<open>Which results count\<close>

definition result_tokens :: "tool_call_result list \<Rightarrow> nat \<Rightarrow> rat" where
  "result_tokens rs i = estimateTokensForString (tm_content (tcr_message (rs ! i)))"

definition counted_results :: "int \<Rightarrow> tool_call_result list \<Rightarrow> nat set" where
  "counted_results limit rs =
     {i. i < length rs \<and> \<not> isWithinElevatedCharacterLimit (tcr_info (rs ! i)) (tm_content (tcr_message (rs ! i))) limit}"

lemma result_tokens_nonneg [simp]: "0 \<le> result_tokens rs i"
  by (simp add: result_tokens_def estimateTokensForString_def)

lemma finite_counted [simp]: "finite (counted_results limit rs)"
  by (simp add: counted_results_def)

lemma buildResults_entries:
  assumes "buildResultsWithInfo sandbox limit n rs = Inr es"
  shows "distinct (map le_index es) \<and>
    le_index ` set es = (\<lambda>i. n + i) ` counted_results limit rs \<and>
    (\<forall>e \<in> set es. n \<le> le_index e \<and> le_index e < n + length rs \<and> le_content e = tm_content (tcr_message (rs ! (le_index e - n))))"
  using assms
proof (induction rs arbitrary: n es)
  case (Cons r rs)
  let ?within = "isWithinElevatedCharacterLimit (tcr_info r) (tm_content (tcr_message r)) limit"
  from Cons.prems obtain c es' where es': "buildResultsWithInfo sandbox limit (Suc n) rs = Inr es'"
    "es = (if ?within then es' else \<lparr>le_index = n, le_info = tcr_info r, le_content = tm_content (tcr_message r), le_category = c\<rparr> # es')"
    by (auto simp: bindE_Inr_iff)
  note IH = Cons.IH[OF es'(1)]
  have c: "counted_results limit (r # rs) = (if ?within then {} else {0}) \<union> Suc ` counted_results limit rs"
  proof (rule set_eqI)
    fix i
    show "i \<in> counted_results limit (r # rs) \<longleftrightarrow> i \<in> (if ?within then {} else {0}) \<union> Suc ` counted_results limit rs"
      by (cases i) (auto simp: counted_results_def)
  qed
  have shift: "(\<lambda>i. n + i) ` Suc ` counted_results limit rs = (\<lambda>i. Suc n + i) ` counted_results limit rs" by (auto simp: image_image)
  have later: "n < le_index e" "le_index e < n + length (r # rs)" "le_content e = tm_content (tcr_message ((r # rs) ! (le_index e - n)))"
    if "e \<in> set es'" for e
    using IH that by (auto simp: nth_Cons' diff_Suc split: nat.split)
  show ?case
  proof (intro conjI ballI)
    show "distinct (map le_index es)" using IH later(1) by (fastforce simp: es'(2))
    show "le_index ` set es = (\<lambda>i. n + i) ` counted_results limit (r # rs)"
      using IH shift unfolding c image_Un by (simp add: es'(2))
  next
    fix e
    assume "e \<in> set es"
    then show "n \<le> le_index e" "le_index e < n + length (r # rs)"
      "le_content e = tm_content (tcr_message ((r # rs) ! (le_index e - n)))"
      using later by (auto simp: es'(2) less_imp_le split: if_splits)
  qed
qed (simp add: counted_results_def)

section \<open>Changes in place\<close>

text \<open>Up to the content of the replaced ones, the results are as they were.\<close>

definition same_call :: "tool_call_result \<Rightarrow> tool_call_result \<Rightarrow> bool" where
  "same_call a b \<longleftrightarrow> tm_tool_call_id (tcr_message a) = tm_tool_call_id (tcr_message b) \<and> tcr_info a = tcr_info b \<and>
     tcr_failure a = tcr_failure b \<and> tcr_completed_at a = tcr_completed_at b"

definition replaced_only :: "tool_call_result list \<Rightarrow> nat set \<Rightarrow> tool_call_result list \<Rightarrow> bool" where
  "replaced_only rs0 B rs \<longleftrightarrow> length rs = length rs0 \<and>
     (\<forall>i < length rs0. same_call (rs0 ! i) (rs ! i) \<and> (if i \<in> B then \<not> tcr_structured (rs ! i) else rs ! i = rs0 ! i))"

lemma replaced_none: "replaced_only rs {} rs"
  by (simp add: replaced_only_def same_call_def)

lemma replaced_set_content:
  assumes "replaced_only rs0 B rs"
  shows "replaced_only rs0 (insert i B) (set_content i txt rs)"
proof -
  have "same_call (rs0 ! j) (set_content i txt rs ! j) \<and>
      (if j \<in> insert i B then \<not> tcr_structured (set_content i txt rs ! j) else set_content i txt rs ! j = rs0 ! j)"
    if "j < length rs0" for j
    using assms that by (cases "j = i") (simp_all add: replaced_only_def set_content_def same_call_def)
  moreover have "length (set_content i txt rs) = length rs0" using assms by (simp add: replaced_only_def set_content_def)
  ultimately show ?thesis unfolding replaced_only_def by blast
qed

lemma replaced_dumps:
  assumes "executeSandboxDumps cfg sb now index es (rs, found) = Inr (rs', found')"
    "replaced_only rs0 B rs" "le_index ` set es \<subseteq> B"
  shows "replaced_only rs0 B rs'"
  using assms
proof (induction es arbitrary: index rs found)
  case (Cons e es)
  from Cons.prems(1) obtain rs1 created where u: "uploadToSandboxAndPrependFilePath cfg sb now index e rs = Inr (rs1, created)"
    "executeSandboxDumps cfg sb now (Suc index) es (rs1, case found of None \<Rightarrow> created | Some i \<Rightarrow> Some i) = Inr (rs', found')"
    by (auto simp: bindE_Inr_iff)
  have "insert (le_index e) B = B" using Cons.prems(3) by auto
  then have "replaced_only rs0 B rs1" using u(1) Cons.prems(2) replaced_set_content[of rs0 B rs "le_index e"]
    by (auto simp: uploadToSandboxAndPrependFilePath_def split: option.splits sum.splits)
  then show ?case using Cons.IH[OF u(2)] Cons.prems(3) by simp
qed simp

section \<open>The texts that replace a result\<close>

text \<open>The room of a replacing text: what is not the number of characters of the result or the path of its file.\<close>

abbreviation digits :: "nat \<Rightarrow> nat" where
  "digits n \<equiv> length (show_nat n)"

definition text_room :: "large_config \<Rightarrow> nat" where
  "text_room cfg = 2000 + 2 * lc_preview cfg + digits (lc_preview cfg) + 4 * digits (lc_individual cfg * 4) + digits (lc_total cfg * 4)"

definition short_text :: "large_config \<Rightarrow> nat \<Rightarrow> string \<Rightarrow> string \<Rightarrow> bool" where
  "short_text cfg extra old new \<longleftrightarrow> length new \<le> text_room cfg + digits (length old) + extra"

lemma preview_bound: "0 < n \<Longrightarrow> length (createContentPreview content n) \<le> 2 * n + 5"
  by (auto simp: createContentPreview_def slice_end_def newline_def)

lemma preamble_bound:
  "length (formatBlockedContentPreamble cfg e) \<le>
     150 + digits (length (le_content e)) + digits (lc_individual cfg * 4) + digits (lc_total cfg * 4)"
  by (simp add: formatBlockedContentPreamble_def blockReasonDescription_def individualResponseCharacterLimit_def)

lemma preview_text_bound: "length (formatPreview cfg p) \<le> 50 + digits (lc_preview cfg) + length p"
  by (simp add: formatPreview_def newline_def)

lemma digits_small [simp]: "digits 1 = 1" "digits (Suc 0) = 1" "digits 2 = 1" "digits 3 = 1" "digits (Suc (Suc 0)) = 1" "digits (Suc (Suc (Suc 0))) = 1"
  by code_simp+

lemma newline_length [simp]: "length newline = 1"
  by (simp add: newline_def)

lemma sub_agent_guidance_bound: "length createDynamicSubAgentLargeToolResponseGuidance \<le> 300"
  by code_simp

lemma sandbox_guidance_bound: "length createSandboxLargeToolResponseGuidance \<le> 200"
  by code_simp

lemma guidance_bound:
  "length (createLargeToolResponseGuidance cfg sandbox e) \<le> 800 + length (formatBlockedContentPreamble cfg e)"
  using sub_agent_guidance_bound sandbox_guidance_bound
  by (simp add: createLargeToolResponseGuidance_def numbered_steps_def)

lemma dump_message_bound:
  "length (createFileDumpMessage cfg path preview e) \<le>
     1400 + length path + length preview + length (formatBlockedContentPreamble cfg e) + digits (lc_preview cfg) + 2 * digits (lc_individual cfg * 4)"
  using sub_agent_guidance_bound preview_text_bound[of cfg preview]
  by (simp add: createFileDumpMessage_def numbered_steps_def individualResponseCharacterLimit_def Let_def)

lemma blocked_text_short: "0 < lc_preview cfg \<Longrightarrow> short_text cfg 0 (le_content e) (blocked_text cfg sandbox e)"
  using preamble_bound[of cfg e] guidance_bound[of cfg sandbox e] preview_bound[of "lc_preview cfg" "le_content e"]
    preview_text_bound[of cfg "createContentPreview (le_content e) (lc_preview cfg)"]
  by (cases "le_category e") (simp_all add: short_text_def text_room_def blocked_text_def Let_def
      FAILURE_MESSAGE_TRUNCATION_LENGTH_def individualResponseCharacterLimit_def)

lemma dump_message_short:
  "0 < lc_preview cfg \<Longrightarrow> length path \<le> extra \<Longrightarrow>
     short_text cfg extra (le_content e) (createFileDumpMessage cfg path (createContentPreview (le_content e) (lc_preview cfg)) e)"
  using preamble_bound[of cfg e] preview_bound[of "lc_preview cfg" "le_content e"]
    dump_message_bound[of cfg path "createContentPreview (le_content e) (lc_preview cfg)" e]
  by (simp add: short_text_def text_room_def)

section \<open>The two loops\<close>

text \<open>\<open>I\<close> are the results that count, \<open>B\<close> the replaced ones: they have short texts, and the running total covers the rest.\<close>

definition short_texts :: "large_config \<Rightarrow> nat \<Rightarrow> tool_call_result list \<Rightarrow> nat set \<Rightarrow> tool_call_result list \<Rightarrow> bool" where
  "short_texts cfg extra rs0 B rs \<longleftrightarrow>
     (\<forall>i \<in> B. short_text cfg extra (tm_content (tcr_message (rs0 ! i))) (tm_content (tcr_message (rs ! i))))"

lemma short_texts_set_content:
  assumes "short_texts cfg extra rs0 B rs" "short_text cfg extra (tm_content (tcr_message (rs0 ! i))) txt" "i < length rs"
  shows "short_texts cfg extra rs0 (insert i B) (set_content i txt rs)"
  unfolding short_texts_def
proof
  fix j assume "j \<in> insert i B"
  then show "short_text cfg extra (tm_content (tcr_message (rs0 ! j))) (tm_content (tcr_message (set_content i txt rs ! j)))"
    using assms by (cases "j = i") (simp_all add: set_content_def short_texts_def)
qed

lemma short_texts_mono: "short_texts cfg 0 rs0 B rs \<Longrightarrow> short_texts cfg extra rs0 B rs"
  by (auto simp: short_texts_def short_text_def intro: le_trans trans_le_add1)

definition blocked_so_far :: "large_config \<Rightarrow> tool_call_result list \<Rightarrow> nat set \<Rightarrow> nat set \<Rightarrow> block_state \<Rightarrow> bool" where
  "blocked_so_far cfg rs0 I B st \<longleftrightarrow> (0 < lc_preview cfg \<longrightarrow> short_texts cfg 0 rs0 B (bs_results st)) \<and> I \<subseteq> {..< length rs0} \<and> replaced_only rs0 B (bs_results st) \<and> B \<subseteq> I \<and> finite I \<and>
     sum (result_tokens rs0) (I - B) \<le> bs_total st \<and> le_index ` set (bs_dumps st) \<subseteq> B \<and>
     (\<forall>e \<in> set (bs_dumps st). le_content e = tm_content (tcr_message (rs0 ! le_index e)))"

lemma block_step:
  assumes "blocked_so_far cfg rs0 I B st" "le_index e \<in> I - B" "le_content e = tm_content (tcr_message (rs0 ! le_index e))"
  shows "blocked_so_far cfg rs0 I (insert (le_index e) B) (blockResult cfg sandbox e st) \<and>
    bs_total (blockResult cfg sandbox e st) \<le> bs_total st"
proof -
  let ?i = "le_index e" and ?txt = "blocked_text cfg sandbox e"
  have tk: "le_tokens e = result_tokens rs0 ?i" by (simp add: le_tokens_def result_tokens_def assms(3))
  have "I - insert ?i B = (I - B) - {?i}" by blast
  then have "sum (result_tokens rs0) (I - insert ?i B) = sum (result_tokens rs0) (I - B) - le_tokens e"
    using assms tk by (simp add: blocked_so_far_def sum_diff1)
  moreover have "max 0 (le_tokens e - estimateTokensForString t) \<le> le_tokens e" for t
    by (simp add: le_tokens_def estimateTokensForString_def max_def)
  ultimately have "sum (result_tokens rs0) (I - insert ?i B) \<le> bs_total (blockResult cfg sandbox e st)"
    using assms(1) by (simp add: blocked_so_far_def blockResult_def Let_def add_mono diff_mono)
  moreover have "?i < length (bs_results st)" using assms(1,2) by (auto simp: blocked_so_far_def replaced_only_def)
  then have "0 < lc_preview cfg \<Longrightarrow> short_texts cfg 0 rs0 (insert ?i B) (set_content ?i ?txt (bs_results st))"
    using assms(1) blocked_text_short[of cfg e sandbox] assms(3)
    by (intro short_texts_set_content) (auto simp: blocked_so_far_def)
  ultimately show ?thesis using assms replaced_set_content[of rs0 B "bs_results st" ?i]
    by (auto simp: blocked_so_far_def blockResult_def Let_def)
qed

definition entries_of :: "tool_call_result list \<Rightarrow> nat set \<Rightarrow> large_entry list \<Rightarrow> bool" where
  "entries_of rs0 J es \<longleftrightarrow> distinct (map le_index es) \<and> le_index ` set es \<subseteq> J \<and>
     (\<forall>e \<in> set es. le_content e = tm_content (tcr_message (rs0 ! le_index e)))"

lemma entries_of_tokens: "entries_of rs0 J es \<Longrightarrow> e \<in> set es \<Longrightarrow> le_tokens e = result_tokens rs0 (le_index e)"
  by (simp add: entries_of_def le_tokens_def result_tokens_def)

lemma entries_of_Cons: "entries_of rs0 J (e # es) \<Longrightarrow> le_index e \<in> J \<and> le_content e = tm_content (tcr_message (rs0 ! le_index e)) \<and>
    entries_of rs0 (J - {le_index e}) es"
  by (simp add: entries_of_def subset_Diff_insert)

lemma block_individual_run:
  assumes "blocked_so_far cfg rs0 I B st" "entries_of rs0 (I - B) es" "block_individual cfg sandbox es (st, us) = (st', us')"
  shows "blocked_so_far cfg rs0 I (B \<union> le_index ` set (filter (\<lambda>e. le_tokens e > of_nat (lc_individual cfg)) es)) st' \<and>
    us' = us @ filter (\<lambda>e. \<not> le_tokens e > of_nat (lc_individual cfg)) es \<and> bs_total st' \<le> bs_total st"
  using assms
proof (induction es arbitrary: B st us)
  case (Cons e es)
  note e = entries_of_Cons[OF Cons.prems(2)]
  show ?case
  proof (cases "le_tokens e > of_nat (lc_individual cfg)")
    case True
    have "entries_of rs0 (I - insert (le_index e) B) es" using e by (auto simp: entries_of_def)
    moreover note st = block_step[OF Cons.prems(1), of e sandbox]
    ultimately show ?thesis using Cons.IH[of "insert (le_index e) B" "blockResult cfg sandbox e st" us] Cons.prems(3) True e by auto
  next
    case False
    have "entries_of rs0 (I - B) es" using e by (auto simp: entries_of_def)
    from Cons.IH[OF Cons.prems(1) this, of "us @ [e]"] show ?thesis using Cons.prems(3) False by simp
  qed
qed simp

lemma block_total_run:
  assumes "blocked_so_far cfg rs0 I B st" "entries_of rs0 (I - B) es"
  shows "\<exists>k \<le> length es. blocked_so_far cfg rs0 I (B \<union> le_index ` set (take k es)) (block_total cfg sandbox es st) \<and>
    (k = length es \<or> bs_total (block_total cfg sandbox es st) < of_nat (lc_total cfg)) \<and> (k = 0 \<or> of_nat (lc_total cfg) \<le> bs_total st)"
  using assms
proof (induction es arbitrary: B st)
  case (Cons e es)
  note e = entries_of_Cons[OF Cons.prems(2)]
  show ?case
  proof (cases "bs_total st < of_nat (lc_total cfg)")
    case True
    then show ?thesis using Cons.prems(1) by (intro exI[of _ 0]) simp
  next
    case False
    have "entries_of rs0 (I - insert (le_index e) B) es" using e by (auto simp: entries_of_def)
    from Cons.IH[OF conjunct1[OF block_step[OF Cons.prems(1)]] this] e obtain k where k: "k \<le> length es"
      "blocked_so_far cfg rs0 I (insert (le_index e) B \<union> le_index ` set (take k es)) (block_total cfg sandbox es (blockResult cfg sandbox e st))"
      "k = length es \<or> bs_total (block_total cfg sandbox es (blockResult cfg sandbox e st)) < of_nat (lc_total cfg)" by blast
    then show ?thesis using False by (intro exI[of _ "Suc k"]) simp
  qed
qed simp

section \<open>Files\<close>

definition paths_upto :: "nat \<Rightarrow> sandbox_handle option \<Rightarrow> bool" where
  "paths_upto extra sandbox \<longleftrightarrow>
     (case sandbox of None \<Rightarrow> True
      | Some sb \<Rightarrow> \<forall>n name content info path created. sbx_write sb n name content info = Inr (path, created) \<longrightarrow> length path \<le> extra)"

lemma short_dumps:
  assumes "executeSandboxDumps cfg sb now index es (rs, found) = Inr (rs', found')"
    "short_texts cfg extra rs0 B rs" "le_index ` set es \<subseteq> B" "B \<subseteq> {..< length rs}"
    "\<forall>e \<in> set es. le_content e = tm_content (tcr_message (rs0 ! le_index e))" "0 < lc_preview cfg" "paths_upto extra (Some sb)"
  shows "short_texts cfg extra rs0 B rs'"
  using assms
proof (induction es arbitrary: index rs found)
  case (Cons e es)
  from Cons.prems(1) obtain rs1 created where u: "uploadToSandboxAndPrependFilePath cfg sb now index e rs = Inr (rs1, created)"
    "executeSandboxDumps cfg sb now (Suc index) es (rs1, case found of None \<Rightarrow> created | Some i \<Rightarrow> Some i) = Inr (rs', found')"
    by (auto simp: bindE_Inr_iff)
  let ?txt = "\<lambda>path. createFileDumpMessage cfg path (createContentPreview (le_content e) (lc_preview cfg)) e"
  from u(1) consider "rs1 = rs" | path where "rs1 = set_content (le_index e) (?txt path) rs" "length path \<le> extra"
    using Cons.prems(7) by (fastforce simp: uploadToSandboxAndPrependFilePath_def paths_upto_def split: option.splits sum.splits)
  then have "short_texts cfg extra rs0 B rs1 \<and> length rs1 = length rs"
  proof cases
    case (2 path)
    have "insert (le_index e) B = B" "le_index e < length rs" using Cons.prems(3,4) by auto
    moreover have "short_text cfg extra (tm_content (tcr_message (rs0 ! le_index e))) (?txt path)"
      using dump_message_short[OF Cons.prems(6) 2(2), of e] Cons.prems(5) by simp
    ultimately show ?thesis using short_texts_set_content[OF Cons.prems(2), of "le_index e" "?txt path"] 2(1)
      by (simp add: set_content_def)
  qed (use Cons.prems(2) in simp)
  then show ?case using Cons.IH[OF u(2)] Cons.prems by simp
qed simp

section \<open>The processor\<close>

lemma by_size_comparator: "comparator by_size"
  by (auto simp: comparator_def by_size_def)

text \<open>What the two loops replace: the too large ones, then the largest of the others until the rest fits.\<close>

lemma block_loops:
  assumes es: "entries_of rs I es" "le_index ` set es = I" "finite I"
    and st0: "blocked_so_far cfg rs I {} st0"
    and run: "block_individual cfg sandbox es (st0, []) = (st1, us)" "st2 = block_total cfg sandbox (js_sort by_size us) st1"
  obtains B where "blocked_so_far cfg rs I B st2" "\<forall>i \<in> I - B. result_tokens rs i \<le> of_nat (lc_individual cfg)"
    "sum (result_tokens rs) (I - B) \<le> of_nat (lc_total cfg)"
    "\<forall>i \<in> B. result_tokens rs i > of_nat (lc_individual cfg) \<or>
       of_nat (lc_total cfg) \<le> bs_total st0 \<and> (\<forall>j \<in> I - B. result_tokens rs j \<le> result_tokens rs i)"
proof -
  let ?big = "\<lambda>e. le_tokens e > of_nat (lc_individual cfg)" and ?sorted = "js_sort by_size us"
  let ?B1 = "le_index ` set (filter ?big es)"
  have d: "distinct (map le_index es)" and tk: "\<forall>e \<in> set es. le_tokens e = result_tokens rs (le_index e)"
    using es(1) entries_of_tokens by (auto simp: entries_of_def)
  have "entries_of rs (I - {}) es" using es(1) by simp
  from block_individual_run[OF st0 this run(1)]
  have 1: "blocked_so_far cfg rs I ?B1 st1" "us = filter (\<lambda>e. \<not> ?big e) es" "bs_total st1 \<le> bs_total st0" by simp_all
  have us: "set ?sorted = {e \<in> set es. \<not> ?big e}" by (simp add: 1(2))
  have "mset (map le_index ?sorted) = mset (map le_index us)" by (simp only: mset_map mset_js_sort)
  then have dis: "distinct (map le_index ?sorted)"
    using distinct_map_filter[OF d, of "\<lambda>e. \<not> ?big e"] mset_eq_imp_distinct_iff unfolding 1(2) by blast
  have inj: "inj_on le_index (set es)" using d by (simp add: distinct_map)
  have rest: "le_index ` set ?sorted = I - ?B1" unfolding us es(2)[symmetric] using inj by (auto dest: inj_onD)
  have "entries_of rs (I - ?B1) ?sorted" using dis rest es(1) us by (auto simp: entries_of_def)
  from block_total_run[OF 1(1) this, of sandbox] obtain k where k:
    "blocked_so_far cfg rs I (?B1 \<union> le_index ` set (take k ?sorted)) st2" "k = length ?sorted \<or> bs_total st2 < of_nat (lc_total cfg)"
    "k = 0 \<or> of_nat (lc_total cfg) \<le> bs_total st1"
    unfolding run(2) by blast
  let ?B = "?B1 \<union> le_index ` set (take k ?sorted)"
  have "distinct (map le_index (take k ?sorted) @ map le_index (drop k ?sorted))"
    using dis by (simp only: map_append[symmetric] append_take_drop_id)
  moreover have "le_index ` set ?sorted = le_index ` set (take k ?sorted) \<union> le_index ` set (drop k ?sorted)"
    by (simp only: image_Un[symmetric] set_append[symmetric] append_take_drop_id)
  ultimately have kept: "I - ?B = le_index ` set (drop k ?sorted)" using rest by auto
  have part: "set (take k ?sorted) \<subseteq> set es" "set (drop k ?sorted) \<subseteq> {e \<in> set es. \<not> ?big e}"
    using us set_take_subset[of k ?sorted] set_drop_subset[of k ?sorted] by auto
  show thesis
  proof (rule that[OF k(1)])
    show "\<forall>i \<in> I - ?B. result_tokens rs i \<le> of_nat (lc_individual cfg)" unfolding kept using tk part(2) by fastforce
    show "sum (result_tokens rs) (I - ?B) \<le> of_nat (lc_total cfg)"
    proof (cases "k = length ?sorted")
      case True
      then have none: "I - ?B = {}" unfolding kept by simp
      show ?thesis unfolding none by simp
    next
      case False
      then show ?thesis using k by (simp add: blocked_so_far_def)
    qed
    show "\<forall>i \<in> ?B. result_tokens rs i > of_nat (lc_individual cfg) \<or>
       of_nat (lc_total cfg) \<le> bs_total st0 \<and> (\<forall>j \<in> I - ?B. result_tokens rs j \<le> result_tokens rs i)"
    proof
      fix i
      assume "i \<in> ?B"
      then consider e where "e \<in> set es" "?big e" "i = le_index e" | e where "e \<in> set (take k ?sorted)" "i = le_index e" by auto
      then show "result_tokens rs i > of_nat (lc_individual cfg) \<or>
       of_nat (lc_total cfg) \<le> bs_total st0 \<and> (\<forall>j \<in> I - ?B. result_tokens rs j \<le> result_tokens rs i)"
      proof cases
        case 1
        then show ?thesis using tk by auto
      next
        case (2 e)
        have "sorted_wrt (\<lambda>a b. by_size a b \<le> 0) (take k ?sorted @ drop k ?sorted)"
          using sorted_js_sort[OF by_size_comparator] by (simp only: append_take_drop_id)
        then have "by_size e f \<le> 0" if "f \<in> set (drop k ?sorted)" for f
          using 2(1) that unfolding sorted_wrt_append by blast
        then have "le_tokens f \<le> le_tokens e" if "f \<in> set (drop k ?sorted)" for f
          using that by (simp add: by_size_def le_tokens_def estimateTokensForString_def)
        then have "\<forall>j \<in> I - ?B. result_tokens rs j \<le> result_tokens rs i" unfolding kept using tk part 2 by fastforce
        moreover have "of_nat (lc_total cfg) \<le> bs_total st0" using k(3) 1(3) 2(1) by (cases k) auto
        ultimately show ?thesis by blast
      qed
    qed
  qed
qed

text \<open>C29. The processor of large responses keeps every tool call, passes on in full only what fits, and puts a short text for the rest.
  Whatever the sandbox does, the results after it answer the same calls in the same order; of those that count (all but a short
  enough \<open>get_tool_info\<close> of the deferred tools) each that is passed on unchanged is within the individual limit, and
  together they are within the combined limit. The text of a replaced result has at most two previews' characters, the digits of
  the numbers it names and 2000 characters more, and the path of a file if it was written to one, however long the result
  is. A result is replaced only if it is too large by itself, or if the results together reach the combined limit and it
  is no smaller than all that are kept: what fits both limits is passed on. The limits are those the constructor accepts,
  and the preview is not empty.\<close>

theorem large_responses_bounded:
  "\<forall>out extra. lc_individual cfg \<le> lc_total cfg \<longrightarrow> 0 < lc_preview cfg \<longrightarrow> paths_upto extra sandbox \<longrightarrow>
     process_large_responses cfg sandbox now results x = Inr out \<longrightarrow>
     (\<exists>B. let limit = elevatedCharacterLimit (remainingContextCharacters (lc_context_length cfg) (ec_usage x));
              counted = counted_results limit results; kept = counted - B in
        B \<subseteq> counted \<and> replaced_only results B (tpr_results out) \<and> short_texts cfg extra results B (tpr_results out) \<and>
        (\<forall>i \<in> kept. result_tokens results i \<le> of_nat (lc_individual cfg)) \<and>
        sum (result_tokens results) kept \<le> of_nat (lc_total cfg) \<and>
        (\<forall>i \<in> B. result_tokens results i > of_nat (lc_individual cfg) \<or>
           of_nat (lc_total cfg) \<le> sum (result_tokens results) counted \<and> (\<forall>j \<in> kept. result_tokens results j \<le> result_tokens results i)))"
proof (intro allI impI)
  fix out extra
  let ?limit = "elevatedCharacterLimit (remainingContextCharacters (lc_context_length cfg) (ec_usage x))"
  let ?I = "counted_results ?limit results" and ?tk = "result_tokens results"
  assume limits: "lc_individual cfg \<le> lc_total cfg" and pv: "0 < lc_preview cfg" and paths: "paths_upto extra sandbox"
    and run: "process_large_responses cfg sandbox now results x = Inr out"
  then obtain es where es: "buildResultsWithInfo sandbox ?limit 0 results = Inr es"
    by (auto simp: process_large_responses_def Let_def bindE_Inr_iff)
  note b = buildResults_entries[OF es]
  have I: "le_index ` set es = ?I" and d: "distinct (map le_index es)" using b by auto
  have entries: "entries_of results ?I es" using b by (auto simp: entries_of_def)
  have "sum_list (map le_tokens es) = sum_list (map ?tk (map le_index es))"
    using entries_of_tokens[OF entries] by (simp cong: map_cong)
  also have "\<dots> = sum ?tk (set (map le_index es))" using d by (simp only: sum_list_distinct_conv_sum_set)
  finally have total: "sum_list (map le_tokens es) = sum ?tk ?I" by (simp add: I)
  have inside: "?I \<subseteq> {..< length results}" by (auto simp: counted_results_def)
  show "\<exists>B. let limit = elevatedCharacterLimit (remainingContextCharacters (lc_context_length cfg) (ec_usage x));
              counted = counted_results limit results; kept = counted - B in
        B \<subseteq> counted \<and> replaced_only results B (tpr_results out) \<and> short_texts cfg extra results B (tpr_results out) \<and>
        (\<forall>i \<in> kept. result_tokens results i \<le> of_nat (lc_individual cfg)) \<and>
        sum (result_tokens results) kept \<le> of_nat (lc_total cfg) \<and>
        (\<forall>i \<in> B. result_tokens results i > of_nat (lc_individual cfg) \<or>
           of_nat (lc_total cfg) \<le> sum (result_tokens results) counted \<and> (\<forall>j \<in> kept. result_tokens results j \<le> result_tokens results i))"
  proof (cases "sum ?tk ?I \<le> of_nat (lc_individual cfg)")
    case True
    then have "tpr_results out = results" using run es by (auto simp: process_large_responses_def Let_def total)
    moreover have "?tk i \<le> of_nat (lc_individual cfg)" if "i \<in> ?I" for i
      using member_le_sum[OF that, of ?tk] True by (simp add: order_trans)
    moreover have "sum ?tk ?I \<le> of_nat (lc_total cfg)" using True limits by (meson of_nat_mono order_trans)
    ultimately show ?thesis by (intro exI[of _ "{}"]) (simp add: Let_def replaced_none short_texts_def)
  next
    case False
    let ?st0 = "\<lparr>bs_results = results, bs_total = sum ?tk ?I, bs_dumps = []\<rparr>"
    obtain st1 us where s1: "block_individual cfg (sandbox \<noteq> None) es (?st0, []) = (st1, us)"
      by (cases "block_individual cfg (sandbox \<noteq> None) es (?st0, [])")
    define st2 where "st2 = block_total cfg (sandbox \<noteq> None) (js_sort by_size us) st1"
    have "blocked_so_far cfg results ?I {} ?st0" by (simp add: blocked_so_far_def replaced_none short_texts_def inside)
    from block_loops[OF entries I finite_counted this s1 st2_def] obtain B where
      B: "blocked_so_far cfg results ?I B st2" "\<forall>i \<in> ?I - B. ?tk i \<le> of_nat (lc_individual cfg)"
        "sum ?tk (?I - B) \<le> of_nat (lc_total cfg)"
        "\<forall>i \<in> B. ?tk i > of_nat (lc_individual cfg) \<or> of_nat (lc_total cfg) \<le> sum ?tk ?I \<and> (\<forall>j \<in> ?I - B. ?tk j \<le> ?tk i)"
      by (auto simp del: counted_results_def)
    note st2 = B(1)[unfolded blocked_so_far_def] and short = short_texts_mono[of cfg results B "bs_results st2" extra]
    have "replaced_only results B (tpr_results out) \<and> short_texts cfg extra results B (tpr_results out)"
    proof (cases sandbox)
      case None
      then show ?thesis using run es False s1 st2 pv short
        by (auto simp: process_large_responses_def Let_def total st2_def)
    next
      case (Some sb)
      then obtain created where dumps: "executeSandboxDumps cfg sb now 0 (bs_dumps st2) (bs_results st2, None) = Inr (tpr_results out, created)"
        using run es False s1 by (auto simp: process_large_responses_def Let_def total st2_def bindE_Inr_iff)
      have "B \<subseteq> {..< length (bs_results st2)}" using st2 inside by (auto simp: replaced_only_def)
      then show ?thesis using replaced_dumps[OF dumps] short_dumps[OF dumps, of extra results B] st2 pv short paths Some by simp
    qed
    then show ?thesis using False B by (intro exI[of _ B]) (simp add: Let_def blocked_so_far_def)
  qed
qed

definition demo_large_results :: "tool_call_result list" where
  "demo_large_results =
     map (\<lambda>(i, n). \<lparr>tcr_message = \<lparr>tm_tool_call_id = i, tm_content = replicate n (CHR ''x'')\<rparr>,
       tcr_info = Some \<lparr>mm_tool_set = \<lparr>tv_name = ''fs'', tv_preload = True, tv_has_preloaded_tools = True, tv_approval_policies = [],
           tv_list_tools = Inr (List_tools [] None)\<rparr>, mm_original_tool_name = ''read/file''\<rparr>,
       tcr_failure = False, tcr_structured = True, tcr_completed_at = ''t''\<rparr>) [(''a'', 36), (''b'', 40)]"

definition demo_large_context :: execution_context where
  "demo_large_context =
     \<lparr>ec_thread_id = ''t'', ec_usage = \<lparr>ccu_prompt_tokens = 0, ccu_completion_tokens = 0\<rparr>, ec_context = []\<rparr>"

definition demo_large_config :: "nat \<Rightarrow> nat \<Rightarrow> large_config" where
  "demo_large_config individual combined =
     \<lparr>lc_sub_agents = False, lc_individual = individual, lc_total = combined, lc_preview = 2, lc_context_length = None\<rparr>"

theorem large_responses_bounded_witness:
  "\<exists>out B. process_large_responses (demo_large_config 9 20) None id demo_large_results demo_large_context = Inr out \<and>
     replaced_only demo_large_results B (tpr_results out) \<and> 1 \<in> B \<and> 0 \<notin> B"
proof -
  let ?p = "process_large_responses (demo_large_config 9 20) None id demo_large_results demo_large_context"
  have "\<not> isl ?p" by code_simp
  then obtain out where out: "?p = Inr out" by (cases ?p) auto
  have limits: "lc_individual (demo_large_config 9 20) \<le> lc_total (demo_large_config 9 20)" by code_simp
  let ?I = "counted_results 50000 demo_large_results"
  have lim: "elevatedCharacterLimit (remainingContextCharacters (lc_context_length (demo_large_config 9 20)) (ec_usage demo_large_context)) = 50000"
    by code_simp
  have side: "0 < lc_preview (demo_large_config 9 20)" "paths_upto 0 None" by (simp_all add: demo_large_config_def paths_upto_def)
  from large_responses_bounded[of "demo_large_config 9 20" None id demo_large_results demo_large_context] limits side out
  obtain B where B: "replaced_only demo_large_results B (tpr_results out)"
    "\<forall>i \<in> ?I - B. result_tokens demo_large_results i \<le> of_nat (lc_individual (demo_large_config 9 20))"
    unfolding lim Let_def by blast
  have tk: "result_tokens demo_large_results 1 = 10" "length demo_large_results = 2"
    "\<not> isWithinElevatedCharacterLimit (tcr_info (demo_large_results ! 1)) (tm_content (tcr_message (demo_large_results ! 1))) 50000" by code_simp+
  then have "1 \<in> ?I" by (simp add: counted_results_def)
  have 1: "1 \<in> B"
  proof (rule ccontr)
    assume "1 \<notin> B"
    then have "result_tokens demo_large_results 1 \<le> of_nat (lc_individual (demo_large_config 9 20))" using B(2) \<open>1 \<in> ?I\<close> by blast
    moreover have "lc_individual (demo_large_config 9 20) = 9" by (simp add: demo_large_config_def)
    ultimately show False using tk(1) by simp
  qed
  have "map tcr_structured (case ?p of Inr o1 \<Rightarrow> tpr_results o1 | Inl e \<Rightarrow> []) = [True, False]" by code_simp
  then have m: "map tcr_structured (tpr_results out) = [True, False]" by (simp only: out sum.case)
  have "tcr_structured (tpr_results out ! 0)" using m by (cases "tpr_results out") auto
  moreover have "\<not> tcr_structured (tpr_results out ! 0)" if "0 \<in> B"
    using B(1) that tk(2) unfolding replaced_only_def by (metis zero_less_numeral)
  ultimately have "0 \<notin> B" by blast
  then show ?thesis using out B(1) 1 by blast
qed

text \<open>
  A result that is within its limit may be replaced by a text that is longer: the running total never falls then, so that every
  result of the message is replaced and the context gets more than it would have got.
\<close>

theorem replaced_texts_may_grow:
  "\<exists>out. process_large_responses (demo_large_config 10 10) None id demo_large_results demo_large_context = Inr out \<and>
     list_all (\<lambda>i. result_tokens demo_large_results i \<le> 10 \<and> result_tokens (tpr_results out) i > 10) [0, 1]"
proof -
  let ?p = "process_large_responses (demo_large_config 10 10) None id demo_large_results demo_large_context"
  have "\<not> isl ?p" by code_simp
  then obtain out where out: "?p = Inr out" by (cases ?p) auto
  have "list_all (\<lambda>i. result_tokens demo_large_results i \<le> 10 \<and>
    result_tokens (case ?p of Inr o1 \<Rightarrow> tpr_results o1 | Inl e \<Rightarrow> []) i > 10) [0, 1]" by code_simp
  then show ?thesis using out by simp
qed

end
