(* ===== verification/Context_Compaction_Props.thy ===== *)
theory Context_Compaction_Props
  imports Context_Compaction "HOL-Library.Sublist"
begin

text \<open>
  Compaction: where its threshold lies, and what a thread is after it ran.
\<close>

section \<open>The threshold\<close>

text \<open>The derived threshold fits the model. Without a configured one, compaction starts at the latest at four fifths of the
  context of the model, and if an output budget is reserved that leaves at least one token for the input, at the latest
  where what is in the context and the reserved output fill the context; it is never negative.\<close>

theorem compaction_threshold_fits:
  "0 \<le> resolveCompactionThresholdTokens None (Some len) params \<and>
   10 * resolveCompactionThresholdTokens None (Some len) params \<le> 8 * int len \<and>
   (\<forall>out. Option.bind params resolveMaxOutputTokens = Some out \<longrightarrow> 0 \<le> out \<longrightarrow> out + 1 \<le> of_nat len \<longrightarrow>
      of_int (resolveCompactionThresholdTokens None (Some len) params) + out \<le> of_nat len)"
proof -
  let ?T = "resolveCompactionThresholdTokens None (Some len) params" and ?r = "\<lfloor>of_nat len * DEFAULT_CONTEXT_COMPACTION_RATIO\<rfloor>"
  have "of_int ?r \<le> (of_nat len * (8/10) :: rat)" unfolding DEFAULT_CONTEXT_COMPACTION_RATIO_def by (rule of_int_floor_le)
  then have "of_int (10 * ?r) \<le> (of_int (8 * int len) :: rat)" by simp
  then have r: "10 * ?r \<le> 8 * int len" by (simp only: of_int_le_iff)
  have r0: "0 \<le> ?r" by (simp add: DEFAULT_CONTEXT_COMPACTION_RATIO_def)
  have "?T \<le> ?r" "0 \<le> ?T"
    using r0 by (auto simp: resolveCompactionThresholdTokens_def Let_def split: option.split)
  moreover have "of_int ?T + out \<le> of_nat len"
    if "Option.bind params resolveMaxOutputTokens = Some out" "0 \<le> out" "out + 1 \<le> of_nat len" for out
  proof -
    have "1 \<le> \<lfloor>of_nat len - out\<rfloor>" using that(3) by (simp add: le_floor_iff)
    then have "?T \<le> \<lfloor>of_nat len - out\<rfloor>" using that(1,2) by (simp add: resolveCompactionThresholdTokens_def Let_def)
    then have "of_int ?T \<le> (of_int \<lfloor>of_nat len - out\<rfloor> :: rat)" by (simp only: of_int_le_iff)
    also have "\<dots> \<le> of_nat len - out" by (rule of_int_floor_le)
    finally show ?thesis by simp
  qed
  ultimately show ?thesis using r by simp
qed

theorem compaction_threshold_fits_witness:
  "resolveCompactionThresholdTokens None (Some 100000) (Some [(''max_tokens'', JNum 30000)]) + 30000 \<le> 100000"
proof -
  have "Option.bind (Some [(''max_tokens'', JNum 30000)]) resolveMaxOutputTokens = Some 30000" by code_simp
  then have "(of_int (resolveCompactionThresholdTokens None (Some 100000) (Some [(''max_tokens'', JNum 30000)])) :: rat) + 30000 \<le> of_nat 100000"
    using compaction_threshold_fits[of 100000 "Some [(''max_tokens'', JNum 30000)]"] by simp
  then have "(of_int (resolveCompactionThresholdTokens None (Some 100000) (Some [(''max_tokens'', JNum 30000)]) + 30000) :: rat) \<le> of_int 100000"
    by simp
  then show ?thesis by (simp only: of_int_le_iff)
qed

section \<open>A thread that is compacted\<close>

lemma compacted_context_idle:
  "getOpenToolCallIds (compacted_context c) = []" "deriveAgentThreadState (compacted_context c) = Llm_call_required"
proof -
  show "getOpenToolCallIds (compacted_context c) = []"
    by (simp add: compacted_context_def getOpenToolCallIds_def CONTINUATION_MESSAGE_def internalSystemMessage_def plain_assistant_def
        tool_call_ids_def js_set_of_def)
  then show "deriveAgentThreadState (compacted_context c) = Llm_call_required" by (simp add: deriveAgentThreadState_def)
qed

lemma summary_first:
  "\<exists>answer note. compacted_context c = [Assistant_msg answer, note] \<and> am_content answer = c \<and> am_tool_calls answer = None \<and>
     isInternalSystemMessage note"
  by (auto simp: compacted_context_def plain_assistant_def CONTINUATION_MESSAGE_def internalSystemMessage_def
      internalSystemTag_def)

definition compaction_due :: "int \<Rightarrow> agent_thread \<Rightarrow> bool" where
  "compaction_due threshold s \<longleftrightarrow>
     of_int threshold \<le> ccu_prompt_tokens (th_usage s) + ccu_completion_tokens (th_usage s) + PROMPT_TOKENS"

lemma one_processor:
  assumes "p (th_tick s) (execution_of s) = (outs, failure)"
  shows "executeContextProcessors [p] s =
    gthen (gfor outs handle_output) (case failure of None \<Rightarrow> gret () | Some e \<Rightarrow> gthrow e) (s\<lparr>th_tick := Suc (th_tick s)\<rparr>)"
proof -
  have tick: "th_tick_update Suc s = s\<lparr>th_tick := Suc (th_tick s)\<rparr>" by (cases s) simp
  show ?thesis using assms
    by (auto simp: tick executeContextProcessors_def gbind_run gthen_def gtick_def gen_defs split: option.split sum.split)
qed

lemma handle_started: "handle_output (PO_compaction_started v) s = ([(Compaction_started (ac_thread_id (th_config s)) v, s)], s, Inr ())"
  and handle_finished: "handle_output (PO_compaction_finished v) s = ([(Compaction_finished (ac_thread_id (th_config s)) v, s)], s, Inr ())"
  by (simp_all add: handle_output_def gbind_run gen_defs)

lemma handle_overwrite:
  "\<exists>c s1. handle_output (PO_overwrite i t ctx u usage) s = ([(Overwrite_context c, s1)],
     s\<lparr>th_context := ctx, th_usage := u,
       th_metrics := (updateMetricsFromUsage (th_metrics s) usage)
         \<lparr>total_summarizations := total_summarizations (updateMetricsFromUsage (th_metrics s) usage) + 1\<rparr>\<rparr>, Inr ()) \<and>
     toc_thread_id c = ac_thread_id (th_config s) \<and> toc_context c = ctx \<and> toc_current_context_usage c = u"
  by (simp add: handle_output_def overwriteContext_def gbind_run gthen_def gen_defs)

lemma compaction_outputs:
  "processPreLLM w threshold n (execution_of s) =
    (if \<not> compaction_due threshold s then ([], None)
     else let trigger = trigger_json (ccu_prompt_tokens (th_usage s) + ccu_completion_tokens (th_usage s)) threshold;
              started = PO_compaction_started (event_json w n 0 ''thread.context_compaction_started'' [(''trigger'', trigger)])
       in case cw_model w n [UText (createSummarizationCandidate (th_context s)), UText (cw_prompt w)] of
            Inl e \<Rightarrow> ([started], Some e)
          | Inr (content, usage) \<Rightarrow>
             ([started,
               PO_compaction_finished (event_json w n 1 ''thread.context_compaction_finished''
                 [(''trigger'', trigger), (''usage'', usage_json usage),
                  (''duration_ms'', JNum (of_int (max 0 (cw_time w n 1 - cw_time w n 0))))]),
               PO_overwrite (cw_id w n 2) (cw_created w n 2) (compacted_context content) (compacted_usage usage) usage],
              None))"
  unfolding processPreLLM_def compaction_due_def execution_of_def Let_def execution_context.select_convs not_le by (rule refl)

text \<open>What the model is asked to summarise: the texts of the context, without the messages of the runtime itself.\<close>

definition mentions_all :: "context_message list \<Rightarrow> string \<Rightarrow> bool" where
  "mentions_all ctx q \<longleftrightarrow>
     (\<forall>m. Tool_msg m \<in> set ctx \<longrightarrow> sublist (tm_content m) q) \<and>
     (\<forall>m t. Assistant_msg m \<in> set ctx \<longrightarrow> am_content m = Some (AText t) \<longrightarrow> sublist t q) \<and>
     (\<forall>m ps p. Assistant_msg m \<in> set ctx \<longrightarrow> am_content m = Some (AParts ps) \<longrightarrow> p \<in> set ps \<longrightarrow> sublist (part_text p) q) \<and>
     (\<forall>m calls c. Assistant_msg m \<in> set ctx \<longrightarrow> am_tool_calls m = Some calls \<longrightarrow> c \<in> set calls \<longrightarrow> sublist (tc_arguments c) q) \<and>
     (\<forall>t. User_msg (UText t) \<in> set ctx \<longrightarrow> \<not> isInternalSystemMessage (User_msg (UText t)) \<longrightarrow> sublist t q) \<and>
     (\<forall>ps t. User_msg (UParts ps) \<in> set ctx \<longrightarrow> PText t \<in> set ps \<longrightarrow> sublist t q)"

lemma sublist_concat: "x \<in> set xs \<Longrightarrow> sublist y x \<Longrightarrow> sublist y (concat xs)"
proof -
  assume "x \<in> set xs" "sublist y x"
  then obtain us vs where "xs = us @ x # vs" by (meson split_list)
  then have "sublist x (concat xs)" by simp
  with \<open>sublist y x\<close> show ?thesis unfolding sublist_def by (metis append.assoc)
qed

lemma sublist_skip: "sublist t u \<Longrightarrow> sublist t (c # u)" "sublist t u \<Longrightarrow> sublist t (v @ u)"
  by (auto simp: sublist_append sublist_Cons_right)

lemma sublist_join: "x \<in> set xs \<Longrightarrow> sublist x (join sep xs)"
proof (induction xs)
  case (Cons y ys)
  then show ?case by (cases ys) (auto simp: sublist_skip)
qed simp

lemma candidate_part:
  assumes "m \<in> set ctx" "\<not> isInternalSystemMessage m" "isLLMContextMessage m" "\<And>n. sublist t (message_text n m)"
  shows "sublist t (createSummarizationCandidate ctx)"
proof -
  obtain k where "k < length ctx" "ctx ! k = m" using assms(1) by (auto simp: in_set_conv_nth)
  then have k: "(k, m) \<in> set (enumerate 0 ctx)" by (auto simp: in_set_enumerate_eq)
  let ?f = "\<lambda>(n, m). if isInternalSystemMessage m \<or> \<not> isLLMContextMessage m then '''' else message_text n m"
  have "?f (k, m) \<in> set (map ?f (enumerate 0 ctx))" using k unfolding set_map by (rule imageI)
  moreover have "sublist t (?f (k, m))" using assms by simp
  ultimately show ?thesis unfolding createSummarizationCandidate_def by (rule sublist_concat)
qed

lemma candidate_mentions_all: "mentions_all ctx (createSummarizationCandidate ctx)"
  unfolding mentions_all_def
proof (intro conjI allI impI)
  fix m assume "Tool_msg m \<in> set ctx"
  then show "sublist (tm_content m) (createSummarizationCandidate ctx)" by (rule candidate_part) (simp_all add: sublist_skip)
next
  fix m t assume m: "Assistant_msg m \<in> set ctx" "am_content m = Some (AText t)"
  show "sublist t (createSummarizationCandidate ctx)"
    by (rule candidate_part[OF m(1)]) (simp_all add: m(2) sublist_skip)
next
  fix m ps p assume m: "Assistant_msg m \<in> set ctx" "am_content m = Some (AParts ps)" "p \<in> set ps"
  have "sublist (part_text p) (join newline (map part_text ps))" using m(3) by (intro sublist_join) simp
  then show "sublist (part_text p) (createSummarizationCandidate ctx)"
    by (intro candidate_part[OF m(1)]) (simp_all add: m(2) sublist_skip sublist_append)
next
  fix m calls c assume m: "Assistant_msg m \<in> set ctx" "am_tool_calls m = Some calls" "c \<in> set calls"
  let ?f = "\<lambda>t. ''<tool-call id='' @ tc_id t @ '' name='' @ tc_name t @ ''>:'' @ tc_arguments t"
  have "sublist (tc_arguments c) (?f c)" by (simp add: sublist_skip)
  then have "sublist (tc_arguments c) (concat (map ?f calls))" using m(3) by (intro sublist_concat[of "?f c"]) auto
  then show "sublist (tc_arguments c) (createSummarizationCandidate ctx)"
    by (intro candidate_part[OF m(1)]) (simp_all add: m(2) listed_def sublist_skip)
next
  fix t assume "User_msg (UText t) \<in> set ctx" "\<not> isInternalSystemMessage (User_msg (UText t))"
  then show "sublist t (createSummarizationCandidate ctx)" by (rule candidate_part) (simp_all add: sublist_skip)
next
  fix ps t assume m: "User_msg (UParts ps) \<in> set ctx" "PText t \<in> set ps"
  have "user_part_text (PText t) \<in> set (map user_part_text ps)" using m(2) unfolding set_map by (rule imageI)
  from sublist_join[OF this] have "sublist t (join newline (map user_part_text ps))" by simp
  then show "sublist t (createSummarizationCandidate ctx)"
    by (intro candidate_part[OF m(1)]) (simp_all add: sublist_skip)
qed

text \<open>C31. What compaction does to a thread. Below the threshold nothing happens. Otherwise the model is asked for a summary of the
  whole context: its question has the text of every tool response, of every answer and the arguments of every call, and every
  text a user wrote. If it throws, the consumer has seen that a compaction started, and the thread has the context it
  had. If it answers, the consumer sees the start, the end and the new context, in this order; the new context of the thread
  is a message of the assistant whose content is the summary the model wrote, and one message of the runtime. It
  has no open call, so that the next step is a call of the model, and it is counted as one compaction.\<close>

theorem compaction_run:
  "let out = executeContextProcessors [processPreLLM w threshold] s;
       n = th_tick s;
       q = createSummarizationCandidate (th_context s)
   in if \<not> compaction_due threshold s then events_of out = [] \<and> final_of out = s\<lparr>th_tick := Suc n\<rparr> \<and> result_of out = Inr ()
      else mentions_all (th_context s) q \<and>
        (case cw_model w n [UText q, UText (cw_prompt w)] of
          Inl e \<Rightarrow> \<exists>a. events_of out = [Compaction_started (ac_thread_id (th_config s)) a] \<and>
            final_of out = s\<lparr>th_tick := Suc n\<rparr> \<and> result_of out = Inl e
        | Inr (content, usage) \<Rightarrow>
            (\<exists>a b c. events_of out = [Compaction_started (ac_thread_id (th_config s)) a, Compaction_finished (ac_thread_id (th_config s)) b,
               Overwrite_context c] \<and> toc_thread_id c = ac_thread_id (th_config s) \<and>
               toc_context c = th_context (final_of out) \<and> toc_current_context_usage c = th_usage (final_of out)) \<and>
            result_of out = Inr () \<and>
            (\<exists>answer note. th_context (final_of out) = [Assistant_msg answer, note] \<and>
               am_content answer = content \<and> am_tool_calls answer = None \<and> isInternalSystemMessage note) \<and>
            getOpenToolCallIds (th_context (final_of out)) = [] \<and>
            deriveAgentThreadState (th_context (final_of out)) = Llm_call_required \<and>
            th_capability_state (final_of out) = th_capability_state s \<and>
            total_summarizations (th_metrics (final_of out)) = total_summarizations (updateMetricsFromUsage (th_metrics s) usage) + 1)"
proof -
  let ?n = "th_tick s" and ?s = "s\<lparr>th_tick := Suc (th_tick s)\<rparr>"
  let ?asked = "cw_model w ?n [UText (createSummarizationCandidate (th_context s)), UText (cw_prompt w)]"
  note outputs = compaction_outputs[of w threshold ?n s]
  show ?thesis
  proof (cases "compaction_due threshold s")
    case False
    then have "processPreLLM w threshold ?n (execution_of s) = ([], None)" using outputs by simp
    from one_processor[of "processPreLLM w threshold", OF this] show ?thesis using False by (simp add: gthen_def gbind_run gen_defs)
  next
    case due: True
    show ?thesis
    proof (cases ?asked)
      case (Inl e)
      then obtain a where "processPreLLM w threshold ?n (execution_of s) = ([PO_compaction_started a], Some e)"
        using outputs due by (simp add: Let_def)
      from one_processor[of "processPreLLM w threshold", OF this] show ?thesis using due Inl
        by (simp add: gthen_def gbind_run handle_started gen_defs Let_def candidate_mentions_all)
    next
      case (Inr r)
      obtain content usage where r: "r = (content, usage)" by (cases r)
      then obtain a b i t where "processPreLLM w threshold ?n (execution_of s) =
          ([PO_compaction_started a, PO_compaction_finished b, PO_overwrite i t (compacted_context content) (compacted_usage usage) usage], None)"
        using outputs due Inr by (simp add: Let_def)
      note run = one_processor[of "processPreLLM w threshold", OF this]
      from handle_overwrite[of i t "compacted_context content" "compacted_usage usage" usage ?s] obtain c s1 where
        "handle_output (PO_overwrite i t (compacted_context content) (compacted_usage usage) usage) ?s = ([(Overwrite_context c, s1)],
           ?s\<lparr>th_context := compacted_context content, th_usage := compacted_usage usage,
             th_metrics := (updateMetricsFromUsage (th_metrics ?s) usage)
               \<lparr>total_summarizations := total_summarizations (updateMetricsFromUsage (th_metrics ?s) usage) + 1\<rparr>\<rparr>, Inr ())"
        "toc_thread_id c = ac_thread_id (th_config ?s)" "toc_context c = compacted_context content"
        "toc_current_context_usage c = compacted_usage usage" by blast
      then show ?thesis using due Inr r
        by (simp add: run gthen_def gbind_run handle_started handle_finished gen_defs Let_def compacted_context_idle
            candidate_mentions_all summary_first)
    qed
  qed
qed

end
