(* ===== verification/User_Input.thy ===== *)
theory User_Input
  imports Agent_Events Ip_Address
begin

text \<open>
  \<open>core/runtime/UserInputMessage.ts\<close>: the message of a user with attached files becomes a message for the model. Images and
  documents go into the message, other files into the sandbox.

  A sandbox is the upload of a file, by the number of the upload; \<open>decode\<close> is the base64 decoder. Uploads start together once every
  file has been checked, so the function returns the files it uploads beside its result.
\<close>

record user_file =
  uf_name :: string
  uf_bytes :: string
  uf_mime :: string

type_synonym upload = "nat \<Rightarrow> user_file \<Rightarrow> thrown + (string \<times> sandbox_info option)"

abbreviation InvalidFileInputError :: "string \<Rightarrow> thrown" where
  "InvalidFileInputError msg \<equiv> Thrown (Harness_class ''invalid_file_input'') msg None"

abbreviation AgentSandboxRequiredError :: "string \<Rightarrow> thrown" where
  "AgentSandboxRequiredError msg \<equiv> Thrown (Harness_class ''agent_sandbox_required'') msg None"

section \<open>Files\<close>

definition starts_with :: "string \<Rightarrow> string \<Rightarrow> bool" where
  "starts_with p s = (take (length p) s = p)"

definition INLINE_MIME_PREFIXES :: "string list" where "INLINE_MIME_PREFIXES = [''image/'', ''application/pdf'']"

definition isInlineMime :: "string \<Rightarrow> bool" where
  "isInlineMime mime = list_ex (\<lambda>p. starts_with p mime) INLINE_MIME_PREFIXES"

definition isImageMime :: "string \<Rightarrow> bool" where
  "isImageMime mime = starts_with ''image/'' mime"

definition parseMimeFromFileData :: "string \<Rightarrow> thrown + string" where
  "parseMimeFromFileData fileData =
     (let mime = takeWhile (\<lambda>c. c \<noteq> CHR '';'' \<and> c \<noteq> CHR '','') (drop 5 fileData)
      in if starts_with ''data:'' fileData \<and> mime \<noteq> [] then Inr mime
         else Inl (InvalidFileInputError ''File data URI is missing or has unparseable MIME type''))"

definition extractBase64 :: "(string \<Rightarrow> string) \<Rightarrow> string \<Rightarrow> thrown + string" where
  "extractBase64 decode dataUri =
     (case dropWhile (\<lambda>c. c \<noteq> CHR '','') dataUri of
        [] \<Rightarrow> Inl (InvalidFileInputError ''File data URI has no base64 payload'')
      | comma # raw \<Rightarrow>
          if raw = [] then Inl (InvalidFileInputError ''File data URI has empty base64 payload'')
          else if decode raw = [] then Inl (InvalidFileInputError ''File data URI decoded to zero bytes'')
          else Inr (decode raw))"

definition path_parts :: "string \<Rightarrow> string list" where
  "path_parts filename = split_at_char (CHR ''/'') (map (\<lambda>c. if c = CHR 0x5C then CHR ''/'' else c) filename)"

definition validatePublicFilename :: "string \<Rightarrow> thrown + unit" where
  "validatePublicFilename filename =
     (if filename = [] then Inl (InvalidFileInputError ''File name must not be empty'')
      else if list_ex (\<lambda>p. p = ''..'') (path_parts filename)
      then Inl (InvalidFileInputError (''File name contains path traversal: '' @ filename))
      else Inr ())"

section \<open>The message\<close>

fun partitionContent :: "user_content_part list \<Rightarrow> (string \<times> string) list \<times> content_part list" where
  "partitionContent [] = ([], [])"
| "partitionContent (UTextPart t # ps) = (case partitionContent ps of (fs, ts) \<Rightarrow> (fs, PText t # ts))"
| "partitionContent (UFilePart name body # ps) = (case partitionContent ps of (fs, ts) \<Rightarrow> ((name, body) # fs, ts))"

text \<open>One attached file: a part for the model, or a file for the sandbox.\<close>

definition classify_file :: "(string \<Rightarrow> string) \<Rightarrow> string \<times> string \<Rightarrow> thrown + (content_part + user_file)" where
  "classify_file decode part =
     (case part of (name, file_data) \<Rightarrow>
      let filename = dropWhile (\<lambda>c. c = CHR ''/'') name in
      bindE (if filename = [] then Inl (InvalidFileInputError ''File name must not be empty'') else Inr ()) (\<lambda>_.
      bindE (validatePublicFilename filename) (\<lambda>_.
      bindE (parseMimeFromFileData file_data) (\<lambda>mime.
        if isInlineMime mime
        then Inr (Inl (if isImageMime mime then PImage file_data None else PFile (Some file_data) None (Some filename)))
        else bindE (extractBase64 decode file_data) (\<lambda>bytes.
          Inr (Inr \<lparr>uf_name = filename, uf_bytes = bytes, uf_mime = mime\<rparr>))))))"

definition inline_parts :: "(content_part + user_file) list \<Rightarrow> content_part list" where
  "inline_parts xs = map projl (filter isl xs)"

definition sandbox_files :: "(content_part + user_file) list \<Rightarrow> user_file list" where
  "sandbox_files xs = map projr (filter (\<lambda>x. \<not> isl x) xs)"

definition buildUploadedFilesAnnouncement :: "(user_file \<times> string) list \<Rightarrow> string" where
  "buildUploadedFilesAnnouncement files =
     internalSystemTag (''Uploaded files ('' @ show_nat (length files) @ ''):'' @ newline @
       join (newline @ newline) (map (\<lambda>(i, f, path).
         ''[file_'' @ show_nat (i + 1) @ '']'' @ newline @ ''  filename: '' @ uf_name f @ newline @ ''  path: '' @ path @ newline @
         ''  mime: '' @ uf_mime f @ newline @ ''  size: '' @ show_nat (length (uf_bytes f)) @ '' bytes'') (enumerate 0 files)))"

text \<open>The outcomes are read in the order of the files; the first rejected one is thrown, the last sandbox created counts.\<close>

fun read_uploads ::
    "upload \<Rightarrow> nat \<Rightarrow> user_file list \<Rightarrow> (user_file \<times> string) list \<times> sandbox_info option \<Rightarrow>
       thrown + ((user_file \<times> string) list \<times> sandbox_info option)" where
  "read_uploads up n [] acc = Inr acc"
| "read_uploads up n (f # fs) (stored, created) =
     bindE (up n f) (\<lambda>(path, info).
       read_uploads up (Suc n) fs (stored @ [(f, path)], case info of None \<Rightarrow> created | Some i \<Rightarrow> Some i))"

definition processAgentUserInput ::
    "(string \<Rightarrow> string) \<Rightarrow> upload option \<Rightarrow> input_content \<Rightarrow> user_file list \<times> (thrown + (user_content \<times> sandbox_info option))" where
  "processAgentUserInput decode sandbox content =
     (case content of
        IText t \<Rightarrow> ([], Inr (UText t, None))
      | IParts parts \<Rightarrow>
          (case partitionContent parts of (fileParts, textParts) \<Rightarrow>
             (case mapE (classify_file decode) fileParts of
                Inl e \<Rightarrow> ([], Inl e)
              | Inr xs \<Rightarrow>
                  let files = sandbox_files xs in
                  if files = [] then ([], Inr (UParts (inline_parts xs @ textParts), None))
                  else (case sandbox of
                      None \<Rightarrow> ([], Inl (AgentSandboxRequiredError
                        ''File uploads requiring sandbox are not supported: no sandbox configured for this agent''))
                    | Some up \<Rightarrow>
                        (files,
                         bindE (read_uploads up 0 files ([], None)) (\<lambda>(stored, created).
                           Inr (UParts (inline_parts xs @ [PText (buildUploadedFilesAnnouncement stored)] @ textParts), created)))))))"

end
