(* ===== verification/User_Input_Props.thy ===== *)
theory User_Input_Props
  imports User_Input
begin

text \<open>
  What the processing of user messages guarantees of the files it uploads: nothing is uploaded unless every file of the message was
  accepted, and no name leads out of the directory of the uploads.
\<close>

section \<open>Paths\<close>

text \<open>Walking a relative path from a directory: the walk never goes above it.\<close>

fun stays_inside :: "nat \<Rightarrow> string list \<Rightarrow> bool" where
  "stays_inside d [] = True"
| "stays_inside d (p # ps) =
     (if p = ''..'' then (case d of 0 \<Rightarrow> False | Suc e \<Rightarrow> stays_inside e ps)
      else if p = [] \<or> p = ''.'' then stays_inside d ps else stays_inside (Suc d) ps)"

lemma stays_inside_plain: "''..'' \<notin> set ps \<Longrightarrow> stays_inside d ps"
  by (induction ps arbitrary: d) auto

text \<open>Treating backslashes as separators too only splits the parts further.\<close>

lemma split_at_char_map:
  assumes "f c = c"
  shows "split_at_char c (map f s) = concat (map (\<lambda>p. split_at_char c (map f p)) (split_at_char c s))"
proof (induction s)
  case (Cons x xs)
  obtain p ps where ps: "split_at_char c xs = p # ps" using split_nonempty[of c xs] by (cases "split_at_char c xs") auto
  have "split_at_char c (map f xs) = split_at_char c (map f p) @ concat (map (\<lambda>p. split_at_char c (map f p)) ps)"
    using Cons ps by simp
  moreover obtain q qs where "split_at_char c (map f p) = q # qs"
    using split_nonempty[of c "map f p"] by (cases "split_at_char c (map f p)") auto
  ultimately show ?case using assms ps by simp
qed simp

lemma path_parts_finer: "''..'' \<in> set (split_at_char (CHR ''/'') s) \<Longrightarrow> ''..'' \<in> set (path_parts s)"
proof -
  assume "''..'' \<in> set (split_at_char (CHR ''/'') s)"
  moreover have "''..'' \<in> set (split_at_char (CHR ''/'') (map (\<lambda>c. if c = CHR 0x5C then CHR ''/'' else c) ''..''))" by simp
  ultimately show ?thesis unfolding path_parts_def
    by (subst split_at_char_map) (simp, unfold set_concat set_map, blast)
qed

section \<open>Uploads\<close>

definition safe_upload :: "user_file \<Rightarrow> bool" where
  "safe_upload f \<longleftrightarrow> uf_name f \<noteq> [] \<and> hd (uf_name f) \<noteq> CHR ''/'' \<and> stays_inside 0 (split_at_char (CHR ''/'') (uf_name f)) \<and>
     stays_inside 0 (path_parts (uf_name f)) \<and> uf_bytes f \<noteq> [] \<and> \<not> isInlineMime (uf_mime f)"

lemma classify_file_safe:
  assumes "classify_file decode part = Inr (Inr f)"
  shows "safe_upload f"
proof -
  obtain name body where part: "part = (name, body)" by (cases part)
  let ?n = "dropWhile (\<lambda>c. c = CHR ''/'') name"
  have n: "uf_name f = ?n" "?n \<noteq> []" "validatePublicFilename ?n = Inr ()" "\<not> isInlineMime (uf_mime f)"
    "extractBase64 decode body = Inr (uf_bytes f)"
    using assms by (auto simp: part classify_file_def Let_def bindE_Inr_iff split: if_splits)
  have "''..'' \<notin> set (path_parts ?n)" using n(2,3) by (auto simp: validatePublicFilename_def list_ex_iff split: if_splits)
  moreover from this have "''..'' \<notin> set (split_at_char (CHR ''/'') ?n)" using path_parts_finer by blast
  moreover have "uf_bytes f \<noteq> []" using n(5) by (auto simp: extractBase64_def split: list.splits if_splits)
  moreover have "hd ?n \<noteq> CHR ''/''" using n(2) hd_dropWhile by blast
  ultimately show ?thesis using n by (simp add: safe_upload_def stays_inside_plain)
qed

lemma mapE_classified: "mapE g xs = Inr ys \<Longrightarrow> map g xs = map Inr ys"
  by (induction xs arbitrary: ys) (auto simp: bindE_Inr_iff)

lemma due_files: "map g ps = map Inr xs \<Longrightarrow> [f. Inr (Inr f) \<leftarrow> map g ps] = sandbox_files xs"
proof (induction ps arbitrary: xs)
  case (Cons p ps)
  then obtain x ys where x: "xs = x # ys" "g p = Inr x" "map g ps = map Inr ys" by (cases xs) auto
  show ?case using Cons.IH[OF x(3)] x by (cases x) (simp_all add: sandbox_files_def)
qed (simp add: sandbox_files_def)

lemma mapE_refused: "mapE g ps = Inl e \<Longrightarrow> Inl e \<in> set (map g ps)"
proof (induction ps)
  case (Cons p ps)
  then show ?case by (cases "g p"; cases "mapE g ps") auto
qed simp

lemma read_uploads_all:
  assumes "read_uploads up n fs acc = Inr (stored, created)"
  shows "map fst stored = map fst (fst acc) @ fs \<and> (\<forall>k < length fs. \<exists>path info. up (n + k) (fs ! k) = Inr (path, info) \<and>
    stored ! (length (fst acc) + k) = (fs ! k, path)) \<and> take (length (fst acc)) stored = fst acc"
  using assms
proof (induction fs arbitrary: n acc)
  case (Cons f fs)
  obtain st cr where acc: "acc = (st, cr)" by (cases acc)
  from Cons.prems obtain path info where u: "up n f = Inr (path, info)"
    "read_uploads up (Suc n) fs (st @ [(f, path)], case info of None \<Rightarrow> cr | Some i \<Rightarrow> Some i) = Inr (stored, created)"
    by (auto simp: acc bindE_Inr_iff)
  note IH = Cons.IH[OF u(2), unfolded fst_conv]
  have t: "take (Suc (length st)) stored = st @ [(f, path)]" using IH by simp
  then have "take (length st) (take (Suc (length st)) stored) = st" by simp
  then have "take (length st) stored = st" by (simp add: min_def)
  moreover have "stored ! length st = (f, path)" using arg_cong[OF t, of "\<lambda>l. l ! length st"] by simp
  ultimately show ?case using IH u(1) by (auto simp: acc less_Suc_eq_0_disj)
qed simp

text \<open>C30. A message with files is uploaded as a whole or not at all, and never out of the directory of the uploads. If one of its
  files is refused, no file is uploaded and the error of that file is thrown; if files need a sandbox and there is none,
  nothing is uploaded either; else every file that is not shown to the model directly is uploaded, in order. Each of them has
  some content and a relative, non-empty name whose path never leads above the directory, with slashes alone or with
  backslashes too as separators. The message is built only if every upload succeeded, and its announcement then names
  every file with the path it got; one failed upload makes the call throw, while the others, started together with it, are not
  taken back.\<close>

theorem uploads_stay_inside:
  "\<forall>files r parts. processAgentUserInput decode sandbox (IParts parts) = (files, r) \<longrightarrow>
     (let rs = map (classify_file decode) (fst (partitionContent parts)); due = [f. Inr (Inr f) \<leftarrow> rs] in
        list_all safe_upload files \<and>
        (\<forall>e. Inl e \<in> set rs \<longrightarrow> files = [] \<and> (\<exists>e'. r = Inl e' \<and> Inl e' \<in> set rs)) \<and>
        ((\<forall>e. Inl e \<notin> set rs) \<longrightarrow> (if sandbox = None then files = [] \<and> (due \<noteq> [] \<longrightarrow> isl r) else files = due)) \<and>
        (\<forall>message created. r = Inr (message, created) \<longrightarrow>
           (\<exists>paths before. length paths = length files \<and>
              (\<forall>k < length files. \<exists>up info. sandbox = Some up \<and> up k (files ! k) = Inr (paths ! k, info)) \<and>
              message = UParts (before @ (if files = [] then [] else [PText (buildUploadedFilesAnnouncement (zip files paths))]) @
                snd (partitionContent parts)))))"
proof (intro allI impI)
  fix files r parts
  assume run: "processAgentUserInput decode sandbox (IParts parts) = (files, r)"
  obtain fs ts where p: "partitionContent parts = (fs, ts)" by (cases "partitionContent parts")
  let ?g = "classify_file decode"
  show "let rs = map ?g (fst (partitionContent parts)); due = [f. Inr (Inr f) \<leftarrow> rs] in
        list_all safe_upload files \<and>
        (\<forall>e. Inl e \<in> set rs \<longrightarrow> files = [] \<and> (\<exists>e'. r = Inl e' \<and> Inl e' \<in> set rs)) \<and>
        ((\<forall>e. Inl e \<notin> set rs) \<longrightarrow> (if sandbox = None then files = [] \<and> (due \<noteq> [] \<longrightarrow> isl r) else files = due)) \<and>
        (\<forall>message created. r = Inr (message, created) \<longrightarrow>
           (\<exists>paths before. length paths = length files \<and>
              (\<forall>k < length files. \<exists>up info. sandbox = Some up \<and> up k (files ! k) = Inr (paths ! k, info)) \<and>
              message = UParts (before @ (if files = [] then [] else [PText (buildUploadedFilesAnnouncement (zip files paths))]) @
                snd (partitionContent parts))))"
  proof (cases "mapE ?g fs")
    case (Inl e)
    note refused = mapE_refused[OF Inl]
    have "files = []" "r = Inl e" using run Inl p by (simp_all add: processAgentUserInput_def)
    then show ?thesis using refused unfolding Let_def p fst_conv by (auto simp del: list.set_map map_eq_conv)
  next
    case (Inr xs)
    note m = mapE_classified[OF Inr]
    have ok: "Inl e \<notin> set (map ?g fs)" for e unfolding m by auto
    have "safe_upload f" if "Inr f \<in> set xs" for f
    proof -
      have "Inr (Inr f) \<in> set (map ?g fs)" unfolding m using that by simp
      then show ?thesis using classify_file_safe by (auto simp: image_iff dest: sym)
    qed
    then have safe: "list_all safe_upload (sandbox_files xs)" by (auto simp: sandbox_files_def list_all_iff isl_def)
    note due = due_files[OF m]
    have run': "(files, r) = (if sandbox_files xs = [] then ([], Inr (UParts (inline_parts xs @ ts), None))
        else (case sandbox of
            None \<Rightarrow> ([], Inl (AgentSandboxRequiredError
              ''File uploads requiring sandbox are not supported: no sandbox configured for this agent''))
          | Some up \<Rightarrow> (sandbox_files xs, bindE (read_uploads up 0 (sandbox_files xs) ([], None)) (\<lambda>(stored, created).
              Inr (UParts (inline_parts xs @ [PText (buildUploadedFilesAnnouncement stored)] @ ts), created)))))"
      using run by (simp add: processAgentUserInput_def p Inr Let_def)
    consider "sandbox_files xs = []" | "sandbox_files xs \<noteq> []" "sandbox = None" | up where "sandbox_files xs \<noteq> []" "sandbox = Some up" by blast
    then show ?thesis
    proof cases
      case 1
      then show ?thesis using run' p ok due by (auto simp: Let_def)
    next
      case 2
      then show ?thesis using run' p ok due by (auto simp: Let_def)
    next
      case (3 up)
      then have f: "files = sandbox_files xs" "r = bindE (read_uploads up 0 files ([], None)) (\<lambda>(stored, created).
          Inr (UParts (inline_parts xs @ [PText (buildUploadedFilesAnnouncement stored)] @ ts), created))"
        using run' by simp_all
      have "\<exists>paths before. length paths = length files \<and> (\<forall>k < length files. \<exists>info. up k (files ! k) = Inr (paths ! k, info)) \<and>
          message = UParts (before @ [PText (buildUploadedFilesAnnouncement (zip files paths))] @ ts)"
        if "r = Inr (message, created)" for message created
      proof -
        from that obtain stored where s: "read_uploads up 0 files ([], None) = Inr (stored, created)"
          "message = UParts (inline_parts xs @ [PText (buildUploadedFilesAnnouncement stored)] @ ts)"
          unfolding f(2) by (auto simp: bindE_Inr_iff)
        note u = read_uploads_all[OF s(1), unfolded fst_conv, simplified]
        have "length stored = length files" using u map_eq_imp_length_eq[of fst stored id files] by simp
        moreover have "zip files (map snd stored) = stored" using u zip_map_fst_snd[of stored] by simp
        ultimately show ?thesis using u s(2)
          by (intro exI[of _ "map snd stored"] exI[of _ "inline_parts xs"]) (auto, metis snd_conv)
      qed
      then show ?thesis using 3 f(1) safe p ok due by (simp add: Let_def)
    qed
  qed
qed

definition demo_upload :: upload where
  "demo_upload n f = Inr (''/uploads/'' @ uf_name f, None)"

theorem uploads_stay_inside_witness:
  "\<exists>f r. processAgentUserInput id (Some demo_upload)
       (IParts [UTextPart ''see'', UFilePart ''//docs/a.txt'' ''data:text/plain;base64,aGk='', UFilePart ''b.png'' ''data:image/png;base64,eA==''])
     = ([f], r) \<and> uf_name f = ''docs/a.txt'' \<and> safe_upload f \<and>
     fst (processAgentUserInput id (Some demo_upload)
       (IParts [UFilePart ''ok.txt'' ''data:text/plain;base64,aGk='', UFilePart (''x'' @ CHR 0x5C # ''..'') ''data:text/plain;base64,aGk=''])) = []"
proof -
  let ?p = "[UTextPart ''see'', UFilePart ''//docs/a.txt'' ''data:text/plain;base64,aGk='', UFilePart ''b.png'' ''data:image/png;base64,eA=='']"
  let ?q = "[UFilePart ''ok.txt'' ''data:text/plain;base64,aGk='', UFilePart (''x'' @ CHR 0x5C # ''..'') ''data:text/plain;base64,aGk='']"
  obtain fs r where fs: "processAgentUserInput id (Some demo_upload) (IParts ?p) = (fs, r)"
    by (cases "processAgentUserInput id (Some demo_upload) (IParts ?p)")
  obtain fs' r' where fs': "processAgentUserInput id (Some demo_upload) (IParts ?q) = (fs', r')"
    by (cases "processAgentUserInput id (Some demo_upload) (IParts ?q)")
  have "map uf_name (fst (processAgentUserInput id (Some demo_upload) (IParts ?p))) = [''docs/a.txt'']" by code_simp
  then obtain f where f: "fs = [f]" "uf_name f = ''docs/a.txt''" unfolding fs by (auto simp: map_eq_Cons_conv)
  have "list_all safe_upload fs" using uploads_stay_inside[of id "Some demo_upload"] fs unfolding Let_def by blast
  then have "safe_upload f" by (simp add: f)
  have "list_ex isl (map (classify_file id) (fst (partitionContent ?q)))" by code_simp
  then obtain e where "Inl e \<in> set (map (classify_file id) (fst (partitionContent ?q)))"
    unfolding list_ex_iff isl_def by blast
  then have "fs' = []" using uploads_stay_inside[of id "Some demo_upload"] fs' unfolding Let_def by blast
  then show ?thesis using fs f fs' \<open>safe_upload f\<close> by simp
qed

end
