(* ===== verification/Login_Admission.thy ===== *)
theory Login_Admission
  imports Thrown_Errors
begin

text \<open>
  Who may sign in and where a login leads: \<open>auth/emailAllowlist.ts\<close>, \<open>auth/claims.ts\<close>, \<open>auth/token.ts\<close>,
  \<open>auth/safeReturnTo.ts\<close> and the path of the public URL in \<open>config.ts\<close>.

  An allowlist pattern becomes the source text of a regular expression, as in the code, and the source is read and
  run by the rules of the language for the constructs it can hold: the anchors, an escaped syntax character, \<open>.*\<close> and
  a literal character. Any other construct is answered by \<open>None\<close>, like the syntax error of \<open>new RegExp\<close>, so that the
  escaping of the code has to be shown complete. Claims are untyped JSON values.
\<close>

section \<open>Allowlist patterns\<close>

abbreviation backslash :: char where "backslash \<equiv> CHR 0x5C"

text \<open>The class of characters that \<open>emailAllowlistPatternToRegExp\<close> escapes.\<close>

definition escaped_char :: "char \<Rightarrow> bool" where
  "escaped_char c = (c \<in> set (backslash # ''.+?^${}()|[]''))"

definition escape_metacharacters :: "string \<Rightarrow> string" where
  "escape_metacharacters p = concat (map (\<lambda>c. if escaped_char c then [backslash, c] else [c]) p)"

definition star_to_wildcard :: "string \<Rightarrow> string" where
  "star_to_wildcard p = concat (map (\<lambda>c. if c = CHR ''*'' then ''.*'' else [c]) p)"

definition emailAllowlistPatternToRegExp :: "string \<Rightarrow> string" where
  "emailAllowlistPatternToRegExp p = ''^'' @ star_to_wildcard (escape_metacharacters p) @ ''$''"

text \<open>The syntax characters of regular expressions, and what a source without groups, classes and bounds denotes.\<close>

definition syntax_char :: "char \<Rightarrow> bool" where
  "syntax_char c = (c \<in> set (backslash # ''^$.*+?()[]{}|''))"

datatype regexp_atom = Literal char | Wildcard

fun regexp_atoms :: "string \<Rightarrow> regexp_atom list option" where
  "regexp_atoms [] = None"
| "regexp_atoms (c # cs) =
     (if c = CHR ''$'' then (if cs = [] then Some [] else None)
      else if c = backslash then
        (case cs of [] \<Rightarrow> None
         | d # ds \<Rightarrow> if syntax_char d then map_option (Cons (Literal d)) (regexp_atoms ds) else None)
      else if c = CHR ''.'' then
        (case cs of [] \<Rightarrow> None
         | d # ds \<Rightarrow> if d = CHR ''*'' then map_option (Cons Wildcard) (regexp_atoms ds) else None)
      else if syntax_char c then None
      else map_option (Cons (Literal c)) (regexp_atoms cs))"

text \<open>The wildcard \<open>.\<close> does not match a line terminator.\<close>

definition line_terminator :: "char \<Rightarrow> bool" where
  "line_terminator c = (c = CHR 0x0A \<or> c = CHR 0x0D)"

fun atoms_match :: "regexp_atom list \<Rightarrow> string \<Rightarrow> bool" where
  "atoms_match [] s = (s = [])"
| "atoms_match (Literal c # r) s = (case s of [] \<Rightarrow> False | x # xs \<Rightarrow> x = c \<and> atoms_match r xs)"
| "atoms_match (Wildcard # r) [] = atoms_match r []"
| "atoms_match (Wildcard # r) (x # xs) =
     (atoms_match r (x # xs) \<or> (\<not> line_terminator x \<and> atoms_match (Wildcard # r) xs))"

fun regexp_test :: "string \<Rightarrow> string \<Rightarrow> bool option" where
  "regexp_test [] s = None"
| "regexp_test (c # cs) s =
     (if c = CHR ''^'' then map_option (\<lambda>r. atoms_match r s) (regexp_atoms cs) else None)"

text \<open>\<open>patterns.some(...)\<close>, whose test may throw.\<close>

fun some_pattern :: "(string \<Rightarrow> bool option) \<Rightarrow> string list \<Rightarrow> bool option" where
  "some_pattern f [] = Some False"
| "some_pattern f (p # ps) =
     (case f p of None \<Rightarrow> None | Some True \<Rightarrow> Some True | Some False \<Rightarrow> some_pattern f ps)"

definition emailMatchesAllowlist :: "string \<Rightarrow> string list \<Rightarrow> bool option" where
  "emailMatchesAllowlist email patterns =
     (if patterns = [] then Some True
      else let normalized = lower_case (js_trim email) in
        if normalized = [] then Some False
        else some_pattern (\<lambda>p.
               let trimmed = lower_case (js_trim p) in
               if trimmed = [] then Some False
               else regexp_test (emailAllowlistPatternToRegExp trimmed) normalized) patterns)"

section \<open>Claims of an ID token\<close>

type_synonym id_token_claims = "(string, json) js_map"

record oidc_config =
  OIDC_USER_REFERENCE_CLAIM :: string
  OIDC_USER_DISPLAY_NAME_CLAIM :: string
  OIDC_USER_ROLE_CLAIM :: string
  OIDC_ADMIN_ROLE_VALUE :: string
  OIDC_SCOPES :: "string list"
  OIDC_ALLOWED_EMAILS :: "string list"

text \<open>What the authentication throws: the named errors, an HTTP status, or an error of the code it calls.\<close>

datatype auth_error =
    Email_not_allowed
  | Missing_claim string
  | Http_exception nat string
  | Other_auth_error string

record request_subject =
  rs_id :: string
  rs_type :: string
  rs_display_name :: string

record request_context =
  rc_tenant_id :: string
  rc_subject :: request_subject
  rc_roles :: "string list"
  rc_user_credential :: "string option"

definition assertEmailAllowed :: "id_token_claims \<Rightarrow> oidc_config \<Rightarrow> auth_error + unit" where
  "assertEmailAllowed claims cfg =
     (if OIDC_ALLOWED_EMAILS cfg = [] then Inr ()
      else case js_get claims ''email'' of
          Some (JStr email) \<Rightarrow>
            if js_trim email = [] then Inl Email_not_allowed
            else (case emailMatchesAllowlist email (OIDC_ALLOWED_EMAILS cfg) of
                    None \<Rightarrow> Inl (Other_auth_error ''Invalid regular expression'')
                  | Some ok \<Rightarrow> if ok then Inr () else Inl Email_not_allowed)
        | _ \<Rightarrow> Inl Email_not_allowed)"

fun claimValues :: "json option \<Rightarrow> string list" where
  "claimValues (Some (JArr vs)) = concat (map (\<lambda>v. case v of JStr s \<Rightarrow> [s] | _ \<Rightarrow> []) vs)"
| "claimValues (Some (JStr s)) = [s]"
| "claimValues _ = []"

definition resolveOptionalStringClaim :: "id_token_claims \<Rightarrow> string \<Rightarrow> string option" where
  "resolveOptionalStringClaim claims name =
     (case js_get claims name of Some (JStr v) \<Rightarrow> if v = [] then None else Some v | _ \<Rightarrow> None)"

definition resolveUserRef :: "id_token_claims \<Rightarrow> oidc_config \<Rightarrow> auth_error + string" where
  "resolveUserRef claims cfg =
     (case resolveOptionalStringClaim claims (OIDC_USER_REFERENCE_CLAIM cfg) of
        None \<Rightarrow> Inl (Missing_claim (OIDC_USER_REFERENCE_CLAIM cfg))
      | Some v \<Rightarrow> Inr v)"

datatype user_role = Role_admin | Role_user

definition resolveRole :: "id_token_claims \<Rightarrow> oidc_config \<Rightarrow> user_role" where
  "resolveRole claims cfg =
     (if OIDC_ADMIN_ROLE_VALUE cfg \<in> set (claimValues (js_get claims (OIDC_USER_ROLE_CLAIM cfg)))
      then Role_admin else Role_user)"

definition toRequestContext :: "id_token_claims \<Rightarrow> oidc_config \<Rightarrow> string \<Rightarrow> auth_error + request_context" where
  "toRequestContext claims cfg credential =
     bindE (assertEmailAllowed claims cfg) (\<lambda>_.
     bindE (resolveUserRef claims cfg) (\<lambda>subjectId.
       let displayName = (case resolveOptionalStringClaim claims (OIDC_USER_DISPLAY_NAME_CLAIM cfg) of
                            None \<Rightarrow> subjectId | Some n \<Rightarrow> n) in
       Inr \<lparr>rc_tenant_id = ''default'',
            rc_subject = \<lparr>rs_id = subjectId, rs_type = ''user'', rs_display_name = displayName\<rparr>,
            rc_roles = claimValues (js_get claims (OIDC_USER_ROLE_CLAIM cfg)),
            rc_user_credential = Some credential\<rparr>))"

text \<open>The claims requested from the provider, each as essential, with the scopes.\<close>

definition buildAuthorizationRequestParams :: "oidc_config \<Rightarrow> string list \<times> (string, bool) js_map" where
  "buildAuthorizationRequestParams cfg =
     (let claims = js_set (OIDC_USER_ROLE_CLAIM cfg) True (js_set (OIDC_USER_REFERENCE_CLAIM cfg) True []) in
      (OIDC_SCOPES cfg, if OIDC_ALLOWED_EMAILS cfg \<noteq> [] then js_set ''email'' True claims else claims))"

section \<open>The token of a request\<close>

text \<open>A request as the authentication reads it: its header, its parsed cookies and its path.\<close>

record http_request =
  hr_authorization :: "string option"
  hr_cookies :: "(string, string) js_map"
  hr_path :: string

definition BEARER_PREFIX :: string where "BEARER_PREFIX = ''Bearer ''"

definition parseBearerAuthorization :: "string \<Rightarrow> string option" where
  "parseBearerAuthorization value =
     (let trimmed = js_trim value in
      if take (length BEARER_PREFIX) (lower_case trimmed) \<noteq> lower_case BEARER_PREFIX then None
      else let token = js_trim (drop (length BEARER_PREFIX) trimmed) in
        if length token > 0 then Some token else None)"

definition readBearerToken :: "http_request \<Rightarrow> string option" where
  "readBearerToken c =
     (case hr_authorization c of None \<Rightarrow> None
      | Some header \<Rightarrow> if header = [] then None else parseBearerAuthorization header)"

definition extractRequestToken :: "http_request \<Rightarrow> string option" where
  "extractRequestToken c =
     (case readBearerToken c of
        Some t \<Rightarrow> Some t
      | None \<Rightarrow> (case js_get (hr_cookies c) ''accessToken'' of
                   Some t \<Rightarrow> Some t | None \<Rightarrow> js_get (hr_cookies c) ''id_token''))"

section \<open>Where a login returns to\<close>

definition unsafe_return_char :: "char \<Rightarrow> bool" where
  "unsafe_return_char c = (c \<in> {backslash, CHR 0x09, CHR 0x0D, CHR 0x0A})"

fun safe_return_shape :: "string \<Rightarrow> bool" where
  "safe_return_shape [] = False"
| "safe_return_shape (c # r) =
     (c = CHR ''/'' \<and> take 1 r \<noteq> ''/'' \<and> \<not> (take 3 r = ''api'' \<and> (drop 3 r = [] \<or> take 1 (drop 3 r) = ''/'')))"

definition isSafeReturnTo :: "string \<Rightarrow> bool" where
  "isSafeReturnTo v = (\<not> list_ex unsafe_return_char v \<and> safe_return_shape v)"

text \<open>
  The path of the public URL: \<open>parsePublicBaseUrl\<close> keeps the non-empty segments of its \<open>pathname\<close> and refuses the
  dot segments; no URL, or the origin of a standalone server, has no path.
\<close>

fun split_slash :: "string \<Rightarrow> string list" where
  "split_slash [] = [[]]"
| "split_slash (c # cs) =
     (if c = CHR ''/'' then [] # split_slash cs
      else case split_slash cs of [] \<Rightarrow> [[c]] | p # ps \<Rightarrow> (c # p) # ps)"

definition parsePublicBaseUrl_path :: "string \<Rightarrow> string option" where
  "parsePublicBaseUrl_path pathname =
     (let segments = filter (\<lambda>p. length p > 0) (split_slash pathname) in
      if list_ex (\<lambda>p. p = ''.'' \<or> p = ''..'') segments then None
      else Some (concat (map (Cons (CHR ''/'')) segments)))"

definition getPublicUiBasePath :: "string option \<Rightarrow> string" where
  "getPublicUiBasePath path =
     (case path of None \<Rightarrow> ''/'' | Some p \<Rightarrow> if p = [] \<or> p = ''/'' then ''/'' else p @ ''/'')"

definition safeReturnTo :: "string option \<Rightarrow> string option \<Rightarrow> string" where
  "safeReturnTo path value =
     (case value of None \<Rightarrow> getPublicUiBasePath path
      | Some v \<Rightarrow> if v \<noteq> [] \<and> isSafeReturnTo v then v else getPublicUiBasePath path)"

end
