(* ===== verification/Login_Admission_Props.thy ===== *)
theory Login_Admission_Props
  imports Login_Admission
begin

text \<open>
  Properties of the admission: the escaping of the allowlist patterns leaves no syntax of regular expressions, so
  that a pattern is the glob it looks like; who is admitted, with which identity; and where a login may return to.
\<close>

section \<open>The allowlist is a list of globs\<close>

text \<open>The reference: \<open>*\<close> is any text without a line terminator, every other character is itself.\<close>

inductive glob :: "string \<Rightarrow> string \<Rightarrow> bool" where
  glob_end: "glob [] []"
| glob_char: "c \<noteq> CHR ''*'' \<Longrightarrow> glob p s \<Longrightarrow> glob (c # p) (c # s)"
| glob_skip: "glob p s \<Longrightarrow> glob (CHR ''*'' # p) s"
| glob_more: "\<not> line_terminator c \<Longrightarrow> glob (CHR ''*'' # p) s \<Longrightarrow> glob (CHR ''*'' # p) (c # s)"

inductive_cases glob_NilE: "glob [] s"
inductive_cases glob_ConsE: "glob (c # p) s"

definition glob_atom :: "char \<Rightarrow> regexp_atom" where
  "glob_atom c = (if c = CHR ''*'' then Wildcard else Literal c)"

lemma atoms_match_glob: "atoms_match (map glob_atom p) s \<Longrightarrow> glob p s"
proof (induction "map glob_atom p" s arbitrary: p rule: atoms_match.induct)
  case (1 s)
  then show ?case by (auto intro: glob.intros)
next
  case (2 c r s)
  then obtain p' where p: "p = c # p'" "r = map glob_atom p'" "c \<noteq> CHR ''*''"
    by (auto simp: glob_atom_def split: if_splits)
  have "atoms_match (Literal c # r) s" using "2.prems" p by (simp add: glob_atom_def)
  then obtain xs where s: "s = c # xs" "atoms_match r xs" by (auto split: list.splits)
  with "2.hyps"(1)[of c xs p'] p show ?case by (auto intro: glob_char)
next
  case (3 r)
  then obtain p' where p: "p = CHR ''*'' # p'" "r = map glob_atom p'"
    by (auto simp: glob_atom_def split: if_splits)
  with 3 show ?case by (auto intro: glob_skip simp: glob_atom_def)
next
  case (4 r x xs)
  then obtain p' where p: "p = CHR ''*'' # p'" "r = map glob_atom p'"
    by (auto simp: glob_atom_def split: if_splits)
  have "atoms_match r (x # xs) \<or> (\<not> line_terminator x \<and> atoms_match (Wildcard # r) xs)"
    using "4.prems" p by (simp add: glob_atom_def)
  then show ?case
  proof
    assume "atoms_match r (x # xs)"
    with "4.hyps"(1)[OF p(2)] p show ?thesis by (auto intro: glob_skip)
  next
    assume "\<not> line_terminator x \<and> atoms_match (Wildcard # r) xs"
    with "4.hyps"(2)[of p] p show ?thesis by (auto intro: glob_more simp: glob_atom_def)
  qed
qed

lemma glob_atoms_match: "glob p s \<Longrightarrow> atoms_match (map glob_atom p) s"
proof (induction rule: glob.induct)
  case (glob_skip p s)
  then show ?case by (cases s) (auto simp: glob_atom_def)
qed (auto simp: glob_atom_def)

lemma atoms_match_iff: "atoms_match (map glob_atom p) s \<longleftrightarrow> glob p s"
  using atoms_match_glob glob_atoms_match by blast

lemma regexp_atoms_escaped:
  "regexp_atoms (star_to_wildcard (escape_metacharacters p) @ ''$'') = Some (map glob_atom p)"
proof (induction p)
  case Nil
  then show ?case by (simp add: star_to_wildcard_def escape_metacharacters_def)
next
  case (Cons c p)
  then show ?case
    by (cases "escaped_char c"; cases "c = CHR ''*''")
      (auto simp: star_to_wildcard_def escape_metacharacters_def escaped_char_def syntax_char_def glob_atom_def)
qed

lemma regexp_test_pattern: "regexp_test (emailAllowlistPatternToRegExp p) s = Some (glob p s)"
  by (simp add: emailAllowlistPatternToRegExp_def regexp_atoms_escaped atoms_match_iff)

lemma some_pattern_total:
  "(\<And>p. p \<in> set ps \<Longrightarrow> f p = Some (g p)) \<Longrightarrow> some_pattern f ps = Some (\<exists>p \<in> set ps. g p)"
  by (induction ps) (auto split: bool.split)

text \<open>
  C17. The allowlist check never throws and admits exactly the addresses that one of its entries matches as a glob,
  without regard to case and surrounding blanks: \<open>*\<close> stands for any text without a line break, and no other character of
  an entry has a meaning of its own.
\<close>

theorem allowlist_is_globs:
  "emailMatchesAllowlist email patterns =
     Some (patterns = [] \<or>
           (js_trim email \<noteq> [] \<and>
            (\<exists>p \<in> set patterns. js_trim p \<noteq> [] \<and> glob (lower_case (js_trim p)) (lower_case (js_trim email)))))"
proof -
  have nil: "lower_case s = [] \<longleftrightarrow> s = []" for s by (simp add: lower_case_def)
  have "some_pattern (\<lambda>p. let trimmed = lower_case (js_trim p) in
               if trimmed = [] then Some False
               else regexp_test (emailAllowlistPatternToRegExp trimmed) e) patterns
        = Some (\<exists>p \<in> set patterns. js_trim p \<noteq> [] \<and> glob (lower_case (js_trim p)) e)" for e
    by (rule some_pattern_total) (simp add: Let_def nil regexp_test_pattern)
  then show ?thesis by (auto simp: emailMatchesAllowlist_def Let_def nil)
qed

text \<open>A domain entry \<open>*@domain\<close> admits exactly the addresses that end in it.\<close>

lemma glob_literal:
  assumes "CHR ''*'' \<notin> set d"
  shows "glob d s \<longleftrightarrow> s = d"
  using assms
proof (induction d arbitrary: s)
  case Nil
  then show ?case by (auto intro: glob_end elim: glob_NilE)
next
  case (Cons c d)
  then show ?case by (auto intro: glob_char elim: glob_ConsE)
qed

lemma glob_star_suffix:
  assumes "CHR ''*'' \<notin> set d"
  shows "glob (CHR ''*'' # d) s \<longleftrightarrow> (\<exists>u. s = u @ d \<and> \<not> list_ex line_terminator u)"
proof
  assume "glob (CHR ''*'' # d) s"
  then show "\<exists>u. s = u @ d \<and> \<not> list_ex line_terminator u"
  proof (induction "CHR ''*'' # d" s rule: glob.induct)
    case (glob_skip s)
    with assms have "s = [] @ d" by (simp add: glob_literal)
    then show ?case by (intro exI[of _ "[]"]) simp
  next
    case (glob_more c s)
    then obtain u where "s = u @ d" "\<not> list_ex line_terminator u" by blast
    with glob_more(1) show ?case by (intro exI[of _ "c # u"]) simp
  qed simp
next
  assume "\<exists>u. s = u @ d \<and> \<not> list_ex line_terminator u"
  then obtain u where s: "s = u @ d" "\<not> list_ex line_terminator u" by blast
  from s(2) have "glob (CHR ''*'' # d) (u @ d)"
  proof (induction u)
    case Nil
    from assms have "glob d d" by (simp add: glob_literal)
    then show ?case by (simp add: glob_skip)
  qed (auto intro: glob_more)
  with s(1) show "glob (CHR ''*'' # d) s" by simp
qed

section \<open>Who is admitted\<close>

definition admitted_email :: "id_token_claims \<Rightarrow> oidc_config \<Rightarrow> bool" where
  "admitted_email claims cfg \<longleftrightarrow>
     OIDC_ALLOWED_EMAILS cfg = [] \<or>
     (\<exists>email. js_get claims ''email'' = Some (JStr email) \<and> js_trim email \<noteq> [] \<and>
        (\<exists>p \<in> set (OIDC_ALLOWED_EMAILS cfg).
           js_trim p \<noteq> [] \<and> glob (lower_case (js_trim p)) (lower_case (js_trim email))))"

lemma assertEmailAllowed_spec:
  "assertEmailAllowed claims cfg = (if admitted_email claims cfg then Inr () else Inl Email_not_allowed)"
  by (auto simp: assertEmailAllowed_def admitted_email_def allowlist_is_globs split: option.split json.split)

lemma resolveOptionalStringClaim_spec:
  "resolveOptionalStringClaim claims n = Some v \<longleftrightarrow> js_get claims n = Some (JStr v) \<and> v \<noteq> []"
  by (auto simp: resolveOptionalStringClaim_def split: option.splits json.splits)

lemma claimValues_spec:
  "v \<in> set (claimValues c) \<longleftrightarrow> c = Some (JStr v) \<or> (\<exists>vs. c = Some (JArr vs) \<and> JStr v \<in> set vs)"
  by (cases c rule: claimValues.cases) (auto split: json.splits)

lemma toRequestContext_success:
  "toRequestContext claims cfg credential = Inr ctx \<longleftrightarrow>
     admitted_email claims cfg \<and>
     (\<exists>ref. js_get claims (OIDC_USER_REFERENCE_CLAIM cfg) = Some (JStr ref) \<and> ref \<noteq> [] \<and>
        ctx = \<lparr>rc_tenant_id = ''default'',
               rc_subject = \<lparr>rs_id = ref, rs_type = ''user'',
                             rs_display_name = (case resolveOptionalStringClaim claims (OIDC_USER_DISPLAY_NAME_CLAIM cfg)
                                                of None \<Rightarrow> ref | Some n \<Rightarrow> n)\<rparr>,
               rc_roles = claimValues (js_get claims (OIDC_USER_ROLE_CLAIM cfg)),
               rc_user_credential = Some credential\<rparr>)"
proof -
  have "resolveUserRef claims cfg = Inr ref \<longleftrightarrow>
          js_get claims (OIDC_USER_REFERENCE_CLAIM cfg) = Some (JStr ref) \<and> ref \<noteq> []" for ref
    by (auto simp: resolveUserRef_def resolveOptionalStringClaim_spec[symmetric] split: option.splits)
  then show ?thesis
    by (auto simp: toRequestContext_def bindE_Inr_iff assertEmailAllowed_spec Let_def)
qed

section \<open>Where a login returns to\<close>

text \<open>
  How a browser reads a \<open>Location\<close>: tabs and line breaks are dropped and a backslash is a slash; the reference stays
  on the origin if it then starts with exactly one slash.
\<close>

definition browser_reads :: "string \<Rightarrow> string" where
  "browser_reads v =
     map (\<lambda>c. if c = backslash then CHR ''/'' else c)
       (filter (\<lambda>c. c \<notin> {CHR 0x09, CHR 0x0D, CHR 0x0A}) v)"

definition same_origin :: "string \<Rightarrow> bool" where
  "same_origin v = (case browser_reads v of [] \<Rightarrow> False | c # r \<Rightarrow> c = CHR ''/'' \<and> take 1 r \<noteq> ''/'')"

lemma browser_reads_clean: "\<not> list_ex unsafe_return_char v \<Longrightarrow> browser_reads v = v"
  by (induction v) (auto simp: browser_reads_def unsafe_return_char_def)

lemma same_origin_clean:
  "\<not> list_ex unsafe_return_char v \<Longrightarrow>
     same_origin v = (case v of [] \<Rightarrow> False | c # r \<Rightarrow> c = CHR ''/'' \<and> take 1 r \<noteq> ''/'')"
  by (simp add: same_origin_def browser_reads_clean)

lemma isSafeReturnTo_same_origin: "isSafeReturnTo v \<Longrightarrow> same_origin v"
  by (cases v) (auto simp: isSafeReturnTo_def same_origin_clean)

text \<open>The path of a configured URL, as the URL parser gives it: no backslash, tab or line break is left in it.\<close>

definition public_path_ok :: "string option \<Rightarrow> bool" where
  "public_path_ok path \<longleftrightarrow>
     path = None \<or>
     (\<exists>pathname. parsePublicBaseUrl_path pathname = path \<and> \<not> list_ex unsafe_return_char pathname)"

lemma split_slash_pieces: "p \<in> set (split_slash s) \<Longrightarrow> CHR ''/'' \<notin> set p \<and> set p \<subseteq> set s"
proof (induction s arbitrary: p)
  case (Cons c cs)
  show ?case
  proof (cases "split_slash cs")
    case Nil
    with Cons.prems show ?thesis by (auto split: if_splits)
  next
    case (Cons q qs)
    with Cons.prems Cons.IH show ?thesis by (fastforce split: if_splits)
  qed
qed simp

lemma public_path_shape:
  assumes "parsePublicBaseUrl_path pathname = Some p" and "\<not> list_ex unsafe_return_char pathname"
  shows "\<not> list_ex unsafe_return_char p" and "p = [] \<or> (\<exists>c r. p = CHR ''/'' # c # r \<and> c \<noteq> CHR ''/'')"
proof -
  define segments where "segments = filter (\<lambda>p. length p > 0) (split_slash pathname)"
  have p: "p = concat (map (Cons (CHR ''/'')) segments)"
    using assms(1) by (auto simp: parsePublicBaseUrl_path_def segments_def Let_def split: if_splits)
  have pieces: "q \<noteq> [] \<and> CHR ''/'' \<notin> set q \<and> set q \<subseteq> set pathname" if "q \<in> set segments" for q
    using that split_slash_pieces[of q pathname] by (auto simp: segments_def)
  show "\<not> list_ex unsafe_return_char p"
  proof
    assume "list_ex unsafe_return_char p"
    then obtain c where c: "c \<in> set p" "unsafe_return_char c" by (auto simp: list_ex_iff)
    then have "c \<noteq> CHR ''/''" by (auto simp: unsafe_return_char_def)
    with c(1) obtain q where "q \<in> set segments" "c \<in> set q" by (auto simp: p split: if_splits)
    with pieces[of q] have "c \<in> set pathname" by auto
    with c(2) assms(2) show False by (auto simp: list_ex_iff)
  qed
  show "p = [] \<or> (\<exists>c r. p = CHR ''/'' # c # r \<and> c \<noteq> CHR ''/'')"
  proof (cases segments)
    case (Cons q qs)
    with pieces[of q] obtain c r where "q = c # r" "c \<noteq> CHR ''/''" by (cases q) auto
    with Cons p show ?thesis by simp
  qed (simp add: p)
qed

lemma base_path_clean:
  assumes "public_path_ok path"
  shows "\<not> list_ex unsafe_return_char (getPublicUiBasePath path)"
    and "same_origin (getPublicUiBasePath path)"
    and "\<exists>r. getPublicUiBasePath path = CHR ''/'' # r \<and> take 1 r \<noteq> ''/''"
proof -
  have "\<not> list_ex unsafe_return_char (getPublicUiBasePath path) \<and>
        (\<exists>r. getPublicUiBasePath path = CHR ''/'' # r \<and> take 1 r \<noteq> ''/'')"
  proof (cases path)
    case (Some p)
    with assms obtain pathname where
      "parsePublicBaseUrl_path pathname = Some p" "\<not> list_ex unsafe_return_char pathname"
      by (auto simp: public_path_ok_def)
    note shape = public_path_shape[OF this]
    show ?thesis
    proof (cases "p = []")
      case False
      with shape(2) obtain c r where p: "p = CHR ''/'' # c # r" "c \<noteq> CHR ''/''" by blast
      then have base: "getPublicUiBasePath path = p @ ''/''" using Some by (simp add: getPublicUiBasePath_def)
      show ?thesis using shape(1) p(2) by (simp add: base p(1) unsafe_return_char_def)
    qed (simp add: Some getPublicUiBasePath_def unsafe_return_char_def)
  qed (simp add: getPublicUiBasePath_def unsafe_return_char_def)
  then show clean: "\<not> list_ex unsafe_return_char (getPublicUiBasePath path)"
    and shape: "\<exists>r. getPublicUiBasePath path = CHR ''/'' # r \<and> take 1 r \<noteq> ''/''"
    by blast+
  show "same_origin (getPublicUiBasePath path)"
    using shape by (auto simp: same_origin_clean[OF clean])
qed

lemma safeReturnTo_same_origin: "public_path_ok path \<Longrightarrow> same_origin (safeReturnTo path v)"
  by (auto simp: safeReturnTo_def base_path_clean(2) isSafeReturnTo_same_origin split: option.split)

lemma safeReturnTo_idempotent:
  "safeReturnTo path v = r \<Longrightarrow> r = getPublicUiBasePath path \<or> (v = Some r \<and> isSafeReturnTo r)"
  by (auto simp: safeReturnTo_def split: option.splits if_splits)

end
