(* ===== verification/Access_Control.thy ===== *)
theory Access_Control
  imports Login_Admission Session_Types
begin

text \<open>
  Who a caller is and what the caller may do: \<open>auth/identity.ts\<close>, the authenticators, \<open>auth/middleware.ts\<close>,
  \<open>auth/authorizer.ts\<close>, \<open>schemas/permissions.ts\<close>, \<open>truefoundry/TrueFoundryAuthorizer.ts\<close> and \<open>apis/agentAccess.ts\<close>.

  A request is the record of what the code reads of it. What verifies a token (\<open>jwtVerify\<close>), the platform that
  answers sessions and permissions, and the database stores are parameters.
\<close>

section \<open>Configuration\<close>

datatype auth_mode = Mode_standalone | Mode_oidc | Mode_truefoundry

text \<open>The public URL is its text and the path \<open>parsePublicBaseUrl\<close> left in it.\<close>

record server_config =
  STANDALONE :: bool
  TRUEFOUNDRY_SERVICEFOUNDRY_SERVER_URL :: "string option"
  OIDC :: "oidc_config option"
  public_base_url :: string
  public_base_path :: "string option"

definition isOidcConfigured :: "server_config \<Rightarrow> bool" where
  "isOidcConfigured cfg = (\<not> STANDALONE cfg \<and> OIDC cfg \<noteq> None)"

definition isTrueFoundryModeEnabled :: "server_config \<Rightarrow> bool" where
  "isTrueFoundryModeEnabled cfg = (\<not> STANDALONE cfg \<and> TRUEFOUNDRY_SERVICEFOUNDRY_SERVER_URL cfg \<noteq> None)"

definition getTrueForgeAuthMode :: "server_config \<Rightarrow> auth_mode" where
  "getTrueForgeAuthMode cfg =
     (if isTrueFoundryModeEnabled cfg then Mode_truefoundry
      else if isOidcConfigured cfg then Mode_oidc
      else Mode_standalone)"

section \<open>Identity\<close>

definition STANDALONE_ADMIN_ROLE :: string where "STANDALONE_ADMIN_ROLE = ''admin''"
definition TRUEFOUNDRY_TENANT_ADMIN_ROLE :: string where "TRUEFOUNDRY_TENANT_ADMIN_ROLE = ''tenant-admin''"

definition STANDALONE_REQUEST_CONTEXT :: request_context where
  "STANDALONE_REQUEST_CONTEXT =
     \<lparr>rc_tenant_id = ''default'',
      rc_subject = \<lparr>rs_id = ''trueforge-default'', rs_type = ''user'', rs_display_name = ''trueforge-default''\<rparr>,
      rc_roles = [STANDALONE_ADMIN_ROLE], rc_user_credential = None\<rparr>"

definition hasAdminRole :: "server_config \<Rightarrow> request_context \<Rightarrow> bool" where
  "hasAdminRole cfg ctx =
     (case getTrueForgeAuthMode cfg of
        Mode_truefoundry \<Rightarrow> TRUEFOUNDRY_TENANT_ADMIN_ROLE \<in> set (rc_roles ctx)
      | Mode_oidc \<Rightarrow>
          (if \<not> isOidcConfigured cfg then False
           else case OIDC cfg of None \<Rightarrow> False | Some oidc \<Rightarrow> OIDC_ADMIN_ROLE_VALUE oidc \<in> set (rc_roles ctx))
      | Mode_standalone \<Rightarrow> STANDALONE_ADMIN_ROLE \<in> set (rc_roles ctx))"

definition areCatalogSettingsAvailable :: "server_config \<Rightarrow> bool" where
  "areCatalogSettingsAvailable cfg = (getTrueForgeAuthMode cfg \<noteq> Mode_truefoundry)"

datatype environment_mutation = Env_create | Env_edit | Env_delete | Env_patch

definition RESERVED_SANDBOX_ENVIRONMENT_NAME :: string where
  "RESERVED_SANDBOX_ENVIRONMENT_NAME = ''default''"

definition canManageOrDeleteEnvironment ::
    "server_config \<Rightarrow> request_context \<Rightarrow> environment_mutation \<Rightarrow> string option \<Rightarrow> bool" where
  "canManageOrDeleteEnvironment cfg ctx action name =
     (if \<not> hasAdminRole cfg ctx then False
      else if name = Some RESERVED_SANDBOX_ENVIRONMENT_NAME then action = Env_patch
      else True)"

definition canEditSchedule :: "server_config \<Rightarrow> request_context \<Rightarrow> string \<Rightarrow> bool" where
  "canEditSchedule cfg ctx creator = (hasAdminRole cfg ctx \<or> rs_id (rc_subject ctx) = creator)"

definition requestSubjectFromCreatedBySubject :: "created_by_subject \<Rightarrow> request_subject" where
  "requestSubjectFromCreatedBySubject s =
     \<lparr>rs_id = cb_subject_id s, rs_type = cb_subject_type s, rs_display_name = cb_subject_display_name s\<rparr>"

definition requestContextFromCreatedBySubject :: "string \<Rightarrow> created_by_subject \<Rightarrow> request_context" where
  "requestContextFromCreatedBySubject tenant s =
     \<lparr>rc_tenant_id = tenant, rc_subject = requestSubjectFromCreatedBySubject s,
      rc_roles = [], rc_user_credential = None\<rparr>"

definition createdBySubjectFromRequestContext :: "request_context \<Rightarrow> created_by_subject" where
  "createdBySubjectFromRequestContext ctx =
     \<lparr>cb_subject_id = rs_id (rc_subject ctx), cb_subject_type = rs_type (rc_subject ctx),
      cb_subject_display_name = rs_display_name (rc_subject ctx)\<rparr>"

section \<open>Authenticators\<close>

definition authentication_required :: auth_error where
  "authentication_required = Http_exception 401 ''Authentication required''"

definition standalone_authenticate :: "http_request \<Rightarrow> auth_error + request_context" where
  "standalone_authenticate c = Inr STANDALONE_REQUEST_CONTEXT"

record oidc_verify =
  ov_issuer :: string
  ov_audience :: string
  ov_config :: oidc_config

definition oidc_authenticate ::
    "(oidc_verify \<Rightarrow> string \<Rightarrow> id_token_claims option) \<Rightarrow> oidc_verify option \<Rightarrow> http_request
     \<Rightarrow> auth_error + request_context" where
  "oidc_authenticate jwtVerify oidcVerify c =
     (case oidcVerify of None \<Rightarrow> Inl authentication_required
      | Some ov \<Rightarrow> (case extractRequestToken c of None \<Rightarrow> Inl authentication_required
        | Some token \<Rightarrow>
            if token = [] then Inl authentication_required
            else (case jwtVerify ov token of None \<Rightarrow> Inl authentication_required
                  | Some claims \<Rightarrow>
                      (case toRequestContext claims (ov_config ov) token of
                         Inl e \<Rightarrow> Inl authentication_required | Inr ctx \<Rightarrow> Inr ctx))))"

text \<open>The session of a token on the platform.\<close>

record sfy_session =
  sfy_tenant :: string
  sfy_subject_id :: string
  sfy_subject_type :: string
  sfy_display_name :: "string option"
  sfy_slug :: "string option"
  sfy_roles :: "string list"

definition truefoundry_authenticate ::
    "(string \<Rightarrow> auth_error + sfy_session) \<Rightarrow> http_request \<Rightarrow> auth_error + request_context" where
  "truefoundry_authenticate getSession c =
     (case extractRequestToken c of None \<Rightarrow> Inl authentication_required
      | Some token \<Rightarrow>
          if token = [] then Inl authentication_required
          else bindE (getSession token) (\<lambda>s. Inr
            \<lparr>rc_tenant_id = sfy_tenant s,
             rc_subject = \<lparr>rs_id = sfy_subject_id s, rs_type = sfy_subject_type s,
                           rs_display_name = (case sfy_display_name s of Some n \<Rightarrow> n
                             | None \<Rightarrow> (case sfy_slug s of Some n \<Rightarrow> n | None \<Rightarrow> sfy_subject_id s))\<rparr>,
             rc_roles = sfy_roles s, rc_user_credential = Some token\<rparr>))"

definition createAuthenticator ::
    "(oidc_verify \<Rightarrow> string \<Rightarrow> id_token_claims option) \<Rightarrow> oidc_verify option \<Rightarrow> (string \<Rightarrow> auth_error + sfy_session)
     \<Rightarrow> auth_mode \<Rightarrow> http_request \<Rightarrow> auth_error + request_context" where
  "createAuthenticator jwtVerify oidcVerify getSession mode =
     (case mode of Mode_truefoundry \<Rightarrow> truefoundry_authenticate getSession
      | Mode_oidc \<Rightarrow> oidc_authenticate jwtVerify oidcVerify
      | Mode_standalone \<Rightarrow> standalone_authenticate)"

text \<open>The soft probe of login and callback: a claim mapping that fails is thrown.\<close>

definition resolveOidcRequestContext ::
    "(oidc_verify \<Rightarrow> string \<Rightarrow> id_token_claims option) \<Rightarrow> oidc_verify option \<Rightarrow> http_request
     \<Rightarrow> auth_error + request_context option" where
  "resolveOidcRequestContext jwtVerify oidcVerify c =
     (case oidcVerify of None \<Rightarrow> Inr None
      | Some ov \<Rightarrow> (case extractRequestToken c of None \<Rightarrow> Inr None
        | Some token \<Rightarrow>
            if token = [] then Inr None
            else (case jwtVerify ov token of None \<Rightarrow> Inr None
                  | Some claims \<Rightarrow> bindE (toRequestContext claims (ov_config ov) token) (\<lambda>ctx. Inr (Some ctx)))))"

section \<open>Middleware\<close>

text \<open>A middleware gets the rest of the chain, which runs with the request context it has set.\<close>

definition tryAuthenticate ::
    "(http_request \<Rightarrow> auth_error + request_context) \<Rightarrow> http_request \<Rightarrow> auth_error + request_context option" where
  "tryAuthenticate authenticate c =
     (case authenticate c of
        Inr ctx \<Rightarrow> Inr (Some ctx)
      | Inl (Http_exception status msg) \<Rightarrow> if status = 401 then Inr None else Inl (Http_exception status msg)
      | Inl e \<Rightarrow> Inl e)"

definition createAuthMiddleware ::
    "(http_request \<Rightarrow> auth_error + request_context) \<Rightarrow> (request_context \<Rightarrow> auth_error + 'r) \<Rightarrow> http_request
     \<Rightarrow> auth_error + 'r" where
  "createAuthMiddleware authenticate next_handler c =
     bindE (tryAuthenticate authenticate c) (\<lambda>r. case r of
        None \<Rightarrow> Inl authentication_required
      | Some ctx \<Rightarrow> next_handler ctx)"

definition buildAdminAuthMiddleware ::
    "server_config \<Rightarrow> (http_request \<Rightarrow> auth_error + request_context) \<Rightarrow> bool
     \<Rightarrow> (request_context \<Rightarrow> auth_error + 'r) \<Rightarrow> http_request \<Rightarrow> auth_error + 'r" where
  "buildAdminAuthMiddleware cfg authenticate accessible next_handler c =
     bindE (tryAuthenticate authenticate c) (\<lambda>r. case r of
        None \<Rightarrow> Inl authentication_required
      | Some ctx \<Rightarrow>
          if \<not> accessible
          then Inl (Http_exception 422 (''Route '' @ hr_path c @ '' is not accessible under current configuration''))
          else if \<not> hasAdminRole cfg ctx then Inl (Http_exception 403 ''Admin access required'')
          else next_handler ctx)"

text \<open>\<open>Buffer.from(text, 'utf8')\<close> on code points below 256.\<close>

definition utf8_char :: "char \<Rightarrow> nat list" where
  "utf8_char c = (let n = of_char c in if n < 128 then [n] else [192 + n div 64, 128 + n mod 64])"

definition utf8_bytes :: "string \<Rightarrow> nat list" where
  "utf8_bytes s = concat (map utf8_char s)"

definition matchesServiceKey :: "string \<Rightarrow> string \<Rightarrow> bool" where
  "matchesServiceKey provided expected =
     (let providedBytes = utf8_bytes provided; expectedBytes = utf8_bytes expected in
      if length providedBytes \<noteq> length expectedBytes then False
      else list_all2 (=) providedBytes expectedBytes)"

definition createApiKeyAuthMiddleware ::
    "string \<Rightarrow> (unit \<Rightarrow> auth_error + 'r) \<Rightarrow> http_request \<Rightarrow> auth_error + 'r" where
  "createApiKeyAuthMiddleware apiKey next_handler c =
     (case readBearerToken c of
        None \<Rightarrow> Inl (Http_exception 401 ''Invalid service credential'')
      | Some token \<Rightarrow>
          if \<not> matchesServiceKey token apiKey then Inl (Http_exception 401 ''Invalid service credential'')
          else next_handler ())"

section \<open>Permissions\<close>

datatype resource_permission = USE | MANAGE | DELETE | CREATE

type_synonym permissions = "(string, resource_permission list) js_map"

definition AGENT_USE_PERMISSIONS :: "resource_permission list" where "AGENT_USE_PERMISSIONS = [USE]"
definition AGENT_OWNER_PERMISSIONS :: "resource_permission list" where
  "AGENT_OWNER_PERMISSIONS = [USE, MANAGE, DELETE]"
definition SCHEDULE_OWNER_PERMISSIONS :: "resource_permission list" where
  "SCHEDULE_OWNER_PERMISSIONS = [MANAGE, DELETE]"
definition SESSION_OWNER_PERMISSIONS :: "resource_permission list" where
  "SESSION_OWNER_PERMISSIONS = [MANAGE, DELETE]"
definition TENANT_CREATE_PERMISSIONS :: "resource_permission list" where "TENANT_CREATE_PERMISSIONS = [CREATE]"

definition emptyPermissionsByResourceId :: "string list \<Rightarrow> permissions" where
  "emptyPermissionsByResourceId ids = fold (\<lambda>i m. js_set i [] m) ids []"

text \<open>\<open>[...new Set(ids)]\<close>: the first occurrences.\<close>

definition unique_ids :: "string list \<Rightarrow> string list" where
  "unique_ids ids = rev (remdups (rev ids))"

text \<open>The columns of schedules, environments and agents that the code reads.\<close>

record schedule_owner =
  so_id :: string
  so_created_by :: string

record environment_row =
  en_id :: string
  en_name :: string

record agent_row =
  ag_id :: string
  ag_external_id :: "string option"
  ag_created_by :: string

definition resolveSchedulePermissions ::
    "server_config \<Rightarrow> (string \<Rightarrow> string list \<Rightarrow> schedule_owner list) \<Rightarrow> request_context \<Rightarrow> string list \<Rightarrow> permissions" where
  "resolveSchedulePermissions cfg getSchedulesByIds ctx ids =
     fold (\<lambda>s data. if canEditSchedule cfg ctx (so_created_by s)
                    then js_set (so_id s) SCHEDULE_OWNER_PERMISSIONS data else data)
       (getSchedulesByIds (rc_tenant_id ctx) (unique_ids ids)) (emptyPermissionsByResourceId ids)"

definition environment_grants :: "server_config \<Rightarrow> request_context \<Rightarrow> string \<Rightarrow> resource_permission list" where
  "environment_grants cfg ctx name =
     (if canManageOrDeleteEnvironment cfg ctx Env_edit (Some name) \<or>
         canManageOrDeleteEnvironment cfg ctx Env_patch (Some name) then [MANAGE] else []) @
     (if canManageOrDeleteEnvironment cfg ctx Env_delete (Some name) then [DELETE] else [])"

definition resolveSandboxEnvironmentPermissions ::
    "server_config \<Rightarrow> (string \<Rightarrow> string list \<Rightarrow> environment_row list) \<Rightarrow> request_context \<Rightarrow> string list \<Rightarrow> permissions" where
  "resolveSandboxEnvironmentPermissions cfg getEnvironmentsByIds ctx ids =
     fold (\<lambda>e data. js_set (en_id e) (environment_grants cfg ctx (en_name e)) data)
       (getEnvironmentsByIds (rc_tenant_id ctx) (unique_ids ids)) (emptyPermissionsByResourceId ids)"

definition tenantCreatePermissions :: "server_config \<Rightarrow> request_context \<Rightarrow> permissions" where
  "tenantCreatePermissions cfg ctx =
     [(''agent'', TENANT_CREATE_PERMISSIONS),
      (''sandbox_environment'',
         if canManageOrDeleteEnvironment cfg ctx Env_create None then TENANT_CREATE_PERMISSIONS else [])]"

definition session_permissions ::
    "(string \<Rightarrow> string list \<Rightarrow> string \<Rightarrow> string list) \<Rightarrow> request_context \<Rightarrow> string list \<Rightarrow> permissions" where
  "session_permissions getOwnedIds ctx ids =
     fold (\<lambda>i data. js_set i SESSION_OWNER_PERMISSIONS data)
       (getOwnedIds (rc_tenant_id ctx) ids (rs_id (rc_subject ctx))) (emptyPermissionsByResourceId ids)"

section \<open>Authorizers\<close>

datatype agent_action = Act_read | Act_use | Act_manage | Act_delete

datatype agent_list_access = Access_all | Access_external_ids "string list"

text \<open>The authorizer of standalone and OIDC deployments.\<close>

definition trueforge_listAgentAccess :: "request_context \<Rightarrow> agent_action \<Rightarrow> auth_error + agent_list_access" where
  "trueforge_listAgentAccess ctx action = Inr Access_all"

definition trueforge_canAccessAgent :: "request_context \<Rightarrow> agent_action \<Rightarrow> agent_row \<Rightarrow> auth_error + bool" where
  "trueforge_canAccessAgent ctx action agent =
     (if action = Act_read \<or> action = Act_use then Inr True
      else Inr (ag_created_by agent = rs_id (rc_subject ctx)))"

definition trueforge_agent_permissions ::
    "(string \<Rightarrow> string list \<Rightarrow> string \<Rightarrow> string list) \<Rightarrow> request_context \<Rightarrow> string list \<Rightarrow> auth_error + permissions" where
  "trueforge_agent_permissions getOwnedIds ctx ids =
     (let owned = getOwnedIds (rc_tenant_id ctx) ids (rs_id (rc_subject ctx)) in
      Inr (fold (\<lambda>i data. js_set i (if i \<in> set owned then AGENT_OWNER_PERMISSIONS else AGENT_USE_PERMISSIONS) data)
             ids (emptyPermissionsByResourceId ids)))"

text \<open>The authorizer of the platform, which asks it for the permissions of the caller.\<close>

datatype agent_permission = READ_AGENT | USE_AGENT | MANAGE_AGENT | DELETE_AGENT

type_synonym agent_permissions = "(string, agent_permission list) js_map"

fun permissionByAction :: "agent_action \<Rightarrow> agent_permission" where
  "permissionByAction Act_read = READ_AGENT"
| "permissionByAction Act_use = USE_AGENT"
| "permissionByAction Act_manage = MANAGE_AGENT"
| "permissionByAction Act_delete = DELETE_AGENT"

definition allowsAction :: "agent_permission list \<Rightarrow> agent_action \<Rightarrow> bool" where
  "allowsAction granted action = (permissionByAction action \<in> set granted)"

definition toResourcePermissions :: "agent_permission list \<Rightarrow> resource_permission list" where
  "toResourcePermissions granted =
     map snd (filter (\<lambda>(p, r). p \<in> set granted) [(USE_AGENT, USE), (MANAGE_AGENT, MANAGE), (DELETE_AGENT, DELETE)])"

definition requireUserCredential :: "request_context \<Rightarrow> auth_error + string" where
  "requireUserCredential ctx =
     (case rc_user_credential ctx of
        None \<Rightarrow> Inl (Http_exception 401 ''Authentication token required for agent authorization'')
      | Some t \<Rightarrow> Inr t)"

definition granted_of :: "agent_permissions \<Rightarrow> string \<Rightarrow> agent_permission list" where
  "granted_of perms i = (case js_get perms i of None \<Rightarrow> [] | Some g \<Rightarrow> g)"

definition truefoundry_listAgentAccess ::
    "(string \<Rightarrow> string list option \<Rightarrow> auth_error + agent_permissions) \<Rightarrow> request_context \<Rightarrow> agent_action
     \<Rightarrow> auth_error + agent_list_access" where
  "truefoundry_listAgentAccess getAgentPermissions ctx action =
     bindE (requireUserCredential ctx) (\<lambda>token.
     bindE (getAgentPermissions token None) (\<lambda>perms.
       Inr (Access_external_ids (map fst (filter (\<lambda>(i, granted). allowsAction granted action) perms)))))"

definition truefoundry_canAccessAgent ::
    "(string \<Rightarrow> string list option \<Rightarrow> auth_error + agent_permissions) \<Rightarrow> request_context \<Rightarrow> agent_action \<Rightarrow> agent_row
     \<Rightarrow> auth_error + bool" where
  "truefoundry_canAccessAgent getAgentPermissions ctx action agent =
     (case ag_external_id agent of None \<Rightarrow> Inr False
      | Some ext \<Rightarrow>
          bindE (requireUserCredential ctx) (\<lambda>token.
          bindE (getAgentPermissions token (Some [ext])) (\<lambda>perms. Inr (allowsAction (granted_of perms ext) action))))"

definition truefoundry_agent_permissions ::
    "(string \<Rightarrow> string list option \<Rightarrow> auth_error + agent_permissions) \<Rightarrow> (string \<Rightarrow> string list \<Rightarrow> (string \<times> string) list)
     \<Rightarrow> request_context \<Rightarrow> string list \<Rightarrow> auth_error + permissions" where
  "truefoundry_agent_permissions getAgentPermissions getExternalIdsByIds ctx ids =
     (let data = emptyPermissionsByResourceId ids; agents = getExternalIdsByIds (rc_tenant_id ctx) ids in
      if agents = [] then Inr data
      else bindE (requireUserCredential ctx) (\<lambda>token.
           bindE (getAgentPermissions token (Some (map snd agents))) (\<lambda>perms.
             Inr (fold (\<lambda>(i, ext) data. js_set i (toResourcePermissions (granted_of perms ext)) data) agents data))))"

section \<open>Reading agents and sessions\<close>

definition agentIfAccessible ::
    "(request_context \<Rightarrow> agent_action \<Rightarrow> agent_row \<Rightarrow> auth_error + bool) \<Rightarrow> request_context \<Rightarrow> agent_action
     \<Rightarrow> agent_row option \<Rightarrow> auth_error + agent_row option" where
  "agentIfAccessible canAccessAgent ctx action agent =
     (case agent of None \<Rightarrow> Inr None
      | Some a \<Rightarrow> bindE (canAccessAgent ctx action a) (\<lambda>allowed. Inr (if allowed then Some a else None)))"

definition resolveManagedAgentIds ::
    "(request_context \<Rightarrow> agent_action \<Rightarrow> auth_error + agent_list_access) \<Rightarrow> (string \<Rightarrow> string list \<Rightarrow> agent_row list)
     \<Rightarrow> request_context \<Rightarrow> auth_error + string list" where
  "resolveManagedAgentIds listAgentAccess listAgents ctx =
     bindE (listAgentAccess ctx Act_manage) (\<lambda>access. case access of
        Access_all \<Rightarrow> Inr []
      | Access_external_ids exts \<Rightarrow> Inr (map ag_id (listAgents (rc_tenant_id ctx) exts)))"

definition canReadAgentBoundResource ::
    "(request_context \<Rightarrow> agent_action \<Rightarrow> auth_error + agent_list_access) \<Rightarrow> (string \<Rightarrow> string list \<Rightarrow> agent_row list)
     \<Rightarrow> request_context \<Rightarrow> string \<Rightarrow> string option \<Rightarrow> auth_error + bool" where
  "canReadAgentBoundResource listAgentAccess listAgents ctx creator agent_id =
     (if creator = rs_id (rc_subject ctx) then Inr True
      else case agent_id of None \<Rightarrow> Inr False
        | Some a \<Rightarrow> bindE (resolveManagedAgentIds listAgentAccess listAgents ctx) (\<lambda>managed. Inr (a \<in> set managed)))"

text \<open>A grant is for the whole tenant or for one user.\<close>

datatype grant_subject = Grant_tenant string | Grant_user string

definition canReadSession ::
    "(request_context \<Rightarrow> agent_action \<Rightarrow> auth_error + agent_list_access) \<Rightarrow> (string \<Rightarrow> string list \<Rightarrow> agent_row list)
     \<Rightarrow> (string \<Rightarrow> string list \<Rightarrow> grant_subject list \<Rightarrow> 'g list) \<Rightarrow> request_context \<Rightarrow> string \<Rightarrow> string \<Rightarrow> string option
     \<Rightarrow> auth_error + bool" where
  "canReadSession listAgentAccess listAgents listAccessGrants ctx session_id creator agent_id =
     (if creator = rs_id (rc_subject ctx) then Inr True
      else let subjects = Grant_tenant (rc_tenant_id ctx) #
                 (if rs_type (rc_subject ctx) = ''user'' then [Grant_user (rs_id (rc_subject ctx))] else []) in
        if listAccessGrants (rc_tenant_id ctx) [session_id] subjects \<noteq> [] then Inr True
        else canReadAgentBoundResource listAgentAccess listAgents ctx creator agent_id)"

end
