(* ===== verification/Access_Control_Props.thy ===== *)
theory Access_Control_Props
  imports Access_Control Login_Admission_Props
begin

text \<open>
  Properties of the access control. The locale \<open>authenticator\<close> states what the middleware relies on of the three
  authenticators: they read nothing of a request but its token, and a credential in the context is that token. The
  gates are proved once inside it and hold for each of the three.
\<close>

section \<open>The contract of an authenticator\<close>

locale authenticator =
  fixes authenticate :: "http_request \<Rightarrow> auth_error + request_context"
  assumes only_token: "extractRequestToken c = extractRequestToken d \<Longrightarrow> authenticate c = authenticate d"
    and credential: "authenticate c = Inr ctx \<Longrightarrow> rc_user_credential ctx = Some t \<Longrightarrow> extractRequestToken c = Some t"
begin

lemma tryAuthenticate_Some: "tryAuthenticate authenticate c = Inr (Some ctx) \<longleftrightarrow> authenticate c = Inr ctx"
  by (auto simp: tryAuthenticate_def split: sum.split auth_error.split)

lemma passes_iff:
  "createAuthMiddleware authenticate Inr c = Inr ctx \<longleftrightarrow> authenticate c = Inr ctx"
  by (auto simp: createAuthMiddleware_def bindE_Inr_iff authentication_required_def tryAuthenticate_Some
      split: option.splits)

lemma admin_passes_iff:
  "buildAdminAuthMiddleware cfg authenticate accessible Inr c = Inr ctx \<longleftrightarrow>
     authenticate c = Inr ctx \<and> accessible \<and> hasAdminRole cfg ctx"
  by (auto simp: buildAdminAuthMiddleware_def bindE_Inr_iff tryAuthenticate_Some split: option.splits if_splits)

lemma admin_handler:
  "buildAdminAuthMiddleware cfg authenticate accessible next_handler c =
     bindE (buildAdminAuthMiddleware cfg authenticate accessible Inr c) next_handler"
  by (cases "tryAuthenticate authenticate c") (auto simp: buildAdminAuthMiddleware_def split: option.split)

lemma admin_same_token:
  assumes "extractRequestToken c = extractRequestToken d" and "hr_path c = hr_path d"
  shows "buildAdminAuthMiddleware cfg authenticate accessible next_handler c =
         buildAdminAuthMiddleware cfg authenticate accessible next_handler d"
  by (simp only: buildAdminAuthMiddleware_def tryAuthenticate_def only_token[OF assms(1)] assms(2))

lemma admin_credential:
  assumes "buildAdminAuthMiddleware cfg authenticate accessible Inr c = Inr ctx"
    and "rc_user_credential ctx = Some t"
  shows "extractRequestToken c = Some t"
  using assms credential by (auto simp: admin_passes_iff)

end

interpretation standalone: authenticator standalone_authenticate
  by unfold_locales (auto simp: standalone_authenticate_def STANDALONE_REQUEST_CONTEXT_def)

interpretation oidc: authenticator "oidc_authenticate jwtVerify oidcVerify" for jwtVerify oidcVerify
  by unfold_locales
    (auto simp: oidc_authenticate_def toRequestContext_success split: option.splits sum.splits if_splits)

interpretation platform: authenticator "truefoundry_authenticate getSession" for getSession
  by unfold_locales
    (auto simp: truefoundry_authenticate_def bindE_Inr_iff split: option.splits sum.splits if_splits)

interpretation any_mode: authenticator "createAuthenticator jwtVerify oidcVerify getSession mode"
  for jwtVerify oidcVerify getSession mode
  by (cases mode)
    (simp_all add: createAuthenticator_def standalone.authenticator_axioms oidc.authenticator_axioms
      platform.authenticator_axioms)

section \<open>Authentication against an OIDC provider\<close>

lemma oidc_authenticate_success:
  "oidc_authenticate jwtVerify oidcVerify c = Inr ctx \<longleftrightarrow>
     (\<exists>ov token claims. oidcVerify = Some ov \<and> extractRequestToken c = Some token \<and> token \<noteq> [] \<and>
        jwtVerify ov token = Some claims \<and> toRequestContext claims (ov_config ov) token = Inr ctx)"
  by (auto simp: oidc_authenticate_def authentication_required_def split: option.splits sum.splits if_splits)

lemma oidc_authenticate_failure:
  "oidc_authenticate jwtVerify oidcVerify c = Inl e \<Longrightarrow> e = authentication_required"
  by (auto simp: oidc_authenticate_def split: option.splits sum.splits if_splits)

lemma hasAdminRole_oidc:
  assumes "getTrueForgeAuthMode cfg = Mode_oidc"
  obtains oidc where "OIDC cfg = Some oidc"
    and "\<And>ctx. hasAdminRole cfg ctx \<longleftrightarrow> OIDC_ADMIN_ROLE_VALUE oidc \<in> set (rc_roles ctx)"
proof -
  from assms have "isOidcConfigured cfg"
    by (auto simp: getTrueForgeAuthMode_def split: if_splits)
  then obtain oidc where "OIDC cfg = Some oidc" by (auto simp: isOidcConfigured_def)
  with assms \<open>isOidcConfigured cfg\<close> that show ?thesis by (simp add: hasAdminRole_def)
qed

text \<open>
  In an OIDC deployment an admin route runs for exactly the requests whose token the provider signed for a caller that
  the allowlist admits, that has an identity and that has the admin value among the values of the role claim.
\<close>

theorem admin_route_reached_iff:
  assumes "getTrueForgeAuthMode cfg = Mode_oidc" and "OIDC cfg = Some (ov_config ov)"
  shows "buildAdminAuthMiddleware cfg
           (createAuthenticator jwtVerify (Some ov) getSession (getTrueForgeAuthMode cfg)) accessible
           Inr c = Inr ctx \<longleftrightarrow>
         accessible \<and>
         (\<exists>token claims. extractRequestToken c = Some token \<and> token \<noteq> [] \<and> jwtVerify ov token = Some claims \<and>
            toRequestContext claims (ov_config ov) token = Inr ctx \<and>
            admitted_email claims (ov_config ov) \<and> resolveRole claims (ov_config ov) = Role_admin)"
proof -
  obtain oidc where "OIDC cfg = Some oidc"
    "\<And>ctx. hasAdminRole cfg ctx \<longleftrightarrow> OIDC_ADMIN_ROLE_VALUE oidc \<in> set (rc_roles ctx)"
    using hasAdminRole_oidc[OF assms(1)] by blast
  with assms(2) have "hasAdminRole cfg ctx \<longleftrightarrow> OIDC_ADMIN_ROLE_VALUE (ov_config ov) \<in> set (rc_roles ctx)" by simp
  then show ?thesis
    by (auto simp: assms(1) createAuthenticator_def oidc.admin_passes_iff oidc_authenticate_success
        toRequestContext_success resolveRole_def split: if_splits)
qed

text \<open>An administrator and a member of the staff of one deployment.\<close>

definition demo_oidc :: oidc_config where
  "demo_oidc = \<lparr>OIDC_USER_REFERENCE_CLAIM = ''sub'', OIDC_USER_DISPLAY_NAME_CLAIM = ''name'',
     OIDC_USER_ROLE_CLAIM = ''groups'', OIDC_ADMIN_ROLE_VALUE = ''admins'', OIDC_SCOPES = [''openid''],
     OIDC_ALLOWED_EMAILS = [''*@acme.com'']\<rparr>"

definition demo_server :: server_config where
  "demo_server = \<lparr>STANDALONE = False, TRUEFOUNDRY_SERVICEFOUNDRY_SERVER_URL = None, OIDC = Some demo_oidc,
     public_base_url = ''https://acme.com/app'', public_base_path = Some ''/app''\<rparr>"

definition demo_verify :: oidc_verify where
  "demo_verify = \<lparr>ov_issuer = ''https://idp'', ov_audience = ''app'', ov_config = demo_oidc\<rparr>"

definition demo_claims :: "string \<Rightarrow> id_token_claims" where
  "demo_claims role = [(''sub'', JStr ''u1''), (''email'', JStr ''Ann@Acme.com''), (''groups'', JArr [JStr role, JNull])]"

definition demo_jwt :: "oidc_verify \<Rightarrow> string \<Rightarrow> id_token_claims option" where
  "demo_jwt ov token = (if token = ''adm'' then Some (demo_claims ''admins'')
     else if token = ''usr'' then Some (demo_claims ''staff'') else None)"

definition demo_request :: "string \<Rightarrow> http_request" where
  "demo_request token = \<lparr>hr_authorization = Some (''bearer '' @ token), hr_cookies = [], hr_path = ''/x''\<rparr>"

definition demo_context :: request_context where
  "demo_context = \<lparr>rc_tenant_id = ''default'',
     rc_subject = \<lparr>rs_id = ''u1'', rs_type = ''user'', rs_display_name = ''u1''\<rparr>, rc_roles = [''admins''],
     rc_user_credential = Some ''adm''\<rparr>"

definition demo_admin_route :: "string \<Rightarrow> auth_error + request_context" where
  "demo_admin_route token = buildAdminAuthMiddleware demo_server
     (createAuthenticator demo_jwt (Some demo_verify) (\<lambda>t. Inl authentication_required) (getTrueForgeAuthMode demo_server))
     True Inr (demo_request token)"

theorem admin_route_reached_iff_witness:
  "demo_admin_route ''adm'' = Inr demo_context \<and> demo_admin_route ''usr'' \<noteq> Inr demo_context"
proof -
  have mode: "getTrueForgeAuthMode demo_server = Mode_oidc" by code_simp
  have cfg: "OIDC demo_server = Some (ov_config demo_verify)" by (simp add: demo_server_def demo_verify_def)
  have iff: "demo_admin_route t = Inr ctx \<longleftrightarrow>
      (\<exists>token claims. extractRequestToken (demo_request t) = Some token \<and> token \<noteq> [] \<and>
         demo_jwt demo_verify token = Some claims \<and> toRequestContext claims (ov_config demo_verify) token = Inr ctx \<and>
         admitted_email claims (ov_config demo_verify) \<and> resolveRole claims (ov_config demo_verify) = Role_admin)" for t ctx
    unfolding demo_admin_route_def by (simp only: admin_route_reached_iff[OF mode cfg] simp_thms)
  have tok: "extractRequestToken (demo_request ''adm'') = Some ''adm''" "extractRequestToken (demo_request ''usr'') = Some ''usr''"
    by code_simp+
  have ctx: "toRequestContext (demo_claims ''admins'') (ov_config demo_verify) ''adm'' = Inr demo_context" by code_simp
  then have "admitted_email (demo_claims ''admins'') (ov_config demo_verify)" by (simp add: toRequestContext_success)
  moreover have "resolveRole (demo_claims ''admins'') (ov_config demo_verify) = Role_admin"
    "resolveRole (demo_claims ''staff'') (ov_config demo_verify) = Role_user" by code_simp+
  ultimately show ?thesis using tok ctx by (simp add: iff demo_jwt_def)
qed

section \<open>Service keys\<close>

lemma utf8_char_inj:
  assumes "utf8_char c @ xs = utf8_char d @ ys"
  shows "c = d \<and> xs = ys"
proof -
  have c: "(of_char c :: nat) < 256" and d: "(of_char d :: nat) < 256" by simp_all
  have "(of_char c :: nat) = of_char d \<and> xs = ys"
  proof (cases "(of_char c :: nat) < 128"; cases "(of_char d :: nat) < 128")
    assume "\<not> (of_char c :: nat) < 128" "\<not> (of_char d :: nat) < 128"
    with assms have "(of_char c :: nat) div 64 = of_char d div 64" "(of_char c :: nat) mod 64 = of_char d mod 64" "xs = ys"
      by (auto simp: utf8_char_def Let_def)
    then show ?thesis by (metis div_mult_mod_eq)
  qed (use assms c d in \<open>auto simp: utf8_char_def Let_def\<close>)
  then show ?thesis by simp
qed

lemma utf8_char_nonempty [simp]: "utf8_char c \<noteq> []" "[] \<noteq> utf8_char c"
  by (simp_all add: utf8_char_def Let_def)

lemma utf8_bytes_inj: "utf8_bytes s = utf8_bytes t \<Longrightarrow> s = t"
proof (induction s arbitrary: t)
  case Nil
  then show ?case by (cases t) (auto simp: utf8_bytes_def)
next
  case (Cons c s)
  then obtain d u where t: "t = d # u" by (cases t) (auto simp: utf8_bytes_def)
  with Cons.prems have "c = d" "utf8_bytes s = utf8_bytes u"
    using utf8_char_inj[of c "utf8_bytes s" d "utf8_bytes u"] by (auto simp: utf8_bytes_def)
  with Cons.IH t show ?case by simp
qed

lemma matchesServiceKey_iff: "matchesServiceKey provided expected \<longleftrightarrow> provided = expected"
  using utf8_bytes_inj by (auto simp: matchesServiceKey_def Let_def list.rel_eq)

lemma api_key_passes_iff:
  "createApiKeyAuthMiddleware apiKey next_handler c =
     (if readBearerToken c = Some apiKey then next_handler ()
      else Inl (Http_exception 401 ''Invalid service credential''))"
  by (auto simp: createApiKeyAuthMiddleware_def matchesServiceKey_iff split: option.split)

section \<open>Listed permissions\<close>

lemma js_get_fold_set:
  "js_get (fold (\<lambda>x m. js_set (f x) (g x) m) xs m) i =
     (case find (\<lambda>x. f x = i) (rev xs) of None \<Rightarrow> js_get m i | Some x \<Rightarrow> Some (g x))"
  by (induction xs rule: rev_induct) auto

lemma find_key:
  assumes "x \<in> set xs" and "distinct (map f xs)"
  shows "find (\<lambda>y. f y = f x) xs = Some x"
  using assms by (induction xs) (auto simp: image_iff)

lemma js_get_fold_distinct:
  assumes "x \<in> set xs" and "distinct (map f xs)"
  shows "js_get (fold (\<lambda>x m. js_set (f x) (g x) m) xs m) (f x) = Some (g x)"
  using find_key[of x "rev xs" f] assms by (simp add: js_get_fold_set rev_map[symmetric])

lemma js_get_fold_absent:
  assumes "i \<notin> f ` set xs"
  shows "js_get (fold (\<lambda>x m. js_set (f x) (g x) m) xs m) i = js_get m i"
proof -
  have "find (\<lambda>x. f x = i) (rev xs) = None" using assms by (auto simp: find_None_iff)
  then show ?thesis by (simp add: js_get_fold_set)
qed

lemma js_get_fold_ids:
  "i \<in> set ids \<Longrightarrow> js_get (fold (\<lambda>i m. js_set i (g i) m) ids m) i = Some (g i)"
  by (induction ids rule: rev_induct) auto

lemma empty_permissions:
  "js_get (emptyPermissionsByResourceId ids) i = (if i \<in> set ids then Some [] else None)"
  by (auto simp: emptyPermissionsByResourceId_def js_get_fold_ids
      js_get_fold_absent[where f = "\<lambda>i. i" and g = "\<lambda>i. []", simplified])

lemma set_unique_ids [simp]: "set (unique_ids ids) = set ids"
  by (simp add: unique_ids_def)

lemma distinct_unique_ids [simp]: "distinct (unique_ids ids)"
  by (simp add: unique_ids_def)

fun listed_permission :: "agent_action \<Rightarrow> resource_permission option" where
  "listed_permission Act_read = None"
| "listed_permission Act_use = Some USE"
| "listed_permission Act_manage = Some MANAGE"
| "listed_permission Act_delete = Some DELETE"

text \<open>What the database store documents: the ids of the rows among the given ones that the subject created.\<close>

definition answers_owned_ids :: "(string \<Rightarrow> string list \<Rightarrow> string \<Rightarrow> string list) \<Rightarrow> string \<Rightarrow> agent_row list \<Rightarrow> bool" where
  "answers_owned_ids getOwnedIds tenant rows \<longleftrightarrow>
     distinct (map ag_id rows) \<and>
     (\<forall>ids subject. set (getOwnedIds tenant ids subject) =
        {i \<in> set ids. \<exists>a \<in> set rows. ag_id a = i \<and> ag_created_by a = subject})"

lemma distinct_row:
  "distinct (map ag_id rows) \<Longrightarrow> a \<in> set rows \<Longrightarrow> b \<in> set rows \<Longrightarrow> ag_id a = ag_id b \<Longrightarrow> a = b"
  by (simp add: distinct_map inj_on_def)

theorem trueforge_permissions_match_access:
  assumes "answers_owned_ids getOwnedIds (rc_tenant_id ctx) rows"
    and "a \<in> set rows" and "ag_id a \<in> set ids" and "listed_permission action = Some p"
  shows "\<exists>data granted. trueforge_agent_permissions getOwnedIds ctx ids = Inr data \<and>
           js_get data (ag_id a) = Some granted \<and>
           trueforge_canAccessAgent ctx action a = Inr (p \<in> set granted)"
proof -
  define owned where "owned = getOwnedIds (rc_tenant_id ctx) ids (rs_id (rc_subject ctx))"
  have "ag_id a \<in> set owned \<longleftrightarrow> ag_created_by a = rs_id (rc_subject ctx)"
    using assms(1-3) by (auto simp: answers_owned_ids_def owned_def dest: distinct_row)
  then show ?thesis
    using assms(3,4)
    by (cases action)
      (auto simp: trueforge_agent_permissions_def Let_def js_get_fold_ids owned_def[symmetric]
        trueforge_canAccessAgent_def AGENT_OWNER_PERMISSIONS_def AGENT_USE_PERMISSIONS_def)
qed

text \<open>
  What the platform documents: the permissions of an agent do not depend on which other agents are asked for in the
  same request.
\<close>

definition answers_permissions :: "(string \<Rightarrow> string list option \<Rightarrow> auth_error + agent_permissions) \<Rightarrow> bool" where
  "answers_permissions getAgentPermissions \<longleftrightarrow>
     (\<forall>token exts ext perms. ext \<in> set exts \<longrightarrow> getAgentPermissions token (Some exts) = Inr perms \<longrightarrow>
        (\<exists>single. getAgentPermissions token (Some [ext]) = Inr single \<and> granted_of single ext = granted_of perms ext))"

lemma toResourcePermissions_iff:
  "listed_permission action = Some p \<Longrightarrow> p \<in> set (toResourcePermissions g) \<longleftrightarrow> allowsAction g action"
  by (cases action) (auto simp: toResourcePermissions_def allowsAction_def)

theorem platform_permissions_match_access:
  assumes "answers_permissions getAgentPermissions"
    and "set (getExternalIdsByIds (rc_tenant_id ctx) ids) =
           {(ag_id b, ext) | b ext. b \<in> set rows \<and> ag_id b \<in> set ids \<and> ag_external_id b = Some ext}"
    and "distinct (map fst (getExternalIdsByIds (rc_tenant_id ctx) ids))" and "distinct (map ag_id rows)"
    and "a \<in> set rows" and "ag_id a \<in> set ids" and "listed_permission action = Some p"
    and "truefoundry_agent_permissions getAgentPermissions getExternalIdsByIds ctx ids = Inr data"
  shows "\<exists>granted. js_get data (ag_id a) = Some granted \<and>
           truefoundry_canAccessAgent getAgentPermissions ctx action a = Inr (p \<in> set granted)"
proof -
  define agents where "agents = getExternalIdsByIds (rc_tenant_id ctx) ids"
  show ?thesis
  proof (cases "ag_external_id a")
    case None
    have absent: "ag_id a \<notin> fst ` set agents"
      using assms(2,4,5) None by (auto simp: agents_def dest: distinct_row)
    have "js_get data (ag_id a) = Some []"
      using assms(8,6)
      by (auto simp: truefoundry_agent_permissions_def Let_def bindE_Inr_iff empty_permissions
          agents_def[symmetric] case_prod_unfold js_get_fold_absent[where f = fst and g = "\<lambda>x. toResourcePermissions (granted_of p (snd x))" for p, OF absent]
          split: if_splits)
    with None show ?thesis by (simp add: truefoundry_canAccessAgent_def)
  next
    case (Some ext)
    then have listed: "(ag_id a, ext) \<in> set agents" using assms(2,5,6) by (auto simp: agents_def)
    then have "agents \<noteq> []" by auto
    with assms(8) obtain token perms where t: "requireUserCredential ctx = Inr token"
      and perms: "getAgentPermissions token (Some (map snd agents)) = Inr perms"
      and data: "data = fold (\<lambda>x data. js_set (fst x) (toResourcePermissions (granted_of perms (snd x))) data)
                   agents (emptyPermissionsByResourceId ids)"
      by (auto simp: truefoundry_agent_permissions_def Let_def bindE_Inr_iff agents_def[symmetric] case_prod_unfold)
    have "js_get data (fst (ag_id a, ext)) = Some (toResourcePermissions (granted_of perms (snd (ag_id a, ext))))"
      unfolding data by (rule js_get_fold_distinct) (use listed assms(3) in \<open>simp_all add: agents_def\<close>)
    moreover from listed have "ext \<in> set (map snd agents)" by force
    with assms(1) perms obtain single where
      "getAgentPermissions token (Some [ext]) = Inr single" "granted_of single ext = granted_of perms ext"
      unfolding answers_permissions_def by blast
    ultimately show ?thesis
      using Some t assms(7) by (simp add: truefoundry_canAccessAgent_def toResourcePermissions_iff)
  qed
qed

text \<open>Nobody may delete or edit the reserved environment, and only an administrator may patch it.\<close>

lemma reserved_environment:
  "environment_grants cfg ctx RESERVED_SANDBOX_ENVIRONMENT_NAME = (if hasAdminRole cfg ctx then [MANAGE] else [])"
  by (simp add: environment_grants_def canManageOrDeleteEnvironment_def)

lemma schedule_permissions:
  assumes "distinct (map so_id (getSchedulesByIds (rc_tenant_id ctx) (unique_ids ids)))"
    and "s \<in> set (getSchedulesByIds (rc_tenant_id ctx) (unique_ids ids))" and "so_id s \<in> set ids"
  shows "js_get (resolveSchedulePermissions cfg getSchedulesByIds ctx ids) (so_id s) =
           Some (if canEditSchedule cfg ctx (so_created_by s) then SCHEDULE_OWNER_PERMISSIONS else [])"
proof -
  define keep where "keep = (\<lambda>s :: schedule_owner. canEditSchedule cfg ctx (so_created_by s))"
  define rows where "rows = getSchedulesByIds (rc_tenant_id ctx) (unique_ids ids)"
  have "fold (\<lambda>s data. if keep s then js_set (so_id s) G data else data) rs m =
        fold (\<lambda>s data. js_set (so_id s) G data) (filter keep rs) m" for G rs m
    by (induction rs arbitrary: m) auto
  then have eq: "resolveSchedulePermissions cfg getSchedulesByIds ctx ids =
      fold (\<lambda>s data. js_set (so_id s) SCHEDULE_OWNER_PERMISSIONS data) (filter keep rows)
        (emptyPermissionsByResourceId ids)"
    by (simp add: resolveSchedulePermissions_def keep_def rows_def)
  have d: "distinct (map so_id (filter keep rows))" using assms(1) by (simp add: rows_def distinct_map_filter)
  show ?thesis
  proof (cases "keep s")
    case True
    with assms(2) have "s \<in> set (filter keep rows)" by (simp add: rows_def)
    from js_get_fold_distinct[OF this d] True show ?thesis by (simp add: eq keep_def)
  next
    case False
    then have "so_id s \<notin> so_id ` set (filter keep rows)"
      using assms(1,2) by (auto simp: rows_def[symmetric] distinct_map inj_on_def)
    from js_get_fold_absent[OF this, where g = "\<lambda>s. SCHEDULE_OWNER_PERMISSIONS"] False assms(3) show ?thesis by (simp add: eq keep_def empty_permissions)
  qed
qed

text \<open>With the authorizer of standalone and OIDC deployments a session is read by its creator and by grant only.\<close>

lemma trueforge_session_readers:
  "canReadSession trueforge_listAgentAccess listAgents listAccessGrants ctx session_id creator agent_id =
     Inr (creator = rs_id (rc_subject ctx) \<or>
          listAccessGrants (rc_tenant_id ctx) [session_id]
            (Grant_tenant (rc_tenant_id ctx) #
             (if rs_type (rc_subject ctx) = ''user'' then [Grant_user (rs_id (rc_subject ctx))] else [])) \<noteq> [])"
  by (auto simp: canReadSession_def canReadAgentBoundResource_def resolveManagedAgentIds_def
      trueforge_listAgentAccess_def Let_def split: option.split)

end
