(* ===== verification/Login_Flow.thy ===== *)
theory Login_Flow
  imports Access_Control
begin

text \<open>
  The browser login of \<open>apis/auth.ts\<close>, \<open>auth/oidc.ts\<close>, \<open>auth/cookies.ts\<close> and \<open>truefoundry/externalLogin.ts\<close>.

  A handler returns the redirect it answers and the cookies it has written, oldest first. The OIDC client library
  (the authorization URL, the code exchange and its random values), the JSON parser and the verification of tokens
  are parameters. The attributes of the cookies and the log lines are left out.
\<close>

section \<open>Encodings of a query\<close>

definition hex_digit :: "nat \<Rightarrow> char" where
  "hex_digit n = (if n < 10 then char_of (n + 48) else char_of (n + 55))"

definition percent_byte :: "nat \<Rightarrow> string" where
  "percent_byte b = [CHR ''%'', hex_digit (b div 16), hex_digit (b mod 16)]"

definition alphanumeric :: "char \<Rightarrow> bool" where
  "alphanumeric c = (let n = of_char c :: nat in
     (48 \<le> n \<and> n \<le> 57) \<or> (65 \<le> n \<and> n \<le> 90) \<or> (97 \<le> n \<and> n \<le> 122))"

definition percent_encode :: "(char \<Rightarrow> bool) \<Rightarrow> string \<Rightarrow> string" where
  "percent_encode keep s = concat (map (\<lambda>c. if keep c then [c] else concat (map percent_byte (utf8_char c))) s)"

definition encodeURIComponent :: "string \<Rightarrow> string" where
  "encodeURIComponent = percent_encode (\<lambda>c. alphanumeric c \<or> c \<in> set (CHR 0x27 # ''-_.!~*()''))"

text \<open>The value of a \<open>URLSearchParams\<close> entry.\<close>

definition form_encode :: "string \<Rightarrow> string" where
  "form_encode s =
     concat (map (\<lambda>c. if c = CHR '' '' then ''+''
                      else percent_encode (\<lambda>c. alphanumeric c \<or> c \<in> set ''*-._'') [c]) s)"

section \<open>Cookies and redirects\<close>

record oauth_state =
  os_state :: string
  os_code_verifier :: string
  os_return_to :: string

datatype cookie_write =
    Set_oauth_state oauth_state nat
  | Set_id_token string nat
  | Clear_oauth_state
  | Clear_id_token

definition OAUTH_STATE_MAX_AGE_SECONDS :: nat where "OAUTH_STATE_MAX_AGE_SECONDS = 10 * 60"
definition ID_TOKEN_COOKIE_MAX_AGE_SECONDS :: nat where "ID_TOKEN_COOKIE_MAX_AGE_SECONDS = 24 * 60 * 60"

text \<open>The schema takes an object with three texts; anything else is no pending login.\<close>

definition readOAuthStateCookie :: "(string \<Rightarrow> json option) \<Rightarrow> http_request \<Rightarrow> oauth_state option" where
  "readOAuthStateCookie json_parse c =
     (case js_get (hr_cookies c) ''oauth_state'' of None \<Rightarrow> None
      | Some raw \<Rightarrow>
          if raw = [] then None
          else (case json_parse raw of
              Some (JObj obj) \<Rightarrow>
                (case (js_get obj ''state'', js_get obj ''code_verifier'', js_get obj ''return_to'') of
                   (Some (JStr s), Some (JStr v), Some (JStr r)) \<Rightarrow>
                     Some \<lparr>os_state = s, os_code_verifier = v, os_return_to = r\<rparr>
                 | _ \<Rightarrow> None)
            | _ \<Rightarrow> None))"

section \<open>The OIDC client\<close>

record authorization_request =
  az_redirect_uri :: string
  az_scope :: string
  az_claims :: "(string, bool) js_map"
  az_code_verifier :: string
  az_state :: string

record token_response =
  tk_id_token :: "string option"
  tk_claims :: "id_token_claims option"

definition token_claims :: "token_response \<Rightarrow> id_token_claims" where
  "token_claims tokens = (case tk_claims tokens of None \<Rightarrow> [] | Some cs \<Rightarrow> cs)"

text \<open>The two calls of the client library, each of which may throw, and the values it mints for a login.\<close>

record oidc_client =
  cl_authorization_url :: "authorization_request \<Rightarrow> auth_error + string"
  cl_code_grant :: "(string, string) js_map \<Rightarrow> string \<Rightarrow> string \<Rightarrow> auth_error + token_response"
  cl_code_verifier :: string
  cl_state :: string

definition getPublicBaseUrl :: "server_config \<Rightarrow> auth_error + string" where
  "getPublicBaseUrl cfg =
     (if public_base_url cfg = []
      then Inl (Other_auth_error ''PUBLIC_BASE_URL is required for OIDC callbacks but was empty'')
      else Inr (public_base_url cfg))"

definition authCallbackUrl :: "server_config \<Rightarrow> auth_error + string" where
  "authCallbackUrl cfg = bindE (getPublicBaseUrl cfg) (\<lambda>b. Inr (b @ ''/api/v1/auth/callback''))"

definition missing_oidc_config :: auth_error where
  "missing_oidc_config = Other_auth_error ''OIDC claim configuration is unavailable''"

fun join_spaces :: "string list \<Rightarrow> string" where
  "join_spaces [] = []"
| "join_spaces [s] = s"
| "join_spaces (s # t # ss) = s @ '' '' @ join_spaces (t # ss)"

definition buildLoginAuthorization ::
    "server_config \<Rightarrow> oidc_client \<Rightarrow> oidc_verify option \<Rightarrow> string option
     \<Rightarrow> auth_error + (string \<times> cookie_write list)" where
  "buildLoginAuthorization cfg client oidcVerify returnTo =
     (case oidcVerify of None \<Rightarrow> Inl missing_oidc_config
      | Some ov \<Rightarrow>
          let (scopes, claims) = buildAuthorizationRequestParams (ov_config ov);
              return_to = safeReturnTo (public_base_path cfg) returnTo
          in bindE (authCallbackUrl cfg) (\<lambda>redirect_uri.
             bindE (cl_authorization_url client
                 \<lparr>az_redirect_uri = redirect_uri, az_scope = join_spaces scopes, az_claims = claims,
                  az_code_verifier = cl_code_verifier client, az_state = cl_state client\<rparr>) (\<lambda>url.
               Inr (url, [Set_oauth_state \<lparr>os_state = cl_state client, os_code_verifier = cl_code_verifier client,
                                           os_return_to = return_to\<rparr> OAUTH_STATE_MAX_AGE_SECONDS]))))"

definition exchangeAuthorizationCode ::
    "server_config \<Rightarrow> oidc_client \<Rightarrow> oidc_verify option \<Rightarrow> (string, string) js_map \<Rightarrow> oauth_state
     \<Rightarrow> auth_error + cookie_write list" where
  "exchangeAuthorizationCode cfg client oidcVerify callbackParams pending =
     bindE (authCallbackUrl cfg) (\<lambda>_.
     case oidcVerify of None \<Rightarrow> Inl missing_oidc_config
     | Some ov \<Rightarrow>
         bindE (cl_code_grant client callbackParams (os_code_verifier pending) (os_state pending)) (\<lambda>tokens.
           case tk_id_token tokens of None \<Rightarrow> Inl (Other_auth_error ''Token response missing id_token'')
           | Some idToken \<Rightarrow>
               if idToken = [] then Inl (Other_auth_error ''Token response missing id_token'')
               else bindE (assertEmailAllowed (token_claims tokens) (ov_config ov)) (\<lambda>_.
                 Inr [Set_id_token idToken ID_TOKEN_COOKIE_MAX_AGE_SECONDS])))"

section \<open>Handlers\<close>

text \<open>A redirect and the cookies written.\<close>

type_synonym auth_reply = "string \<times> cookie_write list"

definition oauthErrorRedirect :: "server_config \<Rightarrow> string \<Rightarrow> string" where
  "oauthErrorRedirect cfg reason =
     getPublicUiBasePath (public_base_path cfg) @ ''?error='' @ encodeURIComponent reason"

definition resolveTrueFoundryLoginReturnTo :: "server_config \<Rightarrow> string option \<Rightarrow> string" where
  "resolveTrueFoundryLoginReturnTo cfg returnTo =
     (let redirectPath = (case returnTo of
            None \<Rightarrow> getPublicUiBasePath (public_base_path cfg)
          | Some r \<Rightarrow> if r \<noteq> [] \<and> safeReturnTo (public_base_path cfg) returnTo = r then r
                      else getPublicUiBasePath (public_base_path cfg))
      in ''/signin/external?redirectPath='' @ form_encode redirectPath)"

definition auth_login ::
    "server_config \<Rightarrow> oidc_client option \<Rightarrow> oidc_verify option \<Rightarrow> string option \<Rightarrow> auth_reply" where
  "auth_login cfg oidcClient oidcVerify returnTo =
     (case oidcClient of
        Some client \<Rightarrow>
          (case buildLoginAuthorization cfg client oidcVerify returnTo of
             Inr reply \<Rightarrow> reply
           | Inl e \<Rightarrow> (oauthErrorRedirect cfg ''login_failed'', []))
      | None \<Rightarrow>
          if isTrueFoundryModeEnabled cfg then (resolveTrueFoundryLoginReturnTo cfg returnTo, [])
          else (getPublicUiBasePath (public_base_path cfg), []))"

text \<open>The redirect of a caller who is signed in, or the cookies written while finding out that there is none.\<close>

definition redirectIfAlreadyAuthenticated ::
    "(oidc_verify \<Rightarrow> string \<Rightarrow> id_token_claims option) \<Rightarrow> oidc_verify option \<Rightarrow> http_request \<Rightarrow> string
     \<Rightarrow> string option \<times> cookie_write list" where
  "redirectIfAlreadyAuthenticated jwtVerify oidcVerify c whenAuthenticated =
     (case resolveOidcRequestContext jwtVerify oidcVerify c of
        Inr (Some ctx) \<Rightarrow> (Some whenAuthenticated, [])
      | Inr None \<Rightarrow> (None, [])
      | Inl e \<Rightarrow> (None, [Clear_id_token]))"

record callback_query =
  cq_code :: "string option"
  cq_state :: string
  cq_error :: "string option"
  cq_error_description :: "string option"

definition truthy :: "string option \<Rightarrow> bool" where
  "truthy v = (v \<noteq> None \<and> v \<noteq> Some [])"

definition callback_reason :: "callback_query \<Rightarrow> string" where
  "callback_reason query =
     (case map_option js_trim (cq_error_description query) of
        Some description \<Rightarrow> if truthy (cq_error query) \<and> description \<noteq> [] then description else ''login_failed''
      | None \<Rightarrow> ''login_failed'')"

definition auth_callback ::
    "server_config \<Rightarrow> oidc_client option \<Rightarrow> oidc_verify option \<Rightarrow> (oidc_verify \<Rightarrow> string \<Rightarrow> id_token_claims option)
     \<Rightarrow> (string \<Rightarrow> json option) \<Rightarrow> (string, string) js_map \<Rightarrow> http_request \<Rightarrow> callback_query \<Rightarrow> auth_reply" where
  "auth_callback cfg oidcClient oidcVerify jwtVerify json_parse searchParams c query =
     (case oidcClient of None \<Rightarrow> (getPublicUiBasePath (public_base_path cfg), [])
      | Some client \<Rightarrow>
          let pending = readOAuthStateCookie json_parse c;
              soft_or = (\<lambda>whenAuthenticated reason.
                case redirectIfAlreadyAuthenticated jwtVerify oidcVerify c whenAuthenticated of
                  (Some location, cookies) \<Rightarrow> (location, Clear_oauth_state # cookies)
                | (None, cookies) \<Rightarrow> (oauthErrorRedirect cfg reason, Clear_oauth_state # cookies))
          in case pending of
               None \<Rightarrow> soft_or (getPublicUiBasePath (public_base_path cfg)) (callback_reason query)
             | Some p \<Rightarrow>
                 if os_state p \<noteq> cq_state query \<or> truthy (cq_error query) \<or> \<not> truthy (cq_code query)
                 then soft_or (getPublicUiBasePath (public_base_path cfg)) (callback_reason query)
                 else (case exchangeAuthorizationCode cfg client oidcVerify searchParams p of
                     Inr cookies \<Rightarrow>
                       (safeReturnTo (public_base_path cfg) (Some (os_return_to p)), Clear_oauth_state # cookies)
                   | Inl e \<Rightarrow>
                       soft_or (safeReturnTo (public_base_path cfg) (Some (os_return_to p))) ''login_failed''))"

text \<open>What \<open>/me\<close> answers behind the authentication: the kind of session and the caller.\<close>

definition auth_me ::
    "oidc_client option \<Rightarrow> (http_request \<Rightarrow> auth_error + request_context) \<Rightarrow> http_request
     \<Rightarrow> auth_error + (string \<times> string \<times> request_subject \<times> string list)" where
  "auth_me oidcClient authenticate =
     createAuthMiddleware authenticate (\<lambda>ctx.
       Inr (if oidcClient \<noteq> None then ''oidc-connected'' else ''default'',
            rc_tenant_id ctx, rc_subject ctx, rc_roles ctx))"

end
