(* ===== verification/Login_Flow_Props.thy ===== *)
theory Login_Flow_Props
  imports Login_Flow Access_Control_Props
begin

text \<open>
  Properties of the browser login: it never leaves the origin except for the provider, whatever the query and the
  cookies hold, and a session cookie is only set for a caller whom the provider confirmed and the allowlist admits.
\<close>

section \<open>Encoded texts\<close>

lemma hex_digit_clean: "n < 16 \<Longrightarrow> \<not> unsafe_return_char (hex_digit n)"
proof
  assume n: "n < 16" and "unsafe_return_char (hex_digit n)"
  then have "(of_char (hex_digit n) :: nat) \<in> {92, 9, 13, 10}" by (auto simp: unsafe_return_char_def)
  moreover have "(of_char (hex_digit n) :: nat) = (if n < 10 then n + 48 else n + 55)"
    using n by (simp add: hex_digit_def)
  ultimately show False using n by (auto split: if_splits)
qed

lemma utf8_char_small: "b \<in> set (utf8_char c) \<Longrightarrow> b < 256"
proof -
  assume "b \<in> set (utf8_char c)"
  moreover have "(of_char c :: nat) < 256" by simp
  then have "(of_char c :: nat) div 64 < 64" by linarith
  ultimately show ?thesis by (auto simp: utf8_char_def Let_def split: if_splits)
qed

lemma percent_byte_clean: "b < 256 \<Longrightarrow> \<not> list_ex unsafe_return_char (percent_byte b)"
proof -
  assume "b < 256"
  then have "b div 16 < 16" "b mod 16 < 16" by auto
  then show ?thesis using hex_digit_clean by (simp add: percent_byte_def) (simp add: unsafe_return_char_def)
qed

lemma percent_encode_clean:
  assumes "\<And>c. keep c \<Longrightarrow> \<not> unsafe_return_char c"
  shows "\<not> list_ex unsafe_return_char (percent_encode keep s)"
proof -
  have "\<not> list_ex unsafe_return_char (concat (map percent_byte (utf8_char c)))" for c
    using utf8_char_small[of _ c] percent_byte_clean by (auto simp: list_ex_iff)
  then show ?thesis using assms by (induction s) (auto simp: percent_encode_def)
qed

lemma alphanumeric_clean: "alphanumeric c \<Longrightarrow> \<not> unsafe_return_char c"
  by (auto simp: alphanumeric_def unsafe_return_char_def Let_def)

lemma encodeURIComponent_clean: "\<not> list_ex unsafe_return_char (encodeURIComponent s)"
  unfolding encodeURIComponent_def
  by (rule percent_encode_clean) (auto simp: alphanumeric_clean, auto simp: unsafe_return_char_def)

lemma form_encode_clean: "\<not> list_ex unsafe_return_char (form_encode s)"
proof -
  have "\<not> list_ex unsafe_return_char (percent_encode (\<lambda>c. alphanumeric c \<or> c \<in> set ''*-._'') [c])" for c
    by (rule percent_encode_clean) (auto simp: alphanumeric_clean, auto simp: unsafe_return_char_def)
  then show ?thesis by (induction s) (auto simp: form_encode_def unsafe_return_char_def)
qed

lemma oauthErrorRedirect_same_origin:
  assumes "public_path_ok (public_base_path cfg)"
  shows "same_origin (oauthErrorRedirect cfg reason)"
proof -
  obtain r where r: "getPublicUiBasePath (public_base_path cfg) = CHR ''/'' # r" "take 1 r \<noteq> ''/''"
    using base_path_clean(3)[OF assms] by blast
  have "\<not> list_ex unsafe_return_char (oauthErrorRedirect cfg reason)"
    using base_path_clean(1)[OF assms] encodeURIComponent_clean
    by (simp add: oauthErrorRedirect_def) (simp add: unsafe_return_char_def)
  then show ?thesis using r(2) by (cases r) (auto simp: same_origin_clean oauthErrorRedirect_def r(1))
qed

lemma resolveTrueFoundryLoginReturnTo_same_origin: "same_origin (resolveTrueFoundryLoginReturnTo cfg returnTo)"
proof -
  have "\<not> list_ex unsafe_return_char (resolveTrueFoundryLoginReturnTo cfg returnTo)"
    using form_encode_clean by (simp add: resolveTrueFoundryLoginReturnTo_def Let_def) (simp add: unsafe_return_char_def)
  then show ?thesis by (simp add: same_origin_clean resolveTrueFoundryLoginReturnTo_def)
qed

section \<open>Redirects\<close>

text \<open>The URL that the provider's client library answers for a login.\<close>

definition provider_url :: "server_config \<Rightarrow> oidc_client option \<Rightarrow> oidc_verify option \<Rightarrow> string \<Rightarrow> bool" where
  "provider_url cfg oidcClient oidcVerify url \<longleftrightarrow>
     (\<exists>client req. oidcClient = Some client \<and> cl_authorization_url client req = Inr url \<and>
        az_state req = cl_state client \<and> az_code_verifier req = cl_code_verifier client \<and>
        Inr (az_redirect_uri req) = authCallbackUrl cfg)"

lemma soft_same_origin:
  assumes "public_path_ok (public_base_path cfg)" and "same_origin w"
    and "redirectIfAlreadyAuthenticated jwtVerify oidcVerify c w = (loc, cookies)"
  shows "same_origin (case loc of Some l \<Rightarrow> l | None \<Rightarrow> oauthErrorRedirect cfg reason)"
  using assms by (auto simp: redirectIfAlreadyAuthenticated_def oauthErrorRedirect_same_origin
      split: sum.splits option.splits)

text \<open>
  C33. Login and callback redirect to the provider's own authorization URL or to a path of the same origin, for every
  query, cookie and answer of the provider: a \<open>return_to\<close> cannot lead to another site,
  also not by backslashes, tabs or line breaks. The path of the public URL is one that the configuration accepts.
\<close>

theorem login_redirects_stay:
  assumes "public_path_ok (public_base_path cfg)"
  shows "(let url = fst (auth_login cfg oidcClient oidcVerify returnTo)
          in same_origin url \<or> provider_url cfg oidcClient oidcVerify url) \<and>
         same_origin (fst (auth_callback cfg oidcClient oidcVerify jwtVerify json_parse searchParams c query))"
proof
  show "let url = fst (auth_login cfg oidcClient oidcVerify returnTo)
          in same_origin url \<or> provider_url cfg oidcClient oidcVerify url"
  proof (cases oidcClient)
    case None
    then show ?thesis
      by (simp add: auth_login_def Let_def resolveTrueFoundryLoginReturnTo_same_origin base_path_clean(2)[OF assms])
  next
    case (Some client)
    show ?thesis
    proof (cases "buildLoginAuthorization cfg client oidcVerify returnTo")
      case (Inl e)
      then show ?thesis
        by (simp add: auth_login_def Some oauthErrorRedirect_same_origin[OF assms])
    next
      case (Inr reply)
      then obtain uri scopes claims where
        "authCallbackUrl cfg = Inr uri"
        "cl_authorization_url client
           \<lparr>az_redirect_uri = uri, az_scope = join_spaces scopes, az_claims = claims,
            az_code_verifier = cl_code_verifier client, az_state = cl_state client\<rparr> = Inr (fst reply)"
        by (auto simp: buildLoginAuthorization_def Let_def bindE_Inr_iff split: option.splits prod.splits)
      then have "provider_url cfg oidcClient oidcVerify (fst reply)"
        unfolding provider_url_def Some by fastforce
      then show ?thesis by (simp add: auth_login_def Some Inr)
    qed
  qed
  show "same_origin (fst (auth_callback cfg oidcClient oidcVerify jwtVerify json_parse searchParams c query))"
    using soft_same_origin[OF assms] safeReturnTo_same_origin[OF assms] base_path_clean(2)[OF assms]
    by (fastforce simp: auth_callback_def Let_def split: option.split sum.split prod.split)
qed

definition demo_client :: oidc_client where
  "demo_client = \<lparr>cl_authorization_url = (\<lambda>r. Inr ''https://idp/authorize''),
     cl_code_grant = (\<lambda>q v s. Inr \<lparr>tk_id_token = Some ''adm'', tk_claims = Some (demo_claims ''staff'')\<rparr>),
     cl_code_verifier = ''v'', cl_state = ''st''\<rparr>"

definition demo_callback :: auth_reply where
  "demo_callback = auth_callback demo_server (Some demo_client) (Some demo_verify) demo_jwt
     (\<lambda>raw. Some (JObj [(''state'', JStr raw), (''code_verifier'', JStr ''v''), (''return_to'', JStr ''//evil.example'')])) []
     \<lparr>hr_authorization = None, hr_cookies = [(''oauth_state'', ''st'')], hr_path = ''/x''\<rparr>
     \<lparr>cq_code = Some ''c'', cq_state = ''st'', cq_error = None, cq_error_description = None\<rparr>"

theorem login_redirects_stay_witness:
  "same_origin (fst demo_callback) \<and> fst demo_callback = ''/app/'' \<and>
   snd demo_callback = [Clear_oauth_state, Set_id_token ''adm'' ID_TOKEN_COOKIE_MAX_AGE_SECONDS]"
proof -
  have "parsePublicBaseUrl_path ''/app'' = Some ''/app''" "\<not> list_ex unsafe_return_char ''/app''" by code_simp+
  then have "public_path_ok (public_base_path demo_server)" by (auto simp: public_path_ok_def demo_server_def)
  then have stays: "same_origin (fst demo_callback)" unfolding demo_callback_def using login_redirects_stay by blast
  have home: "safeReturnTo (Some ''/app'') (Some ''//evil.example'') = ''/app/''" by code_simp
  have callback: "demo_callback = (safeReturnTo (Some ''/app'') (Some ''//evil.example''),
      [Clear_oauth_state, Set_id_token ''adm'' ID_TOKEN_COOKIE_MAX_AGE_SECONDS])"
  proof -
    have "assertEmailAllowed (demo_claims ''staff'') demo_oidc = Inr ()" by code_simp
    then show ?thesis
      by (simp add: demo_callback_def auth_callback_def readOAuthStateCookie_def js_get_def truthy_def demo_client_def
          exchangeAuthorizationCode_def authCallbackUrl_def getPublicBaseUrl_def demo_server_def demo_verify_def token_claims_def)
  qed
  show ?thesis using stays unfolding callback home by simp
qed

section \<open>Session cookies\<close>

definition session_cookies :: "cookie_write list \<Rightarrow> string list" where
  "session_cookies ws = concat (map (\<lambda>w. case w of Set_id_token t age \<Rightarrow> [t] | _ \<Rightarrow> []) ws)"

lemma exchange_success:
  "exchangeAuthorizationCode cfg client oidcVerify params p = Inr cookies \<longleftrightarrow>
     public_base_url cfg \<noteq> [] \<and>
     (\<exists>ov tokens t. oidcVerify = Some ov \<and>
        cl_code_grant client params (os_code_verifier p) (os_state p) = Inr tokens \<and>
        tk_id_token tokens = Some t \<and> t \<noteq> [] \<and>
        admitted_email (token_claims tokens) (ov_config ov) \<and>
        cookies = [Set_id_token t ID_TOKEN_COOKIE_MAX_AGE_SECONDS])"
  by (auto simp: exchangeAuthorizationCode_def authCallbackUrl_def getPublicBaseUrl_def bindE_Inr_iff
      assertEmailAllowed_spec split: option.splits if_splits)

lemma soft_cookies: "session_cookies (snd (redirectIfAlreadyAuthenticated jwtVerify oidcVerify c w)) = []"
  by (auto simp: redirectIfAlreadyAuthenticated_def session_cookies_def split: sum.split option.split)

text \<open>
  The callback sets a session cookie exactly if the request carries the state of the pending login, the provider
  exchanged the code for an ID token with the verifier of that login, and the allowlist admits the email of its claims.
\<close>

theorem session_cookie_iff:
  "t \<in> set (session_cookies (snd (auth_callback cfg (Some client) oidcVerify jwtVerify json_parse searchParams c query)))
     \<longleftrightarrow>
   (\<exists>p ov tokens. readOAuthStateCookie json_parse c = Some p \<and> os_state p = cq_state query \<and>
      \<not> truthy (cq_error query) \<and> truthy (cq_code query) \<and> public_base_url cfg \<noteq> [] \<and> oidcVerify = Some ov \<and>
      cl_code_grant client searchParams (os_code_verifier p) (os_state p) = Inr tokens \<and>
      tk_id_token tokens = Some t \<and> t \<noteq> [] \<and>
      admitted_email (token_claims tokens) (ov_config ov))"
    (is "?l \<longleftrightarrow> ?r")
proof -
  have soft: "session_cookies (snd (case redirectIfAlreadyAuthenticated jwtVerify oidcVerify c w of
        (Some location, cookies) \<Rightarrow> (location, Clear_oauth_state # cookies)
      | (None, cookies) \<Rightarrow> (oauthErrorRedirect cfg reason, Clear_oauth_state # cookies))) = []" for w reason
    using soft_cookies[of jwtVerify oidcVerify c w]
    by (auto simp: session_cookies_def split: prod.split option.split)
  show ?thesis
  proof (cases "readOAuthStateCookie json_parse c")
    case None
    then show ?thesis by (simp add: auth_callback_def soft)
  next
    case (Some p)
    show ?thesis
    proof (cases "os_state p \<noteq> cq_state query \<or> truthy (cq_error query) \<or> \<not> truthy (cq_code query)")
      case True
      with Some show ?thesis by (auto simp: auth_callback_def soft)
    next
      case False
      show ?thesis
      proof (cases "exchangeAuthorizationCode cfg client oidcVerify searchParams p")
        case (Inl e)
        then have "\<not> ?l" using Some False by (simp add: auth_callback_def soft)
        moreover have "\<not> ?r"
        proof
          assume ?r
          then have "exchangeAuthorizationCode cfg client oidcVerify searchParams p =
              Inr [Set_id_token t ID_TOKEN_COOKIE_MAX_AGE_SECONDS]"
            using Some by (auto simp: exchange_success)
          with Inl show False by simp
        qed
        ultimately show ?thesis by blast
      next
        case (Inr cookies)
        then have x: "auth_callback cfg (Some client) oidcVerify jwtVerify json_parse searchParams c query =
            (safeReturnTo (public_base_path cfg) (Some (os_return_to p)), Clear_oauth_state # cookies)"
          using Some False by (simp add: auth_callback_def)
        show ?thesis unfolding x using Inr[unfolded exchange_success] Some False
          by (auto simp: session_cookies_def)
      qed
    qed
  qed
qed

end
