(* ===== verification/Event_Log.thy ===== *)
theory Event_Log
  imports JS_Prelude
begin

text \<open>
  \<open>runtime/event-subscription/inMemory.ts\<close>: the event streams that subscribers of a turn resume from, in one process.

  A stream is an object that the map of live streams, its expiry timer and a poller in the middle of a pass may refer
  to, so the store keeps the objects by address. An operation returns the new store and the ids whose listeners it
  wakes (\<open>changes.emit\<close>). Between two awaits or yields nothing else runs, so that a pass of the generator \<open>poll\<close> up to
  its next park, yield or end is one step. Events are values here: the deep copies of the code have no other effect.
\<close>

section \<open>Streams\<close>

record 'e sequenced_event =
  sq_event :: 'e
  sq_number :: nat

text \<open>The timer is the time it is due; its callback holds the id of the stream, which never changes.\<close>

record 'e event_stream =
  es_id :: string
  es_events :: "'e sequenced_event list"
  es_expires_at :: "int option"
  es_timer :: "int option"

record 'e stream_store =
  st_objects :: "'e event_stream list"
  st_live :: "(string, nat) js_map"

definition no_streams :: "'e stream_store" where
  "no_streams = \<lparr>st_objects = [], st_live = []\<rparr>"

definition update_object :: "nat \<Rightarrow> ('e event_stream \<Rightarrow> 'e event_stream) \<Rightarrow> 'e stream_store \<Rightarrow> 'e stream_store" where
  "update_object a f st = st\<lparr>st_objects := (st_objects st)[a := f (st_objects st ! a)]\<rparr>"

definition dropStream :: "string \<Rightarrow> nat \<Rightarrow> 'e stream_store \<Rightarrow> 'e stream_store \<times> string list" where
  "dropStream sid a st =
     (let st1 = update_object a (\<lambda>s. s\<lparr>es_timer := None\<rparr>) st in
      if js_get (st_live st1) sid \<noteq> Some a then (st1, [])
      else (st1\<lparr>st_live := js_delete sid (st_live st1)\<rparr>, [sid]))"

definition getLiveStream :: "string \<Rightarrow> int \<Rightarrow> 'e stream_store \<Rightarrow> 'e stream_store \<times> string list \<times> nat option" where
  "getLiveStream sid now st =
     (case js_get (st_live st) sid of
        None \<Rightarrow> (st, [], None)
      | Some a \<Rightarrow>
          (case es_expires_at (st_objects st ! a) of
             Some d \<Rightarrow>
               if d \<le> now then (let (st1, woken) = dropStream sid a st in (st1, woken, None))
               else (st, [], Some a)
           | None \<Rightarrow> (st, [], Some a)))"

text \<open>\<open>scheduleExpiry\<close> replaces the timer by one that is due when the stream expires.\<close>

definition scheduleExpiry :: "'e event_stream \<Rightarrow> 'e event_stream" where
  "scheduleExpiry s =
     (case es_expires_at s of None \<Rightarrow> s\<lparr>es_timer := None\<rparr> | Some d \<Rightarrow> s\<lparr>es_timer := Some d\<rparr>)"

definition push_event :: "'e \<Rightarrow> int option \<Rightarrow> int \<Rightarrow> 'e event_stream \<Rightarrow> 'e event_stream" where
  "push_event e ttl now s =
     (let s1 = s\<lparr>es_events := es_events s @ [\<lparr>sq_event = e, sq_number = length (es_events s) + 1\<rparr>]\<rparr> in
      case ttl of
        None \<Rightarrow> s1
      | Some t \<Rightarrow> if t > 0 then scheduleExpiry (s1\<lparr>es_expires_at := Some (now + t * 1000)\<rparr>) else s1)"

definition put_event ::
    "string \<Rightarrow> 'e \<Rightarrow> int option \<Rightarrow> int \<Rightarrow> 'e stream_store \<Rightarrow> 'e stream_store \<times> string list \<times> nat" where
  "put_event sid e ttl now st =
     (let (st1, woken, live) = getLiveStream sid now st;
          (st2, a) = (case live of
             Some a \<Rightarrow> (st1, a)
           | None \<Rightarrow> (st1\<lparr>st_objects := st_objects st1 @
                         [\<lparr>es_id = sid, es_events = [], es_expires_at = None, es_timer = None\<rparr>]\<rparr>,
                      length (st_objects st1)));
          st3 = update_object a (push_event e ttl now) (st2\<lparr>st_live := js_set sid a (st_live st2)\<rparr>)
      in (st3, woken @ [sid], length (es_events (st_objects st2 ! a)) + 1))"

text \<open>The callback of a timer that is due.\<close>

definition timer_fires :: "nat \<Rightarrow> 'e stream_store \<Rightarrow> 'e stream_store \<times> string list" where
  "timer_fires a st = dropStream (es_id (st_objects st ! a)) a st"

definition SUBSCRIBE_STREAM_THRESHOLD_MS :: int where "SUBSCRIBE_STREAM_THRESHOLD_MS = 60 * 1000"

text \<open>\<open>False\<close> is the error \<open>StreamGoneError\<close>.\<close>

definition assertSubscribable :: "string \<Rightarrow> int \<Rightarrow> 'e stream_store \<Rightarrow> 'e stream_store \<times> string list \<times> bool" where
  "assertSubscribable sid now st =
     (let (st1, woken, live) = getLiveStream sid now st in
      (st1, woken, case live of None \<Rightarrow> False
        | Some a \<Rightarrow> (case es_expires_at (st_objects st1 ! a) of
                      None \<Rightarrow> True | Some d \<Rightarrow> \<not> d - now < SUBSCRIBE_STREAM_THRESHOLD_MS)))"

section \<open>Pollers\<close>

datatype poll_end = Poll_returned | Poll_gone | Poll_corrupt

text \<open>
  Where a poller stands: at the top of its loop, parked on the next change, in the inner loop over the first events of
  an object, or at its end.
\<close>

datatype poll_state = At_top | Parked | Yielding nat nat | Ended poll_end

record 'e poller =
  po_stream :: string
  po_after :: nat
  po_cursor :: nat
  po_state :: poll_state
  po_aborted :: bool
  po_got :: "'e sequenced_event list"

definition poll :: "string \<Rightarrow> nat option \<Rightarrow> 'e poller" where
  "poll sid afterSequenceNumber =
     (let cursor = (case afterSequenceNumber of None \<Rightarrow> 0 | Some n \<Rightarrow> if n = 0 then 0 else n) in
      \<lparr>po_stream = sid, po_after = cursor, po_cursor = cursor, po_state = At_top, po_aborted = False, po_got = []\<rparr>)"

definition poll_yield :: "nat \<Rightarrow> nat \<Rightarrow> 'e stream_store \<Rightarrow> 'e poller \<Rightarrow> 'e poller" where
  "poll_yield a end_index st p =
     (let events = es_events (st_objects st ! a) in
      if po_cursor p < length events
      then p\<lparr>po_got := po_got p @ [events ! po_cursor p], po_cursor := po_cursor p + 1,
             po_state := Yielding a end_index\<rparr>
      else p\<lparr>po_state := Ended Poll_corrupt\<rparr>)"

text \<open>From the top of the outer loop to the next park, yield or end.\<close>

definition poll_pass :: "int \<Rightarrow> 'e stream_store \<Rightarrow> 'e poller \<Rightarrow> 'e stream_store \<times> string list \<times> 'e poller" where
  "poll_pass now st p =
     (if po_aborted p then (st, [], p\<lparr>po_state := Ended Poll_returned\<rparr>)
      else let (st1, woken, live) = getLiveStream (po_stream p) now st in
        case live of
          None \<Rightarrow> (st1, woken, p\<lparr>po_state := Ended Poll_gone\<rparr>)
        | Some a \<Rightarrow>
            let end_index = length (es_events (st_objects st1 ! a)) in
            if po_cursor p \<ge> end_index then (st1, woken, p\<lparr>po_state := Parked\<rparr>)
            else (st1, woken, poll_yield a end_index st1 p))"

text \<open>The consumer asks for the next event, or a woken poller goes on.\<close>

definition poll_next :: "int \<Rightarrow> 'e stream_store \<Rightarrow> 'e poller \<Rightarrow> 'e stream_store \<times> string list \<times> 'e poller" where
  "poll_next now st p =
     (case po_state p of
        At_top \<Rightarrow> poll_pass now st p
      | Yielding a end_index \<Rightarrow>
          if po_cursor p < end_index then (st, [], poll_yield a end_index st p) else poll_pass now st p
      | Parked \<Rightarrow> (st, [], p)
      | Ended r \<Rightarrow> (st, [], p))"

definition wake :: "string list \<Rightarrow> 'e poller \<Rightarrow> 'e poller" where
  "wake woken p = (if po_state p = Parked \<and> po_stream p \<in> set woken then p\<lparr>po_state := At_top\<rparr> else p)"

text \<open>An abort rejects the wait of a parked poller, which then returns.\<close>

definition poll_abort :: "'e poller \<Rightarrow> 'e poller" where
  "poll_abort p = (if po_state p = Parked then p\<lparr>po_aborted := True, po_state := Ended Poll_returned\<rparr>
                   else p\<lparr>po_aborted := True\<rparr>)"

section \<open>The process\<close>

record 'e stream_system =
  sy_store :: "'e stream_store"
  sy_pollers :: "'e poller list"
  sy_now :: int

definition start_system :: "int \<Rightarrow> 'e stream_system" where
  "start_system now = \<lparr>sy_store = no_streams, sy_pollers = [], sy_now = now\<rparr>"

definition sys_append :: "string \<Rightarrow> 'e \<Rightarrow> int option \<Rightarrow> 'e stream_system \<Rightarrow> 'e stream_system" where
  "sys_append sid e ttl s =
     (let (st, woken, n) = put_event sid e ttl (sy_now s) (sy_store s) in
      s\<lparr>sy_store := st, sy_pollers := map (wake woken) (sy_pollers s)\<rparr>)"

definition sys_timer :: "nat \<Rightarrow> 'e stream_system \<Rightarrow> 'e stream_system" where
  "sys_timer a s =
     (let (st, woken) = timer_fires a (sy_store s) in
      s\<lparr>sy_store := st, sy_pollers := map (wake woken) (sy_pollers s)\<rparr>)"

definition sys_subscribe :: "string \<Rightarrow> nat option \<Rightarrow> 'e stream_system \<Rightarrow> 'e stream_system" where
  "sys_subscribe sid afterSequenceNumber s =
     (let (st, woken, ok) = assertSubscribable sid (sy_now s) (sy_store s) in
      s\<lparr>sy_store := st,
        sy_pollers := map (wake woken) (sy_pollers s) @ (if ok then [poll sid afterSequenceNumber] else [])\<rparr>)"

definition sys_next :: "nat \<Rightarrow> 'e stream_system \<Rightarrow> 'e stream_system" where
  "sys_next i s =
     (let (st, woken, p) = poll_next (sy_now s) (sy_store s) (sy_pollers s ! i) in
      s\<lparr>sy_store := st, sy_pollers := map (wake woken) ((sy_pollers s)[i := p])\<rparr>)"

definition sys_abort :: "nat \<Rightarrow> 'e stream_system \<Rightarrow> 'e stream_system" where
  "sys_abort i s = s\<lparr>sy_pollers := (sy_pollers s)[i := poll_abort (sy_pollers s ! i)]\<rparr>"

text \<open>
  Producers, the clock, timers that are due, subscriptions, consumers and aborts, in any order. A pass that finds its
  stream expired wakes the parked pollers of that stream before it ends.
\<close>

inductive sys_step :: "'e stream_system \<Rightarrow> 'e stream_system \<Rightarrow> bool" where
  step_append: "sys_step s (sys_append sid e ttl s)"
| step_clock: "0 \<le> d \<Longrightarrow> sys_step s (s\<lparr>sy_now := sy_now s + d\<rparr>)"
| step_timer: "a < length (st_objects (sy_store s)) \<Longrightarrow> es_timer (st_objects (sy_store s) ! a) = Some due \<Longrightarrow>
    due \<le> sy_now s \<Longrightarrow> sys_step s (sys_timer a s)"
| step_subscribe: "sys_step s (sys_subscribe sid after s)"
| step_next: "i < length (sy_pollers s) \<Longrightarrow> sys_step s (sys_next i s)"
| step_abort: "i < length (sy_pollers s) \<Longrightarrow> sys_step s (sys_abort i s)"

definition sys_reachable :: "'e stream_system \<Rightarrow> bool" where
  "sys_reachable s = (\<exists>now. sys_step\<^sup>*\<^sup>* (start_system now) s)"

end
