(* ===== verification/Event_Log_Props.thy ===== *)
theory Event_Log_Props
  imports Event_Log
begin

text \<open>
  Properties of the event streams, for every interleaving of producers, timers and subscribers: the logs are dense,
  a subscriber gets the events after its cursor in order and without a gap, and no parked subscriber misses a change.

  \<open>store_wf\<close> and \<open>poller_wf\<close> are the invariants; \<open>grows\<close> says that objects and logs only grow, and \<open>announced\<close> that a
  stream whose listeners are not woken looks the same as before.
\<close>

section \<open>Invariants\<close>

abbreviation stream_log :: "'e stream_store \<Rightarrow> nat \<Rightarrow> 'e sequenced_event list" where
  "stream_log st a \<equiv> es_events (st_objects st ! a)"

definition dense :: "'e sequenced_event list \<Rightarrow> bool" where
  "dense es = (map sq_number es = map Suc [0..<length es])"

definition store_wf :: "'e stream_store \<Rightarrow> bool" where
  "store_wf st \<longleftrightarrow>
     (\<forall>a < length (st_objects st). dense (stream_log st a)) \<and>
     (\<forall>sid a. js_get (st_live st) sid = Some a \<longrightarrow>
        a < length (st_objects st) \<and> es_id (st_objects st ! a) = sid \<and>
        (\<forall>d. es_expires_at (st_objects st ! a) = Some d \<longrightarrow> es_timer (st_objects st ! a) = Some d))"

definition grows :: "'e stream_store \<Rightarrow> 'e stream_store \<Rightarrow> bool" where
  "grows st st' \<longleftrightarrow> length (st_objects st) \<le> length (st_objects st') \<and>
     (\<forall>a < length (st_objects st). es_id (st_objects st' ! a) = es_id (st_objects st ! a) \<and>
        (\<exists>more. stream_log st' a = stream_log st a @ more))"

definition announced :: "string list \<Rightarrow> 'e stream_store \<Rightarrow> 'e stream_store \<Rightarrow> bool" where
  "announced woken st st' \<longleftrightarrow>
     (\<forall>sid. sid \<notin> set woken \<longrightarrow> js_get (st_live st') sid = js_get (st_live st) sid \<and>
        (\<forall>a. js_get (st_live st) sid = Some a \<longrightarrow> stream_log st' a = stream_log st a))"

definition poller_wf :: "'e stream_store \<Rightarrow> 'e poller \<Rightarrow> bool" where
  "poller_wf st p \<longleftrightarrow> po_after p \<le> po_cursor p \<and> map sq_number (po_got p) = map Suc [po_after p..<po_cursor p] \<and>
     (\<forall>e \<in> set (po_got p). \<exists>a < length (st_objects st).
        es_id (st_objects st ! a) = po_stream p \<and> e \<in> set (stream_log st a)) \<and>
     (case po_state p of
        Yielding a n \<Rightarrow> a < length (st_objects st) \<and> es_id (st_objects st ! a) = po_stream p \<and>
          po_cursor p \<le> n \<and> n \<le> length (stream_log st a)
      | Ended r \<Rightarrow> r \<noteq> Poll_corrupt
      | _ \<Rightarrow> True)"

definition parked_ok :: "'e stream_store \<Rightarrow> 'e poller \<Rightarrow> bool" where
  "parked_ok st p \<longleftrightarrow> (po_state p = Parked \<longrightarrow>
     (\<exists>a. js_get (st_live st) (po_stream p) = Some a \<and> length (stream_log st a) \<le> po_cursor p))"

lemma grows_refl [simp]: "grows st st"
  by (simp add: grows_def)

lemma grows_trans: "grows st1 st2 \<Longrightarrow> grows st2 st3 \<Longrightarrow> grows st1 st3"
  unfolding grows_def by (metis append_assoc order_less_le_trans order_trans)

lemma announced_refl [simp]: "announced woken st st"
  by (simp add: announced_def)

lemma poller_wf_grows:
  assumes "poller_wf st p" and "grows st st'"
  shows "poller_wf st' p"
proof -
  have got: "\<exists>a < length (st_objects st'). es_id (st_objects st' ! a) = po_stream p \<and> e \<in> set (stream_log st' a)"
    if "e \<in> set (po_got p)" for e
  proof -
    from assms(1) have "\<forall>e \<in> set (po_got p). \<exists>a < length (st_objects st).
        es_id (st_objects st ! a) = po_stream p \<and> e \<in> set (stream_log st a)"
      by (simp add: poller_wf_def)
    with that obtain a where
      "a < length (st_objects st)" "es_id (st_objects st ! a) = po_stream p" "e \<in> set (stream_log st a)" by blast
    moreover then obtain more where "stream_log st' a = stream_log st a @ more"
      using assms(2) by (auto simp: grows_def)
    ultimately show ?thesis using assms(2) by (intro exI[of _ a]) (auto simp: grows_def)
  qed
  have state: "case po_state p of
        Yielding a n \<Rightarrow> a < length (st_objects st') \<and> es_id (st_objects st' ! a) = po_stream p \<and>
          po_cursor p \<le> n \<and> n \<le> length (stream_log st' a)
      | Ended r \<Rightarrow> r \<noteq> Poll_corrupt | _ \<Rightarrow> True"
  proof (cases "po_state p")
    case (Yielding a n)
    moreover then have "a < length (st_objects st)" "n \<le> length (stream_log st a)"
      using assms(1) by (simp_all add: poller_wf_def)
    moreover then obtain more where "stream_log st' a = stream_log st a @ more"
      using assms(2) by (auto simp: grows_def)
    ultimately show ?thesis using assms by (simp add: poller_wf_def grows_def)
  qed (use assms(1) in \<open>simp_all add: poller_wf_def\<close>)
  show ?thesis using assms(1) got state by (simp add: poller_wf_def)
qed

lemma wake_wf: "poller_wf st p \<Longrightarrow> poller_wf st (wake woken p)"
  by (simp add: poller_wf_def wake_def)

lemma wake_parked:
  assumes "parked_ok st p" and "announced woken st st'"
  shows "parked_ok st' (wake woken p)"
  using assms by (auto simp: parked_ok_def wake_def announced_def)

section \<open>Operations of the store\<close>

lemma live_inj: "store_wf st \<Longrightarrow> js_get (st_live st) i = Some a \<Longrightarrow> js_get (st_live st) j = Some a \<Longrightarrow> i = j"
  unfolding store_wf_def by blast

lemma dense_push: "dense es \<Longrightarrow> dense (es @ [\<lparr>sq_event = e, sq_number = Suc (length es)\<rparr>])"
  by (simp add: dense_def)

lemma update_object_simps [simp]:
  "length (st_objects (update_object a f st)) = length (st_objects st)"
  "st_live (update_object a f st) = st_live st"
  "b < length (st_objects st) \<Longrightarrow>
     st_objects (update_object a f st) ! b = (if b = a then f (st_objects st ! b) else st_objects st ! b)"
  by (auto simp: update_object_def nth_list_update)

text \<open>An operation keeps the invariant, loses no event and wakes the listeners of every stream it changes.\<close>

definition op_ok :: "'e stream_store \<Rightarrow> 'e stream_store \<Rightarrow> string list \<Rightarrow> bool" where
  "op_ok st st' woken \<longleftrightarrow> store_wf st' \<and> grows st st' \<and> announced woken st st'"

lemma dropStream_ok:
  assumes "store_wf st" and "a < length (st_objects st)" and "dropStream sid a st = (st', woken)"
    and due: "js_get (st_live st) sid = Some a \<or> (\<forall>i. js_get (st_live st) i \<noteq> Some a)"
  shows "op_ok st st' woken" "js_get (st_live st') sid \<noteq> Some a" "length (st_objects st') = length (st_objects st)"
proof -
  have st': "st_objects st' = st_objects (update_object a (\<lambda>s. s\<lparr>es_timer := None\<rparr>) st)"
    "st_live st' = (if js_get (st_live st) sid = Some a then js_delete sid (st_live st) else st_live st)"
    "woken = (if js_get (st_live st) sid = Some a then [sid] else [])"
    using assms(3) by (auto simp: dropStream_def Let_def split: if_splits)
  have obj: "b < length (st_objects st) \<Longrightarrow> st_objects st' ! b =
      (if b = a then (st_objects st ! b)\<lparr>es_timer := None\<rparr> else st_objects st ! b)" for b
    by (simp add: st')
  have len: "length (st_objects st') = length (st_objects st)" by (simp add: st')
  show "length (st_objects st') = length (st_objects st)" by (rule len)
  show "js_get (st_live st') sid \<noteq> Some a" by (simp add: st')
  have other: "js_get (st_live st') i = Some b \<Longrightarrow> b \<noteq> a \<and> js_get (st_live st) i = Some b" for i b
    using due live_inj[OF assms(1), of i a sid] by (auto simp: st' split: if_splits)
  have "store_wf st'"
    using assms(1) by (auto simp: store_wf_def len obj dest!: other)
  moreover have "grows st st'" by (simp add: grows_def len obj)
  moreover have "announced woken st st'"
    using assms(1) by (auto simp: announced_def st'(2,3) store_wf_def obj split: if_splits)
  ultimately show "op_ok st st' woken" by (simp add: op_ok_def)
qed

lemma getLiveStream_ok:
  assumes "store_wf st" and "getLiveStream sid now st = (st', woken, live)"
  shows "op_ok st st' woken" "js_get (st_live st') sid = live"
    "live = Some a \<Longrightarrow> st' = st \<and> woken = []"
    "live = None \<Longrightarrow> woken = [] \<longrightarrow> st' = st"
proof -
  have *: "op_ok st st' woken \<and> js_get (st_live st') sid = live \<and> (live = Some a \<longrightarrow> st' = st \<and> woken = []) \<and>
      (live = None \<longrightarrow> woken = [] \<longrightarrow> st' = st)"
  proof (cases "js_get (st_live st) sid")
    case None
    then show ?thesis using assms by (simp add: getLiveStream_def op_ok_def)
  next
    case (Some b)
    show ?thesis
    proof (cases "\<exists>d. es_expires_at (st_objects st ! b) = Some d \<and> d \<le> now")
      case False
      then show ?thesis using assms Some by (auto simp: getLiveStream_def op_ok_def split: option.splits if_splits)
    next
      case True
      then have d: "dropStream sid b st = (st', woken)" "live = None"
        using assms(2) Some by (auto simp: getLiveStream_def split: prod.splits option.splits if_splits)
      have "b < length (st_objects st)" using assms(1) Some by (simp add: store_wf_def)
      from dropStream_ok(1)[OF assms(1) this d(1)] Some have "op_ok st st' woken" by simp
      moreover have "js_get (st_live st') sid = None" "woken = [sid]"
        using d(1) Some by (auto simp: dropStream_def Let_def)
      ultimately show ?thesis using d(2) by simp
    qed
  qed
  then show "op_ok st st' woken" "js_get (st_live st') sid = live"
    "live = Some a \<Longrightarrow> st' = st \<and> woken = []" "live = None \<Longrightarrow> woken = [] \<longrightarrow> st' = st" by simp_all
qed

lemma push_event_simps [simp]:
  "es_id (push_event e ttl now s) = es_id s"
  "es_events (push_event e ttl now s) = es_events s @ [\<lparr>sq_event = e, sq_number = length (es_events s) + 1\<rparr>]"
  by (auto simp: push_event_def scheduleExpiry_def Let_def split: option.split)

lemma push_event_timer:
  "(\<And>d. es_expires_at s = Some d \<Longrightarrow> es_timer s = Some d) \<Longrightarrow>
   es_expires_at (push_event e ttl now s) = Some d \<Longrightarrow> es_timer (push_event e ttl now s) = Some d"
  by (auto simp: push_event_def scheduleExpiry_def Let_def split: option.splits if_splits)

text \<open>Putting an object under its id on a store in which it has room.\<close>

lemma push_ok:
  assumes wf: "store_wf st" and a: "a < length (st_objects st)" and id: "es_id (st_objects st ! a) = sid"
    and timer: "\<And>d. es_expires_at (st_objects st ! a) = Some d \<Longrightarrow> es_timer (st_objects st ! a) = Some d"
    and st': "st' = update_object a (push_event e ttl now) (st\<lparr>st_live := js_set sid a (st_live st)\<rparr>)"
  shows "op_ok st st' [sid]" "js_get (st_live st') sid = Some a"
proof -
  have obj: "b < length (st_objects st) \<Longrightarrow> st_objects st' ! b =
      (if b = a then push_event e ttl now (st_objects st ! b) else st_objects st ! b)" for b
    using update_object_simps(3)[of b "st\<lparr>st_live := js_set sid a (st_live st)\<rparr>" a "push_event e ttl now"]
    by (simp add: st')
  have len: "length (st_objects st') = length (st_objects st)" by (simp add: st')
  have live: "js_get (st_live st') i = (if i = sid then Some a else js_get (st_live st) i)" for i by (simp add: st')
  have "b \<noteq> a" if "js_get (st_live st) i = Some b" "i \<noteq> sid" for i b
    using wf that id by (auto simp: store_wf_def)
  then have "store_wf st'"
    using wf a id push_event_timer[OF timer] by (auto simp: store_wf_def len live obj dense_push)
  moreover have "grows st st'" by (auto simp: grows_def len obj)
  moreover have "announced [sid] st st'"
    using wf id by (auto simp: announced_def live store_wf_def obj)
  ultimately show "op_ok st st' [sid]" by (simp add: op_ok_def)
  show "js_get (st_live st') sid = Some a" by (simp add: live)
qed

lemma op_ok_trans:
  assumes "op_ok st1 st2 w1" and "op_ok st2 st3 w2"
  shows "op_ok st1 st3 (w1 @ w2)"
proof -
  have "announced (w1 @ w2) st1 st3" using assms by (auto simp: op_ok_def announced_def)
  then show ?thesis using assms grows_trans by (auto simp: op_ok_def)
qed

lemma new_object_ok:
  assumes "store_wf st"
    and "st' = st\<lparr>st_objects := st_objects st @ [\<lparr>es_id = sid, es_events = [], es_expires_at = None, es_timer = None\<rparr>]\<rparr>"
  shows "op_ok st st' []"
proof -
  have obj: "b < length (st_objects st) \<Longrightarrow> st_objects st' ! b = st_objects st ! b" for b
    by (simp add: assms(2) nth_append)
  have new: "st_objects st' ! length (st_objects st) =
      \<lparr>es_id = sid, es_events = [], es_expires_at = None, es_timer = None\<rparr>" by (simp add: assms(2))
  have len: "length (st_objects st') = Suc (length (st_objects st))" by (simp add: assms(2))
  have live: "st_live st' = st_live st" by (simp add: assms(2))
  have "store_wf st'"
    using assms(1) by (auto simp: store_wf_def len live obj new less_Suc_eq dense_def)
  moreover have "announced [] st st'" using assms(1) by (auto simp: announced_def live store_wf_def obj)
  moreover have "grows st st'" by (simp add: grows_def len obj)
  ultimately show ?thesis by (simp add: op_ok_def)
qed

lemma put_event_ok:
  assumes "store_wf st" and "put_event sid e ttl now st = (st', woken, n)"
  shows "op_ok st st' woken"
proof -
  obtain st1 w live where g: "getLiveStream sid now st = (st1, w, live)" by (cases "getLiveStream sid now st")
  note g_ok = getLiveStream_ok[OF assms(1) g]
  then have wf1: "store_wf st1" by (simp add: op_ok_def)
  show ?thesis
  proof (cases live)
    case (Some a)
    then have "st1 = st" "js_get (st_live st) sid = Some a" using g_ok(2) g_ok(3)[of a] by auto
    moreover then have "a < length (st_objects st)" "es_id (st_objects st ! a) = sid"
      "\<And>d. es_expires_at (st_objects st ! a) = Some d \<Longrightarrow> es_timer (st_objects st ! a) = Some d"
      using assms(1) by (auto simp: store_wf_def)
    ultimately have "op_ok st1 st' [sid]"
      using assms g Some push_ok(1)[where st = st1 and a = a and sid = sid and st' = st' and e = e and ttl = ttl and now = now] by (simp add: put_event_def)
    with op_ok_trans[OF g_ok(1) this] assms(2) g show ?thesis by (auto simp: put_event_def split: prod.splits)
  next
    case None
    define st2 where "st2 = st1\<lparr>st_objects := st_objects st1 @
        [\<lparr>es_id = sid, es_events = [], es_expires_at = None, es_timer = None\<rparr>]\<rparr>"
    have new: "op_ok st1 st2 []" by (rule new_object_ok[OF wf1 st2_def])
    then have wf2: "store_wf st2" by (simp add: op_ok_def)
    have "st' = update_object (length (st_objects st1)) (push_event e ttl now) (st2\<lparr>st_live := js_set sid (length (st_objects st1)) (st_live st2)\<rparr>)"
      "woken = w @ [sid]"
      using assms(2) g None by (auto simp: put_event_def st2_def)
    moreover from this(1) have "op_ok st2 st' [sid]"
      by (intro push_ok(1)[OF wf2]) (auto simp: st2_def)
    ultimately show ?thesis using op_ok_trans[OF op_ok_trans[OF g_ok(1) new]] by simp
  qed
qed

lemma timer_fires_ok:
  assumes "store_wf st" and "a < length (st_objects st)" and "timer_fires a st = (st', woken)"
  shows "op_ok st st' woken"
proof (rule dropStream_ok(1)[OF assms(1,2) assms(3)[unfolded timer_fires_def]])
  show "js_get (st_live st) (es_id (st_objects st ! a)) = Some a \<or> (\<forall>i. js_get (st_live st) i \<noteq> Some a)"
    using assms(1) by (auto simp: store_wf_def)
qed

lemma assertSubscribable_ok:
  assumes "store_wf st" and "assertSubscribable sid now st = (st', woken, ok)"
  shows "op_ok st st' woken"
  using getLiveStream_ok(1)[OF assms(1)] assms(2) by (auto simp: assertSubscribable_def split: prod.splits)

section \<open>Passes of a poller\<close>

lemma poll_yield_ok:
  assumes "store_wf st" and "poller_wf st p" and "a < length (st_objects st)" and "es_id (st_objects st ! a) = po_stream p"
    and "po_cursor p < n" and "n \<le> length (stream_log st a)"
  shows "poll_yield a n st p =
      p\<lparr>po_got := po_got p @ [stream_log st a ! po_cursor p], po_cursor := po_cursor p + 1, po_state := Yielding a n\<rparr>"
    "poller_wf st (poll_yield a n st p)"
proof -
  have in_range: "po_cursor p < length (stream_log st a)" using assms(5,6) by simp
  then show eq: "poll_yield a n st p =
      p\<lparr>po_got := po_got p @ [stream_log st a ! po_cursor p], po_cursor := po_cursor p + 1, po_state := Yielding a n\<rparr>"
    by (simp add: poll_yield_def Let_def)
  have "dense (stream_log st a)" using assms(1,3) by (simp add: store_wf_def)
  then have "map sq_number (stream_log st a) ! po_cursor p = map Suc [0..<length (stream_log st a)] ! po_cursor p"
    by (simp add: dense_def)
  then have number: "sq_number (stream_log st a ! po_cursor p) = Suc (po_cursor p)" using in_range by simp
  have "\<forall>e \<in> set (po_got p). \<exists>a < length (st_objects st). es_id (st_objects st ! a) = po_stream p \<and> e \<in> set (stream_log st a)"
    and "po_after p \<le> po_cursor p" and "map sq_number (po_got p) = map Suc [po_after p..<po_cursor p]"
    using assms(2) by (simp_all add: poller_wf_def)
  moreover have "stream_log st a ! po_cursor p \<in> set (stream_log st a)" using in_range by simp
  ultimately show "poller_wf st (poll_yield a n st p)"
    using assms(3-6) number unfolding eq by (auto simp: poller_wf_def)
qed

lemma poller_wf_state:
  "poller_wf st p \<Longrightarrow> r \<noteq> Poll_corrupt \<Longrightarrow> poller_wf st (p\<lparr>po_state := Ended r\<rparr>)"
  "poller_wf st p \<Longrightarrow> poller_wf st (p\<lparr>po_state := Parked\<rparr>)"
  by (simp_all add: poller_wf_def)

lemma poller_wf_aborted [simp]: "poller_wf st (p\<lparr>po_aborted := True\<rparr>) = poller_wf st p"
  by (cases "po_state p") (simp_all add: poller_wf_def)

lemma poll_abort_ok: "poller_wf st p \<and> parked_ok st p \<Longrightarrow> poller_wf st (poll_abort p) \<and> parked_ok st (poll_abort p)"
  using poller_wf_state(1)[of st "p\<lparr>po_aborted := True\<rparr>" Poll_returned]
  by (auto simp: poll_abort_def parked_ok_def)

lemma poll_pass_ok:
  assumes "store_wf st" and "poller_wf st p" and "poll_pass now st p = (st', woken, p')"
  shows "op_ok st st' woken \<and> poller_wf st' p' \<and> parked_ok st' p'"
proof (cases "po_aborted p")
  case True
  then show ?thesis using assms by (auto simp: poll_pass_def op_ok_def poller_wf_state parked_ok_def)
next
  case False
  obtain st1 w live where g: "getLiveStream (po_stream p) now st = (st1, w, live)"
    by (cases "getLiveStream (po_stream p) now st")
  note g_ok = getLiveStream_ok[OF assms(1) g]
  have wf1: "store_wf st1" and p1: "poller_wf st1 p"
    using g_ok(1) poller_wf_grows[OF assms(2)] by (simp_all add: op_ok_def)
  show ?thesis
  proof (cases live)
    case None
    then show ?thesis using assms(3) False g g_ok(1) p1
      by (auto simp: poll_pass_def poller_wf_state parked_ok_def)
  next
    case (Some a)
    then have a: "js_get (st_live st1) (po_stream p) = Some a" using g_ok(2) by simp
    then have obj: "a < length (st_objects st1)" "es_id (st_objects st1 ! a) = po_stream p"
      using wf1 by (auto simp: store_wf_def)
    show ?thesis
    proof (cases "po_cursor p \<ge> length (stream_log st1 a)")
      case True
      then show ?thesis using assms(3) False g Some g_ok(1) p1 a
        by (auto simp: poll_pass_def poller_wf_state parked_ok_def Let_def)
    next
      case behind: False
      note y = poll_yield_ok[OF wf1 p1 obj _ order_refl]
      have "p' = poll_yield a (length (stream_log st1 a)) st1 p" "st' = st1" "woken = w"
        using assms(3) False g Some behind by (auto simp: poll_pass_def Let_def)
      then show ?thesis using y behind g_ok(1) by (simp add: parked_ok_def)
    qed
  qed
qed

lemma poll_next_ok:
  assumes "store_wf st" and "poller_wf st p" and "parked_ok st p" and "poll_next now st p = (st', woken, p')"
  shows "op_ok st st' woken \<and> poller_wf st' p' \<and> parked_ok st' p'"
proof (cases "po_state p")
  case At_top
  then show ?thesis using poll_pass_ok[OF assms(1,2)] assms(4) by (simp add: poll_next_def)
next
  case (Yielding a n)
  then have y: "a < length (st_objects st)" "es_id (st_objects st ! a) = po_stream p" "n \<le> length (stream_log st a)"
    using assms(2) by (simp_all add: poller_wf_def)
  show ?thesis
  proof (cases "po_cursor p < n")
    case True
    note y = poll_yield_ok[OF assms(1,2) y(1,2) True y(3)]
    show ?thesis using assms(1,4) Yielding True y by (auto simp: poll_next_def op_ok_def parked_ok_def)
  next
    case False
    then show ?thesis using poll_pass_ok[OF assms(1,2)] assms(4) Yielding by (simp add: poll_next_def)
  qed
qed (use assms in \<open>auto simp: poll_next_def op_ok_def\<close>)

section \<open>The process\<close>

definition sys_wf :: "'e stream_system \<Rightarrow> bool" where
  "sys_wf s \<longleftrightarrow> store_wf (sy_store s) \<and>
     (\<forall>p \<in> set (sy_pollers s). poller_wf (sy_store s) p \<and> parked_ok (sy_store s) p)"

lemma sys_wf_op:
  assumes "op_ok st st' woken" and "\<forall>p \<in> set ps. poller_wf st p \<and> parked_ok st p"
  shows "\<forall>p \<in> set (map (wake woken) ps). poller_wf st' p \<and> parked_ok st' p"
  using assms poller_wf_grows wake_parked by (fastforce simp: op_ok_def intro: wake_wf)

lemma sys_step_wf:
  assumes "sys_step s s'" and "sys_wf s"
  shows "sys_wf s'"
  using assms
proof (cases rule: sys_step.cases)
  case (step_append sid e ttl)
  obtain st w n where a: "put_event sid e ttl (sy_now s) (sy_store s) = (st, w, n)"
    by (cases "put_event sid e ttl (sy_now s) (sy_store s)")
  have "op_ok (sy_store s) st w" using put_event_ok[OF _ a] assms(2) by (simp add: sys_wf_def)
  with sys_wf_op[OF this, of "sy_pollers s"] assms(2) step_append a show ?thesis
    by (simp add: sys_wf_def sys_append_def op_ok_def)
next
  case (step_clock d)
  then show ?thesis using assms(2) by (simp add: sys_wf_def)
next
  case (step_timer a due)
  obtain st w where t: "timer_fires a (sy_store s) = (st, w)" by (cases "timer_fires a (sy_store s)")
  have "op_ok (sy_store s) st w" using timer_fires_ok[OF _ step_timer(2) t] assms(2) by (simp add: sys_wf_def)
  with sys_wf_op[OF this, of "sy_pollers s"] assms(2) step_timer t show ?thesis
    by (simp add: sys_wf_def sys_timer_def op_ok_def)
next
  case (step_subscribe sid aft)
  obtain st w ok where t: "assertSubscribable sid (sy_now s) (sy_store s) = (st, w, ok)"
    by (cases "assertSubscribable sid (sy_now s) (sy_store s)")
  have "op_ok (sy_store s) st w" using assertSubscribable_ok[OF _ t] assms(2) by (simp add: sys_wf_def)
  moreover have "poller_wf st (poll sid aft)" "parked_ok st (poll sid aft)"
    by (simp_all add: poll_def poller_wf_def parked_ok_def Let_def)
  ultimately show ?thesis using sys_wf_op[of "sy_store s" st w "sy_pollers s"] assms(2) step_subscribe t
    by (auto simp: sys_wf_def sys_subscribe_def op_ok_def)
next
  case (step_next i)
  obtain st w p where t: "poll_next (sy_now s) (sy_store s) (sy_pollers s ! i) = (st, w, p)"
    by (cases "poll_next (sy_now s) (sy_store s) (sy_pollers s ! i)")
  have "sy_pollers s ! i \<in> set (sy_pollers s)" using step_next by simp
  with assms(2) have ok: "op_ok (sy_store s) st w" "poller_wf st p" "parked_ok st p"
    using poll_next_ok[OF _ _ _ t] by (auto simp: sys_wf_def)
  have "\<forall>q \<in> set (map (wake w) ((sy_pollers s)[i := p])). poller_wf st q \<and> parked_ok st q"
  proof
    fix q
    assume "q \<in> set (map (wake w) ((sy_pollers s)[i := p]))"
    then obtain r where q: "q = wake w r" "r \<in> set ((sy_pollers s)[i := p])" by auto
    from q(2) have "r = p \<or> r \<in> set (sy_pollers s)" by (meson insertE set_update_subset_insert subsetD)
    then show "poller_wf st q \<and> parked_ok st q"
    proof
      assume "r = p"
      then show ?thesis using ok q(1) wake_parked[of st p w st] by (simp add: wake_wf)
    next
      assume "r \<in> set (sy_pollers s)"
      then show ?thesis using sys_wf_op[OF ok(1), of "sy_pollers s"] assms(2) q(1) by (simp add: sys_wf_def)
    qed
  qed
  then show ?thesis using ok(1) step_next t by (simp add: sys_wf_def sys_next_def op_ok_def)
next
  case (step_abort i)
  have "poller_wf (sy_store s) (poll_abort p) \<and> parked_ok (sy_store s) (poll_abort p)"
    if "poller_wf (sy_store s) p \<and> parked_ok (sy_store s) p" for p
    using that by (rule poll_abort_ok)
  moreover have "sy_pollers s ! i \<in> set (sy_pollers s)" using step_abort by simp
  ultimately show ?thesis using assms(2) step_abort
    by (auto simp: sys_wf_def sys_abort_def dest!: set_update_subset_insert[THEN subsetD])
qed

lemma sys_reachable_start: "sys_reachable (start_system now)"
  by (auto simp: sys_reachable_def)

lemma sys_reachable_step: "sys_reachable s \<Longrightarrow> sys_step s s' \<Longrightarrow> sys_reachable s'"
  by (auto simp: sys_reachable_def intro: rtranclp.rtrancl_into_rtrancl)

lemma sys_reachable_wf: "sys_reachable s \<Longrightarrow> sys_wf s"
proof -
  assume "sys_reachable s"
  then obtain now where "sys_step\<^sup>*\<^sup>* (start_system now) s" by (auto simp: sys_reachable_def)
  moreover have "sys_wf (start_system now)"
    by (simp add: sys_wf_def start_system_def no_streams_def store_wf_def)
  ultimately show ?thesis by (induction rule: rtranclp_induct) (auto intro: sys_step_wf)
qed

section \<open>What a subscriber gets\<close>

text \<open>The only stream that ever had the id, which is the case for a turn that does not outlive its stream.\<close>

definition only_stream :: "string \<Rightarrow> nat \<Rightarrow> 'e stream_store \<Rightarrow> bool" where
  "only_stream sid a st \<longleftrightarrow>
     (\<forall>b < length (st_objects st). es_id (st_objects st ! b) = sid \<longleftrightarrow> b = a) \<and> a < length (st_objects st)"

lemma dense_nth: "dense es \<Longrightarrow> e \<in> set es \<Longrightarrow> \<exists>k < length es. e = es ! k \<and> sq_number e = Suc k"
proof -
  assume "dense es" "e \<in> set es"
  then obtain k where k: "k < length es" "e = es ! k" by (auto simp: in_set_conv_nth)
  from \<open>dense es\<close> have "map sq_number es ! k = map Suc [0..<length es] ! k" by (simp add: dense_def)
  with k show ?thesis by auto
qed

lemma poller_slice:
  assumes "store_wf st" and "poller_wf st p" and only: "only_stream (po_stream p) a st"
  shows "po_got p = take (po_cursor p - po_after p) (drop (po_after p) (stream_log st a))"
    "po_got p \<noteq> [] \<Longrightarrow> po_cursor p \<le> length (stream_log st a)"
proof -
  let ?es = "stream_log st a"
  have d: "dense ?es" using assms(1) only by (simp add: store_wf_def only_stream_def)
  have numbers: "map sq_number (po_got p) = map Suc [po_after p..<po_cursor p]" and le: "po_after p \<le> po_cursor p"
    using assms(2) by (simp_all add: poller_wf_def)
  have len: "length (po_got p) = po_cursor p - po_after p" using arg_cong[OF numbers, of length] by simp
  have "\<forall>e \<in> set (po_got p). \<exists>b < length (st_objects st).
      es_id (st_objects st ! b) = po_stream p \<and> e \<in> set (stream_log st b)"
    using assms(2) by (simp add: poller_wf_def)
  then have mem: "e \<in> set ?es" if "e \<in> set (po_got p)" for e using only that by (auto simp: only_stream_def)
  have nth: "po_after p + k < length ?es \<and> po_got p ! k = ?es ! (po_after p + k)" if k: "k < length (po_got p)" for k
  proof -
    obtain j where j: "j < length ?es" "po_got p ! k = ?es ! j" "sq_number (po_got p ! k) = Suc j"
      using dense_nth[OF d mem[OF nth_mem[OF k]]] by blast
    have "map sq_number (po_got p) ! k = map Suc [po_after p..<po_cursor p] ! k" by (simp only: numbers)
    then have "sq_number (po_got p ! k) = Suc (po_after p + k)" using k len by simp
    with j show ?thesis by simp
  qed
  show bound: "po_cursor p \<le> length ?es" if "po_got p \<noteq> []"
  proof -
    have "length (po_got p) - 1 < length (po_got p)" using that by simp
    from nth[OF this] this len le show ?thesis by linarith
  qed
  show "po_got p = take (po_cursor p - po_after p) (drop (po_after p) ?es)"
  proof (cases "po_got p = []")
    case True
    then show ?thesis using len by simp
  next
    case False
    show ?thesis
    proof (rule nth_equalityI)
      show "length (po_got p) = length (take (po_cursor p - po_after p) (drop (po_after p) ?es))"
        using bound[OF False] len by simp
      show "po_got p ! k = take (po_cursor p - po_after p) (drop (po_after p) ?es) ! k" if "k < length (po_got p)" for k
        using nth[OF that] that len by simp
    qed
  qed
qed

text \<open>
  C7. A subscriber reads the log of its stream. Whatever producers, the clock, timers, aborts and other subscribers do, in any
  order, what a subscriber has received is the part of the log that begins right after the number it asked for and ends at
  its position: in order, without a gap and without a repetition. The events of the log are numbered 1, 2, 3 and so on, and
  no subscriber ever meets a missing event. The id stands for one stream, so nothing was put under it after it expired.
\<close>

theorem subscriber_reads_log:
  assumes "sys_reachable s" and "p \<in> set (sy_pollers s)" and "only_stream (po_stream p) a (sy_store s)"
  shows "po_got p = take (po_cursor p - po_after p) (drop (po_after p) (stream_log (sy_store s) a)) \<and>
         map sq_number (stream_log (sy_store s) a) = map Suc [0..<length (stream_log (sy_store s) a)] \<and>
         po_state p \<noteq> Ended Poll_corrupt"
proof -
  have wf: "store_wf (sy_store s)" "poller_wf (sy_store s) p"
    using sys_reachable_wf[OF assms(1)] assms(2) by (auto simp: sys_wf_def)
  have "dense (stream_log (sy_store s) a)" using wf(1) assms(3) by (simp add: store_wf_def only_stream_def)
  moreover have "po_state p \<noteq> Ended Poll_corrupt" using wf(2) by (auto simp: poller_wf_def)
  ultimately show ?thesis using poller_slice(1)[OF wf assms(3)] by (simp add: dense_def)
qed

theorem no_lost_wakeup:
  assumes "sys_reachable s" and "p \<in> set (sy_pollers s)" and "po_state p = Parked"
  shows "\<exists>a. js_get (st_live (sy_store s)) (po_stream p) = Some a \<and>
           length (stream_log (sy_store s) a) \<le> po_cursor p \<and>
           (\<forall>d. es_expires_at (st_objects (sy_store s) ! a) = Some d \<longrightarrow>
              es_timer (st_objects (sy_store s) ! a) = Some d)"
proof -
  have "store_wf (sy_store s)" "parked_ok (sy_store s) p"
    using sys_reachable_wf[OF assms(1)] assms(2) by (auto simp: sys_wf_def)
  then show ?thesis using assms(3) by (auto simp: parked_ok_def store_wf_def)
qed

text \<open>
  While nobody appends, a consumer that keeps asking gets the rest of the log, one event at a time, and is then at the
  end of it.
\<close>

lemma poll_next_delivers:
  assumes "store_wf st" and "poller_wf st p" and "parked_ok st p"
    and live: "js_get (st_live st) (po_stream p) = Some a" and only: "only_stream (po_stream p) a st"
    and unexpired: "\<And>d. es_expires_at (st_objects st ! a) = Some d \<Longrightarrow> now < d"
    and running: "\<And>r. po_state p \<noteq> Ended r" "\<not> po_aborted p" and behind: "po_cursor p < length (stream_log st a)"
  shows "\<exists>n. poll_next now st p = (st, [],
           p\<lparr>po_got := po_got p @ [stream_log st a ! po_cursor p], po_cursor := po_cursor p + 1, po_state := Yielding a n\<rparr>)"
proof -
  have obj: "a < length (st_objects st)" "es_id (st_objects st ! a) = po_stream p"
    using assms(1) live by (auto simp: store_wf_def)
  have "getLiveStream (po_stream p) now st = (st, [], Some a)"
    using live unexpired by (auto simp: getLiveStream_def not_le split: option.split)
  then have pass: "poll_pass now st p = (st, [], poll_yield a (length (stream_log st a)) st p)"
    using running(2) behind by (simp add: poll_pass_def Let_def)
  note y = poll_yield_ok(1)[OF assms(1,2) obj behind order_refl]
  show ?thesis
  proof (cases "po_state p")
    case At_top
    then show ?thesis using pass y by (auto simp: poll_next_def)
  next
    case Parked
    then show ?thesis using assms(3) live behind by (simp add: parked_ok_def)
  next
    case (Yielding b n)
    then have b: "b = a" "n \<le> length (stream_log st a)" using assms(2) only by (auto simp: poller_wf_def only_stream_def)
    then show ?thesis using pass y poll_yield_ok(1)[OF assms(1,2) obj, of n] Yielding by (auto simp: poll_next_def)
  qed (use running in simp)
qed

lemma wake_nothing [simp]: "map (wake []) ps = ps"
  by (induction ps) (simp_all add: wake_def)

text \<open>
  C8. A subscriber catches up. However it came to be where it is, parked, in the middle of a pass or woken, a subscriber of
  a live stream that asks for the next event often enough, with nothing else in between, has received everything that the
  log has after the number it asked for: none waits while there are events it has not seen.
\<close>

theorem consumer_catches_up:
  assumes "sys_reachable s" and "i < length (sy_pollers s)" and "po_stream (sy_pollers s ! i) = sid"
    and "js_get (st_live (sy_store s)) sid = Some a" and "only_stream sid a (sy_store s)"
    and "\<And>d. es_expires_at (st_objects (sy_store s) ! a) = Some d \<Longrightarrow> sy_now s < d"
    and "\<And>r. po_state (sy_pollers s ! i) \<noteq> Ended r" and "\<not> po_aborted (sy_pollers s ! i)"
    and "po_cursor (sy_pollers s ! i) \<le> length (stream_log (sy_store s) a)"
  shows "\<exists>k s'. (sys_next i ^^ k) s = s' \<and> sy_store s' = sy_store s \<and>
           po_got (sy_pollers s' ! i) = drop (po_after (sy_pollers s ! i)) (stream_log (sy_store s) a)"
  using assms
proof (induction "length (stream_log (sy_store s) a) - po_cursor (sy_pollers s ! i)" arbitrary: s)
  case 0
  have wf: "store_wf (sy_store s)" "poller_wf (sy_store s) (sy_pollers s ! i)"
    using sys_reachable_wf[OF "0.prems"(1)] "0.prems"(2) by (auto simp: sys_wf_def)
  have "po_cursor (sy_pollers s ! i) = length (stream_log (sy_store s) a)" using "0.hyps" "0.prems"(9) by simp
  then have "po_got (sy_pollers s ! i) = drop (po_after (sy_pollers s ! i)) (stream_log (sy_store s) a)"
    using poller_slice(1)[OF wf] "0.prems"(3,5) by simp
  then show ?case by (intro exI[of _ 0] exI[of _ s]) simp
next
  case (Suc m)
  let ?p = "sy_pollers s ! i"
  have wf: "store_wf (sy_store s)" "poller_wf (sy_store s) ?p" "parked_ok (sy_store s) ?p"
    using sys_reachable_wf[OF Suc.prems(1)] Suc.prems(2) by (auto simp: sys_wf_def)
  have behind: "po_cursor ?p < length (stream_log (sy_store s) a)" using Suc.hyps(2) by simp
  obtain n where n: "poll_next (sy_now s) (sy_store s) ?p = (sy_store s, [],
      ?p\<lparr>po_got := po_got ?p @ [stream_log (sy_store s) a ! po_cursor ?p], po_cursor := po_cursor ?p + 1,
        po_state := Yielding a n\<rparr>)" (is "_ = (_, _, ?q)")
    using poll_next_delivers[OF wf, of a "sy_now s"] Suc.prems(3-8) behind by auto
  define t where "t = sys_next i s"
  have t: "sy_store t = sy_store s" "sy_now t = sy_now s" "length (sy_pollers t) = length (sy_pollers s)"
    "sy_pollers t ! i = ?q"
    using n Suc.prems(2) by (simp_all add: t_def sys_next_def)
  have "sys_reachable t" unfolding t_def by (rule sys_reachable_step[OF Suc.prems(1) step_next[OF Suc.prems(2)]])
  moreover have "m = length (stream_log (sy_store t) a) - po_cursor (sy_pollers t ! i)"
    unfolding t using Suc.hyps(2) by simp
  ultimately obtain k s' where "(sys_next i ^^ k) t = s'" "sy_store s' = sy_store t"
    "po_got (sy_pollers s' ! i) = drop (po_after (sy_pollers t ! i)) (stream_log (sy_store t) a)"
    using Suc.hyps(1)[of t] Suc.prems t behind by auto
  then show ?case using t by (intro exI[of _ "Suc k"] exI[of _ s']) (simp add: t_def funpow_swap1)
qed

text \<open>A stream with three events and a subscriber that has seen the first.\<close>

definition demo_subscribed :: "nat stream_system" where
  "demo_subscribed = sys_subscribe ''s'' (Some 1)
     (sys_append ''s'' 8 None (sys_append ''s'' 7 None (sys_append ''s'' 6 (Some 900) (start_system 0))))"

lemma demo_subscribed_reachable: "sys_reachable demo_subscribed"
  unfolding demo_subscribed_def
  by (rule sys_reachable_step[OF _ step_subscribe], (rule sys_reachable_step[OF _ step_append])+, rule sys_reachable_start)

definition demo_reading :: "nat stream_system" where
  "demo_reading = sys_next 0 demo_subscribed"

lemma demo_reading_reachable: "sys_reachable demo_reading"
proof -
  have "length (sy_pollers demo_subscribed) = 1" by code_simp
  then show ?thesis unfolding demo_reading_def
    by (intro sys_reachable_step[OF demo_subscribed_reachable step_next]) simp
qed

lemma demo_only_stream: "only_stream ''s'' 0 (sy_store demo_subscribed)" "only_stream ''s'' 0 (sy_store demo_reading)"
proof -
  have "map es_id (st_objects (sy_store demo_subscribed)) = [''s'']" "map es_id (st_objects (sy_store demo_reading)) = [''s'']"
    by code_simp+
  then show "only_stream ''s'' 0 (sy_store demo_subscribed)" "only_stream ''s'' 0 (sy_store demo_reading)"
    by (auto simp: only_stream_def)
qed

definition demo_reader :: "nat poller" where
  "demo_reader = sy_pollers demo_reading ! 0"

theorem subscriber_reads_log_witness:
  "po_got demo_reader =
     take (po_cursor demo_reader - po_after demo_reader) (drop (po_after demo_reader) (stream_log (sy_store demo_reading) 0)) \<and>
   map sq_event (po_got demo_reader) = [7]"
proof -
  have l: "length (sy_pollers demo_reading) = 1" by code_simp
  have "po_stream demo_reader = ''s''" "map sq_event (po_got demo_reader) = [7]" by code_simp+
  moreover have "demo_reader \<in> set (sy_pollers demo_reading)" unfolding demo_reader_def using l by simp
  ultimately show ?thesis using subscriber_reads_log[OF demo_reading_reachable, of demo_reader 0] demo_only_stream(2) by simp
qed

theorem consumer_catches_up_witness:
  "\<exists>k s'. (sys_next 0 ^^ k) demo_reading = s' \<and> sy_store s' = sy_store demo_reading \<and>
     map sq_event (po_got (sy_pollers s' ! 0)) = [7, 8]"
proof -
  have "length (sy_pollers demo_reading) = 1" "po_stream (sy_pollers demo_reading ! 0) = ''s''"
    "js_get (st_live (sy_store demo_reading)) ''s'' = Some 0" "po_state (sy_pollers demo_reading ! 0) = Yielding 0 3"
    "po_aborted (sy_pollers demo_reading ! 0) = False" "po_cursor (sy_pollers demo_reading ! 0) = 2"
    "map sq_event (drop (po_after (sy_pollers demo_reading ! 0)) (stream_log (sy_store demo_reading) 0)) = [7, 8]"
    "length (stream_log (sy_store demo_reading) 0) = 3" "sy_now demo_reading = 0"
    "es_expires_at (st_objects (sy_store demo_reading) ! 0) = Some 900000"
    by code_simp+
  then show ?thesis
    using consumer_catches_up[OF demo_reading_reachable, of 0 "''s''" 0] demo_only_stream(2) by fastforce
qed

text \<open>
  An event put after the stream has expired but before its timer has run starts a new stream under the same id. A
  parked subscriber is woken, but finds the new stream instead of the end of the old one: it waits until the new log
  has passed its cursor and misses what came before.
\<close>

lemma restarted_stream_skips:
  "let s1 = sys_next 0 (sys_next 0 (sys_subscribe ''s'' None (sys_append ''s'' (1 :: nat) (Some 100) (start_system 0))));
       s2 = s1\<lparr>sy_now := sy_now s1 + 100000\<rparr>;
       s3 = sys_next 0 (sys_append ''s'' 2 None s2);
       s4 = sys_next 0 (sys_append ''s'' 3 None s3)
   in map po_state (sy_pollers s3) = [Parked] \<and>
      map (map (\<lambda>e. (sq_number e, sq_event e)) o po_got) (sy_pollers s4) = [[(1, 1), (2, 3)]]"
  by code_simp

end
