(* ===== verification/Active_Turns.thy ===== *)
theory Active_Turns
  imports Session_Handle Event_Log
begin

text \<open>
  The turns that execute in a process: the registry \<open>runtime/activeTurns.ts\<close>, the cancellation of a turn in
  \<open>apis/sessions.ts\<close>, and in \<open>apis/turns.ts\<close> the drain that copies the events of a turn into its stream.

  A run is the object behind a registered turn: its controller, the reason of an abort, and whether it has completed.
  The map of the registry and a waiting shutdown refer to runs by address. What another process answers to a request
  over Redis is a parameter; log lines and metrics other than the number of active turns are left out.
\<close>

section \<open>The registry\<close>

definition activeTurnKey :: "string \<Rightarrow> string \<Rightarrow> string" where
  "activeTurnKey sessionId turnId = sessionId @ '':'' @ turnId"

record active_run =
  ar_key :: string
  ar_aborted :: "cancellation_reason option"
  ar_completed :: bool

record turn_registry =
  rg_objects :: "active_run list"
  rg_runs :: "(string, nat) js_map"
  rg_shutdown :: "cancellation_reason option"
  rg_active :: int

definition empty_registry :: turn_registry where
  "empty_registry = \<lparr>rg_objects = [], rg_runs = [], rg_shutdown = None, rg_active = 0\<rparr>"

text \<open>\<open>abort\<close> on a controller that may be aborted already: the first reason stays.\<close>

definition abort_reason :: "cancellation_reason \<Rightarrow> cancellation_reason option \<Rightarrow> cancellation_reason option" where
  "abort_reason reason signalled = (case signalled of None \<Rightarrow> Some reason | Some r \<Rightarrow> Some r)"

definition abort_run :: "cancellation_reason \<Rightarrow> nat \<Rightarrow> turn_registry \<Rightarrow> turn_registry" where
  "abort_run reason a reg =
     reg\<lparr>rg_objects := (rg_objects reg)[a := (rg_objects reg ! a)
       \<lparr>ar_aborted := abort_reason reason (ar_aborted (rg_objects reg ! a))\<rparr>]\<rparr>"

definition track :: "string \<Rightarrow> string \<Rightarrow> cancellation_reason option \<Rightarrow> turn_registry \<Rightarrow> turn_registry \<times> nat" where
  "track sessionId turnId signalled reg =
     (let key = activeTurnKey sessionId turnId;
          a = length (rg_objects reg);
          reg1 = reg\<lparr>rg_objects := rg_objects reg @ [\<lparr>ar_key = key, ar_aborted = signalled, ar_completed = False\<rparr>],
                     rg_runs := js_set key a (rg_runs reg), rg_active := rg_active reg + 1\<rparr>
      in (case rg_shutdown reg1 of None \<Rightarrow> reg1 | Some reason \<Rightarrow> abort_run reason a reg1, a))"

text \<open>The \<open>finally\<close> of the tracked stream.\<close>

definition complete_run :: "nat \<Rightarrow> turn_registry \<Rightarrow> turn_registry" where
  "complete_run a reg =
     (let run = rg_objects reg ! a;
          reg1 = reg\<lparr>rg_objects := (rg_objects reg)[a := run\<lparr>ar_completed := True\<rparr>], rg_active := rg_active reg - 1\<rparr>
      in if js_get (rg_runs reg1) (ar_key run) = Some a
         then reg1\<lparr>rg_runs := js_delete (ar_key run) (rg_runs reg1)\<rparr> else reg1)"

definition cancelIfRunning ::
    "string \<Rightarrow> string \<Rightarrow> cancellation_reason \<Rightarrow> turn_registry \<Rightarrow> turn_registry \<times> bool" where
  "cancelIfRunning sessionId turnId reason reg =
     (case js_get (rg_runs reg) (activeTurnKey sessionId turnId) of
        None \<Rightarrow> (reg, False)
      | Some a \<Rightarrow> (abort_run reason a reg, True))"

section \<open>Shutdown\<close>

text \<open>A call of \<open>shutdownAndWait\<close>: waiting for the runs of a snapshot, or returned.\<close>

datatype shutdown_call = Not_called | Waiting cancellation_reason "nat list" | Shut_down

definition shutdown_round :: "cancellation_reason \<Rightarrow> turn_registry \<Rightarrow> turn_registry \<times> shutdown_call" where
  "shutdown_round reason reg =
     (if length (rg_runs reg) > 0
      then let pending = js_values (rg_runs reg) in (fold (abort_run reason) pending reg, Waiting reason pending)
      else (reg, Shut_down))"

definition shutdownAndWait :: "cancellation_reason \<Rightarrow> turn_registry \<Rightarrow> turn_registry \<times> shutdown_call" where
  "shutdownAndWait reason reg = shutdown_round reason (reg\<lparr>rg_shutdown := Some reason\<rparr>)"

text \<open>\<open>Promise.allSettled\<close> resolves when every run of the snapshot has completed.\<close>

definition all_settled :: "nat list \<Rightarrow> turn_registry \<Rightarrow> bool" where
  "all_settled pending reg = list_all (\<lambda>a. ar_completed (rg_objects reg ! a)) pending"

text \<open>New turns, the end of a stream, aborts by a timeout or a client, and the shutdown, in any order.\<close>

inductive registry_step :: "turn_registry \<times> shutdown_call \<Rightarrow> turn_registry \<times> shutdown_call \<Rightarrow> bool" where
  reg_track: "registry_step (reg, sd) (fst (track sid tid signalled reg), sd)"
| reg_complete: "a < length (rg_objects reg) \<Longrightarrow> \<not> ar_completed (rg_objects reg ! a) \<Longrightarrow>
    registry_step (reg, sd) (complete_run a reg, sd)"
| reg_timeout: "a < length (rg_objects reg) \<Longrightarrow> registry_step (reg, sd) (abort_run reason a reg, sd)"
| reg_cancel: "registry_step (reg, sd) (fst (cancelIfRunning sid tid reason reg), sd)"
| reg_shutdown: "registry_step (reg, Not_called) (shutdownAndWait reason reg)"
| reg_settled: "all_settled pending reg \<Longrightarrow> registry_step (reg, Waiting reason pending) (shutdown_round reason reg)"

definition registry_reachable :: "turn_registry \<times> shutdown_call \<Rightarrow> bool" where
  "registry_reachable s = registry_step\<^sup>*\<^sup>* (empty_registry, Not_called) s"

section \<open>Cancelling a turn\<close>

text \<open>The owning process answers with a status, or the request times out or fails.\<close>

datatype peer_reply = Peer_status nat | Peer_failed

text \<open>The handler of that process.\<close>

definition cancelSessionTurnPeerHandler ::
    "(string \<times> string \<times> cancellation_reason) option \<Rightarrow> turn_registry \<Rightarrow> turn_registry \<times> nat" where
  "cancelSessionTurnPeerHandler body reg =
     (case body of None \<Rightarrow> (reg, 400)
      | Some (sid, tid, reason) \<Rightarrow>
          let (reg', found) = cancelIfRunning sid tid reason reg in (reg', if found then 200 else 412))"

definition freezeTurnIgnoringMissing :: "session_env \<Rightarrow> string \<Rightarrow> cancellation_reason \<Rightarrow> unit session_call" where
  "freezeTurnIgnoringMissing env tid reason s =
     (case freezeTurn env tid reason s of
        (s', Inr t) \<Rightarrow> (s', Inr ())
      | (s', Inl (Raised_by_store (Turn_not_found i))) \<Rightarrow> (s', Inr ())
      | (s', Inl x) \<Rightarrow> (s', Inl x))"

definition cancelSessionTurn ::
    "session_env \<Rightarrow> string \<Rightarrow> (string \<Rightarrow> peer_reply) option \<Rightarrow> string \<Rightarrow> cancellation_reason option
     \<Rightarrow> turn_registry \<times> session_handle \<Rightarrow> (turn_registry \<times> session_handle) \<times> (raised + unit)" where
  "cancelSessionTurn env executor_id redis tid requested rs =
     (let (reg, s) = rs;
          sid = sr_session_id (sh_session s);
          reason = (case requested of None \<Rightarrow> Client_cancelled | Some r \<Rightarrow> r);
          freeze = (\<lambda>reg. case freezeTurnIgnoringMissing env tid reason s of (s', r) \<Rightarrow> ((reg, s'), r))
      in case getTurn sid tid (sh_store s) of
           None \<Rightarrow> ((reg, s), Inr ())
         | Some turn \<Rightarrow>
             if state_status (tr_state turn) \<noteq> St_running then ((reg, s), Inr ())
             else (case (if tr_active_executor_id turn \<noteq> executor_id then redis else None) of
                 Some request \<Rightarrow>
                   if request (tr_active_executor_id turn) = Peer_status 200 then ((reg, s), Inr ()) else freeze reg
               | None \<Rightarrow>
                   let (reg', aborted) = cancelIfRunning sid tid reason reg in
                   if aborted then ((reg', s), Inr ()) else freeze reg'))"

section \<open>Copying the events of a turn into its stream\<close>

record stream_ttls =
  TURN_STREAM_TTL_SECONDS :: int
  TURN_STREAM_POST_COMPLETION_TTL_SECONDS :: int

fun streamTTLSecondsFor :: "stream_ttls \<Rightarrow> streaming_event \<Rightarrow> int option" where
  "streamTTLSecondsFor cfg (Durable row) =
     (case pe_body row of
        Ev_turn_created tid prev inp \<Rightarrow> Some (TURN_STREAM_TTL_SECONDS cfg)
      | Ev_turn_done st \<Rightarrow> Some (TURN_STREAM_POST_COMPLETION_TTL_SECONDS cfg)
      | _ \<Rightarrow> None)"
| "streamTTLSecondsFor cfg (Delta d) = None"

text \<open>
  The loop over the events of the turn, each with the time it is put; \<open>sink\<close> says whether the forwarding of an event
  with its number throws, which ends the drain. What is returned are the store, the ids woken and what was forwarded.
\<close>

fun drainTurnEvents ::
    "stream_ttls \<Rightarrow> (streaming_event \<Rightarrow> nat \<Rightarrow> bool) \<Rightarrow> string \<Rightarrow> (int \<times> streaming_event) list
     \<Rightarrow> streaming_event stream_store \<Rightarrow> streaming_event stream_store \<times> string list \<times> (streaming_event \<times> nat) list" where
  "drainTurnEvents cfg sink streamId [] st = (st, [], [])"
| "drainTurnEvents cfg sink streamId ((now, e) # es) st =
     (let (st1, woken, n) = put_event streamId e (streamTTLSecondsFor cfg e) now st in
      if sink e n then (st1, woken, [(e, n)])
      else let (st2, woken2, sent) = drainTurnEvents cfg sink streamId es st1 in (st2, woken @ woken2, (e, n) # sent))"

end
