(* ===== verification/Active_Turns_Props.thy ===== *)
theory Active_Turns_Props
  imports Active_Turns Event_Log_Props Session_Handle_Props
begin

text \<open>
  Properties of the running turns: once a shutdown has begun every registered run is aborted, and the shutdown ends
  when they have completed; a cancellation aborts the run where it executes or leaves the stored turn terminal; and
  the stream of a turn holds what its drain has forwarded, under the same numbers.
\<close>

section \<open>The registry\<close>

abbreviation run_at :: "turn_registry \<Rightarrow> nat \<Rightarrow> active_run" where
  "run_at reg a \<equiv> rg_objects reg ! a"

definition incomplete :: "turn_registry \<Rightarrow> nat" where
  "incomplete reg = length (filter (\<lambda>r. \<not> ar_completed r) (rg_objects reg))"

text \<open>
  The map holds runs that have not completed, under their own keys; the gauge counts them and those whose key was
  taken over; after the begin of a shutdown no registered run is left unaborted.
\<close>

definition registry_wf :: "turn_registry \<Rightarrow> bool" where
  "registry_wf reg \<longleftrightarrow>
     distinct (js_keys (rg_runs reg)) \<and>
     (\<forall>k a. js_get (rg_runs reg) k = Some a \<longrightarrow>
        a < length (rg_objects reg) \<and> ar_key (run_at reg a) = k \<and> \<not> ar_completed (run_at reg a) \<and>
        (rg_shutdown reg \<noteq> None \<longrightarrow> ar_aborted (run_at reg a) \<noteq> None)) \<and>
     rg_active reg = int (incomplete reg)"

lemma runs_range:
  assumes "\<And>k a. js_get (rg_runs reg) k = Some a \<Longrightarrow> a < length (rg_objects reg)" and "distinct (js_keys (rg_runs reg))"
  shows "\<forall>a \<in> set (js_values (rg_runs reg)). a < length (rg_objects reg)"
  using assms by (meson js_value_get)

lemma abort_reason_Some [simp]: "abort_reason r x \<noteq> None" "\<exists>y. abort_reason r x = Some y" "x \<noteq> None \<Longrightarrow> abort_reason r x = x"
  by (auto simp: abort_reason_def split: option.split)

lemma abort_run_simps [simp]:
  "length (rg_objects (abort_run r a reg)) = length (rg_objects reg)"
  "rg_runs (abort_run r a reg) = rg_runs reg"
  "rg_shutdown (abort_run r a reg) = rg_shutdown reg"
  "rg_active (abort_run r a reg) = rg_active reg"
  "b < length (rg_objects reg) \<Longrightarrow> run_at (abort_run r a reg) b =
     (if b = a then (run_at reg b)\<lparr>ar_aborted := abort_reason r (ar_aborted (run_at reg b))\<rparr> else run_at reg b)"
  by (auto simp: abort_run_def nth_list_update)

lemma completed_abort:
  "a < length (rg_objects reg) \<Longrightarrow>
     map ar_completed (rg_objects (abort_run r a reg)) = map ar_completed (rg_objects reg)"
  by (rule nth_equalityI) simp_all

lemma incomplete_completed: "incomplete reg = length (filter Not (map ar_completed (rg_objects reg)))"
  by (simp add: incomplete_def filter_map o_def)

lemma incomplete_abort [simp]: "a < length (rg_objects reg) \<Longrightarrow> incomplete (abort_run r a reg) = incomplete reg"
  by (simp only: incomplete_completed completed_abort)

lemma registry_wfI:
  assumes "distinct (js_keys (rg_runs reg))" and "rg_active reg = int (incomplete reg)"
    and "\<And>k a. js_get (rg_runs reg) k = Some a \<Longrightarrow>
        a < length (rg_objects reg) \<and> ar_key (run_at reg a) = k \<and> \<not> ar_completed (run_at reg a) \<and>
        (rg_shutdown reg \<noteq> None \<longrightarrow> ar_aborted (run_at reg a) \<noteq> None)"
  shows "registry_wf reg"
  unfolding registry_wf_def using assms by blast

lemma abort_run_wf: "registry_wf reg \<Longrightarrow> a < length (rg_objects reg) \<Longrightarrow> registry_wf (abort_run r a reg)"
  by (auto simp: registry_wf_def)

lemma track_wf:
  assumes "registry_wf reg"
  shows "registry_wf (fst (track sid tid signalled reg))"
proof -
  define key where "key = activeTurnKey sid tid"
  define reg1 where "reg1 = reg\<lparr>rg_objects := rg_objects reg @ [\<lparr>ar_key = key, ar_aborted = signalled, ar_completed = False\<rparr>],
      rg_runs := js_set key (length (rg_objects reg)) (rg_runs reg), rg_active := rg_active reg + 1\<rparr>"
  have t: "fst (track sid tid signalled reg) =
      (case rg_shutdown reg of None \<Rightarrow> reg1 | Some reason \<Rightarrow> abort_run reason (length (rg_objects reg)) reg1)"
    by (simp add: track_def reg1_def key_def Let_def split: option.split)
  have obj: "b < length (rg_objects reg) \<Longrightarrow> run_at reg1 b = run_at reg b"
    "run_at reg1 (length (rg_objects reg)) = \<lparr>ar_key = key, ar_aborted = signalled, ar_completed = False\<rparr>" for b
    by (simp_all add: reg1_def nth_append)
  have fields: "length (rg_objects reg1) = Suc (length (rg_objects reg))" "rg_shutdown reg1 = rg_shutdown reg"
    "js_get (rg_runs reg1) k = (if k = key then Some (length (rg_objects reg)) else js_get (rg_runs reg) k)"
    "distinct (js_keys (rg_runs reg1))" "rg_active reg1 = int (incomplete reg1)" for k
    using assms by (simp_all add: reg1_def registry_wf_def js_distinct_set incomplete_def)
  show ?thesis
  proof (cases "rg_shutdown reg")
    case None
    then show ?thesis using assms fields obj by (auto simp: t registry_wf_def less_Suc_eq)
  next
    case (Some reason)
    define reg2 where "reg2 = abort_run reason (length (rg_objects reg)) reg1"
    have "a < length (rg_objects reg2) \<and> ar_key (run_at reg2 a) = k \<and> \<not> ar_completed (run_at reg2 a) \<and>
        ar_aborted (run_at reg2 a) \<noteq> None" if "js_get (rg_runs reg2) k = Some a" for k a
    proof (cases "k = key")
      case True
      with that have "a = length (rg_objects reg)" by (simp add: reg2_def fields)
      then show ?thesis using True by (simp add: reg2_def fields obj)
    next
      case False
      with that have old: "js_get (rg_runs reg) k = Some a" by (simp add: reg2_def fields)
      then have "a < length (rg_objects reg)" using assms by (auto simp: registry_wf_def)
      then have "run_at reg2 a = run_at reg a" "a < length (rg_objects reg2)" by (simp_all add: reg2_def fields obj)
      then show ?thesis using assms old Some by (auto simp: registry_wf_def)
    qed
    moreover have "distinct (js_keys (rg_runs reg2))" "rg_active reg2 = int (incomplete reg2)"
      by (simp_all add: reg2_def fields)
    ultimately have "registry_wf reg2" by (intro registry_wfI) blast+
    then show ?thesis by (simp add: t Some reg2_def)
  qed
qed

lemma complete_run_simps:
  assumes "registry_wf reg" and "a < length (rg_objects reg)"
  shows "length (rg_objects (complete_run a reg)) = length (rg_objects reg)"
    "rg_shutdown (complete_run a reg) = rg_shutdown reg" "rg_active (complete_run a reg) = rg_active reg - 1"
    "b < length (rg_objects reg) \<Longrightarrow> run_at (complete_run a reg) b =
       (if b = a then (run_at reg b)\<lparr>ar_completed := True\<rparr> else run_at reg b)"
    "js_get (rg_runs (complete_run a reg)) k =
       (if js_get (rg_runs reg) k = Some a then None else js_get (rg_runs reg) k)"
    "distinct (js_keys (rg_runs (complete_run a reg)))"
proof -
  have key: "js_get (rg_runs reg) k = Some a \<Longrightarrow> k = ar_key (run_at reg a)" for k
    using assms(1) by (auto simp: registry_wf_def)
  show "length (rg_objects (complete_run a reg)) = length (rg_objects reg)"
    "rg_shutdown (complete_run a reg) = rg_shutdown reg" "rg_active (complete_run a reg) = rg_active reg - 1"
    by (simp_all add: complete_run_def Let_def)
  show "b < length (rg_objects reg) \<Longrightarrow> run_at (complete_run a reg) b =
       (if b = a then (run_at reg b)\<lparr>ar_completed := True\<rparr> else run_at reg b)"
    by (simp add: complete_run_def Let_def)
  show "js_get (rg_runs (complete_run a reg)) k =
       (if js_get (rg_runs reg) k = Some a then None else js_get (rg_runs reg) k)"
  proof (cases "js_get (rg_runs reg) (ar_key (run_at reg a)) = Some a")
    case True
    then have "js_get (rg_runs reg) k = Some a \<longleftrightarrow> k = ar_key (run_at reg a)" using key[of k] by blast
    with True show ?thesis by (simp add: complete_run_def Let_def)
  next
    case False
    then have "js_get (rg_runs reg) k \<noteq> Some a" using key[of k] by blast
    with False show ?thesis by (simp add: complete_run_def Let_def)
  qed
  have "distinct (js_keys (rg_runs reg))" using assms(1) unfolding registry_wf_def by blast
  then show "distinct (js_keys (rg_runs (complete_run a reg)))"
    by (simp add: complete_run_def Let_def js_distinct_delete)
qed

lemma filter_update_count:
  "a < length xs \<Longrightarrow> \<not> P y \<Longrightarrow> P (xs ! a) \<Longrightarrow> Suc (length (filter P (xs[a := y]))) = length (filter P xs)"
  by (induction xs arbitrary: a) (auto simp: nth_Cons split: nat.splits)

lemma complete_run_wf:
  assumes "registry_wf reg" and "a < length (rg_objects reg)" and "\<not> ar_completed (run_at reg a)"
  shows "registry_wf (complete_run a reg)"
proof -
  note c = complete_run_simps[OF assms(1,2)]
  have "Suc (incomplete (complete_run a reg)) = incomplete reg"
    using filter_update_count[of a "rg_objects reg" "\<lambda>r. \<not> ar_completed r" "(run_at reg a)\<lparr>ar_completed := True\<rparr>"] assms(2,3)
    by (simp add: incomplete_def complete_run_def Let_def)
  then have "rg_active (complete_run a reg) = int (incomplete (complete_run a reg))"
    using assms(1) c(3) by (simp add: registry_wf_def)
  then show ?thesis
    using assms(1) c(1,2,5,6) c(4) by (auto simp: registry_wf_def split: if_splits)
qed

lemma fold_abort:
  assumes "\<forall>a \<in> set as. a < length (rg_objects reg)"
  shows "rg_runs (fold (abort_run r) as reg) = rg_runs reg" "rg_shutdown (fold (abort_run r) as reg) = rg_shutdown reg"
    "rg_active (fold (abort_run r) as reg) = rg_active reg" "incomplete (fold (abort_run r) as reg) = incomplete reg"
    "length (rg_objects (fold (abort_run r) as reg)) = length (rg_objects reg)"
    "b < length (rg_objects reg) \<Longrightarrow>
       ar_key (run_at (fold (abort_run r) as reg) b) = ar_key (run_at reg b) \<and>
       ar_completed (run_at (fold (abort_run r) as reg) b) = ar_completed (run_at reg b) \<and>
       ar_aborted (run_at (fold (abort_run r) as reg) b) =
         (if b \<in> set as then abort_reason r (ar_aborted (run_at reg b)) else ar_aborted (run_at reg b))"
  using assms by (induction as arbitrary: reg) (simp_all split: if_splits)

lemma shutdown_round_wf:
  assumes "registry_wf (reg\<lparr>rg_shutdown := None\<rparr>)" and "rg_shutdown reg \<noteq> None"
  shows "registry_wf (fst (shutdown_round r reg))"
proof (cases "rg_runs reg = []")
  case True
  then show ?thesis using assms by (simp add: shutdown_round_def registry_wf_def incomplete_def)
next
  case False
  have runs: "a < length (rg_objects reg)" if "a \<in> set (js_values (rg_runs reg))" for a
    using assms(1) that runs_range[of reg] by (auto simp: registry_wf_def)
  note f = fold_abort[where as = "js_values (rg_runs reg)" and reg = reg and r = r]
  have "fst (shutdown_round r reg) = fold (abort_run r) (js_values (rg_runs reg)) reg"
    using False by (simp add: shutdown_round_def Let_def)
  moreover have "registry_wf (fold (abort_run r) (js_values (rg_runs reg)) reg)"
    using assms(1) f runs by (auto simp: registry_wf_def incomplete_def dest: js_get_value)
  ultimately show ?thesis by simp
qed

text \<open>The runs that a shutdown waits for are objects of the registry, whose number only grows.\<close>

fun awaits_runs :: "turn_registry \<times> shutdown_call \<Rightarrow> bool" where
  "awaits_runs (reg, Waiting r as) = (\<forall>a \<in> set as. a < length (rg_objects reg))"
| "awaits_runs s = True"

lemma awaits_runs_mono:
  "awaits_runs (reg, sd) \<Longrightarrow> length (rg_objects reg) \<le> length (rg_objects reg') \<Longrightarrow> awaits_runs (reg', sd)"
  by (cases sd) auto

lemma track_length: "length (rg_objects (fst (track sid tid signalled reg))) = Suc (length (rg_objects reg))"
  by (simp add: track_def Let_def split: option.split)

lemma complete_length [simp]: "length (rg_objects (complete_run a reg)) = length (rg_objects reg)"
  by (simp add: complete_run_def Let_def)

lemma cancel_length: "length (rg_objects (fst (cancelIfRunning sid tid reason reg))) = length (rg_objects reg)"
  by (simp add: cancelIfRunning_def split: option.split)

lemma shutdown_round_awaits:
  assumes "\<And>k a. js_get (rg_runs reg) k = Some a \<Longrightarrow> a < length (rg_objects reg)" and "distinct (js_keys (rg_runs reg))"
  shows "awaits_runs (shutdown_round r reg)"
  using runs_range[OF assms] fold_abort(5)[OF runs_range[OF assms]] by (simp add: shutdown_round_def Let_def)

lemma shutdown_round_reason:
  assumes "\<And>k a. js_get (rg_runs reg) k = Some a \<Longrightarrow> a < length (rg_objects reg)" and "distinct (js_keys (rg_runs reg))"
  shows "rg_shutdown (fst (shutdown_round r reg)) = rg_shutdown reg"
  using fold_abort(2)[OF runs_range[OF assms]] by (simp add: shutdown_round_def Let_def)

lemma registry_step_awaits:
  assumes "registry_step s s'" and "registry_wf (fst s)" and "awaits_runs s"
  shows "awaits_runs s'"
  using assms
proof (cases rule: registry_step.cases)
  case (reg_shutdown reg reason)
  then show ?thesis using assms(2) shutdown_round_awaits[of "reg\<lparr>rg_shutdown := Some reason\<rparr>" reason]
    by (auto simp: shutdownAndWait_def registry_wf_def)
next
  case (reg_settled as reg reason)
  then show ?thesis using assms(2) shutdown_round_awaits[of reg reason] by (auto simp: registry_wf_def)
qed (auto simp: track_length cancel_length elim!: awaits_runs_mono)

lemma registry_step_wf:
  assumes "registry_step s s'" and "registry_wf (fst s)" and "snd s \<noteq> Not_called \<longrightarrow> rg_shutdown (fst s) \<noteq> None"
  shows "registry_wf (fst s') \<and> (snd s' \<noteq> Not_called \<longrightarrow> rg_shutdown (fst s') \<noteq> None)"
  using assms
proof (cases rule: registry_step.cases)
  case (reg_track reg sd sid tid signalled)
  have "rg_shutdown (fst (track sid tid signalled reg)) = rg_shutdown reg"
    by (simp add: track_def Let_def split: option.split)
  then show ?thesis using reg_track assms track_wf by simp
next
  case (reg_complete a reg sd)
  then show ?thesis using assms complete_run_wf complete_run_simps(2) by simp
next
  case (reg_timeout a reg sd reason)
  then show ?thesis using assms abort_run_wf by simp
next
  case (reg_cancel reg sd sid tid reason)
  then show ?thesis using assms abort_run_wf
    by (auto simp: cancelIfRunning_def registry_wf_def split: option.split)
next
  case (reg_shutdown reg reason)
  have "registry_wf (reg\<lparr>rg_shutdown := None\<rparr>)"
    using assms(2) reg_shutdown by (auto simp: registry_wf_def incomplete_def)
  then have "registry_wf (fst (shutdownAndWait reason reg))"
    using shutdown_round_wf[of "reg\<lparr>rg_shutdown := Some reason\<rparr>" reason] by (simp add: shutdownAndWait_def)
  moreover have "rg_shutdown (fst (shutdownAndWait reason reg)) = Some reason"
    using assms(2) reg_shutdown shutdown_round_reason[of "reg\<lparr>rg_shutdown := Some reason\<rparr>" reason]
    by (auto simp: shutdownAndWait_def registry_wf_def)
  ultimately show ?thesis using reg_shutdown by simp
next
  case (reg_settled awaited reg reason)
  have "registry_wf (reg\<lparr>rg_shutdown := None\<rparr>)"
    using assms(2) reg_settled by (auto simp: registry_wf_def incomplete_def)
  then have "registry_wf (fst (shutdown_round reason reg))"
    using shutdown_round_wf assms(3) reg_settled by simp
  moreover have "rg_shutdown (fst (shutdown_round reason reg)) = rg_shutdown reg"
    using assms(2) reg_settled shutdown_round_reason[of reg reason] by (auto simp: registry_wf_def)
  ultimately show ?thesis using reg_settled assms(3) by simp
qed

lemma registry_reachable_wf:
  assumes "registry_reachable s"
  shows "registry_wf (fst s) \<and> (snd s \<noteq> Not_called \<longrightarrow> rg_shutdown (fst s) \<noteq> None) \<and> awaits_runs s"
proof -
  from assms have "registry_step\<^sup>*\<^sup>* (empty_registry, Not_called) s" by (simp add: registry_reachable_def)
  then show ?thesis
  proof (induction rule: rtranclp_induct)
    case base
    then show ?case by (simp add: registry_wf_def empty_registry_def incomplete_def js_keys_def)
  next
    case (step s s')
    then show ?case using registry_step_wf[OF step(2)] registry_step_awaits[OF step(2)] by blast
  qed
qed

section \<open>Shutdown\<close>

theorem shutdown_aborts_all:
  assumes "registry_reachable (reg, sd)" and "sd \<noteq> Not_called" and "js_get (rg_runs reg) key = Some a"
  shows "\<not> ar_completed (run_at reg a) \<and> ar_aborted (run_at reg a) \<noteq> None \<and> rg_active reg = int (incomplete reg)"
  using registry_reachable_wf[OF assms(1)] assms(2,3) by (auto simp: registry_wf_def)

text \<open>The streams of all runs end.\<close>

definition complete_all :: "turn_registry \<Rightarrow> turn_registry" where
  "complete_all reg = fold complete_run (filter (\<lambda>a. \<not> ar_completed (run_at reg a)) [0..<length (rg_objects reg)]) reg"

lemma complete_many:
  assumes "registry_wf reg" and "distinct as" and "\<forall>a \<in> set as. a < length (rg_objects reg) \<and> \<not> ar_completed (run_at reg a)"
  shows "registry_wf (fold complete_run as reg) \<and>
    length (rg_objects (fold complete_run as reg)) = length (rg_objects reg) \<and>
    (\<forall>b < length (rg_objects reg). ar_completed (run_at (fold complete_run as reg) b) \<longleftrightarrow>
       b \<in> set as \<or> ar_completed (run_at reg b))"
  using assms
proof (induction as arbitrary: reg)
  case (Cons a as)
  have a: "a < length (rg_objects reg)" "\<not> ar_completed (run_at reg a)" using Cons.prems(3) by simp_all
  note c = complete_run_simps[OF Cons.prems(1) a(1)]
  have wf: "registry_wf (complete_run a reg)" by (rule complete_run_wf[OF Cons.prems(1) a])
  have inc: "\<forall>b \<in> set as. b < length (rg_objects (complete_run a reg)) \<and> \<not> ar_completed (run_at (complete_run a reg) b)"
  proof
    fix b
    assume "b \<in> set as"
    then have "b < length (rg_objects reg)" "\<not> ar_completed (run_at reg b)" "b \<noteq> a" using Cons.prems(2,3) by auto
    then show "b < length (rg_objects (complete_run a reg)) \<and> \<not> ar_completed (run_at (complete_run a reg) b)"
      using c(4)[of b] by simp
  qed
  have "distinct as" using Cons.prems(2) by simp
  note ih = Cons.IH[OF wf this inc]
  have "ar_completed (run_at (complete_run a reg) b) \<longleftrightarrow> b = a \<or> ar_completed (run_at reg b)" if "b < length (rg_objects reg)" for b
    using c(4)[OF that] by simp
  with ih show ?case by auto
qed simp

theorem shutdown_ends:
  assumes "registry_reachable (reg, Waiting reason awaited)"
  shows "all_settled awaited (complete_all reg) \<and>
         shutdown_round reason (complete_all reg) = (complete_all reg, Shut_down) \<and>
         rg_active (complete_all reg) = 0"
proof -
  let ?as = "filter (\<lambda>a. \<not> ar_completed (run_at reg a)) [0..<length (rg_objects reg)]"
  have "registry_wf reg" and range: "\<forall>a \<in> set awaited. a < length (rg_objects reg)"
    using registry_reachable_wf[OF assms(1)] by simp_all
  then have c: "registry_wf (complete_all reg)" "length (rg_objects (complete_all reg)) = length (rg_objects reg)"
    "\<forall>b < length (rg_objects reg). ar_completed (run_at (complete_all reg) b)"
  proof -
    have "distinct ?as" "\<forall>a \<in> set ?as. a < length (rg_objects reg) \<and> \<not> ar_completed (run_at reg a)" by simp_all
    note m = complete_many[OF \<open>registry_wf reg\<close> this]
    show "registry_wf (complete_all reg)" "length (rg_objects (complete_all reg)) = length (rg_objects reg)"
      using m by (simp_all add: complete_all_def)
    show "\<forall>b < length (rg_objects reg). ar_completed (run_at (complete_all reg) b)"
      unfolding complete_all_def using m by (metis (no_types, lifting) atLeast_upt lessThan_iff mem_Collect_eq set_filter)
  qed
  have "rg_runs (complete_all reg) = []"
  proof (rule ccontr)
    assume "rg_runs (complete_all reg) \<noteq> []"
    then obtain v where "v \<in> set (js_values (rg_runs (complete_all reg)))"
      by (cases "rg_runs (complete_all reg)") (auto simp: js_values_def)
    then obtain k where "js_get (rg_runs (complete_all reg)) k = Some v"
      using c(1) by (auto simp: registry_wf_def elim: js_value_get)
    with c show False by (auto simp: registry_wf_def)
  qed
  moreover have "incomplete (complete_all reg) = 0"
    using c(2,3) by (auto simp: incomplete_def filter_empty_conv in_set_conv_nth)
  ultimately show ?thesis using c range by (simp add: all_settled_def list_all_iff shutdown_round_def registry_wf_def)
qed

section \<open>Cancelling a turn\<close>

lemma cancelIfRunning_aborts:
  assumes "registry_wf reg" and "cancelIfRunning sid tid reason reg = (reg', True)"
  shows "\<exists>a. js_get (rg_runs reg') (activeTurnKey sid tid) = Some a \<and> ar_aborted (run_at reg' a) \<noteq> None"
  using assms by (auto simp: cancelIfRunning_def registry_wf_def split: option.splits)

lemma cancelIfRunning_False: "cancelIfRunning sid tid reason reg = (reg', False) \<Longrightarrow> reg' = reg"
  by (auto simp: cancelIfRunning_def split: option.splits)

text \<open>The other processes answer a request with what their handler does to their registry, or not at all.\<close>

definition aborted_there :: "turn_registry \<Rightarrow> string \<Rightarrow> string \<Rightarrow> bool" where
  "aborted_there reg sid tid \<longleftrightarrow>
     (\<exists>a. js_get (rg_runs reg) (activeTurnKey sid tid) = Some a \<and> ar_aborted (run_at reg a) \<noteq> None)"

definition peers_answer ::
    "(string \<Rightarrow> turn_registry) \<Rightarrow> string \<Rightarrow> string \<Rightarrow> cancellation_reason \<Rightarrow> (string \<Rightarrow> peer_reply) \<Rightarrow> bool" where
  "peers_answer registries sid tid reason request \<longleftrightarrow>
     (\<forall>p. registry_wf (registries p) \<and>
        (request p = Peer_failed \<or>
         request p = Peer_status (snd (cancelSessionTurnPeerHandler (Some (sid, tid, reason)) (registries p)))))"

lemma peer_confirms:
  assumes "peers_answer registries sid tid reason request" and "request p = Peer_status 200"
  shows "aborted_there (fst (cancelSessionTurnPeerHandler (Some (sid, tid, reason)) (registries p))) sid tid"
proof -
  have "registry_wf (registries p)"
    "snd (cancelSessionTurnPeerHandler (Some (sid, tid, reason)) (registries p)) = 200"
    using assms by (auto simp: peers_answer_def dest!: spec[of _ p])
  then show ?thesis
    using cancelIfRunning_aborts[of "registries p" sid tid reason]
    by (auto simp: cancelSessionTurnPeerHandler_def aborted_there_def split: prod.splits if_splits)
qed

lemma freeze_outcome:
  assumes "freezeTurnIgnoringMissing env tid reason s = (s', Inr ())"
  shows "case getTurn (sr_session_id (sh_session s)) tid (sh_store s') of
           None \<Rightarrow> True | Some t \<Rightarrow> \<not> isNonTerminalTurnState (tr_state t)"
proof -
  let ?sid = "sr_session_id (sh_session s)"
  let ?st = "se_rival env (sh_tick s) (sh_store s)"
  obtain st r where f: "freezeAndGetTurn (se_clock env (sh_tick s)) ?sid tid reason
      (cancelledTurnDoneEvent env (sh_tick s) reason) ?st = (st, r)" by fastforce
  show ?thesis
  proof (cases r)
    case (Inr t)
    then have "sh_store s' = st" using assms f
      by (auto simp: freezeTurnIgnoringMissing_def freezeTurn_def session_write_def)
    moreover have "turn_at st (turnKey ?sid tid) = Some t \<and> \<not> isNonTerminalTurnState (tr_state t)"
      using frozen_turn[OF f[unfolded Inr]] by simp
    ultimately show ?thesis by (simp add: getTurn_def)
  next
    case (Inl e)
    then obtain i where e: "e = Turn_not_found i" and s': "sh_store s' = st" using assms f
      by (auto simp: freezeTurnIgnoringMissing_def freezeTurn_def session_write_def split: raised.splits store_error.splits)
    have never: "snd (applyTurnStateToSession a b c st0 s0) \<noteq> Inl (Turn_not_found i)" for a b c st0 s0
      by (auto simp: applyTurnStateToSession_def requireSession_def parse_last_turn_details_def Let_def
          split: sum.split option.split)
    have "requireTurn ?st ?sid tid = Inl (Turn_not_found i) \<and> st = ?st"
    proof (cases "requireTurn ?st ?sid tid")
      case (Inl x)
      then show ?thesis using f \<open>r = Inl e\<close> e by (simp add: freezeAndGetTurn_def)
    next
      case (Inr t)
      then show ?thesis using f \<open>r = Inl e\<close> e never
        by (auto simp: freezeAndGetTurn_def Let_def split: if_splits prod.splits sum.splits) (metis snd_conv)+
    qed
    then have "js_get (st_turns st) (turnKey ?sid tid) = None"
      by (auto simp: requireTurn_def split: option.splits)
    then show ?thesis using s' by (simp add: getTurn_def)
  qed
qed

text \<open>
  C3. A cancellation of a running turn that returns has taken effect, and lost no race: its run is aborted in this process, or
  in the process that the turn names as its owner, or the stored turn is gone or terminal, and then whatever the owner still
  writes as the end of the turn is refused and changes nothing. The request to the owner may fail or
  time out; if it is answered, then by the handler of the owner, as its registry has it.
\<close>

theorem cancel_takes_effect:
  assumes "registry_reachable (reg, sd)"
    and "\<And>request. redis = Some request \<Longrightarrow>
        peers_answer registries sid tid (case requested of None \<Rightarrow> Client_cancelled | Some r \<Rightarrow> r) request"
    and "sr_session_id (sh_session s) = sid" and "getTurn sid tid (sh_store s) = Some t" and "state_status (tr_state t) = St_running"
    and "cancelSessionTurn env executor_id redis tid requested (reg, s) = ((reg', s'), Inr ())"
  shows "aborted_there reg' sid tid \<or>
         tr_active_executor_id t \<noteq> executor_id \<and> redis \<noteq> None \<and>
           aborted_there (fst (cancelSessionTurnPeerHandler
             (Some (sid, tid, case requested of None \<Rightarrow> Client_cancelled | Some r \<Rightarrow> r)) (registries (tr_active_executor_id t)))) sid tid \<or>
         (case getTurn sid tid (sh_store s') of None \<Rightarrow> True | Some t' \<Rightarrow> \<not> isNonTerminalTurnState (tr_state t')) \<and>
           (\<forall>clk final ev. \<exists>e. updateTurnTerminalState clk sid tid final ev (sh_store s') = (sh_store s', Inl e))"
    (is "?here \<or> ?there \<or> ?stored")
proof -
  let ?reason = "case requested of None \<Rightarrow> Client_cancelled | Some r \<Rightarrow> r"
  have wf: "registry_wf reg" using registry_reachable_wf[OF assms(1)] by simp
  have freeze: ?stored if "freezeTurnIgnoringMissing env tid ?reason s = (s', Inr ())"
    using freeze_outcome[OF that] assms(3)
    by (auto simp: getTurn_def updateTurnTerminalState_def requireTurn_def split: option.splits)
  show ?thesis
  proof (cases "if tr_active_executor_id t \<noteq> executor_id then redis else None")
    case local: None
    obtain reg1 found where c: "cancelIfRunning sid tid ?reason reg = (reg1, found)" by fastforce
    show ?thesis
    proof (cases found)
      case f: True
      then have "reg' = reg1" using assms(3-6) local c by (auto simp: cancelSessionTurn_def Let_def)
      then show ?thesis using cancelIfRunning_aborts[OF wf] c f by (auto simp: aborted_there_def)
    next
      case f: False
      then have "freezeTurnIgnoringMissing env tid ?reason s = (s', Inr ())"
        using assms(3-6) local c by (auto simp: cancelSessionTurn_def Let_def split: prod.splits)
      then show ?thesis using freeze by blast
    qed
  next
    case remote: (Some request)
    then have redis: "tr_active_executor_id t \<noteq> executor_id" "redis = Some request" by (simp_all split: if_splits)
    show ?thesis
    proof (cases "request (tr_active_executor_id t) = Peer_status 200")
      case p: True
      from peer_confirms[OF assms(2)[OF redis(2)] p] redis show ?thesis by blast
    next
      case p: False
      then have "freezeTurnIgnoringMissing env tid ?reason s = (s', Inr ())"
        using assms(3-6) remote by (auto simp: cancelSessionTurn_def Let_def split: prod.splits)
      then show ?thesis using freeze by blast
    qed
  qed
qed

definition demo_registry :: turn_registry where
  "demo_registry = fst (track ''s1'' ''t1'' None empty_registry)"

theorem cancel_takes_effect_witness:
  "\<exists>reg' s'. cancelSessionTurn demo_session_env ''e1'' None ''t1'' None (demo_registry, demo_session_handle) =
       ((reg', s'), Inr ()) \<and> aborted_there reg' ''s1'' ''t1''"
proof -
  have "map_option (\<lambda>t. (tr_state t, tr_active_executor_id t)) (getTurn ''s1'' ''t1'' (sh_store demo_session_handle)) =
      Some (Turn_running, ''e1'')" by code_simp
  then obtain t where t: "getTurn ''s1'' ''t1'' (sh_store demo_session_handle) = Some t" "tr_state t = Turn_running"
    "tr_active_executor_id t = ''e1''" by auto
  have sid: "sr_session_id (sh_session demo_session_handle) = ''s1''" by code_simp
  have reachable: "registry_reachable (demo_registry, Not_called)"
    unfolding registry_reachable_def demo_registry_def by (rule r_into_rtranclp, rule reg_track)
  have found: "snd (cancelIfRunning ''s1'' ''t1'' Client_cancelled demo_registry)" by code_simp
  obtain reg' where c: "cancelIfRunning ''s1'' ''t1'' Client_cancelled demo_registry = (reg', True)"
    using found by (metis prod.collapse)
  have eq: "cancelSessionTurn demo_session_env ''e1'' None ''t1'' None (demo_registry, demo_session_handle) =
      ((reg', demo_session_handle), Inr ())"
    by (simp add: cancelSessionTurn_def sid t c Let_def)
  have running: "state_status (tr_state t) = St_running" by (simp add: t)
  have "aborted_there reg' ''s1'' ''t1''"
    using cancel_takes_effect[OF reachable _ sid t(1) running eq, of "\<lambda>p. empty_registry"] t by simp
  with eq show ?thesis by blast
qed

section \<open>The stream of a turn\<close>

definition live_log :: "'e stream_store \<Rightarrow> string \<Rightarrow> 'e sequenced_event list" where
  "live_log st sid = (case js_get (st_live st) sid of None \<Rightarrow> [] | Some a \<Rightarrow> stream_log st a)"

definition live_deadline :: "'e stream_store \<Rightarrow> string \<Rightarrow> int option" where
  "live_deadline st sid = (case js_get (st_live st) sid of None \<Rightarrow> None | Some a \<Rightarrow> es_expires_at (st_objects st ! a))"

definition deadline_after :: "int option \<Rightarrow> int \<Rightarrow> int option \<Rightarrow> int option" where
  "deadline_after ttl now d = (case ttl of Some t \<Rightarrow> if t > 0 then Some (now + t * 1000) else d | None \<Rightarrow> d)"

text \<open>No event of the turn comes after the stream has expired.\<close>

fun in_time :: "stream_ttls \<Rightarrow> int option \<Rightarrow> (int \<times> streaming_event) list \<Rightarrow> bool" where
  "in_time cfg d [] = True"
| "in_time cfg d ((now, e) # es) =
     ((case d of None \<Rightarrow> True | Some t \<Rightarrow> now < t) \<and>
      in_time cfg (deadline_after (streamTTLSecondsFor cfg e) now d) es)"

lemma push_event_deadline: "es_expires_at (push_event e ttl now s) = deadline_after ttl now (es_expires_at s)"
  by (auto simp: push_event_def scheduleExpiry_def deadline_after_def Let_def split: option.split)

lemma append_in_time:
  assumes "store_wf st" and "put_event sid e ttl now st = (st', woken, n)"
    and "case live_deadline st sid of None \<Rightarrow> True | Some t \<Rightarrow> now < t"
  shows "store_wf st' \<and> live_log st' sid = live_log st sid @ [\<lparr>sq_event = e, sq_number = n\<rparr>] \<and>
    n = Suc (length (live_log st sid)) \<and> live_deadline st' sid = deadline_after ttl now (live_deadline st sid)"
proof -
  have wf': "store_wf st'" using put_event_ok[OF assms(1,2)] by (simp add: op_ok_def)
  show ?thesis
  proof (cases "js_get (st_live st) sid")
    case None
    then show ?thesis using assms(2) wf'
      by (auto simp: put_event_def getLiveStream_def live_log_def live_deadline_def update_object_def nth_append
          push_event_deadline)
  next
    case (Some a)
    then have a: "a < length (st_objects st)" using assms(1) by (auto simp: store_wf_def)
    have "getLiveStream sid now st = (st, [], Some a)"
      using Some assms(3) by (auto simp: getLiveStream_def live_deadline_def split: option.splits)
    then show ?thesis using assms(2) wf' Some a
      by (auto simp: put_event_def live_log_def live_deadline_def update_object_def push_event_deadline)
  qed
qed

theorem drain_fills_stream:
  assumes "store_wf st" and "in_time cfg (live_deadline st streamId) es"
    and "drainTurnEvents cfg sink streamId es st = (st', woken, sent)"
  shows "store_wf st' \<and>
    live_log st' streamId = live_log st streamId @ map (\<lambda>(e, n). \<lparr>sq_event = e, sq_number = n\<rparr>) sent \<and>
    map fst sent = take (length sent) (map snd es) \<and>
    (length sent = length es \<or> (\<exists>e n. last sent = (e, n) \<and> sent \<noteq> [] \<and> sink e n))"
  using assms
proof (induction cfg sink streamId es st arbitrary: st' woken sent rule: drainTurnEvents.induct)
  case (2 cfg sink streamId now e es st)
  obtain st1 w1 n where a: "put_event streamId e (streamTTLSecondsFor cfg e) now st = (st1, w1, n)"
    by (cases "put_event streamId e (streamTTLSecondsFor cfg e) now st")
  have s1: "store_wf st1" "live_log st1 streamId = live_log st streamId @ [\<lparr>sq_event = e, sq_number = n\<rparr>]"
    "live_deadline st1 streamId = deadline_after (streamTTLSecondsFor cfg e) now (live_deadline st streamId)"
    using append_in_time[OF "2.prems"(1) a] "2.prems"(2) by simp_all
  show ?case
  proof (cases "sink e n")
    case True
    then show ?thesis using "2.prems"(3) a s1 by auto
  next
    case False
    obtain st2 w2 sent2 where d: "drainTurnEvents cfg sink streamId es st1 = (st2, w2, sent2)"
      by (cases "drainTurnEvents cfg sink streamId es st1")
    have "in_time cfg (live_deadline st1 streamId) es" using "2.prems"(2) s1(3) by simp
    note ih = "2.IH"[OF a[symmetric] refl refl False s1(1) this d]
    have "st' = st2" "sent = (e, n) # sent2" using "2.prems"(3) a d False by simp_all
    with ih s1(2) show ?thesis by auto
  qed
qed simp

end
