(* ===== verification/Spec2Isabelle.thy ===== *)
theory Spec2Isabelle
  imports Session_Contract Session_Paging Session_Chain Session_Isolation Session_Metrics Conversation_Props
    Tool_Selection_Props Tool_Calls_Props Agent_Thread_Props Agent_Thread_Input
    Orchestrator_Props Orchestrator_Sync Orchestrator_Metrics Orchestrator_Input
    Turn_Handle_Props Turn_Resolver_Props Session_Handle_Props Outbound_Fetch_Props
    Deferred_Tools_Props Large_Responses_Props Context_Compaction_Props User_Input_Props
    Login_Admission_Props Access_Control_Props Login_Flow_Props Event_Log_Props Active_Turns_Props
begin

text \<open>
  A verification development for TrueForge, the agent harness of \<open>src/packages/trueforge-core/src\<close>, and for the parts of its
  server, \<open>src/packages/trueforge/src\<close>, that decide who may do what and how the events of a turn reach its subscribers.

  \<^bold>\<open>The program.\<close> A session holds turns. A turn runs an agent: a root thread, which asks a model, calls tools and
  asks for sub-agents, and the threads of those. \<open>core/runtime/AgentThread.ts\<close> is one thread,
  \<open>core/runtime/AgentThreadOrchestrator.ts\<close> the threads of one turn; \<open>core/mcp\<close> decides which tools a model
  sees and how a call of one is run; \<open>agent-session/store\<close> keeps sessions, turns and their event logs. Threads
  talk to the rest only in events: what they yield is stored and replayed when the turn is resumed. The server runs turns for requests: it admits the caller,
  keeps a registry of the turns that run in the process, copies their events into streams that subscribers can resume, and
  cancels turns wherever they run.

  \<^bold>\<open>Theories and code.\<close> Each part has its definitions in one theory and its properties in others.
  \<^item> \<open>JS_Prelude\<close>: what the code uses of JavaScript, that is maps and sets with insertion order, strings, ISO
    dates, stable sorts, JSON values; errors are \<open>Inl\<close> of a sum. \<open>Generator\<close>: async generators as functions of
    the object they belong to, which return the events they yield with the state at each yield, and the result.
    Its sections \<open>keeps\<close>, \<open>maintains\<close> and \<open>ensures\<close> are the calculus for fields, invariants and triples over
    generators; the locale \<open>replica\<close> is the contract of an object whose events can be replayed.
  \<^item> \<open>Wire_Types\<close>, \<open>Session_Types\<close>, \<open>Agent_Events\<close>: the records and unions of the schemas.
  \<^item> \<open>Conversation\<close> (\<open>core/runtime/contextUtils.ts\<close>, \<open>OpenToolCallCloser.ts\<close>, \<open>contextUsage.ts\<close>, metrics):
    open calls of a context, pending approvals, the closer, usage. Lemmas in \<open>Conversation_Props\<close>.
  \<^item> \<open>Page_Tokens\<close>, \<open>Session_Store\<close> (\<open>agent-session/store/InMemorySessionStore.ts\<close>): page tokens and every
    operation of the store over one record \<open>store\<close>. \<open>Session_Invariant\<close> has the invariant, \<open>Session_Steps\<close> the
    step relation with its reachable stores, \<open>Session_Turns\<close>, \<open>Session_Contract\<close>, \<open>Session_Chain\<close>,
    \<open>Session_Isolation\<close>, \<open>Session_Metrics\<close> and \<open>Session_Paging\<close> what the operations promise.
  \<^item> \<open>Tool_Selection\<close> (\<open>core/mcp/toolSelectors.ts\<close>, \<open>ToolSelectorPolicy.ts\<close>, \<open>toolNames.ts\<close>,
    \<open>convertMCPServers.ts\<close>, \<open>pagination.ts\<close>) and \<open>Tool_Calls\<close> (\<open>ToolSet.ts\<close>, \<open>LocalToolMCP.ts\<close>,
    \<open>executeToolCalls.ts\<close>), with \<open>Tool_Selection_Props\<close> and \<open>Tool_Calls_Props\<close>. \<open>Thrown_Errors\<close>
    (\<open>core/errors.ts\<close>, \<open>core/util/errorLogFields.ts\<close>): thrown values and the text a user sees of them.
  \<^item> \<open>Agent_Thread\<close> (\<open>AgentThread.ts\<close>): the record \<open>agent_thread\<close> with the fields of the class, every method a
    generator over it. \<open>Agent_Thread_Sync\<close> replays its events, \<open>Agent_Thread_Runs\<close> is the contract of an
    invariant of a run (the locales \<open>step_observer\<close>, \<open>tool_observer\<close>, \<open>ending_observer\<close>, \<open>llm_observer\<close> and
    \<open>thread_observer\<close>), \<open>Agent_Thread_Props\<close>, \<open>Agent_Thread_Phases\<close> and \<open>Agent_Thread_Input\<close> rest on it.
  \<^item> \<open>Orchestrator\<close> (\<open>AgentThreadOrchestrator.ts\<close>, \<open>mergeAsyncGenerators\<close> of \<open>core/util/promiseUtils.ts\<close>): the
    map of live threads and what runs over it. \<open>Orchestrator_Tree\<close> has the tree of threads and the locale
    \<open>thread_host\<close>, the contract of what survives the writes of one thread; \<open>Orchestrator_Runs\<close> follows an
    execution event by event, \<open>Orchestrator_Sync\<close> with a consumer that replays it; \<open>Orchestrator_Props\<close>,
    \<open>Orchestrator_Metrics\<close> and \<open>Orchestrator_Input\<close> state the other results.
  \<^item> \<open>Turn_Handle\<close> (\<open>agent-session/TurnHandle.ts\<close>, the messages of \<open>store/SessionStoreErrors.ts\<close>): the handle of a turn
    over the store, whose \<open>stream\<close> runs the orchestrator, persists every event and writes the end of the turn.
    \<open>Turn_Handle_Runs\<close> follows it with what the log has of what the consumer saw, \<open>Turn_Handle_Sync\<close> with what
    the stored snapshot has of the threads, both by the triples \<open>tells\<close> of \<open>Generator\<close>; \<open>Turn_Handle_Props\<close> has
    the results.
  \<^item> \<open>Turn_Resolver\<close> (\<open>agent-session/TurnResourceResolver.ts\<close>, \<open>builtinsFromSpec.ts\<close>): agent specs and what a turn
    is run with, with \<open>Turn_Resolver_Props\<close>. \<open>Session_Handle\<close> (\<open>agent-session/SessionHandle.ts\<close>, \<open>Sessions.ts\<close>): the
    handle of a session, whose \<open>createTurn\<close> builds threads from the snapshot of the previous turn, sends the input and
    commits. \<open>Session_Commit\<close> shows that the row it commits is the record of the live threads, so that it meets
    what \<open>Turn_Handle_Props\<close> asks of a handle; \<open>Session_Handle_Props\<close> has the results.
  \<^item> \<open>Ip_Address\<close>: what the code uses of \<open>node:net\<close>, addresses as words and block lists. \<open>Outbound_Guard\<close>
    (\<open>core/util/ssrfGuard.ts\<close>, \<open>outboundFetch.ts\<close>): which hosts and addresses a request may go to, redirects and
    retries. \<open>Outbound_Guard_Props\<close> is about addresses, \<open>Outbound_Fetch_Props\<close> about requests.
  \<^item> \<open>Deferred_Tools\<close> (\<open>core/runtime/DeferredTool.ts\<close>): the tools that find and call the tools of other servers; in
    \<open>Deferred_Tools_Props\<close> the locale \<open>gated_servers\<close> is what they ask of the servers, and gives them the contract
    \<open>gated_calls\<close> of a tool set. \<open>Context_Compaction\<close> and \<open>Large_Responses\<close> (\<open>core/capabilities/builtins\<close>): processors of an
    agent thread; \<open>User_Input\<close> (\<open>core/runtime/UserInputMessage.ts\<close>): messages with files. Each has its \<open>_Props\<close>.
  \<^item> \<open>Login_Admission\<close> (\<open>auth/emailAllowlist.ts\<close>, \<open>claims.ts\<close>, \<open>token.ts\<close>, \<open>safeReturnTo.ts\<close> of the server): the allowlist
    with its regular expressions, the claims of a token, the token of a request, where a login may return to. \<open>Access_Control\<close>
    (\<open>auth/identity.ts\<close>, \<open>middleware.ts\<close>, the authenticators, \<open>authorizer.ts\<close>, \<open>truefoundry/TrueFoundryAuthorizer.ts\<close>,
    \<open>apis/agentAccess.ts\<close>): modes, roles, permissions and who may read what; the locale \<open>authenticator\<close> is the contract of an
    authenticator behind the middleware, interpreted for each of the three. \<open>Login_Flow\<close> (\<open>auth/oidc.ts\<close>, \<open>cookies.ts\<close>,
    \<open>apis/auth.ts\<close>): login, callback and me. Each has its \<open>_Props\<close>.
  \<^item> \<open>Event_Log\<close> (\<open>runtime/event-subscription/inMemory.ts\<close>): the event streams of a process as objects with timers, and their
    subscribers as a system of steps, with \<open>Event_Log_Props\<close>. \<open>Active_Turns\<close> (\<open>runtime/activeTurns.ts\<close>, the cancellation in
    \<open>apis/sessions.ts\<close>, the drain in \<open>apis/turns.ts\<close>): the registry of running turns, its shutdown, and a cancellation
    over the registry and the store, with \<open>Active_Turns_Props\<close>.
  \<^item> \<open>Agent_Thread_Demo\<close> and \<open>Orchestrator_Demo\<close> hold the concrete worlds on which witnesses evaluate.

  \<^bold>\<open>What is shown.\<close> The store: every reachable store is well formed, terminal turns and their logs are frozen, the
  first terminal write wins with all it does to the session, logs only grow, a session is isolated from the operations on
  others and from other tenants, deletion is complete, metrics of a
  session are sums of its turns, ancestor chains are complete, and following the page tokens gives every row
  once. Tools: selectors and names are consistent, a call that needs an approval is not executed without one,
  every call of a message has exactly one fate. Threads: the state at every yield is the replay of the events so
  far, a run ends a thread at most once, a run returns and asks the model at most as often as its limit allows,
  exactly the batches of the contract are accepted, a send settles what waits for the user, and at most one run
  is under way. The orchestrator: the tree of threads is whole at every yield of a turn for every interleaving,
  the events of a turn rebuild its live threads, an execution never ends without a reason, metrics are conserved, answers are checked before anything is
  written, a user message cancels all sub-agents, approval policies are applied all or none. The stream of a turn:
  whatever throws, whenever the consumer leaves and whatever other handles write meanwhile, the turn ends in the
  store with the state the stream announces last; of what the consumer sees, all but model messages, deltas
  and the end of the turn is logged before; the stored threads are
  at every yield those of a prefix of the execution, at a good end the live ones. A session: a turn that is created is
  stored as the threads it will run on, which form a tree; one that fails stores no turn and closes its resolver; a
  resolver that is asked one call after the other looks everything up once; an external id names one session even when it is created twice at once. Outbound requests: only allowed hosts
  are contacted, no notation of a blocked address gets through a lookup, credentials stay with their origin, calls that
  are not safe to repeat are not repeated, retries and pauses are bounded. Deferred tools open no way around an approval;
  large responses are cut to their limits, the largest first, and replaced by short texts; the files of a message are uploaded
  all or none and stay in their directory; compaction leaves a thread that has the summary and can go on. The server: the
  allowlist is a list of globs; who reaches an admin route; a login redirects to the provider or stays on the site, and sets a
  session cookie only for an admitted caller; a subscriber reads its log without a gap and catches up, no wakeup is
  lost; a cancellation that returns has taken effect; a shutdown aborts every run and ends.

  \<^bold>\<open>Bounds and fuel.\<close> \<open>thread_loop\<close> is total: each round uses up one of the model calls its limit leaves, or is
  the tool round between two of them. \<open>merge_loop\<close> is total: the events the running threads still have get
  fewer. \<open>exec_loop\<close> has fuel, since sub-agents may ask for sub-agents without end; its properties hold for
  every fuel, and running out is the value \<open>None\<close>. \<open>cursor_loop\<close> is a partial function, with a theorem that it
  returns against any server with finitely many cursors. \<open>guardedFetch\<close> and \<open>retry_loop\<close> count down the hops and the
  attempts that are left, as the code does. Token counts and costs are \<open>nat\<close> and \<open>rat\<close>: the code
  adds doubles, whose rounding is not modelled; page offsets and times are \<open>nat\<close> and \<open>int\<close>.

  \<^bold>\<open>Parameters.\<close> The model, tool servers, sandbox, capability processors, clock, ids, the abort signal, JSON text
  and the race between promises are fields of \<open>agent_env\<close> and \<open>orc_env\<close>, or arguments. A hypothesis on one of
  them is named where it is used: \<open>world_ok\<close> (new thread ids are fresh, the factory gives a thread the id and the
  parent it was asked for), \<open>world_blank\<close> (a new thread starts with an empty context), \<open>presend_appends\<close> (the type of the processors before a send), \<open>starts_empty\<close>. Of
  a \<open>turn_env\<close>: \<open>rivals_keep\<close> (what other handles do to the store are steps of the store that do not delete the
  turn) and \<open>rivals_spare\<close> (they leave the threads of a turn alone and at most cancel it, as \<open>freezeAndGetTurn\<close> does).
  Of a \<open>session_env\<close>, whose resolver answers by the number of the call: \<open>others_keep\<close> and \<open>others_spare\<close>, the same of
  the session; \<open>resumable\<close> says of a stored turn that its threads are a tree whose completions answer their calls.
  \<open>net_env\<close> is the outside of the guard: URL parser, DNS, the HTTP client, and random numbers between 0 and 1. Of the server: the
  verification of a token, the client of the login provider, the service of the platform and the stores of the database
  are arguments; \<open>peers_answer\<close> says that another process answers a cancellation by its handler or not at all;
  \<open>only_stream\<close> that no event was put under the id of a stream after that expired.

  \<^bold>\<open>Not modelled.\<close> Tracing, logging and metrics for operators, which do not change a result. The other
  HTTP APIs, databases, the Redis backends and start-up of the server package, the SDKs and the user interface: I/O, glue or
  generated code. Model adapters, the remote MCP client and the sandbox: third-party packages behind an interface
  that is a parameter here. Prompts are text, and the built-in capabilities that are not named above are tool definitions and prompts.
\<close>

end
